(* ===== verification/Prelude.thy ===== *)
theory Prelude
  imports Main "HOL-Library.AList" "HOL-Library.Sublist" "HOL-Library.Word"
begin

text \<open>
  What the component theories share: the Go types the code uses everywhere (times, durations,
  UUIDs, strings as byte strings, maps as association lists), the functions of Go's
  \<^verbatim>\<open>strings\<close> package the sources call, and generic lemmas on association lists.

  \<^item> \<open>time\<close> is the number of nanoseconds since Go's zero time (1 January of year 1, UTC), so that
    \<^verbatim>\<open>IsZero\<close> is \<open>t = 0\<close>; \<open>duration\<close> is a number of nanoseconds.
  \<^item> \<open>uuid\<close> is Go's \<^verbatim>\<open>[16]byte\<close> read as a 128-bit big-endian word; 0 is \<^verbatim>\<open>uuid.Nil\<close> and
    the byte-wise order of PostgreSQL is the order of the word.
  \<^item> A Go map is an association list with distinct keys: \<open>map_of\<close> reads, \<open>AList.update\<close> writes,
    \<open>AList.delete\<close> deletes, \<open>length\<close> is \<^verbatim>\<open>len\<close>.
  \<^item> A \<open>string\<close> is a list of bytes, as in Go. \<open>go_trim_space\<close> and \<open>go_to_lower\<close> treat the ASCII
    range; bytes above 127 are left alone.
\<close>

section \<open>Types\<close>

type_synonym time = int
type_synonym duration = int
type_synonym uuid = "128 word"
type_synonym ('k, 'v) gomap = "('k \<times> 'v) list"

abbreviation uuid_Nil :: uuid where "uuid_Nil \<equiv> 0"

definition second :: duration where "second = 1000000000"
definition minute :: duration where "minute = 60 * second"
definition hour :: duration where "hour = 60 * minute"

definition IsZero :: "time \<Rightarrow> bool" where "IsZero t \<longleftrightarrow> t = 0"

text \<open>\<^verbatim>\<open>time.Unix(sec, 0)\<close>: the Unix epoch is 62135596800 seconds after the zero time.\<close>

definition time_Unix :: "int \<Rightarrow> time" where
  "time_Unix sec = (sec + 62135596800) * second"

named_theorems duration_defs
declare second_def [duration_defs] minute_def [duration_defs] hour_def [duration_defs]

section \<open>Strings\<close>

definition HasPrefix :: "string \<Rightarrow> string \<Rightarrow> bool" where
  "HasPrefix s p \<longleftrightarrow> prefix p s"

definition TrimPrefix :: "string \<Rightarrow> string \<Rightarrow> string" where
  "TrimPrefix s p = (if HasPrefix s p then drop (length p) s else s)"

text \<open>\<^verbatim>\<open>strings.IndexByte\<close>: \<open>None\<close> is Go's \<open>-1\<close>.\<close>

fun IndexByte :: "string \<Rightarrow> char \<Rightarrow> nat option" where
  "IndexByte [] c = None"
| "IndexByte (x # xs) c = (if x = c then Some 0 else map_option Suc (IndexByte xs c))"

text \<open>\<^verbatim>\<open>strings.Split\<close> with a one-byte separator: never empty.\<close>

fun Split :: "string \<Rightarrow> char \<Rightarrow> string list" where
  "Split [] c = [[]]"
| "Split (x # xs) c =
     (if x = c then [] # Split xs c
      else (case Split xs c of [] \<Rightarrow> [[x]] | p # ps \<Rightarrow> (x # p) # ps))"

definition is_space :: "char \<Rightarrow> bool" where
  "is_space c \<longleftrightarrow> c \<in> {CHR 0x09, CHR 0x0A, CHR 0x0B, CHR 0x0C, CHR 0x0D, CHR '' ''}"

definition TrimSpace :: "string \<Rightarrow> string" where
  "TrimSpace s = rev (dropWhile is_space (rev (dropWhile is_space s)))"

definition lower_char :: "char \<Rightarrow> char" where
  "lower_char c =
     (let n = of_char c :: nat in if 65 \<le> n \<and> n \<le> 90 then char_of (n + 32) else c)"

definition ToLower :: "string \<Rightarrow> string" where
  "ToLower s = map lower_char s"

definition is_digit :: "char \<Rightarrow> bool" where
  "is_digit c \<longleftrightarrow> (let n = of_char c :: nat in 48 \<le> n \<and> n \<le> 57)"

lemma HasPrefix_append [simp]: "HasPrefix (p @ s) p"
  by (simp add: HasPrefix_def)

lemma HasPrefix_Cons [simp]:
  "HasPrefix s []" "\<not> HasPrefix [] (y # p)"
  "HasPrefix (x # s) (y # p) \<longleftrightarrow> x = y \<and> HasPrefix s p"
  by (auto simp: HasPrefix_def)

lemma TrimPrefix_append [simp]: "TrimPrefix (p @ s) p = s"
  by (simp add: TrimPrefix_def)

lemma HasPrefixE:
  assumes "HasPrefix s p"
  obtains r where "s = p @ r"
  using assms by (auto simp: HasPrefix_def prefix_def)

lemma IndexByte_append_notin:
  "c \<notin> set xs \<Longrightarrow> IndexByte (xs @ c # ys) c = Some (length xs)"
  by (induction xs) auto

lemma IndexByte_SomeD:
  "IndexByte s c = Some n \<Longrightarrow> n < length s \<and> s ! n = c \<and> c \<notin> set (take n s)"
  by (induction s arbitrary: n) (auto split: if_splits)

lemma Split_nonempty [simp]: "Split s c \<noteq> []"
  by (induction s c rule: Split.induct) (auto split: list.splits)

text \<open>Joining the parts with the separator gives the string back.\<close>

fun Join :: "string list \<Rightarrow> string \<Rightarrow> string" where
  "Join [] sep = []"
| "Join [p] sep = p"
| "Join (p # ps) sep = p @ sep @ Join ps sep"

lemma Join_Cons: "ps \<noteq> [] \<Longrightarrow> Join (p # ps) sep = p @ sep @ Join ps sep"
  by (cases ps) simp_all

lemma Join_Split [simp]: "Join (Split s c) [c] = s"
proof (induction s)
  case (Cons x xs)
  show ?case
  proof (cases "x = c")
    case True
    with Cons show ?thesis by (simp add: Join_Cons)
  next
    case False
    obtain p ps where ps: "Split xs c = p # ps"
      using Split_nonempty list.exhaust by metis
    with Cons have "Join (p # ps) [c] = xs" by simp
    with False ps show ?thesis by (cases ps) auto
  qed
qed simp

lemma list_all_Join:
  "(\<And>p. p \<in> set ps \<Longrightarrow> list_all P p) \<Longrightarrow> list_all P sep \<Longrightarrow> list_all P (Join ps sep)"
  by (induction ps sep rule: Join.induct) auto

lemma list_all_by_Split:
  "(\<And>p. p \<in> set (Split s c) \<Longrightarrow> list_all P p) \<Longrightarrow> P c \<Longrightarrow> list_all P s"
  using list_all_Join [of "Split s c" P "[c]"] by simp

lemma Split_no_sep: "p \<in> set (Split s c) \<Longrightarrow> c \<notin> set p"
  by (induction s c arbitrary: p rule: Split.induct) (auto split: if_splits list.splits)

lemma Split_notin: "c \<notin> set s \<Longrightarrow> Split s c = [s]"
  by (induction s) auto

lemma Split_append:
  "c \<notin> set p \<Longrightarrow> Split (p @ c # s) c = p # Split s c"
  by (induction p) auto

lemma Split_inject: "Split s c = Split t c \<longleftrightarrow> s = t"
  by (metis Join_Split)

section \<open>Association lists as Go maps\<close>

definition gomap_ok :: "('k, 'v) gomap \<Rightarrow> bool" where
  "gomap_ok m \<longleftrightarrow> distinct (map fst m)"

lemma gomap_ok_update [simp, intro]: "gomap_ok m \<Longrightarrow> gomap_ok (AList.update k v m)"
  by (simp add: gomap_ok_def distinct_update)

lemma gomap_ok_delete [simp, intro]: "gomap_ok m \<Longrightarrow> gomap_ok (AList.delete k m)"
  by (simp add: gomap_ok_def distinct_delete)

lemma gomap_ok_Nil [simp]: "gomap_ok []"
  by (simp add: gomap_ok_def)

lemma map_of_update [simp]: "map_of (AList.update k v m) = (map_of m)(k \<mapsto> v)"
  by (rule update_conv')

lemma map_of_delete [simp]: "map_of (AList.delete k m) = (map_of m)(k := None)"
  by (rule delete_conv')

lemma gomap_in_set_iff: "gomap_ok m \<Longrightarrow> (k, v) \<in> set m \<longleftrightarrow> map_of m k = Some v"
  by (simp add: gomap_ok_def)

lemma update_notin: "k \<notin> fst ` set m \<Longrightarrow> AList.update k v m = m @ [(k, v)]"
  by (induction m) auto

lemma length_update_notin:
  "k \<notin> fst ` set m \<Longrightarrow> length (AList.update k v m) = Suc (length m)"
  by (simp add: update_notin)

lemma length_delete_in:
  assumes "gomap_ok m" and "k \<in> fst ` set m"
  shows "Suc (length (AList.delete k m)) = length m"
  using assms
proof (induction m)
  case (Cons x m)
  show ?case
  proof (cases "k = fst x")
    case True
    with Cons.prems have "AList.delete k m = m"
      by (intro delete_id) (auto simp: gomap_ok_def)
    with True show ?thesis by simp
  next
    case False
    with Cons show ?thesis by (auto simp: gomap_ok_def)
  qed
qed simp

section \<open>Lists\<close>

lemma find_SomeD: "find P xs = Some x \<Longrightarrow> x \<in> set xs \<and> P x"
  by (induction xs) (auto split: if_splits)

section \<open>Results\<close>

text \<open>
  A Go function that returns \<open>(T, error)\<close> returns a value of \<open>'e + 'a\<close>: \<open>Inl\<close> is the error,
  \<open>Inr\<close> the value. \<open>and_then\<close> is the early return \<^verbatim>\<open>if err != nil { return err }\<close>.
\<close>

definition and_then :: "'e + 'a \<Rightarrow> ('a \<Rightarrow> 'e + 'b) \<Rightarrow> 'e + 'b" where
  "and_then r f = (case r of Inl e \<Rightarrow> Inl e | Inr x \<Rightarrow> f x)"

lemma and_then_simps [simp]: "and_then (Inl e) f = Inl e" "and_then (Inr x) f = f x"
  by (simp_all add: and_then_def)

lemma and_then_InrE [elim]:
  assumes "and_then r f = Inr y"
  obtains x where "r = Inr x" "f x = Inr y"
  using assms by (cases r) auto

end
