(* ===== verification/Cache_Spec.thy ===== *)
theory Cache_Spec
  imports Prelude
begin

text \<open>
  The contract of the token caches. Two components keep a bounded LRU cache of verified tokens in
  front of an expensive check: the ingest gateway (\<^verbatim>\<open>internal/ingestgw/cache.go\<close>) and the MCP server
  (\<^verbatim>\<open>internal/mcp/auth_cache.go\<close>). Their clients rely on one contract: a cache may forget, it never
  invents. The locale \<open>bounded_cache\<close> states it over the operations' effects on \<open>peek\<close> (what the
  cache holds for a key), and its lemmas compare a run of operations with the unbounded map
  \<open>ideal\<close> that forgets nothing. Both caches interpret it.

  \<open>lru_get\<close> and \<open>lru_put\<close> are the abstract LRU cache both refine: an association list from the most
  to the least recently used key.
\<close>

section \<open>The abstract LRU cache\<close>

fun lru_get :: "('v \<Rightarrow> bool) \<Rightarrow> ('v \<Rightarrow> bool) \<Rightarrow> 'k \<Rightarrow> ('k \<times> 'v) list \<Rightarrow> 'v option \<times> ('k \<times> 'v) list" where
  "lru_get expired matches k al =
     (case map_of al k of
        None \<Rightarrow> (None, al)
      | Some v \<Rightarrow>
          if expired v then (None, AList.delete k al)
          else if matches v then (Some v, (k, v) # AList.delete k al)
          else (None, al))"

definition lru_put :: "nat \<Rightarrow> 'k \<Rightarrow> 'v \<Rightarrow> ('k \<times> 'v) list \<Rightarrow> ('k \<times> 'v) list" where
  "lru_put cap k v al =
     (if k \<in> fst ` set al then (k, v) # AList.delete k al
      else (k, v) # take (cap - 1) al)"

lemma map_of_take_SomeD:
  "distinct (map fst al) \<Longrightarrow> map_of (take n al) k = Some v \<Longrightarrow> map_of al k = Some v"
  by (auto dest: map_of_SomeD in_set_takeD)

lemma lru_put_same [simp]: "map_of (lru_put cap k v al) k = Some v"
  by (simp add: lru_put_def)

lemma lru_put_other:
  assumes "distinct (map fst al)" and "k' \<noteq> k"
  shows "map_of (lru_put cap k v al) k' \<in> {None, map_of al k'}"
proof (cases "map_of (take (cap - 1) al) k'")
  case (Some w)
  with assms(1) have "map_of al k' = Some w" by (rule map_of_take_SomeD)
  with Some assms show ?thesis by (auto simp: lru_put_def)
qed (use assms in \<open>auto simp: lru_put_def\<close>)

lemma lru_put_size:
  "length al \<le> cap \<Longrightarrow> 0 < cap \<Longrightarrow> distinct (map fst al) \<Longrightarrow> length (lru_put cap k v al) \<le> cap"
  using length_delete_in [of al k] by (auto simp: lru_put_def gomap_ok_def)

lemma length_delete_le: "length (AList.delete k al) \<le> length al"
  by (simp add: AList.delete_eq)

lemma lru_get_size: "length (snd (lru_get x m k al)) \<le> length al" if "distinct (map fst al)"
  using length_delete_le [of k al] length_delete_in [of al k] that
  by (force simp: gomap_ok_def split: option.splits dest!: map_of_SomeD)

section \<open>A map of pointers into a linked list\<close>

text \<open>
  Both caches keep a Go map from keys to list elements beside the list itself. \<open>links ents ls key\<close> says that the two agree: the map
  sends exactly the keys of the elements of \<open>ls\<close> to those elements. The lemmas follow the three moves of \<^verbatim>\<open>container/list\<close>.
\<close>

definition links :: "('k, nat) gomap \<Rightarrow> nat list \<Rightarrow> (nat \<Rightarrow> 'k) \<Rightarrow> bool" where
  "links ents ls key \<longleftrightarrow> gomap_ok ents \<and> distinct ls \<and> set ents = (\<lambda>e. (key e, e)) ` set ls"

lemma links_lookup: "links ents ls key \<Longrightarrow> map_of ents k = Some e \<longleftrightarrow> e \<in> set ls \<and> key e = k"
  by (subst gomap_in_set_iff [symmetric]) (auto simp: links_def)

lemma links_key_lookup: "links ents ls key \<Longrightarrow> e \<in> set ls \<Longrightarrow> map_of ents (key e) = Some e"
  by (simp add: links_lookup)

lemma links_inj: "links ents ls key \<Longrightarrow> inj_on key (set ls)"
  using links_key_lookup [of ents ls key] by (intro inj_onI) (metis option.inject)

lemma links_keys:
  assumes "links ents ls key"
  shows "map_of ents k = None \<longleftrightarrow> k \<notin> key ` set ls"
proof (cases "map_of ents k")
  case None
  with links_key_lookup [OF assms] show ?thesis by auto
next
  case (Some e)
  with links_lookup [OF assms, of k e] show ?thesis by auto
qed

lemma links_length: "links ents ls key \<Longrightarrow> length ents = length ls"
proof -
  assume l: "links ents ls key"
  then have "card (set ents) = card (set ls)" by (auto simp: links_def intro!: card_image inj_onI)
  moreover have "distinct ents" "distinct ls" using l by (auto simp: links_def gomap_ok_def distinct_map)
  ultimately show ?thesis by (simp add: distinct_card)
qed

lemma links_map_of:
  assumes "links ents ls key"
  shows "map_of (map (\<lambda>e. (key e, val e)) ls) k = map_option val (map_of ents k)"
proof -
  have d: "distinct (map fst (map (\<lambda>e. (key e, val e)) ls))"
    using assms links_inj [OF assms] by (simp add: links_def distinct_map comp_def)
  show ?thesis
  proof (cases "map_of ents k")
    case None
    then have "k \<notin> fst ` set (map (\<lambda>e. (key e, val e)) ls)" using links_keys [OF assms, of k] by (auto simp: image_iff)
    then show ?thesis using None by (simp add: map_of_eq_None_iff [symmetric] del: set_map)
  next
    case (Some e)
    then have "(k, val e) \<in> set (map (\<lambda>e. (key e, val e)) ls)" using links_lookup [OF assms, of k e] by auto
    with Some d show ?thesis by (simp del: set_map)
  qed
qed

lemma links_drop:
  assumes "links ents ls key" and "e \<in> set ls"
  shows "links (AList.delete (key e) ents) (remove1 e ls) key"
proof -
  have "set (AList.delete (key e) ents) = {p \<in> set ents. fst p \<noteq> key e}" by (auto simp: AList.delete_eq)
  also have "\<dots> = (\<lambda>x. (key x, x)) ` (set ls - {e})"
    using assms links_inj [OF assms(1)] by (auto simp: links_def dest: inj_onD)
  finally show ?thesis using assms by (auto simp: links_def)
qed

lemma links_move: "links ents ls key \<Longrightarrow> e \<in> set ls \<Longrightarrow> links ents (e # remove1 e ls) key"
  by (auto simp: links_def insert_absorb)

lemma links_push:
  assumes "links ents ls key" and "map_of ents k = None" and "n \<notin> set ls"
  shows "links (AList.update k n ents) (n # ls) (key(n := k))"
proof -
  have k: "k \<notin> fst ` set ents" using assms(2) by (simp add: map_of_eq_None_iff)
  have "(\<lambda>e. ((key(n := k)) e, e)) ` set ls = (\<lambda>e. (key e, e)) ` set ls"
    using assms(3) by (intro image_cong) auto
  then show ?thesis using assms k by (auto simp: links_def update_notin gomap_ok_def)
qed

lemma map_delete_key:
  "inj_on key (set ls) \<Longrightarrow> distinct ls \<Longrightarrow> e \<in> set ls \<Longrightarrow>
   map (\<lambda>x. (key x, val x)) (remove1 e ls) = AList.delete (key e) (map (\<lambda>x. (key x, val x)) ls)"
proof (induction ls)
  case (Cons x xs)
  show ?case
  proof (cases "x = e")
    case True
    then have "key e \<notin> fst ` set (map (\<lambda>x. (key x, val x)) xs)" using Cons.prems by (auto simp: image_iff dest: inj_onD)
    with True show ?thesis by (simp add: delete_id)
  next
    case False
    then have "key x \<noteq> key e" using Cons.prems by (auto dest: inj_onD)
    with False Cons show ?thesis by auto
  qed
qed simp

lemma remove1_last: "distinct xs \<Longrightarrow> xs \<noteq> [] \<Longrightarrow> remove1 (last xs) xs = butlast xs"
  by (induction xs) auto

lemma delete_map_cong:
  assumes "\<And>x. x \<in> set xs \<Longrightarrow> fst (f x) = fst (g x)"
    and "\<And>x. x \<in> set xs \<Longrightarrow> fst (f x) \<noteq> k \<Longrightarrow> f x = g x"
  shows "AList.delete k (map f xs) = AList.delete k (map g xs)"
  using assms
proof (induction xs)
  case (Cons x xs)
  have "AList.delete k (map f xs) = AList.delete k (map g xs)"
    by (rule Cons.IH) (use Cons.prems list.set_intros(2) in metis)+
  moreover obtain a b where f: "f x = (a, b)" by (cases "f x")
  moreover obtain b' where g: "g x = (a, b')"
    using Cons.prems(1) [of x] f by (cases "g x") auto
  moreover have "a \<noteq> k \<Longrightarrow> b = b'" using Cons.prems(2) [of x] f g by auto
  ultimately show ?case by auto
qed simp

section \<open>The contract\<close>

datatype ('k, 'v, 't) cache_op = OpPut 'k 'v | OpTouch 't 'k | OpInvalidate 'k

fun ideal :: "('k, 'v, 't) cache_op list \<Rightarrow> 'k \<Rightarrow> 'v option" where
  "ideal [] k = None"
| "ideal (OpPut k' v # ops) k = (if k' = k then Some v else ideal ops k)"
| "ideal (OpTouch t k' # ops) k = ideal ops k"
| "ideal (OpInvalidate k' # ops) k = (if k' = k then None else ideal ops k)"

text \<open>A run of operations, latest first, as \<open>ideal\<close> takes them.\<close>

fun cache_run ::
    "('k \<Rightarrow> 'v \<Rightarrow> 'c \<Rightarrow> 'c) \<Rightarrow> ('t \<Rightarrow> 'k \<Rightarrow> 'c \<Rightarrow> 'c) \<Rightarrow> ('k \<Rightarrow> 'c \<Rightarrow> 'c) \<Rightarrow>
     ('k, 'v, 't) cache_op list \<Rightarrow> 'c \<Rightarrow> 'c" where
  "cache_run put touch inval [] c = c"
| "cache_run put touch inval (OpPut k v # ops) c = put k v (cache_run put touch inval ops c)"
| "cache_run put touch inval (OpTouch t k # ops) c = touch t k (cache_run put touch inval ops c)"
| "cache_run put touch inval (OpInvalidate k # ops) c = inval k (cache_run put touch inval ops c)"

locale bounded_cache =
  fixes peek :: "'c \<Rightarrow> 'k \<Rightarrow> 'v option"
    and put :: "'k \<Rightarrow> 'v \<Rightarrow> 'c \<Rightarrow> 'c"
    and touch :: "'t \<Rightarrow> 'k \<Rightarrow> 'c \<Rightarrow> 'c"
    and invalidate :: "'k \<Rightarrow> 'c \<Rightarrow> 'c"
    and invar :: "'c \<Rightarrow> bool"
    and size_of :: "'c \<Rightarrow> nat"
    and cap_of :: "'c \<Rightarrow> nat"
  assumes invar_put: "invar c \<Longrightarrow> invar (put k v c)"
    and invar_touch: "invar c \<Longrightarrow> invar (touch t k c)"
    and invar_invalidate: "invar c \<Longrightarrow> invar (invalidate k c)"
    and cap_put: "cap_of (put k v c) = cap_of c"
    and cap_touch: "cap_of (touch t k c) = cap_of c"
    and cap_invalidate: "cap_of (invalidate k c) = cap_of c"
    and size_bound: "invar c \<Longrightarrow> size_of c \<le> cap_of c"
    and peek_put_same: "invar c \<Longrightarrow> peek (put k v c) k = Some v"
    and peek_put_other: "invar c \<Longrightarrow> k' \<noteq> k \<Longrightarrow> peek (put k v c) k' \<in> {None, peek c k'}"
    and peek_touch: "invar c \<Longrightarrow> peek (touch t k c) k' \<in> {None, peek c k'}"
    and peek_invalidate: "invar c \<Longrightarrow> peek (invalidate k c) k' = (if k' = k then None else peek c k')"
begin

lemma invar_run: "invar c \<Longrightarrow> invar (cache_run put touch invalidate ops c)"
proof (induction ops)
  case (Cons op ops)
  then show ?case by (cases op) (auto simp: invar_put invar_touch invar_invalidate)
qed simp

lemma cap_run: "cap_of (cache_run put touch invalidate ops c) = cap_of c"
proof (induction ops)
  case (Cons op ops)
  then show ?case by (cases op) (auto simp: cap_put cap_touch cap_invalidate)
qed simp

theorem run_bounded: "invar c \<Longrightarrow> size_of (cache_run put touch invalidate ops c) \<le> cap_of c"
  using invar_run size_bound cap_run by metis

text \<open>Whatever the cache answers after a run, the ideal map answers too.\<close>

theorem run_sound:
  assumes "invar c" and "\<And>k. peek c k = None" and "peek (cache_run put touch invalidate ops c) k = Some v"
  shows "ideal ops k = Some v"
  using assms(3)
proof (induction ops)
  case Nil
  with assms(2) show ?case by simp
next
  case (Cons op ops)
  let ?c = "cache_run put touch invalidate ops c"
  have inv: "invar ?c" using assms(1) by (rule invar_run)
  show ?case
  proof (cases op)
    case (OpPut k' v')
    then show ?thesis
      using Cons peek_put_same [OF inv, of k' v'] peek_put_other [OF inv, of k k' v'] by auto
  next
    case (OpTouch t k')
    then show ?thesis using Cons peek_touch [OF inv, of t k' k] by auto
  next
    case (OpInvalidate k')
    then show ?thesis using Cons peek_invalidate [OF inv, of k' k] by (auto split: if_splits)
  qed
qed

end

end
