(* ===== verification/Gateway_Cache.thy ===== *)
theory Gateway_Cache
  imports Cache_Spec
begin

text \<open>
  The ingest gateway's verify-result cache, \<^verbatim>\<open>internal/ingestgw/cache.go\<close>. A \<open>Cache\<close> is a Go map from
  the SHA-256 key of a token to an element of a doubly linked list (\<^verbatim>\<open>container/list\<close>, front = most
  recently used). The model keeps that sharing: list elements have addresses, \<open>elem_val\<close> is what an
  element points to, \<open>lru\<close> is the order of the addresses, \<open>entries\<close> the map from keys to addresses.

  Parameters: \<open>sha256hex\<close> (SHA-256 and hex, Go's \<^verbatim>\<open>crypto/sha256\<close>) is the argument \<open>H\<close>; the wall clock is
  the argument \<open>now\<close>. The Prometheus calls are kept as a log of the labels passed to \<^verbatim>\<open>observeCache\<close> and
  the last value given to \<^verbatim>\<open>setCacheSize\<close>.

  Results: \<open>cache_inv\<close> (map and list agree, the size bound holds, the gauge is right) is kept by every
  operation; the operations refine the abstract LRU cache of \<open>Cache_Spec\<close>; the contract
  \<open>bounded_cache\<close> is interpreted as \<open>gw\<close>.
\<close>

section \<open>Data\<close>

record CachedToken =
  ct_Valid :: bool
  ct_CallerID :: string
  ct_TokenName :: string
  ct_Scopes :: "string list"
  ct_BoundCloudAccountID :: string
  ct_ExpiresAt :: time

definition zero_CachedToken :: CachedToken where
  "zero_CachedToken =
     \<lparr>ct_Valid = False, ct_CallerID = '''', ct_TokenName = '''', ct_Scopes = [],
      ct_BoundCloudAccountID = '''', ct_ExpiresAt = 0\<rparr>"

fun scopes_grant :: "string list \<Rightarrow> string \<Rightarrow> bool" where
  "scopes_grant [] want = False"
| "scopes_grant (s # ss) want =
     (if s = want then True
      else if s = ''admin'' \<and> want \<noteq> ''vm-collector'' then True
      else scopes_grant ss want)"

definition CachedToken_HasScope :: "CachedToken \<Rightarrow> string \<Rightarrow> bool" where
  "CachedToken_HasScope c want = scopes_grant (ct_Scopes c) want"

record CacheConfig =
  MaxEntries :: int
  PositiveTTL :: duration
  NegativeTTL :: duration

definition DefaultCacheConfig :: CacheConfig where
  "DefaultCacheConfig = \<lparr>MaxEntries = 10000, PositiveTTL = 60 * second, NegativeTTL = 10 * second\<rparr>"

record cacheEntry =
  ce_key :: string
  ce_val :: CachedToken

record Cache =
  cfg :: CacheConfig
  entries :: "(string, nat) gomap"
  lru :: "nat list"
  elem_val :: "nat \<Rightarrow> cacheEntry"
  next_elem :: nat
  inflight :: "(string, nat) gomap"
  next_chan :: nat
  cache_log :: "string list"
  cache_size :: nat

section \<open>Operations\<close>

definition NewCache :: "CacheConfig \<Rightarrow> Cache" where
  "NewCache c =
     (let c1 = (if MaxEntries c \<le> 0 then c\<lparr>MaxEntries := MaxEntries DefaultCacheConfig\<rparr> else c);
          c2 = (if PositiveTTL c1 \<le> 0 then c1\<lparr>PositiveTTL := PositiveTTL DefaultCacheConfig\<rparr> else c1);
          c3 = (if NegativeTTL c2 \<le> 0 then c2\<lparr>NegativeTTL := NegativeTTL DefaultCacheConfig\<rparr> else c2)
      in \<lparr>cfg = c3, entries = [], lru = [],
          elem_val = (\<lambda>_. \<lparr>ce_key = '''', ce_val = zero_CachedToken\<rparr>), next_elem = 0,
          inflight = [], next_chan = 0, cache_log = [], cache_size = 0\<rparr>)"

text \<open>\<^verbatim>\<open>list.MoveToFront\<close>, \<^verbatim>\<open>list.Remove\<close> with the map deletion that always goes with it.\<close>

definition move_to_front :: "nat \<Rightarrow> Cache \<Rightarrow> Cache" where
  "move_to_front e c = (if e \<in> set (lru c) then c\<lparr>lru := e # remove1 e (lru c)\<rparr> else c)"

definition drop_elem :: "nat \<Rightarrow> string \<Rightarrow> Cache \<Rightarrow> Cache" where
  "drop_elem e key c = c\<lparr>lru := remove1 e (lru c), entries := AList.delete key (entries c)\<rparr>"

definition observeCache :: "string \<Rightarrow> Cache \<Rightarrow> Cache" where
  "observeCache l c = c\<lparr>cache_log := l # cache_log c\<rparr>"

definition setCacheSize :: "Cache \<Rightarrow> Cache" where
  "setCacheSize c = c\<lparr>cache_size := length (entries c)\<rparr>"

definition get_key :: "time \<Rightarrow> string \<Rightarrow> Cache \<Rightarrow> CachedToken option \<times> Cache" where
  "get_key now key c =
     (case map_of (entries c) key of
        None \<Rightarrow> (None, observeCache ''miss'' c)
      | Some e \<Rightarrow>
          let v = ce_val (elem_val c e) in
          if now > ct_ExpiresAt v
          then (None, observeCache ''miss'' (setCacheSize (drop_elem e key c)))
          else (Some v,
                observeCache (if ct_Valid v then ''hit'' else ''negative_hit'') (move_to_front e c)))"

definition Cache_Get :: "(string \<Rightarrow> string) \<Rightarrow> time \<Rightarrow> string \<Rightarrow> Cache \<Rightarrow> CachedToken option \<times> Cache" where
  "Cache_Get H now token c = get_key now (H token) c"

text \<open>The eviction loop of \<^verbatim>\<open>put\<close>: while at capacity, drop the back of the list.\<close>

function evict :: "Cache \<Rightarrow> Cache" where
  "evict c =
     (if int (length (entries c)) \<ge> MaxEntries (cfg c) \<and> lru c \<noteq> []
      then evict (observeCache ''evict''
                   (drop_elem (last (lru c)) (ce_key (elem_val c (last (lru c)))) c))
      else c)"
  by pat_completeness auto
termination
  by (relation "measure (\<lambda>c. length (lru c))")
    (auto simp: observeCache_def drop_elem_def length_remove1 Suc_le_eq)

declare evict.simps [simp del]

definition push_front :: "string \<Rightarrow> CachedToken \<Rightarrow> Cache \<Rightarrow> Cache" where
  "push_front key val c =
     c\<lparr>elem_val := (elem_val c)(next_elem c := \<lparr>ce_key = key, ce_val = val\<rparr>),
       lru := next_elem c # lru c,
       entries := AList.update key (next_elem c) (entries c),
       next_elem := Suc (next_elem c)\<rparr>"

definition put_key :: "string \<Rightarrow> CachedToken \<Rightarrow> Cache \<Rightarrow> Cache" where
  "put_key key val c =
     (case map_of (entries c) key of
        Some e \<Rightarrow> move_to_front e (c\<lparr>elem_val := (elem_val c)(e := (elem_val c e)\<lparr>ce_val := val\<rparr>)\<rparr>)
      | None \<Rightarrow> setCacheSize (push_front key val (evict c)))"

definition Cache_put :: "(string \<Rightarrow> string) \<Rightarrow> string \<Rightarrow> CachedToken \<Rightarrow> Cache \<Rightarrow> Cache" where
  "Cache_put H token val c = put_key (H token) val c"

definition positive_expiry :: "CacheConfig \<Rightarrow> time \<Rightarrow> time \<Rightarrow> time" where
  "positive_expiry cf now tokenExp =
     (let ex = now + PositiveTTL cf in
      if \<not> IsZero tokenExp \<and> tokenExp < ex then tokenExp else ex)"

definition Cache_PutValid ::
    "(string \<Rightarrow> string) \<Rightarrow> time \<Rightarrow> string \<Rightarrow> CachedToken \<Rightarrow> time \<Rightarrow> Cache \<Rightarrow> Cache" where
  "Cache_PutValid H now token val tokenExp c =
     Cache_put H token
       (val\<lparr>ct_Valid := True, ct_ExpiresAt := positive_expiry (cfg c) now tokenExp\<rparr>) c"

definition Cache_PutNegative :: "(string \<Rightarrow> string) \<Rightarrow> time \<Rightarrow> string \<Rightarrow> Cache \<Rightarrow> Cache" where
  "Cache_PutNegative H now token c =
     Cache_put H token
       (zero_CachedToken\<lparr>ct_Valid := False, ct_ExpiresAt := now + NegativeTTL (cfg c)\<rparr>) c"

definition invalidate_key :: "string \<Rightarrow> Cache \<Rightarrow> Cache" where
  "invalidate_key key c =
     (case map_of (entries c) key of
        None \<Rightarrow> c
      | Some e \<Rightarrow> setCacheSize (drop_elem e key c))"

definition Cache_Invalidate :: "(string \<Rightarrow> string) \<Rightarrow> string \<Rightarrow> Cache \<Rightarrow> Cache" where
  "Cache_Invalidate H token c = invalidate_key (H token) c"

definition Cache_Len :: "Cache \<Rightarrow> nat" where
  "Cache_Len c = length (entries c)"

section \<open>Invariant and abstraction\<close>

definition entry_of :: "Cache \<Rightarrow> nat \<Rightarrow> string \<times> CachedToken" where
  "entry_of c e = (ce_key (elem_val c e), ce_val (elem_val c e))"

definition cache_abs :: "Cache \<Rightarrow> (string \<times> CachedToken) list" where
  "cache_abs c = map (entry_of c) (lru c)"

definition cache_peek :: "Cache \<Rightarrow> string \<Rightarrow> CachedToken option" where
  "cache_peek c key = map_option (\<lambda>e. ce_val (elem_val c e)) (map_of (entries c) key)"

definition linked :: "Cache \<Rightarrow> bool" where
  "linked c \<longleftrightarrow>
     gomap_ok (entries c) \<and> distinct (lru c) \<and>
     set (entries c) = (\<lambda>e. (ce_key (elem_val c e), e)) ` set (lru c) \<and>
     (\<forall>e\<in>set (lru c). e < next_elem c)"

definition cache_inv :: "Cache \<Rightarrow> bool" where
  "cache_inv c \<longleftrightarrow>
     linked c \<and> 0 < MaxEntries (cfg c) \<and> int (length (entries c)) \<le> MaxEntries (cfg c) \<and>
     cache_size c = length (entries c)"

subsection \<open>Facts about linked caches\<close>

lemma linked_iff:
  "linked c \<longleftrightarrow> links (entries c) (lru c) (\<lambda>e. ce_key (elem_val c e)) \<and> (\<forall>e\<in>set (lru c). e < next_elem c)"
  by (auto simp: linked_def links_def)

lemma linked_links: "linked c \<Longrightarrow> links (entries c) (lru c) (\<lambda>e. ce_key (elem_val c e))"
  by (simp add: linked_iff)

lemmas linked_keys_inj = links_inj [OF linked_links]

lemma linked_abs_distinct: "linked c \<Longrightarrow> distinct (map fst (cache_abs c))"
  using linked_keys_inj
  by (auto simp: cache_abs_def entry_of_def comp_def linked_def distinct_map)

lemmas linked_lookup = links_lookup [OF linked_links]
lemmas linked_lookup_key = links_key_lookup [OF linked_links]
lemmas linked_length = links_length [OF linked_links]

lemma map_of_cache_abs: "linked c \<Longrightarrow> map_of (cache_abs c) = cache_peek c"
  using links_map_of [OF linked_links, of c "\<lambda>e. ce_val (elem_val c e)"]
  by (simp add: cache_abs_def entry_of_def [abs_def] cache_peek_def fun_eq_iff)

lemma abs_keys: "linked c \<Longrightarrow> k \<in> fst ` set (cache_abs c) \<longleftrightarrow> map_of (entries c) k \<noteq> None"
  using map_of_cache_abs [of c]
  by (metis cache_peek_def map_of_eq_None_iff map_option_is_None)

subsection \<open>Every operation keeps the links\<close>

lemma cache_log_frame [simp]:
  "linked (observeCache l c) = linked c" "linked (setCacheSize c) = linked c"
  "cache_abs (observeCache l c) = cache_abs c" "cache_abs (setCacheSize c) = cache_abs c"
  "cfg (observeCache l c) = cfg c" "cfg (setCacheSize c) = cfg c"
  "entries (observeCache l c) = entries c" "entries (setCacheSize c) = entries c"
  "lru (observeCache l c) = lru c" "lru (setCacheSize c) = lru c"
  "cache_size (observeCache l c) = cache_size c" "cache_size (setCacheSize c) = length (entries c)"
  "elem_val (observeCache l c) = elem_val c" "elem_val (setCacheSize c) = elem_val c"
  by (simp_all add: observeCache_def setCacheSize_def linked_def cache_abs_def entry_of_def)

lemma op_cfg [simp]:
  "cfg (drop_elem e k c) = cfg c" "cfg (move_to_front e c) = cfg c" "cfg (push_front k v c) = cfg c"
  "entries (move_to_front e c) = entries c" "elem_val (move_to_front e c) = elem_val c"
  "cache_size (move_to_front e c) = cache_size c" "elem_val (drop_elem e k c) = elem_val c"
  "lru (drop_elem e k c) = remove1 e (lru c)"
  by (simp_all add: drop_elem_def move_to_front_def push_front_def)

lemma linked_drop:
  "linked c \<Longrightarrow> e \<in> set (lru c) \<Longrightarrow> linked (drop_elem e (ce_key (elem_val c e)) c)"
  using links_drop [OF linked_links, of c e] by (auto simp: linked_iff drop_elem_def dest: notin_set_remove1)

lemma abs_remove:
  "linked c \<Longrightarrow> e \<in> set (lru c) \<Longrightarrow>
   map (entry_of c) (remove1 e (lru c)) = AList.delete (ce_key (elem_val c e)) (cache_abs c)"
  using map_delete_key [OF linked_keys_inj, of c e "\<lambda>e. ce_val (elem_val c e)"]
  by (simp add: cache_abs_def entry_of_def [abs_def] linked_def)

lemma linked_move: "linked c \<Longrightarrow> linked (move_to_front e c)"
  by (auto simp: linked_def move_to_front_def insert_absorb set_remove1_eq)

lemma abs_drop:
  "linked c \<Longrightarrow> e \<in> set (lru c) \<Longrightarrow>
   cache_abs (drop_elem e (ce_key (elem_val c e)) c) = AList.delete (ce_key (elem_val c e)) (cache_abs c)"
  using abs_remove [of c e] by (simp add: cache_abs_def drop_elem_def entry_of_def [abs_def])

lemma abs_move:
  "linked c \<Longrightarrow> e \<in> set (lru c) \<Longrightarrow>
   cache_abs (move_to_front e c) =
     entry_of c e # AList.delete (ce_key (elem_val c e)) (cache_abs c)"
  using abs_remove [of c e] by (simp add: cache_abs_def move_to_front_def entry_of_def [abs_def])

lemma evict_correct:
  assumes "linked c" and "0 < MaxEntries (cfg c)"
  shows "linked (evict c) \<and> cfg (evict c) = cfg c \<and>
    cache_abs (evict c) = take (nat (MaxEntries (cfg c)) - 1) (cache_abs c) \<and>
    (\<forall>k. map_of (entries c) k = None \<longrightarrow> map_of (entries (evict c)) k = None)"
  using assms
proof (induction c rule: evict.induct)
  case (1 c)
  let ?e = "last (lru c)" and ?n = "nat (MaxEntries (cfg c)) - 1"
  let ?c = "observeCache ''evict'' (drop_elem ?e (ce_key (elem_val c ?e)) c)"
  show ?case
  proof (cases "int (length (entries c)) \<ge> MaxEntries (cfg c) \<and> lru c \<noteq> []")
    case True
    then have l: "linked ?c" using 1(2) linked_drop by simp
    have "cache_abs ?c = butlast (cache_abs c)"
      using True 1(2) by (simp add: cache_abs_def drop_elem_def linked_def remove1_last map_butlast entry_of_def [abs_def])
    moreover have "?n < length (cache_abs c)"
      using True 1(2,3) linked_length [of c] by (simp add: cache_abs_def) linarith
    moreover have "\<forall>k. map_of (entries c) k = None \<longrightarrow> map_of (entries ?c) k = None"
      by (simp add: drop_elem_def)
    ultimately show ?thesis
      using 1(1)[OF True l] 1(3) True by (simp add: evict.simps [of c] take_butlast)
  next
    case False
    then have "length (cache_abs c) \<le> ?n"
      using 1(2,3) linked_length [of c] by (auto simp: cache_abs_def)
    with False 1(2) show ?thesis by (subst (1 2 3 4) evict.simps) auto
  qed
qed

lemma push_front_correct:
  assumes "linked c" and "map_of (entries c) key = None"
  shows "linked (push_front key val c) \<and> cache_abs (push_front key val c) = (key, val) # cache_abs c"
proof -
  let ?c = "push_front key val c" and ?n = "next_elem c"
  from assms(2) have key: "key \<notin> fst ` set (entries c)" by (simp add: map_of_eq_None_iff)
  then have e: "entries ?c = entries c @ [(key, ?n)]" by (simp add: push_front_def update_notin)
  have n: "?n \<notin> set (lru c)" using assms(1) by (auto simp: linked_def)
  have old: "elem_val ?c x = elem_val c x" if "x \<in> set (lru c)" for x
    using n that by (auto simp: push_front_def)
  have "set (entries ?c) = (\<lambda>x. (ce_key (elem_val ?c x), x)) ` set (lru ?c)"
    using assms(1) e old by (force simp: linked_def push_front_def)
  moreover have "gomap_ok (entries ?c)" using assms(1) e key by (auto simp: linked_def gomap_ok_def)
  ultimately have "linked ?c" using assms(1) n by (auto simp: linked_def push_front_def)
  moreover have "cache_abs ?c = (key, val) # cache_abs c"
    using old by (auto simp: cache_abs_def entry_of_def push_front_def)
  ultimately show ?thesis ..
qed

subsection \<open>Refinement of the abstract LRU cache\<close>

abbreviation cap_of_cache :: "Cache \<Rightarrow> nat" where
  "cap_of_cache c \<equiv> nat (MaxEntries (cfg c))"

lemma set_elem_val_linked:
  fixes v :: CachedToken and c :: Cache
  assumes "linked c" and "e \<in> set (lru c)"
  defines "c' \<equiv> c\<lparr>elem_val := (elem_val c)(e := (elem_val c e)\<lparr>ce_val := v\<rparr>)\<rparr>"
  shows "linked c'" "lru c' = lru c" "ce_key (elem_val c' x) = ce_key (elem_val c x)"
    "entry_of c' e = (ce_key (elem_val c e), v)" "cfg c' = cfg c" "entries c' = entries c"
    "cache_size c' = cache_size c"
  using assms(1) by (auto simp: c'_def linked_def entry_of_def)

lemma put_key_refines:
  assumes "linked c" and "0 < MaxEntries (cfg c)"
  shows "linked (put_key key val c)"
    and "cache_abs (put_key key val c) = lru_put (cap_of_cache c) key val (cache_abs c)"
proof -
  have "linked (put_key key val c) \<and>
        cache_abs (put_key key val c) = lru_put (cap_of_cache c) key val (cache_abs c)"
  proof (cases "map_of (entries c) key")
    case None
    then have "key \<notin> fst ` set (cache_abs c)" using abs_keys [OF assms(1)] by simp
    with None show ?thesis
      using evict_correct [OF assms] push_front_correct [of "evict c" key val]
      by (simp add: put_key_def lru_put_def)
  next
    case (Some e)
    then have e: "e \<in> set (lru c)" "ce_key (elem_val c e) = key"
      using assms(1) by (auto simp: linked_lookup)
    let ?c = "c\<lparr>elem_val := (elem_val c)(e := (elem_val c e)\<lparr>ce_val := val\<rparr>)\<rparr>"
    note s = set_elem_val_linked [OF assms(1) e(1), where v = val]
    have "AList.delete key (cache_abs ?c) = AList.delete key (cache_abs c)"
      unfolding cache_abs_def s(2)
      by (rule delete_map_cong) (auto simp: entry_of_def e(2))
    moreover have "key \<in> fst ` set (cache_abs c)"
      using abs_keys [OF assms(1)] Some by simp
    ultimately show ?thesis
      using Some e abs_move [OF s(1), of e] linked_move [OF s(1), of e] s(2,3,4)
      by (simp add: put_key_def lru_put_def)
  qed
  then show "linked (put_key key val c)"
    and "cache_abs (put_key key val c) = lru_put (cap_of_cache c) key val (cache_abs c)" by auto
qed

lemma get_key_refines:
  assumes "linked c"
  shows "linked (snd (get_key now key c))"
    and "fst (get_key now key c) =
         fst (lru_get (\<lambda>v. now > ct_ExpiresAt v) (\<lambda>_. True) key (cache_abs c))"
    and "cache_abs (snd (get_key now key c)) =
         snd (lru_get (\<lambda>v. now > ct_ExpiresAt v) (\<lambda>_. True) key (cache_abs c))"
proof -
  let ?g = "lru_get (\<lambda>v. now > ct_ExpiresAt v) (\<lambda>_. True) key (cache_abs c)"
  have "linked (snd (get_key now key c)) \<and> fst (get_key now key c) = fst ?g \<and>
        cache_abs (snd (get_key now key c)) = snd ?g"
  proof (cases "map_of (entries c) (key)")
    case None
    with assms show ?thesis
      by (simp add: get_key_def map_of_cache_abs cache_peek_def)
  next
    case (Some e)
    then have e: "e \<in> set (lru c)" "ce_key (elem_val c e) = key"
      using assms by (auto simp: linked_lookup)
    then show ?thesis
      using Some linked_drop [OF assms e(1)] abs_drop [OF assms e(1)] abs_move [OF assms e(1)]
      by (simp add: get_key_def Let_def map_of_cache_abs assms cache_peek_def linked_move entry_of_def)
  qed
  then show "linked (snd (get_key now key c))" and "fst (get_key now key c) = fst ?g"
    and "cache_abs (snd (get_key now key c)) = snd ?g" by auto
qed

lemma invalidate_refines:
  assumes "linked c"
  shows "linked (invalidate_key key c)"
    and "cache_abs (invalidate_key key c) = AList.delete key (cache_abs c)"
proof -
  have "linked (invalidate_key key c) \<and> cache_abs (invalidate_key key c) = AList.delete key (cache_abs c)"
  proof (cases "map_of (entries c) key")
    case None
    then have "key \<notin> fst ` set (cache_abs c)" using abs_keys [OF assms] by simp
    with None assms show ?thesis by (simp add: invalidate_key_def delete_id)
  next
    case (Some e)
    then have e: "e \<in> set (lru c)" "ce_key (elem_val c e) = key"
      using assms by (auto simp: linked_lookup)
    with Some show ?thesis
      using linked_drop [OF assms e(1)] abs_drop [OF assms e(1)] by (simp add: invalidate_key_def)
  qed
  then show "linked (invalidate_key key c)"
    and "cache_abs (invalidate_key key c) = AList.delete key (cache_abs c)" by auto
qed

subsection \<open>The invariant\<close>

lemma NewCache_simps [simp]:
  "entries (NewCache cf) = []" "lru (NewCache cf) = []" "cache_size (NewCache cf) = 0"
  "inflight (NewCache cf) = []" "next_chan (NewCache cf) = 0"
  by (simp_all add: NewCache_def Let_def)

lemma NewCache_cfg:
  "0 < MaxEntries (cfg (NewCache cf))" "0 < PositiveTTL (cfg (NewCache cf))"
  "0 < NegativeTTL (cfg (NewCache cf))"
  by (simp_all add: NewCache_def Let_def DefaultCacheConfig_def duration_defs)

lemma cache_inv_New: "cache_inv (NewCache cf)"
  by (simp add: cache_inv_def linked_def NewCache_cfg less_imp_le)

lemma cache_inv_iff:
  "cache_inv c \<longleftrightarrow> linked c \<and> 0 < MaxEntries (cfg c) \<and> length (cache_abs c) \<le> cap_of_cache c \<and>
     cache_size c = length (cache_abs c)"
  using linked_length [of c] by (auto simp: cache_inv_def cache_abs_def)

lemma evict_cfg [simp]: "cfg (evict c) = cfg c"
proof (induction c rule: evict.induct)
  case (1 c)
  then show ?case by (subst evict.simps) simp
qed

lemma put_key_frame [simp]: "cfg (put_key key val c) = cfg c"
  by (auto simp: put_key_def split: option.splits)

lemma get_key_frame [simp]: "cfg (snd (get_key now key c)) = cfg c"
  by (auto simp: get_key_def Let_def split: option.splits)

lemma invalidate_key_frame [simp]: "cfg (invalidate_key key c) = cfg c"
  by (auto simp: invalidate_key_def split: option.splits)

lemma gauge_put:
  "linked c \<Longrightarrow> cache_size c = length (entries c) \<Longrightarrow>
   cache_size (put_key key val c) = length (entries (put_key key val c))"
  by (auto simp: put_key_def split: option.splits)

lemma gauge_get:
  "cache_size c = length (entries c) \<Longrightarrow>
   cache_size (snd (get_key now key c)) = length (entries (snd (get_key now key c)))"
  by (auto simp: get_key_def Let_def split: option.splits)

lemma gauge_invalidate:
  "cache_size c = length (entries c) \<Longrightarrow>
   cache_size (invalidate_key key c) = length (entries (invalidate_key key c))"
  by (auto simp: invalidate_key_def split: option.splits)

lemma length_entries_abs: "linked c \<Longrightarrow> length (entries c) = length (cache_abs c)"
  by (simp add: linked_length cache_abs_def)

lemma cache_inv_put: "cache_inv c \<Longrightarrow> cache_inv (put_key key val c)"
  using put_key_refines [of c key val] gauge_put [of c key val]
    lru_put_size [of "cache_abs c" "cap_of_cache c" key val] linked_abs_distinct [of c]
  by (auto simp: cache_inv_iff length_entries_abs)

lemma cache_inv_get: "cache_inv c \<Longrightarrow> cache_inv (snd (get_key now key c))"
  using get_key_refines [of c now key] gauge_get [of c now key] linked_abs_distinct [of c]
    lru_get_size [of "cache_abs c" "\<lambda>v. now > ct_ExpiresAt v" "\<lambda>_. True" key]
  by (auto simp: cache_inv_iff length_entries_abs simp del: lru_get.simps)

lemma cache_inv_invalidate: "cache_inv c \<Longrightarrow> cache_inv (invalidate_key key c)"
  using invalidate_refines [of c key] gauge_invalidate [of c key]
    length_delete_le [of key "cache_abs c"]
  by (auto simp: cache_inv_iff length_entries_abs)

interpretation gw: bounded_cache cache_peek put_key "\<lambda>now key c. snd (get_key now key c)"
  invalidate_key cache_inv Cache_Len cap_of_cache
proof unfold_locales
  fix c :: Cache and k k' :: string and v :: CachedToken and t :: time
  assume inv: "cache_inv c"
  then have l: "linked c" and pos: "0 < MaxEntries (cfg c)" by (auto simp: cache_inv_def)
  note d = linked_abs_distinct [OF l] and abs = map_of_cache_abs [OF l, symmetric]
  show "Cache_Len c \<le> cap_of_cache c" using inv by (auto simp: cache_inv_def Cache_Len_def)
  have put: "cache_peek (put_key k v c) = map_of (lru_put (cap_of_cache c) k v (cache_abs c))"
    using map_of_cache_abs [OF put_key_refines(1) [OF l pos]] put_key_refines(2) [OF l pos] by metis
  show "cache_peek (put_key k v c) k = Some v" by (simp add: put)
  show "cache_peek (put_key k v c) k' \<in> {None, cache_peek c k'}" if "k' \<noteq> k"
    using lru_put_other [OF d that] by (simp add: put abs)
  have "cache_peek (snd (get_key t k c)) =
      map_of (snd (lru_get (\<lambda>v. t > ct_ExpiresAt v) (\<lambda>_. True) k (cache_abs c)))"
    using map_of_cache_abs [OF get_key_refines(1) [OF l, of t k]] get_key_refines(3) [OF l, of t k] by metis
  then show "cache_peek (snd (get_key t k c)) k' \<in> {None, cache_peek c k'}"
    by (auto simp: abs split: option.splits)
  show "cache_peek (invalidate_key k c) k' = (if k' = k then None else cache_peek c k')"
    using map_of_cache_abs [OF invalidate_refines(1) [OF l]] invalidate_refines(2) [OF l]
    by (metis abs fun_upd_apply map_of_delete)
qed (simp_all add: cache_inv_put cache_inv_get cache_inv_invalidate)

section \<open>Runs of token operations\<close>

datatype gw_op =
    GPutValid time string CachedToken time
  | GPutNegative time string
  | GGet time string
  | GInvalidate string

fun gw_apply :: "(string \<Rightarrow> string) \<Rightarrow> gw_op \<Rightarrow> Cache \<Rightarrow> Cache" where
  "gw_apply H (GPutValid now token val ex) c = Cache_PutValid H now token val ex c"
| "gw_apply H (GPutNegative now token) c = Cache_PutNegative H now token c"
| "gw_apply H (GGet now token) c = snd (Cache_Get H now token c)"
| "gw_apply H (GInvalidate token) c = Cache_Invalidate H token c"

text \<open>Latest operation first.\<close>

fun gw_run :: "(string \<Rightarrow> string) \<Rightarrow> gw_op list \<Rightarrow> Cache \<Rightarrow> Cache" where
  "gw_run H [] c = c"
| "gw_run H (op # ops) c = gw_apply H op (gw_run H ops c)"

fun trans_op :: "(string \<Rightarrow> string) \<Rightarrow> CacheConfig \<Rightarrow> gw_op \<Rightarrow> (string, CachedToken, time) cache_op" where
  "trans_op H cf (GPutValid now token val ex) =
     OpPut (H token) (val\<lparr>ct_Valid := True, ct_ExpiresAt := positive_expiry cf now ex\<rparr>)"
| "trans_op H cf (GPutNegative now token) =
     OpPut (H token) (zero_CachedToken\<lparr>ct_Valid := False, ct_ExpiresAt := now + NegativeTTL cf\<rparr>)"
| "trans_op H cf (GGet now token) = OpTouch now (H token)"
| "trans_op H cf (GInvalidate token) = OpInvalidate (H token)"

lemmas Cache_op_defs = Cache_Get_def Cache_put_def Cache_PutValid_def Cache_PutNegative_def Cache_Invalidate_def

lemma gw_run_translates:
  "gw_run H ops c =
     cache_run put_key (\<lambda>now key c. snd (get_key now key c)) invalidate_key
       (map (trans_op H (cfg c)) ops) c \<and>
   cfg (gw_run H ops c) = cfg c"
proof (induction ops)
  case (Cons op ops)
  then show ?case by (cases op) (auto simp: Cache_op_defs)
qed simp

lemma gw_run_inv: "cache_inv c \<Longrightarrow> cache_inv (gw_run H ops c)"
  using gw_run_translates [of H ops c] gw.invar_run by metis

text \<open>The put an ideal answer comes from: nothing later touched its key.\<close>

fun writes_key :: "(string \<Rightarrow> string) \<Rightarrow> string \<Rightarrow> gw_op \<Rightarrow> bool" where
  "writes_key H k (GPutValid now token val ex) = (H token = k)"
| "writes_key H k (GPutNegative now token) = (H token = k)"
| "writes_key H k (GGet now token) = False"
| "writes_key H k (GInvalidate token) = (H token = k)"

lemma ideal_source:
  assumes "ideal (map (trans_op H cf) ops) k = Some v" and "ct_Valid v"
  shows "\<exists>later earlier now token val ex.
    ops = later @ GPutValid now token val ex # earlier \<and> H token = k \<and>
    list_all (\<lambda>op. \<not> writes_key H k op) later \<and>
    v = val\<lparr>ct_Valid := True, ct_ExpiresAt := positive_expiry cf now ex\<rparr>"
  using assms(1)
proof (induction ops)
  case (Cons op ops)
  show ?case
  proof (cases "writes_key H k op")
    case True
    then obtain now token val ex where "op = GPutValid now token val ex" "H token = k"
      using Cons.prems assms(2) by (cases op) auto
    with Cons.prems show ?thesis
      by (intro exI [of _ "[]"] exI [of _ ops] exI [of _ now] exI [of _ token] exI [of _ val] exI [of _ ex]) auto
  next
    case False
    with Cons.prems have "ideal (map (trans_op H cf) ops) k = Some v" by (cases op) auto
    from Cons.IH [OF this] obtain later earlier now token val ex where
      "ops = later @ GPutValid now token val ex # earlier" "H token = k"
      "list_all (\<lambda>op. \<not> writes_key H k op) later"
      "v = val\<lparr>ct_Valid := True, ct_ExpiresAt := positive_expiry cf now ex\<rparr>" by blast
    with False show ?thesis
      by (intro exI [of _ "op # later"] exI [of _ earlier] exI [of _ now] exI [of _ token]
          exI [of _ val] exI [of _ ex]) simp
  qed
qed simp

lemma positive_expiry_bounds:
  "positive_expiry cf now ex \<le> now + PositiveTTL cf"
  "ex \<noteq> 0 \<Longrightarrow> positive_expiry cf now ex \<le> ex"
  by (auto simp: positive_expiry_def IsZero_def Let_def)

lemma Get_SomeD:
  "fst (Cache_Get H now token c) = Some v \<Longrightarrow> cache_peek c (H token) = Some v \<and> now \<le> ct_ExpiresAt v"
  by (auto simp: Cache_Get_def get_key_def cache_peek_def Let_def split: option.splits if_splits)

section \<open>Properties\<close>

text \<open>C7: Gateway cache, refinement. On every cache that satisfies the invariant, the map-plus-list
  operations compute exactly what the abstract LRU cache computes: \<open>Get\<close> answers and reorders as
  \<open>lru_get\<close>, \<open>put\<close> inserts at the front and evicts the least recently used keys as \<open>lru_put\<close>, and
  \<open>Invalidate\<close> deletes one key.\<close>

theorem gw_cache_refines_lru:
  assumes "cache_inv c"
  shows "(let g = lru_get (\<lambda>v. now > ct_ExpiresAt v) (\<lambda>_. True) (H token) (cache_abs c) in
      fst (Cache_Get H now token c) = fst g \<and> cache_abs (snd (Cache_Get H now token c)) = snd g) \<and>
    cache_abs (Cache_put H token val c) = lru_put (nat (MaxEntries (cfg c))) (H token) val (cache_abs c) \<and>
    cache_abs (Cache_Invalidate H token c) = AList.delete (H token) (cache_abs c)"
  using assms get_key_refines [of c now "H token"] put_key_refines [of c "H token" val]
    invalidate_refines [of c "H token"]
  by (simp add: Cache_op_defs cache_inv_def Let_def)

definition sample_token :: CachedToken where
  "sample_token = zero_CachedToken\<lparr>ct_Valid := True, ct_Scopes := [''write'']\<rparr>"

definition sample_cache :: Cache where
  "sample_cache =
     gw_run id [GPutValid 2 ''b'' sample_token 0, GPutValid 1 ''a'' sample_token 0]
       (NewCache \<lparr>MaxEntries = 2, PositiveTTL = 60, NegativeTTL = 10\<rparr>)"

theorem gw_cache_refines_lru_witness:
  "cache_inv sample_cache \<and>
   map fst (cache_abs sample_cache) = [''b'', ''a''] \<and>
   cache_abs (Cache_put id ''c'' sample_token sample_cache) =
     lru_put (nat (MaxEntries (cfg sample_cache))) ''c'' sample_token (cache_abs sample_cache) \<and>
   map fst (lru_put 2 ''c'' sample_token (cache_abs sample_cache)) = [''c'', ''b'']"
proof -
  have inv: "cache_inv sample_cache"
    unfolding sample_cache_def by (rule gw_run_inv) (rule cache_inv_New)
  have "map fst (cache_abs sample_cache) = [''b'', ''a'']"
    and "map fst (lru_put 2 ''c'' sample_token (cache_abs sample_cache)) = [''c'', ''b'']"
    by code_simp+
  with inv gw_cache_refines_lru [OF inv, of 0 id "''c''" sample_token] show ?thesis by simp
qed

text \<open>Gateway cache, size invariant. After any sequence of operations on a new cache, whatever its
  configuration, the number of entries is at most the effective \<open>MaxEntries\<close>, the map and the LRU list
  hold the same keys, and the size gauge shows the number of entries.\<close>

theorem gw_cache_bounded:
  "let c = gw_run H ops (NewCache cf) in
     int (Cache_Len c) \<le> MaxEntries (cfg (NewCache cf)) \<and> length (lru c) = Cache_Len c \<and>
     fst ` set (entries c) = (\<lambda>e. ce_key (elem_val c e)) ` set (lru c) \<and>
     cache_size c = Cache_Len c"
proof -
  let ?c = "gw_run H ops (NewCache cf)"
  have inv: "cache_inv ?c" by (rule gw_run_inv) (rule cache_inv_New)
  then have "linked ?c" by (simp add: cache_inv_def)
  with inv show ?thesis
    using gw_run_translates [of H ops "NewCache cf"] linked_length [of ?c]
    by (auto simp: cache_inv_def Cache_Len_def Let_def linked_def image_image)
qed

text \<open>C29: Gateway cache, bounded trust. Whenever \<open>Get\<close> answers with a valid entry after any sequence of
  operations on a new cache, that entry was stored by a \<open>PutValid\<close> under the same key, nothing written
  or invalidated under that key since, at most \<open>PositiveTTL\<close> ago, and the token's own expiry (when it
  has one) has not passed; scopes and caller are those of that \<open>PutValid\<close>.\<close>

theorem gw_cache_valid_is_fresh:
  assumes "fst (Cache_Get H now token (gw_run H ops (NewCache cf))) = Some v" and "ct_Valid v"
  shows "\<exists>later earlier t tok val ex.
    ops = later @ GPutValid t tok val ex # earlier \<and> H tok = H token \<and>
    list_all (\<lambda>op. \<not> writes_key H (H token) op) later \<and>
    now \<le> t + PositiveTTL (cfg (NewCache cf)) \<and> (ex = 0 \<or> now \<le> ex) \<and>
    ct_Scopes v = ct_Scopes val \<and> ct_CallerID v = ct_CallerID val"
proof -
  let ?cf = "cfg (NewCache cf)"
  have peek: "cache_peek (gw_run H ops (NewCache cf)) (H token) = Some v" and
    fresh: "now \<le> ct_ExpiresAt v"
    using Get_SomeD [OF assms(1)] by auto
  have "ideal (map (trans_op H ?cf) ops) (H token) = Some v"
    using gw.run_sound [OF cache_inv_New, of cf "map (trans_op H ?cf) ops" "H token" v] peek
      gw_run_translates [of H ops "NewCache cf"]
    by (simp add: cache_peek_def)
  from ideal_source [OF this assms(2)] obtain later earlier t tok val ex where
    *: "ops = later @ GPutValid t tok val ex # earlier" "H tok = H token"
      "list_all (\<lambda>op. \<not> writes_key H (H token) op) later"
      "v = val\<lparr>ct_Valid := True, ct_ExpiresAt := positive_expiry ?cf t ex\<rparr>" by blast
  have "ex = 0 \<or> positive_expiry ?cf t ex \<le> ex" using positive_expiry_bounds(2) by blast
  with * fresh have "now \<le> t + PositiveTTL ?cf" and "ex = 0 \<or> now \<le> ex"
    using positive_expiry_bounds(1) [of ?cf t ex] by auto
  with * show ?thesis
    by (intro exI [of _ later] exI [of _ earlier] exI [of _ t] exI [of _ tok] exI [of _ val] exI [of _ ex])
      simp
qed

theorem gw_cache_valid_is_fresh_witness:
  "\<exists>later earlier t tok val ex.
    [GGet 20 ''x'', GPutValid 5 ''t'' sample_token 0] = later @ GPutValid t tok val ex # earlier \<and>
    id tok = id ''t'' \<and> list_all (\<lambda>op. \<not> writes_key id (id ''t'') op) later \<and>
    30 \<le> t + PositiveTTL (cfg (NewCache DefaultCacheConfig)) \<and> (ex = 0 \<or> 30 \<le> ex) \<and>
    [''write''] = ct_Scopes val \<and> [] = ct_CallerID val"
proof -
  let ?c = "gw_run id [GGet 20 ''x'', GPutValid 5 ''t'' sample_token 0] (NewCache DefaultCacheConfig)"
  let ?v = "sample_token\<lparr>ct_ExpiresAt := 60000000005\<rparr>"
  have get: "fst (Cache_Get id 30 ''t'' ?c) = Some ?v" by code_simp
  have v: "ct_Valid ?v" "ct_Scopes ?v = [''write'']" "ct_CallerID ?v = []"
    by (simp_all add: sample_token_def zero_CachedToken_def)
  show ?thesis using gw_cache_valid_is_fresh [OF get v(1)] by (simp only: v)
qed

end
