(* ===== verification/Gateway_Singleflight.thy ===== *)
theory Gateway_Singleflight
  imports Gateway_Cache
begin

text \<open>
  \<^verbatim>\<open>SingleflightGet\<close> of \<^verbatim>\<open>internal/ingestgw/cache.go\<close>: at most one verify call per token key, the other
  callers wait on a channel. Two models of the same code:

  \<^item> the concurrent one, \<open>sf_step\<close>: any number of goroutines (numbered by \<open>nat\<close>), each between two
    critical sections of the code, one rule per critical section, channel operation or loader return.
    Which goroutine moves is not determined; the loader's result and the clock are not either.
  \<^item> the sequential one, \<open>SingleflightGet\<close>: one caller's whole path when nobody else holds the slot
    (\<open>None\<close> where the caller would wait), used by the request handler.

  Results: one loader per key, no channel is closed twice, no waiter is stranded, the machine never
  deadlocks; every path of \<^verbatim>\<open>runLoader\<close> releases the slot.
\<close>

section \<open>The critical sections\<close>

datatype verify_error = ErrVerifyDenied | ErrVerifyCall string

datatype sf_error = SfWaitCancelled | SfLoad verify_error

type_synonym sf_result = "sf_error + CachedToken"
type_synonym load_result = "verify_error + (CachedToken \<times> time)"

definition acquireOrJoinInflight :: "string \<Rightarrow> Cache \<Rightarrow> (nat \<times> bool) \<times> Cache" where
  "acquireOrJoinInflight key c =
     (case map_of (inflight c) key of
        Some ch \<Rightarrow> ((ch, False), c)
      | None \<Rightarrow>
          let ch = next_chan c in
          ((ch, True), c\<lparr>inflight := AList.update key ch (inflight c), next_chan := Suc ch\<rparr>))"

text \<open>The part of \<^verbatim>\<open>releaseInflight\<close> under the mutex; closing the channel is a step of its own.\<close>

definition release_slot :: "string \<Rightarrow> Cache \<Rightarrow> Cache" where
  "release_slot key c = c\<lparr>inflight := AList.delete key (inflight c)\<rparr>"

text \<open>The end of \<^verbatim>\<open>runLoader\<close>: what is stored in the cache before the slot is released.\<close>

definition store_loaded ::
    "(string \<Rightarrow> string) \<Rightarrow> time \<Rightarrow> string \<Rightarrow> CachedToken \<Rightarrow> time \<Rightarrow> Cache \<Rightarrow> Cache" where
  "store_loaded H now token val tokenExp c =
     (if ct_Valid val then Cache_PutValid H now token val tokenExp c
      else Cache_PutNegative H now token c)"

definition runLoader ::
    "(string \<Rightarrow> string) \<Rightarrow> time \<Rightarrow> string \<Rightarrow> load_result \<Rightarrow> Cache \<Rightarrow> sf_result \<times> Cache" where
  "runLoader H now token loaded c =
     (case loaded of
        Inl err \<Rightarrow> (Inl (SfLoad err), release_slot (H token) c)
      | Inr (val, tokenExp) \<Rightarrow>
          (Inr val, release_slot (H token) (store_loaded H now token val tokenExp c)))"

definition SingleflightGet ::
    "(string \<Rightarrow> string) \<Rightarrow> time \<Rightarrow> time \<Rightarrow> load_result \<Rightarrow> string \<Rightarrow> Cache \<Rightarrow> (sf_result \<times> Cache) option" where
  "SingleflightGet H now now' loaded token c =
     (case Cache_Get H now token c of
        (Some entry, c1) \<Rightarrow> Some (Inr entry, c1)
      | (None, c1) \<Rightarrow>
          (case acquireOrJoinInflight (H token) c1 of
             ((ch, owner), c2) \<Rightarrow>
               if owner then Some (runLoader H now' token loaded c2) else None))"

section \<open>Goroutines\<close>

datatype sf_pc =
    PGet
  | PAcquire
  | PWait nat
  | PLoad nat
  | PStore nat CachedToken time
  | PRelease nat sf_result
  | PClose nat sf_result
  | PDone sf_result

record sf_state =
  sf_cache :: Cache
  closed :: "nat set"
  pcs :: "nat \<Rightarrow> sf_pc"

text \<open>
  The parameters: \<open>H\<close> the hash, \<open>tok\<close> the token each goroutine asks for.
\<close>

inductive sf_step :: "(string \<Rightarrow> string) \<Rightarrow> (nat \<Rightarrow> string) \<Rightarrow> sf_state \<Rightarrow> sf_state \<Rightarrow> bool" for H tok where
  get_hit: "pcs s p = PGet \<Longrightarrow> Cache_Get H now (tok p) (sf_cache s) = (Some v, c) \<Longrightarrow>
    sf_step H tok s (s\<lparr>sf_cache := c, pcs := (pcs s)(p := PDone (Inr v))\<rparr>)"
| get_miss: "pcs s p = PGet \<Longrightarrow> Cache_Get H now (tok p) (sf_cache s) = (None, c) \<Longrightarrow>
    sf_step H tok s (s\<lparr>sf_cache := c, pcs := (pcs s)(p := PAcquire)\<rparr>)"
| acquire: "pcs s p = PAcquire \<Longrightarrow>
    acquireOrJoinInflight (H (tok p)) (sf_cache s) = ((ch, True), c) \<Longrightarrow>
    sf_step H tok s (s\<lparr>sf_cache := c, pcs := (pcs s)(p := PLoad ch)\<rparr>)"
| join: "pcs s p = PAcquire \<Longrightarrow>
    acquireOrJoinInflight (H (tok p)) (sf_cache s) = ((ch, False), c) \<Longrightarrow>
    sf_step H tok s (s\<lparr>sf_cache := observeCache ''inflight_dedupe'' c, pcs := (pcs s)(p := PWait ch)\<rparr>)"
| wake: "pcs s p = PWait ch \<Longrightarrow> ch \<in> closed s \<Longrightarrow>
    sf_step H tok s (s\<lparr>pcs := (pcs s)(p := PGet)\<rparr>)"
| cancel: "pcs s p = PWait ch \<Longrightarrow>
    sf_step H tok s (s\<lparr>pcs := (pcs s)(p := PDone (Inl SfWaitCancelled))\<rparr>)"
| load_err: "pcs s p = PLoad ch \<Longrightarrow>
    sf_step H tok s (s\<lparr>pcs := (pcs s)(p := PRelease ch (Inl (SfLoad err)))\<rparr>)"
| load_ok: "pcs s p = PLoad ch \<Longrightarrow>
    sf_step H tok s (s\<lparr>pcs := (pcs s)(p := PStore ch val tokenExp)\<rparr>)"
| store: "pcs s p = PStore ch val tokenExp \<Longrightarrow>
    sf_step H tok s (s\<lparr>sf_cache := store_loaded H now (tok p) val tokenExp (sf_cache s),
                       pcs := (pcs s)(p := PRelease ch (Inr val))\<rparr>)"
| release: "pcs s p = PRelease ch r \<Longrightarrow>
    sf_step H tok s (s\<lparr>sf_cache := release_slot (H (tok p)) (sf_cache s),
                       pcs := (pcs s)(p := PClose ch r)\<rparr>)"
| close: "pcs s p = PClose ch r \<Longrightarrow>
    sf_step H tok s (s\<lparr>closed := insert ch (closed s), pcs := (pcs s)(p := PDone r)\<rparr>)"

definition sf_init :: "CacheConfig \<Rightarrow> sf_state" where
  "sf_init cf = \<lparr>sf_cache = NewCache cf, closed = {}, pcs = (\<lambda>_. PGet)\<rparr>"

inductive sf_reachable :: "(string \<Rightarrow> string) \<Rightarrow> (nat \<Rightarrow> string) \<Rightarrow> CacheConfig \<Rightarrow> sf_state \<Rightarrow> bool"
  for H tok cf where
  start: "sf_reachable H tok cf (sf_init cf)"
| step: "sf_reachable H tok cf s \<Longrightarrow> sf_step H tok s t \<Longrightarrow> sf_reachable H tok cf t"

section \<open>Invariant\<close>

text \<open>\<open>slot_of\<close>: the channel of a goroutine that holds its key's slot; \<open>owns\<close> adds the goroutine that
  released the slot and has still to close the channel.\<close>

fun slot_of :: "sf_pc \<Rightarrow> nat option" where
  "slot_of (PLoad ch) = Some ch"
| "slot_of (PStore ch v e) = Some ch"
| "slot_of (PRelease ch r) = Some ch"
| "slot_of _ = None"

fun owns :: "sf_pc \<Rightarrow> nat option" where
  "owns (PClose ch r) = Some ch"
| "owns pc = slot_of pc"

fun waits_on :: "sf_pc \<Rightarrow> nat option" where
  "waits_on (PWait ch) = Some ch"
| "waits_on _ = None"

definition sf_inv :: "(string \<Rightarrow> string) \<Rightarrow> (nat \<Rightarrow> string) \<Rightarrow> sf_state \<Rightarrow> bool" where
  "sf_inv H tok s \<longleftrightarrow>
     (\<forall>p ch. slot_of (pcs s p) = Some ch \<longrightarrow> map_of (inflight (sf_cache s)) (H (tok p)) = Some ch) \<and>
     (\<forall>k ch. map_of (inflight (sf_cache s)) k = Some ch \<longrightarrow>
        (\<exists>p. slot_of (pcs s p) = Some ch \<and> H (tok p) = k)) \<and>
     (\<forall>p q ch. owns (pcs s p) = Some ch \<longrightarrow> owns (pcs s q) = Some ch \<longrightarrow> p = q) \<and>
     (\<forall>p ch. owns (pcs s p) = Some ch \<longrightarrow> ch < next_chan (sf_cache s) \<and> ch \<notin> closed s) \<and>
     (\<forall>p ch. waits_on (pcs s p) = Some ch \<longrightarrow> ch \<in> closed s \<or> (\<exists>q. owns (pcs s q) = Some ch)) \<and>
     (\<forall>ch \<in> closed s. ch < next_chan (sf_cache s))"

lemma sf_inv_init: "sf_inv H tok (sf_init cf)"
  by (simp add: sf_inv_def sf_init_def)

subsection \<open>The cache operations leave the slots alone\<close>

lemma inflight_frame [simp]:
  "inflight (observeCache l c) = inflight c" "next_chan (observeCache l c) = next_chan c"
  "inflight (setCacheSize c) = inflight c" "next_chan (setCacheSize c) = next_chan c"
  "inflight (drop_elem e k c) = inflight c" "next_chan (drop_elem e k c) = next_chan c"
  "inflight (move_to_front e c) = inflight c" "next_chan (move_to_front e c) = next_chan c"
  "inflight (push_front k v c) = inflight c" "next_chan (push_front k v c) = next_chan c"
  by (simp_all add: observeCache_def setCacheSize_def drop_elem_def move_to_front_def push_front_def)

lemma inflight_evict [simp]: "inflight (evict c) = inflight c \<and> next_chan (evict c) = next_chan c"
proof (induction c rule: evict.induct)
  case (1 c)
  then show ?case by (subst (1 2) evict.simps) simp
qed

lemma inflight_get_key [simp]:
  "inflight (snd (get_key now k c)) = inflight c" "next_chan (snd (get_key now k c)) = next_chan c"
  by (auto simp: get_key_def Let_def split: option.splits)

lemma inflight_put_key [simp]:
  "inflight (put_key k v c) = inflight c" "next_chan (put_key k v c) = next_chan c"
  by (auto simp: put_key_def split: option.splits)

lemma inflight_store [simp]:
  "inflight (store_loaded H now t v e c) = inflight c" "next_chan (store_loaded H now t v e c) = next_chan c"
  by (simp_all add: store_loaded_def Cache_op_defs)

lemma inflight_Get:
  "Cache_Get H now t c = (r, c') \<Longrightarrow> inflight c' = inflight c \<and> next_chan c' = next_chan c"
  by (metis Cache_Get_def inflight_get_key snd_conv)

lemma acquire_True:
  "acquireOrJoinInflight k c = ((ch, True), c') \<Longrightarrow>
   map_of (inflight c) k = None \<and> ch = next_chan c \<and>
   map_of (inflight c') = (map_of (inflight c))(k \<mapsto> ch) \<and> next_chan c' = Suc ch"
  by (auto simp: acquireOrJoinInflight_def Let_def split: option.splits)

lemma acquire_False:
  "acquireOrJoinInflight k c = ((ch, False), c') \<Longrightarrow> map_of (inflight c) k = Some ch \<and> c' = c"
  by (auto simp: acquireOrJoinInflight_def Let_def split: option.splits)

lemma slot_owns: "slot_of pc = Some ch \<Longrightarrow> owns pc = Some ch"
  by (cases pc) auto

lemma sf_invD:
  assumes "sf_inv H tok s"
  shows slot_map: "slot_of (pcs s p) = Some ch \<Longrightarrow> map_of (inflight (sf_cache s)) (H (tok p)) = Some ch"
    and map_slot: "map_of (inflight (sf_cache s)) k = Some ch \<Longrightarrow> \<exists>p. slot_of (pcs s p) = Some ch \<and> H (tok p) = k"
    and owner_unique: "owns (pcs s p) = Some ch \<Longrightarrow> owns (pcs s q) = Some ch \<Longrightarrow> p = q"
    and owner_open: "owns (pcs s p) = Some ch \<Longrightarrow> ch < next_chan (sf_cache s) \<and> ch \<notin> closed s"
    and waiter_served: "waits_on (pcs s p) = Some ch \<Longrightarrow> ch \<in> closed s \<or> (\<exists>q. owns (pcs s q) = Some ch)"
    and closed_old: "ch \<in> closed s \<Longrightarrow> ch < next_chan (sf_cache s)"
  using assms unfolding sf_inv_def by blast+

lemma sf_invI:
  assumes "\<And>p ch. slot_of (pcs s p) = Some ch \<Longrightarrow> map_of (inflight (sf_cache s)) (H (tok p)) = Some ch"
    and "\<And>k ch. map_of (inflight (sf_cache s)) k = Some ch \<Longrightarrow> \<exists>p. slot_of (pcs s p) = Some ch \<and> H (tok p) = k"
    and "\<And>p q ch. owns (pcs s p) = Some ch \<Longrightarrow> owns (pcs s q) = Some ch \<Longrightarrow> p = q"
    and "\<And>p ch. owns (pcs s p) = Some ch \<Longrightarrow> ch < next_chan (sf_cache s) \<and> ch \<notin> closed s"
    and "\<And>p ch. waits_on (pcs s p) = Some ch \<Longrightarrow> ch \<in> closed s \<or> (\<exists>q. owns (pcs s q) = Some ch)"
    and "\<And>ch. ch \<in> closed s \<Longrightarrow> ch < next_chan (sf_cache s)"
  shows "sf_inv H tok s"
  using assms unfolding sf_inv_def by blast

text \<open>A step that moves one goroutine and changes neither slots, channels nor ownership keeps the
  invariant, provided a new waiter waits on a channel that will be closed.\<close>

lemma sf_inv_local:
  assumes "sf_inv H tok s"
    and "inflight c = inflight (sf_cache s)" "next_chan c = next_chan (sf_cache s)"
    and "slot_of pc = slot_of (pcs s p)" "owns pc = owns (pcs s p)"
    and "\<And>ch. waits_on pc = Some ch \<Longrightarrow> ch \<in> closed s \<or> (\<exists>q. owns (pcs s q) = Some ch)"
  shows "sf_inv H tok (s\<lparr>sf_cache := c, pcs := (pcs s)(p := pc)\<rparr>)"
proof -
  let ?t = "s\<lparr>sf_cache := c, pcs := (pcs s)(p := pc)\<rparr>"
  have slot: "slot_of (pcs ?t q) = slot_of (pcs s q)" and own: "owns (pcs ?t q) = owns (pcs s q)" for q
    using assms(4,5) by auto
  have wait: "waits_on (pcs ?t q) = Some ch \<Longrightarrow> ch \<in> closed s \<or> (\<exists>q. owns (pcs s q) = Some ch)" for q ch
    using assms(6) waiter_served [OF assms(1)] by (auto split: if_splits)
  show ?thesis
    unfolding sf_inv_def slot own using assms(1-3) wait
    by (simp add: sf_inv_def)
qed

lemma sf_inv_acquire:
  assumes inv: "sf_inv H tok s" and p: "pcs s p = PAcquire"
    and acq: "acquireOrJoinInflight (H (tok p)) (sf_cache s) = ((ch, True), c)"
  shows "sf_inv H tok (s\<lparr>sf_cache := c, pcs := (pcs s)(p := PLoad ch)\<rparr>)"
proof -
  note a = acquire_True [OF acq]
  have fresh: "owns (pcs s q) \<noteq> Some ch" for q
    using owner_open [OF inv, of q ch] a by auto
  show ?thesis
  proof (rule sf_invI, goal_cases)
    case (1 q ch')
    then show ?case using slot_map [OF inv, of q ch'] a by (auto split: if_splits)
  next
    case (2 k ch')
    then show ?case
      using a p map_slot [OF inv, of k ch'] by (auto split: if_splits)
  next
    case (3 q r ch')
    then show ?case using owner_unique [OF inv, of q ch' r] fresh by (auto split: if_splits)
  next
    case (4 q ch')
    then show ?case using owner_open [OF inv, of q ch'] a closed_old [OF inv, of ch] by (auto split: if_splits)
  next
    case (5 q ch')
    then show ?case
      using waiter_served [OF inv, of q ch'] p
      by (auto split: if_splits) (metis option.distinct(1) owns.simps(3) slot_of.simps(5))
  next
    case (6 ch')
    then show ?case using closed_old [OF inv, of ch'] a by auto
  qed
qed

lemma sf_inv_release:
  assumes inv: "sf_inv H tok s" and p: "pcs s p = PRelease ch r"
  shows "sf_inv H tok (s\<lparr>sf_cache := release_slot (H (tok p)) (sf_cache s), pcs := (pcs s)(p := PClose ch r)\<rparr>)"
proof -
  have own: "owns (((pcs s)(p := PClose ch r)) q) = owns (pcs s q)" for q using p by auto
  have others: "q = p" if "slot_of (pcs s q) = Some ch'" "H (tok q) = H (tok p)" for q ch'
    using slot_map [OF inv that(1)] that slot_map [OF inv, of p ch] p owner_unique [OF inv, of q ch' p]
    by (simp add: slot_owns)
  show ?thesis
  proof (rule sf_invI, goal_cases)
    case (1 q ch')
    then show ?case
      using slot_map [OF inv, of q ch'] others [of q ch'] by (auto simp: release_slot_def split: if_splits)
  next
    case (2 k ch')
    then have "k \<noteq> H (tok p)" "map_of (inflight (sf_cache s)) k = Some ch'"
      by (auto simp: release_slot_def split: if_splits)
    then show ?case using map_slot [OF inv, of k ch'] by auto
  next
    case (3 q r' ch')
    then show ?case using owner_unique [OF inv, of q ch' r'] by (simp add: own del: fun_upd_apply)
  next
    case (4 q ch')
    then show ?case
      using owner_open [OF inv, of q ch'] by (simp add: own release_slot_def del: fun_upd_apply)
  next
    case (5 q ch')
    then have "waits_on (pcs s q) = Some ch'" by (auto split: if_splits)
    then show ?case using waiter_served [OF inv, of q ch'] by (simp add: own del: fun_upd_apply)
  next
    case (6 ch')
    then show ?case using closed_old [OF inv, of ch'] by (simp add: release_slot_def)
  qed
qed

lemma sf_inv_close:
  assumes inv: "sf_inv H tok s" and p: "pcs s p = PClose ch r"
  shows "sf_inv H tok (s\<lparr>closed := insert ch (closed s), pcs := (pcs s)(p := PDone r)\<rparr>)"
proof (rule sf_invI, goal_cases)
  case (1 q ch')
  then show ?case using slot_map [OF inv, of q ch'] by (auto split: if_splits)
next
  case (2 k ch')
  then obtain q where "slot_of (pcs s q) = Some ch'" "H (tok q) = k"
    using map_slot [OF inv, of k ch'] by auto
  moreover from this p have "q \<noteq> p" by auto
  ultimately show ?case by (intro exI [of _ q]) simp
next
  case (3 q r' ch')
  then show ?case using owner_unique [OF inv, of q ch' r'] by (auto split: if_splits)
next
  case (4 q ch')
  then have q: "q \<noteq> p" "owns (pcs s q) = Some ch'" by (auto split: if_splits)
  then have "ch' \<noteq> ch" using owner_unique [OF inv, of p ch q] p by auto
  then show ?case using owner_open [OF inv q(2)] by simp
next
  case (5 q ch')
  then have w: "waits_on (pcs s q) = Some ch'" by (auto split: if_splits)
  show ?case
  proof (cases "ch' = ch")
    case False
    then have "owns (pcs s x) = Some ch' \<Longrightarrow> x \<noteq> p" for x using p by auto
    then show ?thesis using waiter_served [OF inv w] by auto
  qed simp
next
  case (6 ch')
  then show ?case using closed_old [OF inv, of ch'] owner_open [OF inv, of p ch] p by auto
qed

lemma sf_step_inv: "sf_step H tok s t \<Longrightarrow> sf_inv H tok s \<Longrightarrow> sf_inv H tok t"
proof (induction rule: sf_step.induct)
  case (join s p ch c)
  note a = acquire_False [OF join(2)]
  show ?case
    by (rule sf_inv_local) (use join a map_slot [OF join(3), of "H (tok p)" ch] slot_owns in auto)
next
  case (acquire s p ch c)
  then show ?case by (simp add: sf_inv_acquire)
next
  case (release s p ch r)
  then show ?case by (simp add: sf_inv_release)
next
  case (close s p ch r)
  then show ?case by (simp add: sf_inv_close)
next
  case (wake s p ch)
  then show ?case using sf_inv_local [of H tok s "sf_cache s" PGet p] by simp
next
  case (cancel s p ch)
  then show ?case using sf_inv_local [of H tok s "sf_cache s" "PDone (Inl SfWaitCancelled)" p] by simp
next
  case (load_err s p ch err)
  then show ?case using sf_inv_local [of H tok s "sf_cache s" "PRelease ch (Inl (SfLoad err))" p] by simp
next
  case (load_ok s p ch val tokenExp)
  then show ?case using sf_inv_local [of H tok s "sf_cache s" "PStore ch val tokenExp" p] by simp
qed (auto intro!: sf_inv_local dest: inflight_Get)

lemma sf_reachable_inv: "sf_reachable H tok cf s \<Longrightarrow> sf_inv H tok s"
  by (induction rule: sf_reachable.induct) (auto intro: sf_inv_init sf_step_inv)

lemma sf_can_move:
  assumes "\<forall>r. pcs s q \<noteq> PDone r" and "\<forall>ch. pcs s q = PWait ch \<longrightarrow> ch \<in> closed s"
  shows "\<exists>t. sf_step H tok s t \<and> pcs t q \<noteq> pcs s q"
proof (cases "pcs s q")
  case PGet
  obtain r c where g: "Cache_Get H 0 (tok q) (sf_cache s) = (r, c)" by (cases "Cache_Get H 0 (tok q) (sf_cache s)")
  show ?thesis
  proof (cases r)
    case None
    with g have "sf_step H tok s (s\<lparr>sf_cache := c, pcs := (pcs s)(q := PAcquire)\<rparr>)"
      using sf_step.get_miss [OF PGet] by blast
    with PGet show ?thesis by (intro exI conjI) auto
  next
    case (Some v)
    with g have "sf_step H tok s (s\<lparr>sf_cache := c, pcs := (pcs s)(q := PDone (Inr v))\<rparr>)"
      using sf_step.get_hit [OF PGet] by blast
    with PGet show ?thesis by (intro exI conjI) auto
  qed
next
  case PAcquire
  obtain ch ow c where a: "acquireOrJoinInflight (H (tok q)) (sf_cache s) = ((ch, ow), c)"
    by (metis prod.exhaust)
  show ?thesis
  proof (cases ow)
    case True
    with a have "sf_step H tok s (s\<lparr>sf_cache := c, pcs := (pcs s)(q := PLoad ch)\<rparr>)"
      using sf_step.acquire [OF PAcquire, of H tok ch c] by simp
    with PAcquire show ?thesis by (intro exI conjI) auto
  next
    case False
    with a have "sf_step H tok s (s\<lparr>sf_cache := observeCache ''inflight_dedupe'' c, pcs := (pcs s)(q := PWait ch)\<rparr>)"
      using sf_step.join [OF PAcquire, of H tok ch c] by simp
    with PAcquire show ?thesis by (intro exI conjI) auto
  qed
next
  case (PWait ch)
  with assms have "sf_step H tok s (s\<lparr>pcs := (pcs s)(q := PGet)\<rparr>)" by (auto intro: sf_step.wake)
  with PWait show ?thesis by (intro exI conjI) auto
next
  case (PLoad ch)
  have "sf_step H tok s (s\<lparr>pcs := (pcs s)(q := PRelease ch (Inl (SfLoad ErrVerifyDenied)))\<rparr>)"
    using PLoad by (rule sf_step.load_err)
  with PLoad show ?thesis by (intro exI conjI) auto
next
  case (PStore ch v e)
  have "sf_step H tok s (s\<lparr>sf_cache := store_loaded H 0 (tok q) v e (sf_cache s), pcs := (pcs s)(q := PRelease ch (Inr v))\<rparr>)"
    using PStore by (rule sf_step.store)
  with PStore show ?thesis by (intro exI conjI) auto
next
  case (PRelease ch r)
  have "sf_step H tok s (s\<lparr>sf_cache := release_slot (H (tok q)) (sf_cache s), pcs := (pcs s)(q := PClose ch r)\<rparr>)"
    using PRelease by (rule sf_step.release)
  with PRelease show ?thesis by (intro exI conjI) auto
next
  case (PClose ch r)
  have "sf_step H tok s (s\<lparr>closed := insert ch (closed s), pcs := (pcs s)(q := PDone r)\<rparr>)"
    using PClose by (rule sf_step.close)
  with PClose show ?thesis by (intro exI conjI) auto
qed (use assms in simp)

section \<open>Properties\<close>

text \<open>C8: Single flight. In every reachable state of any number of concurrent \<open>SingleflightGet\<close> calls, at
  most one goroutine is loading for a given token key.\<close>

theorem singleflight_one_loader:
  assumes "sf_reachable H tok cf s"
    and "pcs s p = PLoad ch" and "pcs s q = PLoad ch'" and "H (tok p) = H (tok q)"
  shows "p = q"
proof -
  have inv: "sf_inv H tok s" using assms(1) by (rule sf_reachable_inv)
  have "ch = ch'" using slot_map [OF inv, of p ch] slot_map [OF inv, of q ch'] assms by simp
  then show ?thesis using owner_unique [OF inv, of p ch q] assms by simp
qed

definition sf_loading :: sf_state where
  "sf_loading = \<lparr>sf_cache = snd (acquireOrJoinInflight ''a'' (observeCache ''miss'' (NewCache DefaultCacheConfig))),
     closed = {}, pcs = (\<lambda>_. PGet)(0 := PLoad 0)\<rparr>"

lemma sf_loading_reachable: "sf_reachable id (\<lambda>_. ''a'') DefaultCacheConfig sf_loading"
proof -
  let ?R = "sf_reachable id (\<lambda>_. ''a'') DefaultCacheConfig"
  let ?c = "observeCache ''miss'' (NewCache DefaultCacheConfig)"
  have get: "Cache_Get id 0 ''a'' (NewCache DefaultCacheConfig) = (None, ?c)"
    by (simp add: Cache_Get_def get_key_def)
  have 1: "?R ((sf_init DefaultCacheConfig)\<lparr>sf_cache := ?c, pcs := (pcs (sf_init DefaultCacheConfig))(0 := PAcquire)\<rparr>)"
    by (rule sf_reachable.step [OF sf_reachable.start], rule sf_step.get_miss [where now = 0]) (simp_all add: sf_init_def get)
  have acq: "acquireOrJoinInflight ''a'' ?c = ((0, True), snd (acquireOrJoinInflight ''a'' ?c))"
    by (simp add: acquireOrJoinInflight_def)
  have "?R (((sf_init DefaultCacheConfig)\<lparr>sf_cache := ?c, pcs := (pcs (sf_init DefaultCacheConfig))(0 := PAcquire)\<rparr>)
      \<lparr>sf_cache := snd (acquireOrJoinInflight ''a'' ?c),
       pcs := ((pcs (sf_init DefaultCacheConfig))(0 := PAcquire))(0 := PLoad 0)\<rparr>)"
    using sf_reachable.step [OF 1 sf_step.acquire [of _ 0 id "\<lambda>_. ''a''" 0 "snd (acquireOrJoinInflight ''a'' ?c)"]] acq
    by simp
  then show ?thesis by (simp add: sf_loading_def sf_init_def)
qed

theorem singleflight_one_loader_witness:
  "sf_reachable id (\<lambda>_. ''a'') DefaultCacheConfig sf_loading \<and>
   {q. \<exists>ch. pcs sf_loading q = PLoad ch} = {0}"
proof -
  have pc: "pcs sf_loading 0 = PLoad 0" by (simp add: sf_loading_def)
  then have "{q. \<exists>ch. pcs sf_loading q = PLoad ch} = {0}"
    using singleflight_one_loader [OF sf_loading_reachable pc] by auto
  with sf_loading_reachable show ?thesis by simp
qed

text \<open>No stranded waiter and no double close. In every reachable state, a goroutine that waits on a
  channel either waits on a closed channel or on one whose owner is still running (and has not closed
  it), and a goroutine about to close a channel closes one that is open, so Go's close panic is
  unreachable.\<close>

theorem singleflight_waiters_served:
  assumes "sf_reachable H tok cf s"
  shows "(\<forall>p ch. pcs s p = PWait ch \<longrightarrow>
            ch \<in> closed s \<or>
            (\<exists>q. q \<noteq> p \<and> (pcs s q = PLoad ch \<or> (\<exists>v e. pcs s q = PStore ch v e) \<or>
                          (\<exists>r. pcs s q = PRelease ch r \<or> pcs s q = PClose ch r)))) \<and>
         (\<forall>p ch r. pcs s p = PClose ch r \<longrightarrow> ch \<notin> closed s)"
proof -
  have inv: "sf_inv H tok s" using assms by (rule sf_reachable_inv)
  have "ch \<in> closed s \<or> (\<exists>q. q \<noteq> p \<and> (pcs s q = PLoad ch \<or> (\<exists>v e. pcs s q = PStore ch v e) \<or>
          (\<exists>r. pcs s q = PRelease ch r \<or> pcs s q = PClose ch r)))"
    if w: "pcs s p = PWait ch" for p ch
  proof (cases "ch \<in> closed s")
    case False
    then obtain q where q: "owns (pcs s q) = Some ch"
      using waiter_served [OF inv, of p ch] w by auto
    with w have "q \<noteq> p" by auto
    with q show ?thesis by (cases "pcs s q") auto
  qed simp
  moreover have "ch \<notin> closed s" if "pcs s p = PClose ch r" for p ch r
    using owner_open [OF inv, of p ch] that by simp
  ultimately show ?thesis by blast
qed

theorem singleflight_waiters_served_witness:
  "sf_reachable id (\<lambda>_. ''a'') DefaultCacheConfig sf_loading \<and>
   {(p, ch). (\<exists>r. pcs sf_loading p = PClose ch r) \<and> ch \<in> closed sf_loading} = {}"
  using sf_loading_reachable singleflight_waiters_served [OF sf_loading_reachable] by blast

text \<open>No deadlock. As long as some goroutine has not returned, some goroutine can move on its own:
  one that is not blocked on an open channel.\<close>

theorem singleflight_progress:
  assumes "sf_reachable H tok cf s" and "\<forall>r. pcs s p \<noteq> PDone r"
  shows "\<exists>q t. sf_step H tok s t \<and> pcs t q \<noteq> pcs s q \<and> (\<forall>ch. pcs s q = PWait ch \<longrightarrow> ch \<in> closed s)"
proof -
  have inv: "sf_inv H tok s" using assms(1) by (rule sf_reachable_inv)
  have moves: "\<exists>t. sf_step H tok s t \<and> pcs t q \<noteq> pcs s q"
    if "\<forall>r. pcs s q \<noteq> PDone r" "\<forall>ch. pcs s q = PWait ch \<longrightarrow> ch \<in> closed s" for q
    using that by (rule sf_can_move)
  show ?thesis
  proof (cases "\<exists>ch. pcs s p = PWait ch \<and> ch \<notin> closed s")
    case True
    then obtain ch q where "owns (pcs s q) = Some ch"
      using waiter_served [OF inv, of p] by auto
    then have "\<forall>r. pcs s q \<noteq> PDone r" "\<forall>ch. pcs s q = PWait ch \<longrightarrow> ch \<in> closed s" by auto
    with moves show ?thesis by blast
  next
    case False
    with moves assms(2) show ?thesis by blast
  qed
qed

theorem singleflight_progress_witness:
  "\<exists>q t. sf_step id (\<lambda>_. ''a'') sf_loading t \<and> pcs t q \<noteq> pcs sf_loading q \<and>
     {ch. pcs sf_loading q = PWait ch \<and> ch \<notin> closed sf_loading} = {}"
proof -
  have "\<forall>r. pcs sf_loading 0 \<noteq> PDone r" by (simp add: sf_loading_def)
  from singleflight_progress [OF sf_loading_reachable this] show ?thesis by blast
qed

end
