(* ===== verification/Gateway_Allowlist.thy ===== *)
theory Gateway_Allowlist
  imports Prelude
begin

text \<open>
  The gateway's write allowlist, \<^verbatim>\<open>internal/ingestgw/allowlist.go\<close>, and the routes of the ingest listener
  behind it, \<^verbatim>\<open>internal/api/ingest_mux.go\<close>. Both tables are transcribed in full, in order. Results: what
  a request path that passes the allowlist looks like, that no request matches two routes, and which
  forwarded routes the listener serves.
\<close>

section \<open>The allowlist\<close>

record route =
  r_Method :: string
  r_Pattern :: string

abbreviation route_of :: "string \<Rightarrow> string \<Rightarrow> route" where
  "route_of m p \<equiv> \<lparr>r_Method = m, r_Pattern = p\<rparr>"

definition Routes :: "route list" where
  "Routes =
    [route_of ''POST'' ''/v1/clusters'',
     route_of ''PATCH'' ''/v1/clusters/{uuid}'',
     route_of ''POST'' ''/v1/nodes'',
     route_of ''POST'' ''/v1/nodes/reconcile'',
     route_of ''POST'' ''/v1/namespaces'',
     route_of ''POST'' ''/v1/namespaces/reconcile'',
     route_of ''POST'' ''/v1/pods'',
     route_of ''POST'' ''/v1/pods/reconcile'',
     route_of ''POST'' ''/v1/workloads'',
     route_of ''POST'' ''/v1/workloads/reconcile'',
     route_of ''POST'' ''/v1/services'',
     route_of ''POST'' ''/v1/services/reconcile'',
     route_of ''POST'' ''/v1/ingresses'',
     route_of ''POST'' ''/v1/ingresses/reconcile'',
     route_of ''POST'' ''/v1/persistentvolumes'',
     route_of ''POST'' ''/v1/persistentvolumes/reconcile'',
     route_of ''POST'' ''/v1/persistentvolumeclaims'',
     route_of ''POST'' ''/v1/persistentvolumeclaims/reconcile'',
     route_of ''POST'' ''/v1/ingest/cloud-accounts/{uuid}/security-groups/sweep'',
     route_of ''POST'' ''/v1/network-policies'',
     route_of ''POST'' ''/v1/network-policies/reconcile'',
     route_of ''POST'' ''/v1/ingest/cloud-accounts/{uuid}/node-images'']"

definition is_hex :: "char \<Rightarrow> bool" where
  "is_hex c \<longleftrightarrow>
     (let n = of_char c :: nat in (48 \<le> n \<and> n \<le> 57) \<or> (97 \<le> n \<and> n \<le> 102) \<or> (65 \<le> n \<and> n \<le> 70))"

text \<open>\<^verbatim>\<open>uuidPattern\<close>: hexadecimal groups of 8, 4, 4, 4 and 12 digits between dashes, nothing else.\<close>

definition uuidPattern :: "string \<Rightarrow> bool" where
  "uuidPattern s \<longleftrightarrow>
     (let ps = Split s (CHR ''-'') in map length ps = [8, 4, 4, 4, 12] \<and> list_all (list_all is_hex) ps)"

text \<open>The segment loop of \<^verbatim>\<open>matchPattern\<close>; both lists have the same length where it is called.\<close>

fun match_segments :: "string list \<Rightarrow> string list \<Rightarrow> bool" where
  "match_segments (want # ws) (got # gs) =
     (if want = ''{uuid}'' then (if \<not> uuidPattern got then False else match_segments ws gs)
      else (if want \<noteq> got then False else match_segments ws gs))"
| "match_segments _ _ = True"

definition matchPattern :: "string \<Rightarrow> string list \<Rightarrow> bool" where
  "matchPattern pattern pathParts =
     (let patternParts = Split pattern (CHR ''/'') in
      if length patternParts \<noteq> length pathParts then False
      else match_segments patternParts pathParts)"

fun match_routes :: "route list \<Rightarrow> string \<Rightarrow> string list \<Rightarrow> string option" where
  "match_routes [] meth parts = None"
| "match_routes (r # rs) meth parts =
     (if r_Method r \<noteq> meth then match_routes rs meth parts
      else if matchPattern (r_Pattern r) parts then Some (r_Pattern r)
      else match_routes rs meth parts)"

definition matchAllowlist :: "string \<Rightarrow> string \<Rightarrow> string option" where
  "matchAllowlist meth path = match_routes Routes meth (Split path (CHR ''/''))"

section \<open>The ingest listener's routes\<close>

definition IngestRoutes :: "route list" where
  "IngestRoutes =
    [route_of ''POST'' ''/v1/auth/verify'',
     route_of ''POST'' ''/v1/clusters'',
     route_of ''PATCH'' ''/v1/clusters/{id}'',
     route_of ''POST'' ''/v1/nodes'',
     route_of ''POST'' ''/v1/nodes/reconcile'',
     route_of ''POST'' ''/v1/namespaces'',
     route_of ''POST'' ''/v1/namespaces/reconcile'',
     route_of ''POST'' ''/v1/pods'',
     route_of ''POST'' ''/v1/pods/reconcile'',
     route_of ''POST'' ''/v1/workloads'',
     route_of ''POST'' ''/v1/workloads/reconcile'',
     route_of ''POST'' ''/v1/services'',
     route_of ''POST'' ''/v1/services/reconcile'',
     route_of ''POST'' ''/v1/ingresses'',
     route_of ''POST'' ''/v1/ingresses/reconcile'',
     route_of ''POST'' ''/v1/persistentvolumes'',
     route_of ''POST'' ''/v1/persistentvolumes/reconcile'',
     route_of ''POST'' ''/v1/persistentvolumeclaims'',
     route_of ''POST'' ''/v1/persistentvolumeclaims/reconcile'',
     route_of ''POST'' ''/v1/network-policies'',
     route_of ''POST'' ''/v1/network-policies/reconcile'']"

text \<open>
  How \<^verbatim>\<open>net/http\<close>'s \<^verbatim>\<open>ServeMux\<close> matches a registered pattern: segment by segment, \<^verbatim>\<open>{id}\<close> matches any
  one non-empty segment.
\<close>

fun mux_segments :: "string list \<Rightarrow> string list \<Rightarrow> bool" where
  "mux_segments [] [] = True"
| "mux_segments (want # ws) (got # gs) =
     ((if want = ''{id}'' then got \<noteq> [] else want = got) \<and> mux_segments ws gs)"
| "mux_segments _ _ = False"

text \<open>\<^verbatim>\<open>dispatchByOperation\<close>: the operation behind a route, \<open>None\<close> for the deliberate 500.\<close>

definition dispatch_table :: "(string, string) gomap" where
  "dispatch_table =
    [(''POST /v1/auth/verify'', ''VerifyToken''),
     (''POST /v1/clusters'', ''CreateCluster''),
     (''PATCH /v1/clusters/{id}'', ''UpdateCluster''),
     (''POST /v1/nodes'', ''CreateNode''),
     (''POST /v1/nodes/reconcile'', ''ReconcileNodes''),
     (''POST /v1/namespaces'', ''CreateNamespace''),
     (''POST /v1/namespaces/reconcile'', ''ReconcileNamespaces''),
     (''POST /v1/pods'', ''CreatePod''),
     (''POST /v1/pods/reconcile'', ''ReconcilePods''),
     (''POST /v1/workloads'', ''CreateWorkload''),
     (''POST /v1/workloads/reconcile'', ''ReconcileWorkloads''),
     (''POST /v1/services'', ''CreateService''),
     (''POST /v1/services/reconcile'', ''ReconcileServices''),
     (''POST /v1/ingresses'', ''CreateIngress''),
     (''POST /v1/ingresses/reconcile'', ''ReconcileIngresses''),
     (''POST /v1/persistentvolumes'', ''CreatePersistentVolume''),
     (''POST /v1/persistentvolumes/reconcile'', ''ReconcilePersistentVolumes''),
     (''POST /v1/persistentvolumeclaims'', ''CreatePersistentVolumeClaim''),
     (''POST /v1/persistentvolumeclaims/reconcile'', ''ReconcilePersistentVolumeClaims''),
     (''POST /v1/network-policies'', ''CreateNetworkPolicy''),
     (''POST /v1/network-policies/reconcile'', ''ReconcileNetworkPolicies'')]"

definition dispatchByOperation :: "string \<Rightarrow> string \<Rightarrow> string option" where
  "dispatchByOperation meth pattern = map_of dispatch_table (meth @ '' '' @ pattern)"

text \<open>The mux: \<open>None\<close> is its 404, \<open>Some None\<close> the 500 of a route without an operation.\<close>

definition NewIngestMux :: "string \<Rightarrow> string \<Rightarrow> string option option" where
  "NewIngestMux meth path =
     map_option (\<lambda>r. dispatchByOperation (r_Method r) (r_Pattern r))
       (find (\<lambda>r. r_Method r = meth \<and>
                  mux_segments (Split (r_Pattern r) (CHR ''/'')) (Split path (CHR ''/''))) IngestRoutes)"

definition NewIngestMux_serves :: "string \<Rightarrow> string \<Rightarrow> bool" where
  "NewIngestMux_serves meth path =
     (case NewIngestMux meth path of Some (Some operation) \<Rightarrow> True | _ \<Rightarrow> False)"

section \<open>Lemmas\<close>

lemma IngestRoutes_dispatched:
  "list_all (\<lambda>r. dispatchByOperation (r_Method r) (r_Pattern r) \<noteq> None) IngestRoutes"
  by code_simp

lemma NewIngestMux_serves_iff:
  "NewIngestMux_serves meth path =
     list_ex (\<lambda>r. r_Method r = meth \<and>
                  mux_segments (Split (r_Pattern r) (CHR ''/'')) (Split path (CHR ''/''))) IngestRoutes"
proof -
  have "r \<in> set IngestRoutes \<Longrightarrow> \<exists>op. dispatchByOperation (r_Method r) (r_Pattern r) = Some op" for r
    using IngestRoutes_dispatched by (auto simp: list_all_iff)
  then show ?thesis
    by (auto simp: NewIngestMux_serves_def NewIngestMux_def list_ex_iff find_None_iff find_Some_iff
        split: option.splits) (metis nth_mem option.distinct(1))+
qed

lemma match_routes_Some:
  "match_routes rs m parts = Some pat \<Longrightarrow> \<exists>r \<in> set rs. r_Method r = m \<and> r_Pattern r = pat \<and> matchPattern pat parts"
  by (induction rs) (auto split: if_splits)

lemma match_routes_None_iff:
  "match_routes rs m parts = None \<longleftrightarrow> (\<forall>r \<in> set rs. r_Method r = m \<longrightarrow> \<not> matchPattern (r_Pattern r) parts)"
  by (induction rs) auto

lemma match_segments_list_all2:
  "length ws = length gs \<Longrightarrow>
   match_segments ws gs \<longleftrightarrow> list_all2 (\<lambda>w g. if w = ''{uuid}'' then uuidPattern g else w = g) ws gs"
  by (induction ws gs rule: list_induct2) auto

lemma matchPattern_iff:
  "matchPattern pat parts \<longleftrightarrow>
   list_all2 (\<lambda>w g. if w = ''{uuid}'' then uuidPattern g else w = g) (Split pat (CHR ''/'')) parts"
  by (auto simp: matchPattern_def Let_def match_segments_list_all2 dest: list_all2_lengthD)

lemma uuid_chars:
  assumes "uuidPattern s"
  shows "list_all (\<lambda>c. is_hex c \<or> c = CHR ''-'') s"
proof (rule list_all_by_Split [where c = "CHR ''-''"])
  fix p assume "p \<in> set (Split s (CHR ''-''))"
  with assms show "list_all (\<lambda>c. is_hex c \<or> c = CHR ''-'') p"
    by (auto simp: uuidPattern_def Let_def list_all_iff)
qed simp

lemma uuid_length:
  assumes "uuidPattern s"
  shows "length s = 36"
proof -
  let ?ps = "Split s (CHR ''-'')"
  from assms have "map length ?ps = [8, 4, 4, 4, 12]" by (simp add: uuidPattern_def Let_def)
  then obtain a b c d e where ps: "?ps = [a, b, c, d, e]"
    and l: "length a = 8" "length b = 4" "length c = 4" "length d = 4" "length e = 12"
    by (auto simp: map_eq_Cons_conv)
  have "length (Join ?ps ''-'') = 36" by (simp add: ps l)
  then show ?thesis by simp
qed

subsection \<open>Checks over the tables, decided by evaluation\<close>

abbreviation segs :: "string \<Rightarrow> string list" where
  "segs p \<equiv> Split p (CHR ''/'')"

text \<open>Two segments of allowlist patterns that no path segment can match both.\<close>

definition seg_clash :: "string \<Rightarrow> string \<Rightarrow> bool" where
  "seg_clash w w' \<longleftrightarrow> w \<noteq> w' \<and> (w \<noteq> ''{uuid}'' \<or> \<not> uuidPattern w') \<and> (w' \<noteq> ''{uuid}'' \<or> \<not> uuidPattern w)"

definition pat_clash :: "string list \<Rightarrow> string list \<Rightarrow> bool" where
  "pat_clash ws ws' \<longleftrightarrow> length ws \<noteq> length ws' \<or> list_ex (\<lambda>(w, w'). seg_clash w w') (zip ws ws')"

definition mux_covers :: "string list \<Rightarrow> string list \<Rightarrow> bool" where
  "mux_covers ms ws \<longleftrightarrow>
     length ms = length ws \<and>
     list_all (\<lambda>(m, w). if m = ''{id}'' then w = ''{uuid}'' else m = w \<and> w \<noteq> ''{uuid}'') (zip ms ws)"

definition mux_clash :: "string list \<Rightarrow> string list \<Rightarrow> bool" where
  "mux_clash ms ws \<longleftrightarrow>
     length ms \<noteq> length ws \<or>
     list_ex (\<lambda>(m, w). m \<noteq> ''{id}'' \<and> w \<noteq> ''{uuid}'' \<and> m \<noteq> w) (zip ms ws)"

definition seg_char :: "char \<Rightarrow> bool" where
  "seg_char c \<longleftrightarrow>
     is_hex c \<or> c = CHR ''-'' \<or> c = CHR ''/'' \<or> (let n = of_char c :: nat in 97 \<le> n \<and> n \<le> 122)"

lemma matchPattern_nth:
  assumes "matchPattern p parts" and "i < length parts"
  shows "if segs p ! i = ''{uuid}'' then uuidPattern (parts ! i) else segs p ! i = parts ! i"
  using assms list_all2_lengthD by (fastforce simp: matchPattern_iff dest: list_all2_nthD2)

lemma matchPattern_length: "matchPattern p parts \<Longrightarrow> length (segs p) = length parts"
  by (simp add: matchPattern_iff list_all2_lengthD)

lemma pat_clash_sound:
  assumes "pat_clash (segs p) (segs q)" and "matchPattern p parts"
  shows "\<not> matchPattern q parts"
proof
  assume q: "matchPattern q parts"
  with assms(2) have len: "length (segs p) = length parts" "length (segs q) = length parts"
    by (auto simp: matchPattern_length)
  with assms(1) obtain i where i: "i < length parts" "seg_clash (segs p ! i) (segs q ! i)"
    by (auto simp: pat_clash_def list_ex_iff in_set_zip)
  then show False
    using matchPattern_nth [OF assms(2) i(1)] matchPattern_nth [OF q i(1)]
    by (auto simp: seg_clash_def split: if_splits)
qed

lemma mux_segments_iff:
  "mux_segments ms gs \<longleftrightarrow> list_all2 (\<lambda>m g. if m = ''{id}'' then g \<noteq> [] else m = g) ms gs"
  by (induction ms gs rule: mux_segments.induct) auto

lemma uuid_nonempty: "uuidPattern s \<Longrightarrow> s \<noteq> []"
  using uuid_length by fastforce

lemma mux_covers_sound:
  assumes "mux_covers ms (segs p)" and "matchPattern p parts"
  shows "mux_segments ms parts"
  unfolding mux_segments_iff
proof (rule list_all2_all_nthI)
  have len: "length ms = length (segs p)" using assms(1) by (simp add: mux_covers_def)
  then show "length ms = length parts" using matchPattern_length [OF assms(2)] by simp
  fix i assume i: "i < length ms"
  have "\<forall>n < length ms. if ms ! n = ''{id}'' then segs p ! n = ''{uuid}''
      else ms ! n = segs p ! n \<and> segs p ! n \<noteq> ''{uuid}''"
    using assms(1) len by (simp add: mux_covers_def list_all_length)
  with i have "if ms ! i = ''{id}'' then segs p ! i = ''{uuid}'' else ms ! i = segs p ! i \<and> segs p ! i \<noteq> ''{uuid}''"
    by blast
  then show "if ms ! i = ''{id}'' then parts ! i \<noteq> [] else ms ! i = parts ! i"
    using matchPattern_nth [OF assms(2), of i] i len matchPattern_length [OF assms(2)] uuid_nonempty
    by (auto split: if_splits)
qed

lemma mux_clash_sound:
  assumes "mux_clash ms (segs p)" and "matchPattern p parts"
  shows "\<not> mux_segments ms parts"
proof
  assume m: "mux_segments ms parts"
  with assms(2) have len: "length (segs p) = length parts" "length ms = length parts"
    by (auto simp: matchPattern_iff mux_segments_iff dest: list_all2_lengthD)
  with assms(1) obtain i where
    "i < length parts" "ms ! i \<noteq> ''{id}''" "segs p ! i \<noteq> ''{uuid}''" "ms ! i \<noteq> segs p ! i"
    by (auto simp: mux_clash_def list_ex_iff in_set_zip)
  with assms(2) m len show False
    by (auto simp: matchPattern_iff mux_segments_iff list_all2_conv_all_nth)
qed

text \<open>The two vm-collector routes.\<close>

definition vm_routes :: "string list" where
  "vm_routes =
    [''/v1/ingest/cloud-accounts/{uuid}/security-groups/sweep'',
     ''/v1/ingest/cloud-accounts/{uuid}/node-images'']"

lemma Routes_clash:
  "list_all (\<lambda>r. list_all (\<lambda>r'. r = r' \<or> pat_clash (segs (r_Pattern r)) (segs (r_Pattern r'))) Routes) Routes"
  by code_simp

lemma Routes_covered:
  "list_all (\<lambda>r. List.member vm_routes (r_Pattern r) \<or>
     list_ex (\<lambda>i. r_Method i = r_Method r \<and> mux_covers (segs (r_Pattern i)) (segs (r_Pattern r))) IngestRoutes) Routes"
  by code_simp

lemma vm_routes_clash:
  "list_all (\<lambda>p. list_all (\<lambda>i. mux_clash (segs (r_Pattern i)) (segs p)) IngestRoutes) vm_routes"
  by code_simp

lemma Routes_chars:
  "list_all (\<lambda>r. (r_Method r = ''POST'' \<or> r_Method r = ''PATCH'') \<and>
     list_all (\<lambda>w. w = ''{uuid}'' \<or> list_all seg_char w) (segs (r_Pattern r))) Routes"
  by code_simp

section \<open>Properties\<close>

text \<open>Allowlist, exactness. A request is allowed with a pattern exactly when the pattern is in the
  table under the request's HTTP verb and matches the path segment by segment (literal segments equal,
  \<open>{uuid}\<close> segments in UUID form), and no other entry of the table matches the same request.\<close>

theorem allowlist_exact:
  "matchAllowlist meth path = Some pat \<longleftrightarrow>
     (\<exists>!r. r \<in> set Routes \<and> r_Method r = meth \<and> matchPattern (r_Pattern r) (Split path (CHR ''/''))) \<and>
     (\<exists>r \<in> set Routes. r_Method r = meth \<and> r_Pattern r = pat \<and>
        list_all2 (\<lambda>w g. if w = ''{uuid}'' then uuidPattern g else w = g) (segs pat) (Split path (CHR ''/'')))"
proof -
  let ?m = "\<lambda>r. r \<in> set Routes \<and> r_Method r = meth \<and> matchPattern (r_Pattern r) (segs path)"
  have one: "r = r'" if "?m r" "?m r'" for r r'
  proof (rule ccontr)
    assume "r \<noteq> r'"
    with that have "pat_clash (segs (r_Pattern r)) (segs (r_Pattern r'))"
      using Routes_clash by (auto simp: list_all_iff)
    with that show False using pat_clash_sound by blast
  qed
  have iff: "(\<exists>r \<in> set Routes. r_Method r = meth \<and> r_Pattern r = pat \<and>
        list_all2 (\<lambda>w g. if w = ''{uuid}'' then uuidPattern g else w = g) (segs pat) (segs path)) \<longleftrightarrow>
      (\<exists>r. ?m r \<and> r_Pattern r = pat)"
    by (auto simp only: matchPattern_iff)
  have none: "matchAllowlist meth path = None \<longleftrightarrow> (\<nexists>r. ?m r)"
    by (auto simp: matchAllowlist_def match_routes_None_iff)
  have some: "\<exists>r. ?m r \<and> r_Pattern r = p" if "matchAllowlist meth path = Some p" for p
    using that match_routes_Some [of Routes meth "segs path" p] by (auto simp: matchAllowlist_def)
  show ?thesis
    unfolding iff
  proof
    assume "matchAllowlist meth path = Some pat"
    then show "(\<exists>!r. ?m r) \<and> (\<exists>r. ?m r \<and> r_Pattern r = pat)" using some one by blast
  next
    assume "(\<exists>!r. ?m r) \<and> (\<exists>r. ?m r \<and> r_Pattern r = pat)"
    then obtain r where r: "?m r" "r_Pattern r = pat" by blast
    then obtain p where p: "matchAllowlist meth path = Some p" using none by (metis not_Some_eq)
    then show "matchAllowlist meth path = Some pat" using some [OF p] one [of r] r by auto
  qed
qed

text \<open>Allowlist, no traversal payload. A path the gateway forwards has the verb POST or PATCH and
  consists of letters, digits, dashes and slashes only: no dot segment, no percent escape, no query.\<close>

theorem allowlist_path_shape:
  assumes "matchAllowlist meth path = Some pat"
  shows "(meth = ''POST'' \<or> meth = ''PATCH'') \<and> list_all seg_char path \<and>
    CHR ''.'' \<notin> set path \<and> CHR ''%'' \<notin> set path \<and> CHR ''?'' \<notin> set path \<and> CHR 0x5C \<notin> set path"
proof -
  obtain r where r: "r \<in> set Routes" "r_Method r = meth" and m: "matchPattern (r_Pattern r) (segs path)"
    using assms match_routes_Some by (fastforce simp: matchAllowlist_def)
  have "list_all seg_char g" if g: "g \<in> set (segs path)" for g
  proof -
    obtain i where i: "i < length (segs path)" "segs path ! i = g" using g by (auto simp: in_set_conv_nth)
    with m have j: "segs (r_Pattern r) ! i \<in> set (segs (r_Pattern r))" by (simp add: matchPattern_length)
    show ?thesis
    proof (cases "segs (r_Pattern r) ! i = ''{uuid}''")
      case True
      then show ?thesis
        using matchPattern_nth [OF m i(1)] i uuid_chars [of g] by (auto simp: list_all_iff seg_char_def)
    next
      case False
      then show ?thesis
        using matchPattern_nth [OF m i(1)] i Routes_chars r(1) j by (auto simp: list_all_iff)
    qed
  qed
  then have chars: "list_all seg_char path"
    by (rule list_all_by_Split [where c = "CHR ''/''"]) (assumption, simp add: seg_char_def)
  moreover have "\<not> seg_char (CHR ''.'')" "\<not> seg_char (CHR ''%'')" "\<not> seg_char (CHR ''?'')" "\<not> seg_char (CHR 0x5C)"
    by code_simp+
  ultimately show ?thesis using r Routes_chars by (auto simp: list_all_iff)
qed

definition sample_path :: string where
  "sample_path = ''/v1/clusters/0a1B2c3d-0000-4000-8000-0123456789ab''"

theorem allowlist_path_shape_witness:
  "matchAllowlist ''PATCH'' sample_path = Some ''/v1/clusters/{uuid}'' \<and> list_all seg_char sample_path"
proof -
  have m: "matchAllowlist ''PATCH'' sample_path = Some ''/v1/clusters/{uuid}''" by code_simp
  then show ?thesis using allowlist_path_shape [OF m] by simp
qed

text \<open>Allowlist against the listener. A request the gateway allows is served by the ingest listener
  unless it matched one of the two vm-collector routes; those two are forwarded and never served, the
  configuration error the comment on the table warns of.\<close>

theorem allowlist_served:
  assumes "matchAllowlist meth path = Some pat"
  shows "NewIngestMux_serves meth path \<longleftrightarrow>
    pat \<notin> {''/v1/ingest/cloud-accounts/{uuid}/security-groups/sweep'',
           ''/v1/ingest/cloud-accounts/{uuid}/node-images''}"
proof -
  obtain r where r: "r \<in> set Routes" "r_Method r = meth" "r_Pattern r = pat" and m: "matchPattern pat (segs path)"
    using assms match_routes_Some by (fastforce simp: matchAllowlist_def)
  show ?thesis
  proof (cases "pat \<in> set vm_routes")
    case True
    then have "\<not> mux_segments (segs (r_Pattern i)) (segs path)" if "i \<in> set IngestRoutes" for i
      using vm_routes_clash that mux_clash_sound [OF _ m] by (auto simp: list_all_iff)
    then have "\<not> NewIngestMux_serves meth path" by (auto simp: NewIngestMux_serves_iff list_ex_iff)
    with True show ?thesis by (auto simp: vm_routes_def)
  next
    case False
    then obtain i where "i \<in> set IngestRoutes" "r_Method i = meth" "mux_covers (segs (r_Pattern i)) (segs pat)"
      using Routes_covered r by (auto simp: list_all_iff list_ex_iff)
    then have "NewIngestMux_serves meth path"
      using mux_covers_sound [OF _ m] by (auto simp: NewIngestMux_serves_iff list_ex_iff)
    with False show ?thesis by (auto simp: vm_routes_def)
  qed
qed

theorem allowlist_served_witness:
  "NewIngestMux_serves ''PATCH'' sample_path \<and>
   \<not> NewIngestMux_serves ''POST'' ''/v1/ingest/cloud-accounts/0a1B2c3d-0000-4000-8000-0123456789ab/node-images''"
proof -
  have "matchAllowlist ''PATCH'' sample_path = Some ''/v1/clusters/{uuid}''"
    and "matchAllowlist ''POST'' ''/v1/ingest/cloud-accounts/0a1B2c3d-0000-4000-8000-0123456789ab/node-images'' =
      Some ''/v1/ingest/cloud-accounts/{uuid}/node-images''" by code_simp+
  from allowlist_served [OF this(1)] allowlist_served [OF this(2)] show ?thesis by simp
qed

end
