(* ===== verification/Gateway.thy ===== *)
theory Gateway
  imports Gateway_Singleflight Gateway_Allowlist
begin

text \<open>
  The ingest gateway's request path: \<^verbatim>\<open>handleProxy\<close> and its helpers in \<^verbatim>\<open>internal/ingestgw/server.go\<close>, the
  forwarding code of \<^verbatim>\<open>proxy.go\<close> and the verify client of \<^verbatim>\<open>verify_client.go\<close>.

  Parameters (the record \<open>gw_env\<close>): the hash, the two clock readings of one request, the answer to
  the verify call, the upstream's answer to a forwarded request, JSON decoding of the verify answer and
  URL parsing (\<^verbatim>\<open>net/url\<close>). The response writer is modelled as \<^verbatim>\<open>net/http\<close> has it: the first
  \<^verbatim>\<open>WriteHeader\<close> fixes the status, and a handler that returns without writing sends 200.

  Results: nothing is forwarded without allowlist, body limit, a verified token and its scope; the
  forwarded headers carry no forged identity; the status of every refusal; and two defects: a verify or
  upstream failure reaches the client as 200, and refused tokens are never cached.
\<close>

section \<open>HTTP\<close>

type_synonym header = "(string, string list) gomap"

definition Header_Get :: "header \<Rightarrow> string \<Rightarrow> string" where
  "Header_Get h k = (case map_of h k of Some (v # _) \<Rightarrow> v | _ \<Rightarrow> '''')"

definition is_token_char :: "char \<Rightarrow> bool" where
  "is_token_char c \<longleftrightarrow>
     (let n = of_char c :: nat in
      (48 \<le> n \<and> n \<le> 57) \<or> (65 \<le> n \<and> n \<le> 90) \<or> (97 \<le> n \<and> n \<le> 122) \<or>
      c \<in> set ''!#$%&*+-.^_|~'' \<or> n \<in> {39, 96})"

definition upper_char :: "char \<Rightarrow> char" where
  "upper_char c = (let n = of_char c :: nat in if 97 \<le> n \<and> n \<le> 122 then char_of (n - 32) else c)"

fun canon_go :: "bool \<Rightarrow> string \<Rightarrow> string" where
  "canon_go up [] = []"
| "canon_go up (c # cs) = (if up then upper_char c else lower_char c) # canon_go (c = CHR ''-'') cs"

definition CanonicalHeaderKey :: "string \<Rightarrow> string" where
  "CanonicalHeaderKey k = (if list_all is_token_char k then canon_go True k else k)"

record http_request =
  rq_Method :: string
  rq_Path :: string
  rq_RequestURI :: string
  rq_Header :: header
  rq_RemoteAddr :: string
  rq_Body :: string
  rq_BodyErr :: bool

record response_writer =
  rw_status :: "int option"
  rw_header :: header
  rw_body :: string

definition fresh_writer :: response_writer where
  "fresh_writer = \<lparr>rw_status = None, rw_header = [], rw_body = ''''\<rparr>"

definition WriteHeader :: "int \<Rightarrow> response_writer \<Rightarrow> response_writer" where
  "WriteHeader st w = (case rw_status w of None \<Rightarrow> w\<lparr>rw_status := Some st\<rparr> | Some _ \<Rightarrow> w)"

text \<open>The status line the client receives once the handler has returned.\<close>

definition sent_status :: "response_writer \<Rightarrow> int" where
  "sent_status w = (case rw_status w of None \<Rightarrow> 200 | Some st \<Rightarrow> st)"

section \<open>The verify client\<close>

record verifyResponseBody =
  vr_Valid :: bool
  vr_CallerID :: string
  vr_Kind :: string
  vr_TokenName :: string
  vr_Scopes :: "string list"
  vr_BoundCloudAccountID :: string
  vr_Exp :: int

text \<open>What the verify call came back with: no response (building or sending the request failed), a body
  that could not be read, or a status and a body.\<close>

datatype verify_answer = VerifyDoErr string | VerifyReadErr string | VerifyResp int string

definition Verify :: "(string \<Rightarrow> verifyResponseBody option) \<Rightarrow> verify_answer \<Rightarrow> load_result" where
  "Verify unmarshal answer =
     (case answer of
        VerifyDoErr m \<Rightarrow> Inl (ErrVerifyCall m)
      | VerifyReadErr m \<Rightarrow> Inl (ErrVerifyCall m)
      | VerifyResp status body \<Rightarrow>
          if status = 200 then
            (case unmarshal (take 16384 body) of
               None \<Rightarrow> Inl (ErrVerifyCall ''decode verify response'')
             | Some decoded \<Rightarrow>
                 Inr (\<lparr>ct_Valid = True, ct_CallerID = vr_CallerID decoded, ct_TokenName = vr_TokenName decoded,
                       ct_Scopes = vr_Scopes decoded,
                       ct_BoundCloudAccountID = vr_BoundCloudAccountID decoded, ct_ExpiresAt = 0\<rparr>,
                      if vr_Exp decoded > 0 then time_Unix (vr_Exp decoded) else 0))
          else if status = 401 then Inl ErrVerifyDenied
          else Inl (ErrVerifyCall ''verify upstream status''))"

section \<open>Forwarding\<close>

definition hopByHopHeaders :: "string list" where
  "hopByHopHeaders =
    [''Connection'', ''Keep-Alive'', ''Proxy-Connection'', ''Proxy-Authenticate'',
     ''Proxy-Authorization'', ''Te'', ''Trailer'', ''Transfer-Encoding'', ''Upgrade'']"

definition stripIngressHeaders :: "string list" where
  "stripIngressHeaders =
    [''X-Real-Ip'', ''X-Longue-Vue-Verified-Caller'', ''X-Longue-Vue-Verified-Scope'',
     ''X-Longue-Vue-Verified-User'', ''X-Forwarded-For'']"

fun copyForwardableHeaders :: "header \<Rightarrow> header \<Rightarrow> header" where
  "copyForwardableHeaders dst [] = dst"
| "copyForwardableHeaders dst ((k, vv) # src) =
     (let canonical = CanonicalHeaderKey k in
      if canonical \<in> set hopByHopHeaders then copyForwardableHeaders dst src
      else if canonical \<in> set stripIngressHeaders then copyForwardableHeaders dst src
      else copyForwardableHeaders
             (AList.update canonical ((case map_of dst canonical of None \<Rightarrow> [] | Some v \<Rightarrow> v) @ vv) dst) src)"

fun LastIndexByte :: "string \<Rightarrow> char \<Rightarrow> nat option" where
  "LastIndexByte [] c = None"
| "LastIndexByte (x # xs) c =
     (case LastIndexByte xs c of
        Some i \<Rightarrow> Some (Suc i)
      | None \<Rightarrow> if x = c then Some 0 else None)"

definition remotePeerIP :: "http_request \<Rightarrow> string" where
  "remotePeerIP r =
     (if rq_RemoteAddr r = '''' then ''''
      else case LastIndexByte (rq_RemoteAddr r) (CHR '':'') of
             Some i \<Rightarrow> if i > 0 then take i (rq_RemoteAddr r) else rq_RemoteAddr r
           | None \<Rightarrow> rq_RemoteAddr r)"

definition clientIP :: "http_request \<Rightarrow> string" where
  "clientIP r =
     (let h = Header_Get (rq_Header r) ''X-Forwarded-For'' in
      if h \<noteq> '''' then
        (case IndexByte h (CHR '','') of
           Some comma \<Rightarrow> if comma > 0 then TrimSpace (take comma h) else TrimSpace h
         | None \<Rightarrow> TrimSpace h)
      else let h' = Header_Get (rq_Header r) ''X-Real-Ip'' in
           if h' \<noteq> '''' then TrimSpace h' else remotePeerIP r)"

text \<open>
  The parts of \<^verbatim>\<open>url.URL\<close> the code reads or writes. Parsing is \<^verbatim>\<open>net/url\<close>'s and an argument of
  \<open>buildUpstreamURL\<close>. A request whose \<open>up_Host\<close> is empty is sent with the host of its URL.
\<close>

record url =
  u_Scheme :: string
  u_Host :: string
  u_Path :: string
  u_RawQuery :: string

definition TrimSuffix :: "string \<Rightarrow> string \<Rightarrow> string" where
  "TrimSuffix s p = rev (TrimPrefix (rev s) (rev p))"

definition buildUpstreamURL :: "(string \<Rightarrow> url option) \<Rightarrow> string \<Rightarrow> string \<Rightarrow> url option" where
  "buildUpstreamURL parse base requestURI =
     (case parse base of
        None \<Rightarrow> None
      | Some u \<Rightarrow>
          (case parse requestURI of
             None \<Rightarrow> None
           | Some target \<Rightarrow>
               Some (u\<lparr>u_Path := TrimSuffix (u_Path u) ''/'' @ u_Path target,
                       u_RawQuery := u_RawQuery target\<rparr>)))"

record up_request =
  up_Method :: string
  up_URL :: url
  up_Host :: string
  up_Header :: header
  up_Body :: string

datatype do_error = DeadlineExceeded | Canceled | DoOther string

text \<open>\<open>UpResp status header body fault\<close>: \<open>body\<close> is what \<^verbatim>\<open>io.Copy\<close> streamed back, \<open>fault\<close> its error.\<close>

datatype up_answer = UpErr do_error | UpResp int header string "do_error option"

datatype proxy_error =
    BuildURL | BuildRequest | UpstreamTimeout | UpstreamCanceled | UpstreamDo string | StreamResponse do_error

record gw_server =
  sv_upstreamBaseURL :: string
  sv_upstreamHost :: string
  sv_maxBodyBytes :: int
  sv_cache :: Cache
  sv_requiredScope :: string

text \<open>The configuration, its check and the constructor; \<open>gc_HasClient\<close> is \<^verbatim>\<open>UpstreamClient != nil\<close>.\<close>

record gw_config =
  gc_UpstreamBaseURL :: string
  gc_UpstreamHost :: string
  gc_HasClient :: bool
  gc_MaxBodyBytes :: int
  gc_CacheConfig :: CacheConfig
  gc_RequiredScope :: string

datatype config_error = NoUpstreamBaseURL | NoUpstreamClient | BadMaxBodyBytes

definition Config_Check :: "gw_config \<Rightarrow> config_error option" where
  "Config_Check c =
     (if gc_UpstreamBaseURL c = [] then Some NoUpstreamBaseURL
      else if \<not> gc_HasClient c then Some NoUpstreamClient
      else if gc_MaxBodyBytes c \<le> 0 then Some BadMaxBodyBytes
      else None)"

definition TrimRight_slash :: "string \<Rightarrow> string" where
  "TrimRight_slash s = rev (dropWhile (\<lambda>c. c = CHR ''/'') (rev s))"

definition NewServer :: "gw_config \<Rightarrow> config_error + gw_server" where
  "NewServer c =
     (case Config_Check c of
        Some e \<Rightarrow> Inl e
      | None \<Rightarrow>
          Inr \<lparr>sv_upstreamBaseURL = TrimRight_slash (gc_UpstreamBaseURL c),
               sv_upstreamHost = gc_UpstreamHost c, sv_maxBodyBytes = gc_MaxBodyBytes c,
               sv_cache = NewCache (gc_CacheConfig c), sv_requiredScope = gc_RequiredScope c\<rparr>)"

record gw_env =
  ev_hash :: "string \<Rightarrow> string"
  ev_now_get :: time
  ev_now_put :: time
  ev_verify :: verify_answer
  ev_unmarshal :: "string \<Rightarrow> verifyResponseBody option"
  ev_parseURL :: "string \<Rightarrow> url option"
  ev_newRequestOK :: bool
  ev_upstream :: "up_request \<Rightarrow> up_answer"

definition forwarded_header :: "http_request \<Rightarrow> header" where
  "forwarded_header r =
     (let h = copyForwardableHeaders [] (rq_Header r); peer = remotePeerIP r in
      if peer \<noteq> '''' then AList.update ''X-Forwarded-For'' [peer] h else h)"

definition mirror_headers :: "header \<Rightarrow> header \<Rightarrow> header" where
  "mirror_headers dst src =
     foldl (\<lambda>d (k, vv). if k \<in> set hopByHopHeaders then d
        else AList.update k ((case map_of d k of None \<Rightarrow> [] | Some v \<Rightarrow> v) @ vv) d) dst src"

definition proxyRequest ::
    "gw_env \<Rightarrow> gw_server \<Rightarrow> http_request \<Rightarrow> string \<Rightarrow> response_writer \<Rightarrow>
     (int \<times> proxy_error option) \<times> response_writer \<times> up_request option" where
  "proxyRequest env s r body w =
     (case buildUpstreamURL (ev_parseURL env) (sv_upstreamBaseURL s) (rq_RequestURI r) of
        None \<Rightarrow> ((502, Some BuildURL), w, None)
      | Some url \<Rightarrow>
          if \<not> ev_newRequestOK env then ((502, Some BuildRequest), w, None)
          else
            let up = \<lparr>up_Method = rq_Method r, up_URL = url, up_Host = sv_upstreamHost s,
                      up_Header = forwarded_header r, up_Body = body\<rparr> in
            case ev_upstream env up of
              UpErr DeadlineExceeded \<Rightarrow> ((504, Some UpstreamTimeout), w, Some up)
            | UpErr Canceled \<Rightarrow> ((503, Some UpstreamCanceled), w, Some up)
            | UpErr (DoOther m) \<Rightarrow> ((502, Some (UpstreamDo m)), w, Some up)
            | UpResp status hdr resp_body fault \<Rightarrow>
                let w' = WriteHeader status (w\<lparr>rw_header := mirror_headers (rw_header w) hdr\<rparr>);
                    w'' = w'\<lparr>rw_body := rw_body w' @ resp_body\<rparr> in
                ((status, map_option StreamResponse fault), w'', Some up))"

section \<open>The handler\<close>

datatype outcome =
    OutcomeAllowed | OutcomeDeniedPath | OutcomeDeniedToken | OutcomeDeniedScope | OutcomeDeniedBody
  | OutcomeUpstreamError | OutcomeUpstreamTimeout

record gw_log =
  lg_route :: string
  lg_status :: int
  lg_outcome :: outcome
  lg_client_ip :: string
  lg_token_prefix :: string
  lg_reason :: string

definition extractBearer :: "http_request \<Rightarrow> string option" where
  "extractBearer r =
     (let h = Header_Get (rq_Header r) ''Authorization'' in
      if h = '''' then None
      else if \<not> HasPrefix h ''Bearer '' then None
      else let tok = TrimPrefix h ''Bearer '' in if tok = '''' then None else Some tok)"

definition tokenPrefixFor :: "(string \<Rightarrow> string) \<Rightarrow> string \<Rightarrow> string" where
  "tokenPrefixFor H token =
     (if token = '''' then ''''
      else let full = H token in if length full \<ge> 8 then take 8 full else full)"

definition writeProblem :: "int \<Rightarrow> string \<Rightarrow> response_writer \<Rightarrow> response_writer" where
  "writeProblem status detail w =
     (let w1 = w\<lparr>rw_header := AList.update ''Content-Type'' [''application/problem+json''] (rw_header w)\<rparr>;
          w2 = WriteHeader status w1
      in w2\<lparr>rw_body := rw_body w2 @ detail\<rparr>)"

text \<open>\<^verbatim>\<open>respond\<close>: writes the problem unless the outcome is one whose response the forwarding code is
  supposed to have written, and logs.\<close>

definition respond ::
    "gw_env \<Rightarrow> http_request \<Rightarrow> string \<Rightarrow> int \<Rightarrow> outcome \<Rightarrow> string \<Rightarrow> response_writer \<Rightarrow>
     response_writer \<times> gw_log" where
  "respond env r route status oc reason w =
     (if oc = OutcomeAllowed \<or> oc = OutcomeUpstreamError \<or> oc = OutcomeUpstreamTimeout then w
      else writeProblem status reason w,
      \<lparr>lg_route = route, lg_status = status, lg_outcome = oc, lg_client_ip = clientIP r,
       lg_token_prefix = (case extractBearer r of Some t \<Rightarrow> tokenPrefixFor (ev_hash env) t | None \<Rightarrow> ''''),
       lg_reason = reason\<rparr>)"

definition upstreamOutcome :: "proxy_error \<Rightarrow> outcome" where
  "upstreamOutcome e =
     (if e = UpstreamTimeout \<or> e = StreamResponse DeadlineExceeded then OutcomeUpstreamTimeout
      else OutcomeUpstreamError)"

record gw_result =
  gr_writer :: response_writer
  gr_log :: gw_log
  gr_server :: gw_server
  gr_forwarded :: "up_request option"

definition finish ::
    "gw_env \<Rightarrow> http_request \<Rightarrow> gw_server \<Rightarrow> up_request option \<Rightarrow> string \<Rightarrow> int \<Rightarrow> outcome \<Rightarrow> string \<Rightarrow>
     response_writer \<Rightarrow> gw_result" where
  "finish env r s fwd route status oc reason w =
     (let (w', lg) = respond env r route status oc reason w in
      \<lparr>gr_writer = w', gr_log = lg, gr_server = s, gr_forwarded = fwd\<rparr>)"

definition read_body :: "gw_server \<Rightarrow> http_request \<Rightarrow> string option" where
  "read_body s r =
     (if rq_BodyErr r \<or> int (length (rq_Body r)) > sv_maxBodyBytes s then None else Some (rq_Body r))"

text \<open>The part of \<^verbatim>\<open>handleProxy\<close> after the verify call returned \<open>entry\<close>.\<close>

definition forward_verified ::
    "gw_env \<Rightarrow> gw_server \<Rightarrow> http_request \<Rightarrow> string \<Rightarrow> string \<Rightarrow> string \<Rightarrow> CachedToken \<Rightarrow> gw_result" where
  "forward_verified env s r route body token entry =
     (if \<not> ct_Valid entry
      then finish env r s None route 401 OutcomeDeniedToken ''cached invalid token'' fresh_writer
      else if sv_requiredScope s \<noteq> '''' \<and> \<not> CachedToken_HasScope entry (sv_requiredScope s)
      then finish env r s None route 403 OutcomeDeniedScope ''token lacks required scope'' fresh_writer
      else
        case proxyRequest env s r body fresh_writer of
          ((status, Some e), w, fwd) \<Rightarrow>
            finish env r s fwd route status (upstreamOutcome e) ''upstream error'' w
        | ((status, None), w, fwd) \<Rightarrow>
            let s' = (if status = 401
                      then s\<lparr>sv_cache := Cache_Invalidate (ev_hash env) token (sv_cache s)\<rparr> else s) in
            finish env r s' fwd route status OutcomeAllowed '''' w)"

definition handleProxy :: "gw_env \<Rightarrow> gw_server \<Rightarrow> http_request \<Rightarrow> gw_result option" where
  "handleProxy env s r =
     (case matchAllowlist (rq_Method r) (rq_Path r) of
        None \<Rightarrow> Some (finish env r s None '''' 404 OutcomeDeniedPath ''route not allowed'' fresh_writer)
      | Some route \<Rightarrow>
          (case read_body s r of
             None \<Rightarrow> Some (finish env r s None route 413 OutcomeDeniedBody
                            ''request body exceeded MaxBodyBytes'' fresh_writer)
           | Some body \<Rightarrow>
               (case extractBearer r of
                  None \<Rightarrow> Some (finish env r s None route 401 OutcomeDeniedToken
                                 ''missing Authorization header'' fresh_writer)
                | Some token \<Rightarrow>
                    (case SingleflightGet (ev_hash env) (ev_now_get env) (ev_now_put env)
                            (Verify (ev_unmarshal env) (ev_verify env)) token (sv_cache s) of
                       None \<Rightarrow> None
                     | Some (result, cache) \<Rightarrow>
                         let s' = s\<lparr>sv_cache := cache\<rparr> in
                         (case result of
                            Inl (SfLoad ErrVerifyDenied) \<Rightarrow>
                              Some (finish env r s' None route 401 OutcomeDeniedToken
                                     ''token verify denied'' fresh_writer)
                          | Inl err \<Rightarrow>
                              Some (finish env r s' None route 503 OutcomeUpstreamError
                                     ''verify call failed'' fresh_writer)
                          | Inr entry \<Rightarrow> Some (forward_verified env s' r route body token entry))))))"

section \<open>Lemmas\<close>

lemma finish_simps [simp]:
  "gr_forwarded (finish env r s fwd route st oc reason w) = fwd"
  "gr_server (finish env r s fwd route st oc reason w) = s"
  "lg_status (gr_log (finish env r s fwd route st oc reason w)) = st"
  "lg_outcome (gr_log (finish env r s fwd route st oc reason w)) = oc"
  "gr_writer (finish env r s fwd route st oc reason w) =
     (if oc \<in> {OutcomeAllowed, OutcomeUpstreamError, OutcomeUpstreamTimeout} then w
      else writeProblem st reason w)"
  by (auto simp: finish_def respond_def)

lemma sent_status_simps [simp]:
  "sent_status fresh_writer = 200"
  "sent_status (writeProblem st reason fresh_writer) = st"
  by (simp_all add: sent_status_def fresh_writer_def writeProblem_def WriteHeader_def Let_def)

lemma Verify_valid: "Verify um ans = Inr (v, e) \<Longrightarrow> ct_Valid v"
  by (auto simp: Verify_def split: verify_answer.splits option.splits if_splits)

lemma runLoader_result: "runLoader H now token loaded c = (Inr v, c') \<Longrightarrow> \<exists>e. loaded = Inr (v, e)"
  by (auto simp: runLoader_def split: sum.splits prod.splits)

lemma SingleflightGet_entry:
  assumes "SingleflightGet H now now' loaded token c = Some (Inr v, c')"
  shows "fst (Cache_Get H now token c) = Some v \<or> (\<exists>e. loaded = Inr (v, e))"
  using assms
  by (auto simp: SingleflightGet_def split: prod.splits option.splits if_splits dest: runLoader_result)

lemma forward_verified_forwarded:
  assumes "gr_forwarded (forward_verified env s r route body token entry) = Some up"
  shows "ct_Valid entry \<and> (sv_requiredScope s = '''' \<or> CachedToken_HasScope entry (sv_requiredScope s)) \<and>
    (\<exists>url. buildUpstreamURL (ev_parseURL env) (sv_upstreamBaseURL s) (rq_RequestURI r) = Some url \<and>
      up = \<lparr>up_Method = rq_Method r, up_URL = url, up_Host = sv_upstreamHost s,
            up_Header = forwarded_header r, up_Body = body\<rparr>)"
  using assms
  by (auto simp: forward_verified_def proxyRequest_def Let_def
      split: if_splits option.splits up_answer.splits do_error.splits)

lemma handleProxy_forwarded:
  assumes "handleProxy env s r = Some res" and "gr_forwarded res = Some up"
  obtains route token entry c where
    "matchAllowlist (rq_Method r) (rq_Path r) = Some route"
    "read_body s r = Some (rq_Body r)"
    "extractBearer r = Some token"
    "SingleflightGet (ev_hash env) (ev_now_get env) (ev_now_put env)
       (Verify (ev_unmarshal env) (ev_verify env)) token (sv_cache s) = Some (Inr entry, c)"
    "res = forward_verified env (s\<lparr>sv_cache := c\<rparr>) r route (rq_Body r) token entry"
proof -
  have body: "read_body s r = Some b \<longleftrightarrow> read_body s r = Some (rq_Body r) \<and> b = rq_Body r" for b
    by (auto simp: read_body_def split: if_splits)
  show thesis
    using assms
    by (auto simp: handleProxy_def Let_def
        split: option.splits prod.splits sum.splits sf_error.splits verify_error.splits)
      (metis body that)
qed

text \<open>A header block as \<^verbatim>\<open>net/http\<close>'s server hands it to the handler: canonical keys, each once.\<close>

definition canonical_header :: "header \<Rightarrow> bool" where
  "canonical_header h \<longleftrightarrow> distinct (map fst h) \<and> list_all (\<lambda>(k, _). CanonicalHeaderKey k = k) h"

lemma copyForwardable_stripped:
  "k \<in> set hopByHopHeaders \<or> k \<in> set stripIngressHeaders \<Longrightarrow>
   map_of (copyForwardableHeaders dst src) k = map_of dst k"
  by (induction dst src rule: copyForwardableHeaders.induct) (auto simp: Let_def)

lemma copyForwardable_kept:
  assumes "canonical_header src" and "k \<notin> set hopByHopHeaders" and "k \<notin> set stripIngressHeaders"
    and "\<And>x. x \<in> set src \<Longrightarrow> map_of dst (fst x) = None"
  shows "map_of (copyForwardableHeaders dst src) k =
    (case map_of src k of None \<Rightarrow> map_of dst k | Some vv \<Rightarrow> Some vv)"
  using assms
proof (induction dst src rule: copyForwardableHeaders.induct)
  case (2 dst k' vv src)
  have can: "CanonicalHeaderKey k' = k'" and can': "canonical_header src" and fresh: "k' \<notin> fst ` set src"
    using 2(4) by (auto simp: canonical_header_def)
  have dst: "map_of dst k' = None" "\<And>x. x \<in> set src \<Longrightarrow> map_of dst (fst x) = None"
    using 2(7) [of "(k', vv)"] 2(7) by simp_all
  have neq: "x \<in> set src \<Longrightarrow> fst x \<noteq> k'" for x using fresh by auto
  have fresh': "map_of src k' = None" using fresh by (simp add: map_of_eq_None_iff)
  show ?case
    using 2(1-3) [OF refl] 2(5,6) can can' dst neq fresh'
    by (auto simp: Let_def split: option.splits)
qed simp

lemma buildUpstreamURL_origin:
  assumes "buildUpstreamURL parse base uri = Some u" and "parse base = Some b"
  shows "u_Scheme u = u_Scheme b \<and> u_Host u = u_Host b"
  using assms by (auto simp: buildUpstreamURL_def split: option.splits)

section \<open>The state across requests\<close>

text \<open>Between two requests of a sequential run nobody holds an in-flight slot.\<close>

definition only_valid :: "Cache \<Rightarrow> bool" where
  "only_valid c \<longleftrightarrow> (\<forall>k v. cache_peek c k = Some v \<longrightarrow> ct_Valid v)"

definition gw_idle :: "Cache \<Rightarrow> bool" where
  "gw_idle c \<longleftrightarrow> cache_inv c \<and> inflight c = [] \<and> only_valid c"

text \<open>Requests are served one after the other, each in its own environment.\<close>

fun serve_all :: "(gw_env \<times> http_request) list \<Rightarrow> gw_server \<Rightarrow> (gw_result list \<times> gw_server) option" where
  "serve_all [] s = Some ([], s)"
| "serve_all ((env, r) # reqs) s =
     (case handleProxy env s r of
        None \<Rightarrow> None
      | Some res \<Rightarrow> map_option (\<lambda>(rs, s'). (res # rs, s')) (serve_all reqs (gr_server res)))"

lemma only_valid_weaken:
  "only_valid c \<Longrightarrow> (\<And>k. cache_peek c' k \<in> {None, cache_peek c k}) \<Longrightarrow> only_valid c'"
  by (auto simp: only_valid_def) (metis insertE option.distinct(1) singletonD)

lemma gw_idle_Get: "gw_idle c \<Longrightarrow> gw_idle (snd (Cache_Get H now token c))"
  unfolding gw_idle_def Cache_Get_def
  using only_valid_weaken [of c] gw.peek_touch [of c now "H token"] by (auto simp: cache_inv_get)

lemma inflight_invalidate [simp]: "inflight (Cache_Invalidate H token c) = inflight c"
  by (simp add: Cache_Invalidate_def invalidate_key_def split: option.splits)

lemma gw_idle_Invalidate:
  assumes "gw_idle c" shows "gw_idle (Cache_Invalidate H token c)"
proof -
  have inv: "cache_inv c" and ok: "only_valid c" using assms by (auto simp: gw_idle_def)
  have "cache_peek (Cache_Invalidate H token c) k \<in> {None, cache_peek c k}" for k
    using gw.peek_invalidate [OF inv, of "H token" k] by (auto simp: Cache_Invalidate_def)
  then have "only_valid (Cache_Invalidate H token c)" by (rule only_valid_weaken [OF ok])
  then show ?thesis
    using assms cache_inv_invalidate [OF inv] by (simp add: gw_idle_def) (simp add: Cache_Invalidate_def)
qed

lemma peek_slot_frame [simp]:
  "cache_peek (release_slot k c) = cache_peek c" "cache_inv (release_slot k c) = cache_inv c"
  "cache_peek (c\<lparr>inflight := x, next_chan := y\<rparr>) = cache_peek c"
  "cache_inv (c\<lparr>inflight := x, next_chan := y\<rparr>) = cache_inv c"
  by (auto simp: release_slot_def cache_peek_def fun_eq_iff cache_inv_def linked_def)

lemma only_valid_PutValid:
  assumes "cache_inv c" "only_valid c" "ct_Valid v"
  shows "only_valid (put_key k v c)"
  unfolding only_valid_def
proof (intro allI impI)
  fix k' v' assume "cache_peek (put_key k v c) k' = Some v'"
  then show "ct_Valid v'"
    using gw.peek_put_same [OF assms(1), of k v] gw.peek_put_other [OF assms(1), of k' k v] assms(2,3)
    by (cases "k' = k") (auto simp: only_valid_def)
qed

lemma runLoader_idle:
  assumes "gw_idle c" and "\<And>v e. loaded = Inr (v, e) \<Longrightarrow> ct_Valid v"
    and "c' = c\<lparr>inflight := [(H token, n)], next_chan := m\<rparr>"
  shows "gw_idle (snd (runLoader H now token loaded c'))"
proof -
  have inv: "cache_inv c'" and ok: "only_valid c'"
    using assms(1) by (simp_all add: assms(3) gw_idle_def only_valid_def)
  have free: "AList.delete (H token) (inflight c') = []" by (simp add: assms(3))
  show ?thesis
  proof (cases loaded)
    case (Inl e)
    then show ?thesis
      using inv ok free by (simp add: runLoader_def gw_idle_def only_valid_def) (simp add: release_slot_def)
  next
    case (Inr ve)
    obtain v e where ve: "ve = (v, e)" by (cases ve)
    have "ct_Valid v" using assms(2) Inr ve by blast
    let ?v = "v\<lparr>ct_Valid := True, ct_ExpiresAt := positive_expiry (cfg c') now e\<rparr>"
    have "snd (runLoader H now token loaded c') = release_slot (H token) (put_key (H token) ?v c')"
      using \<open>ct_Valid v\<close> by (simp add: Inr ve runLoader_def store_loaded_def Cache_op_defs)
    moreover have "only_valid (put_key (H token) ?v c')" "cache_inv (put_key (H token) ?v c')"
      using only_valid_PutValid [OF inv ok] cache_inv_put [OF inv] by simp_all
    ultimately show ?thesis
      using free by (simp add: gw_idle_def only_valid_def) (simp add: release_slot_def)
  qed
qed

lemma SingleflightGet_idle:
  assumes "gw_idle c" and "\<And>v e. loaded = Inr (v, e) \<Longrightarrow> ct_Valid v"
  shows "\<exists>result c'. SingleflightGet H now now' loaded token c = Some (result, c') \<and> gw_idle c'"
proof -
  obtain a c1 where c1: "Cache_Get H now token c = (a, c1)" by fastforce
  then have idle: "gw_idle c1" using gw_idle_Get [OF assms(1), of H now token] by simp
  show ?thesis
  proof (cases a)
    case (Some v)
    with c1 idle show ?thesis by (simp add: SingleflightGet_def)
  next
    case None
    let ?c = "c1\<lparr>inflight := [(H token, next_chan c1)], next_chan := Suc (next_chan c1)\<rparr>"
    have "SingleflightGet H now now' loaded token c = Some (runLoader H now' token loaded ?c)"
      using c1 None idle by (simp add: SingleflightGet_def acquireOrJoinInflight_def gw_idle_def Let_def)
    moreover have "gw_idle (snd (runLoader H now' token loaded ?c))"
      using idle assms(2) by (rule runLoader_idle) auto
    ultimately show ?thesis by (metis prod.collapse)
  qed
qed

lemma forward_verified_server:
  "gr_server (forward_verified env s r route body token entry) \<in>
     {s, s\<lparr>sv_cache := Cache_Invalidate (ev_hash env) token (sv_cache s)\<rparr>}"
  by (auto simp: forward_verified_def Let_def split: prod.splits option.splits)

lemma handleProxy_idle:
  assumes "gw_idle (sv_cache s)"
  shows "\<exists>res. handleProxy env s r = Some res \<and> gw_idle (sv_cache (gr_server res))"
proof (cases "matchAllowlist (rq_Method r) (rq_Path r) = None \<or> read_body s r = None \<or> extractBearer r = None")
  case True
  with assms show ?thesis by (auto simp: handleProxy_def split: option.splits)
next
  case False
  then obtain route body token where pre: "matchAllowlist (rq_Method r) (rq_Path r) = Some route"
    "read_body s r = Some body" "extractBearer r = Some token" by (auto simp: not_None_eq)
  obtain result c' where sf: "SingleflightGet (ev_hash env) (ev_now_get env) (ev_now_put env)
      (Verify (ev_unmarshal env) (ev_verify env)) token (sv_cache s) = Some (result, c')" and idle: "gw_idle c'"
    using SingleflightGet_idle [OF assms] Verify_valid by blast
  have "gw_idle (sv_cache (gr_server (forward_verified env (s\<lparr>sv_cache := c'\<rparr>) r route body token entry)))" for entry
    using forward_verified_server [of env "s\<lparr>sv_cache := c'\<rparr>" r route body token entry] idle
    by (auto simp: gw_idle_Invalidate)
  with pre sf idle show ?thesis
    by (auto simp: handleProxy_def Let_def split: sum.splits sf_error.splits verify_error.splits)
qed

lemma serve_all_idle:
  "gw_idle (sv_cache s) \<Longrightarrow>
   \<exists>rs s'. serve_all reqs s = Some (rs, s') \<and> length rs = length reqs \<and> gw_idle (sv_cache s')"
proof (induction reqs arbitrary: s)
  case (Cons a reqs)
  obtain env r where a: "a = (env, r)" by (cases a)
  obtain res where res: "handleProxy env s r = Some res" "gw_idle (sv_cache (gr_server res))"
    using handleProxy_idle [OF Cons.prems] by blast
  from Cons.IH [OF res(2)] show ?case by (auto simp: a res(1))
qed simp

lemma gw_idle_New: "gw_idle (NewCache cf)"
  by (simp add: gw_idle_def cache_inv_New only_valid_def cache_peek_def)

section \<open>Properties\<close>

text \<open>C1: Gateway, admission. A request is forwarded only when its method and path are on the allowlist,
  its body was read completely within \<^verbatim>\<open>MaxBodyBytes\<close>, it carries a bearer token, and that token is
  either in the cache as valid and not expired or was accepted by a verify call that answered 200 for
  this request, with the required scope granted. The request goes to the configured scheme and host with the
  same method and body. In particular a failed verify call never lets a request through.\<close>

theorem gateway_forwards_only_verified:
  assumes "handleProxy env s r = Some res" and "gr_forwarded res = Some up"
    and "ev_parseURL env (sv_upstreamBaseURL s) = Some base"
  shows "\<exists>route token entry.
    matchAllowlist (rq_Method r) (rq_Path r) = Some route \<and>
    \<not> rq_BodyErr r \<and> int (length (rq_Body r)) \<le> sv_maxBodyBytes s \<and>
    extractBearer r = Some token \<and>
    ((cache_peek (sv_cache s) (ev_hash env token) = Some entry \<and> ev_now_get env \<le> ct_ExpiresAt entry) \<or>
     (\<exists>body decoded. ev_verify env = VerifyResp 200 body \<and>
        ev_unmarshal env (take 16384 body) = Some decoded \<and> ct_Scopes entry = vr_Scopes decoded)) \<and>
    ct_Valid entry \<and>
    (sv_requiredScope s = '''' \<or> CachedToken_HasScope entry (sv_requiredScope s)) \<and>
    up_Method up = rq_Method r \<and> up_Body up = rq_Body r \<and>
    u_Scheme (up_URL up) = u_Scheme base \<and> u_Host (up_URL up) = u_Host base"
proof -
  obtain route token entry c where h: "matchAllowlist (rq_Method r) (rq_Path r) = Some route"
    "read_body s r = Some (rq_Body r)" "extractBearer r = Some token"
    "SingleflightGet (ev_hash env) (ev_now_get env) (ev_now_put env)
       (Verify (ev_unmarshal env) (ev_verify env)) token (sv_cache s) = Some (Inr entry, c)"
    "res = forward_verified env (s\<lparr>sv_cache := c\<rparr>) r route (rq_Body r) token entry"
    using handleProxy_forwarded [OF assms(1,2)] by blast
  have src: "(cache_peek (sv_cache s) (ev_hash env token) = Some entry \<and> ev_now_get env \<le> ct_ExpiresAt entry) \<or>
     (\<exists>body decoded. ev_verify env = VerifyResp 200 body \<and>
        ev_unmarshal env (take 16384 body) = Some decoded \<and> ct_Scopes entry = vr_Scopes decoded)"
    using SingleflightGet_entry [OF h(4)]
    by (auto dest!: Get_SomeD simp: Verify_def split: verify_answer.splits if_splits option.splits)
  note f = forward_verified_forwarded [OF assms(2) [unfolded h(5)]]
  then obtain url where
    "buildUpstreamURL (ev_parseURL env) (sv_upstreamBaseURL s) (rq_RequestURI r) = Some url"
    "up = \<lparr>up_Method = rq_Method r, up_URL = url, up_Host = sv_upstreamHost s,
            up_Header = forwarded_header r, up_Body = rq_Body r\<rparr>" by auto
  moreover have "\<not> rq_BodyErr r" "int (length (rq_Body r)) \<le> sv_maxBodyBytes s"
    using h(2) by (auto simp: read_body_def split: if_splits)
  ultimately show ?thesis
    using h(1,3) src f buildUpstreamURL_origin assms(3) by auto
qed

definition sample_env :: "verify_answer \<Rightarrow> up_answer \<Rightarrow> gw_env" where
  "sample_env v u =
     \<lparr>ev_hash = id, ev_now_get = 10, ev_now_put = 20, ev_verify = v,
      ev_unmarshal = (\<lambda>_. Some \<lparr>vr_Valid = True, vr_CallerID = ''c'', vr_Kind = ''token'', vr_TokenName = ''n'',
         vr_Scopes = [''write''], vr_BoundCloudAccountID = '''', vr_Exp = 0\<rparr>),
      ev_parseURL = (\<lambda>s. Some \<lparr>u_Scheme = ''https'', u_Host = ''lv'', u_Path = s, u_RawQuery = ''''\<rparr>),
      ev_newRequestOK = True, ev_upstream = (\<lambda>_. u)\<rparr>"

definition sample_server :: gw_server where
  "sample_server =
     \<lparr>sv_upstreamBaseURL = '''', sv_upstreamHost = '''', sv_maxBodyBytes = 1000,
      sv_cache = NewCache DefaultCacheConfig, sv_requiredScope = ''write''\<rparr>"

definition sample_request :: http_request where
  "sample_request =
     \<lparr>rq_Method = ''POST'', rq_Path = ''/v1/nodes'', rq_RequestURI = ''/v1/nodes'',
      rq_Header = [(''Authorization'', [''Bearer t'']), (''X-Forwarded-For'', [''6.6.6.6'']),
                   (''X-Longue-Vue-Verified-Caller'', [''admin'']), (''Connection'', [''close'']),
                   (''Accept'', [''a'', ''b''])],
      rq_RemoteAddr = ''10.0.0.1:80'', rq_Body = ''b'', rq_BodyErr = False\<rparr>"

definition sample_result :: "verify_answer \<Rightarrow> up_answer \<Rightarrow> gw_result" where
  "sample_result v u = the (handleProxy (sample_env v u) sample_server sample_request)"

lemma sample_handled:
  "handleProxy (sample_env v u) sample_server sample_request = Some (sample_result v u)"
proof -
  have "gw_idle (sv_cache sample_server)" by (simp add: sample_server_def gw_idle_New)
  from handleProxy_idle [OF this] show ?thesis unfolding sample_result_def by (metis option.sel)
qed

lemma sample_forwarded:
  "gr_forwarded (sample_result (VerifyResp 200 ''{}'') (UpResp 204 [] '''' None)) =
     Some \<lparr>up_Method = ''POST'', up_URL = \<lparr>u_Scheme = ''https'', u_Host = ''lv'', u_Path = ''/v1/nodes'', u_RawQuery = ''''\<rparr>,
           up_Host = '''', up_Header = [(''Authorization'', [''Bearer t'']), (''Accept'', [''a'', ''b'']),
             (''X-Forwarded-For'', [''10.0.0.1''])], up_Body = ''b''\<rparr>"
  by code_simp

theorem gateway_forwards_only_verified_witness:
  "\<exists>route token entry. matchAllowlist ''POST'' ''/v1/nodes'' = Some route \<and>
     extractBearer sample_request = Some token \<and> ct_Valid entry \<and> CachedToken_HasScope entry ''write''"
proof -
  let ?env = "sample_env (VerifyResp 200 ''{}'') (UpResp 204 [] '''' None)"
  have base: "ev_parseURL ?env (sv_upstreamBaseURL sample_server) =
      Some \<lparr>u_Scheme = ''https'', u_Host = ''lv'', u_Path = '''', u_RawQuery = ''''\<rparr>"
    by (simp add: sample_env_def sample_server_def)
  show ?thesis
    using gateway_forwards_only_verified [OF sample_handled sample_forwarded base]
    by (auto simp: sample_request_def sample_server_def)
qed



lemma proxyRequest_writer:
  assumes "proxyRequest env s r body fresh_writer = ((status, e), w, fwd)"
  shows "w = fresh_writer \<and> e \<noteq> None \<and> status \<in> {502, 503, 504} \<and> (\<forall>d. e \<noteq> Some (StreamResponse d)) \<or>
    sent_status w = status \<and> (e = None \<or> (\<exists>d. e = Some (StreamResponse d)))"
  using assms
  by (auto simp: proxyRequest_def Let_def sent_status_def WriteHeader_def fresh_writer_def
      split: option.splits if_splits up_answer.splits do_error.splits)

text \<open>How a request can end.\<close>

lemma handleProxy_cases:
  assumes "handleProxy env s r = Some res"
  obtains
    (path) "matchAllowlist (rq_Method r) (rq_Path r) = None"
      "res = finish env r s None '''' 404 OutcomeDeniedPath ''route not allowed'' fresh_writer"
  | (body) route where "read_body s r = None"
      "res = finish env r s None route 413 OutcomeDeniedBody ''request body exceeded MaxBodyBytes'' fresh_writer"
  | (token) s' route reason where
      "res = finish env r s' None route 401 OutcomeDeniedToken reason fresh_writer"
  | (scope) s' route reason where "sv_requiredScope s \<noteq> ''''"
      "res = finish env r s' None route 403 OutcomeDeniedScope reason fresh_writer"
  | (verify_failed) s' route where
      "res = finish env r s' None route 503 OutcomeUpstreamError ''verify call failed'' fresh_writer"
  | (upstream_failed) s' route bd status e w fwd where
      "proxyRequest env s' r bd fresh_writer = ((status, Some e), w, fwd)"
      "res = finish env r s' fwd route status (upstreamOutcome e) ''upstream error'' w"
  | (allowed) s' s'' route bd status w fwd where
      "proxyRequest env s' r bd fresh_writer = ((status, None), w, fwd)"
      "res = finish env r s'' fwd route status OutcomeAllowed '''' w"
proof -
  have fv: "thesis" if "res = forward_verified env (s\<lparr>sv_cache := c\<rparr>) r route bd token' entry"
    for c route bd token' entry
  proof (cases "ct_Valid entry \<and> (sv_requiredScope s = '''' \<or> CachedToken_HasScope entry (sv_requiredScope s))")
    case True
    obtain status e w fwd where
      pr: "proxyRequest env (s\<lparr>sv_cache := c\<rparr>) r bd fresh_writer = ((status, e), w, fwd)"
      by (metis prod.collapse)
    with True show thesis
      using that upstream_failed allowed by (cases e) (auto simp: forward_verified_def Let_def)
  next
    case False
    with that show thesis using token scope by (auto simp: forward_verified_def split: if_splits)
  qed
  show thesis
    using assms path body token verify_failed fv
    unfolding handleProxy_def Let_def
    by (auto split: option.splits prod.splits sum.splits sf_error.splits verify_error.splits)
qed

text \<open>Gateway, refusals. Every refusal the gateway decides itself is answered with the status that is
  logged: 404 for a route off the allowlist, 413 for a body that is too large or unreadable, 401 for a
  missing or refused token, 403 for a missing scope, and nothing is forwarded; an admitted
  request is answered with the upstream's status.\<close>

theorem gateway_refusal_status:
  assumes "handleProxy env s r = Some res"
  shows "case lg_outcome (gr_log res) of
      OutcomeDeniedPath \<Rightarrow> sent_status (gr_writer res) = 404 \<and> lg_status (gr_log res) = 404 \<and>
        gr_forwarded res = None \<and> matchAllowlist (rq_Method r) (rq_Path r) = None
    | OutcomeDeniedBody \<Rightarrow> sent_status (gr_writer res) = 413 \<and> lg_status (gr_log res) = 413 \<and>
        gr_forwarded res = None \<and> (rq_BodyErr r \<or> int (length (rq_Body r)) > sv_maxBodyBytes s)
    | OutcomeDeniedToken \<Rightarrow> sent_status (gr_writer res) = 401 \<and> lg_status (gr_log res) = 401 \<and>
        gr_forwarded res = None
    | OutcomeDeniedScope \<Rightarrow> sent_status (gr_writer res) = 403 \<and> lg_status (gr_log res) = 403 \<and>
        gr_forwarded res = None \<and> sv_requiredScope s \<noteq> ''''
    | OutcomeAllowed \<Rightarrow> sent_status (gr_writer res) = lg_status (gr_log res) \<and> gr_forwarded res \<noteq> None
    | _ \<Rightarrow> True"
  using assms
proof (cases rule: handleProxy_cases)
  case body
  then show ?thesis by (auto simp: read_body_def split: if_splits)
next
  case upstream_failed
  then show ?thesis by (simp add: upstreamOutcome_def)
next
  case allowed
  from proxyRequest_writer [OF allowed(1)] allowed have "sent_status (gr_writer res) = lg_status (gr_log res)" by auto
  moreover have "gr_forwarded res \<noteq> None"
    using allowed by (auto simp: proxyRequest_def Let_def split: option.splits if_splits up_answer.splits do_error.splits)
  ultimately show ?thesis using allowed by simp
qed simp_all

theorem gateway_refusal_status_witness:
  "sent_status (gr_writer (sample_result (VerifyResp 401 '''') (UpErr Canceled))) = 401"
proof -
  have "lg_outcome (gr_log (sample_result (VerifyResp 401 '''') (UpErr Canceled))) = OutcomeDeniedToken"
    by code_simp
  with gateway_refusal_status [OF sample_handled [of "VerifyResp 401 ''''" "UpErr Canceled"]]
  show ?thesis by simp
qed

text \<open>C33: Gateway, a defect in the error path. When the verify call fails, or the forwarded request gets
  no response from the upstream, the handler logs 502, 503 or 504 but writes nothing, so that the client
  receives the status 200 with an empty body: the collector takes a lost write for a successful one. (The comments
  of \<^verbatim>\<open>Verify\<close> and \<^verbatim>\<open>proxyRequest\<close> promise a 503 or 504.)\<close>

theorem gateway_failure_answered_200:
  assumes "handleProxy env s r = Some res"
    and "lg_outcome (gr_log res) \<in> {OutcomeUpstreamError, OutcomeUpstreamTimeout}"
    and "\<And>up. gr_forwarded res = Some up \<Longrightarrow> \<exists>e. ev_upstream env up = UpErr e"
  shows "sent_status (gr_writer res) = 200 \<and> rw_body (gr_writer res) = '''' \<and>
    lg_status (gr_log res) \<in> {502, 503, 504}"
  using assms(1)
proof (cases rule: handleProxy_cases)
  case (upstream_failed s' route bd status e w fwd)
  have "w = fresh_writer \<and> status \<in> {502, 503, 504}"
    using upstream_failed(1) assms(3) upstream_failed(2)
    by (auto simp: proxyRequest_def Let_def split: option.splits if_splits up_answer.splits do_error.splits)
  with upstream_failed show ?thesis by (simp add: upstreamOutcome_def fresh_writer_def sent_status_def)
qed (use assms(2) in \<open>simp_all add: fresh_writer_def sent_status_def\<close>)

theorem gateway_failure_answered_200_witness:
  "sent_status (gr_writer (sample_result (VerifyDoErr ''refused'') (UpErr Canceled))) = 200 \<and>
   sent_status (gr_writer (sample_result (VerifyResp 200 ''{}'') (UpErr DeadlineExceeded))) = 200"
proof -
  have 1: "lg_outcome (gr_log (sample_result (VerifyDoErr ''refused'') (UpErr Canceled))) \<in>
      {OutcomeUpstreamError, OutcomeUpstreamTimeout}" by code_simp
  have 2: "lg_outcome (gr_log (sample_result (VerifyResp 200 ''{}'') (UpErr DeadlineExceeded))) \<in>
      {OutcomeUpstreamError, OutcomeUpstreamTimeout}" by code_simp
  show ?thesis
    using gateway_failure_answered_200 [OF sample_handled 1] gateway_failure_answered_200 [OF sample_handled 2]
    by (auto simp: sample_env_def)
qed

text \<open>Gateway, runs of requests. From a new server every sequence of requests is answered, request by
  request, and at every moment between them the cache is within its bound, no in-flight slot is left behind
  and every cached entry is a positive one. The last part is a defect: a token refused by longue-vue is never
  put into the negative cache, because \<^verbatim>\<open>Verify\<close> reports a refusal as an error and \<^verbatim>\<open>runLoader\<close> caches no errors;
  every request with a bad token costs a verify call.\<close>

theorem gateway_run:
  assumes "NewServer conf = Inr s"
  shows "\<exists>rs s'. serve_all reqs s = Some (rs, s') \<and> length rs = length reqs \<and>
    Cache_Len (sv_cache s') = cache_size (sv_cache s') \<and>
    int (Cache_Len (sv_cache s')) \<le> MaxEntries (cfg (sv_cache s')) \<and>
    inflight (sv_cache s') = [] \<and>
    (\<forall>now token v. fst (Cache_Get H now token (sv_cache s')) = Some v \<longrightarrow> ct_Valid v)"
proof -
  have "gw_idle (sv_cache s)"
    using assms by (auto simp: NewServer_def gw_idle_New split: option.splits)
  from serve_all_idle [OF this, of reqs] obtain rs s' where
    "serve_all reqs s = Some (rs, s')" "length rs = length reqs" and idle: "gw_idle (sv_cache s')" by blast
  moreover have "fst (Cache_Get H now token (sv_cache s')) = Some v \<Longrightarrow> ct_Valid v" for now token v
    using idle by (auto dest!: Get_SomeD simp: gw_idle_def only_valid_def)
  ultimately show ?thesis
    by (auto simp: gw_idle_def cache_inv_def Cache_Len_def)
qed

theorem gateway_run_witness:
  "\<exists>rs s'. serve_all [(sample_env (VerifyResp 401 '''') (UpErr Canceled), sample_request),
     (sample_env (VerifyResp 200 ''{}'') (UpResp 204 [] '''' None), sample_request)] sample_server = Some (rs, s') \<and>
     length rs = 2 \<and> inflight (sv_cache s') = []"
proof -
  have "NewServer \<lparr>gc_UpstreamBaseURL = ''/'', gc_UpstreamHost = [], gc_HasClient = True, gc_MaxBodyBytes = 1000,
      gc_CacheConfig = DefaultCacheConfig, gc_RequiredScope = ''write''\<rparr> = Inr sample_server"
    by (simp add: NewServer_def Config_Check_def TrimRight_slash_def sample_server_def)
  from gateway_run [OF this, of
    "[(sample_env (VerifyResp 401 '''') (UpErr Canceled), sample_request),
     (sample_env (VerifyResp 200 ''{}'') (UpResp 204 [] '''' None), sample_request)]" id]
  show ?thesis by auto
qed

lemma forward_verified_401:
  assumes "gr_forwarded (forward_verified env s r route bd token entry) = Some up"
    and "ev_upstream env up = UpResp 401 hdr body None"
  shows "gr_server (forward_verified env s r route bd token entry) =
    s\<lparr>sv_cache := Cache_Invalidate (ev_hash env) token (sv_cache s)\<rparr>"
proof -
  obtain url where url: "buildUpstreamURL (ev_parseURL env) (sv_upstreamBaseURL s) (rq_RequestURI r) = Some url"
      "up = \<lparr>up_Method = rq_Method r, up_URL = url, up_Host = sv_upstreamHost s,
            up_Header = forwarded_header r, up_Body = bd\<rparr>"
    using forward_verified_forwarded [OF assms(1)] by blast
  have ok: "ev_newRequestOK env"
    using assms(1) by (auto simp: forward_verified_def proxyRequest_def split: if_splits option.splits)
  show ?thesis
    using forward_verified_forwarded [OF assms(1)] assms(2) url ok
    by (auto simp: forward_verified_def proxyRequest_def Let_def)
qed

text \<open>Gateway, revocation. When the upstream answers an admitted request with 401 the token's cache
  entry is gone after the request, so that the next request with that token has to be verified again.\<close>

theorem gateway_revoked_token_dropped:
  assumes "gw_idle (sv_cache s)" and "handleProxy env s r = Some res" and "extractBearer r = Some token"
    and "gr_forwarded res = Some up" and "ev_upstream env up = UpResp 401 hdr body None"
  shows "cache_peek (sv_cache (gr_server res)) (ev_hash env token) = None \<and>
    fst (Cache_Get (ev_hash env) now token (sv_cache (gr_server res))) = None"
proof -
  obtain route entry c where h:
    "SingleflightGet (ev_hash env) (ev_now_get env) (ev_now_put env)
       (Verify (ev_unmarshal env) (ev_verify env)) token (sv_cache s) = Some (Inr entry, c)"
    "res = forward_verified env (s\<lparr>sv_cache := c\<rparr>) r route (rq_Body r) token entry"
    using handleProxy_forwarded [OF assms(2,4)] assms(3) by (metis option.inject)
  have idle: "cache_inv c"
    using SingleflightGet_idle [OF assms(1), of "Verify (ev_unmarshal env) (ev_verify env)" "ev_hash env"
        "ev_now_get env" "ev_now_put env" token] h(1) Verify_valid
    by (auto simp: gw_idle_def)
  have "gr_server res = s\<lparr>sv_cache := Cache_Invalidate (ev_hash env) token c\<rparr>"
    using forward_verified_401 [OF assms(4) [unfolded h(2)] assms(5)] h(2) by simp
  then have "cache_peek (sv_cache (gr_server res)) (ev_hash env token) = None"
    using gw.peek_invalidate [OF idle, of "ev_hash env token"] by (simp add: Cache_Invalidate_def)
  moreover from this have "fst (Cache_Get (ev_hash env) now token (sv_cache (gr_server res))) = None"
    using Get_SomeD [of "ev_hash env" now token] by (cases "fst (Cache_Get (ev_hash env) now token (sv_cache (gr_server res)))") auto
  ultimately show ?thesis by simp
qed

theorem gateway_revoked_token_dropped_witness:
  "fst (Cache_Get id 30 ''t''
     (sv_cache (gr_server (sample_result (VerifyResp 200 ''{}'') (UpResp 401 [] '''' None))))) = None"
proof -
  let ?env = "sample_env (VerifyResp 200 ''{}'') (UpResp 401 [] '''' None)"
  have idle: "gw_idle (sv_cache sample_server)" by (simp add: sample_server_def gw_idle_New)
  have tok: "extractBearer sample_request = Some ''t''" by code_simp
  have "gr_forwarded (sample_result (VerifyResp 200 ''{}'') (UpResp 401 [] '''' None)) \<noteq> None" by code_simp
  then obtain up where "gr_forwarded (sample_result (VerifyResp 200 ''{}'') (UpResp 401 [] '''' None)) = Some up"
    by blast
  from gateway_revoked_token_dropped [OF idle sample_handled tok this, of "[]" "''''" 30]
  show ?thesis by (simp add: sample_env_def)
qed

end
