(* ===== verification/Auth_Tokens.thy ===== *)
theory Auth_Tokens
  imports Prelude
begin

text \<open>
  Secrets: \<^verbatim>\<open>internal/auth/passwords.go\<close> (argon2id hashes in PHC form) and \<^verbatim>\<open>internal/auth/tokens.go\<close> (personal
  access tokens). Base64, hexadecimal, decimal printing and the \<^verbatim>\<open>fmt.Sscanf\<close> patterns the code uses are
  modelled; the key derivation function \<^verbatim>\<open>argon2.IDKey\<close> is the argument \<open>idkey\<close> (password, salt, time, memory,
  threads, key length) and random bytes are arguments, \<open>None\<close> standing for a failed read.

  Results: base64 and decimal round trips, a hash verifies its own password, a minted token parses back to its
  prefix and verifies, and what exactly \<^verbatim>\<open>ParseToken\<close> accepts.
\<close>

section \<open>Encodings\<close>

definition std_alphabet :: string where
  "std_alphabet = ''ABCDEFGHIJKLMNOPQRSTUVWXYZabcdefghijklmnopqrstuvwxyz0123456789+/''"

definition url_alphabet :: string where
  "url_alphabet = ''ABCDEFGHIJKLMNOPQRSTUVWXYZabcdefghijklmnopqrstuvwxyz0123456789-_''"

abbreviation byte_val :: "char \<Rightarrow> nat" where "byte_val c \<equiv> of_char c"

text \<open>\<^verbatim>\<open>EncodeToString\<close> without padding.\<close>

fun b64_encode :: "string \<Rightarrow> string \<Rightarrow> string" where
  "b64_encode al [] = []"
| "b64_encode al [a] = [al ! (byte_val a div 4), al ! (byte_val a mod 4 * 16)]"
| "b64_encode al [a, b] =
     [al ! (byte_val a div 4), al ! (byte_val a mod 4 * 16 + byte_val b div 16), al ! (byte_val b mod 16 * 4)]"
| "b64_encode al (a # b # c # rest) =
     [al ! (byte_val a div 4), al ! (byte_val a mod 4 * 16 + byte_val b div 16),
      al ! (byte_val b mod 16 * 4 + byte_val c div 64), al ! (byte_val c mod 64)] @ b64_encode al rest"

fun index_of :: "string \<Rightarrow> char \<Rightarrow> nat option" where
  "index_of [] c = None"
| "index_of (x # xs) c = (if x = c then Some 0 else map_option Suc (index_of xs c))"

text \<open>\<^verbatim>\<open>DecodeString\<close> without padding, after line breaks are dropped; one leftover digit is an error, the
  spare bits of the last digit are ignored.\<close>

fun b64_quads :: "nat list \<Rightarrow> string option" where
  "b64_quads [] = Some []"
| "b64_quads [p] = None"
| "b64_quads [p, q] = Some [char_of (p * 4 + q div 16)]"
| "b64_quads [p, q, r] = Some [char_of (p * 4 + q div 16), char_of (q mod 16 * 16 + r div 4)]"
| "b64_quads (p # q # r # s # rest) =
     map_option (\<lambda>t. [char_of (p * 4 + q div 16), char_of (q mod 16 * 16 + r div 4), char_of (r mod 4 * 64 + s)] @ t)
       (b64_quads rest)"

definition b64_decode :: "string \<Rightarrow> string \<Rightarrow> string option" where
  "b64_decode al s =
     (let ds = map (index_of al) (filter (\<lambda>c. c \<noteq> CHR 0x0A \<and> c \<noteq> CHR 0x0D) s) in
      if list_all (\<lambda>d. d \<noteq> None) ds then b64_quads (map the ds) else None)"

definition hex_alphabet :: string where "hex_alphabet = ''0123456789abcdef''"

definition hex_encode :: "string \<Rightarrow> string" where
  "hex_encode s = concat (map (\<lambda>c. [hex_alphabet ! (byte_val c div 16), hex_alphabet ! (byte_val c mod 16)]) s)"

definition digit_char :: "nat \<Rightarrow> char" where
  "digit_char d = char_of (48 + d)"

fun Itoa :: "nat \<Rightarrow> string" where
  "Itoa n = (if n < 10 then [digit_char n] else Itoa (n div 10) @ [digit_char (n mod 10)])"

declare Itoa.simps [simp del]

definition digits_val :: "string \<Rightarrow> nat" where
  "digits_val s = foldl (\<lambda>v c. 10 * v + (byte_val c - 48)) 0 s"

text \<open>
  \<^verbatim>\<open>Sscanf\<close>: a literal has to match character by character; \<^verbatim>\<open>%d\<close> into an unsigned variable skips blanks and
  takes a non-empty run of digits whose value fits the width; into an \<^verbatim>\<open>int\<close> it accepts a sign as well.
  Input after the last verb is ignored.
\<close>

definition scan_lit :: "string \<Rightarrow> string \<Rightarrow> string option" where
  "scan_lit lit s = (if HasPrefix s lit then Some (drop (length lit) s) else None)"

definition scan_uint :: "nat \<Rightarrow> string \<Rightarrow> (nat \<times> string) option" where
  "scan_uint bits s =
     (let t = dropWhile (\<lambda>c. c = CHR '' '') s; ds = takeWhile is_digit t in
      if ds = [] \<or> digits_val ds \<ge> 2 ^ bits then None else Some (digits_val ds, dropWhile is_digit t))"

definition scan_int :: "string \<Rightarrow> string option" where
  "scan_int s =
     (let t = dropWhile (\<lambda>c. c = CHR '' '') s;
          u = (case t of c # t' \<Rightarrow> if c = CHR ''+'' \<or> c = CHR ''-'' then t' else t | [] \<Rightarrow> t);
          ds = takeWhile is_digit u in
      if ds = [] \<or> digits_val ds \<ge> 2 ^ 63 then None else Some (dropWhile is_digit u))"

section \<open>Passwords\<close>

definition argonTime :: nat where "argonTime = 1"
definition argonMemory :: nat where "argonMemory = 64 * 1024"
definition argonThreads :: nat where "argonThreads = 4"
definition argonKeyLen :: nat where "argonKeyLen = 32"
definition argonSaltLen :: nat where "argonSaltLen = 16"

type_synonym idkey = "string \<Rightarrow> string \<Rightarrow> nat \<Rightarrow> nat \<Rightarrow> nat \<Rightarrow> nat \<Rightarrow> string"

datatype auth_error =
    ErrUnauthorized | ErrNoCookie | ErrPasswordMismatch | ErrInvalidHashFormat | ErrInvalidTokenFormat
  | ErrRandom | ErrStore | PanicArgon

text \<open>The \<^verbatim>\<open>Sprintf\<close> of \<^verbatim>\<open>HashPassword\<close>: version, memory, time, threads, salt, hash.\<close>

definition phc_string :: "nat \<Rightarrow> nat \<Rightarrow> nat \<Rightarrow> nat \<Rightarrow> string \<Rightarrow> string \<Rightarrow> string" where
  "phc_string version memory time threads salt hash =
     ''$argon2id$v='' @ Itoa version @ ''$m='' @ Itoa memory @ '',t='' @ Itoa time @ '',p='' @ Itoa threads @
     ''$'' @ b64_encode std_alphabet salt @ ''$'' @ b64_encode std_alphabet hash"

text \<open>\<open>salt\<close> is the result of \<^verbatim>\<open>rand.Read\<close> into a buffer of \<open>argonSaltLen\<close> bytes; 19 is \<^verbatim>\<open>argon2.Version\<close>.\<close>

definition HashPassword :: "idkey \<Rightarrow> string option \<Rightarrow> string \<Rightarrow> auth_error + string" where
  "HashPassword idkey salt plaintext =
     (case salt of
        None \<Rightarrow> Inl ErrRandom
      | Some s \<Rightarrow>
          Inr (phc_string 19 argonMemory argonTime argonThreads s
                 (idkey plaintext s argonTime argonMemory argonThreads argonKeyLen)))"

definition scan_params :: "string \<Rightarrow> (nat \<times> nat \<times> nat) option" where
  "scan_params s =
     Option.bind (scan_lit ''m='' s) (\<lambda>s1. Option.bind (scan_uint 32 s1) (\<lambda>(memory, s2).
     Option.bind (scan_lit '',t='' s2) (\<lambda>s3. Option.bind (scan_uint 32 s3) (\<lambda>(time, s4).
     Option.bind (scan_lit '',p='' s4) (\<lambda>s5. Option.bind (scan_uint 8 s5) (\<lambda>(threads, s6).
     Some (memory, time, threads)))))))"

text \<open>\<open>None\<close> is a nil error. \<^verbatim>\<open>IDKey\<close> panics when its time or thread count is zero.\<close>

definition VerifyPassword :: "idkey \<Rightarrow> string \<Rightarrow> string \<Rightarrow> auth_error option" where
  "VerifyPassword idkey plaintext encoded =
     (let parts = Split encoded (CHR ''$'') in
      if length parts \<noteq> 6 \<or> parts ! 1 \<noteq> ''argon2id'' then Some ErrInvalidHashFormat
      else if Option.bind (scan_lit ''v='' (parts ! 2)) scan_int = None then Some ErrInvalidHashFormat
      else case scan_params (parts ! 3) of
             None \<Rightarrow> Some ErrInvalidHashFormat
           | Some (memory, time, threads) \<Rightarrow>
               (case b64_decode std_alphabet (parts ! 4) of
                  None \<Rightarrow> Some ErrInvalidHashFormat
                | Some salt \<Rightarrow>
                    (case b64_decode std_alphabet (parts ! 5) of
                       None \<Rightarrow> Some ErrInvalidHashFormat
                     | Some want \<Rightarrow>
                         if time < 1 \<or> threads < 1 then Some PanicArgon
                         else if idkey plaintext salt time memory threads (length want) \<noteq> want
                         then Some ErrPasswordMismatch
                         else None)))"

definition RandomSecret :: "string option \<Rightarrow> auth_error + string" where
  "RandomSecret buf = (case buf of None \<Rightarrow> Inl ErrRandom | Some b \<Rightarrow> Inr (b64_encode url_alphabet b))"

section \<open>Tokens\<close>

definition TokenScheme :: string where "TokenScheme = ''longue_vue_pat_''"
definition TokenSchemeLegacy :: string where "TokenSchemeLegacy = ''argos_pat_''"
definition tokenPrefixLen :: nat where "tokenPrefixLen = 8"
definition tokenSuffixBytes :: nat where "tokenSuffixBytes = 24"

record MintedToken =
  Plaintext :: string
  Prefix :: string
  Hash :: string

text \<open>The three reads of random bytes: the prefix, the suffix, the salt.\<close>

definition MintToken ::
    "idkey \<Rightarrow> string option \<Rightarrow> string option \<Rightarrow> string option \<Rightarrow> auth_error + MintedToken" where
  "MintToken idkey prefixBytes suffixBytes salt =
     (case prefixBytes of
        None \<Rightarrow> Inl ErrRandom
      | Some pb \<Rightarrow>
          let prefix = hex_encode pb in
          and_then (RandomSecret suffixBytes) (\<lambda>suffix.
          let plaintext = TokenScheme @ prefix @ ''_'' @ suffix in
          and_then (HashPassword idkey salt plaintext) (\<lambda>hash.
          Inr \<lparr>Plaintext = plaintext, Prefix = prefix, Hash = hash\<rparr>)))"

definition ParseToken :: "string \<Rightarrow> auth_error + (string \<times> string)" where
  "ParseToken plaintext =
     (let rest = (if HasPrefix plaintext TokenScheme then Some (TrimPrefix plaintext TokenScheme)
                  else if HasPrefix plaintext TokenSchemeLegacy then Some (TrimPrefix plaintext TokenSchemeLegacy)
                  else None) in
      case rest of
        None \<Rightarrow> Inl ErrInvalidTokenFormat
      | Some r \<Rightarrow>
          if IndexByte r (CHR ''_'') \<noteq> Some tokenPrefixLen then Inl ErrInvalidTokenFormat
          else Inr (take tokenPrefixLen r, plaintext))"

section \<open>Round trips of the encodings\<close>

fun b64_digits :: "string \<Rightarrow> nat list" where
  "b64_digits [] = []"
| "b64_digits [a] = [byte_val a div 4, byte_val a mod 4 * 16]"
| "b64_digits [a, b] =
     [byte_val a div 4, byte_val a mod 4 * 16 + byte_val b div 16, byte_val b mod 16 * 4]"
| "b64_digits (a # b # c # rest) =
     [byte_val a div 4, byte_val a mod 4 * 16 + byte_val b div 16,
      byte_val b mod 16 * 4 + byte_val c div 64, byte_val c mod 64] @ b64_digits rest"

lemma byte_val_bound: "byte_val c < 256"
  using nat_of_char_less_256 by blast

lemma b64_encode_digits: "b64_encode al xs = map (\<lambda>d. al ! d) (b64_digits xs)"
  by (induction xs rule: b64_digits.induct) simp_all

lemma byte_div_bound [simp]:
  "byte_val a div 4 < 64" "byte_val a div 16 < 16" "byte_val a div 64 < 4"
  using byte_val_bound [of a] by (simp_all add: less_mult_imp_div_less)

lemma two_digit_bound [simp]: "byte_val a mod 4 * 16 + byte_val b div 16 < 64"
    "byte_val b mod 16 * 4 + byte_val c div 64 < 64" "byte_val a mod 4 * 16 < 64" "byte_val b mod 16 * 4 < 64"
proof -
  have "byte_val a mod 4 < 4" "byte_val b mod 16 < 16" by simp_all
  with byte_div_bound(2) [of b] byte_div_bound(3) [of c]
  show "byte_val a mod 4 * 16 + byte_val b div 16 < 64" "byte_val b mod 16 * 4 + byte_val c div 64 < 64"
    "byte_val a mod 4 * 16 < 64" "byte_val b mod 16 * 4 < 64" by linarith+
qed

lemma b64_digits_bound: "d \<in> set (b64_digits xs) \<Longrightarrow> d < 64"
  by (induction xs rule: b64_digits.induct) auto

lemma b64_quads_digits: "b64_quads (b64_digits xs) = Some xs"
proof (induction xs rule: b64_digits.induct)
  case (3 a b)
  have "byte_val b div 16 div 16 = 0" "byte_val b div 16 mod 16 = byte_val b div 16" by simp_all
  then show ?case by simp
next
  case (4 a b c rest)
  have "byte_val b div 16 div 16 = 0" "byte_val b div 16 mod 16 = byte_val b div 16"
    "byte_val c div 64 div 4 = 0" "byte_val c div 64 mod 4 = byte_val c div 64" by simp_all
  with 4 show ?case by simp
qed simp_all

lemma std_index: "list_all (\<lambda>i. index_of std_alphabet (std_alphabet ! i) = Some i \<and>
    std_alphabet ! i \<noteq> CHR 0x0A \<and> std_alphabet ! i \<noteq> CHR 0x0D \<and> std_alphabet ! i \<noteq> CHR ''$'') [0..<64]"
  by code_simp

lemma std_indexD:
  "i < 64 \<Longrightarrow> index_of std_alphabet (std_alphabet ! i) = Some i"
  "i < 64 \<Longrightarrow> std_alphabet ! i \<noteq> CHR 0x0A \<and> std_alphabet ! i \<noteq> CHR 0x0D \<and> std_alphabet ! i \<noteq> CHR ''$''"
  using std_index by (auto simp: list_all_iff)

lemma b64_roundtrip_alphabet:
  assumes "list_all (\<lambda>i. index_of al (al ! i) = Some i \<and> al ! i \<noteq> CHR 0x0A \<and> al ! i \<noteq> CHR 0x0D) [0..<64]"
  shows "b64_decode al (b64_encode al xs) = Some xs"
proof -
  have bound: "\<And>d. d \<in> set (b64_digits xs) \<Longrightarrow> d < 64" by (rule b64_digits_bound)
  have al: "index_of al (al ! i) = Some i" "al ! i \<noteq> CHR 0x0A" "al ! i \<noteq> CHR 0x0D" if "i < 64" for i
    using assms that by (auto simp: list_all_iff)
  have keep: "filter (\<lambda>c. c \<noteq> CHR 0x0A \<and> c \<noteq> CHR 0x0D) (b64_encode al xs) = b64_encode al xs"
    using bound al by (intro filter_True) (auto simp: b64_encode_digits)
  have "map (index_of al) (b64_encode al xs) = map Some (b64_digits xs)"
    using bound al by (simp add: b64_encode_digits)
  then show ?thesis
    by (simp add: b64_decode_def keep Let_def list_all_iff comp_def b64_quads_digits)
qed

lemma b64_roundtrip: "b64_decode std_alphabet (b64_encode std_alphabet xs) = Some xs"
  using std_index by (intro b64_roundtrip_alphabet) (auto simp: list_all_iff)

lemma b64_url_roundtrip: "b64_decode url_alphabet (b64_encode url_alphabet xs) = Some xs"
  by (rule b64_roundtrip_alphabet) code_simp

lemma b64_encode_empty [simp]: "b64_encode al xs = [] \<longleftrightarrow> xs = []"
  by (cases "(al, xs)" rule: b64_encode.cases) auto

lemma b64_no_dollar: "CHR ''$'' \<notin> set (b64_encode std_alphabet xs)"
  using b64_digits_bound [of _ xs] std_indexD(2) by (fastforce simp: b64_encode_digits)

lemma digit_char_val: "d < 10 \<Longrightarrow> is_digit (digit_char d) \<and> byte_val (digit_char d) = 48 + d"
  by (simp add: is_digit_def digit_char_def Let_def)

lemma Itoa_digits: "list_all is_digit (Itoa n)"
  by (induction n rule: Itoa.induct) (subst Itoa.simps, simp add: digit_char_val)

lemma digits_val_snoc: "digits_val (s @ [c]) = 10 * digits_val s + (byte_val c - 48)"
  by (simp add: digits_val_def)

lemma digits_val_Itoa: "digits_val (Itoa n) = n"
proof (induction n rule: Itoa.induct)
  case (1 n)
  show ?case
  proof (cases "n < 10")
    case True
    then show ?thesis by (subst Itoa.simps) (simp add: digits_val_def digit_char_val)
  next
    case False
    with 1 show ?thesis by (subst Itoa.simps) (simp add: digits_val_snoc digit_char_val)
  qed
qed

lemma Itoa_nonempty: "Itoa n \<noteq> []"
  by (subst Itoa.simps) simp

lemma scan_uint_Itoa:
  assumes "n < 2 ^ bits" and "rest = [] \<or> \<not> is_digit (hd rest)"
  shows "scan_uint bits (Itoa n @ rest) = Some (n, rest)"
proof -
  have all: "\<forall>c\<in>set (Itoa n). is_digit c" using Itoa_digits [of n] by (simp add: list_all_iff)
  have tw: "takeWhile is_digit (Itoa n @ rest) = Itoa n"
    using all assms(2) by (cases rest) (auto simp: takeWhile_append)
  have dw: "dropWhile is_digit (Itoa n @ rest) = rest"
    using all assms(2) by (cases rest) (auto simp: dropWhile_append)
  have "\<not> is_digit (CHR '' '')" by (simp add: is_digit_def Let_def)
  then have sp: "dropWhile (\<lambda>c. c = CHR '' '') (Itoa n @ rest) = Itoa n @ rest"
    using all Itoa_nonempty [of n] by (cases "Itoa n") auto
  show ?thesis
    using assms(1) by (simp add: scan_uint_def sp tw dw Let_def Itoa_nonempty digits_val_Itoa)
qed

lemma hex_no_underscore: "CHR ''_'' \<notin> set (hex_encode s)"
proof -
  have "list_all (\<lambda>i. hex_alphabet ! i \<noteq> CHR ''_'') [0..<16]" by code_simp
  then have "i < 16 \<Longrightarrow> hex_alphabet ! i \<noteq> CHR ''_''" for i by (auto simp: list_all_iff)
  then show ?thesis by (induction s) (simp_all add: hex_encode_def eq_commute [of "CHR ''_''"])
qed

lemma length_hex: "length (hex_encode s) = 2 * length s"
  by (induction s) (simp_all add: hex_encode_def)

section \<open>Hashes and tokens\<close>

lemma digits_no_sep: "\<not> is_digit c \<Longrightarrow> c \<notin> set (Itoa n)"
  using Itoa_digits [of n] by (auto simp: list_all_iff)

lemma non_digits [simp]:
  "\<not> is_digit (CHR ''$'')" "\<not> is_digit (CHR '','')" "\<not> is_digit (CHR '' '')" "\<not> is_digit (CHR ''+'')"
  "\<not> is_digit (CHR ''-'')"
  by (simp_all add: is_digit_def Let_def)

lemma phc_parts:
  "Split (phc_string v m t p salt hash) (CHR ''$'') =
     [[], ''argon2id'', ''v='' @ Itoa v, ''m='' @ Itoa m @ '',t='' @ Itoa t @ '',p='' @ Itoa p,
      b64_encode std_alphabet salt, b64_encode std_alphabet hash]"
proof -
  let ?d = "CHR ''$''"
  have eq: "phc_string v m t p salt hash =
      [] @ ?d # (''argon2id'' @ ?d # ((''v='' @ Itoa v) @ ?d # ((''m='' @ Itoa m @ '',t='' @ Itoa t @ '',p='' @ Itoa p) @ ?d #
      (b64_encode std_alphabet salt @ ?d # b64_encode std_alphabet hash))))"
    by (simp add: phc_string_def)
  have no: "?d \<notin> set []" "?d \<notin> set ''argon2id''" "?d \<notin> set (''v='' @ Itoa v)"
    "?d \<notin> set (''m='' @ Itoa m @ '',t='' @ Itoa t @ '',p='' @ Itoa p)"
    by (simp_all add: digits_no_sep)
  show ?thesis
    by (simp only: eq Split_append [OF no(1)] Split_append [OF no(2)] Split_append [OF no(3)] Split_append [OF no(4)]
        Split_append [OF b64_no_dollar] Split_notin [OF b64_no_dollar])
qed

lemma scan_lit_append: "scan_lit lit (lit @ s) = Some s"
  by (simp add: scan_lit_def)

lemma scan_params_phc:
  assumes "m < 2 ^ 32" "t < 2 ^ 32" "p < 2 ^ 8"
  shows "scan_params (''m='' @ Itoa m @ '',t='' @ Itoa t @ '',p='' @ Itoa p) = Some (m, t, p)"
proof -
  have "scan_uint 32 (Itoa m @ '',t='' @ Itoa t @ '',p='' @ Itoa p) = Some (m, '',t='' @ Itoa t @ '',p='' @ Itoa p)"
    "scan_uint 32 (Itoa t @ '',p='' @ Itoa p) = Some (t, '',p='' @ Itoa p)"
    using assms by (intro scan_uint_Itoa; simp)+
  moreover have "scan_uint 8 (Itoa p) = Some (p, [])"
    using scan_uint_Itoa [of p 8 "[]"] assms by simp
  ultimately show ?thesis
    unfolding scan_params_def by (simp only: scan_lit_append Option.bind.simps prod.case)
qed

lemma scan_int_Itoa: "v < 2 ^ 63 \<Longrightarrow> scan_int (Itoa v) = Some []"
proof -
  assume v: "v < 2 ^ 63"
  obtain c ds where cs: "Itoa v = c # ds" using Itoa_nonempty list.exhaust by metis
  have all: "\<forall>x\<in>set (c # ds). is_digit x" using Itoa_digits [of v] cs by (simp add: list_all_iff)
  then have "c \<noteq> CHR '' ''" "c \<noteq> CHR ''+''" "c \<noteq> CHR ''-''" by auto
  moreover have "takeWhile is_digit (c # ds) = c # ds" "dropWhile is_digit (c # ds) = []" using all by auto
  ultimately show ?thesis
    using v digits_val_Itoa [of v] by (simp add: scan_int_def cs Let_def)
qed

lemma verify_phc:
  assumes "\<And>pw s t m p n. length (idkey pw s t m p n) = n"
    and "v < 2 ^ 63" "m < 2 ^ 32" "0 < t" "t < 2 ^ 32" "0 < p" "p < 2 ^ 8"
  shows "VerifyPassword idkey pw' (phc_string v m t p salt (idkey pw salt t m p n)) =
      (if idkey pw' salt t m p n = idkey pw salt t m p n then None else Some ErrPasswordMismatch)"
  using assms
  by (simp add: VerifyPassword_def phc_parts scan_params_phc scan_int_Itoa b64_roundtrip Let_def
      scan_lit_append [of "''v=''", simplified] scan_params_phc [simplified])

lemma password_hash_verifies:
  assumes "\<And>pw s t m p n. length (idkey pw s t m p n) = n" and "HashPassword idkey (Some salt) pw = Inr h"
  shows "VerifyPassword idkey pw h = None"
  using assms(2) verify_phc [where idkey = idkey, OF assms(1), of 19 argonMemory argonTime argonThreads pw salt pw argonKeyLen]
  by (auto simp: HashPassword_def argonMemory_def argonTime_def argonThreads_def)

text \<open>Passwords, round trip. For every parameter set that fits the verifier's integer widths (not only the
  current one), the hash string of a password is parsed back completely, and verifying a password against it
  succeeds exactly when the derived keys agree; so \<^verbatim>\<open>VerifyPassword\<close> accepts what \<^verbatim>\<open>HashPassword\<close> produced, and
  hashes stored under older parameters keep working.\<close>

theorem password_roundtrip:
  assumes "\<And>pw s t m p n. length (idkey pw s t m p n) = n"
    and "v < 2 ^ 63" "m < 2 ^ 32" "0 < t" "t < 2 ^ 32" "0 < p" "p < 2 ^ 8"
  shows "VerifyPassword idkey pw' (phc_string v m t p salt (idkey pw salt t m p n)) =
      (if idkey pw' salt t m p n = idkey pw salt t m p n then None else Some ErrPasswordMismatch) \<and>
    (\<exists>h. HashPassword idkey (Some salt) pw = Inr h \<and> VerifyPassword idkey pw h = None)"
proof
  show "VerifyPassword idkey pw' (phc_string v m t p salt (idkey pw salt t m p n)) =
      (if idkey pw' salt t m p n = idkey pw salt t m p n then None else Some ErrPasswordMismatch)"
    using assms by (rule verify_phc)
  obtain h where "HashPassword idkey (Some salt) pw = Inr h" by (simp add: HashPassword_def)
  then show "\<exists>h. HashPassword idkey (Some salt) pw = Inr h \<and> VerifyPassword idkey pw h = None"
    using password_hash_verifies [where idkey = idkey, OF assms(1)] by blast
qed

definition sample_idkey :: idkey where
  "sample_idkey pw s t m p n = take n (pw @ replicate n (CHR ''x''))"

lemma sample_idkey_length: "length (sample_idkey pw s t m p n) = n"
  by (simp add: sample_idkey_def)

theorem password_roundtrip_witness:
  "VerifyPassword sample_idkey ''secret'' (phc_string 19 8 2 1 ''salt'' (sample_idkey ''secret'' ''salt'' 2 8 1 32)) = None \<and>
   VerifyPassword sample_idkey ''secreT'' (phc_string 19 8 2 1 ''salt'' (sample_idkey ''secret'' ''salt'' 2 8 1 32)) =
     Some ErrPasswordMismatch"
proof -
  have "sample_idkey ''secreT'' ''salt'' 2 8 1 32 \<noteq> sample_idkey ''secret'' ''salt'' 2 8 1 32"
    by (simp add: sample_idkey_def)
  then show ?thesis
    using password_roundtrip [where idkey = sample_idkey, OF sample_idkey_length, of 19 8 2 1 "''secret''" "''salt''" "''secret''" 32]
      password_roundtrip [where idkey = sample_idkey, OF sample_idkey_length, of 19 8 2 1 "''secreT''" "''salt''" "''secret''" 32]
    by simp
qed

lemma schemes_distinct: "\<not> HasPrefix (TokenSchemeLegacy @ r) TokenScheme"
  by (simp add: TokenSchemeLegacy_def TokenScheme_def)

text \<open>Tokens, what is accepted. \<^verbatim>\<open>ParseToken\<close> accepts a string exactly when it is the current or the legacy
  scheme followed by eight characters without an underscore, an underscore and any suffix; it returns those
  eight characters and the unchanged string. Everything else is refused with the format error.\<close>

theorem parse_token_exact:
  "ParseToken s = (if \<exists>scheme \<in> {TokenScheme, TokenSchemeLegacy}. \<exists>p q.
       s = scheme @ p @ ''_'' @ q \<and> length p = 8 \<and> CHR ''_'' \<notin> set p
     then Inr (take 8 (drop (if HasPrefix s TokenScheme then 15 else 10) s), s)
     else Inl ErrInvalidTokenFormat)"
proof -
  have idx: "IndexByte r (CHR ''_'') = Some 8 \<longleftrightarrow>
      (\<exists>p q. r = p @ ''_'' @ q \<and> length p = 8 \<and> CHR ''_'' \<notin> set p)" for r
  proof
    assume "IndexByte r (CHR ''_'') = Some 8"
    then have "8 < length r" "r ! 8 = CHR ''_''" "CHR ''_'' \<notin> set (take 8 r)" by (auto dest: IndexByte_SomeD)
    then have "r = take 8 r @ ''_'' @ drop 9 r \<and> length (take 8 r) = 8 \<and> CHR ''_'' \<notin> set (take 8 r)"
      using id_take_nth_drop [of 8 r] by simp
    then show "\<exists>p q. r = p @ ''_'' @ q \<and> length p = 8 \<and> CHR ''_'' \<notin> set p" by blast
  qed (auto simp: IndexByte_append_notin)
  consider (new) r where "s = TokenScheme @ r" | (old) r where "s = TokenSchemeLegacy @ r"
    | (none) "\<not> HasPrefix s TokenScheme" "\<not> HasPrefix s TokenSchemeLegacy"
    by (meson HasPrefixE)
  then show ?thesis
  proof cases
    case new
    then have "(\<exists>scheme \<in> {TokenScheme, TokenSchemeLegacy}. \<exists>p q. s = scheme @ p @ ''_'' @ q \<and> length p = 8 \<and> CHR ''_'' \<notin> set p)
        \<longleftrightarrow> (\<exists>p q. r = p @ ''_'' @ q \<and> length p = 8 \<and> CHR ''_'' \<notin> set p)"
      by (auto simp: TokenSchemeLegacy_def TokenScheme_def)
    with new show ?thesis unfolding idx [symmetric]
      by (simp add: ParseToken_def tokenPrefixLen_def Let_def) (simp add: TokenScheme_def)
  next
    case old
    then have "(\<exists>scheme \<in> {TokenScheme, TokenSchemeLegacy}. \<exists>p q. s = scheme @ p @ ''_'' @ q \<and> length p = 8 \<and> CHR ''_'' \<notin> set p)
        \<longleftrightarrow> (\<exists>p q. r = p @ ''_'' @ q \<and> length p = 8 \<and> CHR ''_'' \<notin> set p)"
      by (auto simp: TokenSchemeLegacy_def TokenScheme_def)
    with old show ?thesis unfolding idx [symmetric]
      by (simp add: ParseToken_def tokenPrefixLen_def Let_def schemes_distinct) (simp add: TokenSchemeLegacy_def)
  next
    case none
    then have "\<not> (\<exists>scheme \<in> {TokenScheme, TokenSchemeLegacy}. \<exists>p q. s = scheme @ p @ ''_'' @ q \<and> length p = 8 \<and> CHR ''_'' \<notin> set p)"
      by auto
    with none show ?thesis by (simp add: ParseToken_def Let_def)
  qed
qed

lemma ParseToken_full: "ParseToken s = Inr (pfx, full) \<Longrightarrow> full = s"
  by (auto simp: ParseToken_def Let_def split: option.splits if_splits)

lemma minted_token:
  assumes "\<And>pw s t m p n. length (idkey pw s t m p n) = n"
    and "length pb = tokenPrefixLen div 2"
    and "MintToken idkey (Some pb) sb salt = Inr tok"
  shows "ParseToken (Plaintext tok) = Inr (Prefix tok, Plaintext tok) \<and> length (Prefix tok) = tokenPrefixLen \<and>
    VerifyPassword idkey (Plaintext tok) (Hash tok) = None"
proof -
  obtain suffix hash where tok: "tok = \<lparr>Plaintext = TokenScheme @ hex_encode pb @ ''_'' @ suffix, Prefix = hex_encode pb, Hash = hash\<rparr>"
      and h: "HashPassword idkey salt (TokenScheme @ hex_encode pb @ ''_'' @ suffix) = Inr hash"
    using assms(3) by (auto simp: MintToken_def Let_def elim!: and_then_InrE)
  obtain s where "salt = Some s" using h by (auto simp: HashPassword_def split: option.splits)
  with h have "VerifyPassword idkey (Plaintext tok) (Hash tok) = None"
    using password_hash_verifies [of idkey, OF assms(1)] tok by simp
  moreover have "ParseToken (Plaintext tok) = Inr (Prefix tok, Plaintext tok)"
    using assms(2) IndexByte_append_notin [OF hex_no_underscore, of pb suffix]
    by (simp add: tok ParseToken_def Let_def length_hex tokenPrefixLen_def)
  ultimately show ?thesis using assms(2) by (simp add: tok length_hex tokenPrefixLen_def)
qed

end
