(* ===== verification/Auth_Store.thy ===== *)
theory Auth_Store
  imports Auth_Tokens
begin

text \<open>
  The tables behind authentication and their SQL, \<^verbatim>\<open>internal/store/pg_auth.go\<close>: users, external identities,
  sessions, API tokens and pending OIDC logins. A table is the list of its rows; \<^verbatim>\<open>UPDATE ... WHERE\<close> is a map over
  it, \<^verbatim>\<open>DELETE ... WHERE\<close> a filter, and the constraints of the schema (\<^verbatim>\<open>migrations/00014\<close> and later) are checked where
  PostgreSQL checks them: unique keys, the role check, foreign keys with \<^verbatim>\<open>ON DELETE CASCADE\<close> for sessions and
  identities and \<^verbatim>\<open>RESTRICT\<close> for tokens. Every operation is one transaction and runs atomically, which the row locks
  of the guarded operations give for those that read before they write; failures of the connection are not
  modelled. Fresh UUIDs and the clock are arguments.

  Results: the schema invariant \<open>db_ok\<close> is kept by every operation; the guarded operations never remove
  the last active admin; a revoked token stays revoked; an OIDC state is used at most once; a user who ever minted
  a token cannot be deleted.
\<close>

section \<open>Tables\<close>

record user_row =
  us_id :: uuid
  us_username :: string
  us_password_hash :: string
  us_role :: string
  us_must_change_password :: bool
  us_created_at :: time
  us_updated_at :: time
  us_last_login_at :: "time option"
  us_disabled_at :: "time option"
  us_failed_login_count :: int
  us_locked_at :: "time option"

record identity_row =
  id_id :: uuid
  id_user_id :: uuid
  id_issuer :: string
  id_subject :: string
  id_email :: "string option"
  id_created_at :: time
  id_last_seen_at :: time

record session_row =
  se_id :: string
  se_public_id :: uuid
  se_user_id :: uuid
  se_created_at :: time
  se_last_used_at :: time
  se_expires_at :: time
  se_user_agent :: "string option"
  se_source_ip :: "string option"

record token_row =
  tk_id :: uuid
  tk_name :: string
  tk_prefix :: string
  tk_hash :: string
  tk_scopes :: "string list"
  tk_created_by_user_id :: uuid
  tk_created_at :: time
  tk_last_used_at :: "time option"
  tk_expires_at :: "time option"
  tk_revoked_at :: "time option"
  tk_bound_cloud_account_id :: "uuid option"

record oidc_row =
  os_state :: string
  os_code_verifier :: string
  os_nonce :: string
  os_created_at :: time
  os_expires_at :: time

text \<open>\<open>revokedTokens\<close> is the buffered channel of 64 prefixes that \<^verbatim>\<open>RevokeAPIToken\<close> notifies.\<close>

record auth_db =
  users :: "user_row list"
  user_identities :: "identity_row list"
  sessions :: "session_row list"
  api_tokens :: "token_row list"
  oidc_auth_states :: "oidc_row list"
  cloud_account_ids :: "uuid list"
  revokedTokens :: "string list"

datatype store_error = ErrNotFound | ErrConflict | ErrLastAdmin | ErrAuthStore | ErrCheckViolation

definition valid_roles :: "string list" where
  "valid_roles = [''admin'', ''editor'', ''auditor'', ''viewer'']"

definition update_where :: "('r \<Rightarrow> bool) \<Rightarrow> ('r \<Rightarrow> 'r) \<Rightarrow> 'r list \<Rightarrow> 'r list" where
  "update_where P f rows = map (\<lambda>r. if P r then f r else r) rows"

abbreviation user_with_id :: "uuid \<Rightarrow> user_row \<Rightarrow> bool" where
  "user_with_id i u \<equiv> us_id u = i"

section \<open>Users\<close>

definition active_admin :: "user_row \<Rightarrow> bool" where
  "active_admin u \<longleftrightarrow> us_role u = ''admin'' \<and> us_disabled_at u = None"

definition CountActiveAdmins :: "auth_db \<Rightarrow> nat" where
  "CountActiveAdmins db = length (filter active_admin (users db))"

definition CountActiveUnlockedAdmins :: "auth_db \<Rightarrow> nat" where
  "CountActiveUnlockedAdmins db = length (filter (\<lambda>u. active_admin u \<and> us_locked_at u = None) (users db))"

text \<open>\<^verbatim>\<open>ORDER BY last_login_at DESC NULLS LAST, created_at ASC\<close>: \<open>rescue_before a b\<close> when \<open>a\<close> sorts strictly before \<open>b\<close>.\<close>

definition rescue_before :: "user_row \<Rightarrow> user_row \<Rightarrow> bool" where
  "rescue_before a b =
     (case (us_last_login_at a, us_last_login_at b) of
        (Some x, Some y) \<Rightarrow> x > y \<or> (x = y \<and> us_created_at a < us_created_at b)
      | (Some x, None) \<Rightarrow> True
      | (None, Some y) \<Rightarrow> False
      | (None, None) \<Rightarrow> us_created_at a < us_created_at b)"

definition PickRescueTarget :: "auth_db \<Rightarrow> store_error + user_row" where
  "PickRescueTarget db =
     (case filter (\<lambda>u. us_role u = ''admin'') (users db) of
        [] \<Rightarrow> Inl ErrNotFound
      | u # us \<Rightarrow> Inr (foldl (\<lambda>best v. if rescue_before v best then v else best) u us))"

definition DeleteSessionsForUser :: "uuid \<Rightarrow> auth_db \<Rightarrow> auth_db" where
  "DeleteSessionsForUser i db = db\<lparr>sessions := filter (\<lambda>s. se_user_id s \<noteq> i) (sessions db)\<rparr>"

definition update_user :: "uuid \<Rightarrow> (user_row \<Rightarrow> user_row) \<Rightarrow> auth_db \<Rightarrow> auth_db" where
  "update_user i f db = db\<lparr>users := update_where (user_with_id i) f (users db)\<rparr>"

definition user_exists :: "uuid \<Rightarrow> auth_db \<Rightarrow> bool" where
  "user_exists i db = list_ex (user_with_id i) (users db)"

definition RescueAdmin :: "time \<Rightarrow> uuid \<Rightarrow> string \<Rightarrow> auth_db \<Rightarrow> (store_error + unit) \<times> auth_db" where
  "RescueAdmin now i hash db =
     (if \<not> user_exists i db then (Inl ErrNotFound, db)
      else (Inr (), DeleteSessionsForUser i (update_user i (\<lambda>u. u\<lparr>us_password_hash := hash,
              us_failed_login_count := 0, us_locked_at := None, us_disabled_at := None,
              us_must_change_password := True, us_updated_at := now\<rparr>) db)))"

definition GetUser :: "uuid \<Rightarrow> auth_db \<Rightarrow> store_error + user_row" where
  "GetUser i db = (case find (user_with_id i) (users db) of None \<Rightarrow> Inl ErrNotFound | Some u \<Rightarrow> Inr u)"

record UserInsert =
  ui_Username :: string
  ui_PasswordHash :: string
  ui_Role :: string
  ui_MustChangePassword :: bool

definition new_user :: "uuid \<Rightarrow> time \<Rightarrow> UserInsert \<Rightarrow> user_row" where
  "new_user i now ins =
     \<lparr>us_id = i, us_username = ui_Username ins, us_password_hash = ui_PasswordHash ins, us_role = ui_Role ins,
      us_must_change_password = ui_MustChangePassword ins, us_created_at = now, us_updated_at = now,
      us_last_login_at = None, us_disabled_at = None, us_failed_login_count = 0, us_locked_at = None\<rparr>"

text \<open>\<^verbatim>\<open>INSERT INTO users\<close> with its constraints: primary key, unique lower-case username, role check.\<close>

definition insert_user :: "user_row \<Rightarrow> auth_db \<Rightarrow> (store_error + unit) \<times> auth_db" where
  "insert_user u db =
     (if us_role u \<notin> set valid_roles then (Inl ErrCheckViolation, db)
      else if list_ex (\<lambda>v. us_id v = us_id u \<or> ToLower (us_username v) = ToLower (us_username u)) (users db)
      then (Inl ErrConflict, db)
      else (Inr (), db\<lparr>users := users db @ [u]\<rparr>))"

definition CreateUser :: "uuid \<Rightarrow> time \<Rightarrow> UserInsert \<Rightarrow> auth_db \<Rightarrow> (store_error + user_row) \<times> auth_db" where
  "CreateUser i now ins db =
     (case insert_user (new_user i now ins) db of
        (Inl e, db') \<Rightarrow> (Inl e, db')
      | (Inr _, db') \<Rightarrow> (GetUser i db', db'))"

definition GetUserByUsername :: "string \<Rightarrow> auth_db \<Rightarrow> store_error + user_row" where
  "GetUserByUsername name db =
     (case find (\<lambda>u. ToLower (us_username u) = ToLower name \<and> us_disabled_at u = None) (users db) of
        None \<Rightarrow> Inl ErrNotFound | Some u \<Rightarrow> Inr u)"

record UserPatch =
  up_Role :: "string option"
  up_MustChangePassword :: "bool option"
  up_Disabled :: "bool option"
  up_Unlock :: "bool option"

definition patch_row :: "time \<Rightarrow> UserPatch \<Rightarrow> user_row \<Rightarrow> user_row" where
  "patch_row now p u =
     (let u1 = u\<lparr>us_updated_at := now\<rparr>;
          u2 = (case up_Role p of Some r \<Rightarrow> u1\<lparr>us_role := r\<rparr> | None \<Rightarrow> u1);
          u3 = (case up_MustChangePassword p of Some b \<Rightarrow> u2\<lparr>us_must_change_password := b\<rparr> | None \<Rightarrow> u2);
          u4 = (case up_Disabled p of
                  Some d \<Rightarrow> u3\<lparr>us_disabled_at := (if d then Some now else None)\<rparr>
                | None \<Rightarrow> u3)
      in if up_Unlock p = Some True then u4\<lparr>us_failed_login_count := 0, us_locked_at := None\<rparr> else u4)"

definition applyUserPatchTx :: "time \<Rightarrow> uuid \<Rightarrow> UserPatch \<Rightarrow> auth_db \<Rightarrow> (store_error + unit) \<times> auth_db" where
  "applyUserPatchTx now i p db =
     (if (case up_Role p of Some r \<Rightarrow> r \<notin> set valid_roles | None \<Rightarrow> False) then (Inl ErrNotFound, db)
      else if \<not> user_exists i db then (Inl ErrNotFound, db)
      else (Inr (), update_user i (patch_row now p) db))"

definition sweep_if_disabled :: "uuid \<Rightarrow> UserPatch \<Rightarrow> auth_db \<Rightarrow> auth_db" where
  "sweep_if_disabled i p db = (if up_Disabled p = Some True then DeleteSessionsForUser i db else db)"

definition UpdateUser :: "time \<Rightarrow> uuid \<Rightarrow> UserPatch \<Rightarrow> auth_db \<Rightarrow> (store_error + user_row) \<times> auth_db" where
  "UpdateUser now i p db =
     (case applyUserPatchTx now i p db of
        (Inl e, db') \<Rightarrow> (Inl e, db')
      | (Inr _, db') \<Rightarrow> (let db'' = sweep_if_disabled i p db' in (GetUser i db'', db'')))"

definition SetUserPassword :: "time \<Rightarrow> uuid \<Rightarrow> string \<Rightarrow> bool \<Rightarrow> auth_db \<Rightarrow> (store_error + unit) \<times> auth_db" where
  "SetUserPassword now i hash mustChange db =
     (if \<not> user_exists i db then (Inl ErrNotFound, db)
      else (Inr (), DeleteSessionsForUser i (update_user i (\<lambda>u. u\<lparr>us_password_hash := hash,
              us_must_change_password := mustChange, us_updated_at := now\<rparr>) db)))"

definition TouchUserLogin :: "uuid \<Rightarrow> time \<Rightarrow> auth_db \<Rightarrow> auth_db" where
  "TouchUserLogin i now db = update_user i (\<lambda>u. u\<lparr>us_last_login_at := Some now\<rparr>) db"

definition IncrementFailedLogin :: "time \<Rightarrow> uuid \<Rightarrow> int \<Rightarrow> auth_db \<Rightarrow> (store_error + bool) \<times> auth_db" where
  "IncrementFailedLogin now i threshold db =
     (case find (user_with_id i) (users db) of
        None \<Rightarrow> (Inl ErrNotFound, db)
      | Some u \<Rightarrow>
          if us_locked_at u \<noteq> None then (Inr False, db)
          else
            let count = us_failed_login_count u + 1; locked = (count \<ge> threshold) in
            (Inr locked,
             update_user i (\<lambda>v. if locked then v\<lparr>us_failed_login_count := count, us_locked_at := Some now\<rparr>
                                else v\<lparr>us_failed_login_count := count\<rparr>) db))"

definition ResetFailedLogin :: "uuid \<Rightarrow> auth_db \<Rightarrow> (store_error + unit) \<times> auth_db" where
  "ResetFailedLogin i db =
     (if \<not> user_exists i db then (Inl ErrNotFound, db)
      else (Inr (), update_user i (\<lambda>u. u\<lparr>us_failed_login_count := 0, us_locked_at := None\<rparr>) db))"

text \<open>\<^verbatim>\<open>DELETE FROM users WHERE id\<close>: refused (23503) while any token row, revoked or not, references the user;
  otherwise sessions and identities go with the row.\<close>

definition delete_user_row :: "uuid \<Rightarrow> auth_db \<Rightarrow> (store_error + unit) \<times> auth_db" where
  "delete_user_row i db =
     (if \<not> user_exists i db then (Inl ErrNotFound, db)
      else if list_ex (\<lambda>t. tk_created_by_user_id t = i) (api_tokens db) then (Inl ErrConflict, db)
      else (Inr (), db\<lparr>users := filter (\<lambda>u. us_id u \<noteq> i) (users db),
                       sessions := filter (\<lambda>s. se_user_id s \<noteq> i) (sessions db),
                       user_identities := filter (\<lambda>d. id_user_id d \<noteq> i) (user_identities db)\<rparr>))"

definition DeleteUser :: "uuid \<Rightarrow> auth_db \<Rightarrow> (store_error + unit) \<times> auth_db" where
  "DeleteUser i db = delete_user_row i db"

definition other_admins :: "uuid \<Rightarrow> auth_db \<Rightarrow> nat" where
  "other_admins i db = length (filter (\<lambda>u. active_admin u \<and> us_id u \<noteq> i) (users db))"

definition UpdateUserGuarded :: "time \<Rightarrow> uuid \<Rightarrow> UserPatch \<Rightarrow> auth_db \<Rightarrow> (store_error + user_row) \<times> auth_db" where
  "UpdateUserGuarded now i p db =
     (case find (user_with_id i) (users db) of
        None \<Rightarrow> (Inl ErrNotFound, db)
      | Some u \<Rightarrow>
          let demoting = (case up_Role p of Some r \<Rightarrow> r \<noteq> ''admin'' | None \<Rightarrow> False);
              disabling = (up_Disabled p = Some True) in
          if (demoting \<or> disabling) \<and> us_role u = ''admin'' \<and> us_disabled_at u = None \<and> other_admins i db = 0
          then (Inl ErrLastAdmin, db)
          else case applyUserPatchTx now i p db of
                 (Inl e, db') \<Rightarrow> (Inl e, db)
               | (Inr _, db') \<Rightarrow> (let db'' = sweep_if_disabled i p db' in (GetUser i db'', db'')))"

definition DeleteUserGuarded :: "uuid \<Rightarrow> auth_db \<Rightarrow> (store_error + unit) \<times> auth_db" where
  "DeleteUserGuarded i db =
     (case find (user_with_id i) (users db) of
        None \<Rightarrow> (Inl ErrNotFound, db)
      | Some u \<Rightarrow>
          if us_role u = ''admin'' \<and> us_disabled_at u = None \<and> other_admins i db = 0 then (Inl ErrLastAdmin, db)
          else delete_user_row i db)"

record auth_User =
  au_ID :: uuid
  au_Username :: string
  au_Role :: string
  au_MustChangePassword :: bool
  au_Disabled :: bool

definition GetUserForAuth :: "uuid \<Rightarrow> auth_db \<Rightarrow> auth_error + auth_User" where
  "GetUserForAuth i db =
     (case find (user_with_id i) (users db) of
        None \<Rightarrow> Inl ErrUnauthorized
      | Some u \<Rightarrow> Inr \<lparr>au_ID = us_id u, au_Username = us_username u, au_Role = us_role u,
                        au_MustChangePassword = us_must_change_password u,
                        au_Disabled = (us_disabled_at u \<noteq> None)\<rparr>)"

section \<open>Sessions\<close>

record SessionInsert =
  si_ID :: string
  si_UserID :: uuid
  si_CreatedAt :: time
  si_ExpiresAt :: time
  si_UserAgent :: string
  si_SourceIP :: string

definition null_if_empty :: "string \<Rightarrow> string option" where
  "null_if_empty s = (if s = '''' then None else Some s)"

definition CreateSession :: "uuid \<Rightarrow> SessionInsert \<Rightarrow> auth_db \<Rightarrow> (store_error + unit) \<times> auth_db" where
  "CreateSession publicID ins db =
     (if \<not> user_exists (si_UserID ins) db then (Inl ErrAuthStore, db)
      else if list_ex (\<lambda>s. se_id s = si_ID ins \<or> se_public_id s = publicID) (sessions db) then (Inl ErrAuthStore, db)
      else (Inr (), db\<lparr>sessions := sessions db @
             [\<lparr>se_id = si_ID ins, se_public_id = publicID, se_user_id = si_UserID ins, se_created_at = si_CreatedAt ins,
               se_last_used_at = si_CreatedAt ins, se_expires_at = si_ExpiresAt ins,
               se_user_agent = null_if_empty (si_UserAgent ins), se_source_ip = null_if_empty (si_SourceIP ins)\<rparr>]\<rparr>))"

record auth_Session =
  as_ID :: string
  as_UserID :: uuid
  as_ExpiresAt :: time

definition GetActiveSession :: "time \<Rightarrow> string \<Rightarrow> auth_db \<Rightarrow> auth_error + auth_Session" where
  "GetActiveSession now i db =
     (case find (\<lambda>s. se_id s = i \<and> se_expires_at s > now) (sessions db) of
        None \<Rightarrow> Inl ErrUnauthorized
      | Some s \<Rightarrow> Inr \<lparr>as_ID = se_id s, as_UserID = se_user_id s, as_ExpiresAt = se_expires_at s\<rparr>)"

definition TouchSession :: "string \<Rightarrow> time \<Rightarrow> time \<Rightarrow> auth_db \<Rightarrow> auth_db" where
  "TouchSession i now newExpiry db =
     db\<lparr>sessions := update_where (\<lambda>s. se_id s = i)
                       (\<lambda>s. s\<lparr>se_last_used_at := now, se_expires_at := newExpiry\<rparr>) (sessions db)\<rparr>"

definition DeleteSession :: "string \<Rightarrow> auth_db \<Rightarrow> (store_error + unit) \<times> auth_db" where
  "DeleteSession i db =
     (if \<not> list_ex (\<lambda>s. se_id s = i) (sessions db) then (Inl ErrNotFound, db)
      else (Inr (), db\<lparr>sessions := filter (\<lambda>s. se_id s \<noteq> i) (sessions db)\<rparr>))"

definition DeleteSessionByPublicID :: "uuid \<Rightarrow> auth_db \<Rightarrow> (store_error + unit) \<times> auth_db" where
  "DeleteSessionByPublicID i db =
     (if \<not> list_ex (\<lambda>s. se_public_id s = i) (sessions db) then (Inl ErrNotFound, db)
      else (Inr (), db\<lparr>sessions := filter (\<lambda>s. se_public_id s \<noteq> i) (sessions db)\<rparr>))"

section \<open>API tokens\<close>

record APITokenInsert =
  ai_ID :: uuid
  ai_Name :: string
  ai_Prefix :: string
  ai_Hash :: string
  ai_Scopes :: "string list"
  ai_CreatedByUserID :: uuid
  ai_ExpiresAt :: "time option"
  ai_BoundCloudAccountID :: "uuid option"

definition getAPIToken :: "uuid \<Rightarrow> auth_db \<Rightarrow> store_error + token_row" where
  "getAPIToken i db = (case find (\<lambda>t. tk_id t = i) (api_tokens db) of None \<Rightarrow> Inl ErrNotFound | Some t \<Rightarrow> Inr t)"

text \<open>Constraints in PostgreSQL's order: the non-empty check, the unique keys, the foreign keys.\<close>

definition CreateAPIToken :: "time \<Rightarrow> APITokenInsert \<Rightarrow> auth_db \<Rightarrow> (store_error + token_row) \<times> auth_db" where
  "CreateAPIToken now ins db =
     (if ai_Scopes ins = [] then (Inl ErrCheckViolation, db)
      else if list_ex (\<lambda>t. tk_id t = ai_ID ins \<or> tk_prefix t = ai_Prefix ins) (api_tokens db) then (Inl ErrConflict, db)
      else if \<not> user_exists (ai_CreatedByUserID ins) db \<or>
              (case ai_BoundCloudAccountID ins of Some a \<Rightarrow> a \<notin> set (cloud_account_ids db) | None \<Rightarrow> False)
      then (Inl ErrNotFound, db)
      else let db' = db\<lparr>api_tokens := api_tokens db @
             [\<lparr>tk_id = ai_ID ins, tk_name = ai_Name ins, tk_prefix = ai_Prefix ins, tk_hash = ai_Hash ins,
               tk_scopes = ai_Scopes ins, tk_created_by_user_id = ai_CreatedByUserID ins, tk_created_at = now,
               tk_last_used_at = None, tk_expires_at = ai_ExpiresAt ins, tk_revoked_at = None,
               tk_bound_cloud_account_id = ai_BoundCloudAccountID ins\<rparr>]\<rparr>
           in (getAPIToken (ai_ID ins) db', db'))"

record auth_APIToken =
  at_ID :: uuid
  at_Name :: string
  at_Hash :: string
  at_Scopes :: "string list"
  at_CreatedByUserID :: uuid
  at_BoundCloudAccountID :: "uuid option"

definition token_live :: "time \<Rightarrow> token_row \<Rightarrow> bool" where
  "token_live now t \<longleftrightarrow>
     tk_revoked_at t = None \<and> (case tk_expires_at t of None \<Rightarrow> True | Some e \<Rightarrow> e > now)"

definition GetActiveTokenByPrefix :: "time \<Rightarrow> string \<Rightarrow> auth_db \<Rightarrow> auth_error + auth_APIToken" where
  "GetActiveTokenByPrefix now pfx db =
     (case find (\<lambda>t. tk_prefix t = pfx \<and> token_live now t) (api_tokens db) of
        None \<Rightarrow> Inl ErrUnauthorized
      | Some t \<Rightarrow> Inr \<lparr>at_ID = tk_id t, at_Name = tk_name t, at_Hash = tk_hash t, at_Scopes = tk_scopes t,
                        at_CreatedByUserID = tk_created_by_user_id t,
                        at_BoundCloudAccountID = tk_bound_cloud_account_id t\<rparr>)"

definition TouchToken :: "uuid \<Rightarrow> time \<Rightarrow> auth_db \<Rightarrow> auth_db" where
  "TouchToken i now db =
     db\<lparr>api_tokens := update_where (\<lambda>t. tk_id t = i) (\<lambda>t. t\<lparr>tk_last_used_at := Some now\<rparr>) (api_tokens db)\<rparr>"

text \<open>The notification is dropped when the channel's buffer is full.\<close>

definition RevokeAPIToken :: "uuid \<Rightarrow> time \<Rightarrow> auth_db \<Rightarrow> (store_error + unit) \<times> auth_db" where
  "RevokeAPIToken i now db =
     (case find (\<lambda>t. tk_id t = i \<and> tk_revoked_at t = None) (api_tokens db) of
        Some t \<Rightarrow>
          (Inr (), db\<lparr>api_tokens := update_where (\<lambda>t. tk_id t = i \<and> tk_revoked_at t = None)
                                      (\<lambda>t. t\<lparr>tk_revoked_at := Some now\<rparr>) (api_tokens db),
                      revokedTokens := (if length (revokedTokens db) < 64 then revokedTokens db @ [tk_prefix t]
                                        else revokedTokens db)\<rparr>)
      | None \<Rightarrow>
          if list_ex (\<lambda>t. tk_id t = i) (api_tokens db) then (Inr (), db) else (Inl ErrNotFound, db))"

section \<open>OIDC\<close>

definition GetUserByIdentity :: "string \<Rightarrow> string \<Rightarrow> auth_db \<Rightarrow> store_error + user_row" where
  "GetUserByIdentity issuer subject db =
     (case find (\<lambda>u. us_disabled_at u = None \<and>
              list_ex (\<lambda>d. id_issuer d = issuer \<and> id_subject d = subject \<and> id_user_id d = us_id u) (user_identities db))
            (users db) of
        None \<Rightarrow> Inl ErrNotFound | Some u \<Rightarrow> Inr u)"

record UserIdentityInsert =
  ii_Issuer :: string
  ii_Subject :: string
  ii_Email :: string

definition CreateUserWithIdentity ::
    "uuid \<Rightarrow> uuid \<Rightarrow> time \<Rightarrow> UserInsert \<Rightarrow> UserIdentityInsert \<Rightarrow> auth_db \<Rightarrow> (store_error + user_row) \<times> auth_db" where
  "CreateUserWithIdentity i iid now ins ident db =
     (case insert_user (new_user i now ins) db of
        (Inl e, _) \<Rightarrow> (Inl e, db)
      | (Inr _, db') \<Rightarrow>
          if list_ex (\<lambda>d. id_id d = iid \<or> (id_issuer d = ii_Issuer ident \<and> id_subject d = ii_Subject ident))
               (user_identities db')
          then (Inl ErrConflict, db)
          else let db'' = db'\<lparr>user_identities := user_identities db' @
                 [\<lparr>id_id = iid, id_user_id = i, id_issuer = ii_Issuer ident, id_subject = ii_Subject ident,
                   id_email = null_if_empty (ii_Email ident), id_created_at = now, id_last_seen_at = now\<rparr>]\<rparr>
               in (GetUser i db'', db''))"

definition TouchUserIdentity :: "uuid \<Rightarrow> string \<Rightarrow> string \<Rightarrow> time \<Rightarrow> auth_db \<Rightarrow> auth_db" where
  "TouchUserIdentity i issuer subject now db =
     db\<lparr>user_identities := update_where (\<lambda>d. id_user_id d = i \<and> id_issuer d = issuer \<and> id_subject d = subject)
                             (\<lambda>d. d\<lparr>id_last_seen_at := now\<rparr>) (user_identities db)\<rparr>"

definition CreateOidcAuthState :: "oidc_row \<Rightarrow> auth_db \<Rightarrow> (store_error + unit) \<times> auth_db" where
  "CreateOidcAuthState ins db =
     (if list_ex (\<lambda>r. os_state r = os_state ins) (oidc_auth_states db) then (Inl ErrAuthStore, db)
      else (Inr (), db\<lparr>oidc_auth_states := oidc_auth_states db @ [ins]\<rparr>))"

definition ConsumeOidcAuthState :: "time \<Rightarrow> string \<Rightarrow> auth_db \<Rightarrow> (store_error + (string \<times> string)) \<times> auth_db" where
  "ConsumeOidcAuthState now state db =
     (case find (\<lambda>r. os_state r = state \<and> os_expires_at r > now) (oidc_auth_states db) of
        None \<Rightarrow> (Inl ErrNotFound, db)
      | Some r \<Rightarrow>
          (Inr (os_code_verifier r, os_nonce r),
           db\<lparr>oidc_auth_states := filter (\<lambda>r. \<not> os_expires_at r \<le> now)
                                    (filter (\<lambda>r. os_state r \<noteq> state) (oidc_auth_states db))\<rparr>))"

section \<open>The schema invariant\<close>

definition db_ok :: "auth_db \<Rightarrow> bool" where
  "db_ok db \<longleftrightarrow>
     distinct (map us_id (users db)) \<and> distinct (map (\<lambda>u. ToLower (us_username u)) (users db)) \<and>
     (\<forall>u\<in>set (users db). us_role u \<in> set valid_roles) \<and>
     distinct (map se_id (sessions db)) \<and> distinct (map se_public_id (sessions db)) \<and>
     se_user_id ` set (sessions db) \<subseteq> us_id ` set (users db) \<and>
     distinct (map tk_id (api_tokens db)) \<and> distinct (map tk_prefix (api_tokens db)) \<and>
     tk_created_by_user_id ` set (api_tokens db) \<subseteq> us_id ` set (users db) \<and>
     (\<forall>t\<in>set (api_tokens db). tk_scopes t \<noteq> []) \<and>
     distinct (map (\<lambda>d. (id_issuer d, id_subject d)) (user_identities db)) \<and>
     id_user_id ` set (user_identities db) \<subseteq> us_id ` set (users db) \<and>
     distinct (map os_state (oidc_auth_states db))"

text \<open>The operations that change the database. The first two are the unguarded ones, which no handler calls.\<close>

datatype db_op =
    OpUpdateUser time uuid UserPatch
  | OpDeleteUser uuid
  | OpUpdateUserGuarded time uuid UserPatch
  | OpDeleteUserGuarded uuid
  | OpRescueAdmin time uuid string
  | OpCreateUser uuid time UserInsert
  | OpCreateUserWithIdentity uuid uuid time UserInsert UserIdentityInsert
  | OpSetUserPassword time uuid string bool
  | OpTouchUserLogin uuid time
  | OpIncrementFailedLogin time uuid int
  | OpResetFailedLogin uuid
  | OpCreateSession uuid SessionInsert
  | OpTouchSession string time time
  | OpDeleteSession string
  | OpDeleteSessionByPublicID uuid
  | OpDeleteSessionsForUser uuid
  | OpCreateAPIToken time APITokenInsert
  | OpTouchToken uuid time
  | OpRevokeAPIToken uuid time
  | OpTouchUserIdentity uuid string string time
  | OpCreateOidcAuthState oidc_row
  | OpConsumeOidcAuthState time string

fun db_apply :: "db_op \<Rightarrow> auth_db \<Rightarrow> auth_db" where
  "db_apply (OpUpdateUser now i p) db = snd (UpdateUser now i p db)"
| "db_apply (OpDeleteUser i) db = snd (DeleteUser i db)"
| "db_apply (OpUpdateUserGuarded now i p) db = snd (UpdateUserGuarded now i p db)"
| "db_apply (OpDeleteUserGuarded i) db = snd (DeleteUserGuarded i db)"
| "db_apply (OpRescueAdmin now i h) db = snd (RescueAdmin now i h db)"
| "db_apply (OpCreateUser i now ins) db = snd (CreateUser i now ins db)"
| "db_apply (OpCreateUserWithIdentity i iid now ins ident) db = snd (CreateUserWithIdentity i iid now ins ident db)"
| "db_apply (OpSetUserPassword now i h m) db = snd (SetUserPassword now i h m db)"
| "db_apply (OpTouchUserLogin i now) db = TouchUserLogin i now db"
| "db_apply (OpIncrementFailedLogin now i th) db = snd (IncrementFailedLogin now i th db)"
| "db_apply (OpResetFailedLogin i) db = snd (ResetFailedLogin i db)"
| "db_apply (OpCreateSession pid ins) db = snd (CreateSession pid ins db)"
| "db_apply (OpTouchSession i now ex) db = TouchSession i now ex db"
| "db_apply (OpDeleteSession i) db = snd (DeleteSession i db)"
| "db_apply (OpDeleteSessionByPublicID i) db = snd (DeleteSessionByPublicID i db)"
| "db_apply (OpDeleteSessionsForUser i) db = DeleteSessionsForUser i db"
| "db_apply (OpCreateAPIToken now ins) db = snd (CreateAPIToken now ins db)"
| "db_apply (OpTouchToken i now) db = TouchToken i now db"
| "db_apply (OpRevokeAPIToken i now) db = snd (RevokeAPIToken i now db)"
| "db_apply (OpTouchUserIdentity i iss sub now) db = TouchUserIdentity i iss sub now db"
| "db_apply (OpCreateOidcAuthState r) db = snd (CreateOidcAuthState r db)"
| "db_apply (OpConsumeOidcAuthState now st) db = snd (ConsumeOidcAuthState now st db)"

fun guarded :: "db_op \<Rightarrow> bool" where
  "guarded (OpUpdateUser _ _ _) = False"
| "guarded (OpDeleteUser _) = False"
| "guarded _ = True"

definition db_run :: "db_op list \<Rightarrow> auth_db \<Rightarrow> auth_db" where
  "db_run ops db = fold db_apply ops db"

lemma update_where_map: "(\<And>r. g (f r) = g r) \<Longrightarrow> map g (update_where P f rows) = map g rows"
  by (simp add: update_where_def)

lemma update_where_image: "(\<And>r. g (f r) = g r) \<Longrightarrow> g ` set (update_where P f rows) = g ` set rows"
  using update_where_map [of g f P rows] by (metis set_map)

lemma update_where_set: "r \<in> set (update_where P f rows) \<Longrightarrow> r \<in> set rows \<or> (\<exists>q\<in>set rows. r = f q)"
  by (auto simp: update_where_def)

lemma distinct_map_filter': "distinct (map g rows) \<Longrightarrow> distinct (map g (filter P rows))"
  by (induction rows) auto

lemma user_exists_iff: "user_exists i db \<longleftrightarrow> i \<in> us_id ` set (users db)"
  by (auto simp: user_exists_def list_ex_iff)

text \<open>An update of user rows that keeps identity and validity keeps the invariant.\<close>

lemma db_ok_update_user:
  assumes "db_ok db" and "\<And>u. us_id (f u) = us_id u" and "\<And>u. us_username (f u) = us_username u"
    and "\<And>u. us_role u \<in> set valid_roles \<Longrightarrow> us_role (f u) \<in> set valid_roles"
  shows "db_ok (update_user i f db)"
  using assms(1) update_where_image [of us_id f "user_with_id i", OF assms(2)]
    update_where_map [of us_id f "user_with_id i", OF assms(2)]
    update_where_map [of "\<lambda>u. ToLower (us_username u)" f "user_with_id i"] assms(3,4)
  by (auto simp: db_ok_def update_user_def dest!: update_where_set)

lemma db_ok_filter_sessions: "db_ok db \<Longrightarrow> db_ok (db\<lparr>sessions := filter P (sessions db)\<rparr>)"
  by (auto simp: db_ok_def distinct_map_filter')

lemma db_ok_sweep: "db_ok db \<Longrightarrow> db_ok (DeleteSessionsForUser i db)" "db_ok db \<Longrightarrow> db_ok (sweep_if_disabled i p db)"
  by (simp_all add: sweep_if_disabled_def DeleteSessionsForUser_def db_ok_filter_sessions)

lemma patch_row_keeps:
  "us_id (patch_row now p u) = us_id u" "us_username (patch_row now p u) = us_username u"
  by (simp_all add: patch_row_def Let_def split: option.splits)

lemma patch_row_role: "us_role (patch_row now p u) = (case up_Role p of Some r \<Rightarrow> r | None \<Rightarrow> us_role u)"
  by (simp add: patch_row_def Let_def split: option.splits)

lemma patch_row_disabled:
  "us_disabled_at (patch_row now p u) =
     (case up_Disabled p of Some d \<Rightarrow> if d then Some now else None | None \<Rightarrow> us_disabled_at u)"
  by (simp add: patch_row_def Let_def split: option.splits)

lemma db_ok_patch: "db_ok db \<Longrightarrow> db_ok (snd (applyUserPatchTx now i p db))"
  by (auto simp: applyUserPatchTx_def patch_row_keeps patch_row_role intro!: db_ok_update_user split: option.splits)

lemma db_ok_insert_user: "db_ok db \<Longrightarrow> us_id u = i \<Longrightarrow> db_ok (snd (insert_user u db))"
  by (auto simp: insert_user_def db_ok_def list_ex_iff)

lemma image_without: "g ` A \<subseteq> h ` B \<Longrightarrow> (\<And>a. a \<in> A \<Longrightarrow> g a \<noteq> i) \<Longrightarrow> g ` A \<subseteq> h ` {b \<in> B. h b \<noteq> i}"
  by fastforce

lemma db_ok_delete_user:
  assumes "db_ok db" shows "db_ok (snd (delete_user_row i db))"
proof -
  have "tk_created_by_user_id ` set (api_tokens db) \<subseteq> us_id ` {u \<in> set (users db). us_id u \<noteq> i}"
    if "\<not> list_ex (\<lambda>t. tk_created_by_user_id t = i) (api_tokens db)"
    using assms that by (intro image_without) (auto simp: db_ok_def list_ex_iff)
  moreover have "se_user_id ` {s \<in> set (sessions db). se_user_id s \<noteq> i} \<subseteq> us_id ` {u \<in> set (users db). us_id u \<noteq> i}"
    "id_user_id ` {s \<in> set (user_identities db). id_user_id s \<noteq> i} \<subseteq> us_id ` {u \<in> set (users db). us_id u \<noteq> i}"
    using assms by (intro image_without; auto simp: db_ok_def)+
  ultimately show ?thesis
    using assms by (auto simp: delete_user_row_def db_ok_def distinct_map_filter')
qed

lemma db_ok_revoked_channel [simp]: "db_ok (db\<lparr>revokedTokens := ch\<rparr>) = db_ok db"
  by (simp add: db_ok_def)

lemma db_ok_tokens_update:
  assumes "db_ok db" and "\<And>t. tk_id (f t) = tk_id t" "\<And>t. tk_prefix (f t) = tk_prefix t"
    "\<And>t. tk_created_by_user_id (f t) = tk_created_by_user_id t" "\<And>t. tk_scopes (f t) = tk_scopes t"
  shows "db_ok (db\<lparr>api_tokens := update_where P f (api_tokens db)\<rparr>)"
  using assms(1) update_where_map [of tk_id f, OF assms(2)] update_where_map [of tk_prefix f, OF assms(3)]
    update_where_image [of tk_created_by_user_id f, OF assms(4)] assms(5)
  by (auto simp: db_ok_def dest!: update_where_set)

lemmas db_op_defs =
  UpdateUser_def DeleteUser_def UpdateUserGuarded_def DeleteUserGuarded_def RescueAdmin_def CreateUser_def
  CreateUserWithIdentity_def SetUserPassword_def TouchUserLogin_def IncrementFailedLogin_def ResetFailedLogin_def
  CreateSession_def TouchSession_def DeleteSession_def DeleteSessionByPublicID_def CreateAPIToken_def TouchToken_def
  RevokeAPIToken_def TouchUserIdentity_def CreateOidcAuthState_def ConsumeOidcAuthState_def

lemma new_user_simps [simp]:
  "us_id (new_user i now ins) = i" "us_role (new_user i now ins) = ui_Role ins"
  "us_disabled_at (new_user i now ins) = None"
  by (simp_all add: new_user_def)

lemma db_ok_apply_user:
  assumes "db_ok db"
  shows "db_ok (snd (UpdateUser now i p db))" "db_ok (snd (UpdateUserGuarded now i p db))"
    "db_ok (snd (DeleteUserGuarded i db))" "db_ok (snd (CreateUser i now ins db))"
    "db_ok (snd (RescueAdmin now i h db))" "db_ok (snd (SetUserPassword now i h m db))"
    "db_ok (TouchUserLogin i now db)" "db_ok (snd (IncrementFailedLogin now i th db))" "db_ok (snd (ResetFailedLogin i db))"
proof -
  note patch = db_ok_patch [OF assms, of now i p]
  show "db_ok (snd (UpdateUser now i p db))"
    using patch by (auto simp: UpdateUser_def Let_def db_ok_sweep split: prod.splits sum.splits)
  show "db_ok (snd (UpdateUserGuarded now i p db))"
    using patch assms by (auto simp: UpdateUserGuarded_def Let_def db_ok_sweep split: prod.splits sum.splits option.splits)
  show "db_ok (snd (DeleteUserGuarded i db))"
    using assms db_ok_delete_user by (auto simp: DeleteUserGuarded_def split: option.splits)
  show "db_ok (snd (CreateUser i now ins db))"
    using db_ok_insert_user [OF assms, of "new_user i now ins" i] by (auto simp: CreateUser_def split: prod.splits sum.splits)
  show "db_ok (snd (RescueAdmin now i h db))"
    using assms by (auto simp: RescueAdmin_def intro!: db_ok_sweep db_ok_update_user)
  show "db_ok (snd (SetUserPassword now i h m db))"
    using assms by (auto simp: SetUserPassword_def intro!: db_ok_sweep db_ok_update_user)
  show "db_ok (TouchUserLogin i now db)" using assms by (auto simp: TouchUserLogin_def intro!: db_ok_update_user)
  show "db_ok (snd (IncrementFailedLogin now i th db))"
    using assms by (auto simp: IncrementFailedLogin_def Let_def intro!: db_ok_update_user split: option.splits)
  show "db_ok (snd (ResetFailedLogin i db))" using assms by (auto simp: ResetFailedLogin_def intro!: db_ok_update_user)
qed

lemma db_ok_apply_session:
  assumes "db_ok db"
  shows "db_ok (snd (CreateSession pid ins db))" "db_ok (TouchSession s now ex db)" "db_ok (snd (DeleteSession s db))"
    "db_ok (snd (DeleteSessionByPublicID q db))"
proof -
  show "db_ok (snd (CreateSession pid ins db))"
    using assms by (auto simp: CreateSession_def db_ok_def list_ex_iff user_exists_iff)
  have "map se_id (update_where (\<lambda>r. se_id r = s) (\<lambda>r. r\<lparr>se_last_used_at := now, se_expires_at := ex\<rparr>) (sessions db)) =
      map se_id (sessions db)"
    "map se_public_id (update_where (\<lambda>r. se_id r = s) (\<lambda>r. r\<lparr>se_last_used_at := now, se_expires_at := ex\<rparr>) (sessions db)) =
      map se_public_id (sessions db)"
    "se_user_id ` set (update_where (\<lambda>r. se_id r = s) (\<lambda>r. r\<lparr>se_last_used_at := now, se_expires_at := ex\<rparr>) (sessions db)) =
      se_user_id ` set (sessions db)"
    by (simp_all add: update_where_map update_where_image)
  with assms show "db_ok (TouchSession s now ex db)" by (simp add: TouchSession_def db_ok_def)
  show "db_ok (snd (DeleteSession s db))" "db_ok (snd (DeleteSessionByPublicID q db))"
    using assms by (auto simp: DeleteSession_def DeleteSessionByPublicID_def db_ok_filter_sessions)
qed

lemma db_ok_apply_token:
  assumes "db_ok db"
  shows "db_ok (snd (CreateAPIToken now ins db))" "db_ok (TouchToken i now db)" "db_ok (snd (RevokeAPIToken i now db))"
proof -
  show "db_ok (snd (CreateAPIToken now ins db))"
    using assms by (auto simp: CreateAPIToken_def Let_def db_ok_def list_ex_iff user_exists_iff)
  show "db_ok (TouchToken i now db)"
    using db_ok_tokens_update [where f = "\<lambda>t. t\<lparr>tk_last_used_at := Some now\<rparr>" and P = "\<lambda>t. tk_id t = i",
        OF assms]
    by (simp add: TouchToken_def)
  show "db_ok (snd (RevokeAPIToken i now db))"
    using assms db_ok_tokens_update [where f = "\<lambda>t. t\<lparr>tk_revoked_at := Some now\<rparr>"
        and P = "\<lambda>t. tk_id t = i \<and> tk_revoked_at t = None", OF assms]
    by (auto simp: RevokeAPIToken_def db_ok_def split: option.splits)
qed

lemma db_ok_apply_oidc:
  assumes "db_ok db"
  shows "db_ok (snd (CreateUserWithIdentity i iid now ins ident db))" "db_ok (TouchUserIdentity i iss sub now db)"
    "db_ok (snd (CreateOidcAuthState r db))" "db_ok (snd (ConsumeOidcAuthState now st db))"
proof -
  obtain res db' where ins: "insert_user (new_user i now ins) db = (res, db')" by fastforce
  have ok: "db_ok db'" using db_ok_insert_user [OF assms, of "new_user i now ins" i] ins by simp
  have "i \<in> us_id ` set (users db')" if "res = Inr ()"
    using ins that by (auto simp: insert_user_def split: if_splits)
  with ok ins assms show "db_ok (snd (CreateUserWithIdentity i iid now ins ident db))"
    by (auto simp: CreateUserWithIdentity_def Let_def db_ok_def list_ex_iff split: sum.splits)
  have "map (\<lambda>d. (id_issuer d, id_subject d)) (update_where P (\<lambda>d. d\<lparr>id_last_seen_at := now\<rparr>) (user_identities db)) =
      map (\<lambda>d. (id_issuer d, id_subject d)) (user_identities db)"
    "id_user_id ` set (update_where P (\<lambda>d. d\<lparr>id_last_seen_at := now\<rparr>) (user_identities db)) =
      id_user_id ` set (user_identities db)" for P
    by (simp_all add: update_where_map update_where_image)
  with assms show "db_ok (TouchUserIdentity i iss sub now db)" by (simp add: TouchUserIdentity_def db_ok_def)
  show "db_ok (snd (CreateOidcAuthState r db))" "db_ok (snd (ConsumeOidcAuthState now st db))"
    using assms
    by (auto simp: CreateOidcAuthState_def ConsumeOidcAuthState_def db_ok_def list_ex_iff distinct_map_filter'
        split: option.splits)
qed

lemma db_ok_apply: "db_ok db \<Longrightarrow> db_ok (db_apply op db)"
  by (cases op)
    (simp_all add: db_ok_apply_user db_ok_apply_session db_ok_apply_token db_ok_apply_oidc db_ok_sweep
      DeleteUser_def db_ok_delete_user)

lemma db_run_induct:
  assumes "P db" and "\<And>op db. op \<in> set ops \<Longrightarrow> P db \<Longrightarrow> P (db_apply op db)"
  shows "P (db_run ops db)"
  using assms unfolding db_run_def by (induction ops arbitrary: db) auto

section \<open>The last admin\<close>

text \<open>Whether an operation keeps some active admin: it does when the admin's row stays or stays active.\<close>

definition has_admin :: "auth_db \<Rightarrow> bool" where
  "has_admin db \<longleftrightarrow> (\<exists>u\<in>set (users db). active_admin u)"

lemma has_admin_count: "has_admin db \<longleftrightarrow> 0 < CountActiveAdmins db"
  by (auto simp: has_admin_def CountActiveAdmins_def filter_empty_conv)

lemma update_where_mem: "r \<in> set rows \<Longrightarrow> (if P r then f r else r) \<in> set (update_where P f rows)"
  by (auto simp: update_where_def)

lemma has_admin_update_user:
  assumes "has_admin db" and "\<And>u. active_admin u \<Longrightarrow> active_admin (f u)"
  shows "has_admin (update_user i f db)"
proof -
  obtain u where u: "u \<in> set (users db)" "active_admin u" using assms(1) by (auto simp: has_admin_def)
  then have "active_admin (if user_with_id i u then f u else u)" using assms(2) by simp
  with update_where_mem [OF u(1), of "user_with_id i" f] show ?thesis by (auto simp: has_admin_def update_user_def)
qed

lemma has_admin_other:
  assumes "0 < other_admins i db"
  shows "has_admin (update_user i f db)" "has_admin (snd (delete_user_row i db))"
proof -
  obtain u where u: "u \<in> set (users db)" "active_admin u" "us_id u \<noteq> i"
    using assms by (auto simp: other_admins_def filter_empty_conv)
  with update_where_mem [OF u(1), of "user_with_id i" f] show "has_admin (update_user i f db)"
    by (auto simp: has_admin_def update_user_def)
  from u show "has_admin (snd (delete_user_row i db))" by (auto simp: has_admin_def delete_user_row_def)
qed

lemma has_admin_sessions [simp]: "has_admin (sweep_if_disabled i p db) = has_admin db"
  "has_admin (DeleteSessionsForUser i db) = has_admin db"
  by (simp_all add: has_admin_def sweep_if_disabled_def DeleteSessionsForUser_def)

lemma users_frame:
  "users (snd (CreateSession pid ins db)) = users db" "users (TouchSession s now ex db) = users db"
  "users (snd (DeleteSession s db)) = users db" "users (snd (DeleteSessionByPublicID q db)) = users db"
  "users (snd (CreateAPIToken now' tins db)) = users db" "users (TouchToken i now db) = users db"
  "users (snd (RevokeAPIToken i now db)) = users db" "users (TouchUserIdentity i iss sub now db) = users db"
  "users (snd (CreateOidcAuthState r db)) = users db" "users (snd (ConsumeOidcAuthState now st db)) = users db"
  by (auto simp: CreateSession_def TouchSession_def DeleteSession_def DeleteSessionByPublicID_def CreateAPIToken_def
      TouchToken_def RevokeAPIToken_def TouchUserIdentity_def CreateOidcAuthState_def ConsumeOidcAuthState_def Let_def
      split: option.splits)

lemma find_by_id: "find (user_with_id i) (users db) = Some u \<Longrightarrow> u \<in> set (users db) \<and> us_id u = i"
  by (auto simp: find_Some_iff)

lemma sole_admin:
  assumes "db_ok db" "has_admin db" "other_admins i db = 0" "find (user_with_id i) (users db) = Some u"
  shows "active_admin u"
proof -
  obtain v where v: "v \<in> set (users db)" "active_admin v" using assms(2) by (auto simp: has_admin_def)
  with assms(3) have "us_id v = i" by (auto simp: other_admins_def filter_empty_conv)
  moreover have "u \<in> set (users db)" "us_id u = i" using find_by_id [OF assms(4)] by auto
  ultimately have "v = u" using assms(1) v(1) by (auto simp: db_ok_def distinct_map inj_on_def)
  with v show ?thesis by simp
qed

lemma has_admin_update_guarded:
  assumes "db_ok db" "has_admin db"
  shows "has_admin (snd (UpdateUserGuarded now i p db))"
proof (cases "find (user_with_id i) (users db)")
  case None
  with assms show ?thesis by (simp add: UpdateUserGuarded_def)
next
  case (Some u)
  consider "0 < other_admins i db" | "other_admins i db = 0" by blast
  then show ?thesis
  proof cases
    case 1
    with assms has_admin_other(1) show ?thesis
      by (auto simp: UpdateUserGuarded_def applyUserPatchTx_def Let_def split: prod.splits sum.splits option.splits)
  next
    case 2
    have "active_admin u" using assms 2 Some by (rule sole_admin)
    show ?thesis
    proof (cases "(case up_Role p of Some r \<Rightarrow> r \<noteq> ''admin'' | None \<Rightarrow> False) \<or> up_Disabled p = Some True")
      case True
      with Some 2 \<open>active_admin u\<close> assms(2) show ?thesis by (simp add: UpdateUserGuarded_def Let_def active_admin_def)
    next
      case False
      then have "active_admin w \<Longrightarrow> active_admin (patch_row now p w)" for w
        by (auto simp: active_admin_def patch_row_role patch_row_disabled split: option.splits bool.splits)
      with assms(2) Some show ?thesis
        by (auto simp: UpdateUserGuarded_def applyUserPatchTx_def Let_def intro!: has_admin_update_user
            split: prod.splits sum.splits)
    qed
  qed
qed

lemma has_admin_delete_guarded:
  assumes "db_ok db" "has_admin db"
  shows "has_admin (snd (DeleteUserGuarded i db))"
proof (cases "find (user_with_id i) (users db)")
  case (Some u)
  show ?thesis
  proof (cases "0 < other_admins i db")
    case True
    with Some assms has_admin_other(2) show ?thesis by (simp add: DeleteUserGuarded_def)
  next
    case False
    with sole_admin [OF assms _ Some] Some assms(2) show ?thesis
      by (simp add: DeleteUserGuarded_def active_admin_def)
  qed
qed (use assms in \<open>simp add: DeleteUserGuarded_def\<close>)

lemma has_admin_frame: "users db' = users db \<Longrightarrow> has_admin db' = has_admin db"
  by (simp add: has_admin_def)

lemma has_admin_insert: "has_admin db \<Longrightarrow> has_admin (snd (insert_user u db))"
  by (auto simp: has_admin_def insert_user_def)

lemma has_admin_apply:
  assumes "db_ok db" "has_admin db" "guarded op"
  shows "has_admin (db_apply op db)"
proof (cases op)
  case (OpRescueAdmin now i h)
  with assms(2) show ?thesis by (auto simp: RescueAdmin_def active_admin_def intro!: has_admin_update_user)
next
  case (OpSetUserPassword now i h m)
  with assms(2) show ?thesis by (auto simp: SetUserPassword_def active_admin_def intro!: has_admin_update_user)
next
  case (OpTouchUserLogin i now)
  with assms(2) show ?thesis by (auto simp: TouchUserLogin_def active_admin_def intro!: has_admin_update_user)
next
  case (OpIncrementFailedLogin now i th)
  with assms(2) show ?thesis
    by (auto simp: IncrementFailedLogin_def active_admin_def Let_def intro!: has_admin_update_user split: option.splits)
next
  case (OpResetFailedLogin i)
  with assms(2) show ?thesis by (auto simp: ResetFailedLogin_def active_admin_def intro!: has_admin_update_user)
next
  case (OpCreateUser i now ins)
  with assms(2) has_admin_insert [OF assms(2), of "new_user i now ins"] show ?thesis
    by (auto simp: CreateUser_def split: prod.splits sum.splits)
next
  case (OpCreateUserWithIdentity i iid now ins ident)
  obtain res db' where ins: "insert_user (new_user i now ins) db = (res, db')" by fastforce
  then have "has_admin db'" using has_admin_insert [OF assms(2), of "new_user i now ins"] by simp
  then have "has_admin (db'\<lparr>user_identities := x\<rparr>)" for x by (simp add: has_admin_def)
  with OpCreateUserWithIdentity assms(2) ins show ?thesis
    by (auto simp: CreateUserWithIdentity_def Let_def split: sum.splits)
qed (use assms has_admin_update_guarded has_admin_delete_guarded in \<open>auto simp: has_admin_frame [OF users_frame(1)]
       has_admin_frame [OF users_frame(2)] has_admin_frame [OF users_frame(3)] has_admin_frame [OF users_frame(4)]
       has_admin_frame [OF users_frame(5)] has_admin_frame [OF users_frame(6)] has_admin_frame [OF users_frame(7)]
       has_admin_frame [OF users_frame(8)] has_admin_frame [OF users_frame(9)] has_admin_frame [OF users_frame(10)]\<close>)

section \<open>Tokens and pending logins over time\<close>

lemma insert_user_frame:
  "api_tokens (snd (insert_user u db)) = api_tokens db" "oidc_auth_states (snd (insert_user u db)) = oidc_auth_states db"
  by (simp_all add: insert_user_def)

lemma user_ops_frame [simp]:
  "api_tokens (update_user i f db) = api_tokens db" "oidc_auth_states (update_user i f db) = oidc_auth_states db"
  "api_tokens (DeleteSessionsForUser i db) = api_tokens db"
  "oidc_auth_states (DeleteSessionsForUser i db) = oidc_auth_states db"
  "api_tokens (sweep_if_disabled i p db) = api_tokens db"
  "oidc_auth_states (sweep_if_disabled i p db) = oidc_auth_states db"
  "api_tokens (snd (applyUserPatchTx now i p db)) = api_tokens db"
  "oidc_auth_states (snd (applyUserPatchTx now i p db)) = oidc_auth_states db"
  "api_tokens (snd (delete_user_row i db)) = api_tokens db"
  "oidc_auth_states (snd (delete_user_row i db)) = oidc_auth_states db"
  by (simp_all add: update_user_def DeleteSessionsForUser_def sweep_if_disabled_def applyUserPatchTx_def delete_user_row_def)

lemma patch_ops_frame [simp]:
  "api_tokens (snd (UpdateUser now i p db)) = api_tokens db"
  "oidc_auth_states (snd (UpdateUser now i p db)) = oidc_auth_states db"
  "api_tokens (snd (UpdateUserGuarded now i p db)) = api_tokens db"
  "oidc_auth_states (snd (UpdateUserGuarded now i p db)) = oidc_auth_states db"
proof -
  obtain res db' where ap: "applyUserPatchTx now i p db = (res, db')" by fastforce
  then have "api_tokens db' = api_tokens db" "oidc_auth_states db' = oidc_auth_states db"
    using user_ops_frame(7,8) [of now i p db] by simp_all
  with ap show "api_tokens (snd (UpdateUser now i p db)) = api_tokens db"
    "oidc_auth_states (snd (UpdateUser now i p db)) = oidc_auth_states db"
    "api_tokens (snd (UpdateUserGuarded now i p db)) = api_tokens db"
    "oidc_auth_states (snd (UpdateUserGuarded now i p db)) = oidc_auth_states db"
    by (auto simp: UpdateUser_def UpdateUserGuarded_def Let_def split: sum.splits option.splits)
qed

lemma create_ops_frame [simp]:
  "api_tokens (snd (CreateUser i now ins db)) = api_tokens db"
  "oidc_auth_states (snd (CreateUser i now ins db)) = oidc_auth_states db"
  "api_tokens (snd (CreateUserWithIdentity i iid now ins ident db)) = api_tokens db"
  "oidc_auth_states (snd (CreateUserWithIdentity i iid now ins ident db)) = oidc_auth_states db"
  using insert_user_frame [of "new_user i now ins" db]
  by (auto simp: CreateUser_def CreateUserWithIdentity_def Let_def split: prod.splits sum.splits)

lemmas small_op_defs =
  DeleteUser_def DeleteUserGuarded_def RescueAdmin_def SetUserPassword_def TouchUserLogin_def IncrementFailedLogin_def
  ResetFailedLogin_def CreateSession_def TouchSession_def DeleteSession_def DeleteSessionByPublicID_def
  TouchUserIdentity_def

text \<open>A token row survives every operation, keeps its identity and creator, and stays revoked.\<close>

lemma token_row_persists:
  assumes "t \<in> set (api_tokens db)"
  shows "\<exists>t'\<in>set (api_tokens (db_apply op db)). tk_id t' = tk_id t \<and>
    tk_created_by_user_id t' = tk_created_by_user_id t \<and> (tk_revoked_at t \<noteq> None \<longrightarrow> tk_revoked_at t' \<noteq> None)"
proof (cases op)
  case (OpCreateAPIToken now ins)
  with assms show ?thesis by (auto simp: CreateAPIToken_def Let_def)
next
  case (OpTouchToken i now)
  with update_where_mem [OF assms, of "\<lambda>t. tk_id t = i" "\<lambda>t. t\<lparr>tk_last_used_at := Some now\<rparr>"] show ?thesis
    by (intro bexI [of _ "if tk_id t = i then t\<lparr>tk_last_used_at := Some now\<rparr> else t"]) (auto simp: TouchToken_def)
next
  case (OpRevokeAPIToken i now)
  let ?P = "\<lambda>t. tk_id t = i \<and> tk_revoked_at t = None"
  let ?f = "\<lambda>t. t\<lparr>tk_revoked_at := Some now\<rparr>"
  have "api_tokens (db_apply op db) \<in> {api_tokens db, update_where ?P ?f (api_tokens db)}"
    using OpRevokeAPIToken by (auto simp: RevokeAPIToken_def split: option.splits)
  then consider "t \<in> set (api_tokens (db_apply op db))" | "(if ?P t then ?f t else t) \<in> set (api_tokens (db_apply op db))"
    using assms update_where_mem [OF assms, of ?P ?f] by auto
  then show ?thesis
  proof cases
    case 2
    then show ?thesis by (rule bexI [rotated]) simp
  qed blast
qed (use assms in \<open>auto simp: small_op_defs CreateOidcAuthState_def ConsumeOidcAuthState_def Let_def split: option.splits\<close>)

lemma revoked_forever:
  assumes "\<exists>t\<in>set (api_tokens db). tk_id t = i \<and> tk_revoked_at t \<noteq> None"
  shows "\<exists>t\<in>set (api_tokens (db_run ops db)). tk_id t = i \<and> tk_revoked_at t \<noteq> None"
  using assms by (rule db_run_induct) (metis token_row_persists)

lemma token_owner_forever:
  assumes "\<exists>t\<in>set (api_tokens db). tk_created_by_user_id t = i"
  shows "\<exists>t\<in>set (api_tokens (db_run ops db)). tk_created_by_user_id t = i"
  using assms by (rule db_run_induct) (metis token_row_persists)

lemma db_ok_run: "db_ok db \<Longrightarrow> db_ok (db_run ops db)"
  by (erule db_run_induct) (rule db_ok_apply)

lemma revoke_marks:
  assumes "RevokeAPIToken i now db = (Inr (), db')"
  shows "\<exists>t\<in>set (api_tokens db'). tk_id t = i \<and> tk_revoked_at t \<noteq> None"
proof (cases "find (\<lambda>t. tk_id t = i \<and> tk_revoked_at t = None) (api_tokens db)")
  case None
  with assms show ?thesis by (auto simp: RevokeAPIToken_def list_ex_iff find_None_iff split: if_splits)
next
  case (Some t)
  then have t: "t \<in> set (api_tokens db)" "tk_id t = i" "tk_revoked_at t = None" by (auto simp: find_Some_iff)
  from update_where_mem [OF t(1), of "\<lambda>t. tk_id t = i \<and> tk_revoked_at t = None" "\<lambda>t. t\<lparr>tk_revoked_at := Some now\<rparr>"]
  show ?thesis using assms Some t 
    by (intro bexI [of _ "t\<lparr>tk_revoked_at := Some now\<rparr>"]) (auto simp: RevokeAPIToken_def)
qed

lemma active_token_row:
  assumes "GetActiveTokenByPrefix now pfx db = Inr tok"
  shows "\<exists>t\<in>set (api_tokens db). tk_prefix t = pfx \<and> token_live now t \<and> tk_id t = at_ID tok \<and>
    tk_hash t = at_Hash tok \<and> tk_scopes t = at_Scopes tok \<and> tk_created_by_user_id t = at_CreatedByUserID tok \<and>
    tk_bound_cloud_account_id t = at_BoundCloudAccountID tok"
  using assms by (auto simp: GetActiveTokenByPrefix_def find_Some_iff split: option.splits)

text \<open>A consumed OIDC state is gone until it is created again.\<close>

lemma oidc_absent_step:
  assumes "\<not> list_ex (\<lambda>r. os_state r = st) (oidc_auth_states db)"
    and "\<And>r. op = OpCreateOidcAuthState r \<Longrightarrow> os_state r \<noteq> st"
  shows "\<not> list_ex (\<lambda>r. os_state r = st) (oidc_auth_states (db_apply op db))"
proof (cases op)
  case (OpCreateAPIToken now ins)
  with assms show ?thesis by (auto simp: CreateAPIToken_def Let_def)
next
  case (OpConsumeOidcAuthState now st')
  with assms show ?thesis by (auto simp: ConsumeOidcAuthState_def list_ex_iff split: option.splits)
qed (use assms in \<open>auto simp: small_op_defs TouchToken_def RevokeAPIToken_def CreateOidcAuthState_def Let_def list_ex_iff
    split: option.splits\<close>)

section \<open>Properties\<close>

definition admin_row :: "uuid \<Rightarrow> string \<Rightarrow> user_row" where
  "admin_row i name =
     new_user i 1 \<lparr>ui_Username = name, ui_PasswordHash = ''h'', ui_Role = ''admin'', ui_MustChangePassword = False\<rparr>"

definition sample_db :: auth_db where
  "sample_db =
     \<lparr>users = [admin_row 1 ''root'', admin_row 2 ''Ann''], user_identities = [], sessions = [],
      api_tokens = [\<lparr>tk_id = 7, tk_name = ''ci'', tk_prefix = ''aaaaaaaa'', tk_hash = ''x'', tk_scopes = [''read''],
        tk_created_by_user_id = 2, tk_created_at = 1, tk_last_used_at = None, tk_expires_at = None,
        tk_revoked_at = None, tk_bound_cloud_account_id = None\<rparr>],
      oidc_auth_states = [\<lparr>os_state = ''s'', os_code_verifier = ''v'', os_nonce = ''n'', os_created_at = 1, os_expires_at = 9\<rparr>],
      cloud_account_ids = [], revokedTokens = []\<rparr>"

lemma sample_db_ok: "db_ok sample_db"
  by (simp add: db_ok_def sample_db_def admin_row_def new_user_def valid_roles_def ToLower_def lower_char_def)



text \<open>C3: Auth store, the last admin. From a database with an active admin, no sequence of the operations the handlers
  use (the guarded update and delete, lock-outs, password changes, new users, ...) ever reaches a database without
  one.\<close>

theorem last_admin_kept:
  assumes "db_ok db" and "0 < CountActiveAdmins db" and "list_all guarded ops"
  shows "0 < CountActiveAdmins (db_run ops db)"
proof -
  have "db_ok (db_run ops db) \<and> has_admin (db_run ops db)"
  proof (rule db_run_induct [where P = "\<lambda>db. db_ok db \<and> has_admin db"])
    show "db_ok db \<and> has_admin db" using assms by (simp add: has_admin_count)
    fix op db' assume "op \<in> set ops" and "db_ok db' \<and> has_admin db'"
    with assms(3) show "db_ok (db_apply op db') \<and> has_admin (db_apply op db')"
      using db_ok_apply has_admin_apply by (auto simp: list_all_iff)
  qed
  then show ?thesis by (simp add: has_admin_count)
qed

theorem last_admin_kept_witness:
  "0 < CountActiveAdmins (db_run [OpDeleteUserGuarded 1,
      OpUpdateUserGuarded 4 2 \<lparr>up_Role = Some ''viewer'', up_MustChangePassword = None, up_Disabled = None, up_Unlock = None\<rparr>]
      sample_db)"
  by (rule last_admin_kept [OF sample_db_ok])
    (simp_all add: sample_db_def admin_row_def CountActiveAdmins_def active_admin_def)

text \<open>Auth store, revocation is final. After a successful \<^verbatim>\<open>RevokeAPIToken\<close>, whatever operations follow and whatever
  the time, no prefix looks up that token as active again.\<close>

theorem revoked_token_never_active:
  assumes "db_ok db" and "RevokeAPIToken i now db = (Inr (), db')"
    and "GetActiveTokenByPrefix later pfx (db_run ops db') = Inr tok"
  shows "at_ID tok \<noteq> i"
proof
  assume i: "at_ID tok = i"
  have ok: "db_ok (db_run ops db')"
    using db_ok_run db_ok_apply_token(3) [OF assms(1), of i now] assms(2) by simp
  obtain t where t: "t \<in> set (api_tokens (db_run ops db'))" "tk_id t = i" "token_live later t"
    using active_token_row [OF assms(3)] i by auto
  obtain r where r: "r \<in> set (api_tokens (db_run ops db'))" "tk_id r = i" "tk_revoked_at r \<noteq> None"
    using revoked_forever [OF revoke_marks [OF assms(2)]] by blast
  have "t = r" using ok t r by (auto simp: db_ok_def distinct_map inj_on_def)
  with t r show False by (simp add: token_live_def)
qed

definition sample_db_two :: auth_db where
  "sample_db_two = sample_db\<lparr>api_tokens := api_tokens sample_db @
     [(hd (api_tokens sample_db))\<lparr>tk_id := 8, tk_prefix := ''bbbbbbbb''\<rparr>]\<rparr>"

theorem revoked_token_never_active_witness:
  "\<exists>tok. GetActiveTokenByPrefix 9 ''bbbbbbbb'' (db_run [OpTouchToken 7 5] (snd (RevokeAPIToken 7 4 sample_db_two))) = Inr tok \<and>
     at_ID tok \<noteq> 7"
proof -
  have ok: "db_ok sample_db_two" by (simp add: sample_db_two_def db_ok_def sample_db_def admin_row_def new_user_def
      valid_roles_def ToLower_def lower_char_def)
  have rev: "RevokeAPIToken 7 4 sample_db_two = (Inr (), snd (RevokeAPIToken 7 4 sample_db_two))"
    by (simp add: RevokeAPIToken_def sample_db_two_def sample_db_def)
  obtain tok where tok: "GetActiveTokenByPrefix 9 ''bbbbbbbb''
      (db_run [OpTouchToken 7 5] (snd (RevokeAPIToken 7 4 sample_db_two))) = Inr tok"
    by (simp add: RevokeAPIToken_def sample_db_two_def sample_db_def db_run_def TouchToken_def update_where_def
        GetActiveTokenByPrefix_def token_live_def)
  with revoked_token_never_active [OF ok rev tok] show ?thesis by blast
qed

text \<open>Auth store, OIDC states are single use. A state that was consumed cannot be consumed again after any
  operations that do not create that very state anew.\<close>

theorem oidc_state_single_use:
  assumes "ConsumeOidcAuthState now st db = (Inr r, db')"
    and "list_all (\<lambda>op. case op of OpCreateOidcAuthState x \<Rightarrow> os_state x \<noteq> st | _ \<Rightarrow> True) ops"
  shows "fst (ConsumeOidcAuthState later st (db_run ops db')) = Inl ErrNotFound"
proof -
  have "\<not> list_ex (\<lambda>x. os_state x = st) (oidc_auth_states (db_run ops db'))"
  proof (rule db_run_induct [where P = "\<lambda>d :: auth_db. \<not> list_ex (\<lambda>x. os_state x = st) (oidc_auth_states d)"])
    show "\<not> list_ex (\<lambda>x. os_state x = st) (oidc_auth_states db')"
      using assms(1) by (auto simp: ConsumeOidcAuthState_def list_ex_iff split: option.splits)
    fix op and d :: auth_db
    assume "op \<in> set ops" and "\<not> list_ex (\<lambda>x. os_state x = st) (oidc_auth_states d)"
    with assms(2) show "\<not> list_ex (\<lambda>x. os_state x = st) (oidc_auth_states (db_apply op d))"
      by (intro oidc_absent_step) (auto simp: list_all_iff)
  qed
  then show ?thesis by (auto simp: ConsumeOidcAuthState_def list_ex_iff find_Some_iff split: option.splits)
qed

theorem oidc_state_single_use_witness:
  "fst (ConsumeOidcAuthState 3 ''s'' sample_db) = Inr (''v'', ''n'') \<and>
   fst (ConsumeOidcAuthState 4 ''s'' (db_run [OpTouchToken 7 5] (snd (ConsumeOidcAuthState 3 ''s'' sample_db)))) = Inl ErrNotFound"
proof -
  have c: "ConsumeOidcAuthState 3 ''s'' sample_db = (Inr (''v'', ''n''), snd (ConsumeOidcAuthState 3 ''s'' sample_db))"
    by (simp add: ConsumeOidcAuthState_def sample_db_def)
  have "fst (ConsumeOidcAuthState 3 ''s'' sample_db) = Inr (''v'', ''n'')" using c by (metis fst_conv)
  with oidc_state_single_use [OF c, of "[OpTouchToken 7 5]" 4] show ?thesis by simp
qed

text \<open>Auth store, a defect in user deletion. Once a user has minted an API token, no operation ever makes that user
  deletable again: revoking the token keeps its row, and the foreign key refuses the delete for every row. The message
  and the comments (\<^verbatim>\<open>user owns active api tokens - revoke them first\<close>) promise that revoking is enough.\<close>

theorem token_creator_never_deletable:
  assumes "t \<in> set (api_tokens db)" and "tk_created_by_user_id t = i"
  shows "\<exists>e. fst (DeleteUserGuarded i (db_run ops db)) = Inl e \<and>
    users (snd (DeleteUserGuarded i (db_run ops db))) = users (db_run ops db)"
proof -
  obtain t' where "t' \<in> set (api_tokens (db_run ops db))" "tk_created_by_user_id t' = i"
    using token_owner_forever [of db i ops] assms by blast
  then have "list_ex (\<lambda>t. tk_created_by_user_id t = i) (api_tokens (db_run ops db))" by (auto simp: list_ex_iff)
  then show ?thesis by (auto simp: DeleteUserGuarded_def delete_user_row_def split: option.splits)
qed

theorem token_creator_never_deletable_witness:
  "fst (RevokeAPIToken 7 5 sample_db) = Inr () \<and>
   (\<exists>e. fst (DeleteUserGuarded 2 (db_run [OpRevokeAPIToken 7 5] sample_db)) = Inl e)"
proof -
  have "fst (RevokeAPIToken 7 5 sample_db) = Inr ()" by (simp add: RevokeAPIToken_def sample_db_def)
  moreover have "hd (api_tokens sample_db) \<in> set (api_tokens sample_db)"
    "tk_created_by_user_id (hd (api_tokens sample_db)) = 2" by (simp_all add: sample_db_def)
  ultimately show ?thesis using token_creator_never_deletable [of _ sample_db 2 "[OpRevokeAPIToken 7 5]"] by blast
qed

end
