(* ===== verification/Http_Util.thy ===== *)
theory Http_Util
  imports Prelude
begin

text \<open>
  Trust in proxy headers: \<^verbatim>\<open>internal/httputil/httputil.go\<close>. Address parsing is Go's \<^verbatim>\<open>net\<close> package and comes in
  as arguments: \<open>parseIP\<close> (\<^verbatim>\<open>net.ParseIP\<close>), \<open>splitHostPort\<close> (\<^verbatim>\<open>net.SplitHostPort\<close>, the host), \<open>parseCIDR\<close>; a network
  is the predicate its \<^verbatim>\<open>Contains\<close> computes. Result: a client cannot choose the address that is recorded for
  it, and the forwarded protocol counts only from a trusted peer.
\<close>

type_synonym 'ip ipnet = "'ip \<Rightarrow> bool"

record proxy_request =
  pr_RemoteAddr :: string
  pr_XForwardedFor :: string
  pr_XForwardedProto :: string
  pr_TLS :: bool

text \<open>The loop of \<^verbatim>\<open>ParseTrustedProxies\<close>; \<open>Inl\<close> carries the offending value.\<close>

fun parse_cidrs :: "(string \<Rightarrow> 'ip ipnet option) \<Rightarrow> string list \<Rightarrow> string + 'ip ipnet list" where
  "parse_cidrs parseCIDR [] = Inr []"
| "parse_cidrs parseCIDR (raw # rest) =
     (let s = TrimSpace raw in
      if s = '''' then parse_cidrs parseCIDR rest
      else case parseCIDR s of
             None \<Rightarrow> Inl s
           | Some n \<Rightarrow> and_then (parse_cidrs parseCIDR rest) (\<lambda>ns. Inr (n # ns)))"

definition ParseTrustedProxies :: "(string \<Rightarrow> 'ip ipnet option) \<Rightarrow> string \<Rightarrow> string + 'ip ipnet list" where
  "ParseTrustedProxies parseCIDR csv =
     (if TrimSpace csv = '''' then Inr [] else parse_cidrs parseCIDR (Split csv (CHR '','')))"

definition inAny :: "'ip option \<Rightarrow> 'ip ipnet list \<Rightarrow> bool" where
  "inAny ip nets = (case ip of None \<Rightarrow> False | Some a \<Rightarrow> list_ex (\<lambda>n. n a) nets)"

definition remoteIP :: "(string \<Rightarrow> string option) \<Rightarrow> (string \<Rightarrow> 'ip option) \<Rightarrow> string \<Rightarrow> 'ip option" where
  "remoteIP splitHostPort parseIP remoteAddr =
     (if remoteAddr = '''' then None
      else case splitHostPort remoteAddr of
             Some host \<Rightarrow> parseIP host
           | None \<Rightarrow> parseIP remoteAddr)"

text \<open>The right-to-left walk of \<^verbatim>\<open>ClientIP\<close> over the reversed parts, with the leftmost address seen so far.\<close>

fun xff_walk :: "(string \<Rightarrow> 'ip option) \<Rightarrow> 'ip ipnet list \<Rightarrow> string list \<Rightarrow> 'ip option \<Rightarrow> 'ip option \<Rightarrow> 'ip option" where
  "xff_walk parseIP trusted [] leftmost peer = (case leftmost of Some a \<Rightarrow> Some a | None \<Rightarrow> peer)"
| "xff_walk parseIP trusted (part # parts) leftmost peer =
     (case parseIP (TrimSpace part) of
        None \<Rightarrow> xff_walk parseIP trusted parts leftmost peer
      | Some ip \<Rightarrow>
          if \<not> inAny (Some ip) trusted then Some ip
          else xff_walk parseIP trusted parts (Some ip) peer)"

definition ClientIP ::
    "(string \<Rightarrow> string option) \<Rightarrow> (string \<Rightarrow> 'ip option) \<Rightarrow> proxy_request \<Rightarrow> 'ip ipnet list \<Rightarrow> 'ip option" where
  "ClientIP splitHostPort parseIP r trusted =
     (let peer = remoteIP splitHostPort parseIP (pr_RemoteAddr r) in
      if \<not> inAny peer trusted then peer
      else if pr_XForwardedFor r = '''' then peer
      else xff_walk parseIP trusted (rev (Split (pr_XForwardedFor r) (CHR '',''))) None peer)"

definition IsHTTPS ::
    "(string \<Rightarrow> string option) \<Rightarrow> (string \<Rightarrow> 'ip option) \<Rightarrow> proxy_request \<Rightarrow> 'ip ipnet list \<Rightarrow> bool" where
  "IsHTTPS splitHostPort parseIP r trusted =
     (if pr_TLS r then True
      else if pr_XForwardedProto r \<noteq> ''https'' then False
      else inAny (remoteIP splitHostPort parseIP (pr_RemoteAddr r)) trusted)"

section \<open>Lemmas\<close>

lemma Split_append_sep: "Split (a @ c # b) c = Split a c @ Split b c"
proof (induction a)
  case (Cons x a)
  obtain p ps where "Split a c = p # ps" using Split_nonempty list.exhaust by metis
  with Cons show ?case by auto
qed simp

lemma xff_walk_stops:
  assumes "\<exists>p\<in>set parts. \<exists>ip. parseIP (TrimSpace p) = Some ip \<and> \<not> inAny (Some ip) trusted"
  shows "xff_walk parseIP trusted (parts @ prepended) l peer = xff_walk parseIP trusted parts l' peer'"
  using assms
proof (induction parts arbitrary: l l')
  case (Cons p parts)
  then show ?case by (auto split: option.splits)
qed simp

lemma xff_walk_untrusted:
  assumes "xff_walk parseIP trusted parts l peer = Some ip" and "\<not> inAny (Some ip) trusted"
    and "\<And>a. l = Some a \<Longrightarrow> inAny (Some a) trusted" and "inAny peer trusted"
  shows "\<exists>p\<in>set parts. parseIP (TrimSpace p) = Some ip"
  using assms
proof (induction parts arbitrary: l)
  case (Cons p parts)
  show ?case
  proof (cases "parseIP (TrimSpace p)")
    case None
    with Cons show ?thesis by auto
  next
    case (Some a)
    with Cons.prems Cons.IH [of "Some a"] show ?thesis by (auto split: if_splits)
  qed
qed (auto split: option.splits)

section \<open>Properties\<close>

text \<open>Proxy headers. A request from a peer outside the trusted list has the address of that peer, whatever headers
  it sends, and is HTTPS only by its own TLS. Behind a trusted peer, once the part of \<^verbatim>\<open>X-Forwarded-For\<close> that the
  proxies appended names an untrusted address, nothing a client prepends changes the answer.\<close>

theorem client_ip_not_forgeable:
  "(\<not> inAny (remoteIP sp ip (pr_RemoteAddr r)) trusted \<longrightarrow>
     ClientIP sp ip r trusted = remoteIP sp ip (pr_RemoteAddr r) \<and> IsHTTPS sp ip r trusted = pr_TLS r) \<and>
   (list_ex (\<lambda>p. ip (TrimSpace p) \<noteq> None \<and> \<not> inAny (ip (TrimSpace p)) trusted) (Split appended (CHR '','')) \<and> appended \<noteq> '''' \<longrightarrow>
     ClientIP sp ip (r\<lparr>pr_XForwardedFor := forged @ '','' @ appended\<rparr>) trusted =
     ClientIP sp ip (r\<lparr>pr_XForwardedFor := appended\<rparr>) trusted)"
proof (intro conjI impI)
  show "ClientIP sp ip r trusted = remoteIP sp ip (pr_RemoteAddr r)" "IsHTTPS sp ip r trusted = pr_TLS r"
    if "\<not> inAny (remoteIP sp ip (pr_RemoteAddr r)) trusted"
    using that by (simp_all add: ClientIP_def IsHTTPS_def Let_def)
  assume *: "list_ex (\<lambda>p. ip (TrimSpace p) \<noteq> None \<and> \<not> inAny (ip (TrimSpace p)) trusted) (Split appended (CHR '','')) \<and> appended \<noteq> ''''"
  have "xff_walk ip trusted (rev (Split (forged @ '','' @ appended) (CHR '',''))) None peer =
      xff_walk ip trusted (rev (Split appended (CHR '',''))) None peer" for peer
    using * by (auto simp: Split_append_sep list_ex_iff intro!: xff_walk_stops) blast
  then show "ClientIP sp ip (r\<lparr>pr_XForwardedFor := forged @ '','' @ appended\<rparr>) trusted =
     ClientIP sp ip (r\<lparr>pr_XForwardedFor := appended\<rparr>) trusted"
    using * by (simp add: ClientIP_def Let_def)
qed

definition sample_parseIP :: "string \<Rightarrow> string option" where
  "sample_parseIP s = (if s = '''' then None else Some s)"

theorem client_ip_not_forgeable_witness:
  "ClientIP Some sample_parseIP
     \<lparr>pr_RemoteAddr = ''proxy'', pr_XForwardedFor = ''admin,8.8.8.8, proxy'', pr_XForwardedProto = '''', pr_TLS = False\<rparr>
     [\<lambda>a. a = ''proxy''] = Some ''8.8.8.8''"
proof -
  let ?r = "\<lparr>pr_RemoteAddr = ''proxy'', pr_XForwardedFor = '''', pr_XForwardedProto = '''', pr_TLS = False\<rparr>"
  have "list_ex (\<lambda>p. sample_parseIP (TrimSpace p) \<noteq> None \<and> \<not> inAny (sample_parseIP (TrimSpace p)) [\<lambda>a. a = ''proxy''])
      (Split ''8.8.8.8, proxy'' (CHR '',''))" by code_simp
  then have "ClientIP Some sample_parseIP (?r\<lparr>pr_XForwardedFor := ''admin'' @ '','' @ ''8.8.8.8, proxy''\<rparr>) [\<lambda>a. a = ''proxy''] =
      ClientIP Some sample_parseIP (?r\<lparr>pr_XForwardedFor := ''8.8.8.8, proxy''\<rparr>) [\<lambda>a. a = ''proxy'']"
    using client_ip_not_forgeable [of Some sample_parseIP ?r "[\<lambda>a. a = ''proxy'']" "''8.8.8.8, proxy''" "''admin''"] by blast
  also have "\<dots> = Some ''8.8.8.8''" by code_simp
  finally show ?thesis by simp
qed

end
