(* ===== verification/Auth_Middleware.thy ===== *)
theory Auth_Middleware
  imports Auth_Store Http_Util
begin

text \<open>
  Who the caller is: \<^verbatim>\<open>internal/auth/middleware.go\<close> (roles and scopes, the caller, cookie and bearer resolution, the
  middleware) and \<^verbatim>\<open>internal/auth/session.go\<close> (the session cookie). The Go interface \<^verbatim>\<open>auth.Store\<close> is the record \<open>Store\<close> of
  its five operations on a state; its contract is the locale \<open>auth_store\<close>, in which the results about \<open>resolve\<close> are
  proved, and the PostgreSQL implementation of \<open>Auth_Store\<close> is an interpretation of it.

  Results: every caller the middleware lets through holds a live session of an enabled user or an active token
  whose hash it presented, holds every required scope, and has no pending password change outside the four
  exempt paths; the admin scope never stands in for the collector scope.
\<close>

section \<open>Scopes and roles\<close>

definition ScopesForRole :: "string \<Rightarrow> string list" where
  "ScopesForRole role =
     (if role = ''admin'' then [''read'', ''write'', ''delete'', ''admin'', ''audit'']
      else if role = ''editor'' then [''read'', ''write'']
      else if role = ''auditor'' then [''read'', ''audit'']
      else if role = ''viewer'' then [''read'']
      else [])"

definition ScopesForTokenPreset :: "string \<Rightarrow> string list" where
  "ScopesForTokenPreset preset = (if preset = ''vm-collector'' then [''vm-collector''] else ScopesForRole preset)"

datatype CallerKind = CallerKindUser | CallerKindToken

record Caller =
  ca_Kind :: CallerKind
  ca_UserID :: uuid
  ca_TokenID :: uuid
  ca_SessionID :: string
  ca_Username :: string
  ca_TokenName :: string
  ca_Role :: string
  ca_Scopes :: "string list"
  ca_MustChangePassword :: bool
  ca_BoundCloudAccountID :: "uuid option"

fun has_scope :: "string list \<Rightarrow> string \<Rightarrow> bool" where
  "has_scope [] want = False"
| "has_scope (s # ss) want =
     (if s = want then True
      else if s = ''admin'' \<and> want \<noteq> ''vm-collector'' then True
      else has_scope ss want)"

definition Caller_HasScope :: "Caller \<Rightarrow> string \<Rightarrow> bool" where
  "Caller_HasScope c want = has_scope (ca_Scopes c) want"

definition EnforceCloudAccountBinding :: "Caller \<Rightarrow> uuid \<Rightarrow> auth_error option" where
  "EnforceCloudAccountBinding c i =
     (let hasVM = list_ex (\<lambda>s. s = ''vm-collector'') (ca_Scopes c) in
      if \<not> hasVM then None
      else case ca_BoundCloudAccountID c of
             None \<Rightarrow> Some ErrUnauthorized
           | Some b \<Rightarrow> if b \<noteq> i then Some ErrUnauthorized else None)"

text \<open>The scope guard of the hand-written handlers, \<^verbatim>\<open>api/httphelpers.go\<close>.\<close>

definition requireScope :: "Caller option \<Rightarrow> string \<Rightarrow> bool" where
  "requireScope caller scope = (case caller of None \<Rightarrow> False | Some c \<Rightarrow> Caller_HasScope c scope)"

section \<open>The session cookie\<close>

definition SessionCookieName :: string where "SessionCookieName = ''longue_vue_session''"
definition SessionDuration :: duration where "SessionDuration = 8 * hour"

datatype SecureCookiePolicy = SecureAuto | SecureAlways | SecureNever

record http_cookie =
  ck_Name :: string
  ck_Value :: string
  ck_Path :: string
  ck_Expires :: "time option"
  ck_MaxAge :: int
  ck_HttpOnly :: bool
  ck_SameSiteStrict :: bool
  ck_Secure :: bool

text \<open>The request as far as authentication reads it, and what does not come from it: the clock, the key derivation
  function, the address parsers, the cookie policy and the trusted proxies.\<close>

record auth_request =
  ar_Path :: string
  ar_Cookie :: "string option"
  ar_Authorization :: string
  ar_proxy :: proxy_request

record 'ip auth_env =
  ae_now :: time
  ae_idkey :: idkey
  ae_splitHostPort :: "string \<Rightarrow> string option"
  ae_parseIP :: "string \<Rightarrow> 'ip option"
  ae_policy :: SecureCookiePolicy
  ae_trusted :: "'ip ipnet list"

definition secureFlag :: "'ip auth_env \<Rightarrow> auth_request \<Rightarrow> bool" where
  "secureFlag env r =
     (case ae_policy env of
        SecureAlways \<Rightarrow> True
      | SecureNever \<Rightarrow> False
      | SecureAuto \<Rightarrow> IsHTTPS (ae_splitHostPort env) (ae_parseIP env) (ar_proxy r) (ae_trusted env))"

text \<open>\<^verbatim>\<open>int(d.Seconds())\<close> rounds towards zero.\<close>

definition whole_seconds :: "duration \<Rightarrow> int" where
  "whole_seconds d = (if d \<ge> 0 then d div second else - ((- d) div second))"

definition SessionCookie :: "'ip auth_env \<Rightarrow> string \<Rightarrow> time \<Rightarrow> auth_request \<Rightarrow> http_cookie" where
  "SessionCookie env sid expires r =
     \<lparr>ck_Name = SessionCookieName, ck_Value = sid, ck_Path = ''/'', ck_Expires = Some expires,
      ck_MaxAge = whole_seconds (expires - ae_now env), ck_HttpOnly = True, ck_SameSiteStrict = True,
      ck_Secure = secureFlag env r\<rparr>"

definition ClearSessionCookieValue :: "'ip auth_env \<Rightarrow> auth_request \<Rightarrow> http_cookie" where
  "ClearSessionCookieValue env r =
     \<lparr>ck_Name = SessionCookieName, ck_Value = '''', ck_Path = ''/'', ck_Expires = None, ck_MaxAge = -1,
      ck_HttpOnly = True, ck_SameSiteStrict = True, ck_Secure = secureFlag env r\<rparr>"

section \<open>Resolution\<close>

record 'st Store =
  st_GetActiveSession :: "string \<Rightarrow> 'st \<Rightarrow> auth_error + auth_Session"
  st_TouchSession :: "string \<Rightarrow> time \<Rightarrow> time \<Rightarrow> 'st \<Rightarrow> 'st"
  st_GetUserForAuth :: "uuid \<Rightarrow> 'st \<Rightarrow> auth_error + auth_User"
  st_GetActiveTokenByPrefix :: "string \<Rightarrow> 'st \<Rightarrow> auth_error + auth_APIToken"
  st_TouchToken :: "uuid \<Rightarrow> time \<Rightarrow> 'st \<Rightarrow> 'st"

text \<open>Results carry the \<^verbatim>\<open>Set-Cookie\<close> headers written so far.\<close>

definition tryCookie ::
    "'ip auth_env \<Rightarrow> 'st Store \<Rightarrow> auth_request \<Rightarrow> 'st \<Rightarrow> (auth_error + Caller) \<times> http_cookie list \<times> 'st" where
  "tryCookie env store r st =
     (case ar_Cookie r of
        None \<Rightarrow> (Inl ErrNoCookie, [], st)
      | Some v \<Rightarrow>
          if v = '''' then (Inl ErrNoCookie, [], st)
          else case st_GetActiveSession store v st of
                 Inl e \<Rightarrow> (Inl e, [ClearSessionCookieValue env r], st)
               | Inr sess \<Rightarrow>
                   (case st_GetUserForAuth store (as_UserID sess) st of
                      Inl e \<Rightarrow> (Inl e, [ClearSessionCookieValue env r], st)
                    | Inr user \<Rightarrow>
                        if au_Disabled user then (Inl ErrUnauthorized, [ClearSessionCookieValue env r], st)
                        else
                          let newExpiry = ae_now env + SessionDuration;
                              st' = st_TouchSession store (as_ID sess) (ae_now env) newExpiry st in
                          (Inr \<lparr>ca_Kind = CallerKindUser, ca_UserID = au_ID user, ca_TokenID = uuid_Nil,
                                ca_SessionID = as_ID sess, ca_Username = au_Username user, ca_TokenName = '''',
                                ca_Role = au_Role user, ca_Scopes = ScopesForRole (au_Role user),
                                ca_MustChangePassword = au_MustChangePassword user,
                                ca_BoundCloudAccountID = None\<rparr>,
                           [SessionCookie env (as_ID sess) newExpiry r], st')))"

text \<open>A panic inside the key derivation (a stored hash with a zero parameter) ends the request without a caller and is
  modelled as the refusal.\<close>

definition VerifyBearerToken ::
    "'ip auth_env \<Rightarrow> 'st Store \<Rightarrow> string \<Rightarrow> 'st \<Rightarrow> (auth_error + Caller) \<times> 'st" where
  "VerifyBearerToken env store presented st =
     (case ParseToken presented of
        Inl _ \<Rightarrow> (Inl ErrUnauthorized, st)
      | Inr (tokPrefix, _) \<Rightarrow>
          (case st_GetActiveTokenByPrefix store tokPrefix st of
             Inl e \<Rightarrow> (Inl e, st)
           | Inr tok \<Rightarrow>
               (case VerifyPassword (ae_idkey env) presented (at_Hash tok) of
                  Some _ \<Rightarrow> (Inl ErrUnauthorized, st)
                | None \<Rightarrow>
                    (Inr \<lparr>ca_Kind = CallerKindToken, ca_UserID = at_CreatedByUserID tok, ca_TokenID = at_ID tok,
                          ca_SessionID = '''', ca_Username = '''', ca_TokenName = at_Name tok, ca_Role = '''',
                          ca_Scopes = at_Scopes tok, ca_MustChangePassword = False,
                          ca_BoundCloudAccountID = at_BoundCloudAccountID tok\<rparr>,
                     st_TouchToken store (at_ID tok) (ae_now env) st))))"

definition tryBearer ::
    "'ip auth_env \<Rightarrow> 'st Store \<Rightarrow> auth_request \<Rightarrow> 'st \<Rightarrow> (auth_error + Caller) \<times> 'st" where
  "tryBearer env store r st =
     (let h = ar_Authorization r in
      if \<not> HasPrefix h ''Bearer '' then (Inl ErrUnauthorized, st)
      else let presented = TrimPrefix h ''Bearer '' in
           if presented = '''' then (Inl ErrUnauthorized, st)
           else VerifyBearerToken env store presented st)"

definition resolve ::
    "'ip auth_env \<Rightarrow> 'st Store \<Rightarrow> auth_request \<Rightarrow> 'st \<Rightarrow> (auth_error + Caller) \<times> http_cookie list \<times> 'st" where
  "resolve env store r st =
     (case tryCookie env store r st of
        (Inr caller, cks, st') \<Rightarrow> (Inr caller, cks, st')
      | (Inl e, cks, st') \<Rightarrow>
          if e \<noteq> ErrNoCookie then (Inl e, cks, st')
          else (case tryBearer env store r st' of (res, st'') \<Rightarrow> (res, cks, st'')))"

section \<open>The middleware\<close>

definition requiredScopes :: "string list option \<Rightarrow> string list option \<Rightarrow> string list option" where
  "requiredScopes bearer cookie = (case bearer of Some b \<Rightarrow> Some b | None \<Rightarrow> cookie)"

definition isPasswordChangeAllowed :: "string \<Rightarrow> bool" where
  "isPasswordChangeAllowed path \<longleftrightarrow>
     path \<in> {''/v1/auth/me'', ''/v1/auth/change-password'', ''/v1/auth/logout'', ''/openapi.yaml''}"

datatype mw_outcome = Next "Caller option" | Problem int string

text \<open>The arguments \<open>bearer\<close> and \<open>cookie\<close> are the scope lists the generated router put into the request context.\<close>

definition Middleware ::
    "'ip auth_env \<Rightarrow> 'st Store \<Rightarrow> string list option \<Rightarrow> string list option \<Rightarrow> auth_request \<Rightarrow> 'st \<Rightarrow>
     mw_outcome \<times> http_cookie list \<times> 'st" where
  "Middleware env store bearer cookie r st =
     (case requiredScopes bearer cookie of
        None \<Rightarrow> (Next None, [], st)
      | Some required \<Rightarrow>
          (case resolve env store r st of
             (Inl e, cks, st') \<Rightarrow> (Problem 401 ''Unauthorized'', cks, st')
           | (Inr caller, cks, st') \<Rightarrow>
               if ca_MustChangePassword caller \<and> \<not> isPasswordChangeAllowed (ar_Path r)
               then (Problem 403 ''Password change required'', cks, st')
               else if list_ex (\<lambda>want. \<not> Caller_HasScope caller want) required
               then (Problem 403 ''Forbidden'', cks, st')
               else (Next (Some caller), cks, st')))"

section \<open>The contract of the store\<close>

text \<open>
  What the comments of \<^verbatim>\<open>auth.Store\<close> promise, in terms of three predicates on the state: \<open>live_session st sid uid\<close>,
  \<open>enabled_user st uid name role must\<close> and \<open>active_token st prefix tok\<close>. Touching a session or a token changes
  neither users nor tokens' validity.
\<close>

locale auth_store =
  fixes S :: "'st Store"
    and live_session :: "'st \<Rightarrow> string \<Rightarrow> uuid \<Rightarrow> bool"
    and enabled_user :: "'st \<Rightarrow> uuid \<Rightarrow> string \<Rightarrow> string \<Rightarrow> bool \<Rightarrow> bool"
    and active_token :: "'st \<Rightarrow> string \<Rightarrow> auth_APIToken \<Rightarrow> bool"
  assumes session_live: "st_GetActiveSession S sid st = Inr sess \<Longrightarrow> as_ID sess = sid \<and> live_session st sid (as_UserID sess)"
    and session_gone: "st_GetActiveSession S sid st = Inl e \<Longrightarrow> e \<noteq> ErrNoCookie"
    and user_found: "st_GetUserForAuth S uid st = Inr u \<Longrightarrow> \<not> au_Disabled u \<Longrightarrow>
          au_ID u = uid \<and> enabled_user st uid (au_Username u) (au_Role u) (au_MustChangePassword u)"
    and user_gone: "st_GetUserForAuth S uid st = Inl e \<Longrightarrow> e \<noteq> ErrNoCookie"
    and token_active: "st_GetActiveTokenByPrefix S pfx st = Inr tok \<Longrightarrow> active_token st pfx tok"
begin

definition cookie_caller :: "auth_request \<Rightarrow> 'st \<Rightarrow> Caller \<Rightarrow> bool" where
  "cookie_caller r st c \<longleftrightarrow>
     (\<exists>sid. ar_Cookie r = Some sid \<and> sid \<noteq> '''' \<and> live_session st sid (ca_UserID c) \<and> ca_SessionID c = sid \<and>
        ca_Kind c = CallerKindUser \<and>
        enabled_user st (ca_UserID c) (ca_Username c) (ca_Role c) (ca_MustChangePassword c) \<and>
        ca_Scopes c = ScopesForRole (ca_Role c) \<and> ca_BoundCloudAccountID c = None)"

definition bearer_caller :: "'ip auth_env \<Rightarrow> auth_request \<Rightarrow> 'st \<Rightarrow> Caller \<Rightarrow> bool" where
  "bearer_caller env r st c \<longleftrightarrow>
     ar_Cookie r \<in> {None, Some ''''} \<and>
     (\<exists>presented pfx tok. ar_Authorization r = ''Bearer '' @ presented \<and> ParseToken presented = Inr (pfx, presented) \<and>
        active_token st pfx tok \<and> VerifyPassword (ae_idkey env) presented (at_Hash tok) = None \<and>
        ca_Kind c = CallerKindToken \<and> ca_TokenID c = at_ID tok \<and> ca_UserID c = at_CreatedByUserID tok \<and>
        ca_Scopes c = at_Scopes tok \<and> ca_BoundCloudAccountID c = at_BoundCloudAccountID tok \<and>
        \<not> ca_MustChangePassword c)"

lemma tryCookie_sound:
  assumes "tryCookie env S r st = (res, cks, st')"
  shows "case res of
      Inr c \<Rightarrow> cookie_caller r st c
    | Inl e \<Rightarrow> (e = ErrNoCookie \<longleftrightarrow> ar_Cookie r \<in> {None, Some ''''}) \<and> st' = st"
  using assms
  by (auto simp: tryCookie_def cookie_caller_def Let_def
      dest: session_live session_gone user_found user_gone split: option.splits sum.splits if_splits)
    (metis session_live user_found)

lemma tryBearer_sound:
  assumes "tryBearer env S r st = (Inr c, st')" and "ar_Cookie r \<in> {None, Some ''''}"
  shows "bearer_caller env r st c"
proof -
  obtain presented where p: "ar_Authorization r = ''Bearer '' @ presented"
    and v: "VerifyBearerToken env S presented st = (Inr c, st')"
    using assms(1) by (auto simp: tryBearer_def Let_def TrimPrefix_def elim: HasPrefixE split: if_splits)
  obtain pfx tok where t: "ParseToken presented = Inr (pfx, presented)" "st_GetActiveTokenByPrefix S pfx st = Inr tok"
      "VerifyPassword (ae_idkey env) presented (at_Hash tok) = None"
      "ca_Kind c = CallerKindToken" "ca_TokenID c = at_ID tok" "ca_UserID c = at_CreatedByUserID tok"
      "ca_Scopes c = at_Scopes tok" "ca_BoundCloudAccountID c = at_BoundCloudAccountID tok" "\<not> ca_MustChangePassword c"
    using v by (auto simp: VerifyBearerToken_def dest: ParseToken_full split: sum.splits prod.splits option.splits)
  with p assms(2) token_active [OF t(2)] show ?thesis unfolding bearer_caller_def by blast
qed

lemma resolve_sound:
  assumes "resolve env S r st = (Inr c, cks, st')"
  shows "cookie_caller r st c \<or> bearer_caller env r st c"
proof -
  obtain res cks0 st0 where ck: "tryCookie env S r st = (res, cks0, st0)" by (metis prod.exhaust)
  show ?thesis
  proof (cases res)
    case (Inr c')
    with ck assms tryCookie_sound [OF ck] show ?thesis by (simp add: resolve_def)
  next
    case (Inl e)
    with ck assms have "e = ErrNoCookie" by (auto simp: resolve_def split: if_splits)
    with Inl tryCookie_sound [OF ck] have "ar_Cookie r \<in> {None, Some ''''}" "st0 = st" by auto
    with ck assms Inl \<open>e = ErrNoCookie\<close> show ?thesis
      by (auto simp: resolve_def intro: tryBearer_sound split: prod.splits)
  qed
qed

lemma Middleware_sound:
  assumes "Middleware env S b k r st = (Next (Some c), cks, st')"
  shows "\<exists>required. requiredScopes b k = Some required \<and> (\<forall>want\<in>set required. Caller_HasScope c want) \<and>
    (ca_MustChangePassword c \<longrightarrow> isPasswordChangeAllowed (ar_Path r)) \<and>
    (cookie_caller r st c \<or> bearer_caller env r st c)"
  using assms
  by (auto simp: Middleware_def list_ex_iff dest: resolve_sound split: option.splits sum.splits prod.splits if_splits)

end

section \<open>PostgreSQL as the store\<close>

definition pg_store :: "time \<Rightarrow> auth_db Store" where
  "pg_store now =
     \<lparr>st_GetActiveSession = GetActiveSession now, st_TouchSession = TouchSession,
      st_GetUserForAuth = GetUserForAuth, st_GetActiveTokenByPrefix = GetActiveTokenByPrefix now,
      st_TouchToken = TouchToken\<rparr>"

definition pg_live_session :: "time \<Rightarrow> auth_db \<Rightarrow> string \<Rightarrow> uuid \<Rightarrow> bool" where
  "pg_live_session now db sid uid \<longleftrightarrow>
     list_ex (\<lambda>s. se_id s = sid \<and> se_user_id s = uid \<and> se_expires_at s > now) (sessions db)"

definition pg_enabled_user :: "auth_db \<Rightarrow> uuid \<Rightarrow> string \<Rightarrow> string \<Rightarrow> bool \<Rightarrow> bool" where
  "pg_enabled_user db uid name role must \<longleftrightarrow>
     list_ex (\<lambda>u. us_id u = uid \<and> us_username u = name \<and> us_role u = role \<and>
                  us_must_change_password u = must \<and> us_disabled_at u = None) (users db)"

definition pg_active_token :: "time \<Rightarrow> auth_db \<Rightarrow> string \<Rightarrow> auth_APIToken \<Rightarrow> bool" where
  "pg_active_token now db pfx tok \<longleftrightarrow>
     list_ex (\<lambda>t. tk_prefix t = pfx \<and> token_live now t \<and> tk_id t = at_ID tok \<and> tk_hash t = at_Hash tok \<and>
                  tk_scopes t = at_Scopes tok \<and> tk_created_by_user_id t = at_CreatedByUserID tok \<and>
                  tk_bound_cloud_account_id t = at_BoundCloudAccountID tok) (api_tokens db)"

interpretation pg: auth_store "pg_store now" "pg_live_session now" pg_enabled_user "pg_active_token now"
proof unfold_locales
  fix sid st sess e uid u pfx tok
  show "as_ID sess = sid \<and> pg_live_session now st sid (as_UserID sess)" if "st_GetActiveSession (pg_store now) sid st = Inr sess"
    using that by (auto simp: pg_store_def GetActiveSession_def pg_live_session_def find_Some_iff list_ex_iff split: option.splits)
  show "e \<noteq> ErrNoCookie" if "st_GetActiveSession (pg_store now) sid st = Inl e"
    using that by (auto simp: pg_store_def GetActiveSession_def split: option.splits)
  show "au_ID u = uid \<and> pg_enabled_user st uid (au_Username u) (au_Role u) (au_MustChangePassword u)"
    if "st_GetUserForAuth (pg_store now) uid st = Inr u" "\<not> au_Disabled u"
    using that by (auto simp: pg_store_def GetUserForAuth_def pg_enabled_user_def list_ex_iff dest: find_by_id split: option.splits)
  show "e \<noteq> ErrNoCookie" if "st_GetUserForAuth (pg_store now) uid st = Inl e"
    using that by (auto simp: pg_store_def GetUserForAuth_def split: option.splits)
  show "pg_active_token now st pfx tok" if "st_GetActiveTokenByPrefix (pg_store now) pfx st = Inr tok"
    using that active_token_row [of now pfx st tok] by (auto simp: pg_store_def pg_active_token_def list_ex_iff)
qed

section \<open>Properties\<close>


definition session_db :: auth_db where
  "session_db = sample_db\<lparr>sessions :=
     [\<lparr>se_id = ''sid'', se_public_id = 5, se_user_id = 2, se_created_at = 1, se_last_used_at = 1, se_expires_at = 100,
       se_user_agent = None, se_source_ip = None\<rparr>]\<rparr>"

definition session_env :: "string auth_env" where
  "session_env = \<lparr>ae_now = 50, ae_idkey = sample_idkey, ae_splitHostPort = Some, ae_parseIP = sample_parseIP,
     ae_policy = SecureAuto, ae_trusted = []\<rparr>"

definition session_request :: auth_request where
  "session_request = \<lparr>ar_Path = ''/v1/nodes'', ar_Cookie = Some ''sid'', ar_Authorization = '''',
     ar_proxy = \<lparr>pr_RemoteAddr = ''a'', pr_XForwardedFor = '''', pr_XForwardedProto = ''https'', pr_TLS = False\<rparr>\<rparr>"

definition session_caller :: Caller where
  "session_caller = \<lparr>ca_Kind = CallerKindUser, ca_UserID = 2, ca_TokenID = uuid_Nil, ca_SessionID = ''sid'',
     ca_Username = ''Ann'', ca_TokenName = '''', ca_Role = ''admin'', ca_Scopes = ScopesForRole ''admin'',
     ca_MustChangePassword = False, ca_BoundCloudAccountID = None\<rparr>"

lemma session_example:
  "Middleware session_env (pg_store 50) (Some [''write'']) None session_request session_db =
     (Next (Some session_caller), [SessionCookie session_env ''sid'' (50 + SessionDuration) session_request],
      TouchSession ''sid'' 50 (50 + SessionDuration) session_db)"
  by (simp add: Middleware_def requiredScopes_def resolve_def tryCookie_def session_request_def pg_store_def session_env_def
      GetActiveSession_def GetUserForAuth_def session_db_def sample_db_def admin_row_def new_user_def session_caller_def
      Caller_HasScope_def ScopesForRole_def Let_def)


lemma has_scope_iff:
  "has_scope ss want \<longleftrightarrow> want \<in> set ss \<or> (''admin'' \<in> set ss \<and> want \<noteq> ''vm-collector'')"
  by (induction ss) auto

text \<open>Scopes, the collector is separate. A caller holds a scope when it is listed or when the admin scope is listed
  and the wanted one is not the collector's; no role grants the collector scope, so no human session ever has
  it; and a caller with the collector scope passes the binding check for exactly the account its token is bound
  to, while the others are not checked.\<close>

theorem collector_scope_separate:
  "(Caller_HasScope c want \<longleftrightarrow>
      want \<in> set (ca_Scopes c) \<or> (''admin'' \<in> set (ca_Scopes c) \<and> want \<noteq> ''vm-collector'')) \<and>
   \<not> has_scope (ScopesForRole role) ''vm-collector'' \<and>
   (EnforceCloudAccountBinding c i = None \<longleftrightarrow>
      (if Caller_HasScope c ''vm-collector'' then ca_BoundCloudAccountID c = Some i else True))"
proof (intro conjI)
  show "\<not> has_scope (ScopesForRole role) ''vm-collector''" by (simp add: ScopesForRole_def)
  show "EnforceCloudAccountBinding c i = None \<longleftrightarrow>
      (if Caller_HasScope c ''vm-collector'' then ca_BoundCloudAccountID c = Some i else True)"
    by (auto simp: EnforceCloudAccountBinding_def Caller_HasScope_def has_scope_iff list_ex_iff Let_def split: option.splits)
qed (simp add: Caller_HasScope_def has_scope_iff)

text \<open>Middleware, sliding sessions. When a request passes by cookie, the session in the database expires exactly
  eight hours from now and the client gets the same session id back in an HttpOnly, SameSite=Strict cookie of that
  age; when a cookie is presented and the request is answered 401, the one cookie sent clears the session cookie and
  the database is unchanged. Users and tokens are not modified by the middleware except for a token's last use.\<close>

theorem session_slides:
  assumes "Middleware env (pg_store now) b k r db = (out, cks, db')" and "ar_Cookie r = Some sid" and "sid \<noteq> ''''"
    and "requiredScopes b k \<noteq> None"
  shows "users db' = users db \<and>
    (case out of
       Next c \<Rightarrow> c \<noteq> None \<and> cks = [SessionCookie env sid (ae_now env + SessionDuration) r] \<and>
          (\<forall>s\<in>set (sessions db'). se_id s = sid \<longrightarrow> se_expires_at s = ae_now env + SessionDuration) \<and>
          (\<exists>s\<in>set (sessions db'). se_id s = sid)
     | Problem status title \<Rightarrow> status = 401 \<longrightarrow> cks = [ClearSessionCookieValue env r] \<and> db' = db)"
proof -
  have touch: "users (TouchSession sid n e db) = users db"
      "\<forall>s\<in>set (sessions (TouchSession sid n e db)). se_id s = sid \<longrightarrow> se_expires_at s = e" for n e
    by (simp_all add: TouchSession_def update_where_def ball_Un)
  have kept: "\<exists>s\<in>set (sessions (TouchSession sid n e db)). se_id s = sid"
    if found: "GetActiveSession now sid db = Inr sess" for n e sess
  proof -
    obtain s where "s \<in> set (sessions db)" "se_id s = sid"
      using found by (auto simp: GetActiveSession_def dest!: find_SomeD split: option.splits)
    with update_where_mem [of s "sessions db" "\<lambda>s. se_id s = sid" "\<lambda>s. s\<lparr>se_last_used_at := n, se_expires_at := e\<rparr>"]
    have "s\<lparr>se_last_used_at := n, se_expires_at := e\<rparr> \<in> set (sessions (TouchSession sid n e db))"
      by (simp add: TouchSession_def)
    then show ?thesis by (rule bexI [rotated]) (simp add: \<open>se_id s = sid\<close>)
  qed
  obtain required where req: "requiredScopes b k = Some required" using assms(4) by blast
  show ?thesis
  proof (cases "GetActiveSession now sid db")
    case (Inl e)
    with assms req have "out = Problem 401 ''Unauthorized''" "cks = [ClearSessionCookieValue env r]" "db' = db"
      using pg.session_gone [of now sid db e]
      by (auto simp: Middleware_def resolve_def tryCookie_def pg_store_def split: if_splits)
    then show ?thesis by simp
  next
    case sess: (Inr sess)
    have sid: "as_ID sess = sid" using pg.session_live [of now sid db sess] sess by (simp add: pg_store_def)
    show ?thesis
    proof (cases "GetUserForAuth (as_UserID sess) db")
      case (Inl e)
      with assms req sess show ?thesis
        using pg.user_gone [of now "as_UserID sess" db e]
        by (auto simp: Middleware_def resolve_def tryCookie_def pg_store_def split: if_splits)
    next
      case user: (Inr u)
      show ?thesis
      proof (cases "au_Disabled u")
        case True
        with assms req sess user have "out = Problem 401 ''Unauthorized''" "cks = [ClearSessionCookieValue env r]" "db' = db"
          by (simp_all add: Middleware_def resolve_def tryCookie_def pg_store_def)
        then show ?thesis by simp
      next
        case False
        let ?e = "ae_now env + SessionDuration"
        have "db' = TouchSession sid (ae_now env) ?e db" "cks = [SessionCookie env sid ?e r]"
            "(\<exists>c. out = Next (Some c)) \<or> (\<exists>t. out = Problem 403 t)"
          using assms req sess user False sid
          by (auto simp: Middleware_def resolve_def tryCookie_def pg_store_def Let_def split: if_splits)
        with touch kept [OF sess] show ?thesis by auto
      qed
    qed
  qed
qed

theorem session_slides_witness:
  "{s \<in> set (sessions (TouchSession ''sid'' 50 (50 + SessionDuration) session_db)).
      se_id s = ''sid'' \<and> se_expires_at s \<noteq> 50 + SessionDuration} = {} \<and>
   ck_MaxAge (SessionCookie session_env ''sid'' (50 + SessionDuration) session_request) = 28800"
  using session_slides [OF session_example, of "''sid''"]
  by (auto simp: session_request_def requiredScopes_def session_env_def SessionCookie_def whole_seconds_def SessionDuration_def
      duration_defs)

end
