(* ===== verification/Auth_Handlers.thy ===== *)
theory Auth_Handlers
  imports Auth_Middleware
begin

text \<open>
  The handlers of \<^verbatim>\<open>internal/api/auth_handlers.go\<close>, on the PostgreSQL store: login with lock-out, logout, password
  change, token verification for the gateway, administration of users, tokens and sessions, and the OIDC callback
  with its find-or-create of shadow users. Arguments stand for what the code draws from outside: random bytes, fresh
  UUIDs, the clock (in the environment), the verdict of the rate limiters (\<^verbatim>\<open>golang.org/x/time/rate\<close>) and the claims the
  identity provider returned. \<^verbatim>\<open>ServerError\<close> is a non-nil error of the handler, which the router answers with 500.

  Results: what a successful login needs and does, the lock-out after six failures, an issued token authenticates
  with exactly the granted scopes, disabled OIDC users stay out, and a defect: a refused user update has already changed the
  password.
\<close>

datatype http_resp =
    Resp int
  | RespCookie int http_cookie
  | RespRedirect string "http_cookie option"
  | ServerError

definition failedLoginLockoutThreshold :: int where "failedLoginLockoutThreshold = 6"
definition minPasswordLength :: nat where "minPasswordLength = 12"
definition oidcStateTTL :: duration where "oidcStateTTL = 5 * minute"

section \<open>Login and logout\<close>

text \<open>What accompanies a request that mints a session: the verdict of the login limiter, the 32 random bytes, the
  public id, user agent and source address.\<close>

record session_args =
  sa_allowed :: bool
  sa_random :: "string option"
  sa_publicID :: uuid
  sa_userAgent :: string
  sa_sourceIP :: string

definition new_session :: "time \<Rightarrow> session_args \<Rightarrow> string \<Rightarrow> uuid \<Rightarrow> SessionInsert" where
  "new_session now a sid uid =
     \<lparr>si_ID = sid, si_UserID = uid, si_CreatedAt = now, si_ExpiresAt = now + SessionDuration,
      si_UserAgent = sa_userAgent a, si_SourceIP = sa_sourceIP a\<rparr>"

definition Login ::
    "'ip auth_env \<Rightarrow> session_args \<Rightarrow> auth_request \<Rightarrow> string \<Rightarrow> string \<Rightarrow> auth_db \<Rightarrow> http_resp \<times> auth_db" where
  "Login env a r username password db =
     (if username = '''' \<or> password = '''' then (Resp 400, db)
      else if \<not> sa_allowed a then (Resp 429, db)
      else case GetUserByUsername username db of
             Inl _ \<Rightarrow> (Resp 401, db)
           | Inr user \<Rightarrow>
               if us_locked_at user \<noteq> None then (Resp 401, db)
               else
                 (case VerifyPassword (ae_idkey env) password (us_password_hash user) of
                    Some _ \<Rightarrow>
                      (Resp 401, snd (IncrementFailedLogin (ae_now env) (us_id user) failedLoginLockoutThreshold db))
                  | None \<Rightarrow>
                      (case RandomSecret (sa_random a) of
                         Inl _ \<Rightarrow> (ServerError, db)
                       | Inr sid \<Rightarrow>
                           (case CreateSession (sa_publicID a) (new_session (ae_now env) a sid (us_id user)) db of
                              (Inl _, db1) \<Rightarrow> (ServerError, db1)
                            | (Inr _, db1) \<Rightarrow>
                                (RespCookie 204 (SessionCookie env sid (ae_now env + SessionDuration) r),
                                 TouchUserLogin (us_id user) (ae_now env)
                                   (snd (ResetFailedLogin (us_id user) db1)))))))"

definition Logout :: "'ip auth_env \<Rightarrow> auth_request \<Rightarrow> Caller option \<Rightarrow> auth_db \<Rightarrow> http_resp \<times> auth_db" where
  "Logout env r caller db =
     (let db' = (case caller of
                   Some c \<Rightarrow> if ca_Kind c = CallerKindUser \<and> ca_SessionID c \<noteq> ''''
                             then snd (DeleteSession (ca_SessionID c) db) else db
                 | None \<Rightarrow> db) in
      (RespCookie 204 (ClearSessionCookieValue env r), db'))"

definition ChangePassword ::
    "'ip auth_env \<Rightarrow> string option \<Rightarrow> auth_request \<Rightarrow> Caller option \<Rightarrow> string \<Rightarrow> string \<Rightarrow> auth_db \<Rightarrow> http_resp \<times> auth_db" where
  "ChangePassword env salt r caller currentPassword newPassword db =
     (case caller of
        None \<Rightarrow> (Resp 403, db)
      | Some c \<Rightarrow>
          if ca_Kind c \<noteq> CallerKindUser then (Resp 403, db)
          else if length newPassword < minPasswordLength then (Resp 400, db)
          else case GetUserByUsername (ca_Username c) db of
                 Inl _ \<Rightarrow> (ServerError, db)
               | Inr withSecret \<Rightarrow>
                   if VerifyPassword (ae_idkey env) currentPassword (us_password_hash withSecret) \<noteq> None
                   then (Resp 401, db)
                   else case HashPassword (ae_idkey env) salt newPassword of
                          Inl _ \<Rightarrow> (ServerError, db)
                        | Inr hash \<Rightarrow>
                            (case SetUserPassword (ae_now env) (ca_UserID c) hash False db of
                               (Inl _, db1) \<Rightarrow> (ServerError, db1)
                             | (Inr _, db1) \<Rightarrow> (RespCookie 204 (ClearSessionCookieValue env r), db1)))"

text \<open>The verify endpoint of the ingest listener; \<open>allowed\<close> is the verdict of its limiter (\<open>True\<close> when there is none).\<close>

record VerifyTokenResponse =
  vt_CallerId :: uuid
  vt_TokenName :: "string option"
  vt_Scopes :: "string list"
  vt_BoundCloudAccountId :: "uuid option"

definition VerifyToken ::
    "'ip auth_env \<Rightarrow> bool \<Rightarrow> string \<Rightarrow> auth_db \<Rightarrow> (int + VerifyTokenResponse) \<times> auth_db" where
  "VerifyToken env allowed token db =
     (if token = '''' then (Inl 400, db)
      else if \<not> allowed then (Inl 401, db)
      else case VerifyBearerToken env (pg_store (ae_now env)) token db of
             (Inl _, db') \<Rightarrow> (Inl 401, db')
           | (Inr caller, db') \<Rightarrow>
               (Inr \<lparr>vt_CallerId = ca_TokenID caller, vt_TokenName = null_if_empty (ca_TokenName caller),
                     vt_Scopes = ca_Scopes caller, vt_BoundCloudAccountId = ca_BoundCloudAccountID caller\<rparr>, db'))"

section \<open>Administration\<close>

definition api_CreateUser ::
    "'ip auth_env \<Rightarrow> uuid \<Rightarrow> string option \<Rightarrow> string \<Rightarrow> string \<Rightarrow> string \<Rightarrow> bool option \<Rightarrow> auth_db \<Rightarrow> http_resp \<times> auth_db" where
  "api_CreateUser env i salt username password role mustChange db =
     (if username = '''' then (Resp 400, db)
      else if length password < minPasswordLength then (Resp 400, db)
      else if role \<notin> set valid_roles then (Resp 400, db)
      else case HashPassword (ae_idkey env) salt password of
             Inl _ \<Rightarrow> (ServerError, db)
           | Inr hash \<Rightarrow>
               (case CreateUser i (ae_now env) \<lparr>ui_Username = username, ui_PasswordHash = hash, ui_Role = role,
                       ui_MustChangePassword = (case mustChange of Some m \<Rightarrow> m | None \<Rightarrow> True)\<rparr> db of
                  (Inl ErrConflict, db') \<Rightarrow> (Resp 409, db')
                | (Inl _, db') \<Rightarrow> (ServerError, db')
                | (Inr _, db') \<Rightarrow> (Resp 201, db')))"

text \<open>The second half of \<^verbatim>\<open>UpdateUser\<close>, after a password in the body was dealt with.\<close>

definition update_guarded_response :: "'ip auth_env \<Rightarrow> uuid \<Rightarrow> UserPatch \<Rightarrow> auth_db \<Rightarrow> http_resp \<times> auth_db" where
  "update_guarded_response env i patch db =
     (case UpdateUserGuarded (ae_now env) i patch db of
        (Inl ErrLastAdmin, db') \<Rightarrow> (Resp 409, db')
      | (Inl ErrNotFound, db') \<Rightarrow> (Resp 404, db')
      | (Inl _, db') \<Rightarrow> (ServerError, db')
      | (Inr _, db') \<Rightarrow> (Resp 200, db'))"

definition api_UpdateUser ::
    "'ip auth_env \<Rightarrow> uuid \<Rightarrow> string option \<Rightarrow> UserPatch \<Rightarrow> string option \<Rightarrow> auth_db \<Rightarrow> http_resp \<times> auth_db" where
  "api_UpdateUser env i salt patch password db =
     (if (case up_Role patch of Some r \<Rightarrow> r \<notin> set valid_roles | None \<Rightarrow> False) then (Resp 400, db)
      else case password of
             None \<Rightarrow> update_guarded_response env i patch db
           | Some pw \<Rightarrow>
               if length pw < minPasswordLength then (Resp 400, db)
               else case HashPassword (ae_idkey env) salt pw of
                      Inl _ \<Rightarrow> (ServerError, db)
                    | Inr hash \<Rightarrow>
                        (case SetUserPassword (ae_now env) i hash True db of
                           (Inl ErrNotFound, db') \<Rightarrow> (Resp 404, db')
                         | (Inl _, db') \<Rightarrow> (ServerError, db')
                         | (Inr _, db') \<Rightarrow> update_guarded_response env i patch db'))"

definition api_DeleteUser :: "uuid \<Rightarrow> Caller option \<Rightarrow> auth_db \<Rightarrow> http_resp \<times> auth_db" where
  "api_DeleteUser i caller db =
     (if (case caller of Some c \<Rightarrow> ca_Kind c = CallerKindUser \<and> ca_UserID c = i | None \<Rightarrow> False) then (Resp 409, db)
      else case DeleteUserGuarded i db of
             (Inl ErrLastAdmin, db') \<Rightarrow> (Resp 409, db')
           | (Inl ErrConflict, db') \<Rightarrow> (Resp 409, db')
           | (Inl ErrNotFound, db') \<Rightarrow> (Resp 404, db')
           | (Inl _, db') \<Rightarrow> (ServerError, db')
           | (Inr _, db') \<Rightarrow> (Resp 204, db'))"

record token_args =
  ta_id :: uuid
  ta_prefixBytes :: "string option"
  ta_suffixBytes :: "string option"
  ta_salt :: "string option"

text \<open>On success the plaintext is returned with the stored row.\<close>

definition CreateApiToken ::
    "'ip auth_env \<Rightarrow> token_args \<Rightarrow> Caller option \<Rightarrow> string \<Rightarrow> string list \<Rightarrow> time option \<Rightarrow> auth_db \<Rightarrow>
     (http_resp + (string \<times> token_row)) \<times> auth_db" where
  "CreateApiToken env a caller name scopes expiresAt db =
     (case caller of
        None \<Rightarrow> (Inl (Resp 401), db)
      | Some c \<Rightarrow>
          if TrimSpace name = '''' then (Inl (Resp 400), db)
          else if scopes = [] then (Inl (Resp 400), db)
          else if \<not> list_all (\<lambda>s. s \<in> {''read'', ''write'', ''delete''}) scopes then (Inl (Resp 400), db)
          else case MintToken (ae_idkey env) (ta_prefixBytes a) (ta_suffixBytes a) (ta_salt a) of
                 Inl _ \<Rightarrow> (Inl ServerError, db)
               | Inr minted \<Rightarrow>
                   (case CreateAPIToken (ae_now env)
                           \<lparr>ai_ID = ta_id a, ai_Name = name, ai_Prefix = Prefix minted, ai_Hash = Hash minted,
                            ai_Scopes = scopes, ai_CreatedByUserID = ca_UserID c, ai_ExpiresAt = expiresAt,
                            ai_BoundCloudAccountID = None\<rparr> db of
                      (Inl _, db') \<Rightarrow> (Inl ServerError, db')
                    | (Inr stored, db') \<Rightarrow> (Inr (Plaintext minted, stored), db')))"

definition RevokeApiToken :: "'ip auth_env \<Rightarrow> uuid \<Rightarrow> auth_db \<Rightarrow> http_resp \<times> auth_db" where
  "RevokeApiToken env i db =
     (case RevokeAPIToken i (ae_now env) db of
        (Inl ErrNotFound, db') \<Rightarrow> (Resp 404, db')
      | (Inl _, db') \<Rightarrow> (ServerError, db')
      | (Inr _, db') \<Rightarrow> (Resp 204, db'))"

text \<open>\<open>parsed\<close> is \<^verbatim>\<open>uuid.Parse\<close> of the path parameter.\<close>

definition RevokeSession :: "uuid option \<Rightarrow> auth_db \<Rightarrow> http_resp \<times> auth_db" where
  "RevokeSession parsed db =
     (case parsed of
        None \<Rightarrow> (Resp 404, db)
      | Some publicID \<Rightarrow>
          (case DeleteSessionByPublicID publicID db of
             (Inl ErrNotFound, db') \<Rightarrow> (Resp 404, db')
           | (Inl _, db') \<Rightarrow> (ServerError, db')
           | (Inr _, db') \<Rightarrow> (Resp 204, db')))"

section \<open>OIDC\<close>

record OIDCClaims =
  oc_Issuer :: string
  oc_Sub :: string
  oc_Email :: string
  oc_PreferredUsername :: string

definition emailLocalPart :: "string \<Rightarrow> string" where
  "emailLocalPart email =
     (case IndexByte email (CHR ''@'') of Some i \<Rightarrow> if i > 0 then take i email else '''' | None \<Rightarrow> '''')"

definition shortSub :: "string \<Rightarrow> string" where
  "shortSub sub = (if length sub \<le> 8 then sub else take 8 sub)"

definition username_char :: "char \<Rightarrow> bool" where
  "username_char c \<longleftrightarrow>
     (let n = of_char c :: nat in
      (97 \<le> n \<and> n \<le> 122) \<or> is_digit c \<or> c = CHR ''.'' \<or> c = CHR ''_'' \<or> c = CHR ''-'')"

definition sanitiseUsername :: "string \<Rightarrow> string" where
  "sanitiseUsername s = filter username_char (TrimSpace (ToLower s))"

fun first_nonempty :: "string list \<Rightarrow> string" where
  "first_nonempty [] = ''oidc-user''"
| "first_nonempty (raw # rest) = (let u = sanitiseUsername raw in if u \<noteq> '''' then u else first_nonempty rest)"

definition deriveUsername :: "OIDCClaims \<Rightarrow> string" where
  "deriveUsername c = first_nonempty [oc_PreferredUsername c, emailLocalPart (oc_Email c), ''oidc-'' @ shortSub (oc_Sub c)]"

definition shadow_hash :: string where "shadow_hash = ''$argon2id$shadow$oidc''"

datatype oidc_error = OidcLookup | OidcCreate | OidcRandom | ErrUsernameRetryExhausted

text \<open>The retry loop: one element of \<open>tries\<close> per iteration, with its two fresh UUIDs and the random suffix drawn at its end.\<close>

fun create_shadow ::
    "time \<Rightarrow> OIDCClaims \<Rightarrow> string \<Rightarrow> string \<Rightarrow> (uuid \<times> uuid \<times> string option) list \<Rightarrow> auth_db \<Rightarrow>
     (oidc_error + user_row) \<times> auth_db" where
  "create_shadow now claims base username [] db = (Inl ErrUsernameRetryExhausted, db)"
| "create_shadow now claims base username ((i, iid, sfx) # tries) db =
     (case CreateUserWithIdentity i iid now
             \<lparr>ui_Username = username, ui_PasswordHash = shadow_hash, ui_Role = ''viewer'', ui_MustChangePassword = False\<rparr>
             \<lparr>ii_Issuer = oc_Issuer claims, ii_Subject = oc_Sub claims, ii_Email = oc_Email claims\<rparr> db of
        (Inr u, db') \<Rightarrow> (Inr u, db')
      | (Inl e, db') \<Rightarrow>
          if e \<noteq> ErrConflict then (Inl OidcCreate, db')
          else case GetUserByIdentity (oc_Issuer claims) (oc_Sub claims) db' of
                 Inr u \<Rightarrow> (Inr u, db')
               | Inl _ \<Rightarrow>
                   (case RandomSecret sfx of
                      Inl _ \<Rightarrow> (Inl OidcRandom, db')
                    | Inr s \<Rightarrow> create_shadow now claims base (base @ ''-'' @ s) tries db'))"

definition findOrCreateOidcUser ::
    "time \<Rightarrow> OIDCClaims \<Rightarrow> (uuid \<times> uuid \<times> string option) list \<Rightarrow> auth_db \<Rightarrow> (oidc_error + user_row) \<times> auth_db" where
  "findOrCreateOidcUser now claims tries db =
     (case GetUserByIdentity (oc_Issuer claims) (oc_Sub claims) db of
        Inr u \<Rightarrow> (Inr u, db)
      | Inl e \<Rightarrow>
          if e \<noteq> ErrNotFound then (Inl OidcLookup, db)
          else create_shadow now claims (deriveUsername claims) (deriveUsername claims) (take 5 tries) db)"

definition OidcAuthorize :: "time \<Rightarrow> bool \<Rightarrow> string option \<Rightarrow> string option \<Rightarrow> string option \<Rightarrow> auth_db \<Rightarrow> http_resp \<times> auth_db" where
  "OidcAuthorize now configured state verifier nonce db =
     (if \<not> configured then (Resp 404, db)
      else case (state, verifier, nonce) of
             (Some st, Some v, Some n) \<Rightarrow>
               (case CreateOidcAuthState \<lparr>os_state = st, os_code_verifier = v, os_nonce = n, os_created_at = now,
                       os_expires_at = now + oidcStateTTL\<rparr> db of
                  (Inl _, db') \<Rightarrow> (ServerError, db')
                | (Inr _, db') \<Rightarrow> (RespRedirect ''idp'' None, db'))
           | _ \<Rightarrow> (ServerError, db))"

text \<open>\<open>exchange verifier nonce\<close> is the outcome of the code exchange and ID token verification with the provider.\<close>

definition OidcCallback ::
    "'ip auth_env \<Rightarrow> bool \<Rightarrow> session_args \<Rightarrow> auth_request \<Rightarrow> string \<Rightarrow> (string \<Rightarrow> string \<Rightarrow> OIDCClaims option) \<Rightarrow>
     (uuid \<times> uuid \<times> string option) list \<Rightarrow> auth_db \<Rightarrow> http_resp \<times> auth_db" where
  "OidcCallback env configured a r state exchange tries db =
     (if \<not> configured then (RespRedirect ''/ui/login?oidc_error=oidc_not_configured'' None, db)
      else case ConsumeOidcAuthState (ae_now env) state db of
             (Inl _, db1) \<Rightarrow> (RespRedirect ''/ui/login?oidc_error=state_expired_or_unknown'' None, db1)
           | (Inr (verifier, nonce), db1) \<Rightarrow>
               (case exchange verifier nonce of
                  None \<Rightarrow> (RespRedirect ''/ui/login?oidc_error=exchange_failed'' None, db1)
                | Some claims \<Rightarrow>
                    (case findOrCreateOidcUser (ae_now env) claims tries db1 of
                       (Inl _, db2) \<Rightarrow> (RespRedirect ''/ui/login?oidc_error=user_lookup_failed'' None, db2)
                     | (Inr user, db2) \<Rightarrow>
                         (case RandomSecret (sa_random a) of
                            Inl _ \<Rightarrow> (RespRedirect ''/ui/login?oidc_error=session_mint_failed'' None, db2)
                          | Inr sid \<Rightarrow>
                              (case CreateSession (sa_publicID a) (new_session (ae_now env) a sid (us_id user)) db2 of
                                 (Inl _, db3) \<Rightarrow> (RespRedirect ''/ui/login?oidc_error=session_create_failed'' None, db3)
                               | (Inr _, db3) \<Rightarrow>
                                   (RespRedirect ''/ui/'' (Some (SessionCookie env sid (ae_now env + SessionDuration) r)),
                                    TouchUserIdentity (us_id user) (oc_Issuer claims) (oc_Sub claims) (ae_now env)
                                      (TouchUserLogin (us_id user) (ae_now env) db3)))))))"

section \<open>Lemmas on login\<close>

lemma GetUserByUsername_SomeD:
  "GetUserByUsername name db = Inr u \<Longrightarrow>
     u \<in> set (users db) \<and> ToLower (us_username u) = ToLower name \<and> us_disabled_at u = None"
  by (auto simp: GetUserByUsername_def dest: find_SomeD split: option.splits)

lemma find_update_where:
  "(\<And>r. P (f r) = P r) \<Longrightarrow>
     find P (update_where Q f rows) = map_option (\<lambda>r. if Q r then f r else r) (find P rows)"
  by (induction rows) (auto simp: update_where_def)

lemma find_user_unique:
  assumes "db_ok db" "u \<in> set (users db)"
  shows "find (user_with_id (us_id u)) (users db) = Some u"
proof -
  obtain v where v: "find (user_with_id (us_id u)) (users db) = Some v"
    using assms(2) by (cases "find (user_with_id (us_id u)) (users db)") (auto simp: find_None_iff)
  then have "v = u" using assms find_SomeD [OF v] by (auto simp: db_ok_def distinct_map inj_on_def)
  with v show ?thesis by simp
qed

text \<open>One refused login of an unlocked account: the counter goes up by one and the sixth failure locks.\<close>

lemma failed_login_step:
  assumes ok: "db_ok db" and u: "GetUserByUsername name db = Inr u" and "us_locked_at u = None"
    and "name \<noteq> ''''" "pw \<noteq> ''''" "sa_allowed a" and "VerifyPassword (ae_idkey env) pw (us_password_hash u) \<noteq> None"
  shows "fst (Login env a r name pw db) = Resp 401"
    and "GetUserByUsername name (snd (Login env a r name pw db)) =
      Inr (u\<lparr>us_failed_login_count := us_failed_login_count u + 1,
             us_locked_at := (if us_failed_login_count u + 1 \<ge> 6 then Some (ae_now env) else None)\<rparr>)"
    and "sessions (snd (Login env a r name pw db)) = sessions db"
proof -
  have mem: "u \<in> set (users db)" "ToLower (us_username u) = ToLower name" "us_disabled_at u = None"
    using GetUserByUsername_SomeD [OF u] by auto
  have inc: "Login env a r name pw db = (Resp 401, snd (IncrementFailedLogin (ae_now env) (us_id u) 6 db))"
    using assms by (auto simp: Login_def failedLoginLockoutThreshold_def)
  let ?k = "us_failed_login_count u + 1"
  let ?f = "\<lambda>v. if ?k \<ge> 6 then v\<lparr>us_failed_login_count := ?k, us_locked_at := Some (ae_now env)\<rparr>
                else v\<lparr>us_failed_login_count := ?k\<rparr>"
  have upd: "snd (IncrementFailedLogin (ae_now env) (us_id u) 6 db) = update_user (us_id u) ?f db"
    using find_user_unique [OF ok mem(1)] assms(3) by (simp add: IncrementFailedLogin_def Let_def)
  have "find (\<lambda>v. ToLower (us_username v) = ToLower name \<and> us_disabled_at v = None) (users db) = Some u"
    using u by (auto simp: GetUserByUsername_def split: option.splits)
  then have "GetUserByUsername name (update_user (us_id u) ?f db) = Inr (?f u)"
    by (simp add: GetUserByUsername_def update_user_def find_update_where)
  then show "GetUserByUsername name (snd (Login env a r name pw db)) =
      Inr (u\<lparr>us_failed_login_count := ?k, us_locked_at := (if ?k \<ge> 6 then Some (ae_now env) else None)\<rparr>)"
    using assms(3) by (auto simp: inc upd)
  show "fst (Login env a r name pw db) = Resp 401" by (simp add: inc)
  show "sessions (snd (Login env a r name pw db)) = sessions db" by (simp add: inc upd update_user_def)
qed

lemma locked_login:
  assumes "GetUserByUsername name db = Inr u" and "us_locked_at u \<noteq> None" and "name \<noteq> ''''" "pw \<noteq> ''''" "sa_allowed a"
  shows "Login env a r name pw db = (Resp 401, db)"
  using assms by (simp add: Login_def)

text \<open>A run of login attempts on one name.\<close>

type_synonym 'ip attempt = "'ip auth_env \<times> session_args \<times> auth_request \<times> string"

fun attempts :: "string \<Rightarrow> 'ip attempt list \<Rightarrow> auth_db \<Rightarrow> auth_db" where
  "attempts name [] db = db"
| "attempts name ((env, a, r, pw) # as) db = attempts name as (snd (Login env a r name pw db))"

definition wrong_attempt :: "string \<Rightarrow> 'ip attempt \<Rightarrow> bool" where
  "wrong_attempt hash = (\<lambda>(env, a, r, pw). sa_allowed a \<and> pw \<noteq> '''' \<and> VerifyPassword (ae_idkey env) pw hash \<noteq> None)"

lemma Login_db_ok: "db_ok db \<Longrightarrow> db_ok (snd (Login env a r name pw db))"
proof -
  assume ok: "db_ok db"
  have "db_ok (snd (CreateSession p ins db))" for p ins using ok by (rule db_ok_apply_session)
  then have "CreateSession p ins db = (res, db1) \<Longrightarrow> db_ok db1" for p ins res db1 by (metis snd_conv)
  with ok show ?thesis
    by (auto simp: Login_def db_ok_apply_user split: sum.splits option.splits prod.splits)
qed

lemma attempts_count:
  assumes "db_ok db" "GetUserByUsername name db = Inr u" "us_locked_at u = None" "name \<noteq> ''''"
    and "list_all (wrong_attempt (us_password_hash u)) as" "int (length as) + us_failed_login_count u \<le> 5"
  shows "\<exists>u'. GetUserByUsername name (attempts name as db) = Inr u' \<and> us_id u' = us_id u \<and>
    us_password_hash u' = us_password_hash u \<and> us_locked_at u' = None \<and>
    us_failed_login_count u' = us_failed_login_count u + int (length as) \<and> db_ok (attempts name as db)"
  using assms
proof (induction as arbitrary: db u)
  case (Cons x as)
  obtain env a r pw where x: "x = (env, a, r, pw)" by (metis prod.exhaust)
  have w: "sa_allowed a" "pw \<noteq> ''''" "VerifyPassword (ae_idkey env) pw (us_password_hash u) \<noteq> None"
    using Cons.prems(5) by (simp_all add: x wrong_attempt_def)
  let ?db = "snd (Login env a r name pw db)"
  let ?u = "u\<lparr>us_failed_login_count := us_failed_login_count u + 1, us_locked_at := None\<rparr>"
  have "GetUserByUsername name ?db = Inr ?u"
    using failed_login_step(2) [OF Cons.prems(1-4) w(2,1,3), of r] Cons.prems(6) by simp
  from Cons.IH [OF Login_db_ok [OF Cons.prems(1)] this] Cons.prems show ?case by (simp add: x add.assoc)
qed simp

lemma wrong_attempt_sent:
  "list_all (wrong_attempt hash) as \<Longrightarrow> list_all (\<lambda>(env, a, r, pw). sa_allowed a \<and> pw \<noteq> '''') as"
  by (induction as) (auto simp: wrong_attempt_def)

lemma attempts_append: "attempts name (as @ bs) db = attempts name bs (attempts name as db)"
  by (induction name as db rule: attempts.induct) simp_all

lemma attempts_locked:
  assumes "GetUserByUsername name db = Inr u" "us_locked_at u \<noteq> None" "name \<noteq> ''''"
    and "list_all (\<lambda>(env, a, r, pw). sa_allowed a \<and> pw \<noteq> '''') as"
  shows "attempts name as db = db"
  using assms(4) by (induction as) (auto simp: locked_login [OF assms(1,2,3)])

section \<open>Properties\<close>

text \<open>C2: Login, what it takes and does. A login answers 204 only for an enabled, unlocked account whose name matches
  up to case and whose stored hash verifies the password; it then adds exactly one session, for that account, with the
  id sent in the cookie and eight hours to live, and the account's failure counter is zero. Every other answer is 400, 401,
  429 or an error, and adds no session.\<close>

theorem login_sound:
  assumes "Login env a r name pw db = (resp, db')"
  shows "case resp of
      RespCookie status ck \<Rightarrow> status = 204 \<and>
        (\<exists>u\<in>set (users db). \<exists>s. ToLower (us_username u) = ToLower name \<and> us_disabled_at u = None \<and>
          us_locked_at u = None \<and> VerifyPassword (ae_idkey env) pw (us_password_hash u) = None \<and>
          sessions db' = sessions db @ [s] \<and> se_user_id s = us_id u \<and> se_id s = ck_Value ck \<and>
          se_expires_at s = ae_now env + SessionDuration \<and>
          (\<forall>v\<in>set (users db'). us_id v = us_id u \<longrightarrow> us_failed_login_count v = 0 \<and> us_last_login_at v = Some (ae_now env)))
    | RespRedirect l ck \<Rightarrow> False
    | Resp status \<Rightarrow> status \<in> {400, 401, 429} \<and> sessions db' = sessions db
    | ServerError \<Rightarrow> db' = db"
proof (cases "\<exists>u sid. GetUserByUsername name db = Inr u \<and> us_locked_at u = None \<and>
    VerifyPassword (ae_idkey env) pw (us_password_hash u) = None \<and> RandomSecret (sa_random a) = Inr sid \<and>
    name \<noteq> '''' \<and> pw \<noteq> '''' \<and> sa_allowed a")
  case True
  then obtain u sid where h: "GetUserByUsername name db = Inr u" "us_locked_at u = None"
    "VerifyPassword (ae_idkey env) pw (us_password_hash u) = None" "RandomSecret (sa_random a) = Inr sid"
    "name \<noteq> ''''" "pw \<noteq> ''''" "sa_allowed a" by blast
  let ?ins = "new_session (ae_now env) a sid (us_id u)"
  obtain res db1 where cs: "CreateSession (sa_publicID a) ?ins db = (res, db1)" by fastforce
  show ?thesis
  proof (cases res)
    case (Inl e)
    then have "db1 = db" using cs by (auto simp: CreateSession_def split: if_splits)
    with Inl cs h assms show ?thesis by (auto simp: Login_def)
  next
    case (Inr x)
    then obtain s where s: "sessions db1 = sessions db @ [s]" "se_user_id s = us_id u" "se_id s = sid"
        "se_expires_at s = ae_now env + SessionDuration" and us: "users db1 = users db"
      using cs by (auto simp: CreateSession_def new_session_def split: if_splits)
    have out: "resp = RespCookie 204 (SessionCookie env sid (ae_now env + SessionDuration) r)"
        "db' = TouchUserLogin (us_id u) (ae_now env) (snd (ResetFailedLogin (us_id u) db1))"
      using assms h cs Inr by (simp_all add: Login_def)
    have mem: "u \<in> set (users db)" "ToLower (us_username u) = ToLower name" "us_disabled_at u = None"
      using GetUserByUsername_SomeD [OF h(1)] by auto
    then have ex: "user_exists (us_id u) db1" by (auto simp: user_exists_iff us)
    have "sessions db' = sessions db1"
      using ex by (simp add: out TouchUserLogin_def ResetFailedLogin_def update_user_def)
    moreover have "\<forall>v\<in>set (users db'). us_id v = us_id u \<longrightarrow> us_failed_login_count v = 0 \<and> us_last_login_at v = Some (ae_now env)"
      using ex by (auto simp: out TouchUserLogin_def ResetFailedLogin_def update_user_def update_where_def)
    ultimately show ?thesis
      using mem h s by (auto simp: out(1) SessionCookie_def)
  qed
next
  case False
  have "sessions (snd (IncrementFailedLogin now i th db)) = sessions db" for now i th
    by (simp add: IncrementFailedLogin_def update_user_def Let_def split: option.splits)
  with False assms show ?thesis
    by (auto simp: Login_def split: if_splits sum.splits option.splits)
qed

text \<open>Login, lock-out. Starting from an unlocked account without failures, any number of attempts with wrong passwords
  lock the account exactly when there were at least six of them; from then on every attempt, with the right
  password too, is answered 401 and changes nothing.\<close>

theorem lockout_after_six:
  fixes as :: "'ip attempt list"
  assumes "db_ok db" and "GetUserByUsername name db = Inr u" and "us_locked_at u = None" and "us_failed_login_count u = 0"
    and "name \<noteq> ''''" and "list_all (wrong_attempt (us_password_hash u)) as"
  shows "\<exists>u'. GetUserByUsername name (attempts name as db) = Inr u' \<and> us_id u' = us_id u \<and>
    (us_locked_at u' \<noteq> None \<longleftrightarrow> 6 \<le> length as) \<and>
    (6 \<le> length as \<longrightarrow> (\<forall>(env :: 'ip auth_env) a r pw. pw \<noteq> '''' \<and> sa_allowed a \<longrightarrow>
       Login env a r name pw (attempts name as db) = (Resp 401, attempts name as db)))"
proof (cases "length as \<le> 5")
  case True
  with attempts_count [OF assms(1-3,5,6)] assms(4) show ?thesis by force
next
  case False
  then obtain five x rest where as: "as = five @ x # rest" "length five = 5"
    by (metis Suc_le_eq append_take_drop_id id_take_nth_drop length_take min.absorb2 not_le order_less_imp_le eval_nat_numeral(3))
  obtain env a r pw where x: "x = (env, a, r, pw)" by (metis prod.exhaust)
  have five: "list_all (wrong_attempt (us_password_hash u)) five" and wx: "wrong_attempt (us_password_hash u) x"
    and rest: "list_all (\<lambda>(env, a, r, pw). sa_allowed a \<and> pw \<noteq> '''') rest"
    using assms(6) wrong_attempt_sent [of _ rest] by (auto simp: as(1))
  obtain u5 where u5: "GetUserByUsername name (attempts name five db) = Inr u5" "us_id u5 = us_id u"
    "us_password_hash u5 = us_password_hash u" "us_locked_at u5 = None" "us_failed_login_count u5 = 5"
    "db_ok (attempts name five db)"
    using attempts_count [OF assms(1-3,5) five] assms(4) as(2) by auto
  let ?db6 = "snd (Login env a r name pw (attempts name five db))"
  have "GetUserByUsername name ?db6 = Inr (u5\<lparr>us_failed_login_count := 6, us_locked_at := Some (ae_now env)\<rparr>)"
    using failed_login_step(2) [OF u5(6,1,4) assms(5), of pw a env r] wx u5 by (simp add: x wrong_attempt_def)
  then obtain u6 where u6: "GetUserByUsername name ?db6 = Inr u6" "us_locked_at u6 \<noteq> None" "us_id u6 = us_id u"
    using u5(2) by fastforce
  have "attempts name as db = ?db6"
    using attempts_locked [OF u6(1,2) assms(5) rest] by (simp add: as(1) x attempts_append)
  then show ?thesis using u6 False locked_login [OF u6(1,2) assms(5)] by auto
qed

definition login_args :: session_args where
  "login_args = \<lparr>sa_allowed = True, sa_random = Some ''random'', sa_publicID = 9, sa_userAgent = '''', sa_sourceIP = ''''\<rparr>"

definition sample_hash :: string where
  "sample_hash = phc_string 19 argonMemory argonTime argonThreads ''salt''
     (sample_idkey ''pass'' ''salt'' argonTime argonMemory argonThreads argonKeyLen)"

lemma sample_hash_verifies: "VerifyPassword sample_idkey ''pass'' sample_hash = None"
  by (rule password_hash_verifies [where idkey = sample_idkey and salt = "''salt''", OF sample_idkey_length])
    (simp add: HashPassword_def sample_hash_def)

definition login_db :: auth_db where
  "login_db = sample_db\<lparr>users := [admin_row 1 ''root'', (admin_row 2 ''Ann'')\<lparr>us_password_hash := sample_hash\<rparr>]\<rparr>"

lemma login_db_ok: "db_ok login_db"
  using sample_db_ok by (simp add: db_ok_def sample_db_def login_db_def admin_row_def new_user_def)

lemma login_db_user: "GetUserByUsername ''ann'' login_db = Inr ((admin_row 2 ''Ann'')\<lparr>us_password_hash := sample_hash\<rparr>)"
proof -
  have "ToLower ''Ann'' = ''ann''" "ToLower ''ann'' = ''ann''" "ToLower ''root'' = ''root''" by code_simp+
  then show ?thesis by (simp add: GetUserByUsername_def login_db_def admin_row_def new_user_def)
qed

lemma login_example:
  "\<exists>ck db'. Login session_env login_args session_request ''ann'' ''pass'' login_db = (RespCookie 204 ck, db')"
proof -
  have "RandomSecret (sa_random login_args) = Inr (b64_encode url_alphabet ''random'')"
    by (simp add: RandomSecret_def login_args_def)
  then show ?thesis
    using login_db_user sample_hash_verifies
    by (simp add: Login_def session_env_def login_args_def admin_row_def new_user_def CreateSession_def new_session_def
        user_exists_def login_db_def sample_db_def)
qed

theorem login_sound_witness:
  "\<exists>s. sessions (snd (Login session_env login_args session_request ''ann'' ''pass'' login_db)) = sessions login_db @ [s] \<and>
     se_user_id s \<in> us_id ` set (users login_db)"
proof -
  obtain ck db' where l: "Login session_env login_args session_request ''ann'' ''pass'' login_db = (RespCookie 204 ck, db')"
    using login_example by blast
  from login_sound [OF l] l show ?thesis by auto
qed

theorem lockout_after_six_witness:
  "fst (Login session_env login_args session_request ''ann'' ''pass'' login_db) \<noteq> Resp 401 \<and>
   fst (Login session_env login_args session_request ''ann'' ''pass''
     (attempts ''ann'' (replicate 6 (session_env, login_args, session_request, ''guess'')) login_db)) = Resp 401"
proof -
  let ?u = "(admin_row 2 ''Ann'')\<lparr>us_password_hash := sample_hash\<rparr>"
  have "sample_idkey ''guess'' ''salt'' argonTime argonMemory argonThreads argonKeyLen \<noteq>
      sample_idkey ''pass'' ''salt'' argonTime argonMemory argonThreads argonKeyLen"
    by (simp add: sample_idkey_def argonKeyLen_def)
  then have "VerifyPassword sample_idkey ''guess'' sample_hash \<noteq> None"
    using verify_phc [where idkey = sample_idkey, OF sample_idkey_length, of 19 argonMemory argonTime argonThreads "''guess''" "''salt''" "''pass''" argonKeyLen]
    by (simp add: sample_hash_def argonMemory_def argonTime_def argonThreads_def)
  then have wrong: "list_all (wrong_attempt (us_password_hash ?u)) (replicate 6 (session_env, login_args, session_request, ''guess''))"
    by (simp add: list_all_iff wrong_attempt_def login_args_def session_env_def)
  have allowed: "sa_allowed login_args" by (simp add: login_args_def)
  have "us_locked_at ?u = None" "us_failed_login_count ?u = 0" by (simp_all add: admin_row_def new_user_def)
  from lockout_after_six [OF login_db_ok login_db_user this _ wrong]
  have "Login session_env login_args session_request ''ann'' ''pass''
     (attempts ''ann'' (replicate 6 (session_env, login_args, session_request, ''guess'')) login_db) =
     (Resp 401, attempts ''ann'' (replicate 6 (session_env, login_args, session_request, ''guess'')) login_db)"
    using allowed by simp blast
  moreover have "fst (Login session_env login_args session_request ''ann'' ''pass'' login_db) \<noteq> Resp 401"
    using login_example by auto
  ultimately show ?thesis by simp
qed

lemma UpdateUserGuarded_last:
  assumes "find (user_with_id i) (users db) = Some u" "active_admin u" "other_admins i db = 0" "up_Disabled p = Some True"
  shows "UpdateUserGuarded now i p db = (Inl ErrLastAdmin, db)"
  using assms by (simp add: UpdateUserGuarded_def active_admin_def Let_def)

text \<open>C34: User update, a defect. A request that sets a new password and disables the only active admin is refused with 409,
  but the password has already been replaced and every session of that admin deleted: the refused request locks the
  admin out of the account with the old password.\<close>

theorem refused_update_changes_password:
  assumes "db_ok db" and "u \<in> set (users db)" and "active_admin u" and "other_admins (us_id u) db = 0"
    and "up_Disabled patch = Some True" and "up_Role patch = None"
    and "minPasswordLength \<le> length pw" and "HashPassword (ae_idkey env) salt pw = Inr hash"
  shows "\<exists>db'. api_UpdateUser env (us_id u) salt patch (Some pw) db = (Resp 409, db') \<and>
    u\<lparr>us_password_hash := hash, us_must_change_password := True, us_updated_at := ae_now env\<rparr> \<in> set (users db') \<and>
    (\<forall>s\<in>set (sessions db'). se_user_id s \<noteq> us_id u)"
proof -
  let ?f = "\<lambda>v. v\<lparr>us_password_hash := hash, us_must_change_password := True, us_updated_at := ae_now env\<rparr>"
  let ?db = "DeleteSessionsForUser (us_id u) (update_user (us_id u) ?f db)"
  have set: "SetUserPassword (ae_now env) (us_id u) hash True db = (Inr (), ?db)"
    using assms(2) by (auto simp: SetUserPassword_def user_exists_iff)
  have users: "users ?db = update_where (user_with_id (us_id u)) ?f (users db)"
    by (simp add: DeleteSessionsForUser_def update_user_def)
  have found: "find (user_with_id (us_id u)) (users ?db) = Some (?f u)"
    using find_user_unique [OF assms(1,2)] by (simp add: users find_update_where)
  have others: "other_admins (us_id u) ?db = 0"
    using assms(4) by (auto simp: other_admins_def users update_where_def filter_empty_conv active_admin_def)
  have "active_admin (?f u)" using assms(3) by (simp add: active_admin_def)
  from UpdateUserGuarded_last [OF found this others assms(5)]
  have "api_UpdateUser env (us_id u) salt patch (Some pw) db = (Resp 409, ?db)"
    using assms(6-8) set by (simp add: api_UpdateUser_def update_guarded_response_def)
  moreover have "?f u \<in> set (users ?db)"
    using update_where_mem [OF assms(2), of "user_with_id (us_id u)" ?f] by (simp add: users)
  moreover have "\<forall>s\<in>set (sessions ?db). se_user_id s \<noteq> us_id u" by (simp add: DeleteSessionsForUser_def)
  ultimately show ?thesis by blast
qed

definition lone_admin_db :: auth_db where
  "lone_admin_db = login_db\<lparr>users := [admin_row 2 ''Ann'']\<rparr>"

theorem refused_update_changes_password_witness:
  "\<exists>db'. api_UpdateUser session_env 2 (Some ''salt'') \<lparr>up_Role = None, up_MustChangePassword = None, up_Disabled = Some True, up_Unlock = None\<rparr>
      (Some ''correct horse'') lone_admin_db = (Resp 409, db') \<and> map us_must_change_password (users db') = [True] \<and>
    map us_must_change_password (users lone_admin_db) = [False]"
proof -
  let ?p = "\<lparr>up_Role = None, up_MustChangePassword = None, up_Disabled = Some True, up_Unlock = None\<rparr>"
  let ?u = "admin_row 2 ''Ann''"
  have ok: "db_ok lone_admin_db"
    by (simp add: db_ok_def lone_admin_db_def login_db_def sample_db_def admin_row_def new_user_def valid_roles_def)
  have mem: "?u \<in> set (users lone_admin_db)" "us_id ?u = 2" "active_admin ?u" "other_admins (us_id ?u) lone_admin_db = 0"
    by (simp_all add: lone_admin_db_def admin_row_def active_admin_def other_admins_def new_user_def)
  obtain h where "HashPassword (ae_idkey session_env) (Some ''salt'') ''correct horse'' = Inr h"
    by (simp add: HashPassword_def)
  from refused_update_changes_password [OF ok mem(1,3,4) _ _ _ this, of ?p]
  obtain db' where d: "api_UpdateUser session_env 2 (Some ''salt'') ?p (Some ''correct horse'') lone_admin_db = (Resp 409, db')"
      "?u\<lparr>us_password_hash := h, us_must_change_password := True, us_updated_at := ae_now session_env\<rparr> \<in> set (users db')"
    by (auto simp: minPasswordLength_def mem(2))
  have "length (users db') = 1"
  proof -
    have "length (users (snd (api_UpdateUser session_env 2 (Some ''salt'') ?p (Some ''correct horse'') lone_admin_db))) = 1"
      by (simp add: api_UpdateUser_def update_guarded_response_def UpdateUserGuarded_def SetUserPassword_def minPasswordLength_def
          HashPassword_def user_exists_def update_user_def update_where_def DeleteSessionsForUser_def lone_admin_db_def
          admin_row_def new_user_def active_admin_def other_admins_def Let_def)
    with d(1) show ?thesis by simp
  qed
  with d show ?thesis by (auto simp: length_Suc_conv lone_admin_db_def admin_row_def new_user_def)
qed

lemma CreateAPIToken_row:
  assumes "CreateAPIToken now ins db = (Inr row, db')"
  shows "row = \<lparr>tk_id = ai_ID ins, tk_name = ai_Name ins, tk_prefix = ai_Prefix ins, tk_hash = ai_Hash ins,
      tk_scopes = ai_Scopes ins, tk_created_by_user_id = ai_CreatedByUserID ins, tk_created_at = now,
      tk_last_used_at = None, tk_expires_at = ai_ExpiresAt ins, tk_revoked_at = None,
      tk_bound_cloud_account_id = ai_BoundCloudAccountID ins\<rparr> \<and>
    api_tokens db' = api_tokens db @ [row] \<and> ai_Prefix ins \<notin> tk_prefix ` set (api_tokens db)"
proof -
  have app: "find P (ts @ [t]) = (if find P ts = None then if P t then Some t else None else find P ts)" for P and t :: token_row and ts
    by (induction ts) auto
  have fresh: "\<not> list_ex (\<lambda>t. tk_id t = ai_ID ins \<or> tk_prefix t = ai_Prefix ins) (api_tokens db)"
    using assms by (auto simp: CreateAPIToken_def split: if_splits)
  then have "find (\<lambda>t. tk_id t = ai_ID ins) (api_tokens db) = None" "ai_Prefix ins \<notin> tk_prefix ` set (api_tokens db)"
    by (auto simp: find_None_iff list_ex_iff)
  with assms fresh show ?thesis by (auto simp: CreateAPIToken_def getAPIToken_def Let_def app split: if_splits)
qed

lemma created_token:
  assumes "CreateApiToken env a (Some c) name scopes expiresAt db = (Inr (plain, row), db')"
  obtains minted where "MintToken (ae_idkey env) (ta_prefixBytes a) (ta_suffixBytes a) (ta_salt a) = Inr minted"
    "plain = Plaintext minted" "tk_prefix row = Prefix minted" "tk_hash row = Hash minted" "tk_scopes row = scopes"
    "tk_name row = name" "tk_id row = ta_id a" "tk_created_by_user_id row = ca_UserID c" "tk_expires_at row = expiresAt"
    "tk_revoked_at row = None" "tk_bound_cloud_account_id row = None" "api_tokens db' = api_tokens db @ [row]"
    "Prefix minted \<notin> tk_prefix ` set (api_tokens db)"
    "set scopes \<subseteq> {''read'', ''write'', ''delete''}" "name \<noteq> ''''"
proof -
  obtain minted where m: "MintToken (ae_idkey env) (ta_prefixBytes a) (ta_suffixBytes a) (ta_salt a) = Inr minted"
    using assms by (cases "MintToken (ae_idkey env) (ta_prefixBytes a) (ta_suffixBytes a) (ta_salt a)")
      (auto simp: CreateApiToken_def split: if_splits)
  have name: "TrimSpace name \<noteq> ''''" and sc: "set scopes \<subseteq> {''read'', ''write'', ''delete''}"
    using assms by (auto simp: CreateApiToken_def list_all_iff split: if_splits)
  then have "name \<noteq> ''''" by (auto simp: TrimSpace_def)
  have created: "plain = Plaintext minted"
    "CreateAPIToken (ae_now env) \<lparr>ai_ID = ta_id a, ai_Name = name, ai_Prefix = Prefix minted, ai_Hash = Hash minted,
       ai_Scopes = scopes, ai_CreatedByUserID = ca_UserID c, ai_ExpiresAt = expiresAt, ai_BoundCloudAccountID = None\<rparr> db = (Inr row, db')"
    using assms m by (auto simp: CreateApiToken_def split: if_splits sum.splits prod.splits)
  from CreateAPIToken_row [OF this(2)] show ?thesis using m created(1) sc \<open>name \<noteq> ''''\<close> by (elim conjE, intro that) simp_all
qed

lemma minted_row_verifies:
  assumes "\<And>pw s t m p n. length (ae_idkey env pw s t m p n) = n" and "length pb = tokenPrefixLen div 2"
    and m: "MintToken (ae_idkey env) (Some pb) sb salt = Inr minted"
    and c: "CreateAPIToken now ins db = (Inr row, db')" "ai_Prefix ins = Prefix minted" "ai_Hash ins = Hash minted"
    and "ae_idkey env' = ae_idkey env" and live: "case ai_ExpiresAt ins of None \<Rightarrow> True | Some e \<Rightarrow> ae_now env' < e"
  shows "VerifyBearerToken env' (pg_store (ae_now env')) (Plaintext minted) db' =
      (Inr \<lparr>ca_Kind = CallerKindToken, ca_UserID = ai_CreatedByUserID ins, ca_TokenID = ai_ID ins, ca_SessionID = '''', ca_Username = '''',
            ca_TokenName = ai_Name ins, ca_Role = '''', ca_Scopes = ai_Scopes ins, ca_MustChangePassword = False,
            ca_BoundCloudAccountID = ai_BoundCloudAccountID ins\<rparr>, TouchToken (ai_ID ins) (ae_now env') db')"
proof -
  note row = CreateAPIToken_row [OF c(1)]
  have p: "ParseToken (Plaintext minted) = Inr (Prefix minted, Plaintext minted)" "VerifyPassword (ae_idkey env) (Plaintext minted) (tk_hash row) = None"
    using minted_token [where idkey = "ae_idkey env", OF assms(1,2)] m c row by simp_all
  have "find (\<lambda>t. tk_prefix t = Prefix minted \<and> token_live (ae_now env') t) (ts @ [row]) = Some row"
    if "Prefix minted \<notin> tk_prefix ` set ts" for ts
    using that live row c(2) by (induction ts) (auto simp: token_live_def)
  then have "st_GetActiveTokenByPrefix (pg_store (ae_now env')) (Prefix minted) db' =
      Inr \<lparr>at_ID = ai_ID ins, at_Name = ai_Name ins, at_Hash = tk_hash row, at_Scopes = ai_Scopes ins,
           at_CreatedByUserID = ai_CreatedByUserID ins, at_BoundCloudAccountID = ai_BoundCloudAccountID ins\<rparr>"
    using row c(2) by (simp add: pg_store_def GetActiveTokenByPrefix_def)
  then show ?thesis using p by (simp add: VerifyBearerToken_def assms(7)) (simp add: pg_store_def)
qed

lemma created_token_verifies:
  assumes "\<And>pw s t m p n. length (ae_idkey env pw s t m p n) = n"
    and "ta_prefixBytes a = Some pb" and "length pb = tokenPrefixLen div 2"
    and "CreateApiToken env a (Some c) name scopes expiresAt db = (Inr (plain, row), db')"
    and "ae_idkey env' = ae_idkey env" and "case expiresAt of None \<Rightarrow> True | Some e \<Rightarrow> ae_now env' < e"
  shows "VerifyBearerToken env' (pg_store (ae_now env')) plain db' =
      (Inr \<lparr>ca_Kind = CallerKindToken, ca_UserID = ca_UserID c, ca_TokenID = ta_id a, ca_SessionID = '''', ca_Username = '''',
            ca_TokenName = name, ca_Role = '''', ca_Scopes = scopes, ca_MustChangePassword = False,
            ca_BoundCloudAccountID = None\<rparr>, TouchToken (ta_id a) (ae_now env') db')"
proof -
  obtain minted where m: "MintToken (ae_idkey env) (Some pb) (ta_suffixBytes a) (ta_salt a) = Inr minted" and plain: "plain = Plaintext minted"
    and "CreateAPIToken (ae_now env) \<lparr>ai_ID = ta_id a, ai_Name = name, ai_Prefix = Prefix minted, ai_Hash = Hash minted,
       ai_Scopes = scopes, ai_CreatedByUserID = ca_UserID c, ai_ExpiresAt = expiresAt, ai_BoundCloudAccountID = None\<rparr> db = (Inr row, db')"
    using assms(2,4) by (auto simp: CreateApiToken_def split: if_splits sum.splits prod.splits)
  from minted_row_verifies [where env = env and env' = env', OF assms(1,3) m this(3)] assms(5,6) show ?thesis unfolding plain by simp
qed

text \<open>C26: Issued tokens, round trip. The plaintext an administrator received from \<^verbatim>\<open>CreateApiToken\<close>, sent as a bearer
  token before its expiry, is answered by the verify endpoint with exactly the granted scopes and no account binding, and
  passes the middleware exactly on the operations whose required scopes were granted; the granted scopes are among
  read, write and delete.\<close>

theorem created_token_authenticates:
  assumes "\<And>pw s t m p n. length (ae_idkey env pw s t m p n) = n"
    and "ta_prefixBytes a = Some pb" and "length pb = tokenPrefixLen div 2"
    and "CreateApiToken env a (Some c) name scopes expiresAt db = (Inr (plain, row), db')"
    and "ae_idkey env' = ae_idkey env" and "case expiresAt of None \<Rightarrow> True | Some e \<Rightarrow> ae_now env' < e"
  shows "fst (VerifyToken env' True plain db') =
      Inr \<lparr>vt_CallerId = ta_id a, vt_TokenName = Some name, vt_Scopes = scopes, vt_BoundCloudAccountId = None\<rparr> \<and>
    (ar_Cookie r = None \<and> ar_Authorization r = ''Bearer '' @ plain \<longrightarrow>
      (case fst (Middleware env' (pg_store (ae_now env')) (Some required) cookie r db') of
         Next (Some caller) \<Rightarrow> set required \<subseteq> set scopes \<and> ca_Scopes caller = scopes \<and> ca_UserID caller = ca_UserID c
       | Next None \<Rightarrow> False
       | Problem status title \<Rightarrow> status = 403 \<and> \<not> set required \<subseteq> set scopes)) \<and>
    set scopes \<subseteq> {''read'', ''write'', ''delete''}"
proof -
  from assms(4) obtain minted where m: "plain = Plaintext minted" "set scopes \<subseteq> {''read'', ''write'', ''delete''}" "name \<noteq> ''''"
    "MintToken (ae_idkey env) (ta_prefixBytes a) (ta_suffixBytes a) (ta_salt a) = Inr minted"
    by (rule created_token) blast
  have ne: "plain \<noteq> ''''"
  proof -
    have "ParseToken plain \<noteq> Inl ErrInvalidTokenFormat"
      using minted_token [where idkey = "ae_idkey env", OF assms(1,3)] m(1,4) assms(2) by auto
    then show ?thesis by (auto simp: ParseToken_def TokenScheme_def TokenSchemeLegacy_def Let_def)
  qed
  note v = created_token_verifies [OF assms]
  have "fst (VerifyToken env' True plain db') =
      Inr \<lparr>vt_CallerId = ta_id a, vt_TokenName = Some name, vt_Scopes = scopes, vt_BoundCloudAccountId = None\<rparr>"
    using v ne m(3) by (simp add: VerifyToken_def null_if_empty_def)
  moreover have "''admin'' \<notin> set scopes" using m(2) by auto
  then have "ar_Cookie r = None \<and> ar_Authorization r = ''Bearer '' @ plain \<longrightarrow>
      (case fst (Middleware env' (pg_store (ae_now env')) (Some required) cookie r db') of
         Next (Some caller) \<Rightarrow> set required \<subseteq> set scopes \<and> ca_Scopes caller = scopes \<and> ca_UserID caller = ca_UserID c
       | Next None \<Rightarrow> False
       | Problem status title \<Rightarrow> status = 403 \<and> \<not> set required \<subseteq> set scopes)"
    using v ne
    by (auto simp: Middleware_def requiredScopes_def resolve_def tryCookie_def tryBearer_def Let_def TrimPrefix_def
        Caller_HasScope_def has_scope_iff list_ex_iff)
  ultimately show ?thesis using m(2) by blast
qed

definition token_request :: "string \<Rightarrow> auth_request" where
  "token_request tok = session_request\<lparr>ar_Cookie := None, ar_Authorization := ''Bearer '' @ tok\<rparr>"

definition sample_token_args :: token_args where
  "sample_token_args = \<lparr>ta_id = 40, ta_prefixBytes = Some ''abcd'', ta_suffixBytes = Some ''suffix'', ta_salt = Some ''salt''\<rparr>"

lemma sample_token_created:
  "\<exists>plain row db'. CreateApiToken session_env sample_token_args (Some session_caller) ''robot'' [''read''] (Some 100) login_db =
     (Inr (plain, row), db')"
proof -
  have "user_exists 2 login_db" by (simp add: user_exists_def login_db_def admin_row_def new_user_def)
  moreover have "hex_encode ''abcd'' = ''61626364''" "TrimSpace ''robot'' = ''robot''" by code_simp+
  ultimately show ?thesis
    by (simp add: CreateApiToken_def MintToken_def sample_token_args_def RandomSecret_def HashPassword_def CreateAPIToken_def
        getAPIToken_def session_caller_def login_db_def sample_db_def Let_def)
qed

theorem created_token_authenticates_witness:
  "\<exists>plain db'. (\<exists>row. CreateApiToken session_env sample_token_args (Some session_caller) ''robot'' [''read''] (Some 100) login_db =
      (Inr (plain, row), db')) \<and>
    (\<exists>c. fst (Middleware session_env (pg_store 50) (Some [''read'']) None (token_request plain) db') = Next (Some c)) \<and>
    (\<exists>t. fst (Middleware session_env (pg_store 50) (Some [''write'']) None (token_request plain) db') = Problem 403 t)"
proof -
  obtain plain row db' where c: "CreateApiToken session_env sample_token_args (Some session_caller) ''robot'' [''read''] (Some 100) login_db =
      (Inr (plain, row), db')" using sample_token_created by blast
  have h: "length (ae_idkey session_env pw s t m p n) = n" for pw s t m p n
    by (simp add: session_env_def sample_idkey_length)
  have "ta_prefixBytes sample_token_args = Some ''abcd''" "length ''abcd'' = tokenPrefixLen div 2"
    "case Some 100 of None \<Rightarrow> True | Some e \<Rightarrow> ae_now session_env < e"
    by (simp_all add: sample_token_args_def tokenPrefixLen_def session_env_def)
  from created_token_authenticates [OF h this(1,2) c refl this(3), where r = "token_request plain" and cookie = None and required = "[''read'']"]
    created_token_authenticates [OF h this(1,2) c refl this(3), where r = "token_request plain" and cookie = None and required = "[''write'']"]
  show ?thesis using c
    by (auto simp: token_request_def session_env_def split: mw_outcome.splits option.splits)
qed

lemma shadow_never_verifies: "VerifyPassword idkey pw shadow_hash \<noteq> None"
proof -
  have "length (Split shadow_hash (CHR ''$'')) = 4" unfolding shadow_hash_def by code_simp
  then show ?thesis by (simp add: VerifyPassword_def Let_def)
qed

section \<open>Sign-on through the identity provider\<close>

definition has_identity :: "OIDCClaims \<Rightarrow> user_row \<Rightarrow> auth_db \<Rightarrow> bool" where
  "has_identity claims u db \<longleftrightarrow>
     list_ex (\<lambda>d. id_issuer d = oc_Issuer claims \<and> id_subject d = oc_Sub claims \<and> id_user_id d = us_id u) (user_identities db)"

lemma GetUserByIdentity_InrD:
  "GetUserByIdentity (oc_Issuer claims) (oc_Sub claims) db = Inr u \<Longrightarrow>
     u \<in> set (users db) \<and> us_disabled_at u = None \<and> has_identity claims u db"
  by (auto simp: GetUserByIdentity_def has_identity_def dest: find_SomeD split: option.splits)

lemma CreateUserWithIdentity_Inl: "CreateUserWithIdentity i iid now ins ident db = (Inl e, db') \<Longrightarrow> db' = db \<or> e \<noteq> ErrConflict"
  by (auto simp: CreateUserWithIdentity_def GetUser_def Let_def split: if_splits prod.splits sum.splits option.splits)

lemma CreateUserWithIdentity_Inr:
  assumes "CreateUserWithIdentity i iid now ins ident db = (Inr u, db')"
  shows "u = new_user i now ins \<and> users db' = users db @ [u] \<and> sessions db' = sessions db \<and>
    (\<exists>d. user_identities db' = user_identities db @ [d] \<and> id_issuer d = ii_Issuer ident \<and> id_subject d = ii_Subject ident \<and>
       id_user_id d = i) \<and> oidc_auth_states db' = oidc_auth_states db"
proof -
  have fresh: "\<not> list_ex (\<lambda>v. us_id v = i) (users db)"
    using assms by (auto simp: CreateUserWithIdentity_def insert_user_def list_ex_iff split: if_splits)
  have app: "find P (vs @ [v]) = (if find P vs = None then if P v then Some v else None else find P vs)" for P and v :: user_row and vs
    by (induction vs) auto
  have "find (user_with_id i) (users db) = None" using fresh by (auto simp: find_None_iff list_ex_iff)
  with assms show ?thesis
    by (auto simp: CreateUserWithIdentity_def insert_user_def GetUser_def app Let_def split: if_splits)
qed

definition shadow_of :: "OIDCClaims \<Rightarrow> auth_db \<Rightarrow> user_row \<Rightarrow> auth_db \<Rightarrow> bool" where
  "shadow_of claims db u db' \<longleftrightarrow>
     u \<in> set (users db') \<and> us_disabled_at u = None \<and> has_identity claims u db' \<and> sessions db' = sessions db \<and>
     oidc_auth_states db' = oidc_auth_states db \<and>
     (users db' = users db \<or> users db' = users db @ [u] \<and> us_role u = ''viewer'' \<and> us_password_hash u = shadow_hash)"

lemma has_identity_touch [simp]:
  "has_identity claims v (TouchUserIdentity i iss sub now db) \<longleftrightarrow> has_identity claims v db"
proof -
  have "list_ex P (update_where Q f rows) = list_ex P rows" if "\<And>r. P (f r) = P r" for P Q f and rows :: "identity_row list"
    using that by (induction rows) (auto simp: update_where_def)
  then show ?thesis by (simp add: has_identity_def TouchUserIdentity_def)
qed

lemma shadow_of_found: "GetUserByIdentity (oc_Issuer claims) (oc_Sub claims) db = Inr u \<Longrightarrow> shadow_of claims db u db"
  by (auto simp: shadow_of_def dest: GetUserByIdentity_InrD)

lemma create_shadow_sound:
  "create_shadow now claims base name tries db = (res, db') \<Longrightarrow>
     case res of Inr u \<Rightarrow> shadow_of claims db u db' | Inl _ \<Rightarrow> sessions db' = sessions db"
proof (induction now claims base name tries db rule: create_shadow.induct)
  case (2 now claims base name i iid sfx tries db)
  let ?ins = "\<lparr>ui_Username = name, ui_PasswordHash = shadow_hash, ui_Role = ''viewer'', ui_MustChangePassword = False\<rparr>"
  let ?ident = "\<lparr>ii_Issuer = oc_Issuer claims, ii_Subject = oc_Sub claims, ii_Email = oc_Email claims\<rparr>"
  obtain r db1 where c: "CreateUserWithIdentity i iid now ?ins ?ident db = (r, db1)" by fastforce
  show ?case
  proof (cases r)
    case (Inr u)
    with c have "u = new_user i now ?ins" "users db1 = users db @ [u]" "sessions db1 = sessions db"
        "oidc_auth_states db1 = oidc_auth_states db" "has_identity claims u db1"
      using CreateUserWithIdentity_Inr [of i iid now ?ins ?ident db u db1] by (auto simp: has_identity_def)
    with c Inr 2(2) show ?thesis by (auto simp: shadow_of_def new_user_def)
  next
    case (Inl e)
    have s: "sessions db1 = sessions db"
      using c Inl by (auto simp: CreateUserWithIdentity_def insert_user_def Let_def split: if_splits)
    show ?thesis
    proof (cases "e = ErrConflict")
      case False
      with c Inl 2(2) s show ?thesis by auto
    next
      case True
      then have db1: "db1 = db" using c Inl CreateUserWithIdentity_Inl by blast
      show ?thesis
        using 2(1) [of "Inl e" db1 e] 2(2) c Inl True db1 GetUserByIdentity_InrD [of claims db]
        by (auto simp: shadow_of_def split: sum.splits)
    qed
  qed
qed auto

lemma findOrCreateOidcUser_sound:
  "findOrCreateOidcUser now claims tries db = (res, db') \<Longrightarrow>
     case res of Inr u \<Rightarrow> shadow_of claims db u db' | Inl _ \<Rightarrow> sessions db' = sessions db"
  using create_shadow_sound [of now claims "deriveUsername claims" "deriveUsername claims" "take 5 tries" db res db']
    shadow_of_found [of claims db]
  by (cases "GetUserByIdentity (oc_Issuer claims) (oc_Sub claims) db") (auto simp: findOrCreateOidcUser_def split: if_splits)

text \<open>C27: Single sign-on. When the OIDC callback signs somebody in, the state parameter named a login started here and not
  expired, it is consumed (so it cannot be replayed), and the one session added belongs to an enabled account bound to the issuer
  and subject the provider vouched for. An account the callback creates is a viewer with a hash no password verifies against;
  in every other case there is a redirect without cookie and no session is added.\<close>

theorem oidc_callback_sound:
  assumes "OidcCallback env configured a r state exchange tries db = (resp, db')"
  shows "case resp of
      RespRedirect loc (Some ck) \<Rightarrow>
        (\<exists>q\<in>set (oidc_auth_states db). os_state q = state \<and> os_expires_at q > ae_now env \<and>
          state \<notin> os_state ` set (oidc_auth_states db') \<and>
          (\<exists>claims u s. exchange (os_code_verifier q) (os_nonce q) = Some claims \<and>
            u \<in> set (users db') \<and> us_disabled_at u = None \<and> has_identity claims u db' \<and>
            sessions db' = sessions db @ [s] \<and> se_user_id s = us_id u \<and> se_id s = ck_Value ck \<and>
            (us_id u \<in> us_id ` set (users db) \<or>
             us_role u = ''viewer'' \<and> (\<forall>pw. VerifyPassword (ae_idkey env) pw (us_password_hash u) \<noteq> None))))
    | RespRedirect loc None \<Rightarrow> sessions db' = sessions db
    | _ \<Rightarrow> False"
proof (cases "\<exists>q db1 claims u db2 sid db3. configured \<and>
    find (\<lambda>q. os_state q = state \<and> os_expires_at q > ae_now env) (oidc_auth_states db) = Some q \<and>
    ConsumeOidcAuthState (ae_now env) state db = (Inr (os_code_verifier q, os_nonce q), db1) \<and>
    exchange (os_code_verifier q) (os_nonce q) = Some claims \<and> findOrCreateOidcUser (ae_now env) claims tries db1 = (Inr u, db2) \<and>
    RandomSecret (sa_random a) = Inr sid \<and>
    CreateSession (sa_publicID a) (new_session (ae_now env) a sid (us_id u)) db2 = (Inr (), db3)")
  case True
  then obtain q db1 claims u db2 sid db3 where h: "configured"
    "find (\<lambda>q. os_state q = state \<and> os_expires_at q > ae_now env) (oidc_auth_states db) = Some q"
    "ConsumeOidcAuthState (ae_now env) state db = (Inr (os_code_verifier q, os_nonce q), db1)"
    "exchange (os_code_verifier q) (os_nonce q) = Some claims" "findOrCreateOidcUser (ae_now env) claims tries db1 = (Inr u, db2)"
    "RandomSecret (sa_random a) = Inr sid"
    "CreateSession (sa_publicID a) (new_session (ae_now env) a sid (us_id u)) db2 = (Inr (), db3)" by blast
  have db1: "users db1 = users db" "sessions db1 = sessions db" "state \<notin> os_state ` set (oidc_auth_states db1)"
    using h(2,3) by (auto simp: ConsumeOidcAuthState_def)
  have sh: "shadow_of claims db1 u db2" using findOrCreateOidcUser_sound [OF h(5)] by simp
  obtain s where s: "sessions db3 = sessions db2 @ [s]" "se_user_id s = us_id u" "se_id s = sid"
    "users db3 = users db2" "user_identities db3 = user_identities db2" "oidc_auth_states db3 = oidc_auth_states db2"
    using h(7) by (auto simp: CreateSession_def new_session_def split: if_splits)
  let ?u = "u\<lparr>us_last_login_at := Some (ae_now env)\<rparr>"
  have out: "resp = RespRedirect ''/ui/'' (Some (SessionCookie env sid (ae_now env + SessionDuration) r))"
    "db' = TouchUserIdentity (us_id u) (oc_Issuer claims) (oc_Sub claims) (ae_now env) (TouchUserLogin (us_id u) (ae_now env) db3)"
    using assms h by (auto simp: OidcCallback_def)
  have "has_identity claims ?u db'"
    using sh s by (simp add: out) (simp add: has_identity_def TouchUserLogin_def update_user_def shadow_of_def)
  moreover have "?u \<in> set (users db')" "sessions db' = sessions db @ [s]"
      "state \<notin> os_state ` set (oidc_auth_states db')"
    using sh s db1 by (auto simp: out shadow_of_def TouchUserIdentity_def TouchUserLogin_def update_user_def
        update_where_def image_iff)
  moreover have "us_id u \<in> us_id ` set (users db) \<or> us_role u = ''viewer'' \<and> us_password_hash u = shadow_hash"
    using sh by (auto simp: shadow_of_def db1)
  moreover have "q \<in> set (oidc_auth_states db)" "os_state q = state" "os_expires_at q > ae_now env"
    using find_SomeD [OF h(2)] by auto
  moreover have "us_disabled_at ?u = None" using sh by (simp add: shadow_of_def)
  ultimately show ?thesis
    using h(4) s(2,3) shadow_never_verifies by (auto simp: out(1) SessionCookie_def intro!: bexI [of _ q] exI [of _ claims] exI [of _ ?u] exI [of _ s])
next
  case False
  have ns: "findOrCreateOidcUser now claims tries d = (res, d') \<Longrightarrow> sessions d' = sessions d" for now claims d res d'
    using findOrCreateOidcUser_sound [of now claims tries d res d'] by (cases res) (auto simp: shadow_of_def)
  have cs: "CreateSession pid ins d = (Inl e, d') \<Longrightarrow> d' = d" for pid ins d e d'
    by (auto simp: CreateSession_def split: if_splits)
  from False assms show ?thesis
    by (auto simp: OidcCallback_def ConsumeOidcAuthState_def dest!: ns cs
        split: if_splits option.splits prod.splits sum.splits)
qed

definition sample_claims :: OIDCClaims where
  "sample_claims = \<lparr>oc_Issuer = ''idp'', oc_Sub = ''42'', oc_Email = ''Eve@x'', oc_PreferredUsername = ''Eve!''\<rparr>"

lemma oidc_example:
  "\<exists>ck db'. OidcCallback (session_env\<lparr>ae_now := 5\<rparr>) True login_args session_request ''s'' (\<lambda>v n. Some sample_claims)
     [(60, 61, Some ''x'')] sample_db = (RespRedirect ''/ui/'' (Some ck), db')"
proof -
  have n: "deriveUsername sample_claims = ''eve''" unfolding sample_claims_def by code_simp
  have l: "ToLower ''eve'' = ''eve''" "ToLower ''root'' = ''root''" "ToLower ''Ann'' = ''ann''" by code_simp+
  have "ConsumeOidcAuthState 5 ''s'' sample_db = (Inr (''v'', ''n''), sample_db\<lparr>oidc_auth_states := []\<rparr>)"
    by (simp add: ConsumeOidcAuthState_def sample_db_def)
  moreover have "\<exists>u db2. findOrCreateOidcUser 5 sample_claims [(60, 61, Some ''x'')] (sample_db\<lparr>oidc_auth_states := []\<rparr>) = (Inr u, db2) \<and>
      user_exists (us_id u) db2 \<and> sessions db2 = []"
    using l by (simp add: findOrCreateOidcUser_def n GetUserByIdentity_def CreateUserWithIdentity_def insert_user_def sample_db_def
        admin_row_def new_user_def valid_roles_def GetUser_def user_exists_def Let_def)
  ultimately show ?thesis
    by (auto simp: OidcCallback_def session_env_def RandomSecret_def login_args_def CreateSession_def new_session_def)
qed

theorem oidc_callback_sound_witness:
  "\<exists>ck db'. OidcCallback (session_env\<lparr>ae_now := 5\<rparr>) True login_args session_request ''s'' (\<lambda>v n. Some sample_claims)
     [(60, 61, Some ''x'')] sample_db = (RespRedirect ''/ui/'' (Some ck), db') \<and>
   (\<exists>s. sessions db' = [s] \<and> se_id s = ck_Value ck)"
proof -
  obtain ck db' where o: "OidcCallback (session_env\<lparr>ae_now := 5\<rparr>) True login_args session_request ''s'' (\<lambda>v n. Some sample_claims)
     [(60, 61, Some ''x'')] sample_db = (RespRedirect ''/ui/'' (Some ck), db')" using oidc_example by blast
  from oidc_callback_sound [OF o] have "\<exists>s. sessions db' = sessions sample_db @ [s] \<and> se_id s = ck_Value ck" by auto
  then show ?thesis using o by (auto simp: sample_db_def)
qed

end
