(* ===== verification/Pagination.thy ===== *)
theory Pagination
  imports Auth_Tokens "HOL-Library.Product_Lexorder"
begin

text \<open>
  Keyset pagination, \<^verbatim>\<open>internal/store/pg.go\<close>: the sort allowlists, the tagged cursor, the after-cursor predicate, the
  ORDER BY clause, page limits and the \<^verbatim>\<open>name=\<close> filter; and \<^verbatim>\<open>collectAll\<close> of \<^verbatim>\<open>internal/mcp/server.go\<close>, which walks the pages.

  Every \<^verbatim>\<open>List*\<close> method of the store builds its query the same way; \<open>list_rows\<close> is that body, and a list method is
  \<open>list_rows\<close> at its own \<open>list_desc\<close>: the allowlist, the page cap, the SQL value of a sort key on a row, and the serialised value
  its \<^verbatim>\<open>*SortVal\<close> helper puts into the cursor. A query is evaluated as SQL does: rows that satisfy WHERE (a comparison with NULL
  is not true), in the order of ORDER BY, the first LIMIT of them.

  Parameters: the JSON and RFC 3339 encodings of the standard library (record \<open>codec\<close>; \<open>codec_ok\<close> says that decoding gives back what
  was encoded, which \<^verbatim>\<open>encoding/json\<close> and \<^verbatim>\<open>time\<close> document) and the collation of the database, an injection of strings into a
  linear order.

  Results: following the cursors visits every matching row exactly once and in order, whatever the sort
  column, the direction, the page size, ties and NULLs; a cursor of another sort is refused; the LIKE pattern means what the
  documentation of \<^verbatim>\<open>name=\<close> says.
\<close>

section \<open>Cursors\<close>

datatype list_error = ErrInvalidCursor | ErrInvalidSort | ErrListOther

record listCursor =
  lc_V :: int
  lc_Col :: string
  lc_Val :: "string option"
  lc_ID :: uuid
  lc_Dir :: string

record codec =
  cd_marshal :: "listCursor \<Rightarrow> string"
  cd_unmarshal :: "string \<Rightarrow> listCursor option"
  cd_formatTime :: "time \<Rightarrow> string"
  cd_parseTime :: "string \<Rightarrow> time option"

definition codec_ok :: "codec \<Rightarrow> bool" where
  "codec_ok cd \<longleftrightarrow> (\<forall>c. cd_unmarshal cd (cd_marshal cd c) = Some c) \<and> (\<forall>c. cd_marshal cd c \<noteq> '''') \<and>
     (\<forall>t. cd_parseTime cd (cd_formatTime cd t) = Some t)"

definition encodeListCursor :: "codec \<Rightarrow> string \<Rightarrow> string option \<Rightarrow> uuid \<Rightarrow> string \<Rightarrow> string" where
  "encodeListCursor cd col val i dir =
     b64_encode url_alphabet (cd_marshal cd \<lparr>lc_V = 1, lc_Col = col, lc_Val = val, lc_ID = i, lc_Dir = dir\<rparr>)"

definition decodeListCursor :: "codec \<Rightarrow> string \<Rightarrow> string \<Rightarrow> string \<Rightarrow> list_error + (string option \<times> uuid)" where
  "decodeListCursor cd cursor wantCol wantDir =
     (case b64_decode url_alphabet cursor of
        None \<Rightarrow> Inl ErrInvalidCursor
      | Some raw \<Rightarrow>
          (case cd_unmarshal cd raw of
             None \<Rightarrow> Inl ErrInvalidCursor
           | Some c \<Rightarrow>
               if lc_V c \<noteq> 1 \<or> lc_ID c = uuid_Nil then Inl ErrInvalidCursor
               else if lc_Col c \<noteq> wantCol \<or> lc_Dir c \<noteq> wantDir then Inl ErrInvalidCursor
               else Inr (lc_Val c, lc_ID c)))"

section \<open>Sort keys\<close>

datatype sortKind = sortTime | sortText | sortInt

record sortColumn =
  sc_kind :: sortKind
  sc_nullable :: bool

record sortSpec =
  ss_columns :: "(string, sortColumn) gomap"
  ss_defaultKey :: string
  ss_defaultDir :: string

record ListPage =
  lp_Limit :: int
  lp_Cursor :: string
  lp_Sort :: string
  lp_Order :: string

definition dirAsc :: string where "dirAsc = ''asc''"
definition dirDesc :: string where "dirDesc = ''desc''"

definition sortSpec_resolve :: "sortSpec \<Rightarrow> ListPage \<Rightarrow> list_error + (string \<times> sortColumn \<times> string)" where
  "sortSpec_resolve s page =
     (let key = (if lp_Sort page = '''' then ss_defaultKey s else lp_Sort page);
          dir = (if lp_Sort page = '''' then (if ss_defaultDir s = '''' then dirDesc else ss_defaultDir s)
                 else if lp_Order page = '''' then dirAsc else lp_Order page) in
      if dir \<noteq> dirAsc \<and> dir \<noteq> dirDesc then Inl ErrInvalidSort
      else case map_of (ss_columns s) key of
             None \<Rightarrow> Inl ErrInvalidSort
           | Some col \<Rightarrow> Inr (key, col, dir))"

definition clampLimit :: "int \<Rightarrow> int \<Rightarrow> int" where
  "clampLimit limit maxLimit = (if limit \<le> 0 then 50 else if limit > maxLimit then maxLimit else limit)"

text \<open>Values of sort expressions. \<open>val_key\<close> gives the order of the database: times and integers by value, text by the collation.\<close>

datatype sql_val = VTime time | VText string | VInt int

fun val_key :: "(string \<Rightarrow> 'c::linorder) \<Rightarrow> sql_val \<Rightarrow> nat \<times> int \<times> 'c" where
  "val_key coll (VTime t) = (0, t, coll '''')"
| "val_key coll (VInt n) = (1, n, coll '''')"
| "val_key coll (VText s) = (2, 0, coll s)"

text \<open>\<^verbatim>\<open>strconv.Itoa\<close> and \<^verbatim>\<open>strconv.Atoi\<close> on Go's 64-bit int.\<close>

definition itoa :: "int \<Rightarrow> string" where
  "itoa n = (if n < 0 then CHR ''-'' # Itoa (nat (- n)) else Itoa (nat n))"

definition Atoi :: "string \<Rightarrow> int option" where
  "Atoi s =
     (let neg = HasPrefix s ''-'';
          ds = (if HasPrefix s ''-'' \<or> HasPrefix s ''+'' then tl s else s);
          n = int (digits_val ds); v = (if neg then - n else n) in
      if ds = [] \<or> \<not> list_all is_digit ds \<or> v < - (2 ^ 63) \<or> v \<ge> 2 ^ 63 then None else Some v)"

definition sortValText :: "string option \<Rightarrow> string option" where
  "sortValText s = map_option ToLower s"

definition sortValTime :: "codec \<Rightarrow> time option \<Rightarrow> string option" where
  "sortValTime cd t = map_option (cd_formatTime cd) t"

definition sortValInt :: "int option \<Rightarrow> string option" where
  "sortValInt i = map_option itoa i"

section \<open>The after-cursor predicate\<close>

text \<open>The three shapes of SQL condition \<^verbatim>\<open>keysetCond\<close> writes. The boolean is the operator: \<open>True\<close> is \<^verbatim>\<open><\<close>, \<open>False\<close> is \<^verbatim>\<open>>\<close>.\<close>

datatype keyset_cond =
    NullTail bool uuid
  | NullAware bool sql_val uuid
  | RowAfter bool sql_val uuid

definition cursor_arg :: "codec \<Rightarrow> sortKind \<Rightarrow> string \<Rightarrow> sql_val option" where
  "cursor_arg cd kind v =
     (case kind of
        sortTime \<Rightarrow> map_option VTime (cd_parseTime cd v)
      | sortText \<Rightarrow> Some (VText v)
      | sortInt \<Rightarrow> map_option VInt (Atoi v))"

definition keysetCond :: "codec \<Rightarrow> sortColumn \<Rightarrow> string \<Rightarrow> string option \<Rightarrow> uuid \<Rightarrow> list_error + keyset_cond" where
  "keysetCond cd col dir val i =
     (let less_op = (dir = dirDesc) in
      case val of
        None \<Rightarrow> if \<not> sc_nullable col then Inl ErrInvalidCursor else Inr (NullTail less_op i)
      | Some v \<Rightarrow>
          (case cursor_arg cd (sc_kind col) v of
             None \<Rightarrow> Inl ErrInvalidCursor
           | Some arg \<Rightarrow>
               if sc_nullable col then Inr (NullAware less_op arg i) else Inr (RowAfter less_op arg i)))"

text \<open>SQL evaluation on a row with sort value \<open>v\<close> (\<open>None\<close> is NULL) and id \<open>rid\<close>.\<close>

definition sql_cmp :: "bool \<Rightarrow> 'a::linorder \<Rightarrow> 'a \<Rightarrow> bool" where
  "sql_cmp less_op a b \<longleftrightarrow> (if less_op then a < b else a > b)"

fun keyset_holds :: "(string \<Rightarrow> 'c::linorder) \<Rightarrow> keyset_cond \<Rightarrow> sql_val option \<Rightarrow> uuid \<Rightarrow> bool" where
  "keyset_holds coll (NullTail opr i) v rid \<longleftrightarrow> v = None \<and> sql_cmp opr rid i"
| "keyset_holds coll (NullAware opr a i) v rid \<longleftrightarrow>
     (case v of
        None \<Rightarrow> True
      | Some b \<Rightarrow> sql_cmp opr (val_key coll b) (val_key coll a) \<or> (val_key coll b = val_key coll a \<and> sql_cmp opr rid i))"
| "keyset_holds coll (RowAfter opr a i) v rid \<longleftrightarrow>
     (case v of
        None \<Rightarrow> False
      | Some b \<Rightarrow> sql_cmp opr (val_key coll b) (val_key coll a) \<or> (val_key coll b = val_key coll a \<and> sql_cmp opr rid i))"

text \<open>\<open>row_before\<close> is the order the ORDER BY clause of \<^verbatim>\<open>orderBy\<close> describes: by value in direction \<open>dir\<close>, NULLS LAST, ties by id in
  the same direction. PostgreSQL's default for a non-nullable column does not matter, it has no NULL.\<close>

definition row_before :: "(string \<Rightarrow> 'c::linorder) \<Rightarrow> string \<Rightarrow> sql_val option \<times> uuid \<Rightarrow> sql_val option \<times> uuid \<Rightarrow> bool" where
  "row_before coll dir = (\<lambda>(v, i) (w, j).
     let d = (dir = dirDesc) in
     case (v, w) of
       (None, None) \<Rightarrow> sql_cmp d j i
     | (None, Some _) \<Rightarrow> False
     | (Some _, None) \<Rightarrow> True
     | (Some a, Some b) \<Rightarrow>
         sql_cmp d (val_key coll b) (val_key coll a) \<or> (val_key coll a = val_key coll b \<and> sql_cmp d j i))"

fun insert_row :: "('r \<Rightarrow> 'r \<Rightarrow> bool) \<Rightarrow> 'r \<Rightarrow> 'r list \<Rightarrow> 'r list" where
  "insert_row before r [] = [r]"
| "insert_row before r (x # xs) = (if before x r then x # insert_row before r xs else r # x # xs)"

definition orderBy :: "(string \<Rightarrow> 'c::linorder) \<Rightarrow> string \<Rightarrow> ('r \<Rightarrow> sql_val option \<times> uuid) \<Rightarrow> 'r list \<Rightarrow> 'r list" where
  "orderBy coll dir key rows = foldr (insert_row (\<lambda>r s. row_before coll dir (key r) (key s))) rows []"

section \<open>A list method\<close>

record 'r list_desc =
  ld_spec :: sortSpec
  ld_max :: int
  ld_val :: "string \<Rightarrow> 'r \<Rightarrow> sql_val option"
  ld_id :: "'r \<Rightarrow> uuid"
  ld_sortVal :: "string \<Rightarrow> 'r \<Rightarrow> string option"

text \<open>The end of a list method: at most \<open>limit + 1\<close> rows come back from the query; one too many means there is a next page, whose
  cursor names the last row returned.\<close>

definition page_result :: "codec \<Rightarrow> 'r list_desc \<Rightarrow> string \<Rightarrow> string \<Rightarrow> int \<Rightarrow> 'r list \<Rightarrow> 'r list \<times> string" where
  "page_result cd d key dir limit ordered =
     (let items = take (nat (limit + 1)) ordered in
      if int (length items) > limit
      then (let r = items ! nat (limit - 1) in
            (take (nat limit) items, encodeListCursor cd key (ld_sortVal d key r) (ld_id d r) dir))
      else (items, ''''))"

definition list_rows ::
    "codec \<Rightarrow> (string \<Rightarrow> 'c::linorder) \<Rightarrow> 'r list_desc \<Rightarrow> ('r \<Rightarrow> bool) \<Rightarrow> ListPage \<Rightarrow> 'r list \<Rightarrow> list_error + ('r list \<times> string)" where
  "list_rows cd coll d keep page rows =
     (let limit = clampLimit (lp_Limit page) (ld_max d) in
      case sortSpec_resolve (ld_spec d) page of
        Inl e \<Rightarrow> Inl e
      | Inr (key, col, dir) \<Rightarrow>
          (let run = (\<lambda>cond. Inr (page_result cd d key dir limit
                 (orderBy coll dir (\<lambda>r. (ld_val d key r, ld_id d r)) (filter (\<lambda>r. keep r \<and> cond r) rows)))) in
           if lp_Cursor page = '''' then run (\<lambda>_. True)
           else case decodeListCursor cd (lp_Cursor page) key dir of
                  Inl e \<Rightarrow> Inl e
                | Inr (val, cid) \<Rightarrow>
                    (case keysetCond cd col dir val cid of
                       Inl e \<Rightarrow> Inl e
                     | Inr c \<Rightarrow> run (\<lambda>r. keyset_holds coll c (ld_val d key r) (ld_id d r)))))"

section \<open>Walking the pages\<close>

definition maxTotalItems :: nat where "maxTotalItems = 1000"

text \<open>\<^verbatim>\<open>collectAll\<close> may run for ever on a page function that never ends; not returning is \<open>None\<close>.\<close>

partial_function (option) collect_from ::
    "(string \<Rightarrow> list_error + ('r list \<times> string)) \<Rightarrow> string \<Rightarrow> 'r list \<Rightarrow> (list_error + 'r list) option" where
  "collect_from fn cursor all =
     (case fn cursor of
        Inl e \<Rightarrow> Some (Inl e)
      | Inr (items, nxt) \<Rightarrow>
          if length (all @ items) \<ge> maxTotalItems then Some (Inr (take maxTotalItems (all @ items)))
          else if nxt = '''' then Some (Inr (all @ items))
          else collect_from fn nxt (all @ items))"

definition collectAll :: "(string \<Rightarrow> list_error + ('r list \<times> string)) \<Rightarrow> (list_error + 'r list) option" where
  "collectAll fn = collect_from fn '''' []"

section \<open>The name filter\<close>

definition ReplaceByte :: "string \<Rightarrow> char \<Rightarrow> string \<Rightarrow> string" where
  "ReplaceByte s c new = concat (map (\<lambda>x. if x = c then new else [x]) s)"

definition escapeLike :: "string \<Rightarrow> string" where
  "escapeLike s = ReplaceByte (ReplaceByte (ReplaceByte s (CHR 0x5C) [CHR 0x5C, CHR 0x5C]) (CHR ''%'') [CHR 0x5C, CHR ''%''])
     (CHR ''_'') [CHR 0x5C, CHR ''_'']"

definition namePattern :: "string \<Rightarrow> string" where
  "namePattern term =
     (let escaped = escapeLike (ToLower term) in
      if CHR ''*'' \<notin> set term then CHR ''%'' # escaped @ ''%''
      else ReplaceByte escaped (CHR ''*'') ''%'')"

text \<open>SQL's LIKE with \<^verbatim>\<open>ESCAPE '\'\<close>. A pattern that ends in a lone escape is an error in PostgreSQL; \<^verbatim>\<open>namePattern\<close> never makes one.\<close>

function like :: "string \<Rightarrow> string \<Rightarrow> bool" where
  "like [] s = (s = [])"
| "like (c # p) [] = (c = CHR ''%'' \<and> like p [])"
| "like (c # p) (x # s) =
     (if c = CHR ''%'' then like p (x # s) \<or> like (c # p) s
      else if c = CHR ''_'' then like p s
      else if c = CHR 0x5C then (case p of [] \<Rightarrow> False | q # p' \<Rightarrow> x = q \<and> like p' s)
      else x = c \<and> like p s)"
  by pat_completeness auto
termination
  by (relation "measure (\<lambda>(p, s). length p + length s)") auto

text \<open>The reference: a star stands for any string, every other character for itself.\<close>

fun glob :: "string \<Rightarrow> string \<Rightarrow> bool" where
  "glob [] s = (s = [])"
| "glob (c # p) s =
     (if c = CHR ''*'' then \<exists>k\<in>{0..length s}. glob p (drop k s)
      else (case s of [] \<Rightarrow> False | x # s' \<Rightarrow> x = c \<and> glob p s'))"

definition like_atom :: "char \<Rightarrow> string" where
  "like_atom c = (if c = CHR ''*'' then ''%'' else if c \<in> {CHR 0x5C, CHR ''%'', CHR ''_''} then [CHR 0x5C, c] else [c])"

lemma like_percent: "like (CHR ''%'' # p) s \<longleftrightarrow> (\<exists>k\<in>{0..length s}. like p (drop k s))"
proof (induction s)
  case (Cons x s)
  have "(\<exists>k\<in>{0..length (x # s)}. like p (drop k (x # s))) \<longleftrightarrow> like p (x # s) \<or> (\<exists>k\<in>{0..length s}. like p (drop k s))"
  proof -
    have "{0..length (x # s)} = insert 0 (Suc ` {0..length s})"
      by (simp add: atLeast0_atMost_Suc_eq_insert_0 image_Suc_atLeastAtMost)
    then show ?thesis by (simp only: bex_simps image_iff) simp
  qed
  with Cons show ?case by simp
qed simp

lemma like_concat_glob: "like (concat (map like_atom p)) s = glob p s"
proof (induction p arbitrary: s)
  case (Cons c p)
  show ?case
  proof (cases "c = CHR ''*''")
    case True
    with Cons show ?thesis by (simp add: like_atom_def like_percent)
  next
    case False
    with Cons show ?thesis by (cases s) (auto simp: like_atom_def)
  qed
qed simp

lemma concat_map_cong: "(\<And>x. x \<in> set xs \<Longrightarrow> f x = g x) \<Longrightarrow> concat (map f xs) = concat (map g xs)"
  by (induction xs) auto

lemma ReplaceByte_concat:
  "ReplaceByte (concat (map f s)) c new = concat (map (\<lambda>x. ReplaceByte (f x) c new) s)"
  by (induction s) (simp_all add: ReplaceByte_def)

lemma escapeLike_atoms:
  "escapeLike s = concat (map (\<lambda>c. if c \<in> {CHR 0x5C, CHR ''%'', CHR ''_''} then [CHR 0x5C, c] else [c]) s)"
proof -
  have "ReplaceByte s (CHR 0x5C) [CHR 0x5C, CHR 0x5C] = concat (map (\<lambda>c. if c = CHR 0x5C then [CHR 0x5C, CHR 0x5C] else [c]) s)"
    by (simp add: ReplaceByte_def)
  then show ?thesis
    unfolding escapeLike_def by (simp only: ReplaceByte_concat) (rule concat_map_cong, simp add: ReplaceByte_def)
qed

lemma lower_star: "CHR ''*'' \<in> set (ToLower t) \<longleftrightarrow> CHR ''*'' \<in> set t"
proof -
  have "lower_char c = CHR ''*'' \<longleftrightarrow> c = CHR ''*''" for c
  proof -
    let ?n = "of_char c :: nat"
    have "char_of (?n + 32) \<noteq> CHR ''*''" if "65 \<le> ?n" "?n \<le> 90"
    proof
      assume "char_of (?n + 32) = CHR ''*''"
      then have "(of_char (char_of (?n + 32)) :: nat) = 42" by simp
      then show False using that by simp
    qed
    then show ?thesis by (auto simp: lower_char_def Let_def)
  qed
  then show ?thesis unfolding ToLower_def set_map image_iff by metis
qed

lemma glob_literal: "CHR ''*'' \<notin> set u \<Longrightarrow> glob (u @ ''*'') s \<longleftrightarrow> prefix u s"
proof (induction u arbitrary: s)
  case Nil
  have "\<exists>k\<in>{0..length s}. drop k s = []" by (rule bexI [of _ "length s"]) simp_all
  then show ?case by simp
next
  case (Cons c u)
  then show ?case by (cases s) auto
qed

text \<open>Name filter, equivalence. The LIKE pattern built from a search term matches a (lowercased) name exactly when the term
  without stars occurs in it, or, with stars, when the term read as an anchored glob matches; no other character of the
  term, not even a percent sign, an underscore or a backslash, acts as a wildcard.\<close>

theorem name_pattern_equiv:
  "like (namePattern t) s =
     (if CHR ''*'' \<in> set t then glob (ToLower t) s else \<exists>a b. s = a @ ToLower t @ b)"
proof -
  have esc: "escapeLike u = concat (map like_atom u)" if "CHR ''*'' \<notin> set u" for u
    using that unfolding escapeLike_atoms by (intro concat_map_cong) (auto simp: like_atom_def)
  show ?thesis
  proof (cases "CHR ''*'' \<in> set t")
    case True
    have "ReplaceByte (escapeLike u) (CHR ''*'') ''%'' = concat (map like_atom u)" for u
      unfolding escapeLike_atoms ReplaceByte_concat
      by (rule concat_map_cong) (simp add: ReplaceByte_def like_atom_def)
    with True show ?thesis by (simp add: namePattern_def like_concat_glob)
  next
    case False
    then have u: "CHR ''*'' \<notin> set (ToLower t)" by (simp add: lower_star)
    have "namePattern t = concat (map like_atom (CHR ''*'' # ToLower t @ ''*''))"
      using False by (simp add: namePattern_def esc [OF u] like_atom_def)
    then have "like (namePattern t) s \<longleftrightarrow> (\<exists>k\<in>{0..length s}. prefix (ToLower t) (drop k s))"
      by (simp only: like_concat_glob) (simp add: glob_literal [OF u])
    also have "\<dots> \<longleftrightarrow> (\<exists>a b. s = a @ ToLower t @ b)"
    proof
      assume "\<exists>k\<in>{0..length s}. prefix (ToLower t) (drop k s)"
      then show "\<exists>a b. s = a @ ToLower t @ b" by (metis append_take_drop_id prefixE)
    next
      assume "\<exists>a b. s = a @ ToLower t @ b"
      then obtain a b where "s = a @ ToLower t @ b" by blast
      then show "\<exists>k\<in>{0..length s}. prefix (ToLower t) (drop k s)" by (intro bexI [of _ "length a"]) auto
    qed
    finally show ?thesis using False by simp
  qed
qed

section \<open>The order of a query\<close>

lemma val_key_inj: "inj coll \<Longrightarrow> val_key coll a = val_key coll b \<longleftrightarrow> a = b"
  by (cases a; cases b) (auto dest: injD)

lemma sql_cmp_props:
  "\<not> sql_cmp d a a" "sql_cmp d a b \<Longrightarrow> sql_cmp d b c \<Longrightarrow> sql_cmp d a c" "a \<noteq> b \<Longrightarrow> sql_cmp d a b \<or> sql_cmp d b a"
  by (auto simp: sql_cmp_def split: if_splits)

lemma row_before_irrefl: "\<not> row_before coll dir k k"
  by (auto simp: row_before_def sql_cmp_props split: prod.splits option.splits)

lemma row_before_trans: "row_before coll dir k l \<Longrightarrow> row_before coll dir l m \<Longrightarrow> row_before coll dir k m"
  unfolding row_before_def Let_def
  by (cases k; cases l; cases m) (auto split: option.splits intro: sql_cmp_props(2))

lemma row_before_total: "inj coll \<Longrightarrow> k \<noteq> l \<Longrightarrow> row_before coll dir k l \<or> row_before coll dir l k"
  using val_key_inj [of coll] unfolding row_before_def Let_def
  by (cases k; cases l) (auto split: option.splits dest: sql_cmp_props(3))

lemma set_insert_row [simp]: "set (insert_row before r xs) = insert r (set xs)"
  by (induction xs) auto

lemma sorted_insert_row:
  assumes "\<And>x y z. before x y \<Longrightarrow> before y z \<Longrightarrow> before x z" and "\<And>x. x \<in> set xs \<Longrightarrow> before x r \<or> before r x"
    and "sorted_wrt before xs"
  shows "sorted_wrt before (insert_row before r xs)"
  using assms(2,3) by (induction xs) (auto intro: assms(1))

lemma strict_sorted_unique:
  assumes "\<And>x. \<not> R x x" and "\<And>x y z. R x y \<Longrightarrow> R y z \<Longrightarrow> R x z"
  shows "sorted_wrt R xs \<Longrightarrow> sorted_wrt R ys \<Longrightarrow> set xs = set ys \<Longrightarrow> xs = ys"
proof (induction xs arbitrary: ys)
  case (Cons x xs)
  then obtain y ys' where ys: "ys = y # ys'" by (cases ys) auto
  have "x = y"
  proof (rule ccontr)
    assume "x \<noteq> y"
    then have "R x y" "R y x" using Cons.prems by (auto simp: ys)
    then show False using assms by blast
  qed
  moreover have "x \<notin> set xs" "y \<notin> set ys'" using Cons.prems assms(1) by (auto simp: ys)
  ultimately have "set xs = set ys'" using Cons.prems(3) by (auto simp: ys insert_ident)
  with Cons \<open>x = y\<close> show ?case by (simp add: ys)
qed simp

lemma set_orderBy [simp]: "set (orderBy coll dir key rows) = set rows"
  by (induction rows) (simp_all add: orderBy_def)

lemma sorted_orderBy:
  assumes "inj coll" and "distinct (map key rows)"
  shows "sorted_wrt (\<lambda>r s. row_before coll dir (key r) (key s)) (orderBy coll dir key rows)"
  using assms(2)
proof (induction rows)
  case (Cons r rows)
  let ?R = "\<lambda>r s. row_before coll dir (key r) (key s)"
  have "?R x r \<or> ?R r x" if "x \<in> set (orderBy coll dir key rows)" for x
  proof -
    have "key x \<noteq> key r" using that Cons.prems by (auto simp: image_iff)
    then show ?thesis by (rule row_before_total [OF assms(1)])
  qed
  with Cons show ?case
    by (simp add: orderBy_def) (rule sorted_insert_row, blast intro: row_before_trans, simp_all)
qed (simp add: orderBy_def)

lemma orderBy_filter:
  assumes "inj coll" and "distinct (map key rows)"
  shows "orderBy coll dir key (filter P rows) = filter P (orderBy coll dir key rows)"
proof (rule strict_sorted_unique)
  let ?R = "\<lambda>r s. row_before coll dir (key r) (key s)"
  show "sorted_wrt ?R (orderBy coll dir key (filter P rows))" "sorted_wrt ?R (filter P (orderBy coll dir key rows))"
    using assms by (auto intro!: sorted_orderBy sorted_wrt_filter simp: distinct_map_filter)
qed (auto simp: row_before_irrefl intro: row_before_trans)

text \<open>In a list sorted by a strict order, the elements after one of them are the rest of the list.\<close>

lemma filter_after:
  assumes "\<And>x. \<not> R x x" and "\<And>x y z. R x y \<Longrightarrow> R y z \<Longrightarrow> R x z" and "sorted_wrt R xs" and "k < length xs"
  shows "filter (R (xs ! k)) xs = drop (Suc k) xs"
proof -
  have "filter (R (xs ! k)) (take (Suc k) xs) = []"
  proof (rule filter_False, rule ballI)
    fix x assume "x \<in> set (take (Suc k) xs)"
    then obtain j where j: "j \<le> k" "x = xs ! j" using assms(4) by (auto simp: in_set_conv_nth less_Suc_eq_le)
    then have "j = k \<or> R x (xs ! k)" using sorted_wrt_nth_less [OF assms(3), of j k] assms(4) by force
    with j assms(1,2) show "\<not> R (xs ! k) x" by blast
  qed
  moreover have "filter (R (xs ! k)) (drop (Suc k) xs) = drop (Suc k) xs"
    using sorted_wrt_nth_less [OF assms(3), of k] by (intro filter_True) (auto simp: in_set_conv_nth)
  ultimately show ?thesis by (metis append_Nil append_take_drop_id filter_append)
qed

lemma keyset_cond_after:
  assumes "w = None \<Longrightarrow> nullable"
  shows "keyset_holds coll (if nullable then NullAware (dir = dirDesc) v i else RowAfter (dir = dirDesc) v i) w j =
    row_before coll dir (Some v, i) (w, j)"
  using assms by (cases w) (auto simp: row_before_def Let_def)

lemma resolve_cursor [simp]: "sortSpec_resolve s (page\<lparr>lp_Cursor := c\<rparr>) = sortSpec_resolve s page"
  by (simp add: sortSpec_resolve_def)

text \<open>What a walk owes its client: the rows in \<open>S\<close>, each once, in the given order, in pages of at most \<open>limit\<close>.\<close>

definition lists_exactly :: "'r set \<Rightarrow> ('r \<Rightarrow> 'r \<Rightarrow> bool) \<Rightarrow> int \<Rightarrow> 'r list list \<Rightarrow> bool" where
  "lists_exactly S before limit ps \<longleftrightarrow>
     set (concat ps) = S \<and> distinct (concat ps) \<and> sorted_wrt before (concat ps) \<and> (\<forall>p\<in>set ps. int (length p) \<le> limit)"

lemma sorted_wrt_distinct: "(\<And>x. \<not> R x x) \<Longrightarrow> sorted_wrt R xs \<Longrightarrow> distinct xs"
  by (induction xs) auto

lemma lists_exactly_orderBy:
  assumes "inj coll" and "distinct (map key rows)" and "concat ps = orderBy coll dir key (filter keep rows)"
    and "\<forall>p\<in>set ps. int (length p) \<le> limit"
  shows "lists_exactly {r \<in> set rows. keep r} (\<lambda>r s. row_before coll dir (key r) (key s)) limit ps"
proof -
  have s: "sorted_wrt (\<lambda>r s. row_before coll dir (key r) (key s)) (concat ps)"
    using assms by (simp add: sorted_orderBy distinct_map_filter)
  then have "distinct (concat ps)" by (rule sorted_wrt_distinct [rotated]) (rule row_before_irrefl)
  with s assms(3,4) show ?thesis by (auto simp: lists_exactly_def)
qed

section \<open>The contract of a list method\<close>

text \<open>A walk along the cursors: the pages \<open>ps\<close> a client sees that starts at \<open>cursor\<close> and follows \<^verbatim>\<open>next_cursor\<close> to the end.\<close>

inductive pages :: "(string \<Rightarrow> list_error + ('r list \<times> string)) \<Rightarrow> string \<Rightarrow> 'r list list \<Rightarrow> bool" for fn where
  pages_last: "fn cursor = Inr (items, '''') \<Longrightarrow> pages fn cursor [items]"
| pages_next: "fn cursor = Inr (items, nxt) \<Longrightarrow> nxt \<noteq> '''' \<Longrightarrow> pages fn nxt ps \<Longrightarrow> pages fn cursor (items # ps)"

lemma collect_from_pages:
  "pages fn cursor ps \<Longrightarrow> collect_from fn cursor all = Some (Inr (take maxTotalItems (all @ concat ps)))"
proof (induction arbitrary: all rule: pages.induct)
  case (pages_last cursor items)
  then show ?case by (subst collect_from.simps) simp
next
  case (pages_next cursor items nxt ps)
  then show ?case by (subst collect_from.simps) auto
qed

text \<open>
  What a list method owes the shared code: its page cap is positive, and for every sort key of its allowlist the serialised value
  its \<^verbatim>\<open>*SortVal\<close> helper mints is read back as the SQL value of the same row, with NULL only in nullable columns.
  \<open>wf\<close> says which rows the table can hold.
\<close>

locale list_method =
  fixes desc :: "codec \<Rightarrow> 'r list_desc" and wf :: "'r \<Rightarrow> bool"
  assumes max_pos: "0 < ld_max (desc cd)"
    and wf_id: "wf r \<Longrightarrow> ld_id (desc cd) r \<noteq> uuid_Nil"
    and sort_val: "codec_ok cd \<Longrightarrow> wf r \<Longrightarrow> map_of (ss_columns (ld_spec (desc cd))) key = Some col \<Longrightarrow>
      (case ld_val (desc cd) key r of
         None \<Rightarrow> sc_nullable col \<and> ld_sortVal (desc cd) key r = None
       | Some v \<Rightarrow> (\<exists>s. ld_sortVal (desc cd) key r = Some s \<and> cursor_arg cd (sc_kind col) s = Some v))"
begin

lemma sort_val_None:
  assumes "codec_ok cd" "wf r" "map_of (ss_columns (ld_spec (desc cd))) key = Some col" "ld_val (desc cd) key r = None"
  shows "sc_nullable col \<and> ld_sortVal (desc cd) key r = None"
  using sort_val [OF assms(1-3)] assms(4) by simp

lemma sort_val_Some:
  assumes "codec_ok cd" "wf r" "map_of (ss_columns (ld_spec (desc cd))) key = Some col" "ld_val (desc cd) key r = Some v"
  obtains s where "ld_sortVal (desc cd) key r = Some s" "cursor_arg cd (sc_kind col) s = Some v"
  using sort_val [OF assms(1-3)] assms(4) by auto

text \<open>The cursor minted for a row selects exactly the rows after it.\<close>

lemma cursor_selects:
  assumes ok: "codec_ok cd" and key: "map_of (ss_columns (ld_spec (desc cd))) key = Some col" and q: "wf q"
  shows "\<exists>c. keysetCond cd col dir (ld_sortVal (desc cd) key q) (ld_id (desc cd) q) = Inr c \<and>
    (\<forall>r. wf r \<longrightarrow> keyset_holds coll c (ld_val (desc cd) key r) (ld_id (desc cd) r) =
       row_before coll dir (ld_val (desc cd) key q, ld_id (desc cd) q) (ld_val (desc cd) key r, ld_id (desc cd) r))"
proof (cases "ld_val (desc cd) key q")
  case None
  with sort_val_None [OF ok q key] show ?thesis
    by (auto simp: keysetCond_def row_before_def Let_def split: option.splits)
next
  case (Some v)
  obtain s where s: "ld_sortVal (desc cd) key q = Some s" "cursor_arg cd (sc_kind col) s = Some v"
    using sort_val_Some [OF ok q key Some] .
  let ?i = "ld_id (desc cd) q"
  let ?c = "if sc_nullable col then NullAware (dir = dirDesc) v ?i else RowAfter (dir = dirDesc) v ?i"
  have "keysetCond cd col dir (ld_sortVal (desc cd) key q) ?i = Inr ?c" using s by (simp add: keysetCond_def)
  moreover have "keyset_holds coll ?c (ld_val (desc cd) key r) (ld_id (desc cd) r) =
      row_before coll dir (Some v, ?i) (ld_val (desc cd) key r, ld_id (desc cd) r)" if "wf r" for r
  proof (rule keyset_cond_after)
    assume "ld_val (desc cd) key r = None"
    with sort_val_None [OF ok that key] show "sc_nullable col" by simp
  qed
  ultimately show ?thesis using Some by auto
qed

lemma cursor_roundtrip:
  assumes "codec_ok cd" "wf q"
  shows "decodeListCursor cd (encodeListCursor cd key val (ld_id (desc cd) q) dir) key dir = Inr (val, ld_id (desc cd) q)"
    and "encodeListCursor cd key val (ld_id (desc cd) q) dir \<noteq> ''''"
  using assms wf_id [OF assms(2)] b64_url_roundtrip by (simp_all add: decodeListCursor_def encodeListCursor_def codec_ok_def)

text \<open>One page: with \<open>k\<close> rows behind the cursor, the answer is the next \<open>limit\<close> rows and the cursor of the last of them, or the
  rest and no cursor.\<close>

definition cursor_at :: "codec \<Rightarrow> string \<Rightarrow> string \<Rightarrow> 'r list \<Rightarrow> nat \<Rightarrow> string" where
  "cursor_at cd key dir rs k =
     (if k = 0 then ''''
      else encodeListCursor cd key (ld_sortVal (desc cd) key (rs ! (k - 1))) (ld_id (desc cd) (rs ! (k - 1))) dir)"

lemma one_page:
  assumes ok: "codec_ok cd" and coll: "inj coll"
    and rows: "\<And>r. r \<in> set rows \<Longrightarrow> wf r" and ids: "distinct (map (ld_id (desc cd)) rows)"
    and res: "sortSpec_resolve (ld_spec (desc cd)) page = Inr (key, col, dir)"
    and cur: "lp_Cursor page = cursor_at cd key dir rs k" and k: "k \<le> length rs"
    and rs: "rs = orderBy coll dir (\<lambda>r. (ld_val (desc cd) key r, ld_id (desc cd) r)) (filter keep rows)"
  shows "list_rows cd coll (desc cd) keep page rows =
    (let n = nat (clampLimit (lp_Limit page) (ld_max (desc cd))) in
     if n < length rs - k then Inr (take n (drop k rs), cursor_at cd key dir rs (k + n)) else Inr (drop k rs, ''''))"
proof -
  let ?key = "\<lambda>r. (ld_val (desc cd) key r, ld_id (desc cd) r)"
  let ?R = "\<lambda>r s. row_before coll dir (?key r) (?key s)"
  let ?limit = "clampLimit (lp_Limit page) (ld_max (desc cd))"
  have col: "map_of (ss_columns (ld_spec (desc cd))) key = Some col"
    using res by (auto simp: sortSpec_resolve_def Let_def split: if_splits option.splits)
  have dk: "distinct (map ?key rows)"
    using ids by (auto simp: distinct_map inj_on_def)
  have pos: "0 < ?limit" using max_pos [of cd] by (simp add: clampLimit_def)
  have srt: "sorted_wrt ?R rs" using dk coll by (simp add: rs sorted_orderBy distinct_map_filter)
  have mem: "wf r" if "r \<in> set rs" for r using that rows by (simp add: rs)
  define cond where "cond = (\<lambda>r. k = 0 \<or> ?R (rs ! (k - 1)) r)"
  have sel: "orderBy coll dir ?key (filter (\<lambda>r. keep r \<and> cond r) rows) = drop k rs"
  proof (cases k)
    case 0
    then show ?thesis by (simp add: cond_def rs)
  next
    case (Suc j)
    have "orderBy coll dir ?key (filter (\<lambda>r. keep r \<and> cond r) rows) = filter cond rs"
      using orderBy_filter [OF coll, of ?key "filter keep rows" dir cond] dk
      by (simp add: rs distinct_map_filter conj_commute)
    also have "\<dots> = filter (?R (rs ! j)) rs" using Suc by (simp add: cond_def)
    also have "\<dots> = drop k rs"
      using filter_after [of ?R rs j] srt k Suc by (simp add: row_before_irrefl) (blast intro: row_before_trans)
    finally show ?thesis .
  qed
  have run: "Inr (page_result cd (desc cd) key dir ?limit (drop k rs)) =
     (let n = nat ?limit in
       if n < length rs - k then Inr (take n (drop k rs), cursor_at cd key dir rs (k + n)) else Inr (drop k rs, ''''))"
    using pos k by (auto simp: page_result_def Let_def cursor_at_def nat_add_distrib min_def nat_diff_distrib ac_simps)
  have "list_rows cd coll (desc cd) keep page rows = Inr (page_result cd (desc cd) key dir ?limit (drop k rs))"
  proof (cases "k = 0")
    case True
    then show ?thesis using cur res sel by (simp add: list_rows_def cond_def cursor_at_def)
  next
    case False
    let ?q = "rs ! (k - 1)"
    have q: "wf ?q" using False k by (intro mem nth_mem) simp
    obtain c where c: "keysetCond cd col dir (ld_sortVal (desc cd) key ?q) (ld_id (desc cd) ?q) = Inr c"
      "\<And>r. wf r \<Longrightarrow> keyset_holds coll c (ld_val (desc cd) key r) (ld_id (desc cd) r) = ?R ?q r"
      using cursor_selects [OF ok col q] by blast
    have "filter (\<lambda>r. keep r \<and> keyset_holds coll c (ld_val (desc cd) key r) (ld_id (desc cd) r)) rows = filter (\<lambda>r. keep r \<and> cond r) rows"
      using c(2) rows False by (intro filter_cong) (auto simp: cond_def)
    then show ?thesis
      using cur res sel c(1) False cursor_roundtrip [OF ok q]
      by (simp add: list_rows_def cursor_at_def)
  qed
  then show ?thesis using run by (rule trans)
qed

lemma walk_from:
  assumes ok: "codec_ok cd" and coll: "inj coll"
    and rows: "\<And>r. r \<in> set rows \<Longrightarrow> wf r" and ids: "distinct (map (ld_id (desc cd)) rows)"
    and res: "sortSpec_resolve (ld_spec (desc cd)) page = Inr (key, col, dir)" and k: "k \<le> length rs"
    and rs: "rs = orderBy coll dir (\<lambda>r. (ld_val (desc cd) key r, ld_id (desc cd) r)) (filter keep rows)"
  shows "\<exists>ps. pages (\<lambda>c. list_rows cd coll (desc cd) keep (page\<lparr>lp_Cursor := c\<rparr>) rows) (cursor_at cd key dir rs k) ps \<and>
    concat ps = drop k rs \<and> (\<forall>p\<in>set ps. int (length p) \<le> clampLimit (lp_Limit page) (ld_max (desc cd)))"
  using k
proof (induction "length rs - k" arbitrary: k rule: less_induct)
  case less
  let ?fn = "\<lambda>c. list_rows cd coll (desc cd) keep (page\<lparr>lp_Cursor := c\<rparr>) rows"
  let ?limit = "clampLimit (lp_Limit page) (ld_max (desc cd))"
  let ?n = "nat ?limit"
  have pos: "0 < ?limit" using max_pos [of cd] by (simp add: clampLimit_def)
  have step: "?fn (cursor_at cd key dir rs k) =
      (if ?n < length rs - k then Inr (take ?n (drop k rs), cursor_at cd key dir rs (k + ?n)) else Inr (drop k rs, ''''))"
    using one_page [where page = "page\<lparr>lp_Cursor := cursor_at cd key dir rs k\<rparr>" and key = key and col = col and dir = dir,
        OF ok coll rows ids _ _ less.prems rs] res
    by (simp add: Let_def)
  show ?case
  proof (cases "?n < length rs - k")
    case True
    then have k': "length rs - (k + ?n) < length rs - k" "k + ?n \<le> length rs" using pos by simp_all
    obtain ps where ps: "pages ?fn (cursor_at cd key dir rs (k + ?n)) ps" "concat ps = drop (k + ?n) rs"
        "\<forall>p\<in>set ps. int (length p) \<le> ?limit"
      using less.hyps [OF k'] by blast
    have "wf (rs ! (k + ?n - 1))" using k'(2) pos rows by (intro rows) (use nth_mem [of "k + ?n - 1" rs] rs in auto)
    then have "cursor_at cd key dir rs (k + ?n) \<noteq> ''''"
      using cursor_roundtrip(2) [OF ok] pos by (simp add: cursor_at_def)
    then have "pages ?fn (cursor_at cd key dir rs k) (take ?n (drop k rs) # ps)"
      using step True ps(1) by (intro pages_next) simp_all
    moreover have "concat (take ?n (drop k rs) # ps) = drop k rs"
      using ps(2) append_take_drop_id [of ?n "drop k rs"] by (simp add: add.commute)
    moreover have "\<forall>p\<in>set (take ?n (drop k rs) # ps). int (length p) \<le> ?limit" using ps(3) pos by auto
    ultimately show ?thesis by blast
  next
    case False
    then have "pages ?fn (cursor_at cd key dir rs k) [drop k rs]" using step by (intro pages_last) simp
    moreover have "int (length (drop k rs)) \<le> ?limit" using False pos by (simp add: not_less le_nat_iff)
    ultimately show ?thesis by (intro exI [of _ "[drop k rs]"]) simp
  qed
qed

text \<open>Following the cursors from the first page visits every matching row once, in order.\<close>

lemma walk_complete:
  assumes "codec_ok cd" and "inj coll" and "\<And>r. r \<in> set rows \<Longrightarrow> wf r" and "distinct (map (ld_id (desc cd)) rows)"
    and "sortSpec_resolve (ld_spec (desc cd)) page = Inr (key, col, dir)"
  shows "\<exists>ps. pages (\<lambda>c. list_rows cd coll (desc cd) keep (page\<lparr>lp_Cursor := c\<rparr>) rows) '''' ps \<and>
    lists_exactly {r \<in> set rows. keep r}
      (\<lambda>r s. row_before coll dir (ld_val (desc cd) key r, ld_id (desc cd) r) (ld_val (desc cd) key s, ld_id (desc cd) s))
      (clampLimit (lp_Limit page) (ld_max (desc cd))) ps"
proof -
  let ?key = "\<lambda>r. (ld_val (desc cd) key r, ld_id (desc cd) r)"
  have dk: "distinct (map ?key rows)" using assms(4) by (auto simp: distinct_map inj_on_def)
  obtain ps where "pages (\<lambda>c. list_rows cd coll (desc cd) keep (page\<lparr>lp_Cursor := c\<rparr>) rows) '''' ps"
      "concat ps = orderBy coll dir ?key (filter keep rows)"
      "\<forall>p\<in>set ps. int (length p) \<le> clampLimit (lp_Limit page) (ld_max (desc cd))"
    using walk_from [OF assms le0 refl] by (auto simp: cursor_at_def)
  then show ?thesis using lists_exactly_orderBy [where key = ?key, OF assms(2) dk] by blast
qed

end

text \<open>C31: Collecting all pages, termination. On a page function whose cursors come to an end, \<^verbatim>\<open>collectAll\<close> returns, and its result is
  the concatenation of the pages in order, cut after 1000 items.\<close>

theorem collectAll_terminates:
  assumes "pages fn '''' ps"
  shows "collectAll fn = Some (Inr (take maxTotalItems (concat ps)))"
  using collect_from_pages [OF assms, of "[]"] by (simp add: collectAll_def)

definition two_pages :: "string \<Rightarrow> list_error + (nat list \<times> string)" where
  "two_pages c = (if c = '''' then Inr ([1, 2], ''more'') else if c = ''more'' then Inr ([3], '''') else Inl ErrInvalidCursor)"

theorem collectAll_terminates_witness: "collectAll two_pages = Some (Inr [1, 2, 3])"
proof -
  have "pages two_pages '''' [[1, 2], [3]]"
    by (rule pages_next [where nxt = "''more''"], simp_all add: two_pages_def)
      (rule pages_last, simp add: two_pages_def)
  from collectAll_terminates [OF this] show ?thesis by (simp add: maxTotalItems_def)
qed

end
