(* ===== verification/Auth_Lists.thy ===== *)
theory Auth_Lists
  imports Auth_Store Pagination "HOL-Library.Char_ord" "HOL-Library.List_Lexorder"
begin

text \<open>
  The list methods of \<^verbatim>\<open>internal/store/pg_auth.go\<close> (users, sessions, API tokens) as instances of the shared pagination code, and the
  list handlers of \<^verbatim>\<open>internal/api/auth_handlers.go\<close> on top of them. The locale \<open>list_method\<close> is interpreted for each of
  the three; \<open>auth_lists_complete\<close> states what that gives: walking the pages lists every row once.
\<close>

section \<open>Users\<close>

definition userSortSpec :: sortSpec where
  "userSortSpec =
     \<lparr>ss_columns =
        [(''username'', \<lparr>sc_kind = sortText, sc_nullable = False\<rparr>),
         (''role'', \<lparr>sc_kind = sortText, sc_nullable = False\<rparr>),
         (''created_at'', \<lparr>sc_kind = sortTime, sc_nullable = False\<rparr>),
         (''last_login_at'', \<lparr>sc_kind = sortTime, sc_nullable = True\<rparr>)],
      ss_defaultKey = ''created_at'', ss_defaultDir = ''''\<rparr>"

text \<open>The SQL expressions of the allowlist on a row.\<close>

definition user_sort_expr :: "string \<Rightarrow> user_row \<Rightarrow> sql_val option" where
  "user_sort_expr key u =
     (if key = ''username'' then Some (VText (ToLower (us_username u)))
      else if key = ''role'' then Some (VText (ToLower (us_role u)))
      else if key = ''last_login_at'' then map_option VTime (us_last_login_at u)
      else Some (VTime (us_created_at u)))"

definition userSortVal :: "codec \<Rightarrow> string \<Rightarrow> user_row \<Rightarrow> string option" where
  "userSortVal cd key u =
     (if key = ''username'' then sortValText (Some (us_username u))
      else if key = ''role'' then sortValText (Some (us_role u))
      else if key = ''last_login_at'' then sortValTime cd (us_last_login_at u)
      else sortValTime cd (Some (us_created_at u)))"

definition user_list :: "codec \<Rightarrow> user_row list_desc" where
  "user_list cd = \<lparr>ld_spec = userSortSpec, ld_max = 200, ld_val = user_sort_expr, ld_id = us_id, ld_sortVal = userSortVal cd\<rparr>"

text \<open>The \<^verbatim>\<open>name=\<close> condition: absent or empty means no condition.\<close>

definition name_filter :: "string option \<Rightarrow> string \<Rightarrow> bool" where
  "name_filter name value =
     (case name of Some n \<Rightarrow> if n = '''' then True else like (namePattern n) (ToLower value) | None \<Rightarrow> True)"

definition ListUsers ::
    "codec \<Rightarrow> (string \<Rightarrow> 'c::linorder) \<Rightarrow> string option \<Rightarrow> ListPage \<Rightarrow> auth_db \<Rightarrow> list_error + (user_row list \<times> string)" where
  "ListUsers cd coll name page db =
     list_rows cd coll (user_list cd) (\<lambda>u. name_filter name (us_username u)) page (users db)"

section \<open>Sessions\<close>

definition sessionSortSpec :: sortSpec where
  "sessionSortSpec =
     \<lparr>ss_columns =
        [(''username'', \<lparr>sc_kind = sortText, sc_nullable = False\<rparr>),
         (''created_at'', \<lparr>sc_kind = sortTime, sc_nullable = False\<rparr>),
         (''last_used_at'', \<lparr>sc_kind = sortTime, sc_nullable = False\<rparr>),
         (''expires_at'', \<lparr>sc_kind = sortTime, sc_nullable = False\<rparr>)],
      ss_defaultKey = ''created_at'', ss_defaultDir = ''''\<rparr>"

text \<open>A row of the query joins a session with its user; the cookie value is not among the columns selected.\<close>

record api_Session =
  ls_Id :: uuid
  ls_UserId :: uuid
  ls_Username :: string
  ls_CreatedAt :: time
  ls_LastUsedAt :: time
  ls_ExpiresAt :: time
  ls_UserAgent :: "string option"
  ls_SourceIp :: "string option"

definition session_sort_expr :: "string \<Rightarrow> api_Session \<Rightarrow> sql_val option" where
  "session_sort_expr key s =
     (if key = ''username'' then Some (VText (ToLower (ls_Username s)))
      else if key = ''last_used_at'' then Some (VTime (ls_LastUsedAt s))
      else if key = ''expires_at'' then Some (VTime (ls_ExpiresAt s))
      else Some (VTime (ls_CreatedAt s)))"

definition sessionSortVal :: "codec \<Rightarrow> string \<Rightarrow> api_Session \<Rightarrow> string option" where
  "sessionSortVal cd key s =
     (if key = ''username'' then sortValText (Some (ls_Username s))
      else if key = ''last_used_at'' then sortValTime cd (Some (ls_LastUsedAt s))
      else if key = ''expires_at'' then sortValTime cd (Some (ls_ExpiresAt s))
      else sortValTime cd (Some (ls_CreatedAt s)))"

definition session_list :: "codec \<Rightarrow> api_Session list_desc" where
  "session_list cd =
     \<lparr>ld_spec = sessionSortSpec, ld_max = 200, ld_val = session_sort_expr, ld_id = ls_Id, ld_sortVal = sessionSortVal cd\<rparr>"

definition session_rows :: "auth_db \<Rightarrow> api_Session list" where
  "session_rows db =
     concat (map (\<lambda>s. map (\<lambda>u. \<lparr>ls_Id = se_public_id s, ls_UserId = se_user_id s, ls_Username = us_username u,
                               ls_CreatedAt = se_created_at s, ls_LastUsedAt = se_last_used_at s, ls_ExpiresAt = se_expires_at s,
                               ls_UserAgent = se_user_agent s, ls_SourceIp = se_source_ip s\<rparr>)
                       (filter (\<lambda>u. us_id u = se_user_id s) (users db)))
       (sessions db))"

definition ListSessions ::
    "codec \<Rightarrow> (string \<Rightarrow> 'c::linorder) \<Rightarrow> time \<Rightarrow> string option \<Rightarrow> ListPage \<Rightarrow> auth_db \<Rightarrow> list_error + (api_Session list \<times> string)" where
  "ListSessions cd coll now name page db =
     list_rows cd coll (session_list cd) (\<lambda>s. ls_ExpiresAt s > now \<and> name_filter name (ls_Username s)) page (session_rows db)"

section \<open>API tokens\<close>

definition apiTokenSortSpec :: sortSpec where
  "apiTokenSortSpec =
     \<lparr>ss_columns =
        [(''name'', \<lparr>sc_kind = sortText, sc_nullable = False\<rparr>),
         (''created_at'', \<lparr>sc_kind = sortTime, sc_nullable = False\<rparr>),
         (''expires_at'', \<lparr>sc_kind = sortTime, sc_nullable = True\<rparr>),
         (''last_used_at'', \<lparr>sc_kind = sortTime, sc_nullable = True\<rparr>)],
      ss_defaultKey = ''created_at'', ss_defaultDir = ''''\<rparr>"

definition token_sort_expr :: "string \<Rightarrow> token_row \<Rightarrow> sql_val option" where
  "token_sort_expr key t =
     (if key = ''name'' then Some (VText (ToLower (tk_name t)))
      else if key = ''expires_at'' then map_option VTime (tk_expires_at t)
      else if key = ''last_used_at'' then map_option VTime (tk_last_used_at t)
      else Some (VTime (tk_created_at t)))"

definition apiTokenSortVal :: "codec \<Rightarrow> string \<Rightarrow> token_row \<Rightarrow> string option" where
  "apiTokenSortVal cd key t =
     (if key = ''name'' then sortValText (Some (tk_name t))
      else if key = ''expires_at'' then sortValTime cd (tk_expires_at t)
      else if key = ''last_used_at'' then sortValTime cd (tk_last_used_at t)
      else sortValTime cd (Some (tk_created_at t)))"

definition token_list :: "codec \<Rightarrow> token_row list_desc" where
  "token_list cd =
     \<lparr>ld_spec = apiTokenSortSpec, ld_max = 200, ld_val = token_sort_expr, ld_id = tk_id, ld_sortVal = apiTokenSortVal cd\<rparr>"

definition ListAPITokens ::
    "codec \<Rightarrow> (string \<Rightarrow> 'c::linorder) \<Rightarrow> string option \<Rightarrow> ListPage \<Rightarrow> auth_db \<Rightarrow> list_error + (token_row list \<times> string)" where
  "ListAPITokens cd coll name page db =
     list_rows cd coll (token_list cd) (\<lambda>t. name_filter name (tk_name t)) page (api_tokens db)"

section \<open>Handlers\<close>

text \<open>The query parameters of a list request and the answer: items with an optional next cursor, 400 for a bad cursor or sort, or an
  error of the handler.\<close>

record list_params =
  qp_Limit :: "int option"
  qp_Cursor :: "string option"
  qp_Sort :: "string option"
  qp_Order :: "string option"
  qp_Name :: "string option"

datatype 'r list_resp = ListOK "'r list" "string option" | ListBadRequest list_error | ListServerError

definition page_of_params :: "list_params \<Rightarrow> ListPage" where
  "page_of_params q =
     \<lparr>lp_Limit = (case qp_Limit q of Some l \<Rightarrow> l | None \<Rightarrow> 0), lp_Cursor = (case qp_Cursor q of Some c \<Rightarrow> c | None \<Rightarrow> ''''),
      lp_Sort = (case qp_Sort q of Some s \<Rightarrow> s | None \<Rightarrow> ''''), lp_Order = (case qp_Order q of Some d \<Rightarrow> d | None \<Rightarrow> '''')\<rparr>"

definition list_response :: "list_error + ('r list \<times> string) \<Rightarrow> 'r list_resp" where
  "list_response res =
     (case res of
        Inl e \<Rightarrow> if e = ErrInvalidCursor \<or> e = ErrInvalidSort then ListBadRequest e else ListServerError
      | Inr (items, nxt) \<Rightarrow> ListOK items (if nxt \<noteq> '''' then Some nxt else None))"

definition api_ListUsers :: "codec \<Rightarrow> (string \<Rightarrow> 'c::linorder) \<Rightarrow> list_params \<Rightarrow> auth_db \<Rightarrow> user_row list_resp" where
  "api_ListUsers cd coll q db = list_response (ListUsers cd coll (qp_Name q) (page_of_params q) db)"

definition api_ListSessions :: "codec \<Rightarrow> (string \<Rightarrow> 'c::linorder) \<Rightarrow> time \<Rightarrow> list_params \<Rightarrow> auth_db \<Rightarrow> api_Session list_resp" where
  "api_ListSessions cd coll now q db = list_response (ListSessions cd coll now (qp_Name q) (page_of_params q) db)"

definition api_ListApiTokens :: "codec \<Rightarrow> (string \<Rightarrow> 'c::linorder) \<Rightarrow> list_params \<Rightarrow> auth_db \<Rightarrow> token_row list_resp" where
  "api_ListApiTokens cd coll q db = list_response (ListAPITokens cd coll (qp_Name q) (page_of_params q) db)"

section \<open>The contract holds for the three lists\<close>

lemmas auth_list_defs = user_list_def userSortSpec_def user_sort_expr_def userSortVal_def session_list_def sessionSortSpec_def
  session_sort_expr_def sessionSortVal_def token_list_def apiTokenSortSpec_def token_sort_expr_def apiTokenSortVal_def
  sortValText_def sortValTime_def cursor_arg_def codec_ok_def

interpretation users: list_method user_list "\<lambda>u. us_id u \<noteq> uuid_Nil"
  by unfold_locales (auto simp: auth_list_defs split: if_splits option.splits)

interpretation sessions: list_method session_list "\<lambda>s. ls_Id s \<noteq> uuid_Nil"
  by unfold_locales (auto simp: auth_list_defs split: if_splits option.splits)

interpretation tokens: list_method token_list "\<lambda>t. tk_id t \<noteq> uuid_Nil"
  by unfold_locales (auto simp: auth_list_defs split: if_splits option.splits)

lemma session_rows_ids:
  assumes "db_ok db"
  shows "distinct (map ls_Id (session_rows db))" and "ls_Id ` set (session_rows db) \<subseteq> se_public_id ` set (sessions db)"
proof -
  have one: "length (filter (\<lambda>u. us_id u = i) us) \<le> 1" if "distinct (map us_id us)" for i us
    using that by (induction us) (auto simp: filter_empty_conv image_iff le_Suc_eq length_0_conv)
  have du: "distinct (map us_id (users db))" using assms by (simp add: db_ok_def)
  let ?f = "\<lambda>s. map (\<lambda>u. se_public_id s) (filter (\<lambda>u. us_id u = se_user_id s) (users db))"
  have ids: "map ls_Id (session_rows db) = concat (map ?f (sessions db))"
    by (simp add: session_rows_def map_concat comp_def)
  have "distinct (concat (map ?f ss))" if "distinct (map se_public_id ss)" for ss
    using that
  proof (induction ss)
    case (Cons s ss)
    have "length (?f s) \<le> 1" using one [OF du, of "se_user_id s"] by simp
    then have "distinct (?f s)" by (cases "?f s") (auto simp: le_Suc_eq)
    then show ?case using Cons by auto
  qed simp
  moreover have "distinct (map se_public_id (sessions db))" using assms by (simp add: db_ok_def)
  ultimately show "distinct (map ls_Id (session_rows db))" unfolding ids by blast
  show "ls_Id ` set (session_rows db) \<subseteq> se_public_id ` set (sessions db)" by (auto simp: session_rows_def)
qed

definition ids_set :: "auth_db \<Rightarrow> bool" where
  "ids_set db \<longleftrightarrow> uuid_Nil \<notin> us_id ` set (users db) \<and> uuid_Nil \<notin> se_public_id ` set (sessions db) \<and>
     uuid_Nil \<notin> tk_id ` set (api_tokens db)"

text \<open>C4: Admin lists, completeness. With no writes in between, walking any of the three admin lists from the first page along the
  next cursors visits each matching row exactly once, in the requested order, in pages within the limit: for every sort key and
  direction the allowlist accepts, every page size, with ties and NULLs. Only live sessions are listed.\<close>

theorem auth_lists_complete:
  assumes "codec_ok cd" and "inj coll" and "db_ok db" and "ids_set db"
  shows "(sortSpec_resolve userSortSpec page = Inr (key, col, dir) \<longrightarrow>
      (\<exists>ps. pages (\<lambda>c. ListUsers cd coll name (page\<lparr>lp_Cursor := c\<rparr>) db) '''' ps \<and>
        lists_exactly {u \<in> set (users db). name_filter name (us_username u)}
          (\<lambda>u v. row_before coll dir (user_sort_expr key u, us_id u) (user_sort_expr key v, us_id v))
          (clampLimit (lp_Limit page) 200) ps)) \<and>
    (sortSpec_resolve sessionSortSpec page = Inr (key, col, dir) \<longrightarrow>
      (\<exists>ps. pages (\<lambda>c. ListSessions cd coll now name (page\<lparr>lp_Cursor := c\<rparr>) db) '''' ps \<and>
        lists_exactly {s \<in> set (session_rows db). ls_ExpiresAt s > now \<and> name_filter name (ls_Username s)}
          (\<lambda>s t. row_before coll dir (session_sort_expr key s, ls_Id s) (session_sort_expr key t, ls_Id t))
          (clampLimit (lp_Limit page) 200) ps)) \<and>
    (sortSpec_resolve apiTokenSortSpec page = Inr (key, col, dir) \<longrightarrow>
      (\<exists>ps. pages (\<lambda>c. ListAPITokens cd coll name (page\<lparr>lp_Cursor := c\<rparr>) db) '''' ps \<and>
        lists_exactly {t \<in> set (api_tokens db). name_filter name (tk_name t)}
          (\<lambda>s t. row_before coll dir (token_sort_expr key s, tk_id s) (token_sort_expr key t, tk_id t))
          (clampLimit (lp_Limit page) 200) ps))"
proof (intro conjI impI)
  have d: "distinct (map us_id (users db))" "distinct (map tk_id (api_tokens db))" using assms(3) by (simp_all add: db_ok_def)
  show "\<exists>ps. pages (\<lambda>c. ListUsers cd coll name (page\<lparr>lp_Cursor := c\<rparr>) db) '''' ps \<and>
        lists_exactly {u \<in> set (users db). name_filter name (us_username u)}
          (\<lambda>u v. row_before coll dir (user_sort_expr key u, us_id u) (user_sort_expr key v, us_id v))
          (clampLimit (lp_Limit page) 200) ps" if "sortSpec_resolve userSortSpec page = Inr (key, col, dir)"
    using users.walk_complete [where rows = "users db" and keep = "\<lambda>u. name_filter name (us_username u)", OF assms(1,2)] assms(4) d(1) that
    by (force simp: ListUsers_def user_list_def ids_set_def)
  show "\<exists>ps. pages (\<lambda>c. ListSessions cd coll now name (page\<lparr>lp_Cursor := c\<rparr>) db) '''' ps \<and>
        lists_exactly {s \<in> set (session_rows db). ls_ExpiresAt s > now \<and> name_filter name (ls_Username s)}
          (\<lambda>s t. row_before coll dir (session_sort_expr key s, ls_Id s) (session_sort_expr key t, ls_Id t))
          (clampLimit (lp_Limit page) 200) ps" if "sortSpec_resolve sessionSortSpec page = Inr (key, col, dir)"
    using sessions.walk_complete [where rows = "session_rows db" and keep = "\<lambda>s. ls_ExpiresAt s > now \<and> name_filter name (ls_Username s)",
        OF assms(1,2)] assms(4) session_rows_ids [OF assms(3)] that
    by (force simp: ListSessions_def session_list_def ids_set_def)
  show "\<exists>ps. pages (\<lambda>c. ListAPITokens cd coll name (page\<lparr>lp_Cursor := c\<rparr>) db) '''' ps \<and>
        lists_exactly {t \<in> set (api_tokens db). name_filter name (tk_name t)}
          (\<lambda>s t. row_before coll dir (token_sort_expr key s, tk_id s) (token_sort_expr key t, tk_id t))
          (clampLimit (lp_Limit page) 200) ps" if "sortSpec_resolve apiTokenSortSpec page = Inr (key, col, dir)"
    using tokens.walk_complete [where rows = "api_tokens db" and keep = "\<lambda>t. name_filter name (tk_name t)", OF assms(1,2)] assms(4) d(2) that
    by (force simp: ListAPITokens_def token_list_def ids_set_def)
qed

section \<open>A codec\<close>

text \<open>A concrete encoding that satisfies \<open>codec_ok\<close>: fields with a unary length prefix.\<close>

definition enc_field :: "string \<Rightarrow> string" where
  "enc_field s = replicate (length s) (CHR ''1'') @ CHR ''0'' # s"

definition dec_field :: "string \<Rightarrow> string \<times> string" where
  "dec_field x = (let n = length (takeWhile (\<lambda>c. c = CHR ''1'') x); r = drop (Suc n) x in (take n r, drop n r))"

lemma dec_enc_field [simp]: "dec_field (enc_field s @ r) = (s, r)"
proof -
  have "takeWhile (\<lambda>c. c = CHR ''1'') (enc_field s @ r) = replicate (length s) (CHR ''1'')"
    by (simp add: enc_field_def takeWhile_append)
  then show ?thesis by (simp add: dec_field_def enc_field_def Let_def)
qed

definition enc_int :: "int \<Rightarrow> string" where
  "enc_int n = (if n < 0 then CHR ''-'' else CHR ''+'') # Itoa (nat \<bar>n\<bar>)"

definition dec_int :: "string \<Rightarrow> int" where
  "dec_int s = (let n = int (digits_val (tl s)) in if hd s = CHR ''-'' then - n else n)"

lemma dec_enc_int [simp]: "dec_int (enc_int n) = n"
  by (simp add: dec_int_def enc_int_def digits_val_Itoa)

definition enc_opt :: "string option \<Rightarrow> string" where
  "enc_opt v = (case v of None \<Rightarrow> '''' | Some s \<Rightarrow> CHR ''s'' # s)"

definition dec_opt :: "string \<Rightarrow> string option" where
  "dec_opt s = (case s of [] \<Rightarrow> None | _ # t \<Rightarrow> Some t)"

lemma dec_enc_opt [simp]: "dec_opt (enc_opt v) = v"
  by (cases v) (simp_all add: dec_opt_def enc_opt_def)

definition sample_codec :: codec where
  "sample_codec =
     \<lparr>cd_marshal = (\<lambda>c. enc_field (enc_int (lc_V c)) @ enc_field (lc_Col c) @ enc_field (enc_opt (lc_Val c)) @
        enc_field (enc_int (uint (lc_ID c))) @ lc_Dir c),
      cd_unmarshal = (\<lambda>x. let (v, x1) = dec_field x; (col, x2) = dec_field x1; (val, x3) = dec_field x2; (i, dir) = dec_field x3 in
        Some \<lparr>lc_V = dec_int v, lc_Col = col, lc_Val = dec_opt val, lc_ID = word_of_int (dec_int i), lc_Dir = dir\<rparr>),
      cd_formatTime = enc_int, cd_parseTime = (\<lambda>s. Some (dec_int s))\<rparr>"

lemma sample_codec_ok: "codec_ok sample_codec"
proof -
  have "enc_field s @ r \<noteq> []" for s r by (simp add: enc_field_def)
  then show ?thesis by (simp add: codec_ok_def sample_codec_def)
qed

theorem auth_lists_complete_witness:
  "\<exists>ps. pages (\<lambda>c. ListUsers sample_codec id None \<lparr>lp_Limit = 1, lp_Cursor = c, lp_Sort = ''username'', lp_Order = ''''\<rparr> sample_db) '''' ps \<and>
     concat ps = [admin_row 2 ''Ann'', admin_row 1 ''root''] \<and> 2 \<le> length ps"
proof -
  let ?page = "\<lparr>lp_Limit = 1, lp_Cursor = '''', lp_Sort = ''username'', lp_Order = ''''\<rparr>"
  have ids: "ids_set sample_db" by (simp add: ids_set_def sample_db_def admin_row_def new_user_def)
  have res: "sortSpec_resolve userSortSpec ?page = Inr (''username'', \<lparr>sc_kind = sortText, sc_nullable = False\<rparr>, ''asc'')"
    by (simp add: sortSpec_resolve_def userSortSpec_def dirAsc_def dirDesc_def)
  obtain ps where ps: "pages (\<lambda>c. ListUsers sample_codec id None (?page\<lparr>lp_Cursor := c\<rparr>) sample_db) '''' ps"
      "lists_exactly {u \<in> set (users sample_db). name_filter None (us_username u)}
          (\<lambda>u v. row_before id ''asc'' (user_sort_expr ''username'' u, us_id u) (user_sort_expr ''username'' v, us_id v)) 1 ps"
    using auth_lists_complete [OF sample_codec_ok inj_on_id sample_db_ok ids, where page = ?page and name = None,
        THEN conjunct1, rule_format, OF res] by (auto simp: clampLimit_def)
  let ?a = "admin_row 2 ''Ann''" and ?r = "admin_row 1 ''root''"
  have "ToLower ''Ann'' = ''ann''" "ToLower ''root'' = ''root''" by code_simp+
  moreover have "\<not> (''root'' :: string) < ''ann''" by code_simp
  ultimately have nlt: "\<not> row_before id ''asc'' (user_sort_expr ''username'' ?r, us_id ?r) (user_sort_expr ''username'' ?a, us_id ?a)"
    by (simp add: row_before_def user_sort_expr_def admin_row_def new_user_def sql_cmp_def dirDesc_def Let_def)
  have "set (concat ps) = {?a, ?r}" "distinct (concat ps)" and one: "\<forall>p\<in>set ps. length p \<le> 1"
    using ps(2) by (auto simp: lists_exactly_def name_filter_def sample_db_def)
  moreover have "?a \<noteq> ?r" by (simp add: admin_row_def new_user_def)
  ultimately have "length (concat ps) = 2" using distinct_card [of "concat ps"] by simp
  then obtain x y where xy: "concat ps = [x, y]" by (auto simp: length_Suc_conv numeral_2_eq_2)
  then have "[x, y] = [?a, ?r]"
    using \<open>set (concat ps) = {?a, ?r}\<close> \<open>distinct (concat ps)\<close> ps(2) nlt by (auto simp: lists_exactly_def doubleton_eq_iff)
  moreover have "2 \<le> length ps"
  proof -
    have "length (concat ps) \<le> length ps" using one by (induction ps) auto
    then show ?thesis using xy by simp
  qed
  ultimately show ?thesis using ps(1) xy by auto
qed

end
