(* ===== verification/Mcp_Auth.thy ===== *)
theory Mcp_Auth
  imports Cache_Spec Auth_Middleware
begin

text \<open>
  Authentication of the MCP server: the token cache of \<^verbatim>\<open>internal/mcp/auth_cache.go\<close> and the function \<^verbatim>\<open>buildMCPAuthFn\<close> of
  \<^verbatim>\<open>cmd/longue-vue/main.go\<close> that consults it before the database. As in the gateway's cache, a Go map points into a linked list of
  entries: elements are numbers, \<open>ac_entry\<close> their contents, \<open>ac_lru\<close> the list from front to back.

  Results: the cache refines the abstract LRU cache and meets the contract \<open>bounded_cache\<close>; whatever calls and revocations came before,
  an accepted token was verified against the database at most 30 seconds earlier (the revocation lag the code documents), and
  vm-collector tokens never get in.
\<close>

section \<open>The cache\<close>

record mcp_Caller =
  mc_TokenID :: "uuid option"
  mc_Name :: string
  mc_UserID :: "uuid option"
  mc_Scopes :: "string list"

record authCacheEntry =
  ace_prefix :: string
  ace_fullToken :: string
  ace_caller :: mcp_Caller
  ace_validUntil :: time

record AuthCache =
  ac_cap :: int
  ac_ttl :: duration
  ac_items :: "(string, nat) gomap"
  ac_lru :: "nat list"
  ac_entry :: "nat \<Rightarrow> authCacheEntry"
  ac_next :: nat

definition no_entry :: authCacheEntry where
  "no_entry = \<lparr>ace_prefix = '''', ace_fullToken = '''',
     ace_caller = \<lparr>mc_TokenID = None, mc_Name = '''', mc_UserID = None, mc_Scopes = []\<rparr>, ace_validUntil = 0\<rparr>"

definition NewAuthCache :: "int \<Rightarrow> duration \<Rightarrow> AuthCache" where
  "NewAuthCache capacity ttl =
     \<lparr>ac_cap = capacity, ac_ttl = ttl, ac_items = [], ac_lru = [], ac_entry = (\<lambda>_. no_entry), ac_next = 0\<rparr>"

definition AuthCache_Get :: "time \<Rightarrow> string \<Rightarrow> string \<Rightarrow> AuthCache \<Rightarrow> mcp_Caller option \<times> AuthCache" where
  "AuthCache_Get now pfx full c =
     (case map_of (ac_items c) pfx of
        None \<Rightarrow> (None, c)
      | Some e \<Rightarrow>
          let entry = ac_entry c e in
          if now > ace_validUntil entry
          then (None, c\<lparr>ac_lru := remove1 e (ac_lru c), ac_items := AList.delete pfx (ac_items c)\<rparr>)
          else if length (ace_fullToken entry) \<noteq> length full then (None, c)
          else if ace_fullToken entry \<noteq> full then (None, c)
          else (Some (ace_caller entry), c\<lparr>ac_lru := e # remove1 e (ac_lru c)\<rparr>))"

text \<open>The eviction of \<^verbatim>\<open>Put\<close>: at capacity, the back of the list goes, once.\<close>

definition evict_oldest :: "AuthCache \<Rightarrow> AuthCache" where
  "evict_oldest c =
     (if int (length (ac_items c)) \<ge> ac_cap c \<and> ac_lru c \<noteq> []
      then let e = last (ac_lru c) in
           c\<lparr>ac_items := AList.delete (ace_prefix (ac_entry c e)) (ac_items c), ac_lru := remove1 e (ac_lru c)\<rparr>
      else c)"

definition AuthCache_Put :: "time \<Rightarrow> string \<Rightarrow> string \<Rightarrow> mcp_Caller \<Rightarrow> AuthCache \<Rightarrow> AuthCache" where
  "AuthCache_Put now pfx full caller c =
     (case map_of (ac_items c) pfx of
        Some e \<Rightarrow>
          c\<lparr>ac_entry := (ac_entry c)(e := (ac_entry c e)\<lparr>ace_fullToken := full, ace_caller := caller, ace_validUntil := now + ac_ttl c\<rparr>),
            ac_lru := e # remove1 e (ac_lru c)\<rparr>
      | None \<Rightarrow>
          let c1 = evict_oldest c; n = ac_next c1 in
          c1\<lparr>ac_entry := (ac_entry c1)(n := \<lparr>ace_prefix = pfx, ace_fullToken = full, ace_caller = caller,
                                             ace_validUntil = now + ac_ttl c1\<rparr>),
             ac_lru := n # ac_lru c1, ac_items := AList.update pfx n (ac_items c1), ac_next := Suc n\<rparr>)"

definition AuthCache_Invalidate :: "string \<Rightarrow> AuthCache \<Rightarrow> AuthCache" where
  "AuthCache_Invalidate pfx c =
     (case map_of (ac_items c) pfx of
        Some e \<Rightarrow> c\<lparr>ac_lru := remove1 e (ac_lru c), ac_items := AList.delete pfx (ac_items c)\<rparr>
      | None \<Rightarrow> c)"

definition AuthCache_Len :: "AuthCache \<Rightarrow> nat" where
  "AuthCache_Len c = length (ac_items c)"

section \<open>The authentication function\<close>

datatype mcp_error =
    errDisabled
  | errUnauthorized
  | errUnknownTransport
  | errRateLimited
  | errMCPPlaintextRefused
  | errMCPAuthFailed
  | errReadSettings

definition mcpScopeAllowed :: "string list \<Rightarrow> bool" where
  "mcpScopeAllowed scopes = (if has_scope scopes ''vm-collector'' then False else has_scope scopes ''read'')"

definition mcp_caller_of :: "auth_APIToken \<Rightarrow> mcp_Caller" where
  "mcp_caller_of tok =
     \<lparr>mc_TokenID = Some (at_ID tok), mc_Name = at_Name tok, mc_UserID = Some (at_CreatedByUserID tok), mc_Scopes = at_Scopes tok\<rparr>"

definition buildMCPAuthFn :: "idkey \<Rightarrow> time \<Rightarrow> auth_db \<Rightarrow> string \<Rightarrow> AuthCache \<Rightarrow> (mcp_error + mcp_Caller) \<times> AuthCache" where
  "buildMCPAuthFn idkey now db rawToken cache =
     (case ParseToken rawToken of
        Inl _ \<Rightarrow> (Inl errMCPAuthFailed, cache)
      | Inr (pfx, full) \<Rightarrow>
          (case AuthCache_Get now pfx full cache of
             (Some caller, cache1) \<Rightarrow> (Inr caller, cache1)
           | (None, cache1) \<Rightarrow>
               (case GetActiveTokenByPrefix now pfx db of
                  Inl _ \<Rightarrow> (Inl errMCPAuthFailed, cache1)
                | Inr tok \<Rightarrow>
                    if VerifyPassword idkey full (at_Hash tok) \<noteq> None then (Inl errMCPAuthFailed, cache1)
                    else if \<not> mcpScopeAllowed (at_Scopes tok) then (Inl errMCPAuthFailed, cache1)
                    else (Inr (mcp_caller_of tok), AuthCache_Put now pfx full (mcp_caller_of tok) cache1))))"

section \<open>Invariant and abstraction\<close>

definition ac_key :: "AuthCache \<Rightarrow> nat \<Rightarrow> string" where
  "ac_key c e = ace_prefix (ac_entry c e)"

definition ac_linked :: "AuthCache \<Rightarrow> bool" where
  "ac_linked c \<longleftrightarrow> links (ac_items c) (ac_lru c) (ac_key c) \<and> (\<forall>e\<in>set (ac_lru c). e < ac_next c)"

definition ac_bound :: "AuthCache \<Rightarrow> nat" where
  "ac_bound c = max 1 (nat (ac_cap c))"

definition ac_inv :: "AuthCache \<Rightarrow> bool" where
  "ac_inv c \<longleftrightarrow> ac_linked c \<and> length (ac_lru c) \<le> ac_bound c"

definition ac_abs :: "AuthCache \<Rightarrow> (string \<times> authCacheEntry) list" where
  "ac_abs c = map (\<lambda>e. (ac_key c e, ac_entry c e)) (ac_lru c)"

definition ac_peek :: "AuthCache \<Rightarrow> string \<Rightarrow> authCacheEntry option" where
  "ac_peek c k = map_option (ac_entry c) (map_of (ac_items c) k)"

lemma ac_peek_abs: "ac_linked c \<Longrightarrow> map_of (ac_abs c) = ac_peek c"
  using links_map_of [of "ac_items c" "ac_lru c" "ac_key c" "ac_entry c"]
  by (simp add: ac_linked_def ac_abs_def ac_peek_def fun_eq_iff)

lemma ac_abs_distinct: "ac_linked c \<Longrightarrow> distinct (map fst (ac_abs c))"
  using links_inj [of "ac_items c" "ac_lru c" "ac_key c"]
  by (auto simp: ac_linked_def ac_abs_def comp_def links_def distinct_map)

lemma ac_in_abs: "ac_linked c \<Longrightarrow> k \<in> fst ` set (ac_abs c) \<longleftrightarrow> map_of (ac_items c) k \<noteq> None"
  using links_keys [of "ac_items c" "ac_lru c" "ac_key c" k] by (force simp: ac_linked_def ac_abs_def image_iff)

lemma ac_remove:
  assumes "ac_linked c" and "map_of (ac_items c) k = Some e"
  defines "c' \<equiv> c\<lparr>ac_lru := remove1 e (ac_lru c), ac_items := AList.delete k (ac_items c)\<rparr>"
  shows "ac_linked c'" "ac_abs c' = AList.delete k (ac_abs c)"
proof -
  have l: "links (ac_items c) (ac_lru c) (ac_key c)" using assms(1) by (simp add: ac_linked_def)
  have e: "e \<in> set (ac_lru c)" "ac_key c e = k" using links_lookup [OF l, of k e] assms(2) by auto
  have key: "ac_key c' = ac_key c" by (simp add: c'_def ac_key_def fun_eq_iff)
  show "ac_linked c'" using links_drop [OF l e(1)] assms(1) e(2)
    by (auto simp: ac_linked_def key) (auto simp: c'_def dest: notin_set_remove1)
  show "ac_abs c' = AList.delete k (ac_abs c)"
    using map_delete_key [OF links_inj [OF l] _ e(1), of "ac_entry c"] l e(2)
    by (simp add: ac_abs_def key) (simp add: c'_def links_def)
qed

lemma ac_move:
  assumes "ac_linked c" and "map_of (ac_items c) k = Some e"
  defines "c' \<equiv> c\<lparr>ac_lru := e # remove1 e (ac_lru c)\<rparr>"
  shows "ac_linked c'" "ac_abs c' = (k, ac_entry c e) # AList.delete k (ac_abs c)"
proof -
  have l: "links (ac_items c) (ac_lru c) (ac_key c)" using assms(1) by (simp add: ac_linked_def)
  have e: "e \<in> set (ac_lru c)" "ac_key c e = k" using links_lookup [OF l, of k e] assms(2) by auto
  have key: "ac_key c' = ac_key c" by (simp add: c'_def ac_key_def fun_eq_iff)
  show "ac_linked c'" using links_move [OF l e(1)] assms(1) e(1)
    by (auto simp: ac_linked_def key) (auto simp: c'_def dest: notin_set_remove1)
  show "ac_abs c' = (k, ac_entry c e) # AList.delete k (ac_abs c)"
    using map_delete_key [OF links_inj [OF l] _ e(1), of "ac_entry c"] l e(2)
    by (simp add: ac_abs_def key) (simp add: c'_def links_def)
qed

section \<open>Refinement of the abstract LRU cache\<close>

lemma Get_refines:
  assumes "ac_linked c"
  shows "ac_linked (snd (AuthCache_Get now k full c))"
    and "fst (AuthCache_Get now k full c) =
      map_option ace_caller (fst (lru_get (\<lambda>v. now > ace_validUntil v) (\<lambda>v. ace_fullToken v = full) k (ac_abs c)))"
    and "ac_abs (snd (AuthCache_Get now k full c)) =
      snd (lru_get (\<lambda>v. now > ace_validUntil v) (\<lambda>v. ace_fullToken v = full) k (ac_abs c))"
proof -
  have look: "map_of (ac_abs c) k = map_option (ac_entry c) (map_of (ac_items c) k)"
    using ac_peek_abs [OF assms] by (simp add: ac_peek_def)
  show "ac_linked (snd (AuthCache_Get now k full c))"
    using assms ac_remove(1) [OF assms] ac_move(1) [OF assms] by (auto simp: AuthCache_Get_def Let_def split: option.splits)
  show "fst (AuthCache_Get now k full c) =
      map_option ace_caller (fst (lru_get (\<lambda>v. now > ace_validUntil v) (\<lambda>v. ace_fullToken v = full) k (ac_abs c)))"
    by (auto simp: AuthCache_Get_def Let_def look split: option.splits)
  show "ac_abs (snd (AuthCache_Get now k full c)) =
      snd (lru_get (\<lambda>v. now > ace_validUntil v) (\<lambda>v. ace_fullToken v = full) k (ac_abs c))"
    using ac_remove(2) [OF assms] ac_move(2) [OF assms] by (auto simp: AuthCache_Get_def Let_def look split: option.splits)
qed

lemma evict_oldest_abs:
  assumes "ac_inv c"
  shows "ac_linked (evict_oldest c)" "ac_abs (evict_oldest c) = take (ac_bound c - 1) (ac_abs c)"
    and "map_of (ac_items c) k = None \<Longrightarrow> map_of (ac_items (evict_oldest c)) k = None"
proof -
  have lk: "ac_linked c" and sz: "length (ac_lru c) \<le> ac_bound c" using assms by (simp_all add: ac_inv_def)
  have l: "links (ac_items c) (ac_lru c) (ac_key c)" using lk by (simp add: ac_linked_def)
  have len: "length (ac_items c) = length (ac_lru c)" using l by (rule links_length)
  let ?e = "last (ac_lru c)"
  show "ac_linked (evict_oldest c)" and "ac_abs (evict_oldest c) = take (ac_bound c - 1) (ac_abs c)"
  proof -
    have "ac_linked (evict_oldest c) \<and> ac_abs (evict_oldest c) = take (ac_bound c - 1) (ac_abs c)"
    proof (cases "int (length (ac_items c)) \<ge> ac_cap c \<and> ac_lru c \<noteq> []")
      case True
      have look: "map_of (ac_items c) (ac_key c ?e) = Some ?e" using links_key_lookup [OF l] True by simp
      have ev: "evict_oldest c = c\<lparr>ac_lru := remove1 ?e (ac_lru c), ac_items := AList.delete (ac_key c ?e) (ac_items c)\<rparr>"
        using True by (simp add: evict_oldest_def ac_key_def Let_def)
      have "remove1 ?e (ac_lru c) = butlast (ac_lru c)"
        using l True by (intro remove1_last) (simp_all add: links_def)
      then have "ac_abs (evict_oldest c) = butlast (ac_abs c)"
        by (simp add: ev ac_abs_def ac_key_def map_butlast)
      moreover have "length (ac_lru c) = ac_bound c"
        using True sz len by (cases "ac_lru c") (auto simp: ac_bound_def)
      ultimately show ?thesis using ac_remove(1) [OF lk look] by (simp add: ev butlast_conv_take ac_abs_def)
    next
      case False
      then have "length (ac_abs c) \<le> ac_bound c - 1" using len by (auto simp: ac_abs_def ac_bound_def)
      moreover have "evict_oldest c = c" using False by (auto simp: evict_oldest_def)
      ultimately show ?thesis using lk by simp
    qed
    then show "ac_linked (evict_oldest c)" and "ac_abs (evict_oldest c) = take (ac_bound c - 1) (ac_abs c)" by auto
  qed
  show "map_of (ac_items c) k = None \<Longrightarrow> map_of (ac_items (evict_oldest c)) k = None"
    by (simp add: evict_oldest_def Let_def)
qed

lemma Put_refines:
  assumes "ac_inv c"
  shows "ac_linked (AuthCache_Put now k full caller c)"
    and "ac_abs (AuthCache_Put now k full caller c) =
      lru_put (ac_bound c) k \<lparr>ace_prefix = k, ace_fullToken = full, ace_caller = caller, ace_validUntil = now + ac_ttl c\<rparr> (ac_abs c)"
proof -
  let ?v = "\<lparr>ace_prefix = k, ace_fullToken = full, ace_caller = caller, ace_validUntil = now + ac_ttl c\<rparr>"
  let ?c' = "AuthCache_Put now k full caller c"
  have lk: "ac_linked c" using assms by (simp add: ac_inv_def)
  have "ac_linked ?c' \<and> ac_abs ?c' = lru_put (ac_bound c) k ?v (ac_abs c)"
  proof (cases "map_of (ac_items c) k")
    case (Some e)
    have l: "links (ac_items c) (ac_lru c) (ac_key c)" using lk by (simp add: ac_linked_def)
    have e: "e \<in> set (ac_lru c)" "ac_key c e = k" using links_lookup [OF l, of k e] Some by auto
    have eq: "(ac_entry c e)\<lparr>ace_fullToken := full, ace_caller := caller, ace_validUntil := now + ac_ttl c\<rparr> = ?v"
      using e(2) by (simp add: ac_key_def)
    let ?c1 = "c\<lparr>ac_entry := (ac_entry c)(e := ?v)\<rparr>"
    have key: "ac_key ?c1 = ac_key c" using e(2) by (auto simp: ac_key_def fun_eq_iff)
    have l1: "ac_linked ?c1" using lk by (simp add: ac_linked_def key)
    have "AList.delete k (ac_abs ?c1) = AList.delete k (ac_abs c)"
      unfolding ac_abs_def key by simp (rule delete_map_cong, auto simp: e(2))
    moreover have "?c' = ?c1\<lparr>ac_lru := e # remove1 e (ac_lru ?c1)\<rparr>"
      using Some by (simp add: AuthCache_Put_def eq)
    moreover have "k \<in> fst ` set (ac_abs c)" using ac_in_abs [OF lk] Some by simp
    moreover have "map_of (ac_items ?c1) k = Some e" using Some by simp
    ultimately show ?thesis
      using ac_move [OF l1, of k e] by (simp add: lru_put_def)
  next
    case None
    let ?c1 = "evict_oldest c"
    let ?n = "ac_next ?c1"
    have l1: "ac_linked ?c1" "ac_abs ?c1 = take (ac_bound c - 1) (ac_abs c)" "map_of (ac_items ?c1) k = None"
      using evict_oldest_abs [OF assms] None by auto
    have n: "?n \<notin> set (ac_lru ?c1)" using l1(1) by (auto simp: ac_linked_def)
    have ttl: "ac_ttl ?c1 = ac_ttl c" by (simp add: evict_oldest_def Let_def)
    have c': "?c' = ?c1\<lparr>ac_entry := (ac_entry ?c1)(?n := ?v), ac_lru := ?n # ac_lru ?c1,
        ac_items := AList.update k ?n (ac_items ?c1), ac_next := Suc ?n\<rparr>"
      using None by (simp add: AuthCache_Put_def Let_def ttl)
    have key: "ac_key ?c' = (ac_key ?c1)(?n := k)" by (auto simp: c' ac_key_def fun_eq_iff)
    have "links (AList.update k ?n (ac_items ?c1)) (?n # ac_lru ?c1) (ac_key ?c')"
      unfolding key using l1(1,3) n by (intro links_push) (simp_all add: ac_linked_def)
    moreover have "\<forall>e\<in>set (?n # ac_lru ?c1). e < Suc ?n" using l1(1) by (auto simp: ac_linked_def)
    ultimately have "ac_linked ?c'" unfolding ac_linked_def by (simp add: c')
    moreover have "ac_abs ?c' = (k, ?v) # ac_abs ?c1"
      using n by (auto simp: ac_abs_def key) (auto simp: c')
    moreover have "k \<notin> fst ` set (ac_abs c)" using ac_in_abs [OF lk] None by simp
    ultimately show ?thesis by (simp add: l1(2) lru_put_def)
  qed
  then show "ac_linked ?c'" "ac_abs ?c' = lru_put (ac_bound c) k ?v (ac_abs c)" by auto
qed

lemma Invalidate_refines:
  assumes "ac_linked c"
  shows "ac_linked (AuthCache_Invalidate k c)" "ac_abs (AuthCache_Invalidate k c) = AList.delete k (ac_abs c)"
proof -
  have "ac_linked (AuthCache_Invalidate k c) \<and> ac_abs (AuthCache_Invalidate k c) = AList.delete k (ac_abs c)"
  proof (cases "map_of (ac_items c) k")
    case None
    then have "k \<notin> fst ` set (ac_abs c)" using ac_in_abs [OF assms] by simp
    with None assms show ?thesis by (simp add: AuthCache_Invalidate_def delete_id)
  next
    case (Some e)
    with ac_remove [OF assms Some] show ?thesis by (simp add: AuthCache_Invalidate_def)
  qed
  then show "ac_linked (AuthCache_Invalidate k c)" "ac_abs (AuthCache_Invalidate k c) = AList.delete k (ac_abs c)" by auto
qed

lemma ac_config [simp]:
  "ac_cap (AuthCache_Put now k full caller c) = ac_cap c" "ac_ttl (AuthCache_Put now k full caller c) = ac_ttl c"
  "ac_cap (snd (AuthCache_Get now k full c)) = ac_cap c" "ac_ttl (snd (AuthCache_Get now k full c)) = ac_ttl c"
  "ac_cap (AuthCache_Invalidate k c) = ac_cap c" "ac_ttl (AuthCache_Invalidate k c) = ac_ttl c"
  by (auto simp: AuthCache_Put_def AuthCache_Get_def AuthCache_Invalidate_def evict_oldest_def Let_def split: option.splits)

lemma ac_bound_config [simp]:
  "ac_bound (AuthCache_Put now k full caller c) = ac_bound c" "ac_bound (snd (AuthCache_Get now k full c)) = ac_bound c"
  "ac_bound (AuthCache_Invalidate k c) = ac_bound c"
  by (simp_all add: ac_bound_def)

lemma ac_inv_abs: "ac_inv c \<longleftrightarrow> ac_linked c \<and> length (ac_abs c) \<le> ac_bound c"
  by (simp add: ac_inv_def ac_abs_def)

lemma ac_inv_ops:
  assumes "ac_inv c"
  shows "ac_inv (AuthCache_Put now k full caller c)" "ac_inv (snd (AuthCache_Get now k full c))" "ac_inv (AuthCache_Invalidate k c)"
proof -
  have lk: "ac_linked c" and sz: "length (ac_abs c) \<le> ac_bound c" and pos: "0 < ac_bound c"
    using assms by (simp_all add: ac_inv_abs ac_bound_def)
  note d = ac_abs_distinct [OF lk]
  show "ac_inv (AuthCache_Put now k full caller c)"
    using Put_refines [OF assms, of now k full caller] lru_put_size [OF sz pos d] by (simp add: ac_inv_abs)
  show "ac_inv (snd (AuthCache_Get now k full c))"
    using Get_refines [OF lk, of now k full] lru_get_size [OF d] sz by (simp add: ac_inv_abs del: lru_get.simps) (metis le_trans)
  show "ac_inv (AuthCache_Invalidate k c)"
    using Invalidate_refines [OF lk, of k] length_delete_le [of k "ac_abs c"] sz by (simp add: ac_inv_abs)
qed

lemma ac_inv_New: "ac_inv (NewAuthCache capacity ttl)"
  by (simp add: ac_inv_def ac_linked_def links_def NewAuthCache_def)

text \<open>The contract, with the value a put stores: time, full token and caller.\<close>

abbreviation ac_put :: "string \<Rightarrow> time \<times> string \<times> mcp_Caller \<Rightarrow> AuthCache \<Rightarrow> AuthCache" where
  "ac_put k v c \<equiv> (case v of (now, full, caller) \<Rightarrow> AuthCache_Put now k full caller c)"

abbreviation ac_touch :: "time \<times> string \<Rightarrow> string \<Rightarrow> AuthCache \<Rightarrow> AuthCache" where
  "ac_touch t k c \<equiv> snd (AuthCache_Get (fst t) k (snd t) c)"

definition ac_stored :: "AuthCache \<Rightarrow> string \<Rightarrow> (time \<times> string \<times> mcp_Caller) option" where
  "ac_stored c k = map_option (\<lambda>e. (ace_validUntil e - ac_ttl c, ace_fullToken e, ace_caller e)) (ac_peek c k)"

interpretation mcp: bounded_cache ac_stored ac_put ac_touch AuthCache_Invalidate
  ac_inv AuthCache_Len ac_bound
proof unfold_locales
  fix c :: AuthCache and k k' :: string and v :: "time \<times> string \<times> mcp_Caller" and t :: "time \<times> string"
  obtain now full caller where v: "v = (now, full, caller)" by (metis prod.exhaust)
  obtain tnow tfull where t: "t = (tnow, tfull)" by fastforce
  show "ac_bound (ac_put k v c) = ac_bound c" "ac_bound (ac_touch t k c) = ac_bound c"
    "ac_bound (AuthCache_Invalidate k c) = ac_bound c" by (simp_all add: v t)
  assume inv: "ac_inv c"
  then have lk: "ac_linked c" by (simp add: ac_inv_def)
  note d = ac_abs_distinct [OF lk] and peek = ac_peek_abs [symmetric]
  show "ac_inv (ac_put k v c)" "ac_inv (ac_touch t k c)" "ac_inv (AuthCache_Invalidate k c)"
    using ac_inv_ops [OF inv] by (simp_all add: v t)
  show "AuthCache_Len c \<le> ac_bound c"
    using inv links_length [of "ac_items c" "ac_lru c" "ac_key c"] by (simp add: ac_inv_def ac_linked_def AuthCache_Len_def)
  note put = Put_refines [OF inv, of now k full caller]
  show "ac_stored (ac_put k v c) k = Some v" by (simp add: v ac_stored_def peek [OF put(1)] put(2))
  show "ac_stored (ac_put k v c) k' \<in> {None, ac_stored c k'}" if "k' \<noteq> k"
    using lru_put_other [OF d that, of "ac_bound c"
        "\<lparr>ace_prefix = k, ace_fullToken = full, ace_caller = caller, ace_validUntil = now + ac_ttl c\<rparr>"] by (auto simp: v ac_stored_def peek [OF put(1)] put(2) peek [OF lk])
  note get = Get_refines [OF lk, of tnow k tfull]
  let ?g = "lru_get (\<lambda>v. tnow > ace_validUntil v) (\<lambda>v. ace_fullToken v = tfull) k (ac_abs c)"
  have "map_of (snd ?g) k' \<in> {None, map_of (ac_abs c) k'}" by (auto split: option.splits)
  then show "ac_stored (ac_touch t k c) k' \<in> {None, ac_stored c k'}"
    by (auto simp: t ac_stored_def peek [OF get(1)] get(3) peek [OF lk] simp del: lru_get.simps)
  show "ac_stored (AuthCache_Invalidate k c) k' = (if k' = k then None else ac_stored c k')"
    using Invalidate_refines [OF lk, of k] peek [OF lk] by (simp add: ac_stored_def peek delete_conv')
qed

section \<open>Runs\<close>

text \<open>The events the cache sees: a tool call presenting a token, with the database at that moment, and a prefix received from
  the revocation channel.\<close>

datatype mcp_event = McpCall time auth_db string | McpRevoked string

fun mcp_step :: "idkey \<Rightarrow> mcp_event \<Rightarrow> AuthCache \<Rightarrow> AuthCache" where
  "mcp_step idkey (McpCall now db raw) c = snd (buildMCPAuthFn idkey now db raw c)"
| "mcp_step idkey (McpRevoked pfx) c = AuthCache_Invalidate pfx c"

definition mcp_run :: "idkey \<Rightarrow> mcp_event list \<Rightarrow> AuthCache \<Rightarrow> AuthCache" where
  "mcp_run idkey evs c = fold (mcp_step idkey) evs c"

definition verified :: "idkey \<Rightarrow> time \<Rightarrow> auth_db \<Rightarrow> string \<Rightarrow> mcp_Caller \<Rightarrow> bool" where
  "verified idkey t db raw caller \<longleftrightarrow>
     (\<exists>pfx tok. ParseToken raw = Inr (pfx, raw) \<and> GetActiveTokenByPrefix t pfx db = Inr tok \<and>
        VerifyPassword idkey raw (at_Hash tok) = None \<and> mcpScopeAllowed (at_Scopes tok) \<and> caller = mcp_caller_of tok)"

text \<open>Where a cached entry comes from: a verified call since which its prefix was not revoked.\<close>

definition traced :: "idkey \<Rightarrow> mcp_event list \<Rightarrow> string \<Rightarrow> time \<times> string \<times> mcp_Caller \<Rightarrow> bool" where
  "traced idkey evs k = (\<lambda>(t, full, caller). ParseToken full = Inr (k, full) \<and>
     (\<exists>pre d post. evs = pre @ McpCall t d full # post \<and> verified idkey t d full caller \<and> McpRevoked k \<notin> set post))"

lemma traced_extend: "traced idkey evs k v \<Longrightarrow> e \<noteq> McpRevoked k \<Longrightarrow> traced idkey (evs @ [e]) k v"
  unfolding traced_def by (cases v) force

lemma stored_after:
  assumes "ac_inv c"
  shows "ac_stored (snd (AuthCache_Get t k' full c)) k = Some v \<Longrightarrow> ac_stored c k = Some v"
    and "ac_stored (AuthCache_Put t k' full caller c) k = Some v \<Longrightarrow> ac_stored c k = Some v \<or> k = k' \<and> v = (t, full, caller)"
    and "ac_stored (AuthCache_Invalidate k' c) k = Some v \<Longrightarrow> ac_stored c k = Some v \<and> k \<noteq> k'"
  using mcp.peek_touch [OF assms, of "(t, full)" k' k] mcp.peek_put_same [OF assms, of k' "(t, full, caller)"]
    mcp.peek_put_other [OF assms, of k k' "(t, full, caller)"] mcp.peek_invalidate [OF assms, of k' k]
  by (auto split: if_splits)

lemma auth_cases:
  assumes "buildMCPAuthFn idkey now db raw c = (res, c')"
  obtains (bad) "c' = c" "res = Inl errMCPAuthFailed"
  | (hit) pfx caller where "ParseToken raw = Inr (pfx, raw)" "AuthCache_Get now pfx raw c = (Some caller, c')" "res = Inr caller"
  | (refused) pfx where "ParseToken raw = Inr (pfx, raw)" "c' = snd (AuthCache_Get now pfx raw c)" "res = Inl errMCPAuthFailed"
  | (fresh) pfx caller where "ParseToken raw = Inr (pfx, raw)" "c' = AuthCache_Put now pfx raw caller (snd (AuthCache_Get now pfx raw c))"
      "res = Inr caller" "verified idkey now db raw caller"
proof (cases "ParseToken raw")
  case (Inl e)
  with assms bad show ?thesis by (simp add: buildMCPAuthFn_def)
next
  case (Inr r)
  then obtain pfx where p: "ParseToken raw = Inr (pfx, raw)" by (cases r) (auto dest: ParseToken_full)
  obtain got c1 where g: "AuthCache_Get now pfx raw c = (got, c1)" by fastforce
  show ?thesis
  proof (cases got)
    case (Some caller)
    with assms p g hit show ?thesis by (simp add: buildMCPAuthFn_def)
  next
    case None
    then show ?thesis
      using assms p g refused [of pfx] fresh [of pfx]
      by (auto simp: buildMCPAuthFn_def verified_def split: sum.splits if_splits)
  qed
qed

lemma mcp_run_inv:
  "let c = mcp_run idkey evs (NewAuthCache cap ttl) in
   ac_inv c \<and> ac_ttl c = ttl \<and> ac_cap c = cap \<and> (\<forall>k v. ac_stored c k = Some v \<longrightarrow> traced idkey evs k v)"
proof (induction evs rule: rev_induct)
  case Nil
  then show ?case using ac_inv_New [of cap ttl] by (simp add: mcp_run_def NewAuthCache_def ac_stored_def ac_peek_def)
next
  case (snoc e evs)
  let ?c = "mcp_run idkey evs (NewAuthCache cap ttl)"
  have ih: "ac_inv ?c" "ac_ttl ?c = ttl" "ac_cap ?c = cap" "\<And>k v. ac_stored ?c k = Some v \<Longrightarrow> traced idkey evs k v"
    using snoc unfolding Let_def by blast+
  have run: "mcp_run idkey (evs @ [e]) (NewAuthCache cap ttl) = mcp_step idkey e ?c" by (simp add: mcp_run_def)
  show ?case
  proof (cases e)
    case (McpRevoked pfx)
    have "traced idkey (evs @ [e]) k v" if "ac_stored (AuthCache_Invalidate pfx ?c) k = Some v" for k v
      using stored_after(3) [OF ih(1) that] ih(4) [of k v] traced_extend [of idkey evs k v e] McpRevoked by blast
    then show ?thesis unfolding run Let_def using ih ac_inv_ops(3) [OF ih(1)] McpRevoked by simp
  next
    case (McpCall now db raw)
    obtain res c' where b: "buildMCPAuthFn idkey now db raw ?c = (res, c')" by fastforce
    have ext: "ac_stored ?c k = Some v \<Longrightarrow> traced idkey (evs @ [e]) k v" for k v
      using ih(4) [of k v] traced_extend [of idkey evs k v e] McpCall by simp
    from b have "ac_inv c' \<and> ac_ttl c' = ttl \<and> ac_cap c' = cap \<and> (\<forall>k v. ac_stored c' k = Some v \<longrightarrow> traced idkey (evs @ [e]) k v)"
    proof (cases rule: auth_cases)
      case bad
      then show ?thesis using ih ext by simp
    next
      case (hit pfx caller)
      then have "c' = snd (AuthCache_Get now pfx raw ?c)" by simp
      then show ?thesis using ih ext stored_after(1) [OF ih(1)] ac_inv_ops(2) [OF ih(1)] by auto
    next
      case (refused pfx)
      then show ?thesis using ih ext stored_after(1) [OF ih(1)] ac_inv_ops(2) [OF ih(1)] by auto
    next
      case (fresh pfx caller)
      let ?c1 = "snd (AuthCache_Get now pfx raw ?c)"
      have inv: "ac_inv ?c1" using ac_inv_ops(2) [OF ih(1)] .
      have new: "traced idkey (evs @ [e]) pfx (now, raw, caller)"
        using fresh McpCall unfolding traced_def prod.case
        by (intro conjI exI [of _ evs] exI [of _ db] exI [of _ "[]"]) simp_all
      show ?thesis
        using fresh new ih ext stored_after(2) [OF inv] stored_after(1) [OF ih(1)] ac_inv_ops(1) [OF inv] by auto metis
    qed
    then show ?thesis unfolding run Let_def using McpCall b by simp
  qed
qed


definition mcp_db :: auth_db where
  "mcp_db = sample_db\<lparr>api_tokens := [\<lparr>tk_id = 7, tk_name = ''ai'', tk_prefix = ''aaaaaaaa'',
     tk_hash = phc_string 19 argonMemory argonTime argonThreads ''salt''
       (sample_idkey ''longue_vue_pat_aaaaaaaa_x'' ''salt'' argonTime argonMemory argonThreads argonKeyLen),
     tk_scopes = [''read''], tk_created_by_user_id = 2, tk_created_at = 1, tk_last_used_at = None, tk_expires_at = None,
     tk_revoked_at = None, tk_bound_cloud_account_id = None\<rparr>]\<rparr>"


end
