(* ===== verification/Rate_Limit.thy ===== *)
theory Rate_Limit
  imports Complex_Main Prelude
begin

text \<open>
  The per-key rate limiters: \<^verbatim>\<open>internal/api/ratelimit.go\<close> (login and verify endpoints, per source address, with a goroutine that
  evicts idle addresses) and \<^verbatim>\<open>internal/mcp/ratelimit.go\<close> (MCP tool calls, per token, no eviction). The token bucket itself is
  \<^verbatim>\<open>golang.org/x/time/rate\<close>: a parameter, with \<open>newLimiter\<close> for \<^verbatim>\<open>rate.NewLimiter\<close> and \<open>allow\<close> for \<^verbatim>\<open>Limiter.Allow\<close> on the bucket's
  state. What the eviction relies on is \<open>token_bucket\<close>: a bucket idle for longer than the eviction window is full again,
  so it answers like a new one.

  Result: eviction is not observable and addresses do not influence each other: the answers an address gets are those of
  one bucket of its own that is never evicted.
\<close>

section \<open>The limiters\<close>

record 'l rlEntry =
  rl_lim :: 'l
  rl_lastSeen :: time

type_synonym 'l limiters = "(string, 'l rlEntry) gomap"

record 'l VerifyRateLimiter =
  vl_limiters :: "'l limiters"
  vl_rps :: rat
  vl_burst :: int

text \<open>\<^verbatim>\<open>rate.Every(12*time.Second)\<close> is one event in 12 seconds.\<close>

definition loginRate :: rat where "loginRate = 1 / 12"
definition loginBurst :: int where "loginBurst = 5"

definition DefaultVerifyRateLimitRPS :: rat where "DefaultVerifyRateLimitRPS = 100"
definition DefaultVerifyRateLimitBurst :: int where "DefaultVerifyRateLimitBurst = 200"

definition limiters_Allow ::
    "'l \<Rightarrow> (time \<Rightarrow> 'l \<Rightarrow> bool \<times> 'l) \<Rightarrow> time \<Rightarrow> string \<Rightarrow> 'l limiters \<Rightarrow> bool \<times> 'l limiters" where
  "limiters_Allow fresh allow now ip m =
     (let l = (case map_of m ip of Some e \<Rightarrow> rl_lim e | None \<Rightarrow> fresh);
          (ok, l') = allow now l in
      (ok, AList.update ip \<lparr>rl_lim = l', rl_lastSeen = now\<rparr> m))"

text \<open>One round of the cleanup goroutine.\<close>

definition limiters_cleanup :: "time \<Rightarrow> 'l limiters \<Rightarrow> 'l limiters" where
  "limiters_cleanup now m = filter (\<lambda>(ip, e). \<not> now - rl_lastSeen e > 30 * minute) m"

definition NewLoginRateLimiter :: "'l limiters" where
  "NewLoginRateLimiter = []"

definition LoginRateLimiter_Allow ::
    "(rat \<Rightarrow> int \<Rightarrow> 'l) \<Rightarrow> (time \<Rightarrow> 'l \<Rightarrow> bool \<times> 'l) \<Rightarrow> time \<Rightarrow> string \<Rightarrow> 'l limiters \<Rightarrow> bool \<times> 'l limiters" where
  "LoginRateLimiter_Allow newLimiter allow = limiters_Allow (newLimiter loginRate loginBurst) allow"

definition NewVerifyRateLimiterWithLimits :: "rat \<Rightarrow> int \<Rightarrow> 'l VerifyRateLimiter" where
  "NewVerifyRateLimiterWithLimits rps burst =
     \<lparr>vl_limiters = [], vl_rps = (if rps \<le> 0 then DefaultVerifyRateLimitRPS else rps),
      vl_burst = (if burst \<le> 0 then DefaultVerifyRateLimitBurst else burst)\<rparr>"

definition NewVerifyRateLimiter :: "'l VerifyRateLimiter" where
  "NewVerifyRateLimiter = NewVerifyRateLimiterWithLimits DefaultVerifyRateLimitRPS DefaultVerifyRateLimitBurst"

definition VerifyRateLimiter_Allow ::
    "(rat \<Rightarrow> int \<Rightarrow> 'l) \<Rightarrow> (time \<Rightarrow> 'l \<Rightarrow> bool \<times> 'l) \<Rightarrow> time \<Rightarrow> string \<Rightarrow> 'l VerifyRateLimiter \<Rightarrow> bool \<times> 'l VerifyRateLimiter" where
  "VerifyRateLimiter_Allow newLimiter allow now ip rl =
     (case limiters_Allow (newLimiter (vl_rps rl) (vl_burst rl)) allow now ip (vl_limiters rl) of
        (ok, m) \<Rightarrow> (ok, rl\<lparr>vl_limiters := m\<rparr>))"

text \<open>The limiter of the MCP server keeps bare buckets.\<close>

definition RateLimiter_Allow ::
    "'l \<Rightarrow> (time \<Rightarrow> 'l \<Rightarrow> bool \<times> 'l) \<Rightarrow> time \<Rightarrow> string \<Rightarrow> (string, 'l) gomap \<Rightarrow> bool \<times> (string, 'l) gomap" where
  "RateLimiter_Allow fresh allow now key m =
     (let l = (case map_of m key of Some l \<Rightarrow> l | None \<Rightarrow> fresh); (ok, l') = allow now l in (ok, AList.update key l' m))"

section \<open>Runs\<close>

datatype lim_op = LimAllow time string | LimCleanup time

fun lim_time :: "lim_op \<Rightarrow> time" where
  "lim_time (LimAllow t ip) = t"
| "lim_time (LimCleanup t) = t"

fun lim_run :: "'l \<Rightarrow> (time \<Rightarrow> 'l \<Rightarrow> bool \<times> 'l) \<Rightarrow> lim_op list \<Rightarrow> 'l limiters \<Rightarrow> (string \<times> bool) list" where
  "lim_run fresh allow [] m = []"
| "lim_run fresh allow (LimAllow t ip # ops) m =
     (case limiters_Allow fresh allow t ip m of (ok, m') \<Rightarrow> (ip, ok) # lim_run fresh allow ops m')"
| "lim_run fresh allow (LimCleanup t # ops) m = lim_run fresh allow ops (limiters_cleanup t m)"

text \<open>The reference: one bucket, fed with the times of one address.\<close>

fun bucket :: "(time \<Rightarrow> 'l \<Rightarrow> bool \<times> 'l) \<Rightarrow> 'l \<Rightarrow> time list \<Rightarrow> bool list" where
  "bucket allow l [] = []"
| "bucket allow l (t # ts) = (case allow t l of (ok, l') \<Rightarrow> ok # bucket allow l' ts)"

fun times_of :: "string \<Rightarrow> lim_op list \<Rightarrow> time list" where
  "times_of ip [] = []"
| "times_of ip (LimAllow t i # ops) = (if i = ip then t # times_of ip ops else times_of ip ops)"
| "times_of ip (LimCleanup t # ops) = times_of ip ops"

definition answers_to :: "string \<Rightarrow> (string \<times> bool) list \<Rightarrow> bool list" where
  "answers_to ip = map snd \<circ> filter (\<lambda>p. fst p = ip)"

section \<open>The contract of the token bucket\<close>

text \<open>\<open>used l t\<close>: the state of a bucket whose last call was at time \<open>t\<close>. A bucket that was not used for longer than the eviction
  window has refilled to its burst, so it answers, and continues, like a new one.\<close>

definition token_bucket :: "'l \<Rightarrow> (time \<Rightarrow> 'l \<Rightarrow> bool \<times> 'l) \<Rightarrow> ('l \<Rightarrow> time \<Rightarrow> bool) \<Rightarrow> bool" where
  "token_bucket fresh allow used \<longleftrightarrow>
     (\<forall>now. used (snd (allow now fresh)) now) \<and>
     (\<forall>l t now. used l t \<and> t \<le> now \<longrightarrow> used (snd (allow now l)) now) \<and>
     (\<forall>l t now. used l t \<and> now - t > 30 * minute \<longrightarrow> allow now l = allow now fresh)"

lemma bucket_fresh: "token_bucket fresh allow used \<Longrightarrow> used (snd (allow now fresh)) now"
  and bucket_used: "token_bucket fresh allow used \<Longrightarrow> used l t \<Longrightarrow> t \<le> now \<Longrightarrow> used (snd (allow now l)) now"
  and bucket_idle: "token_bucket fresh allow used \<Longrightarrow> used l t \<Longrightarrow> now - t > 30 * minute \<Longrightarrow> allow now l = allow now fresh"
  by (simp_all add: token_bucket_def)

definition good :: "('l \<Rightarrow> time \<Rightarrow> bool) \<Rightarrow> 'l limiters \<Rightarrow> time \<Rightarrow> bool" where
  "good used m now \<longleftrightarrow> gomap_ok m \<and> (\<forall>ip e. map_of m ip = Some e \<longrightarrow> used (rl_lim e) (rl_lastSeen e) \<and> rl_lastSeen e \<le> now)"

text \<open>The bucket of \<open>ip\<close> in the map stands for \<open>l\<close> from time \<open>now\<close> on.\<close>

definition stands_for :: "'l \<Rightarrow> ('l \<Rightarrow> time \<Rightarrow> bool) \<Rightarrow> 'l limiters \<Rightarrow> string \<Rightarrow> 'l \<Rightarrow> time \<Rightarrow> bool" where
  "stands_for fresh used m ip l now \<longleftrightarrow>
     (case map_of m ip of
        Some e \<Rightarrow> rl_lim e = l
      | None \<Rightarrow> l = fresh \<or> (\<exists>s. used l s \<and> now - s > 30 * minute))"

lemma limiters_Allow_good:
  assumes "token_bucket fresh allow used" "good used m now" "now \<le> t"
  shows "good used (snd (limiters_Allow fresh allow t ip m)) t"
proof -
  let ?l = "case map_of m ip of Some e \<Rightarrow> rl_lim e | None \<Rightarrow> fresh"
  have "used (snd (allow t ?l)) t"
  proof (cases "map_of m ip")
    case None
    then show ?thesis using bucket_fresh [OF assms(1)] by simp
  next
    case (Some e)
    then have "used (rl_lim e) (rl_lastSeen e)" "rl_lastSeen e \<le> t" using assms(2,3) by (auto simp: good_def intro: order_trans)
    then show ?thesis using bucket_used [OF assms(1)] Some by simp
  qed
  moreover have "snd (limiters_Allow fresh allow t ip m) = AList.update ip \<lparr>rl_lim = snd (allow t ?l), rl_lastSeen = t\<rparr> m"
    by (simp add: limiters_Allow_def Let_def split: prod.splits)
  ultimately show ?thesis using assms(2,3) by (force simp: good_def update_conv')
qed

lemma cleanup_lookup:
  "gomap_ok m \<Longrightarrow> map_of (limiters_cleanup t m) ip =
     (case map_of m ip of Some e \<Rightarrow> if t - rl_lastSeen e > 30 * minute then None else Some e | None \<Rightarrow> None)"
proof (induction m)
  case (Cons p m)
  obtain i e where p: "p = (i, e)" by fastforce
  show ?case
  proof (cases "i = ip")
    case True
    then have "map_of m ip = None" using Cons.prems by (auto simp: p gomap_ok_def map_of_eq_None_iff)
    with Cons True show ?thesis by (auto simp: p limiters_cleanup_def gomap_ok_def)
  next
    case False
    with Cons show ?thesis by (auto simp: p limiters_cleanup_def gomap_ok_def)
  qed
qed (simp add: limiters_cleanup_def)

lemma cleanup_good:
  assumes "good used m now" "now \<le> t"
  shows "good used (limiters_cleanup t m) t"
proof -
  have "gomap_ok (limiters_cleanup t m)" using assms(1) by (simp add: good_def gomap_ok_def limiters_cleanup_def distinct_map_filter)
  then show ?thesis
    using assms cleanup_lookup [of m t] by (force simp: good_def split: option.splits if_splits)
qed

lemma answers_bucket:
  assumes law: "token_bucket fresh allow used" and "good used m now" "stands_for fresh used m ip l now" "sorted (now # map lim_time ops)"
  shows "answers_to ip (lim_run fresh allow ops m) = bucket allow l (times_of ip ops)"
  using assms(2-)
proof (induction ops arbitrary: m l now)
  case (Cons op ops)
  have srt: "sorted (lim_time op # map lim_time ops)" and le: "now \<le> lim_time op" using Cons.prems(3) by simp_all
  show ?case
  proof (cases op)
    case (LimAllow t i)
    let ?m = "snd (limiters_Allow fresh allow t i m)"
    have g: "good used ?m t" using limiters_Allow_good [OF law Cons.prems(1)] le LimAllow by simp
    show ?thesis
    proof (cases "i = ip")
      case True
      let ?l0 = "case map_of m ip of Some e \<Rightarrow> rl_lim e | None \<Rightarrow> fresh"
      have "allow t ?l0 = allow t l"
      proof (cases "map_of m ip")
        case None
        then consider "l = fresh" | s where "used l s" "now - s > 30 * minute" using Cons.prems(2) by (auto simp: stands_for_def)
        then show ?thesis
        proof cases
          case 2
          then have "t - s > 30 * minute" using le LimAllow by simp
          from bucket_idle [OF law 2(1) this] None show ?thesis by simp
        qed (simp add: None)
      next
        case (Some e)
        then show ?thesis using Cons.prems(2) by (simp add: stands_for_def)
      qed
      then have all: "limiters_Allow fresh allow t i m = (fst (allow t l), AList.update ip \<lparr>rl_lim = snd (allow t l), rl_lastSeen = t\<rparr> m)"
        by (simp add: limiters_Allow_def Let_def True split: prod.splits)
      have "stands_for fresh used ?m ip (snd (allow t l)) t" by (simp add: all stands_for_def update_conv')
      from Cons.IH [OF g this] srt show ?thesis
        by (simp add: LimAllow True all [unfolded True] answers_to_def split: prod.splits)
    next
      case False
      have look: "map_of ?m ip = map_of m ip" using False
        by (simp add: limiters_Allow_def Let_def update_conv' split: prod.splits)
      have "stands_for fresh used ?m ip l t"
        using Cons.prems(2) le LimAllow by (force simp: stands_for_def look split: option.splits)
      from Cons.IH [OF g this] srt show ?thesis
        using False by (simp add: LimAllow answers_to_def case_prod_beta)
    qed
  next
    case (LimCleanup t)
    have ok: "gomap_ok m" using Cons.prems(1) by (simp add: good_def)
    have "stands_for fresh used (limiters_cleanup t m) ip l t"
    proof (cases "map_of m ip")
      case None
      with Cons.prems(2) le LimCleanup show ?thesis by (force simp: stands_for_def cleanup_lookup [OF ok])
    next
      case (Some e)
      then have "rl_lim e = l" "used l (rl_lastSeen e)" using Cons.prems(1,2) by (auto simp: stands_for_def good_def)
      with Some show ?thesis by (auto simp: stands_for_def cleanup_lookup [OF ok])
    qed
    from Cons.IH [OF cleanup_good [OF Cons.prems(1)] this] le srt show ?thesis by (simp add: LimCleanup)
  qed
qed (simp add: answers_to_def)

lemma eviction_unobservable_aux:
  assumes "token_bucket fresh allow used" "sorted (map lim_time ops)"
  shows "answers_to ip (lim_run fresh allow ops []) = bucket allow fresh (times_of ip ops)"
proof (cases ops)
  case (Cons op rest)
  then show ?thesis
    using answers_bucket [OF assms(1), of "[]" "lim_time op" ip fresh ops] assms(2) by (simp add: good_def stands_for_def)
qed (simp add: answers_to_def)

text \<open>Login limiter, eviction is not observable. For any bucket that is full again after the eviction window, any calls from
  any addresses and any cleanup rounds in between (in the order of time): the answers one address gets are those of a single
  bucket fed with the calls of that address alone. Neither the eviction nor another address can win an attempt or lose one.\<close>

theorem login_limiter_equiv:
  assumes "token_bucket (newLimiter loginRate loginBurst) allow used" and "sorted (map lim_time ops)"
  shows "answers_to ip (lim_run (newLimiter loginRate loginBurst) allow ops NewLoginRateLimiter) =
    bucket allow (newLimiter loginRate loginBurst) (times_of ip ops)"
  using eviction_unobservable_aux [OF assms] by (simp add: NewLoginRateLimiter_def)

text \<open>A concrete bucket: its level and its last update, in nanoseconds of one event.\<close>

definition sample_new :: "rat \<Rightarrow> int \<Rightarrow> int \<times> time" where
  "sample_new r burst = (60 * second, 0)"

definition sample_allow :: "time \<Rightarrow> int \<times> time \<Rightarrow> bool \<times> (int \<times> time)" where
  "sample_allow now = (\<lambda>(level, prev).
     let l = min (60 * second) (level + max 0 (now - prev)) in
     if l \<ge> 12 * second then (True, (l - 12 * second, now)) else (False, (l, now)))"

lemma sample_bucket: "token_bucket (sample_new r b) sample_allow (\<lambda>(level, prev) t. 0 \<le> level \<and> prev \<le> t)"
  by (auto simp: token_bucket_def sample_new_def sample_allow_def Let_def duration_defs min_def max_def split: if_splits)

theorem login_limiter_equiv_witness:
  "answers_to ''a'' (lim_run (sample_new loginRate loginBurst) sample_allow
     [LimAllow 1 ''a'', LimAllow 2 ''b'', LimCleanup (hour + 1), LimAllow (hour + 2) ''a''] NewLoginRateLimiter) = [True, True]"
proof -
  have "sorted (map lim_time [LimAllow 1 ''a'', LimAllow 2 ''b'', LimCleanup (hour + 1), LimAllow (hour + 2) ''a''])"
    by (simp add: duration_defs)
  from login_limiter_equiv [where newLimiter = sample_new, OF sample_bucket this] show ?thesis
    by (simp add: sample_new_def sample_allow_def Let_def duration_defs)
qed

end
