(* ===== verification/Mcp_Server.thy ===== *)
theory Mcp_Server
  imports Mcp_Auth Rate_Limit
begin

text \<open>
  Access control and audit of the MCP server (\<^verbatim>\<open>internal/mcp/server.go\<close>, \<^verbatim>\<open>internal/mcp/audit.go\<close>) and the frame every tool
  handler of \<^verbatim>\<open>internal/mcp/tools.go\<close> runs in: check the access, record a refusal and stop, or run the body and record its outcome. The
  body of a tool is a parameter: it only reads the store, and all the frame sees of it is its \<open>tool_outcome\<close>.

  Parameters: the token bucket (as in \<^verbatim>\<open>Rate_Limit\<close>), the textual form of a UUID, and the settings row.

  Results: the body of a tool runs only when the server is enabled, the caller is authenticated and the bucket grants the call;
  every call leaves exactly one audit row; a sensitive argument never appears in it; and two defects of the rows.
\<close>

section \<open>The server\<close>

datatype arg_value = ArgString string | ArgOther int

record mcp_audit =
  ma_Action :: string
  ma_ResourceID :: string
  ma_HTTPStatus :: int
  ma_ActorKind :: string
  ma_ActorID :: "uuid option"
  ma_ActorUsername :: string
  ma_Details :: "(string, arg_value) gomap"

record 'l mcp_server =
  ms_isStdio :: bool
  ms_stdioCaller :: "mcp_Caller option"
  ms_limiter :: "(string, 'l) gomap option"
  ms_cache :: AuthCache
  ms_recorder :: bool
  ms_audit :: "mcp_audit list"

text \<open>What a call depends on: the bucket, the key derivation, the clock, the database, the settings (\<open>None\<close>: they could not be read).\<close>

record 'l mcp_env =
  me_fresh :: 'l
  me_allow :: "time \<Rightarrow> 'l \<Rightarrow> bool \<times> 'l"
  me_idkey :: idkey
  me_now :: time
  me_db :: auth_db
  me_uuidString :: "uuid \<Rightarrow> string"
  me_MCPEnabled :: "bool option"

definition stripBearer :: "string \<Rightarrow> string" where
  "stripBearer token = (if length token > 7 \<and> take 7 token = ''Bearer '' then drop 7 token else token)"

definition verifyStdioToken ::
    "'l mcp_env \<Rightarrow> string \<Rightarrow> bool \<Rightarrow> 'l mcp_server \<Rightarrow> (mcp_error + unit) \<times> 'l mcp_server" where
  "verifyStdioToken env token has_auth s =
     (if token = '''' then (Inr (), s)
      else if \<not> has_auth then (Inr (), s)
      else case buildMCPAuthFn (me_idkey env) (me_now env) (me_db env) token (ms_cache s) of
             (Inl e, c) \<Rightarrow> (Inl e, s\<lparr>ms_cache := c\<rparr>)
           | (Inr caller, c) \<Rightarrow> (Inr (), s\<lparr>ms_cache := c, ms_stdioCaller := Some caller\<rparr>))"

text \<open>Which transport is started: the checks of \<^verbatim>\<open>Run\<close> and \<^verbatim>\<open>runSSE\<close> before the listener opens. On success the result says whether TLS is used.\<close>

definition Run_transport :: "string \<Rightarrow> bool \<Rightarrow> bool \<Rightarrow> mcp_error + bool option" where
  "Run_transport transport has_cert allowPlaintext =
     (if transport = ''stdio'' then Inr None
      else if transport = ''sse'' then
        (if \<not> has_cert \<and> \<not> allowPlaintext then Inl errMCPPlaintextRefused else Inr (Some has_cert))
      else Inl errUnknownTransport)"

definition checkEnabled :: "'l mcp_env \<Rightarrow> mcp_error option" where
  "checkEnabled env =
     (case me_MCPEnabled env of
        None \<Rightarrow> Some errReadSettings
      | Some enabled \<Rightarrow> if \<not> enabled then Some errDisabled else None)"

definition take_token :: "'l mcp_env \<Rightarrow> string \<Rightarrow> 'l mcp_server \<Rightarrow> bool \<times> 'l mcp_server" where
  "take_token env key s =
     (case ms_limiter s of
        None \<Rightarrow> (True, s)
      | Some m \<Rightarrow> (case RateLimiter_Allow (me_fresh env) (me_allow env) (me_now env) key m of (ok, m') \<Rightarrow> (ok, s\<lparr>ms_limiter := Some m'\<rparr>)))"

text \<open>An access check returns the error if any, the caller it left in the context, and the server.\<close>

definition checkAccessStdio :: "'l mcp_env \<Rightarrow> 'l mcp_server \<Rightarrow> mcp_error option \<times> mcp_Caller option \<times> 'l mcp_server" where
  "checkAccessStdio env s =
     (let caller = (case ms_stdioCaller s of
                      Some c \<Rightarrow> c
                    | None \<Rightarrow> \<lparr>mc_TokenID = None, mc_Name = ''mcp-stdio'', mc_UserID = None, mc_Scopes = []\<rparr>);
          (ok, s') = take_token env ''stdio'' s in
      (if ok then None else Some errRateLimited, Some caller, s'))"

definition checkAccessSSE :: "'l mcp_env \<Rightarrow> string \<Rightarrow> 'l mcp_server \<Rightarrow> mcp_error option \<times> mcp_Caller option \<times> 'l mcp_server" where
  "checkAccessSSE env header s =
     (let token = stripBearer header in
      if token = '''' then (Some errUnauthorized, None, s)
      else case buildMCPAuthFn (me_idkey env) (me_now env) (me_db env) token (ms_cache s) of
             (Inl e, c) \<Rightarrow> (Some e, None, s\<lparr>ms_cache := c\<rparr>)
           | (Inr caller, c) \<Rightarrow>
               (let s1 = s\<lparr>ms_cache := c\<rparr> in
                case mc_TokenID caller of
                  None \<Rightarrow> (None, Some caller, s1)
                | Some i \<Rightarrow>
                    (case take_token env (me_uuidString env i) s1 of
                       (ok, s2) \<Rightarrow> (if ok then None else Some errRateLimited, Some caller, s2))))"

definition checkAccess :: "'l mcp_env \<Rightarrow> string \<Rightarrow> 'l mcp_server \<Rightarrow> mcp_error option \<times> mcp_Caller option \<times> 'l mcp_server" where
  "checkAccess env header s =
     (case checkEnabled env of
        Some e \<Rightarrow> (Some e, None, s)
      | None \<Rightarrow> if ms_isStdio s then checkAccessStdio env s else checkAccessSSE env header s)"

section \<open>Audit\<close>

definition sentinelSet :: string where "sentinelSet = ''<set>''"
definition sentinelUnset :: string where "sentinelUnset = ''<unset>''"
definition sensitiveArgKeys :: "string list" where "sensitiveArgKeys = [''image'', ''query'', ''name'', ''node_name'']"

definition presence :: "string \<Rightarrow> string" where
  "presence s = (if s \<noteq> '''' then sentinelSet else sentinelUnset)"

definition filterArgs :: "(string, arg_value) gomap \<Rightarrow> (string, arg_value) gomap" where
  "filterArgs args =
     map (\<lambda>(k, v). (k, if k \<in> set sensitiveArgKeys
                       then ArgString (presence (case v of ArgString s \<Rightarrow> s | ArgOther _ \<Rightarrow> ''''))
                       else v)) args"

definition recordToolCall ::
    "mcp_Caller option \<Rightarrow> string \<Rightarrow> (string, arg_value) gomap \<Rightarrow> int \<Rightarrow> 'l mcp_server \<Rightarrow> 'l mcp_server" where
  "recordToolCall caller tool args status s =
     (if \<not> ms_recorder s then s
      else let (kind, i, name) =
                 (case caller of
                    Some c \<Rightarrow> (case mc_TokenID c of
                                 Some i \<Rightarrow> (''token'', Some i, mc_Name c)
                               | None \<Rightarrow> (''system'', None, mc_Name c))
                  | None \<Rightarrow> (''anonymous'', None, '''')) in
           s\<lparr>ms_audit := ms_audit s @
             [\<lparr>ma_Action = ''mcp.'' @ tool, ma_ResourceID = tool, ma_HTTPStatus = status, ma_ActorKind = kind, ma_ActorID = i,
               ma_ActorUsername = name, ma_Details = filterArgs args\<rparr>]\<rparr>)"

definition recordDenial :: "mcp_Caller option \<Rightarrow> string \<Rightarrow> (string, arg_value) gomap \<Rightarrow> 'l mcp_server \<Rightarrow> 'l mcp_server" where
  "recordDenial caller tool args s = recordToolCall caller tool args 401 s"

definition recordRateLimit :: "mcp_Caller option \<Rightarrow> string \<Rightarrow> (string, arg_value) gomap \<Rightarrow> 'l mcp_server \<Rightarrow> 'l mcp_server" where
  "recordRateLimit caller tool args s = recordToolCall caller tool args 429 s"

definition recordCheckAccessFailure ::
    "mcp_Caller option \<Rightarrow> string \<Rightarrow> (string, arg_value) gomap \<Rightarrow> mcp_error \<Rightarrow> 'l mcp_server \<Rightarrow> 'l mcp_server" where
  "recordCheckAccessFailure caller tool args err s =
     (if err = errRateLimited then recordRateLimit caller tool args s else recordDenial caller tool args s)"

datatype tool_outcome = ToolPanic | ToolFailed | ToolIsError | ToolOK

definition finishDeferred ::
    "mcp_Caller option \<Rightarrow> string \<Rightarrow> (string, arg_value) gomap \<Rightarrow> tool_outcome \<Rightarrow> 'l mcp_server \<Rightarrow> 'l mcp_server" where
  "finishDeferred caller tool args outcome s =
     recordToolCall caller tool args
       (case outcome of ToolPanic \<Rightarrow> 500 | ToolFailed \<Rightarrow> 500 | ToolIsError \<Rightarrow> 400 | ToolOK \<Rightarrow> 200) s"

section \<open>The frame of a tool handler\<close>

text \<open>The handlers that record every refusal as a denial; the others tell a rate limit apart.\<close>

definition denial_tools :: "string list" where
  "denial_tools =
     [''get_cluster'', ''list_nodes'', ''get_node'', ''list_namespaces'', ''get_namespace'', ''list_workloads'', ''get_workload'',
      ''list_pods'', ''get_pod'', ''list_services'', ''list_ingresses'', ''list_persistent_volumes'', ''list_persistent_volume_claims'',
      ''get_impact_graph'', ''get_eol_summary'', ''search_images'', ''get_image_version'']"

definition tool_call ::
    "'l mcp_env \<Rightarrow> string \<Rightarrow> string \<Rightarrow> (string, arg_value) gomap \<Rightarrow> tool_outcome \<Rightarrow> 'l mcp_server \<Rightarrow> bool \<times> 'l mcp_server" where
  "tool_call env header tool args outcome s =
     (case checkAccess env header s of
        (Some err, caller, s1) \<Rightarrow>
          (False, if tool \<in> set denial_tools then recordDenial caller tool args s1
                  else recordCheckAccessFailure caller tool args err s1)
      | (None, caller, s1) \<Rightarrow> (True, finishDeferred caller tool args outcome s1))"

section \<open>Properties\<close>

lemma take_token_frame [simp]:
  "ms_audit (snd (take_token env key s)) = ms_audit s" "ms_recorder (snd (take_token env key s)) = ms_recorder s"
  by (simp_all add: take_token_def split: option.splits prod.splits)

lemma checkAccess_frame:
  assumes "checkAccess env header s = (err, caller, s1)"
  shows "ms_audit s1 = ms_audit s \<and> ms_recorder s1 = ms_recorder s"
proof -
  have t: "take_token env key x = (ok, y) \<Longrightarrow> ms_audit y = ms_audit x \<and> ms_recorder y = ms_recorder x" for key x ok y
    using take_token_frame [of env key x] by simp
  from assms show ?thesis
    by (auto simp: checkAccess_def checkAccessStdio_def checkAccessSSE_def Let_def dest!: t
        split: option.splits if_splits prod.splits sum.splits)
qed

lemma filterArgs_sensitive:
  "k \<in> set sensitiveArgKeys \<Longrightarrow> (k, v) \<in> set (filterArgs args) \<Longrightarrow> v \<in> {ArgString ''<set>'', ArgString ''<unset>''}"
  by (auto simp: filterArgs_def presence_def sentinelSet_def sentinelUnset_def split: if_splits)

lemma recordToolCall_row:
  "ms_recorder s \<Longrightarrow> \<exists>row. ms_audit (recordToolCall caller tool args status s) = ms_audit s @ [row] \<and>
     ma_HTTPStatus row = status \<and> ma_ResourceID row = tool \<and> ma_Details row = filterArgs args \<and>
     ma_ActorID row = Option.bind caller mc_TokenID"
  by (auto simp: recordToolCall_def Let_def split: option.splits)

text \<open>MCP tool calls, access and audit. The body of a tool runs only when the server is enabled and, over SSE, the bearer token
  authenticates; the call then leaves one audit row with status 200, 400 or 500. Otherwise the body does not run and one row
  with status 401 or 429 is left. No row contains the value of a sensitive argument. Two defects are part of the statement: of the
  tools, those in \<open>denial_tools\<close> record a rate limit as 401 and not as 429; and an argument the handler has already
  replaced by its presence is recorded as set even when it was absent.\<close>

theorem mcp_tool_audited:
  assumes "ms_recorder s" and "tool_call env header tool args outcome s = (executed, s')"
  shows "\<exists>row. ms_audit s' = ms_audit s @ [row] \<and> ma_ResourceID row = tool \<and>
      (if executed then ma_HTTPStatus row \<in> {200, 400, 500} \<and> me_MCPEnabled env = Some True \<and>
           (\<not> ms_isStdio s \<longrightarrow> (\<exists>caller c'.
              buildMCPAuthFn (me_idkey env) (me_now env) (me_db env) (stripBearer header) (ms_cache s) = (Inr caller, c') \<and>
              ma_ActorID row = mc_TokenID caller))
       else \<exists>err. fst (checkAccess env header s) = Some err \<and>
           ma_HTTPStatus row = (if err = errRateLimited \<and> tool \<notin> set denial_tools then 429 else 401)) \<and>
      (\<forall>k v. k \<in> set sensitiveArgKeys \<and> (k, v) \<in> set (ma_Details row) \<longrightarrow> v \<in> {ArgString ''<set>'', ArgString ''<unset>''}) \<and>
      (\<forall>k x. k \<in> set sensitiveArgKeys \<and> (k, ArgString (presence x)) \<in> set args \<longrightarrow> (k, ArgString ''<set>'') \<in> set (ma_Details row))"
proof -
  obtain err caller s1 where ca: "checkAccess env header s = (err, caller, s1)" by (metis prod.exhaust)
  note fr = checkAccess_frame [OF ca]
  have twice: "(k, ArgString ''<set>'') \<in> set (filterArgs args)"
    if "k \<in> set sensitiveArgKeys" "(k, ArgString (presence x)) \<in> set args" for k x
    using that by (force simp: filterArgs_def presence_def sentinelSet_def sentinelUnset_def)
  define status :: int where "status = (case err of Some e \<Rightarrow> if e = errRateLimited \<and> tool \<notin> set denial_tools then 429 else 401
      | None \<Rightarrow> (case outcome of ToolPanic \<Rightarrow> 500 | ToolFailed \<Rightarrow> 500 | ToolIsError \<Rightarrow> 400 | ToolOK \<Rightarrow> 200))"
  have s': "s' = recordToolCall caller tool args status s1" and executed: "executed \<longleftrightarrow> err = None"
    using assms(2) ca by (auto simp: tool_call_def recordDenial_def recordCheckAccessFailure_def recordRateLimit_def finishDeferred_def
        status_def split: option.splits if_splits)
  obtain row where row: "ms_audit s' = ms_audit s @ [row]" "ma_HTTPStatus row = status" "ma_ResourceID row = tool"
      "ma_Details row = filterArgs args" "ma_ActorID row = Option.bind caller mc_TokenID"
    using recordToolCall_row [of s1 caller tool args status] fr assms(1) by (auto simp: s')
  have "if executed then ma_HTTPStatus row \<in> {200, 400, 500} \<and> me_MCPEnabled env = Some True \<and>
           (\<not> ms_isStdio s \<longrightarrow> (\<exists>caller c'.
              buildMCPAuthFn (me_idkey env) (me_now env) (me_db env) (stripBearer header) (ms_cache s) = (Inr caller, c') \<and>
              ma_ActorID row = mc_TokenID caller))
       else \<exists>err. fst (checkAccess env header s) = Some err \<and>
           ma_HTTPStatus row = (if err = errRateLimited \<and> tool \<notin> set denial_tools then 429 else 401)"
  proof (cases err)
    case (Some e)
    then show ?thesis using executed ca row(2) by (simp add: status_def)
  next
    case None
    have on: "me_MCPEnabled env = Some True"
      using ca None by (auto simp: checkAccess_def checkEnabled_def split: option.splits if_splits)
    have "\<exists>cl c'. buildMCPAuthFn (me_idkey env) (me_now env) (me_db env) (stripBearer header) (ms_cache s) = (Inr cl, c') \<and> caller = Some cl"
      if "\<not> ms_isStdio s"
      using ca None that by (auto simp: checkAccess_def checkAccessSSE_def Let_def split: option.splits if_splits prod.splits sum.splits)
    then show ?thesis using None executed on row(2,5) by (auto simp: status_def split: tool_outcome.splits)
  qed
  moreover have "\<forall>k v. k \<in> set sensitiveArgKeys \<and> (k, v) \<in> set (ma_Details row) \<longrightarrow> v \<in> {ArgString ''<set>'', ArgString ''<unset>''}"
    using filterArgs_sensitive unfolding row(4) by blast
  moreover have "\<forall>k x. k \<in> set sensitiveArgKeys \<and> (k, ArgString (presence x)) \<in> set args \<longrightarrow> (k, ArgString ''<set>'') \<in> set (ma_Details row)"
    using twice unfolding row(4) by blast
  ultimately show ?thesis using row(1,3) by blast
qed

definition mcp_env_sample :: "(int \<times> time) mcp_env" where
  "mcp_env_sample = \<lparr>me_fresh = sample_new 30 60, me_allow = sample_allow, me_idkey = sample_idkey, me_now = 5, me_db = mcp_db,
     me_uuidString = (\<lambda>_. ''id''), me_MCPEnabled = Some True\<rparr>"

definition mcp_server_sample :: "(int \<times> time) mcp_server" where
  "mcp_server_sample = \<lparr>ms_isStdio = True, ms_stdioCaller = None, ms_limiter = Some [(''stdio'', (0, 5))],
     ms_cache = NewAuthCache 1024 (30 * second), ms_recorder = True, ms_audit = []\<rparr>"

theorem mcp_tool_audited_witness:
  "\<exists>s' row. tool_call mcp_env_sample '''' ''get_cluster'' [(''name'', ArgString (presence ''''))] ToolOK mcp_server_sample = (False, s') \<and>
     ms_audit s' = [row] \<and> ma_HTTPStatus row = 401 \<and> (''name'', ArgString ''<set>'') \<in> set (ma_Details row)"
proof -
  have ca: "fst (checkAccess mcp_env_sample '''' mcp_server_sample) = Some errRateLimited"
    by (simp add: checkAccess_def checkEnabled_def checkAccessStdio_def take_token_def RateLimiter_Allow_def sample_allow_def
        mcp_env_sample_def mcp_server_sample_def duration_defs Let_def)
  then obtain s' where t: "tool_call mcp_env_sample '''' ''get_cluster'' [(''name'', ArgString (presence ''''))] ToolOK mcp_server_sample = (False, s')"
    by (cases "checkAccess mcp_env_sample '''' mcp_server_sample") (auto simp: tool_call_def)
  have rec: "ms_recorder mcp_server_sample" "ms_audit mcp_server_sample = []" by (simp_all add: mcp_server_sample_def)
  have k: "''name'' \<in> set sensitiveArgKeys" "''get_cluster'' \<in> set denial_tools" by (simp_all add: sensitiveArgKeys_def denial_tools_def)
  from mcp_tool_audited [OF rec(1) t] show ?thesis using t rec(2) k by auto
qed

end
