(* ===== verification/Impact.thy ===== *)
theory Impact
  imports Pagination
begin

text \<open>
  Impact analysis, \<^verbatim>\<open>internal/impact\<close>: the depth-limited walk over the foreign keys of the inventory that builds the graph of what a
  component depends on and what depends on it, and its HTTP handler.

  The store is a record of functions, as the interface \<^verbatim>\<open>TraverserStore\<close> has them; a list function stands for the walk over all
  pages of the store's list method. Each \<^verbatim>\<open>expand*\<close> method of the builder is a list of steps: add a node with an edge and expand
  it, add a node with an edge, or stop with an error; \<open>run_steps\<close> performs them in order. Ids are \<open>uuid option\<close>, \<open>None\<close> is the empty string a
  nil pointer gives, which \<^verbatim>\<open>uuid.Parse\<close> refuses. The hop count is counted down: \<open>expand st k\<close> has \<open>k\<close> hops left.

  Results: the graph is well formed and bounded, and it contains only what the store relates within the requested number of hops; all
  direct neighbours of the root are in it unless it says it is truncated.
\<close>

section \<open>The graph\<close>

datatype EntityType =
    TypeCluster | TypeNode | TypeNamespace | TypePod | TypeWorkload | TypeService | TypeIngress
  | TypePersistentVolume | TypePersistentVolumeClaim

datatype Relation = RelContains | RelOwns | RelHosts | RelBinds

datatype impact_error = ErrStore | ErrParseID | PanicNilDeref

record GraphNode =
  gn_ID :: "uuid option"
  gn_Type :: EntityType
  gn_Name :: string
  gn_Status :: string
  gn_Kind :: string

record GraphEdge =
  ge_From :: "uuid option"
  ge_To :: "uuid option"
  ge_Relation :: Relation

record Graph =
  g_Root :: GraphNode
  g_Nodes :: "GraphNode list"
  g_Edges :: "GraphEdge list"
  g_Truncated :: bool

section \<open>The store\<close>

record im_Cluster =
  cl_Id :: "uuid option"
  cl_Name :: string
  cl_DisplayName :: "string option"
  cl_KubernetesVersion :: "string option"

record im_Node =
  nd_Id :: "uuid option"
  nd_ClusterId :: uuid
  nd_Name :: string
  nd_DisplayName :: "string option"
  nd_Ready :: "bool option"

record im_Namespace =
  ns_Id :: "uuid option"
  ns_ClusterId :: uuid
  ns_Name :: string
  ns_DisplayName :: "string option"
  ns_Phase :: "string option"

record im_Pod =
  pd_Id :: "uuid option"
  pd_NamespaceId :: uuid
  pd_Name :: string
  pd_Phase :: "string option"
  pd_WorkloadId :: "uuid option"
  pd_NodeName :: "string option"

record im_Workload =
  wl_Id :: "uuid option"
  wl_NamespaceId :: uuid
  wl_Name :: string
  wl_Kind :: string
  wl_ReadyReplicas :: "int option"
  wl_Replicas :: "int option"

record im_Service =
  sv_Id :: "uuid option"
  sv_NamespaceId :: uuid
  sv_Name :: string
  sv_Type :: "string option"

record im_Ingress =
  ig_Id :: "uuid option"
  ig_NamespaceId :: uuid
  ig_Name :: string
  ig_IngressClassName :: "string option"

record im_PV =
  pv_Id :: "uuid option"
  pv_ClusterId :: uuid
  pv_Name :: string
  pv_Phase :: "string option"

record im_PVC =
  pvc_Id :: "uuid option"
  pvc_NamespaceId :: uuid
  pvc_Name :: string
  pvc_Phase :: "string option"
  pvc_BoundVolumeId :: "uuid option"

record TraverserStore =
  GetCluster :: "uuid \<Rightarrow> impact_error + im_Cluster"
  GetNode :: "uuid \<Rightarrow> impact_error + im_Node"
  GetNamespace :: "uuid \<Rightarrow> impact_error + im_Namespace"
  GetPod :: "uuid \<Rightarrow> impact_error + im_Pod"
  GetWorkload :: "uuid \<Rightarrow> impact_error + im_Workload"
  GetService :: "uuid \<Rightarrow> impact_error + im_Service"
  GetIngress :: "uuid \<Rightarrow> impact_error + im_Ingress"
  GetPersistentVolume :: "uuid \<Rightarrow> impact_error + im_PV"
  GetPersistentVolumeClaim :: "uuid \<Rightarrow> impact_error + im_PVC"
  ListNodes_ClusterID :: "uuid \<Rightarrow> impact_error + im_Node list"
  ListNamespaces_ClusterID :: "uuid \<Rightarrow> impact_error + im_Namespace list"
  ListPods_NodeName :: "string \<Rightarrow> impact_error + im_Pod list"
  ListPods_NamespaceID :: "uuid \<Rightarrow> impact_error + im_Pod list"
  ListWorkloads_NamespaceID :: "uuid \<Rightarrow> impact_error + im_Workload list"
  ListServices_NamespaceID :: "uuid \<Rightarrow> impact_error + im_Service list"
  ListIngresses_NamespaceID :: "uuid \<Rightarrow> impact_error + im_Ingress list"
  ListPersistentVolumes_ClusterID :: "uuid \<Rightarrow> impact_error + im_PV list"
  ListPersistentVolumeClaims_NamespaceID :: "uuid \<Rightarrow> impact_error + im_PVC list"

section \<open>Rows as graph nodes\<close>

definition ptrStr :: "string option \<Rightarrow> string" where
  "ptrStr s = (case s of None \<Rightarrow> '''' | Some x \<Rightarrow> x)"

definition displayOrName :: "string option \<Rightarrow> string \<Rightarrow> string" where
  "displayOrName display name = (case display of Some d \<Rightarrow> if d \<noteq> '''' then d else name | None \<Rightarrow> name)"

definition readyStatus :: "bool option \<Rightarrow> string" where
  "readyStatus ready = (if ready = Some True then ''Ready'' else ''NotReady'')"

definition cluster_node :: "im_Cluster \<Rightarrow> GraphNode" where
  "cluster_node c = \<lparr>gn_ID = cl_Id c, gn_Type = TypeCluster, gn_Name = displayOrName (cl_DisplayName c) (cl_Name c),
     gn_Status = ptrStr (cl_KubernetesVersion c), gn_Kind = ''''\<rparr>"

definition node_node :: "im_Node \<Rightarrow> GraphNode" where
  "node_node n = \<lparr>gn_ID = nd_Id n, gn_Type = TypeNode, gn_Name = displayOrName (nd_DisplayName n) (nd_Name n),
     gn_Status = readyStatus (nd_Ready n), gn_Kind = ''''\<rparr>"

definition namespace_node :: "im_Namespace \<Rightarrow> GraphNode" where
  "namespace_node n = \<lparr>gn_ID = ns_Id n, gn_Type = TypeNamespace, gn_Name = displayOrName (ns_DisplayName n) (ns_Name n),
     gn_Status = ptrStr (ns_Phase n), gn_Kind = ''''\<rparr>"

definition pod_node :: "im_Pod \<Rightarrow> GraphNode" where
  "pod_node p = \<lparr>gn_ID = pd_Id p, gn_Type = TypePod, gn_Name = pd_Name p, gn_Status = ptrStr (pd_Phase p), gn_Kind = ''''\<rparr>"

definition workload_node :: "im_Workload \<Rightarrow> GraphNode" where
  "workload_node w = \<lparr>gn_ID = wl_Id w, gn_Type = TypeWorkload, gn_Name = wl_Name w,
     gn_Status = (case (wl_ReadyReplicas w, wl_Replicas w) of (Some r, Some n) \<Rightarrow> itoa r @ ''/'' @ itoa n | _ \<Rightarrow> ''''),
     gn_Kind = wl_Kind w\<rparr>"

definition service_node :: "im_Service \<Rightarrow> GraphNode" where
  "service_node s = \<lparr>gn_ID = sv_Id s, gn_Type = TypeService, gn_Name = sv_Name s, gn_Status = ptrStr (sv_Type s), gn_Kind = ''''\<rparr>"

definition ingress_node :: "im_Ingress \<Rightarrow> GraphNode" where
  "ingress_node i = \<lparr>gn_ID = ig_Id i, gn_Type = TypeIngress, gn_Name = ig_Name i, gn_Status = ptrStr (ig_IngressClassName i), gn_Kind = ''''\<rparr>"

definition pv_node :: "im_PV \<Rightarrow> GraphNode" where
  "pv_node v = \<lparr>gn_ID = pv_Id v, gn_Type = TypePersistentVolume, gn_Name = pv_Name v, gn_Status = ptrStr (pv_Phase v), gn_Kind = ''''\<rparr>"

definition pvc_node :: "im_PVC \<Rightarrow> GraphNode" where
  "pvc_node c = \<lparr>gn_ID = pvc_Id c, gn_Type = TypePersistentVolumeClaim, gn_Name = pvc_Name c, gn_Status = ptrStr (pvc_Phase c), gn_Kind = ''''\<rparr>"

fun fetchNode :: "TraverserStore \<Rightarrow> EntityType \<Rightarrow> uuid \<Rightarrow> impact_error + GraphNode" where
  "fetchNode st TypeCluster i = map_sum id cluster_node (GetCluster st i)"
| "fetchNode st TypeNode i = map_sum id node_node (GetNode st i)"
| "fetchNode st TypeNamespace i = map_sum id namespace_node (GetNamespace st i)"
| "fetchNode st TypePod i = map_sum id pod_node (GetPod st i)"
| "fetchNode st TypeWorkload i = map_sum id workload_node (GetWorkload st i)"
| "fetchNode st TypeService i = map_sum id service_node (GetService st i)"
| "fetchNode st TypeIngress i = map_sum id ingress_node (GetIngress st i)"
| "fetchNode st TypePersistentVolume i = map_sum id pv_node (GetPersistentVolume st i)"
| "fetchNode st TypePersistentVolumeClaim i = map_sum id pvc_node (GetPersistentVolumeClaim st i)"

section \<open>The steps of an expansion\<close>

datatype step = Visit GraphNode GraphEdge | Leaf GraphNode GraphEdge | Fail impact_error

definition edge :: "uuid option \<Rightarrow> uuid option \<Rightarrow> Relation \<Rightarrow> GraphEdge" where
  "edge from to rel = \<lparr>ge_From = from, ge_To = to, ge_Relation = rel\<rparr>"

definition on_ok :: "impact_error + 'a \<Rightarrow> ('a \<Rightarrow> step list) \<Rightarrow> step list" where
  "on_ok r f = (case r of Inl e \<Rightarrow> [Fail e] | Inr x \<Rightarrow> f x)"

definition if_ok :: "impact_error + 'a \<Rightarrow> ('a \<Rightarrow> step list) \<Rightarrow> step list" where
  "if_ok r f = (case r of Inl e \<Rightarrow> [] | Inr x \<Rightarrow> f x)"

text \<open>A child below and a parent above the node being expanded.\<close>

definition down :: "uuid option \<Rightarrow> Relation \<Rightarrow> GraphNode \<Rightarrow> step" where
  "down nodeID rel g = Visit g (edge nodeID (gn_ID g) rel)"

definition up :: "uuid option \<Rightarrow> Relation \<Rightarrow> GraphNode \<Rightarrow> step" where
  "up nodeID rel g = Visit g (edge (gn_ID g) nodeID rel)"

definition leaf :: "uuid option \<Rightarrow> Relation \<Rightarrow> GraphNode \<Rightarrow> step" where
  "leaf nodeID rel g = Leaf g (edge nodeID (gn_ID g) rel)"

definition expandCluster :: "TraverserStore \<Rightarrow> uuid \<Rightarrow> uuid option \<Rightarrow> step list" where
  "expandCluster st i nodeID =
     on_ok (ListNodes_ClusterID st i) (map (\<lambda>n. down nodeID RelContains (node_node n))) @
     on_ok (ListNamespaces_ClusterID st i) (map (\<lambda>n. down nodeID RelContains (namespace_node n))) @
     on_ok (ListPersistentVolumes_ClusterID st i) (map (\<lambda>v. down nodeID RelContains (pv_node v)))"

definition expandNode :: "TraverserStore \<Rightarrow> uuid \<Rightarrow> uuid option \<Rightarrow> step list" where
  "expandNode st i nodeID =
     on_ok (GetNode st i) (\<lambda>n.
       on_ok (fetchNode st TypeCluster (nd_ClusterId n)) (\<lambda>c. [up nodeID RelContains c]) @
       on_ok (ListPods_NodeName st (nd_Name n)) (map (\<lambda>p. down nodeID RelHosts (pod_node p))))"

definition expandNamespace :: "TraverserStore \<Rightarrow> uuid \<Rightarrow> uuid option \<Rightarrow> step list" where
  "expandNamespace st i nodeID =
     on_ok (GetNamespace st i) (\<lambda>ns.
       on_ok (fetchNode st TypeCluster (ns_ClusterId ns)) (\<lambda>c. [up nodeID RelContains c]) @
       on_ok (ListWorkloads_NamespaceID st i) (map (\<lambda>w. down nodeID RelContains (workload_node w))) @
       on_ok (ListServices_NamespaceID st i) (map (\<lambda>s. leaf nodeID RelContains (service_node s))) @
       on_ok (ListIngresses_NamespaceID st i) (map (\<lambda>g. leaf nodeID RelContains (ingress_node g))) @
       on_ok (ListPersistentVolumeClaims_NamespaceID st i) (map (\<lambda>c. down nodeID RelContains (pvc_node c))))"

definition expandPod :: "TraverserStore \<Rightarrow> uuid \<Rightarrow> uuid option \<Rightarrow> step list" where
  "expandPod st i nodeID =
     on_ok (GetPod st i) (\<lambda>p.
       on_ok (fetchNode st TypeNamespace (pd_NamespaceId p)) (\<lambda>g. [up nodeID RelContains g]) @
       (case pd_WorkloadId p of
          None \<Rightarrow> []
        | Some w \<Rightarrow> if_ok (fetchNode st TypeWorkload w) (\<lambda>g. [up nodeID RelOwns g])) @
       (case pd_NodeName p of
          None \<Rightarrow> []
        | Some name \<Rightarrow>
            if name = '''' then []
            else if_ok (GetNamespace st (pd_NamespaceId p)) (\<lambda>ns.
                   if_ok (ListNodes_ClusterID st (ns_ClusterId ns)) (\<lambda>all.
                     case find (\<lambda>n. \<not> (nd_Name n \<noteq> name \<or> nd_Id n = None)) all of
                       None \<Rightarrow> []
                     | Some n \<Rightarrow> [up nodeID RelHosts (node_node n)]))))"

definition expandWorkload :: "TraverserStore \<Rightarrow> uuid \<Rightarrow> uuid option \<Rightarrow> step list" where
  "expandWorkload st i nodeID =
     on_ok (GetWorkload st i) (\<lambda>w.
       on_ok (fetchNode st TypeNamespace (wl_NamespaceId w)) (\<lambda>g. [up nodeID RelContains g]) @
       on_ok (ListPods_NamespaceID st (wl_NamespaceId w)) (\<lambda>pods.
         map (\<lambda>p. down nodeID RelOwns (pod_node p)) (filter (\<lambda>p. \<not> (pd_WorkloadId p = None \<or> pd_WorkloadId p \<noteq> Some i)) pods)))"

definition expandPV :: "TraverserStore \<Rightarrow> uuid \<Rightarrow> uuid option \<Rightarrow> step list" where
  "expandPV st i nodeID =
     on_ok (GetPersistentVolume st i) (\<lambda>pv.
       on_ok (fetchNode st TypeCluster (pv_ClusterId pv)) (\<lambda>c. [up nodeID RelContains c]) @
       on_ok (ListNamespaces_ClusterID st (pv_ClusterId pv)) (\<lambda>nss.
         concat (map (\<lambda>ns. case ns_Id ns of
             None \<Rightarrow> [Fail PanicNilDeref]
           | Some nsID \<Rightarrow>
               if_ok (ListPersistentVolumeClaims_NamespaceID st nsID) (\<lambda>pvcs.
                 map (\<lambda>c. down nodeID RelBinds (pvc_node c)) (filter (\<lambda>c. pvc_BoundVolumeId c = Some i) pvcs))) nss)))"

definition expandPVC :: "TraverserStore \<Rightarrow> uuid \<Rightarrow> uuid option \<Rightarrow> step list" where
  "expandPVC st i nodeID =
     on_ok (GetPersistentVolumeClaim st i) (\<lambda>c.
       on_ok (fetchNode st TypeNamespace (pvc_NamespaceId c)) (\<lambda>g. [up nodeID RelContains g]) @
       (case pvc_BoundVolumeId c of
          None \<Rightarrow> []
        | Some v \<Rightarrow> if_ok (fetchNode st TypePersistentVolume v) (\<lambda>g. [up nodeID RelBinds g])))"

definition expandNamespaceScoped :: "TraverserStore \<Rightarrow> uuid \<Rightarrow> GraphNode \<Rightarrow> step list" where
  "expandNamespaceScoped st i node =
     (case gn_Type node of
        TypeService \<Rightarrow>
          on_ok (GetService st i) (\<lambda>s. on_ok (fetchNode st TypeNamespace (sv_NamespaceId s)) (\<lambda>g. [up (gn_ID node) RelContains g]))
      | TypeIngress \<Rightarrow>
          on_ok (GetIngress st i) (\<lambda>s. on_ok (fetchNode st TypeNamespace (ig_NamespaceId s)) (\<lambda>g. [up (gn_ID node) RelContains g]))
      | _ \<Rightarrow> [])"

text \<open>The switch of \<^verbatim>\<open>expand\<close>.\<close>

definition steps_of :: "TraverserStore \<Rightarrow> GraphNode \<Rightarrow> step list" where
  "steps_of st node =
     (case gn_ID node of
        None \<Rightarrow> [Fail ErrParseID]
      | Some i \<Rightarrow>
          (case gn_Type node of
             TypeCluster \<Rightarrow> expandCluster st i (gn_ID node)
           | TypeNode \<Rightarrow> expandNode st i (gn_ID node)
           | TypeNamespace \<Rightarrow> expandNamespace st i (gn_ID node)
           | TypePod \<Rightarrow> expandPod st i (gn_ID node)
           | TypeWorkload \<Rightarrow> expandWorkload st i (gn_ID node)
           | TypePersistentVolume \<Rightarrow> expandPV st i (gn_ID node)
           | TypePersistentVolumeClaim \<Rightarrow> expandPVC st i (gn_ID node)
           | TypeService \<Rightarrow> expandNamespaceScoped st i node
           | TypeIngress \<Rightarrow> expandNamespaceScoped st i node))"

section \<open>The builder\<close>

type_synonym node_key = "EntityType \<times> uuid option"

record builder =
  b_seen :: "node_key list"
  b_nodeMap :: "(node_key, GraphNode) gomap"
  b_edgeMap :: "(uuid option \<times> uuid option) list"
  b_edges :: "GraphEdge list"
  b_maxNodes :: nat
  b_truncated :: bool

definition nodeKey :: "GraphNode \<Rightarrow> node_key" where
  "nodeKey n = (gn_Type n, gn_ID n)"

definition addNode :: "GraphNode \<Rightarrow> builder \<Rightarrow> builder" where
  "addNode n b =
     (if map_of (b_nodeMap b) (nodeKey n) \<noteq> None then b
      else if b_maxNodes b > 0 \<and> length (b_nodeMap b) \<ge> b_maxNodes b then b\<lparr>b_truncated := True\<rparr>
      else b\<lparr>b_nodeMap := AList.update (nodeKey n) n (b_nodeMap b)\<rparr>)"

definition addEdge :: "GraphEdge \<Rightarrow> builder \<Rightarrow> builder" where
  "addEdge e b =
     (if (ge_From e, ge_To e) \<in> set (b_edgeMap b) then b
      else b\<lparr>b_edgeMap := (ge_From e, ge_To e) # b_edgeMap b, b_edges := b_edges b @ [e]\<rparr>)"

fun expand :: "TraverserStore \<Rightarrow> nat \<Rightarrow> GraphNode \<Rightarrow> builder \<Rightarrow> impact_error + builder"
  and run_steps :: "TraverserStore \<Rightarrow> nat \<Rightarrow> step list \<Rightarrow> builder \<Rightarrow> impact_error + builder" where
  "expand st 0 node b = Inr b"
| "expand st (Suc k) node b =
     (if b_truncated b then Inr b
      else if nodeKey node \<in> set (b_seen b) then Inr b
      else run_steps st k (steps_of st node) (b\<lparr>b_seen := nodeKey node # b_seen b\<rparr>))"
| "run_steps st k [] b = Inr b"
| "run_steps st k (Fail e # ss) b = Inl e"
| "run_steps st k (Leaf g e # ss) b = run_steps st k ss (addEdge e (addNode g b))"
| "run_steps st k (Visit g e # ss) b =
     (case expand st k g (addEdge e (addNode g b)) of
        Inl err \<Rightarrow> Inl err
      | Inr b' \<Rightarrow> run_steps st k ss b')"

definition defaultMaxNodes :: nat where "defaultMaxNodes = 500"

definition Traverse :: "TraverserStore \<Rightarrow> EntityType \<Rightarrow> uuid \<Rightarrow> nat \<Rightarrow> impact_error + Graph" where
  "Traverse st t i depth =
     (case fetchNode st t i of
        Inl e \<Rightarrow> Inl e
      | Inr root \<Rightarrow>
          (let b = \<lparr>b_seen = [], b_nodeMap = [], b_edgeMap = [], b_edges = [], b_maxNodes = defaultMaxNodes, b_truncated = False\<rparr> in
           case expand st depth root (addNode root b) of
             Inl e \<Rightarrow> Inl e
           | Inr b' \<Rightarrow> Inr \<lparr>g_Root = root, g_Nodes = map snd (b_nodeMap b'), g_Edges = b_edges b', g_Truncated = b_truncated b'\<rparr>))"

section \<open>The handler\<close>

definition defaultDepth :: int where "defaultDepth = 2"
definition maxDepth :: int where "maxDepth = 3"

fun EntityType_of :: "string \<Rightarrow> EntityType option" where
  "EntityType_of s =
     map_of [(''cluster'', TypeCluster), (''node'', TypeNode), (''namespace'', TypeNamespace), (''pod'', TypePod), (''workload'', TypeWorkload),
       (''service'', TypeService), (''ingress'', TypeIngress), (''persistentvolume'', TypePersistentVolume),
       (''persistentvolumeclaim'', TypePersistentVolumeClaim)] s"

definition ValidEntityType :: "string \<Rightarrow> bool" where
  "ValidEntityType s \<longleftrightarrow> EntityType_of s \<noteq> None"

text \<open>\<open>authenticated\<close>: there is a caller in the context; \<open>parsed\<close>: \<^verbatim>\<open>uuid.Parse\<close> of the path; \<open>depth\<close>: the query parameter.\<close>

definition HandleImpact :: "TraverserStore \<Rightarrow> bool \<Rightarrow> string \<Rightarrow> uuid option \<Rightarrow> string \<Rightarrow> int + Graph" where
  "HandleImpact st authenticated entityType parsed depth =
     (if \<not> authenticated then Inl 401
      else case EntityType_of entityType of
             None \<Rightarrow> Inl 400
           | Some t \<Rightarrow>
               (case parsed of
                  None \<Rightarrow> Inl 400
                | Some i \<Rightarrow>
                    (case (if depth = '''' then Some defaultDepth
                           else case Atoi depth of
                                  None \<Rightarrow> None
                                | Some d \<Rightarrow> if d < 1 \<or> d > maxDepth then None else Some d) of
                       None \<Rightarrow> Inl 400
                     | Some d \<Rightarrow> (case Traverse st t i (nat d) of Inl _ \<Rightarrow> Inl 500 | Inr g \<Rightarrow> Inr g))))"

section \<open>The builder's invariant\<close>

definition ids_of :: "builder \<Rightarrow> uuid option set" where
  "ids_of b = snd ` fst ` set (b_nodeMap b)"

definition ends :: "GraphEdge \<Rightarrow> uuid option \<times> uuid option" where
  "ends e = (ge_From e, ge_To e)"

definition builder_ok :: "builder \<Rightarrow> bool" where
  "builder_ok b \<longleftrightarrow>
     gomap_ok (b_nodeMap b) \<and> (\<forall>(key, n)\<in>set (b_nodeMap b). key = nodeKey n) \<and>
     (0 < b_maxNodes b \<longrightarrow> length (b_nodeMap b) \<le> b_maxNodes b) \<and>
     set (b_edgeMap b) = ends ` set (b_edges b) \<and> distinct (map ends (b_edges b)) \<and>
     (\<not> b_truncated b \<longrightarrow> (\<forall>e\<in>set (b_edges b). ge_From e \<in> ids_of b \<and> ge_To e \<in> ids_of b))"

definition has_node :: "GraphNode \<Rightarrow> builder \<Rightarrow> bool" where
  "has_node n b \<longleftrightarrow> b_truncated b \<or> nodeKey n \<in> fst ` set (b_nodeMap b)"

text \<open>Nothing a builder has is ever taken back.\<close>

definition grows :: "builder \<Rightarrow> builder \<Rightarrow> bool" where
  "grows b b' \<longleftrightarrow>
     (b_truncated b \<longrightarrow> b_truncated b') \<and> set (b_nodeMap b) \<subseteq> set (b_nodeMap b') \<and>
     set (b_edges b) \<subseteq> set (b_edges b') \<and> b_maxNodes b' = b_maxNodes b"

lemma grows_refl [simp]: "grows b b"
  and grows_trans: "grows a b \<Longrightarrow> grows b c \<Longrightarrow> grows a c"
  and grows_has_node: "grows b b' \<Longrightarrow> has_node n b \<Longrightarrow> has_node n b'"
  by (auto simp: grows_def has_node_def)

lemma addNode_ok:
  assumes "builder_ok b"
  shows "builder_ok (addNode n b)" "grows b (addNode n b)" "has_node n (addNode n b)" "b_edges (addNode n b) = b_edges b"
proof -
  have up: "set (AList.update (nodeKey n) n (b_nodeMap b)) = insert (nodeKey n, n) (set (b_nodeMap b))"
    "length (AList.update (nodeKey n) n (b_nodeMap b)) = Suc (length (b_nodeMap b))" if "map_of (b_nodeMap b) (nodeKey n) = None"
    using that by (auto simp: update_notin map_of_eq_None_iff)
  show "grows b (addNode n b)" by (auto simp: addNode_def grows_def up)
  show "builder_ok (addNode n b)"
    using assms up by (auto simp: addNode_def builder_ok_def ids_of_def ends_def)
  show "has_node n (addNode n b)"
    using up by (auto simp: addNode_def has_node_def map_of_eq_None_iff)
  show "b_edges (addNode n b) = b_edges b" by (simp add: addNode_def)
qed

lemma has_node_id: "builder_ok b \<Longrightarrow> has_node n b \<Longrightarrow> \<not> b_truncated b \<Longrightarrow> gn_ID n \<in> ids_of b"
  by (force simp: has_node_def ids_of_def nodeKey_def)

lemma addEdge_ok:
  assumes "builder_ok b" and "has_node n b" "has_node m b" and "{ge_From e, ge_To e} = {gn_ID n, gn_ID m}"
  shows "builder_ok (addEdge e b)" "grows b (addEdge e b)" "ends e \<in> ends ` set (b_edges (addEdge e b))"
    "set (b_edges (addEdge e b)) \<subseteq> insert e (set (b_edges b))" "b_nodeMap (addEdge e b) = b_nodeMap b"
    "b_truncated (addEdge e b) = b_truncated b"
proof -
  have "ge_From e \<in> ids_of b \<and> ge_To e \<in> ids_of b" if "\<not> b_truncated b"
    using has_node_id [OF assms(1,2) that] has_node_id [OF assms(1,3) that] assms(4) by (auto simp: doubleton_eq_iff)
  with assms(1) show "builder_ok (addEdge e b)"
    by (auto simp: addEdge_def builder_ok_def ids_of_def ends_def)
  show "grows b (addEdge e b)" "set (b_edges (addEdge e b)) \<subseteq> insert e (set (b_edges b))" "b_nodeMap (addEdge e b) = b_nodeMap b"
    "b_truncated (addEdge e b) = b_truncated b"
    by (auto simp: addEdge_def grows_def)
  show "ends e \<in> ends ` set (b_edges (addEdge e b))"
    using assms(1) by (auto simp: addEdge_def builder_ok_def ends_def)
qed

fun step_ok :: "GraphNode \<Rightarrow> step \<Rightarrow> bool" where
  "step_ok node (Visit g e) \<longleftrightarrow> {ge_From e, ge_To e} = {gn_ID node, gn_ID g}"
| "step_ok node (Leaf g e) \<longleftrightarrow> {ge_From e, ge_To e} = {gn_ID node, gn_ID g}"
| "step_ok node (Fail e) \<longleftrightarrow> True"

lemma step_ok_arc [simp]:
  "gn_ID node = i \<Longrightarrow> step_ok node (down i rel g)" "gn_ID node = i \<Longrightarrow> step_ok node (up i rel g)"
  "gn_ID node = i \<Longrightarrow> step_ok node (leaf i rel g)"
  by (auto simp: down_def up_def leaf_def edge_def)

lemma in_on_ok: "s \<in> set (on_ok r f) \<longleftrightarrow> (\<exists>e. r = Inl e \<and> s = Fail e) \<or> (\<exists>x. r = Inr x \<and> s \<in> set (f x))"
  and in_if_ok: "s \<in> set (if_ok r f) \<longleftrightarrow> (\<exists>x. r = Inr x \<and> s \<in> set (f x))"
  by (auto simp: on_ok_def if_ok_def split: sum.splits)

lemma steps_ok: "s \<in> set (steps_of st node) \<Longrightarrow> step_ok node s"
  unfolding steps_of_def expandCluster_def expandNode_def expandNamespace_def expandPod_def expandWorkload_def expandPV_def
    expandPVC_def expandNamespaceScoped_def
  by (auto simp: in_on_ok in_if_ok simp del: fetchNode.simps split: option.splits EntityType.splits if_splits)

text \<open>Adding the node and the edge of a step.\<close>

lemma add_step_ok:
  assumes "builder_ok b" and "has_node node b" and "{ge_From e, ge_To e} = {gn_ID node, gn_ID g}"
  shows "builder_ok (addEdge e (addNode g b))" "grows b (addEdge e (addNode g b))" "has_node g (addEdge e (addNode g b))"
    "has_node node (addEdge e (addNode g b))" "ends e \<in> ends ` set (b_edges (addEdge e (addNode g b)))"
    "set (b_edges (addEdge e (addNode g b))) \<subseteq> insert e (set (b_edges b))"
    "set (b_nodeMap (addEdge e (addNode g b))) \<subseteq> insert (nodeKey g, g) (set (b_nodeMap b))"
proof -
  note n = addNode_ok(1-4) [OF assms(1), where n = g]
  note e = addEdge_ok [OF n(1) grows_has_node [OF n(2) assms(2)] n(3) assms(3)]
  show "builder_ok (addEdge e (addNode g b))" "ends e \<in> ends ` set (b_edges (addEdge e (addNode g b)))"
    "set (b_edges (addEdge e (addNode g b))) \<subseteq> insert e (set (b_edges b))" using e n(4) by auto
  show gr: "grows b (addEdge e (addNode g b))" using n(2) e(2) by (rule grows_trans)
  show "has_node g (addEdge e (addNode g b))" "has_node node (addEdge e (addNode g b))"
    using grows_has_node [OF e(2) n(3)] grows_has_node [OF gr assms(2)] by auto
  show "set (b_nodeMap (addEdge e (addNode g b))) \<subseteq> insert (nodeKey g, g) (set (b_nodeMap b))"
    unfolding e(5) by (auto simp: addNode_def update_notin map_of_eq_None_iff)
qed

lemma expand_ok:
  "expand st k node b = Inr b' \<Longrightarrow> builder_ok b \<Longrightarrow> has_node node b \<Longrightarrow> builder_ok b' \<and> grows b b'"
  and run_steps_ok:
  "run_steps st k ss b = Inr b' \<Longrightarrow> builder_ok b \<Longrightarrow> has_node owner b \<Longrightarrow> list_all (step_ok owner) ss \<Longrightarrow> builder_ok b' \<and> grows b b'"
proof (induction st k node b and st k ss b arbitrary: b' and b' owner rule: expand_run_steps.induct)
  case (2 st k node b)
  let ?b = "b\<lparr>b_seen := nodeKey node # b_seen b\<rparr>"
  have b: "builder_ok ?b" "has_node node ?b" "grows b ?b"
    using 2(3,4) by (auto simp: builder_ok_def has_node_def grows_def ids_of_def)
  show ?case
  proof (cases "b_truncated b \<or> nodeKey node \<in> set (b_seen b)")
    case False
    then have "run_steps st k (steps_of st node) ?b = Inr b'" using 2(2) by simp
    from 2(1) [OF _ _ this b(1,2)] False steps_ok have "builder_ok b' \<and> grows ?b b'" by (auto simp: list_all_iff)
    then show ?thesis using grows_trans [OF b(3)] by blast
  qed (use 2 in \<open>auto split: if_splits\<close>)
next
  case (5 st k g e ss b)
  let ?b = "addEdge e (addNode g b)"
  note a = add_step_ok [OF 5(3,4), of e g]
  have "{ge_From e, ge_To e} = {gn_ID owner, gn_ID g}" using 5(5) by simp
  note a = a [OF this]
  have "builder_ok b' \<and> grows ?b b'" using 5(1) [OF _ a(1,4)] 5(2,5) by simp
  then show ?case using grows_trans [OF a(2)] by blast
next
  case (6 st k g e ss b)
  let ?b = "addEdge e (addNode g b)"
  have "{ge_From e, ge_To e} = {gn_ID owner, gn_ID g}" using 6(6) by simp
  note a = add_step_ok [OF 6(4,5) this]
  obtain b1 where b1: "expand st k g ?b = Inr b1" "run_steps st k ss b1 = Inr b'" using 6(3) by (auto split: sum.splits)
  have e: "builder_ok b1 \<and> grows ?b b1" using 6(1) [OF b1(1) a(1,3)] .
  have "builder_ok b' \<and> grows b1 b'"
    using 6(2) [OF b1(1) b1(2) conjunct1 [OF e] grows_has_node [OF conjunct2 [OF e] a(4)]] 6(6) by simp
  then show ?case using grows_trans [OF a(2) grows_trans [OF conjunct2 [OF e]]] by blast
qed auto

text \<open>When the run did not fail and nothing was cut, every step left its node and its edge.\<close>

lemma run_steps_complete:
  assumes "run_steps st k ss b = Inr b'" "builder_ok b" "has_node owner b" "list_all (step_ok owner) ss" "\<not> b_truncated b'"
    and "Visit g e \<in> set ss \<or> Leaf g e \<in> set ss"
  shows "nodeKey g \<in> fst ` set (b_nodeMap b') \<and> ends e \<in> ends ` set (b_edges b')"
  using assms
proof (induction ss arbitrary: b)
  case (Cons s ss)
  have add: "nodeKey h \<in> fst ` set (b_nodeMap b') \<and> ends f \<in> ends ` set (b_edges b')"
    if "builder_ok b1" "grows (addEdge f (addNode h b)) b1" "run_steps st k ss b1 = Inr b'" "step_ok owner (Visit h f)" for h f b1
  proof -
    note a = add_step_ok [OF Cons.prems(2,3), of f h]
    have ends: "{ge_From f, ge_To f} = {gn_ID owner, gn_ID h}" using that(4) by simp
    have "has_node owner b1" using grows_has_node [OF that(2) a(4) [OF ends]] .
    then have "grows b1 b'" using run_steps_ok [OF that(3,1)] Cons.prems(4) by simp
    with that(2) have "grows (addEdge f (addNode h b)) b'" by (rule grows_trans)
    then show ?thesis using a(3,5) [OF ends] Cons.prems(5) by (auto simp: grows_def has_node_def)
  qed
  show ?case
  proof (cases s)
    case (Fail err)
    with Cons.prems(1) show ?thesis by simp
  next
    case (Leaf h f)
    have ok: "step_ok owner (Visit h f)" using Cons.prems(4) Leaf by simp
    then have ends: "{ge_From f, ge_To f} = {gn_ID owner, gn_ID h}" by simp
    note a = add_step_ok [OF Cons.prems(2,3) ends]
    have r: "run_steps st k ss (addEdge f (addNode h b)) = Inr b'" using Cons.prems(1) Leaf by simp
    show ?thesis
      using Cons.IH [OF r a(1,4)] add [OF a(1) grows_refl r ok] Cons.prems(4-6) Leaf by auto
  next
    case (Visit h f)
    have ok: "step_ok owner (Visit h f)" using Cons.prems(4) Visit by simp
    then have ends: "{ge_From f, ge_To f} = {gn_ID owner, gn_ID h}" by simp
    note a = add_step_ok [OF Cons.prems(2,3) ends]
    obtain b1 where b1: "expand st k h (addEdge f (addNode h b)) = Inr b1" "run_steps st k ss b1 = Inr b'"
      using Cons.prems(1) Visit by (auto split: sum.splits)
    have e: "builder_ok b1" "grows (addEdge f (addNode h b)) b1" using expand_ok [OF b1(1) a(1,3)] by auto
    show ?thesis
      using Cons.IH [OF b1(2) e(1) grows_has_node [OF e(2) a(4)]] add [OF e b1(2) ok] Cons.prems(4-6) Visit by auto
  qed
qed simp

section \<open>What the graph contains\<close>

definition hop :: "TraverserStore \<Rightarrow> GraphNode \<Rightarrow> GraphNode \<Rightarrow> GraphEdge \<Rightarrow> bool" where
  "hop st n m e \<longleftrightarrow> Visit m e \<in> set (steps_of st n) \<or> Leaf m e \<in> set (steps_of st n)"

text \<open>The nodes the store's relations reach from a root in a given number of hops.\<close>

inductive within :: "TraverserStore \<Rightarrow> GraphNode \<Rightarrow> nat \<Rightarrow> GraphNode \<Rightarrow> bool" for st root where
  within_root: "within st root 0 root"
| within_hop: "within st root j n \<Longrightarrow> hop st n m e \<Longrightarrow> within st root (Suc j) m"

definition sound :: "TraverserStore \<Rightarrow> GraphNode \<Rightarrow> nat \<Rightarrow> builder \<Rightarrow> bool" where
  "sound st root d b \<longleftrightarrow>
     (\<forall>n\<in>snd ` set (b_nodeMap b). \<exists>i\<le>d. within st root i n) \<and>
     (\<forall>e\<in>set (b_edges b). \<exists>i<d. \<exists>n m. within st root i n \<and> hop st n m e)"

lemma set_update_fresh: "map_of xs k = None \<Longrightarrow> set (AList.update k v xs) = insert (k, v) (set xs)"
  by (simp add: update_notin map_of_eq_None_iff)

lemma sound_add_step:
  assumes "sound st root d b" "within st root j owner" "hop st owner g e" "Suc j \<le> d"
  shows "sound st root d (addEdge e (addNode g b))"
proof -
  have "\<exists>i\<le>d. within st root i g" "\<exists>i<d. \<exists>n m. within st root i n \<and> hop st n m e"
    using assms within_hop [OF assms(2,3)] by (blast, auto simp: Suc_le_eq)
  with assms(1) show ?thesis by (auto simp: sound_def addEdge_def addNode_def set_update_fresh)
qed

lemma expand_sound:
  "expand st k node b = Inr b' \<Longrightarrow> within st root j node \<Longrightarrow> j + k \<le> d \<Longrightarrow> sound st root d b \<Longrightarrow> sound st root d b'"
  and run_steps_sound:
  "run_steps st k ss b = Inr b' \<Longrightarrow> set ss \<subseteq> set (steps_of st owner) \<Longrightarrow> within st root j owner \<Longrightarrow> Suc j + k \<le> d \<Longrightarrow>
     sound st root d b \<Longrightarrow> sound st root d b'"
proof (induction st k node b and st k ss b arbitrary: b' j and b' owner j rule: expand_run_steps.induct)
  case (2 st k node b)
  have "sound st root d (b\<lparr>b_seen := nodeKey node # b_seen b\<rparr>)" using 2(5) by (simp add: sound_def)
  then show ?case using 2(1) [OF _ _ _ subset_refl 2(3)] 2(2,4,5) by (auto split: if_splits)
next
  case (5 st k g e ss b)
  have "hop st owner g e" using 5(3) by (auto simp: hop_def)
  with 5(5) have "sound st root d (addEdge e (addNode g b))" by (intro sound_add_step [OF 5(6,4)]) auto
  then show ?case using 5(1) [OF _ _ 5(4,5)] 5(2,3) by simp
next
  case (6 st k g e ss b)
  have h: "hop st owner g e" using 6(4) by (auto simp: hop_def)
  with 6(6) have s: "sound st root d (addEdge e (addNode g b))" by (intro sound_add_step [OF 6(7,5)]) auto
  obtain b1 where b1: "expand st k g (addEdge e (addNode g b)) = Inr b1" "run_steps st k ss b1 = Inr b'"
    using 6(3) by (auto split: sum.splits)
  have "sound st root d b1" using 6(1) [OF b1(1) within_hop [OF 6(5) h] _ s] 6(6) by simp
  then show ?case using 6(2) [OF b1(1) b1(2) _ 6(5,6)] 6(4) by simp
qed auto

text \<open>The walk from the root.\<close>

definition start :: "GraphNode \<Rightarrow> builder" where
  "start root = addNode root \<lparr>b_seen = [], b_nodeMap = [], b_edgeMap = [], b_edges = [], b_maxNodes = defaultMaxNodes, b_truncated = False\<rparr>"

lemma start_facts: "builder_ok (start root)" "has_node root (start root)" "sound st root d (start root)"
  "b_nodeMap (start root) = [(nodeKey root, root)]" "b_maxNodes (start root) = 500" "\<not> b_truncated (start root)" "b_seen (start root) = []"
  using within_root [of st root]
  by (auto simp: start_def addNode_def defaultMaxNodes_def builder_ok_def gomap_ok_def has_node_def sound_def)

lemma Traverse_Inr:
  assumes "Traverse st t i d = Inr g"
  obtains b where "fetchNode st t i = Inr (g_Root g)" "expand st d (g_Root g) (start (g_Root g)) = Inr b"
    "g_Nodes g = map snd (b_nodeMap b)" "g_Edges g = b_edges b" "g_Truncated g = b_truncated b"
  using assms by (auto simp: Traverse_def start_def Let_def split: sum.splits)

lemma HandleImpact_Inr:
  assumes "HandleImpact st auth ty parsed depth = Inr g"
  obtains t i d where "auth" "EntityType_of ty = Some t" "parsed = Some i" "1 \<le> d" "d \<le> 3" "Traverse st t i d = Inr g"
proof -
  obtain t i where ti: "auth" "EntityType_of ty = Some t" "parsed = Some i"
    using assms by (auto simp: HandleImpact_def simp del: EntityType_of.simps split: if_splits option.splits)
  show thesis
  proof (cases "depth = ''''")
    case True
    then show ?thesis
      using assms ti that [OF ti, of 2] by (auto simp: HandleImpact_def defaultDepth_def simp del: EntityType_of.simps split: sum.splits)
  next
    case False
    then obtain d where "Atoi depth = Some d"
      using assms ti by (auto simp: HandleImpact_def simp del: EntityType_of.simps split: option.splits)
    then have "\<not> d < 1" "\<not> 3 < d" "Traverse st t i (nat d) = Inr g"
      using assms ti False by (auto simp: HandleImpact_def maxDepth_def simp del: EntityType_of.simps split: if_splits sum.splits)
    then show ?thesis using that [OF ti, of "nat d"] by auto
  qed
qed

lemma expand_root_complete:
  assumes "expand st d root (start root) = Inr b" "1 \<le> d" "hop st root m e" "\<not> b_truncated b"
  shows "nodeKey m \<in> fst ` set (b_nodeMap b) \<and> ends e \<in> ends ` set (b_edges b)"
proof -
  obtain k where k: "d = Suc k" using assms(2) by (cases d) auto
  let ?b = "start root\<lparr>b_seen := [nodeKey root]\<rparr>"
  have "run_steps st k (steps_of st root) ?b = Inr b"
    using assms(1) start_facts(6,7) [of root] by (simp add: k)
  moreover have "builder_ok ?b" "has_node root ?b"
    using start_facts(1,2) [of root] by (auto simp: builder_ok_def has_node_def ids_of_def)
  ultimately show ?thesis
    by (rule run_steps_complete) (use assms(3,4) steps_ok in \<open>auto simp: list_all_iff hop_def\<close>)
qed

lemma builder_keys: "builder_ok b \<Longrightarrow> map nodeKey (map snd (b_nodeMap b)) = map fst (b_nodeMap b)"
  by (auto simp: builder_ok_def)

lemma builder_key_set: "builder_ok b \<Longrightarrow> nodeKey ` snd ` set (b_nodeMap b) = fst ` set (b_nodeMap b)"
  using builder_keys [of b] by (metis image_set)

text \<open>A small inventory: one cluster with one node, one namespace, a workload with two pods, one of them on the node.\<close>

definition sample_store :: TraverserStore where
  "sample_store =
    (let ns = \<lparr>ns_Id = Some 3, ns_ClusterId = 1, ns_Name = ''web'', ns_DisplayName = None, ns_Phase = None\<rparr>;
         nd = \<lparr>nd_Id = Some 2, nd_ClusterId = 1, nd_Name = ''n1'', nd_DisplayName = None, nd_Ready = Some True\<rparr>;
         wl = \<lparr>wl_Id = Some 4, wl_NamespaceId = 3, wl_Name = ''front'', wl_Kind = ''Deployment'', wl_ReadyReplicas = None, wl_Replicas = None\<rparr>;
         pd = (\<lambda>i name. \<lparr>pd_Id = Some i, pd_NamespaceId = 3, pd_Name = ''front'', pd_Phase = None, pd_WorkloadId = Some 4, pd_NodeName = name\<rparr>)
     in \<lparr>GetCluster = (\<lambda>i. if i = 1 then Inr \<lparr>cl_Id = Some 1, cl_Name = ''prod'', cl_DisplayName = None, cl_KubernetesVersion = Some ''1.31''\<rparr> else Inl ErrStore),
         GetNode = (\<lambda>i. if i = 2 then Inr nd else Inl ErrStore),
         GetNamespace = (\<lambda>i. if i = 3 then Inr ns else Inl ErrStore),
         GetPod = (\<lambda>i. if i = 5 then Inr (pd 5 (Some ''n1'')) else if i = 6 then Inr (pd 6 None) else Inl ErrStore),
         GetWorkload = (\<lambda>i. if i = 4 then Inr wl else Inl ErrStore),
         GetService = (\<lambda>i. Inl ErrStore), GetIngress = (\<lambda>i. Inl ErrStore),
         GetPersistentVolume = (\<lambda>i. Inl ErrStore), GetPersistentVolumeClaim = (\<lambda>i. Inl ErrStore),
         ListNodes_ClusterID = (\<lambda>i. Inr (if i = 1 then [nd] else [])),
         ListNamespaces_ClusterID = (\<lambda>i. Inr (if i = 1 then [ns] else [])),
         ListPods_NodeName = (\<lambda>n. Inr (if n = ''n1'' then [pd 5 (Some ''n1'')] else [])),
         ListPods_NamespaceID = (\<lambda>i. Inr (if i = 3 then [pd 5 (Some ''n1''), pd 6 None] else [])),
         ListWorkloads_NamespaceID = (\<lambda>i. Inr (if i = 3 then [wl] else [])),
         ListServices_NamespaceID = (\<lambda>i. Inr []), ListIngresses_NamespaceID = (\<lambda>i. Inr []),
         ListPersistentVolumes_ClusterID = (\<lambda>i. Inr []), ListPersistentVolumeClaims_NamespaceID = (\<lambda>i. Inr [])\<rparr>)"

definition sample_graph :: Graph where
  "sample_graph = projr (HandleImpact sample_store True ''node'' (Some 2) '''')"

lemma sample_impact_handled: "HandleImpact sample_store True ''node'' (Some 2) '''' = Inr sample_graph"
  "length (g_Nodes sample_graph) = 5" "length (g_Edges sample_graph) = 5" "\<not> g_Truncated sample_graph"
  by code_simp+

text \<open>C9: whatever the store answers, a graph that the impact handler returns has its root among the nodes, at most 500 nodes, no two nodes
  with the same type and id, no two edges with the same ends, and, when it is not marked truncated, no edge whose end is not a node of
  the graph.\<close>

theorem impact_graph_wf:
  assumes "HandleImpact st auth ty parsed depth = Inr g"
  shows "g_Root g \<in> set (g_Nodes g) \<and> length (g_Nodes g) \<le> 500 \<and> distinct (map nodeKey (g_Nodes g)) \<and>
    distinct (map ends (g_Edges g)) \<and>
    (if g_Truncated g then True else (ge_From ` set (g_Edges g) \<union> ge_To ` set (g_Edges g)) \<subseteq> gn_ID ` set (g_Nodes g))"
proof (intro conjI)
  obtain t i d where T: "Traverse st t i d = Inr g" using assms by (rule HandleImpact_Inr)
  then obtain b where b: "expand st d (g_Root g) (start (g_Root g)) = Inr b"
    "g_Nodes g = map snd (b_nodeMap b)" "g_Edges g = b_edges b" "g_Truncated g = b_truncated b" by (rule Traverse_Inr)
  have ok: "builder_ok b" "grows (start (g_Root g)) b" using expand_ok [OF b(1) start_facts(1,2)] by auto
  show "g_Root g \<in> set (g_Nodes g)"
    using ok(2) start_facts(4) [of "g_Root g"] by (force simp: b(2) grows_def)
  have "b_maxNodes b = 500" using ok(2) start_facts(5) [of "g_Root g"] by (simp add: grows_def)
  then show "length (g_Nodes g) \<le> 500" using ok(1) by (simp add: b(2) builder_ok_def)
  have keys: "map nodeKey (g_Nodes g) = map fst (b_nodeMap b)"
    using builder_keys [OF ok(1)] by (simp only: b(2))
  then show "distinct (map nodeKey (g_Nodes g))" using ok(1) by (simp add: builder_ok_def gomap_ok_def)
  show "distinct (map ends (g_Edges g))" using ok(1) by (simp add: b(3) builder_ok_def)
  have "ids_of b = gn_ID ` set (g_Nodes g)"
    using arg_cong [OF keys, of "\<lambda>xs. snd ` set xs"] by (simp add: ids_of_def image_image nodeKey_def)
  then show "if g_Truncated g then True else (ge_From ` set (g_Edges g) \<union> ge_To ` set (g_Edges g)) \<subseteq> gn_ID ` set (g_Nodes g)"
    using ok(1) by (auto simp: b(3,4) builder_ok_def)
qed

theorem impact_graph_wf_witness:
  "g_Root sample_graph \<in> set (g_Nodes sample_graph) \<and> length (g_Nodes sample_graph) \<le> 500 \<and>
   distinct (map nodeKey (g_Nodes sample_graph)) \<and> length (g_Edges sample_graph) = 5 \<and>
   ge_From ` set (g_Edges sample_graph) \<subseteq> gn_ID ` set (g_Nodes sample_graph)"
  using impact_graph_wf [OF sample_impact_handled(1)] sample_impact_handled by simp



end
