(* ===== verification/Time_Travel.thy ===== *)
theory Time_Travel
  imports Auth_Middleware
begin

text \<open>
  Time travel, \<^verbatim>\<open>internal/timetravel\<close> and \<^verbatim>\<open>internal/store/pg_history.go\<close>: which columns of a row are watched, the diff of two
  snapshots, the capture of a history row inside the transaction of a change, the lookup of the state at a point in time, and the
  HTTP middleware for \<^verbatim>\<open>?as_of=\<close>.

  A snapshot is a Go \<^verbatim>\<open>map[string]any\<close>: an association list from column names to values of the dynamic types the code puts there
  (\<open>any_val\<close>). A typed nil pointer is not the nil interface, and the code compares with the latter, so both are values of their own.
  \<^verbatim>\<open>jsonb\<close> keeps the keys of an object in a canonical order, so \<^verbatim>\<open>reflect.DeepEqual\<close> of two decoded columns is equality.
  The four history tables are one list of rows with the table's name.

  Results: the diff of two snapshots, applied to the first, gives the second on all watched columns, and it is empty exactly when
  they agree there; the state returned for a time is that of the last change recorded at or before it.
\<close>

section \<open>Values\<close>

datatype json = JNull | JBool bool | JNum int | JStr string | JArr "json list" | JObj "(string \<times> json) list"

datatype any_val =
    NilV | StrV string | StrPtr "string option" | UuidV uuid | UuidStr uuid | TimeV time | TimePtr "time option"
  | BoolV bool | IntV int | JsonV json

type_synonym row_map = "(string, any_val) gomap"

text \<open>What a column of a history table holds.\<close>

datatype sql_col = SNull | SText string | SUuid uuid | STime time | SBool bool | SInt int | SJson json

definition index :: "row_map \<Rightarrow> string \<Rightarrow> any_val" where
  "index r key = (case map_of r key of None \<Rightarrow> NilV | Some v \<Rightarrow> v)"

definition unmarshalJSONB :: "json \<Rightarrow> any_val" where
  "unmarshalJSONB j = (if j = JNull then NilV else JsonV j)"

definition ns :: "string option \<Rightarrow> any_val" where
  "ns s = (case s of None \<Rightarrow> NilV | Some x \<Rightarrow> StrV x)"

section \<open>Actors\<close>

record Actor =
  actor_ID :: "uuid option"
  actor_Kind :: string

definition ActorFromContext :: "Caller option \<Rightarrow> Actor" where
  "ActorFromContext caller =
     (case caller of
        None \<Rightarrow> \<lparr>actor_ID = None, actor_Kind = ''system''\<rparr>
      | Some c \<Rightarrow>
          (case ca_Kind c of
             CallerKindUser \<Rightarrow> \<lparr>actor_ID = Some (ca_UserID c), actor_Kind = ''user''\<rparr>
           | CallerKindToken \<Rightarrow> \<lparr>actor_ID = Some (ca_TokenID c), actor_Kind = ''token''\<rparr>))"

section \<open>Watched columns\<close>

definition KindCluster :: string where "KindCluster = ''clusters''"
definition KindNamespace :: string where "KindNamespace = ''namespaces''"
definition KindNode :: string where "KindNode = ''nodes''"
definition KindWorkload :: string where "KindWorkload = ''workloads''"

definition WatchedFields :: "string \<Rightarrow> string list" where
  "WatchedFields kind =
     (if kind = KindCluster then
        [''kubernetes_version'', ''provider'', ''region'', ''environment'', ''owner'', ''criticality'', ''notes'', ''runbook_url'',
         ''annotations'', ''terminated_at'']
      else if kind = KindNamespace then
        [''owner'', ''criticality'', ''notes'', ''runbook_url'', ''annotations'', ''terminated_at'']
      else if kind = KindNode then
        [''role'', ''kubelet_version'', ''kernel_version'', ''operating_system'', ''container_runtime_version'', ''kube_proxy_version'',
         ''instance_type'', ''zone'', ''hardware_model'', ''owner'', ''criticality'', ''notes'', ''runbook_url'', ''annotations'',
         ''ready'', ''unschedulable'', ''terminated_at'']
      else if kind = KindWorkload then
        [''kind'', ''spec'', ''owner'', ''criticality'', ''notes'', ''runbook_url'', ''annotations'', ''application_id'',
         ''terminated_at'']
      else [])"

section \<open>Diff\<close>

record PatchOp =
  po_Op :: string
  po_Path :: string
  po_From :: any_val
  po_To :: any_val

definition systemAnnotationPrefixes :: "string list" where
  "systemAnnotationPrefixes = [''longue-vue.io/eol.'']"

definition stripSystemAnnotations :: "any_val \<Rightarrow> any_val" where
  "stripSystemAnnotations v =
     (case v of
        JsonV (JObj m) \<Rightarrow> JsonV (JObj (filter (\<lambda>(k, _). \<not> list_ex (HasPrefix k) systemAnnotationPrefixes) m))
      | _ \<Rightarrow> v)"

definition sanitizeForDiff :: "string \<Rightarrow> any_val \<Rightarrow> any_val" where
  "sanitizeForDiff field v = (if field = ''annotations'' then stripSystemAnnotations v else v)"

definition isEmptyMap :: "any_val \<Rightarrow> bool" where
  "isEmptyMap v \<longleftrightarrow> v = JsonV (JObj [])"

definition absent :: "row_map \<Rightarrow> string \<Rightarrow> bool" where
  "absent r field \<longleftrightarrow>
     (let san = sanitizeForDiff field (index r field) in
      map_of r field = None \<or> san = NilV \<or> isEmptyMap san)"

definition diff_field :: "row_map \<Rightarrow> row_map \<Rightarrow> string \<Rightarrow> PatchOp list" where
  "diff_field prev nxt field =
     (let prevSan = sanitizeForDiff field (index prev field); nextSan = sanitizeForDiff field (index nxt field) in
      if absent prev field \<and> absent nxt field then []
      else if absent prev field then [\<lparr>po_Op = ''add'', po_Path = ''/'' @ field, po_From = NilV, po_To = nextSan\<rparr>]
      else if absent nxt field then [\<lparr>po_Op = ''remove'', po_Path = ''/'' @ field, po_From = prevSan, po_To = NilV\<rparr>]
      else if prevSan \<noteq> nextSan then [\<lparr>po_Op = ''replace'', po_Path = ''/'' @ field, po_From = prevSan, po_To = nextSan\<rparr>]
      else [])"

definition Diff :: "row_map \<Rightarrow> row_map \<Rightarrow> string list \<Rightarrow> PatchOp list" where
  "Diff prev nxt watched = concat (map (diff_field prev nxt) watched)"

section \<open>History rows\<close>

text \<open>How a column travels: the field helper that reads it from the snapshot on insertion and the scanner that puts it back into a map.
  \<open>CText\<close>, \<open>CTime\<close>, \<open>CInt\<close> and \<open>CUuid\<close> may be NULL.\<close>

datatype coltype = CName | CText | CUuidReq | CUuid | CTime | CTimeReq | CBool | CInt | CJson

definition text_columns :: "string list \<Rightarrow> (string \<times> coltype) list" where
  "text_columns cs = map (\<lambda>c. (c, CText)) cs"

definition history_columns :: "string \<Rightarrow> (string \<times> coltype) list" where
  "history_columns kind =
     (if kind = KindCluster then
        (''name'', CName) # text_columns [''display_name'', ''environment'', ''provider'', ''region'', ''kubernetes_version'', ''api_endpoint''] @
        [(''labels'', CJson)] @ text_columns [''owner'', ''criticality'', ''notes'', ''runbook_url''] @
        [(''annotations'', CJson), (''terminated_at'', CTime), (''created_at'', CTimeReq), (''updated_at'', CTimeReq)]
      else if kind = KindNamespace then
        [(''cluster_id'', CUuidReq), (''name'', CName)] @ text_columns [''display_name'', ''phase''] @ [(''labels'', CJson)] @
        text_columns [''owner'', ''criticality'', ''notes'', ''runbook_url''] @
        [(''annotations'', CJson), (''terminated_at'', CTime), (''created_at'', CTimeReq), (''updated_at'', CTimeReq)]
      else if kind = KindNode then
        [(''cluster_id'', CUuidReq), (''name'', CName)] @
        text_columns [''display_name'', ''role'', ''kubelet_version'', ''kube_proxy_version'', ''container_runtime_version'', ''os_image'',
          ''operating_system'', ''kernel_version'', ''architecture'', ''internal_ip'', ''external_ip'', ''pod_cidr'', ''provider_id'',
          ''instance_type'', ''zone'', ''capacity_cpu'', ''capacity_memory'', ''capacity_pods'', ''capacity_ephemeral_storage'',
          ''allocatable_cpu'', ''allocatable_memory'', ''allocatable_pods'', ''allocatable_ephemeral_storage''] @
        [(''conditions'', CJson), (''taints'', CJson), (''unschedulable'', CBool), (''ready'', CBool), (''labels'', CJson)] @
        text_columns [''owner'', ''criticality'', ''notes'', ''runbook_url''] @ [(''annotations'', CJson)] @ text_columns [''hardware_model''] @
        [(''terminated_at'', CTime), (''created_at'', CTimeReq), (''updated_at'', CTimeReq)]
      else if kind = KindWorkload then
        [(''namespace_id'', CUuidReq), (''kind'', CName), (''name'', CName), (''replicas'', CInt), (''ready_replicas'', CInt),
         (''labels'', CJson), (''spec'', CJson), (''containers'', CJson), (''application_id'', CUuid), (''terminated_at'', CTime),
         (''created_at'', CTimeReq), (''updated_at'', CTimeReq)]
      else [])"

fun strField :: "any_val \<Rightarrow> sql_col" where
  "strField (StrV s) = SText s"
| "strField (StrPtr (Some s)) = SText s"
| "strField _ = SNull"

fun uuidField :: "any_val \<Rightarrow> sql_col" where
  "uuidField (UuidV u) = SUuid u"
| "uuidField _ = SNull"

fun timeField :: "any_val \<Rightarrow> sql_col" where
  "timeField (TimeV t) = STime t"
| "timeField (TimePtr (Some t)) = STime t"
| "timeField _ = SNull"

fun boolField :: "any_val \<Rightarrow> sql_col" where
  "boolField (BoolV b) = SBool b"
| "boolField _ = SNull"

fun intField :: "any_val \<Rightarrow> sql_col" where
  "intField (IntV i) = SInt i"
| "intField _ = SNull"

text \<open>The columns that \<^verbatim>\<open>jsonField\<close> reads hold nil or a decoded JSON value.\<close>

fun jsonField :: "any_val \<Rightarrow> sql_col" where
  "jsonField (JsonV j) = SJson j"
| "jsonField _ = SNull"

fun put_column :: "coltype \<Rightarrow> any_val \<Rightarrow> sql_col" where
  "put_column CName v = strField v"
| "put_column CText v = strField v"
| "put_column CUuidReq v = uuidField v"
| "put_column CUuid v = uuidField v"
| "put_column CTime v = timeField v"
| "put_column CTimeReq v = timeField v"
| "put_column CBool v = boolField v"
| "put_column CInt v = intField v"
| "put_column CJson v = jsonField v"

record history_row =
  hr_table :: string
  hr_history_id :: uuid
  hr_entity_id :: uuid
  hr_valid_from :: time
  hr_valid_to :: "time option"
  hr_change_type :: string
  hr_actor :: Actor
  hr_cols :: "(string \<times> sql_col) list"

type_synonym history = "history_row list"

definition validHistoryKind :: "string \<Rightarrow> bool" where
  "validHistoryKind kind \<longleftrightarrow> kind \<in> {KindCluster, KindNamespace, KindNode, KindWorkload}"

definition insertHistoryRow ::
    "string \<Rightarrow> uuid \<Rightarrow> uuid \<Rightarrow> time \<Rightarrow> string \<Rightarrow> Actor \<Rightarrow> row_map \<Rightarrow> history \<Rightarrow> string option \<times> history" where
  "insertHistoryRow kind historyID entityID validFrom changeType actor row h =
     (if \<not> validHistoryKind kind then (Some ''unknown kind'', h)
      else (None, h @ [\<lparr>hr_table = kind, hr_history_id = historyID, hr_entity_id = entityID, hr_valid_from = validFrom, hr_valid_to = None,
                        hr_change_type = changeType, hr_actor = actor,
                        hr_cols = map (\<lambda>(c, ty). (c, put_column ty (index row c))) (history_columns kind)\<rparr>]))"

definition closes :: "string \<Rightarrow> uuid \<Rightarrow> history_row \<Rightarrow> bool" where
  "closes kind entityID r \<longleftrightarrow> hr_table r = kind \<and> hr_entity_id r = entityID \<and> hr_valid_to r = None"

text \<open>\<open>enabled\<close> is the settings flag, \<open>None\<close> when it cannot be read.\<close>

definition Capture ::
    "bool option \<Rightarrow> time \<Rightarrow> uuid \<Rightarrow> string \<Rightarrow> uuid \<Rightarrow> row_map option \<Rightarrow> row_map \<Rightarrow> string \<Rightarrow> Actor \<Rightarrow> history \<Rightarrow> string option \<times> history" where
  "Capture enabled now historyID kind entityID prev nxt changeType actor h =
     (case enabled of
        None \<Rightarrow> (None, h)
      | Some e \<Rightarrow>
          if \<not> e then (None, h)
          else if changeType = ''update'' \<and> (case prev of None \<Rightarrow> False | Some p \<Rightarrow> Diff p nxt (WatchedFields kind) = []) then (None, h)
          else
            let h1 = (if changeType \<noteq> ''create'' then map (\<lambda>r. if closes kind entityID r then r\<lparr>hr_valid_to := Some now\<rparr> else r) h else h) in
            insertHistoryRow kind historyID entityID now changeType actor nxt h1)"

section \<open>Point in time\<close>

datatype tt_error = TTNotFound | TTUnknownKind | TTScan

text \<open>The scanners put a column into the map, leave it out, or fail on a NULL they cannot hold.\<close>

fun get_column :: "coltype \<Rightarrow> sql_col \<Rightarrow> any_val option option" where
  "get_column CName (SText s) = Some (Some (StrV s))"
| "get_column CText (SText s) = Some (Some (StrPtr (Some s)))"
| "get_column CText SNull = Some (Some (StrPtr None))"
| "get_column CUuidReq (SUuid u) = Some (Some (UuidStr u))"
| "get_column CUuid (SUuid u) = Some (Some (UuidStr u))"
| "get_column CUuid SNull = Some None"
| "get_column CTime (STime t) = Some (Some (TimePtr (Some t)))"
| "get_column CTime SNull = Some (Some (TimePtr None))"
| "get_column CTimeReq (STime t) = Some (Some (TimeV t))"
| "get_column CBool (SBool b) = Some (Some (BoolV b))"
| "get_column CInt (SInt i) = Some (Some (IntV i))"
| "get_column CInt SNull = Some None"
| "get_column CJson (SJson j) = Some (Some (unmarshalJSONB j))"
| "get_column CJson SNull = Some (Some NilV)"
| "get_column _ _ = None"

fun scan_columns :: "(string \<times> coltype) list \<Rightarrow> (string \<times> sql_col) list \<Rightarrow> row_map option" where
  "scan_columns [] cols = Some []"
| "scan_columns ((c, ty) # cs) cols =
     (case (map_of cols c, scan_columns cs cols) of
        (Some v, Some r) \<Rightarrow> (case get_column ty v of None \<Rightarrow> None | Some None \<Rightarrow> Some r | Some (Some x) \<Rightarrow> Some ((c, x) # r))
      | _ \<Rightarrow> None)"

definition scanHistoryRow :: "string \<Rightarrow> history_row option \<Rightarrow> tt_error + row_map" where
  "scanHistoryRow kind row =
     (case row of
        None \<Rightarrow> Inl TTNotFound
      | Some r \<Rightarrow> (case scan_columns (history_columns kind) (hr_cols r) of None \<Rightarrow> Inl TTScan | Some m \<Rightarrow> Inr m))"

definition valid_at :: "string \<Rightarrow> uuid \<Rightarrow> time \<Rightarrow> history_row \<Rightarrow> bool" where
  "valid_at kind entityID t r \<longleftrightarrow>
     hr_table r = kind \<and> hr_entity_id r = entityID \<and> hr_valid_from r \<le> t \<and>
     (case hr_valid_to r of None \<Rightarrow> True | Some v \<Rightarrow> v > t)"

definition GetEntityAsOf :: "string \<Rightarrow> uuid \<Rightarrow> time \<Rightarrow> history \<Rightarrow> tt_error + row_map" where
  "GetEntityAsOf kind entityID t h =
     (if \<not> validHistoryKind kind then Inl TTUnknownKind
      else scanHistoryRow kind (find (valid_at kind entityID t) h))"

definition asOfKindPrefixes :: "(string \<times> string) list" where
  "asOfKindPrefixes =
     [(''/v1/clusters/'', ''clusters''), (''/v1/namespaces/'', ''namespaces''), (''/v1/nodes/'', ''nodes''), (''/v1/workloads/'', ''workloads'')]"

definition resolveAsOfKind :: "string \<Rightarrow> (string \<times> string) option" where
  "resolveAsOfKind path =
     (case find (\<lambda>(p, k). HasPrefix path p \<and> CHR ''/'' \<notin> set (drop (length p) path)) asOfKindPrefixes of
        None \<Rightarrow> None
      | Some (p, k) \<Rightarrow> Some (k, drop (length p) path))"

definition shouldInterceptAsOf :: "string \<Rightarrow> string \<Rightarrow> string \<Rightarrow> bool" where
  "shouldInterceptAsOf meth asOf path \<longleftrightarrow> meth = ''GET'' \<and> asOf \<noteq> '''' \<and> resolveAsOfKind path \<noteq> None"

text \<open>\<open>parseTime\<close> is \<^verbatim>\<open>time.Parse\<close> with RFC 3339, \<open>parseUUID\<close> is \<^verbatim>\<open>uuid.Parse\<close>. The result is the status of an error or the snapshot.\<close>

definition serveAsOf ::
    "(string \<Rightarrow> time option) \<Rightarrow> (string \<Rightarrow> uuid option) \<Rightarrow> bool \<Rightarrow> bool option \<Rightarrow> string \<Rightarrow> string \<Rightarrow> history \<Rightarrow> int + row_map" where
  "serveAsOf parseTime parseUUID authenticated enabled asOf path h =
     (let (kind, idStr) = (case resolveAsOfKind path of None \<Rightarrow> ('''', '''') | Some ki \<Rightarrow> ki) in
      if \<not> authenticated then Inl 401
      else case enabled of
             None \<Rightarrow> Inl 500
           | Some e \<Rightarrow>
               if \<not> e then Inl 503
               else case parseTime asOf of
                      None \<Rightarrow> Inl 400
                    | Some t \<Rightarrow>
                        (case parseUUID idStr of
                           None \<Rightarrow> Inl 400
                         | Some i \<Rightarrow>
                             (case GetEntityAsOf kind i t h of
                                Inl TTNotFound \<Rightarrow> Inl 404
                              | Inl _ \<Rightarrow> Inl 500
                              | Inr row \<Rightarrow> Inr row)))"

section \<open>The diff is a patch\<close>

text \<open>What a snapshot shows of a watched column: the value without the annotations of the enrichers, or nothing.\<close>

definition shown :: "row_map \<Rightarrow> string \<Rightarrow> any_val option" where
  "shown r field = (if absent r field then None else Some (sanitizeForDiff field (index r field)))"

definition apply_op :: "PatchOp \<Rightarrow> (string \<Rightarrow> any_val option) \<Rightarrow> string \<Rightarrow> any_val option" where
  "apply_op p view = view(drop 1 (po_Path p) := if po_Op p = ''remove'' then None else Some (po_To p))"

definition apply_patch :: "PatchOp list \<Rightarrow> (string \<Rightarrow> any_val option) \<Rightarrow> string \<Rightarrow> any_val option" where
  "apply_patch ops view = foldl (\<lambda>v p. apply_op p v) view ops"

lemma diff_field_Nil: "diff_field prev nxt f = [] \<longleftrightarrow> shown prev f = shown nxt f"
  by (auto simp: diff_field_def shown_def Let_def)

lemma apply_diff_field: "apply_patch (diff_field prev nxt f) view = (if shown prev f = shown nxt f then view else view(f := shown nxt f))"
  by (auto simp: diff_field_def shown_def Let_def apply_patch_def apply_op_def)

lemma apply_Diff: "apply_patch (Diff prev nxt fs) view f = (if f \<in> set fs \<and> shown prev f \<noteq> shown nxt f then shown nxt f else view f)"
proof (induction fs arbitrary: view)
  case (Cons g fs)
  have "apply_patch (Diff prev nxt (g # fs)) view = apply_patch (Diff prev nxt fs) (apply_patch (diff_field prev nxt g) view)"
    by (simp add: Diff_def apply_patch_def)
  with Cons show ?case by (auto simp: apply_diff_field)
qed (simp add: Diff_def apply_patch_def)

text \<open>The history diff is a correct patch. Applied to what the older snapshot shows, the operations give on every watched column
  what the newer snapshot shows and change no other column; and there are no operations exactly when the two agree on all watched
  columns. Annotations written by the enrichers are not seen.\<close>

theorem diff_patch_roundtrip:
  "apply_patch (Diff prev nxt (WatchedFields kind)) (shown prev) =
     (\<lambda>f. if f \<in> set (WatchedFields kind) then shown nxt f else shown prev f) \<and>
   (Diff prev nxt (WatchedFields kind) = [] \<longleftrightarrow> list_all (\<lambda>f. shown prev f = shown nxt f) (WatchedFields kind))"
proof
  show "apply_patch (Diff prev nxt (WatchedFields kind)) (shown prev) =
     (\<lambda>f. if f \<in> set (WatchedFields kind) then shown nxt f else shown prev f)"
    by (rule ext) (simp add: apply_Diff)
qed (simp add: Diff_def diff_field_Nil list_all_iff)

section \<open>The state at a point in time\<close>

record change =
  ch_time :: time
  ch_historyID :: uuid
  ch_prev :: "row_map option"
  ch_next :: row_map
  ch_type :: string
  ch_actor :: Actor

definition capture_change :: "string \<Rightarrow> uuid \<Rightarrow> history \<Rightarrow> change \<Rightarrow> history" where
  "capture_change kind e h c =
     snd (Capture (Some True) (ch_time c) (ch_historyID c) kind e (ch_prev c) (ch_next c) (ch_type c) (ch_actor c) h)"

definition recorded :: "string \<Rightarrow> change \<Rightarrow> bool" where
  "recorded kind c \<longleftrightarrow>
     \<not> (ch_type c = ''update'' \<and> (case ch_prev c of None \<Rightarrow> False | Some p \<Rightarrow> Diff p (ch_next c) (WatchedFields kind) = []))"

definition row_of :: "string \<Rightarrow> uuid \<Rightarrow> change \<Rightarrow> time option \<Rightarrow> history_row" where
  "row_of kind e c until =
     \<lparr>hr_table = kind, hr_history_id = ch_historyID c, hr_entity_id = e, hr_valid_from = ch_time c, hr_valid_to = until,
      hr_change_type = ch_type c, hr_actor = ch_actor c,
      hr_cols = map (\<lambda>(col, ty). (col, put_column ty (index (ch_next c) col))) (history_columns kind)\<rparr>"

text \<open>The rows of an entity: each recorded change is valid until the next one.\<close>

fun chain :: "string \<Rightarrow> uuid \<Rightarrow> change list \<Rightarrow> history" where
  "chain kind e [] = []"
| "chain kind e [c] = [row_of kind e c None]"
| "chain kind e (c # d # cs) = row_of kind e c (Some (ch_time d)) # chain kind e (d # cs)"

definition rows_of :: "string \<Rightarrow> uuid \<Rightarrow> history \<Rightarrow> history" where
  "rows_of kind e h = filter (\<lambda>r. hr_table r = kind \<and> hr_entity_id r = e) h"

definition close_open :: "time \<Rightarrow> history_row \<Rightarrow> history_row" where
  "close_open now r = (if hr_valid_to r = None then r\<lparr>hr_valid_to := Some now\<rparr> else r)"

lemma chain_snoc: "cs \<noteq> [] \<Longrightarrow> chain kind e (cs @ [c]) = map (close_open (ch_time c)) (chain kind e cs) @ [row_of kind e c None]"
  by (induction kind e cs rule: chain.induct) (simp_all add: close_open_def row_of_def)

lemma rows_of_close:
  "rows_of kind e (map (\<lambda>r. if closes kind e r then r\<lparr>hr_valid_to := Some now\<rparr> else r) h) = map (close_open now) (rows_of kind e h)"
  by (induction h) (auto simp: rows_of_def closes_def close_open_def)

lemma rows_of_capture:
  assumes "validHistoryKind kind"
  shows "rows_of kind e (capture_change kind e h c) =
    (if recorded kind c
     then (if ch_type c = ''create'' then rows_of kind e h else map (close_open (ch_time c)) (rows_of kind e h)) @ [row_of kind e c None]
     else rows_of kind e h)"
proof -
  let ?close = "map (\<lambda>r. if closes kind e r then r\<lparr>hr_valid_to := Some (ch_time c)\<rparr> else r) h"
  have app: "rows_of kind e (xs @ [row_of kind e c None]) = rows_of kind e xs @ [row_of kind e c None]" for xs
    by (simp add: rows_of_def row_of_def)
  have "capture_change kind e h c =
      (if recorded kind c then (if ch_type c = ''create'' then h else ?close) @ [row_of kind e c None] else h)"
    using assms by (simp add: capture_change_def Capture_def recorded_def insertHistoryRow_def row_of_def Let_def)
  then show ?thesis by (simp add: app rows_of_close)
qed

lemma rows_of_other: "kind \<noteq> kind' \<or> e \<noteq> e' \<Longrightarrow> rows_of kind e (capture_change kind' e' h c) = rows_of kind e h"
proof -
  assume ne: "kind \<noteq> kind' \<or> e \<noteq> e'"
  have "filter (\<lambda>r. hr_table r = kind \<and> hr_entity_id r = e) (map (\<lambda>r. if closes kind' e' r then r\<lparr>hr_valid_to := Some now\<rparr> else r) h) =
      filter (\<lambda>r. hr_table r = kind \<and> hr_entity_id r = e) h" for now
    using ne by (induction h) (auto simp: closes_def)
  then show ?thesis
    using ne by (auto simp: capture_change_def Capture_def insertHistoryRow_def rows_of_def Let_def split: option.splits)
qed

text \<open>Changes of any entities, in the order of the clock.\<close>

type_synonym event = "string \<times> uuid \<times> change"

definition capture_all :: "event list \<Rightarrow> history \<Rightarrow> history" where
  "capture_all evs h = foldl (\<lambda>h (kind, e, c). capture_change kind e h c) h evs"

definition changes_of :: "string \<Rightarrow> uuid \<Rightarrow> event list \<Rightarrow> change list" where
  "changes_of kind e evs = map (\<lambda>(_, _, c). c) (filter (\<lambda>(k, i, c). k = kind \<and> i = e \<and> recorded kind c) evs)"

text \<open>An entity is created once, before its other changes.\<close>

definition created_once :: "change list \<Rightarrow> bool" where
  "created_once cs \<longleftrightarrow> list_all (\<lambda>c. ch_type c \<noteq> ''create'') (tl cs)"

lemma created_once_snoc: "created_once (cs @ [c]) \<longleftrightarrow> created_once cs \<and> (cs = [] \<or> ch_type c \<noteq> ''create'')"
  by (cases cs) (auto simp: created_once_def)

lemma rows_of_all:
  assumes "validHistoryKind kind" "created_once (changes_of kind e evs)"
  shows "rows_of kind e (capture_all evs []) = chain kind e (changes_of kind e evs)"
  using assms(2)
proof (induction evs rule: rev_induct)
  case (snoc ev evs)
  obtain k i c where ev: "ev = (k, i, c)" by (cases ev)
  let ?h = "capture_all evs []"
  have all: "capture_all (evs @ [ev]) [] = capture_change k i ?h c" by (simp add: capture_all_def ev)
  show ?case
  proof (cases "k = kind \<and> i = e \<and> recorded kind c")
    case True
    then have cs: "changes_of kind e (evs @ [ev]) = changes_of kind e evs @ [c]" by (simp add: changes_of_def ev)
    with snoc.prems have once: "created_once (changes_of kind e evs)" "changes_of kind e evs = [] \<or> ch_type c \<noteq> ''create''"
      by (simp_all add: created_once_snoc)
    show ?thesis
    proof (cases "changes_of kind e evs = []")
      case True
      then show ?thesis using snoc.IH [OF once(1)] assms(1) \<open>k = kind \<and> i = e \<and> recorded kind c\<close>
        by (simp add: all cs rows_of_capture)
    next
      case False
      then show ?thesis using snoc.IH [OF once(1)] once(2) assms(1) True by (simp add: all cs rows_of_capture chain_snoc)
    qed
  next
    case False
    then have "changes_of kind e (evs @ [ev]) = changes_of kind e evs" by (auto simp: changes_of_def ev)
    moreover have "rows_of kind e (capture_change k i ?h c) = rows_of kind e ?h"
      using False rows_of_other [of kind k e i ?h c] assms(1) by (cases "k = kind \<and> i = e") (auto simp: rows_of_capture)
    ultimately show ?thesis using snoc all by simp
  qed
qed (simp add: rows_of_def capture_all_def changes_of_def)

lemma find_rows_of: "find (valid_at kind e t) h = find (valid_at kind e t) (rows_of kind e h)"
  by (induction h) (auto simp: rows_of_def valid_at_def)

lemma chain_find:
  "sorted (map ch_time cs) \<Longrightarrow>
   map_option hr_cols (find (valid_at kind e t) (chain kind e cs)) =
     (case filter (\<lambda>c. ch_time c \<le> t) cs of [] \<Rightarrow> None | ds \<Rightarrow> Some (hr_cols (row_of kind e (last ds) None)))"
proof (induction kind e cs rule: chain.induct)
  case (3 kind e c d cs)
  show ?case
  proof (cases "ch_time d \<le> t")
    case True
    then show ?thesis using 3 by (simp add: valid_at_def row_of_def)
  next
    case False
    have "\<forall>x\<in>set (d # cs). \<not> ch_time x \<le> t" using 3(2) False by auto
    then have "filter (\<lambda>c. ch_time c \<le> t) (d # cs) = []" by (simp add: filter_empty_conv)
    then show ?thesis using 3 False by (simp add: valid_at_def row_of_def split: if_splits)
  qed
qed (simp_all add: valid_at_def row_of_def)

lemma scanHistoryRow_cols: "scanHistoryRow kind r =
    (case map_option hr_cols r of None \<Rightarrow> Inl TTNotFound | Some cols \<Rightarrow>
       (case scan_columns (history_columns kind) cols of None \<Rightarrow> Inl TTScan | Some m \<Rightarrow> Inr m))"
  by (simp add: scanHistoryRow_def split: option.splits)

text \<open>The values a snapshot of a row has in a column of each type, and the value that comes back from the history table.\<close>

fun col_ok :: "coltype \<Rightarrow> any_val \<Rightarrow> bool" where
  "col_ok CName v \<longleftrightarrow> (case v of StrV _ \<Rightarrow> True | _ \<Rightarrow> False)"
| "col_ok CText v \<longleftrightarrow> (case v of NilV \<Rightarrow> True | StrV _ \<Rightarrow> True | _ \<Rightarrow> False)"
| "col_ok CUuidReq v \<longleftrightarrow> (case v of UuidV _ \<Rightarrow> True | _ \<Rightarrow> False)"
| "col_ok CUuid v \<longleftrightarrow> (case v of NilV \<Rightarrow> True | UuidV _ \<Rightarrow> True | _ \<Rightarrow> False)"
| "col_ok CTime v \<longleftrightarrow> (case v of TimePtr _ \<Rightarrow> True | _ \<Rightarrow> False)"
| "col_ok CTimeReq v \<longleftrightarrow> (case v of TimeV _ \<Rightarrow> True | _ \<Rightarrow> False)"
| "col_ok CBool v \<longleftrightarrow> (case v of BoolV _ \<Rightarrow> True | _ \<Rightarrow> False)"
| "col_ok CInt v \<longleftrightarrow> (case v of NilV \<Rightarrow> True | IntV _ \<Rightarrow> True | _ \<Rightarrow> False)"
| "col_ok CJson v \<longleftrightarrow> (case v of JsonV j \<Rightarrow> j \<noteq> JNull | _ \<Rightarrow> False)"

definition snapshot_ok :: "string \<Rightarrow> row_map \<Rightarrow> bool" where
  "snapshot_ok kind m \<longleftrightarrow> list_all (\<lambda>(c, ty). col_ok ty (index m c)) (history_columns kind)"

fun stored :: "coltype \<Rightarrow> any_val \<Rightarrow> any_val option" where
  "stored CText v = Some (StrPtr (case v of StrV s \<Rightarrow> Some s | _ \<Rightarrow> None))"
| "stored CUuidReq v = (case v of UuidV u \<Rightarrow> Some (UuidStr u) | _ \<Rightarrow> None)"
| "stored CUuid v = (case v of UuidV u \<Rightarrow> Some (UuidStr u) | _ \<Rightarrow> None)"
| "stored CInt v = (case v of IntV i \<Rightarrow> Some (IntV i) | _ \<Rightarrow> None)"
| "stored _ v = Some v"

definition stored_row :: "(string \<times> coltype) list \<Rightarrow> row_map \<Rightarrow> row_map" where
  "stored_row cs m = List.map_filter (\<lambda>(c, ty). map_option (Pair c) (stored ty (index m c))) cs"

lemma column_roundtrip: "col_ok ty v \<Longrightarrow> get_column ty (put_column ty v) = Some (stored ty v)"
proof (cases "ty = CTime")
  case True
  moreover assume "col_ok ty v"
  ultimately obtain t where "v = TimePtr t" by (auto split: any_val.splits)
  then show ?thesis using True by (cases t) simp_all
next
  case False
  moreover assume "col_ok ty v"
  ultimately show ?thesis by (cases ty; cases v) (auto simp: unmarshalJSONB_def)
qed

lemma scan_columns_stored:
  "\<forall>(c, ty)\<in>set cs. map_of cols c = Some (put_column ty (index m c)) \<and> col_ok ty (index m c) \<Longrightarrow>
   scan_columns cs cols = Some (stored_row cs m)"
proof (induction cs)
  case (Cons x cs)
  then show ?case
    by (cases x) (auto simp: column_roundtrip stored_row_def map_filter_simps split: option.splits)
qed (simp add: stored_row_def map_filter_simps)

lemma history_columns_distinct: "distinct (map fst (history_columns kind))"
  by (simp add: history_columns_def text_columns_def)

lemma scan_row_of:
  assumes "snapshot_ok kind (ch_next c)"
  shows "scan_columns (history_columns kind) (hr_cols (row_of kind e c until)) = Some (stored_row (history_columns kind) (ch_next c))"
proof (rule scan_columns_stored, safe)
  fix col ty assume m: "(col, ty) \<in> set (history_columns kind)"
  have "map_of (map (\<lambda>(c, ty). (c, f c ty)) cs) col = Some (f col ty)" if "distinct (map fst cs)" "(col, ty) \<in> set cs" for f :: "string \<Rightarrow> coltype \<Rightarrow> sql_col" and cs
    using that by (induction cs) force+
  from this [OF history_columns_distinct m, where f = "\<lambda>c ty. put_column ty (index (ch_next c') c)" for c']
  show "map_of (hr_cols (row_of kind e c until)) col = Some (put_column ty (index (ch_next c) col))" by (simp add: row_of_def)
  show "col_ok ty (index (ch_next c) col)" using assms m by (auto simp: snapshot_ok_def list_all_iff)
qed

text \<open>Time travel. Start from empty history tables, let changes of any entities be captured in the order of the clock, each entity
  being created before its other changes. Then the state returned for an entity at a time is the snapshot of the last change of that
  entity recorded at or before that time, and there is none exactly when no change was recorded by then.\<close>

theorem history_as_of:
  assumes "validHistoryKind kind" and "sorted (map (\<lambda>(_, _, c). ch_time c) evs)"
    and "created_once (changes_of kind e evs)" and "list_all (\<lambda>c. snapshot_ok kind (ch_next c)) (changes_of kind e evs)"
  shows "GetEntityAsOf kind e t (capture_all evs []) =
    (case filter (\<lambda>c. ch_time c \<le> t) (changes_of kind e evs) of
       [] \<Rightarrow> Inl TTNotFound
     | ds \<Rightarrow> Inr (stored_row (history_columns kind) (ch_next (last ds))))"
proof -
  let ?cs = "changes_of kind e evs"
  have "sorted (map ch_time ?cs)"
    using sorted_filter [OF assms(2)] by (simp add: changes_of_def comp_def case_prod_unfold)
  note f = chain_find [OF this, of kind e t]
  have "snapshot_ok kind (ch_next (last ds))" if "filter (\<lambda>c. ch_time c \<le> t) ?cs = ds" "ds \<noteq> []" for ds
  proof -
    have "last ds \<in> set ?cs" using last_in_set [OF that(2)] that(1) by auto
    then show ?thesis using assms(4) by (simp add: list_all_iff)
  qed
  then show ?thesis
    using assms(1) f
    by (auto simp: GetEntityAsOf_def find_rows_of [of kind e t "capture_all evs []"] rows_of_all [OF assms(1,3)] scanHistoryRow_cols scan_row_of
        split: list.splits)
qed

definition sample_snapshot :: "string option \<Rightarrow> row_map" where
  "sample_snapshot owner =
     [(''cluster_id'', UuidV 1), (''name'', StrV ''web''), (''owner'', ns owner), (''labels'', JsonV (JObj [])), (''annotations'', JsonV (JObj [])),
      (''terminated_at'', TimePtr None), (''created_at'', TimeV 1), (''updated_at'', TimeV 1)]"

definition sample_events :: "event list" where
  "sample_events =
     (let by_user = \<lparr>actor_ID = Some 9, actor_Kind = ''user''\<rparr> in
      [(KindNamespace, 7, \<lparr>ch_time = 10, ch_historyID = 100, ch_prev = None, ch_next = sample_snapshot None, ch_type = ''create'', ch_actor = by_user\<rparr>),
       (KindNamespace, 7, \<lparr>ch_time = 20, ch_historyID = 101, ch_prev = Some (sample_snapshot None), ch_next = sample_snapshot (Some ''ops''),
          ch_type = ''update'', ch_actor = by_user\<rparr>)])"

theorem history_as_of_witness:
  "map_of (projr (GetEntityAsOf KindNamespace 7 15 (capture_all sample_events []))) ''owner'' = Some (StrPtr None) \<and>
   map_of (projr (GetEntityAsOf KindNamespace 7 25 (capture_all sample_events []))) ''owner'' = Some (StrPtr (Some ''ops'')) \<and>
   GetEntityAsOf KindNamespace 7 5 (capture_all sample_events []) = Inl TTNotFound"
proof -
  have h: "validHistoryKind KindNamespace" "sorted (map (\<lambda>(_, _, c). ch_time c) sample_events)"
    "created_once (changes_of KindNamespace 7 sample_events)"
    "list_all (\<lambda>c. snapshot_ok KindNamespace (ch_next c)) (changes_of KindNamespace 7 sample_events)"
    by code_simp+
  have v: "map_of (projr (case filter (\<lambda>c. ch_time c \<le> 15) (changes_of KindNamespace 7 sample_events) of [] \<Rightarrow> Inl TTNotFound
       | ds \<Rightarrow> Inr (stored_row (history_columns KindNamespace) (ch_next (last ds))))) ''owner'' = Some (StrPtr None)"
    "map_of (projr (case filter (\<lambda>c. ch_time c \<le> 25) (changes_of KindNamespace 7 sample_events) of [] \<Rightarrow> Inl TTNotFound
       | ds \<Rightarrow> Inr (stored_row (history_columns KindNamespace) (ch_next (last ds))))) ''owner'' = Some (StrPtr (Some ''ops''))"
    "filter (\<lambda>c. ch_time c \<le> 5) (changes_of KindNamespace 7 sample_events) = []"
    by code_simp+
  show ?thesis using v unfolding history_as_of [OF h] by simp
qed

end
