(* ===== verification/Inventory_Data.thy ===== *)
theory Inventory_Data
  imports Time_Travel
begin

text \<open>
  The inventory tables (\<^verbatim>\<open>migrations\<close>, \<^verbatim>\<open>internal/store/pg_clusters.go\<close> and its siblings): their rows, the
  inputs of the store methods (\<^verbatim>\<open>api.*Mutable\<close>, \<^verbatim>\<open>api.*Create\<close>), the columns an insert writes and the columns a
  merge patch changes, and the snapshots that time travel keeps of a row (\<^verbatim>\<open>pg_timetravel.go\<close>).

  Every table has rows of one shape. \<open>en_parent\<close> and \<open>en_name\<close> are the columns of its unique index, \<open>en_obs\<close> the columns a
  collector writes with every upsert, \<open>en_cur\<close> the columns only operators change. Tables without a column
  \<^verbatim>\<open>terminated_at\<close> leave it at \<open>None\<close>. A JSON object lists its members in the order of the keys, as \<^verbatim>\<open>json.Marshal\<close> writes
  them, so that equality of values is equality of JSONB columns. The columns \<^verbatim>\<open>image_id\<close> and \<^verbatim>\<open>image_name\<close> of nodes, which only the
  cloud collector writes, are left out.
\<close>

section \<open>Rows\<close>

record ('p, 'n, 'o, 'c) entity =
  en_id :: uuid
  en_parent :: 'p
  en_name :: 'n
  en_obs :: 'o
  en_cur :: 'c
  en_created_at :: time
  en_updated_at :: time
  en_terminated_at :: "time option"

record curated =
  cu_owner :: "string option"
  cu_criticality :: "string option"
  cu_notes :: "string option"
  cu_runbook_url :: "string option"
  cu_annotations :: json

record node_curated = curated +
  cu_hardware_model :: "string option"

record cluster_cols =
  cc_display_name :: "string option"
  cc_environment :: "string option"
  cc_provider :: "string option"
  cc_region :: "string option"
  cc_kubernetes_version :: "string option"
  cc_api_endpoint :: "string option"
  cc_labels :: json
  cc_last_seen_at :: time

record namespace_cols =
  nsc_display_name :: "string option"
  nsc_phase :: "string option"
  nsc_labels :: json

record node_text =
  nt_display_name :: "string option"
  nt_role :: "string option"
  nt_kubelet_version :: "string option"
  nt_kube_proxy_version :: "string option"
  nt_container_runtime_version :: "string option"
  nt_os_image :: "string option"
  nt_operating_system :: "string option"
  nt_kernel_version :: "string option"
  nt_architecture :: "string option"
  nt_internal_ip :: "string option"
  nt_external_ip :: "string option"
  nt_pod_cidr :: "string option"
  nt_provider_id :: "string option"
  nt_instance_type :: "string option"
  nt_zone :: "string option"
  nt_capacity_cpu :: "string option"
  nt_capacity_memory :: "string option"
  nt_capacity_pods :: "string option"
  nt_capacity_ephemeral_storage :: "string option"
  nt_allocatable_cpu :: "string option"
  nt_allocatable_memory :: "string option"
  nt_allocatable_pods :: "string option"
  nt_allocatable_ephemeral_storage :: "string option"

record node_cols =
  noc_text :: node_text
  noc_conditions :: json
  noc_taints :: json
  noc_unschedulable :: bool
  noc_ready :: bool
  noc_labels :: json

record workload_cols =
  wc_replicas :: "int option"
  wc_ready_replicas :: "int option"
  wc_containers :: json
  wc_labels :: json
  wc_spec :: json

record pod_cols =
  poc_phase :: "string option"
  poc_node_name :: "string option"
  poc_pod_ip :: "string option"
  poc_workload_id :: "uuid option"
  poc_containers :: json
  poc_labels :: json

record service_cols =
  svc_type :: "string option"
  svc_cluster_ip :: "string option"
  svc_selector :: json
  svc_ports :: json
  svc_load_balancer :: json
  svc_labels :: json

record ingress_cols =
  igc_ingress_class_name :: "string option"
  igc_rules :: json
  igc_tls :: json
  igc_load_balancer :: json
  igc_labels :: json

record pv_cols =
  pvc_capacity :: "string option"
  pvc_access_modes :: "string list"
  pvc_reclaim_policy :: "string option"
  pvc_phase :: "string option"
  pvc_storage_class_name :: "string option"
  pvc_csi_driver :: "string option"
  pvc_volume_handle :: "string option"
  pvc_claim_ref_namespace :: "string option"
  pvc_claim_ref_name :: "string option"
  pvc_labels :: json

record claim_cols =
  clc_phase :: "string option"
  clc_storage_class_name :: "string option"
  clc_volume_name :: "string option"
  clc_bound_volume_id :: "uuid option"
  clc_access_modes :: "string list"
  clc_requested_storage :: "string option"
  clc_labels :: json

type_synonym cluster_row = "(unit, string, cluster_cols, curated) entity"
type_synonym namespace_row = "(uuid, string, namespace_cols, curated) entity"
type_synonym node_row = "(uuid, string, node_cols, node_curated) entity"
type_synonym workload_row = "(uuid, string \<times> string, workload_cols, uuid option) entity"
type_synonym pod_row = "(uuid, string, pod_cols, unit) entity"
type_synonym service_row = "(uuid, string, service_cols, unit) entity"
type_synonym ingress_row = "(uuid, string, ingress_cols, unit) entity"
type_synonym pv_row = "(uuid, string, pv_cols, unit) entity"
type_synonym claim_row = "(uuid, string, claim_cols, unit) entity"

section \<open>Inputs\<close>

type_synonym labels = "(string, string) gomap"
type_synonym json_object = "(string \<times> json) list"

record curated_in =
  ci_Owner :: "string option"
  ci_Criticality :: "string option"
  ci_Notes :: "string option"
  ci_RunbookUrl :: "string option"
  ci_Annotations :: "labels option"

record ClusterMutable =
  cm_DisplayName :: "string option"
  cm_Environment :: "string option"
  cm_Provider :: "string option"
  cm_Region :: "string option"
  cm_KubernetesVersion :: "string option"
  cm_ApiEndpoint :: "string option"
  cm_Labels :: "labels option"
  cm_curated :: curated_in

record ClusterCreate = ClusterMutable +
  cm_Name :: string

record NamespaceMutable =
  nm_DisplayName :: "string option"
  nm_Phase :: "string option"
  nm_Labels :: "labels option"
  nm_curated :: curated_in

record NamespaceCreate = NamespaceMutable +
  nm_ClusterId :: uuid
  nm_Name :: string

record NodeMutable =
  om_text :: node_text
  om_Conditions :: "json list option"
  om_Taints :: "json list option"
  om_Unschedulable :: "bool option"
  om_Ready :: "bool option"
  om_Labels :: "labels option"
  om_curated :: curated_in
  om_HardwareModel :: "string option"

record NodeCreate = NodeMutable +
  om_ClusterId :: uuid
  om_Name :: string

record WorkloadMutable =
  wm_Replicas :: "int option"
  wm_ReadyReplicas :: "int option"
  wm_Containers :: "json list option"
  wm_Labels :: "labels option"
  wm_Spec :: "json_object option"

record WorkloadUpdate = WorkloadMutable +
  wm_ApplicationId :: "uuid option"

record WorkloadCreate = WorkloadMutable +
  wm_NamespaceId :: uuid
  wm_Kind :: string
  wm_Name :: string

record PodMutable =
  pom_Phase :: "string option"
  pom_NodeName :: "string option"
  pom_PodIp :: "string option"
  pom_WorkloadId :: "uuid option"
  pom_Containers :: "json list option"
  pom_Labels :: "labels option"

record PodCreate = PodMutable +
  pom_NamespaceId :: uuid
  pom_Name :: string

record ServiceMutable =
  svm_Type :: "string option"
  svm_ClusterIp :: "string option"
  svm_Selector :: "labels option"
  svm_Ports :: "json list option"
  svm_LoadBalancer :: "json list option"
  svm_Labels :: "labels option"

record ServiceCreate = ServiceMutable +
  svm_NamespaceId :: uuid
  svm_Name :: string

record IngressMutable =
  igm_IngressClassName :: "string option"
  igm_Rules :: "json list option"
  igm_Tls :: "json list option"
  igm_LoadBalancer :: "json list option"
  igm_Labels :: "labels option"

record IngressCreate = IngressMutable +
  igm_NamespaceId :: uuid
  igm_Name :: string

record PersistentVolumeMutable =
  pvm_Capacity :: "string option"
  pvm_AccessModes :: "string list option"
  pvm_ReclaimPolicy :: "string option"
  pvm_Phase :: "string option"
  pvm_StorageClassName :: "string option"
  pvm_CsiDriver :: "string option"
  pvm_VolumeHandle :: "string option"
  pvm_ClaimRefNamespace :: "string option"
  pvm_ClaimRefName :: "string option"
  pvm_Labels :: "labels option"

record PersistentVolumeCreate = PersistentVolumeMutable +
  pvm_ClusterId :: uuid
  pvm_Name :: string

record PersistentVolumeClaimMutable =
  clm_Phase :: "string option"
  clm_StorageClassName :: "string option"
  clm_VolumeName :: "string option"
  clm_BoundVolumeId :: "uuid option"
  clm_AccessModes :: "string list option"
  clm_RequestedStorage :: "string option"
  clm_Labels :: "labels option"

record PersistentVolumeClaimCreate = PersistentVolumeClaimMutable +
  clm_NamespaceId :: uuid
  clm_Name :: string

section \<open>Encoding of inputs\<close>

definition marshalLabels :: "labels option \<Rightarrow> json" where
  "marshalLabels ls = (case ls of None \<Rightarrow> JObj [] | Some m \<Rightarrow> JObj (map (\<lambda>(k, v). (k, JStr v)) m))"

definition marshalPorts :: "json list option \<Rightarrow> json" where
  "marshalPorts ps = (case ps of None \<Rightarrow> JArr [] | Some xs \<Rightarrow> JArr xs)"

definition marshalSpec :: "json_object option \<Rightarrow> json" where
  "marshalSpec s = (case s of None \<Rightarrow> JObj [] | Some m \<Rightarrow> JObj m)"

definition accessModesValue :: "string list option \<Rightarrow> string list" where
  "accessModesValue modes = (case modes of None \<Rightarrow> [] | Some xs \<Rightarrow> xs)"

definition boolOrFalse :: "bool option \<Rightarrow> bool" where
  "boolOrFalse b = (case b of None \<Rightarrow> False | Some x \<Rightarrow> x)"

text \<open>A column that a merge patch sets when the patch has the field: \<^verbatim>\<open>if in.X != nil { appendSet(...) }\<close>.\<close>

definition set_opt :: "'a option \<Rightarrow> 'a option \<Rightarrow> 'a option" where
  "set_opt new old = (case new of None \<Rightarrow> old | Some v \<Rightarrow> Some v)"

definition set_val :: "'b option \<Rightarrow> ('b option \<Rightarrow> 'a) \<Rightarrow> 'a \<Rightarrow> 'a" where
  "set_val new enc old = (case new of None \<Rightarrow> old | Some v \<Rightarrow> enc (Some v))"

section \<open>Inserted columns and merge patches\<close>

definition curated_columns :: "curated_in \<Rightarrow> curated" where
  "curated_columns i =
     \<lparr>cu_owner = ci_Owner i, cu_criticality = ci_Criticality i, cu_notes = ci_Notes i, cu_runbook_url = ci_RunbookUrl i,
      cu_annotations = marshalLabels (ci_Annotations i)\<rparr>"

text \<open>The defaults of the curated columns, for inserts that do not list them.\<close>

definition curated_default :: curated where
  "curated_default = \<lparr>cu_owner = None, cu_criticality = None, cu_notes = None, cu_runbook_url = None, cu_annotations = JObj []\<rparr>"

definition curated_patch :: "curated_in \<Rightarrow> 'a curated_scheme \<Rightarrow> 'a curated_scheme" where
  "curated_patch i c = c
     \<lparr>cu_owner := set_opt (ci_Owner i) (cu_owner c), cu_criticality := set_opt (ci_Criticality i) (cu_criticality c),
      cu_notes := set_opt (ci_Notes i) (cu_notes c), cu_runbook_url := set_opt (ci_RunbookUrl i) (cu_runbook_url c),
      cu_annotations := set_val (ci_Annotations i) marshalLabels (cu_annotations c)\<rparr>"

definition cluster_columns :: "'a ClusterMutable_scheme \<Rightarrow> time \<Rightarrow> cluster_cols" where
  "cluster_columns i now =
     \<lparr>cc_display_name = cm_DisplayName i, cc_environment = cm_Environment i, cc_provider = cm_Provider i, cc_region = cm_Region i,
      cc_kubernetes_version = cm_KubernetesVersion i, cc_api_endpoint = cm_ApiEndpoint i, cc_labels = marshalLabels (cm_Labels i),
      cc_last_seen_at = now\<rparr>"

definition cluster_patch :: "'a ClusterMutable_scheme \<Rightarrow> cluster_cols \<Rightarrow> cluster_cols" where
  "cluster_patch i c = c
     \<lparr>cc_display_name := set_opt (cm_DisplayName i) (cc_display_name c), cc_environment := set_opt (cm_Environment i) (cc_environment c),
      cc_provider := set_opt (cm_Provider i) (cc_provider c), cc_region := set_opt (cm_Region i) (cc_region c),
      cc_kubernetes_version := set_opt (cm_KubernetesVersion i) (cc_kubernetes_version c),
      cc_api_endpoint := set_opt (cm_ApiEndpoint i) (cc_api_endpoint c), cc_labels := set_val (cm_Labels i) marshalLabels (cc_labels c)\<rparr>"

definition namespace_columns :: "'a NamespaceMutable_scheme \<Rightarrow> namespace_cols" where
  "namespace_columns i =
     \<lparr>nsc_display_name = nm_DisplayName i, nsc_phase = nm_Phase i, nsc_labels = marshalLabels (nm_Labels i)\<rparr>"

definition namespace_patch :: "'a NamespaceMutable_scheme \<Rightarrow> namespace_cols \<Rightarrow> namespace_cols" where
  "namespace_patch i c = c
     \<lparr>nsc_display_name := set_opt (nm_DisplayName i) (nsc_display_name c), nsc_phase := set_opt (nm_Phase i) (nsc_phase c),
      nsc_labels := set_val (nm_Labels i) marshalLabels (nsc_labels c)\<rparr>"

definition node_columns :: "'a NodeMutable_scheme \<Rightarrow> node_cols" where
  "node_columns i =
     \<lparr>noc_text = om_text i, noc_conditions = marshalPorts (om_Conditions i), noc_taints = marshalPorts (om_Taints i),
      noc_unschedulable = boolOrFalse (om_Unschedulable i), noc_ready = boolOrFalse (om_Ready i), noc_labels = marshalLabels (om_Labels i)\<rparr>"

definition node_curated_columns :: "'a NodeMutable_scheme \<Rightarrow> node_curated" where
  "node_curated_columns i = curated.extend (curated_columns (om_curated i)) \<lparr>cu_hardware_model = om_HardwareModel i\<rparr>"

definition node_text_patch :: "node_text \<Rightarrow> node_text \<Rightarrow> node_text" where
  "node_text_patch i c =
     \<lparr>nt_display_name = set_opt (nt_display_name i) (nt_display_name c),
      nt_role = set_opt (nt_role i) (nt_role c),
      nt_kubelet_version = set_opt (nt_kubelet_version i) (nt_kubelet_version c),
      nt_kube_proxy_version = set_opt (nt_kube_proxy_version i) (nt_kube_proxy_version c),
      nt_container_runtime_version = set_opt (nt_container_runtime_version i) (nt_container_runtime_version c),
      nt_os_image = set_opt (nt_os_image i) (nt_os_image c),
      nt_operating_system = set_opt (nt_operating_system i) (nt_operating_system c),
      nt_kernel_version = set_opt (nt_kernel_version i) (nt_kernel_version c),
      nt_architecture = set_opt (nt_architecture i) (nt_architecture c),
      nt_internal_ip = set_opt (nt_internal_ip i) (nt_internal_ip c),
      nt_external_ip = set_opt (nt_external_ip i) (nt_external_ip c),
      nt_pod_cidr = set_opt (nt_pod_cidr i) (nt_pod_cidr c),
      nt_provider_id = set_opt (nt_provider_id i) (nt_provider_id c),
      nt_instance_type = set_opt (nt_instance_type i) (nt_instance_type c),
      nt_zone = set_opt (nt_zone i) (nt_zone c),
      nt_capacity_cpu = set_opt (nt_capacity_cpu i) (nt_capacity_cpu c),
      nt_capacity_memory = set_opt (nt_capacity_memory i) (nt_capacity_memory c),
      nt_capacity_pods = set_opt (nt_capacity_pods i) (nt_capacity_pods c),
      nt_capacity_ephemeral_storage = set_opt (nt_capacity_ephemeral_storage i) (nt_capacity_ephemeral_storage c),
      nt_allocatable_cpu = set_opt (nt_allocatable_cpu i) (nt_allocatable_cpu c),
      nt_allocatable_memory = set_opt (nt_allocatable_memory i) (nt_allocatable_memory c),
      nt_allocatable_pods = set_opt (nt_allocatable_pods i) (nt_allocatable_pods c),
      nt_allocatable_ephemeral_storage = set_opt (nt_allocatable_ephemeral_storage i) (nt_allocatable_ephemeral_storage c)\<rparr>"

definition buildNodeUpdateSets :: "'a NodeMutable_scheme \<Rightarrow> node_cols \<Rightarrow> node_cols" where
  "buildNodeUpdateSets i c =
     \<lparr>noc_text = node_text_patch (om_text i) (noc_text c),
      noc_conditions = set_val (om_Conditions i) marshalPorts (noc_conditions c),
      noc_taints = set_val (om_Taints i) marshalPorts (noc_taints c),
      noc_unschedulable = set_val (om_Unschedulable i) boolOrFalse (noc_unschedulable c),
      noc_ready = set_val (om_Ready i) boolOrFalse (noc_ready c),
      noc_labels = set_val (om_Labels i) marshalLabels (noc_labels c)\<rparr>"

definition node_curated_patch :: "'a NodeMutable_scheme \<Rightarrow> node_curated \<Rightarrow> node_curated" where
  "node_curated_patch i c =
     (curated_patch (om_curated i) c)\<lparr>cu_hardware_model := set_opt (om_HardwareModel i) (cu_hardware_model c)\<rparr>"

definition workload_columns :: "'a WorkloadMutable_scheme \<Rightarrow> workload_cols" where
  "workload_columns i =
     \<lparr>wc_replicas = wm_Replicas i, wc_ready_replicas = wm_ReadyReplicas i, wc_containers = marshalPorts (wm_Containers i),
      wc_labels = marshalLabels (wm_Labels i), wc_spec = marshalSpec (wm_Spec i)\<rparr>"

definition workload_patch :: "'a WorkloadMutable_scheme \<Rightarrow> workload_cols \<Rightarrow> workload_cols" where
  "workload_patch i c =
     \<lparr>wc_replicas = set_opt (wm_Replicas i) (wc_replicas c), wc_ready_replicas = set_opt (wm_ReadyReplicas i) (wc_ready_replicas c),
      wc_containers = set_val (wm_Containers i) marshalPorts (wc_containers c),
      wc_labels = set_val (wm_Labels i) marshalLabels (wc_labels c), wc_spec = set_val (wm_Spec i) marshalSpec (wc_spec c)\<rparr>"

definition pod_columns :: "'a PodMutable_scheme \<Rightarrow> pod_cols" where
  "pod_columns i =
     \<lparr>poc_phase = pom_Phase i, poc_node_name = pom_NodeName i, poc_pod_ip = pom_PodIp i, poc_workload_id = pom_WorkloadId i,
      poc_containers = marshalPorts (pom_Containers i), poc_labels = marshalLabels (pom_Labels i)\<rparr>"

definition pod_patch :: "'a PodMutable_scheme \<Rightarrow> pod_cols \<Rightarrow> pod_cols" where
  "pod_patch i c =
     \<lparr>poc_phase = set_opt (pom_Phase i) (poc_phase c), poc_node_name = set_opt (pom_NodeName i) (poc_node_name c),
      poc_pod_ip = set_opt (pom_PodIp i) (poc_pod_ip c), poc_workload_id = set_opt (pom_WorkloadId i) (poc_workload_id c),
      poc_containers = set_val (pom_Containers i) marshalPorts (poc_containers c),
      poc_labels = set_val (pom_Labels i) marshalLabels (poc_labels c)\<rparr>"

definition service_columns :: "'a ServiceMutable_scheme \<Rightarrow> service_cols" where
  "service_columns i =
     \<lparr>svc_type = svm_Type i, svc_cluster_ip = svm_ClusterIp i, svc_selector = marshalLabels (svm_Selector i),
      svc_ports = marshalPorts (svm_Ports i), svc_load_balancer = marshalPorts (svm_LoadBalancer i),
      svc_labels = marshalLabels (svm_Labels i)\<rparr>"

definition service_patch :: "'a ServiceMutable_scheme \<Rightarrow> service_cols \<Rightarrow> service_cols" where
  "service_patch i c =
     \<lparr>svc_type = set_opt (svm_Type i) (svc_type c), svc_cluster_ip = set_opt (svm_ClusterIp i) (svc_cluster_ip c),
      svc_selector = set_val (svm_Selector i) marshalLabels (svc_selector c), svc_ports = set_val (svm_Ports i) marshalPorts (svc_ports c),
      svc_load_balancer = set_val (svm_LoadBalancer i) marshalPorts (svc_load_balancer c),
      svc_labels = set_val (svm_Labels i) marshalLabels (svc_labels c)\<rparr>"

definition ingress_columns :: "'a IngressMutable_scheme \<Rightarrow> ingress_cols" where
  "ingress_columns i =
     \<lparr>igc_ingress_class_name = igm_IngressClassName i, igc_rules = marshalPorts (igm_Rules i), igc_tls = marshalPorts (igm_Tls i),
      igc_load_balancer = marshalPorts (igm_LoadBalancer i), igc_labels = marshalLabels (igm_Labels i)\<rparr>"

definition ingress_patch :: "'a IngressMutable_scheme \<Rightarrow> ingress_cols \<Rightarrow> ingress_cols" where
  "ingress_patch i c =
     \<lparr>igc_ingress_class_name = set_opt (igm_IngressClassName i) (igc_ingress_class_name c),
      igc_rules = set_val (igm_Rules i) marshalPorts (igc_rules c), igc_tls = set_val (igm_Tls i) marshalPorts (igc_tls c),
      igc_load_balancer = set_val (igm_LoadBalancer i) marshalPorts (igc_load_balancer c),
      igc_labels = set_val (igm_Labels i) marshalLabels (igc_labels c)\<rparr>"

definition pv_columns :: "'a PersistentVolumeMutable_scheme \<Rightarrow> pv_cols" where
  "pv_columns i =
     \<lparr>pvc_capacity = pvm_Capacity i, pvc_access_modes = accessModesValue (pvm_AccessModes i), pvc_reclaim_policy = pvm_ReclaimPolicy i,
      pvc_phase = pvm_Phase i, pvc_storage_class_name = pvm_StorageClassName i, pvc_csi_driver = pvm_CsiDriver i,
      pvc_volume_handle = pvm_VolumeHandle i, pvc_claim_ref_namespace = pvm_ClaimRefNamespace i,
      pvc_claim_ref_name = pvm_ClaimRefName i, pvc_labels = marshalLabels (pvm_Labels i)\<rparr>"

definition pv_patch :: "'a PersistentVolumeMutable_scheme \<Rightarrow> pv_cols \<Rightarrow> pv_cols" where
  "pv_patch i c =
     \<lparr>pvc_capacity = set_opt (pvm_Capacity i) (pvc_capacity c),
      pvc_access_modes = set_val (pvm_AccessModes i) accessModesValue (pvc_access_modes c),
      pvc_reclaim_policy = set_opt (pvm_ReclaimPolicy i) (pvc_reclaim_policy c), pvc_phase = set_opt (pvm_Phase i) (pvc_phase c),
      pvc_storage_class_name = set_opt (pvm_StorageClassName i) (pvc_storage_class_name c),
      pvc_csi_driver = set_opt (pvm_CsiDriver i) (pvc_csi_driver c), pvc_volume_handle = set_opt (pvm_VolumeHandle i) (pvc_volume_handle c),
      pvc_claim_ref_namespace = set_opt (pvm_ClaimRefNamespace i) (pvc_claim_ref_namespace c),
      pvc_claim_ref_name = set_opt (pvm_ClaimRefName i) (pvc_claim_ref_name c),
      pvc_labels = set_val (pvm_Labels i) marshalLabels (pvc_labels c)\<rparr>"

definition claim_columns :: "'a PersistentVolumeClaimMutable_scheme \<Rightarrow> claim_cols" where
  "claim_columns i =
     \<lparr>clc_phase = clm_Phase i, clc_storage_class_name = clm_StorageClassName i, clc_volume_name = clm_VolumeName i,
      clc_bound_volume_id = clm_BoundVolumeId i, clc_access_modes = accessModesValue (clm_AccessModes i),
      clc_requested_storage = clm_RequestedStorage i, clc_labels = marshalLabels (clm_Labels i)\<rparr>"

definition claim_patch :: "'a PersistentVolumeClaimMutable_scheme \<Rightarrow> claim_cols \<Rightarrow> claim_cols" where
  "claim_patch i c =
     \<lparr>clc_phase = set_opt (clm_Phase i) (clc_phase c), clc_storage_class_name = set_opt (clm_StorageClassName i) (clc_storage_class_name c),
      clc_volume_name = set_opt (clm_VolumeName i) (clc_volume_name c),
      clc_bound_volume_id = set_opt (clm_BoundVolumeId i) (clc_bound_volume_id c),
      clc_access_modes = set_val (clm_AccessModes i) accessModesValue (clc_access_modes c),
      clc_requested_storage = set_opt (clm_RequestedStorage i) (clc_requested_storage c),
      clc_labels = set_val (clm_Labels i) marshalLabels (clc_labels c)\<rparr>"

section \<open>Snapshots\<close>

definition clusterRowMapFromRow :: "cluster_row \<Rightarrow> row_map" where
  "clusterRowMapFromRow r =
     (let o' = en_obs r; c = en_cur r in
      [(''id'', UuidStr (en_id r)), (''name'', StrV (en_name r)), (''display_name'', ns (cc_display_name o')),
       (''environment'', ns (cc_environment o')), (''provider'', ns (cc_provider o')), (''region'', ns (cc_region o')),
       (''kubernetes_version'', ns (cc_kubernetes_version o')), (''api_endpoint'', ns (cc_api_endpoint o')),
       (''labels'', unmarshalJSONB (cc_labels o')), (''owner'', ns (cu_owner c)), (''criticality'', ns (cu_criticality c)),
       (''notes'', ns (cu_notes c)), (''runbook_url'', ns (cu_runbook_url c)), (''annotations'', unmarshalJSONB (cu_annotations c)),
       (''terminated_at'', TimePtr (en_terminated_at r)), (''created_at'', TimeV (en_created_at r)), (''updated_at'', TimeV (en_updated_at r))])"

definition namespaceRowMapFromRow :: "namespace_row \<Rightarrow> row_map" where
  "namespaceRowMapFromRow r =
     (let o' = en_obs r; c = en_cur r in
      [(''id'', UuidStr (en_id r)), (''cluster_id'', UuidV (en_parent r)), (''name'', StrV (en_name r)),
       (''display_name'', ns (nsc_display_name o')), (''phase'', ns (nsc_phase o')), (''labels'', unmarshalJSONB (nsc_labels o')),
       (''owner'', ns (cu_owner c)), (''criticality'', ns (cu_criticality c)),
       (''notes'', ns (cu_notes c)), (''runbook_url'', ns (cu_runbook_url c)), (''annotations'', unmarshalJSONB (cu_annotations c)),
       (''terminated_at'', TimePtr (en_terminated_at r)), (''created_at'', TimeV (en_created_at r)), (''updated_at'', TimeV (en_updated_at r))])"

definition nodeRowMapFromRow :: "node_row \<Rightarrow> row_map" where
  "nodeRowMapFromRow r =
     (let o' = en_obs r; t = noc_text o'; c = en_cur r in
      [(''id'', UuidStr (en_id r)), (''cluster_id'', UuidV (en_parent r)), (''name'', StrV (en_name r)),
       (''display_name'', ns (nt_display_name t)), (''role'', ns (nt_role t)), (''kubelet_version'', ns (nt_kubelet_version t)),
       (''kube_proxy_version'', ns (nt_kube_proxy_version t)), (''container_runtime_version'', ns (nt_container_runtime_version t)),
       (''os_image'', ns (nt_os_image t)), (''operating_system'', ns (nt_operating_system t)), (''kernel_version'', ns (nt_kernel_version t)),
       (''architecture'', ns (nt_architecture t)), (''internal_ip'', ns (nt_internal_ip t)), (''external_ip'', ns (nt_external_ip t)),
       (''pod_cidr'', ns (nt_pod_cidr t)), (''provider_id'', ns (nt_provider_id t)), (''instance_type'', ns (nt_instance_type t)),
       (''zone'', ns (nt_zone t)), (''capacity_cpu'', ns (nt_capacity_cpu t)), (''capacity_memory'', ns (nt_capacity_memory t)),
       (''capacity_pods'', ns (nt_capacity_pods t)), (''capacity_ephemeral_storage'', ns (nt_capacity_ephemeral_storage t)),
       (''allocatable_cpu'', ns (nt_allocatable_cpu t)), (''allocatable_memory'', ns (nt_allocatable_memory t)),
       (''allocatable_pods'', ns (nt_allocatable_pods t)), (''allocatable_ephemeral_storage'', ns (nt_allocatable_ephemeral_storage t)),
       (''conditions'', unmarshalJSONB (noc_conditions o')), (''taints'', unmarshalJSONB (noc_taints o')),
       (''unschedulable'', BoolV (noc_unschedulable o')), (''ready'', BoolV (noc_ready o')), (''labels'', unmarshalJSONB (noc_labels o')),
       (''owner'', ns (cu_owner c)), (''criticality'', ns (cu_criticality c)),
       (''notes'', ns (cu_notes c)), (''runbook_url'', ns (cu_runbook_url c)), (''annotations'', unmarshalJSONB (cu_annotations c)),
       (''hardware_model'', ns (cu_hardware_model c)),
       (''terminated_at'', TimePtr (en_terminated_at r)), (''created_at'', TimeV (en_created_at r)), (''updated_at'', TimeV (en_updated_at r))])"

definition workloadRowMapFromRow :: "workload_row \<Rightarrow> row_map" where
  "workloadRowMapFromRow r =
     (let o' = en_obs r in
      [(''id'', UuidStr (en_id r)), (''namespace_id'', UuidV (en_parent r)), (''kind'', StrV (fst (en_name r))), (''name'', StrV (snd (en_name r))),
       (''labels'', unmarshalJSONB (wc_labels o')), (''spec'', unmarshalJSONB (wc_spec o')), (''containers'', unmarshalJSONB (wc_containers o')),
       (''terminated_at'', TimePtr (en_terminated_at r)), (''created_at'', TimeV (en_created_at r)), (''updated_at'', TimeV (en_updated_at r)),
       (''application_id'', case en_cur r of None \<Rightarrow> NilV | Some a \<Rightarrow> UuidV a),
       (''replicas'', case wc_replicas o' of None \<Rightarrow> NilV | Some n \<Rightarrow> IntV n),
       (''ready_replicas'', case wc_ready_replicas o' of None \<Rightarrow> NilV | Some n \<Rightarrow> IntV n)])"

end
