(* ===== verification/Inventory.thy ===== *)
theory Inventory
  imports Inventory_Data
begin

text \<open>
  The inventory store: every method of \<^verbatim>\<open>pg_clusters.go\<close>, \<^verbatim>\<open>pg_namespaces.go\<close>, \<^verbatim>\<open>pg_nodes.go\<close>, \<^verbatim>\<open>pg_workloads.go\<close>,
  \<^verbatim>\<open>pg_pods.go\<close>, \<^verbatim>\<open>pg_services.go\<close>, \<^verbatim>\<open>pg_ingresses.go\<close>, \<^verbatim>\<open>pg_persistent_volumes.go\<close> and \<^verbatim>\<open>pg_persistent_volume_claims.go\<close> that
  changes a table, on a record of the tables. A transaction is one step; one that returns an error is rolled back. The
  constraints of the migrations are part of the statements: primary keys, unique indexes, foreign keys with \<^verbatim>\<open>ON DELETE CASCADE\<close>
  and \<^verbatim>\<open>ON DELETE SET NULL\<close>. The answers carry the row written; the names of parents that the queries join in are left out.
\<close>

section \<open>Statements on one table\<close>

datatype inventory_error = InvNotFound | InvConflict | InvOther

datatype UpsertOutcome = OutcomeNoChange | OutcomeInserted | OutcomeBusinessChanged

definition classifyOutcome :: "bool \<Rightarrow> bool \<Rightarrow> UpsertOutcome" where
  "classifyOutcome inserted businessChanged =
     (if inserted then OutcomeInserted else if businessChanged then OutcomeBusinessChanged else OutcomeNoChange)"

definition has_id :: "uuid \<Rightarrow> ('p, 'n, 'o, 'c) entity \<Rightarrow> bool" where
  "has_id i r \<longleftrightarrow> en_id r = i"

definition has_key :: "'p \<Rightarrow> 'n \<Rightarrow> ('p, 'n, 'o, 'c) entity \<Rightarrow> bool" where
  "has_key p n r \<longleftrightarrow> en_parent r = p \<and> en_name r = n"

definition live :: "('p, 'n, 'o, 'c) entity \<Rightarrow> bool" where
  "live r \<longleftrightarrow> en_terminated_at r = None"

definition new_row :: "uuid \<Rightarrow> 'p \<Rightarrow> 'n \<Rightarrow> 'o \<Rightarrow> 'c \<Rightarrow> time \<Rightarrow> ('p, 'n, 'o, 'c) entity" where
  "new_row i p n obs cur now =
     \<lparr>en_id = i, en_parent = p, en_name = n, en_obs = obs, en_cur = cur, en_created_at = now, en_updated_at = now,
      en_terminated_at = None\<rparr>"

text \<open>\<^verbatim>\<open>INSERT INTO t ... VALUES ...\<close>: a duplicate of the primary key or of the unique index is error 23505, and a missing parent
  (\<open>fk\<close> is false) is error 23503, checked at the end of the statement.\<close>

definition insert_row ::
    "bool \<Rightarrow> ('p, 'n, 'o, 'c) entity \<Rightarrow> ('p, 'n, 'o, 'c) entity list \<Rightarrow> inventory_error + ('p, 'n, 'o, 'c) entity list" where
  "insert_row fk r t =
     (if list_ex (has_id (en_id r)) t \<or> list_ex (has_key (en_parent r) (en_name r)) t then Inl InvConflict
      else if \<not> fk then Inl InvNotFound
      else Inr (t @ [r]))"

text \<open>\<^verbatim>\<open>INSERT ... ON CONFLICT (parent, name) DO UPDATE SET ...\<close> with the flags \<^verbatim>\<open>inserted\<close> and \<^verbatim>\<open>business_changed\<close> of the
  surrounding query. An existing row gets the collector's columns, is restored, and keeps its id, its curated columns and
  \<^verbatim>\<open>created_at\<close>. A new row takes \<open>cur\<close>.\<close>

definition overwrite :: "'o \<Rightarrow> time \<Rightarrow> ('p, 'n, 'o, 'c) entity \<Rightarrow> ('p, 'n, 'o, 'c) entity" where
  "overwrite obs now r = r\<lparr>en_obs := obs, en_terminated_at := None, en_updated_at := now\<rparr>"

definition upsert_row ::
    "bool \<Rightarrow> ('p, 'n, 'o, 'c) entity \<Rightarrow> ('p, 'n, 'o, 'c) entity list \<Rightarrow>
       inventory_error + (('p, 'n, 'o, 'c) entity \<times> bool \<times> bool \<times> ('p, 'n, 'o, 'c) entity list)" where
  "upsert_row fk new t =
     (case find (has_key (en_parent new) (en_name new)) t of
        None \<Rightarrow>
          if list_ex (has_id (en_id new)) t then Inl InvOther
          else if \<not> fk then Inl InvNotFound
          else Inr (new, True, False, t @ [new])
      | Some old \<Rightarrow>
          if \<not> fk then Inl InvNotFound
          else
            let u = overwrite (en_obs new) (en_updated_at new) old in
            Inr (u, False, en_obs old \<noteq> en_obs u \<or> en_terminated_at old \<noteq> en_terminated_at u,
                 map (\<lambda>r. if has_key (en_parent new) (en_name new) r then overwrite (en_obs new) (en_updated_at new) r else r) t))"

text \<open>\<^verbatim>\<open>UPDATE t SET ... WHERE id = $1\<close>: \<open>Inl\<close> when no row is affected.\<close>

definition update_row ::
    "uuid \<Rightarrow> (('p, 'n, 'o, 'c) entity \<Rightarrow> ('p, 'n, 'o, 'c) entity) \<Rightarrow> ('p, 'n, 'o, 'c) entity list \<Rightarrow>
       inventory_error + ('p, 'n, 'o, 'c) entity list" where
  "update_row i f t =
     (if list_ex (has_id i) t then Inr (map (\<lambda>r. if has_id i r then f r else r) t) else Inl InvNotFound)"

definition patch_entity :: "('o \<Rightarrow> 'o) \<Rightarrow> ('c \<Rightarrow> 'c) \<Rightarrow> time \<Rightarrow> ('p, 'n, 'o, 'c) entity \<Rightarrow> ('p, 'n, 'o, 'c) entity" where
  "patch_entity fo fc now r = r\<lparr>en_obs := fo (en_obs r), en_cur := fc (en_cur r), en_updated_at := now\<rparr>"

text \<open>\<^verbatim>\<open>UPDATE t SET terminated_at = NOW(), updated_at = NOW() WHERE ... AND terminated_at IS NULL\<close>.\<close>

definition soft_delete ::
    "time \<Rightarrow> (('p, 'n, 'o, 'c) entity \<Rightarrow> bool) \<Rightarrow> ('p, 'n, 'o, 'c) entity list \<Rightarrow> ('p, 'n, 'o, 'c) entity list" where
  "soft_delete now P t = map (\<lambda>r. if P r \<and> live r then r\<lparr>en_terminated_at := Some now, en_updated_at := now\<rparr> else r) t"

definition delete_rows :: "(('p, 'n, 'o, 'c) entity \<Rightarrow> bool) \<Rightarrow> ('p, 'n, 'o, 'c) entity list \<Rightarrow> ('p, 'n, 'o, 'c) entity list" where
  "delete_rows P t = filter (\<lambda>r. \<not> P r) t"

definition ids_where :: "(('p, 'n, 'o, 'c) entity \<Rightarrow> bool) \<Rightarrow> ('p, 'n, 'o, 'c) entity list \<Rightarrow> uuid list" where
  "ids_where P t = map en_id (filter P t)"

text \<open>\<^verbatim>\<open>parent = $1 AND name <> ALL(keep)\<close>.\<close>

definition not_kept :: "'p \<Rightarrow> 'n list \<Rightarrow> ('p, 'n, 'o, 'c) entity \<Rightarrow> bool" where
  "not_kept p keep r \<longleftrightarrow> en_parent r = p \<and> en_name r \<notin> set keep"

definition in_parents :: "uuid list \<Rightarrow> (uuid, 'n, 'o, 'c) entity \<Rightarrow> bool" where
  "in_parents ps r \<longleftrightarrow> en_parent r \<in> set ps"

section \<open>The tables\<close>

record inventory =
  inv_clusters :: "cluster_row list"
  inv_namespaces :: "namespace_row list"
  inv_nodes :: "node_row list"
  inv_pvs :: "pv_row list"
  inv_workloads :: "workload_row list"
  inv_pods :: "pod_row list"
  inv_services :: "service_row list"
  inv_ingresses :: "ingress_row list"
  inv_claims :: "claim_row list"
  inv_applications :: "uuid list"
  inv_history :: history
  inv_time_travel :: "bool option"

text \<open>What a call finds: the clock of the process and of the database, the ids of \<^verbatim>\<open>uuid.New\<close> for the row and for history rows
  (indexed by the number of history rows so far), and the actor of the request.\<close>

record inv_env =
  ie_now :: time
  ie_NOW :: time
  ie_id :: uuid
  ie_history_id :: "nat \<Rightarrow> uuid"
  ie_actor :: Actor

definition exists_id :: "('p, 'n, 'o, 'c) entity list \<Rightarrow> uuid \<Rightarrow> bool" where
  "exists_id t i \<longleftrightarrow> list_ex (has_id i) t"

definition opt_exists :: "('p, 'n, 'o, 'c) entity list \<Rightarrow> uuid option \<Rightarrow> bool" where
  "opt_exists t i \<longleftrightarrow> (case i of None \<Rightarrow> True | Some j \<Rightarrow> exists_id t j)"

definition clusterRowMap :: "inventory \<Rightarrow> uuid \<Rightarrow> row_map option" where
  "clusterRowMap db i = map_option clusterRowMapFromRow (find (has_id i) (inv_clusters db))"

definition namespaceRowMap :: "inventory \<Rightarrow> uuid \<Rightarrow> row_map option" where
  "namespaceRowMap db i = map_option namespaceRowMapFromRow (find (has_id i) (inv_namespaces db))"

definition nodeRowMap :: "inventory \<Rightarrow> uuid \<Rightarrow> row_map option" where
  "nodeRowMap db i = map_option nodeRowMapFromRow (find (has_id i) (inv_nodes db))"

definition workloadRowMap :: "inventory \<Rightarrow> uuid \<Rightarrow> row_map option" where
  "workloadRowMap db i = map_option workloadRowMapFromRow (find (has_id i) (inv_workloads db))"

text \<open>\<^verbatim>\<open>if snap, err := xRowMapNoLock(...); err == nil { _ = timetravel.Capture(...) }\<close>.\<close>

definition capture ::
    "inv_env \<Rightarrow> string \<Rightarrow> uuid \<Rightarrow> row_map option \<Rightarrow> row_map option \<Rightarrow> string \<Rightarrow> inventory \<Rightarrow> inventory" where
  "capture env kind i prev snap changeType db =
     (case snap of
        None \<Rightarrow> db
      | Some s \<Rightarrow> db\<lparr>inv_history := snd (Capture (inv_time_travel db) (ie_now env) (ie_history_id env (length (inv_history db)))
                                     kind i prev s changeType (ie_actor env) (inv_history db))\<rparr>)"

text \<open>Soft-delete snapshots of a list of rows, in order.\<close>

definition capture_ids ::
    "inv_env \<Rightarrow> string \<Rightarrow> (inventory \<Rightarrow> uuid \<Rightarrow> row_map option) \<Rightarrow> uuid list \<Rightarrow> inventory \<Rightarrow> inventory" where
  "capture_ids env kind rowMap ids db = fold (\<lambda>i d. capture env kind i None (rowMap d i) ''soft_delete'' d) ids db"

text \<open>The change type of an upsert, from the row found before it.\<close>

definition upsert_changeType :: "('p, 'n, 'o, 'c) entity option \<Rightarrow> string" where
  "upsert_changeType prev =
     (case prev of
        None \<Rightarrow> ''create''
      | Some r \<Rightarrow> if en_terminated_at r \<noteq> None then ''restore'' else ''update'')"

section \<open>Deletes and their cascades\<close>

text \<open>Deleting workloads sets \<^verbatim>\<open>pods.workload_id\<close> to NULL, deleting volumes sets \<^verbatim>\<open>persistent_volume_claims.bound_volume_id\<close> to NULL;
  deleting namespaces deletes what is in them, deleting clusters deletes their namespaces, nodes and volumes.\<close>

definition drop_ref :: "uuid list \<Rightarrow> uuid option \<Rightarrow> uuid option" where
  "drop_ref gone i = (case i of None \<Rightarrow> None | Some j \<Rightarrow> if j \<in> set gone then None else Some j)"

definition unlink_pods :: "uuid list \<Rightarrow> pod_row list \<Rightarrow> pod_row list" where
  "unlink_pods gone t = map (\<lambda>r. r\<lparr>en_obs := (en_obs r)\<lparr>poc_workload_id := drop_ref gone (poc_workload_id (en_obs r))\<rparr>\<rparr>) t"

definition unlink_claims :: "uuid list \<Rightarrow> claim_row list \<Rightarrow> claim_row list" where
  "unlink_claims gone t = map (\<lambda>r. r\<lparr>en_obs := (en_obs r)\<lparr>clc_bound_volume_id := drop_ref gone (clc_bound_volume_id (en_obs r))\<rparr>\<rparr>) t"

definition delete_workloads :: "(workload_row \<Rightarrow> bool) \<Rightarrow> inventory \<Rightarrow> inventory" where
  "delete_workloads P db = db
     \<lparr>inv_workloads := delete_rows P (inv_workloads db), inv_pods := unlink_pods (ids_where P (inv_workloads db)) (inv_pods db)\<rparr>"

definition delete_pvs :: "(pv_row \<Rightarrow> bool) \<Rightarrow> inventory \<Rightarrow> inventory" where
  "delete_pvs P db = db
     \<lparr>inv_pvs := delete_rows P (inv_pvs db), inv_claims := unlink_claims (ids_where P (inv_pvs db)) (inv_claims db)\<rparr>"

definition delete_unhistoried :: "uuid list \<Rightarrow> inventory \<Rightarrow> inventory" where
  "delete_unhistoried nss db = db
     \<lparr>inv_pods := delete_rows (in_parents nss) (inv_pods db), inv_services := delete_rows (in_parents nss) (inv_services db),
      inv_ingresses := delete_rows (in_parents nss) (inv_ingresses db), inv_claims := delete_rows (in_parents nss) (inv_claims db)\<rparr>"

definition delete_namespaces :: "(namespace_row \<Rightarrow> bool) \<Rightarrow> inventory \<Rightarrow> inventory" where
  "delete_namespaces P db =
     (let gone = ids_where P (inv_namespaces db) in
      delete_workloads (in_parents gone) (delete_unhistoried gone (db\<lparr>inv_namespaces := delete_rows P (inv_namespaces db)\<rparr>)))"

definition DeleteCluster :: "uuid \<Rightarrow> inventory \<Rightarrow> (inventory_error + unit) \<times> inventory" where
  "DeleteCluster i db =
     (if \<not> exists_id (inv_clusters db) i then (Inl InvNotFound, db)
      else
        let db1 = db\<lparr>inv_clusters := delete_rows (has_id i) (inv_clusters db), inv_nodes := delete_rows (in_parents [i]) (inv_nodes db)\<rparr> in
        (Inr (), delete_pvs (in_parents [i]) (delete_namespaces (in_parents [i]) db1)))"

definition DeleteNamespace :: "uuid \<Rightarrow> inventory \<Rightarrow> (inventory_error + unit) \<times> inventory" where
  "DeleteNamespace i db =
     (if \<not> exists_id (inv_namespaces db) i then (Inl InvNotFound, db) else (Inr (), delete_namespaces (has_id i) db))"

definition DeleteNode :: "uuid \<Rightarrow> inventory \<Rightarrow> (inventory_error + unit) \<times> inventory" where
  "DeleteNode i db =
     (if \<not> exists_id (inv_nodes db) i then (Inl InvNotFound, db)
      else (Inr (), db\<lparr>inv_nodes := delete_rows (has_id i) (inv_nodes db)\<rparr>))"

definition DeleteWorkload :: "uuid \<Rightarrow> inventory \<Rightarrow> (inventory_error + unit) \<times> inventory" where
  "DeleteWorkload i db =
     (if \<not> exists_id (inv_workloads db) i then (Inl InvNotFound, db) else (Inr (), delete_workloads (has_id i) db))"

definition DeletePod :: "uuid \<Rightarrow> inventory \<Rightarrow> (inventory_error + unit) \<times> inventory" where
  "DeletePod i db =
     (if \<not> exists_id (inv_pods db) i then (Inl InvNotFound, db)
      else (Inr (), db\<lparr>inv_pods := delete_rows (has_id i) (inv_pods db)\<rparr>))"

definition DeleteService :: "uuid \<Rightarrow> inventory \<Rightarrow> (inventory_error + unit) \<times> inventory" where
  "DeleteService i db =
     (if \<not> exists_id (inv_services db) i then (Inl InvNotFound, db)
      else (Inr (), db\<lparr>inv_services := delete_rows (has_id i) (inv_services db)\<rparr>))"

definition DeleteIngress :: "uuid \<Rightarrow> inventory \<Rightarrow> (inventory_error + unit) \<times> inventory" where
  "DeleteIngress i db =
     (if \<not> exists_id (inv_ingresses db) i then (Inl InvNotFound, db)
      else (Inr (), db\<lparr>inv_ingresses := delete_rows (has_id i) (inv_ingresses db)\<rparr>))"

definition DeletePersistentVolume :: "uuid \<Rightarrow> inventory \<Rightarrow> (inventory_error + unit) \<times> inventory" where
  "DeletePersistentVolume i db =
     (if \<not> exists_id (inv_pvs db) i then (Inl InvNotFound, db) else (Inr (), delete_pvs (has_id i) db))"

definition DeletePersistentVolumeClaim :: "uuid \<Rightarrow> inventory \<Rightarrow> (inventory_error + unit) \<times> inventory" where
  "DeletePersistentVolumeClaim i db =
     (if \<not> exists_id (inv_claims db) i then (Inl InvNotFound, db)
      else (Inr (), db\<lparr>inv_claims := delete_rows (has_id i) (inv_claims db)\<rparr>))"

section \<open>Clusters\<close>

definition touch_cluster :: "uuid \<Rightarrow> (cluster_row \<Rightarrow> cluster_row) \<Rightarrow> inventory \<Rightarrow> inventory" where
  "touch_cluster i f db = db\<lparr>inv_clusters := map (\<lambda>r. if has_id i r then f r else r) (inv_clusters db)\<rparr>"

definition GetCluster :: "inventory \<Rightarrow> uuid \<Rightarrow> inventory_error + cluster_row" where
  "GetCluster db i = (case find (has_id i) (inv_clusters db) of None \<Rightarrow> Inl InvNotFound | Some r \<Rightarrow> Inr r)"

definition GetClusterByName :: "inventory \<Rightarrow> string \<Rightarrow> inventory_error + cluster_row" where
  "GetClusterByName db n = (case find (has_key () n) (inv_clusters db) of None \<Rightarrow> Inl InvNotFound | Some r \<Rightarrow> Inr r)"

definition EnsureCluster :: "inv_env \<Rightarrow> ClusterCreate \<Rightarrow> inventory \<Rightarrow> (inventory_error + cluster_row \<times> bool) \<times> inventory" where
  "EnsureCluster env i db =
     (case find (has_key () (cm_Name i)) (inv_clusters db) of
        Some prev \<Rightarrow>
          if en_terminated_at prev \<noteq> None then
            let db1 = touch_cluster (en_id prev)
                  (\<lambda>r. r\<lparr>en_terminated_at := None, en_updated_at := ie_now env, en_obs := (en_obs r)\<lparr>cc_last_seen_at := ie_now env\<rparr>\<rparr>) db;
                db2 = capture env KindCluster (en_id prev) None (clusterRowMap db1 (en_id prev)) ''restore'' db1 in
            (map_sum id (\<lambda>r. (r, False)) (GetClusterByName db2 (cm_Name i)), db2)
          else
            let db1 = touch_cluster (en_id prev) (\<lambda>r. r\<lparr>en_obs := (en_obs r)\<lparr>cc_last_seen_at := ie_now env\<rparr>\<rparr>) db in
            (map_sum id (\<lambda>r. (r, False)) (GetClusterByName db1 (cm_Name i)), db1)
      | None \<Rightarrow>
          let new = new_row (ie_id env) () (cm_Name i) (cluster_columns i (ie_now env)) (curated_columns (cm_curated i)) (ie_now env) in
          if exists_id (inv_clusters db) (ie_id env) then (Inl InvOther, db)
          else
            let db1 = db\<lparr>inv_clusters := inv_clusters db @ [new]\<rparr> in
            (Inr (new, True), capture env KindCluster (ie_id env) None (clusterRowMap db1 (ie_id env)) ''create'' db1))"

definition UpdateCluster :: "inv_env \<Rightarrow> uuid \<Rightarrow> ClusterMutable \<Rightarrow> inventory \<Rightarrow> (inventory_error + cluster_row) \<times> inventory" where
  "UpdateCluster env i p db =
     (case clusterRowMap db i of
        None \<Rightarrow> (Inl InvNotFound, db)
      | Some prev \<Rightarrow>
          (case update_row i (patch_entity (cluster_patch p) (curated_patch (cm_curated p)) (ie_now env)) (inv_clusters db) of
             Inl e \<Rightarrow> (Inl e, db)
           | Inr t \<Rightarrow>
               let db1 = db\<lparr>inv_clusters := t\<rparr>;
                   db2 = capture env KindCluster i (Some prev) (clusterRowMap db1 i) ''update'' db1 in
               (GetCluster db2 i, db2)))"

definition SoftDeleteCluster :: "inv_env \<Rightarrow> uuid \<Rightarrow> inventory \<Rightarrow> (inventory_error + unit) \<times> inventory" where
  "SoftDeleteCluster env i db =
     (let nss = ids_where (in_parents [i]) (inv_namespaces db);
          wlIDs = ids_where (\<lambda>r. in_parents nss r \<and> live r) (inv_workloads db);
          nsIDs = ids_where (\<lambda>r. in_parents [i] r \<and> live r) (inv_namespaces db);
          nodeIDs = ids_where (\<lambda>r. in_parents [i] r \<and> live r) (inv_nodes db);
          db1 = delete_pvs (in_parents [i]) (delete_unhistoried nss db);
          db2 = db1\<lparr>inv_workloads := soft_delete (ie_NOW env) (in_parents nss) (inv_workloads db1),
                    inv_namespaces := soft_delete (ie_NOW env) (in_parents [i]) (inv_namespaces db1),
                    inv_nodes := soft_delete (ie_NOW env) (in_parents [i]) (inv_nodes db1),
                    inv_clusters := soft_delete (ie_NOW env) (has_id i) (inv_clusters db1)\<rparr>;
          db3 = capture_ids env KindWorkload workloadRowMap wlIDs db2;
          db4 = capture_ids env KindNamespace namespaceRowMap nsIDs db3;
          db5 = capture_ids env KindNode nodeRowMap nodeIDs db4;
          db6 = capture_ids env KindCluster clusterRowMap [i] db5 in
      if \<not> exists_id (inv_clusters db) i then (Inl InvNotFound, db) else (Inr (), db6))"

section \<open>Namespaces\<close>

definition GetNamespace :: "inventory \<Rightarrow> uuid \<Rightarrow> inventory_error + namespace_row" where
  "GetNamespace db i = (case find (has_id i) (inv_namespaces db) of None \<Rightarrow> Inl InvNotFound | Some r \<Rightarrow> Inr r)"

definition CreateNamespace :: "inv_env \<Rightarrow> NamespaceCreate \<Rightarrow> inventory \<Rightarrow> (inventory_error + namespace_row) \<times> inventory" where
  "CreateNamespace env i db =
     (let new = new_row (ie_id env) (nm_ClusterId i) (nm_Name i) (namespace_columns i) (curated_columns (nm_curated i)) (ie_now env) in
      case insert_row (exists_id (inv_clusters db) (nm_ClusterId i)) new (inv_namespaces db) of
        Inl e \<Rightarrow> (Inl e, db)
      | Inr t \<Rightarrow> (Inr new, db\<lparr>inv_namespaces := t\<rparr>))"

definition UpdateNamespace :: "inv_env \<Rightarrow> uuid \<Rightarrow> NamespaceMutable \<Rightarrow> inventory \<Rightarrow> (inventory_error + namespace_row) \<times> inventory" where
  "UpdateNamespace env i p db =
     (let prev = namespaceRowMap db i in
      case update_row i (patch_entity (namespace_patch p) (curated_patch (nm_curated p)) (ie_now env)) (inv_namespaces db) of
        Inl e \<Rightarrow> (Inl e, db)
      | Inr t \<Rightarrow>
          let db1 = db\<lparr>inv_namespaces := t\<rparr>;
              db2 = (if prev = None then db1 else capture env KindNamespace i prev (namespaceRowMap db1 i) ''update'' db1) in
          (GetNamespace db2 i, db2))"

definition UpsertNamespace ::
    "inv_env \<Rightarrow> NamespaceCreate \<Rightarrow> inventory \<Rightarrow> (inventory_error + namespace_row \<times> UpsertOutcome) \<times> inventory" where
  "UpsertNamespace env i db =
     (let prev = find (has_key (nm_ClusterId i) (nm_Name i)) (inv_namespaces db);
          new = new_row (ie_id env) (nm_ClusterId i) (nm_Name i) (namespace_columns i) curated_default (ie_now env) in
      case upsert_row (exists_id (inv_clusters db) (nm_ClusterId i)) new (inv_namespaces db) of
        Inl e \<Rightarrow> (Inl e, db)
      | Inr (r, inserted, businessChanged, t) \<Rightarrow>
          let db1 = db\<lparr>inv_namespaces := t\<rparr> in
          (Inr (r, classifyOutcome inserted businessChanged),
           capture env KindNamespace (en_id r) None (namespaceRowMap db1 (en_id r)) (upsert_changeType prev) db1))"

definition SoftDeleteNamespace :: "inv_env \<Rightarrow> uuid \<Rightarrow> inventory \<Rightarrow> (inventory_error + unit) \<times> inventory" where
  "SoftDeleteNamespace env i db =
     (let wlIDs = ids_where (\<lambda>r. in_parents [i] r \<and> live r) (inv_workloads db);
          db1 = delete_unhistoried [i] db;
          db2 = db1\<lparr>inv_workloads := soft_delete (ie_NOW env) (in_parents [i]) (inv_workloads db1),
                    inv_namespaces := soft_delete (ie_NOW env) (has_id i) (inv_namespaces db1)\<rparr>;
          db3 = capture_ids env KindWorkload workloadRowMap wlIDs db2;
          db4 = capture_ids env KindNamespace namespaceRowMap [i] db3 in
      if \<not> exists_id (inv_namespaces db) i then (Inl InvNotFound, db) else (Inr (), db4))"

text \<open>The loop over the namespaces to delete clears each one and remembers its live workloads.\<close>

definition clear_namespace :: "inv_env \<Rightarrow> uuid \<Rightarrow> (uuid \<times> uuid list) list \<times> inventory \<Rightarrow> (uuid \<times> uuid list) list \<times> inventory" where
  "clear_namespace env nsID = (\<lambda>(wlIDsByNS, db).
     (let wlIDs = ids_where (\<lambda>r. in_parents [nsID] r \<and> live r) (inv_workloads db);
          db1 = delete_unhistoried [nsID] db in
      (wlIDsByNS @ [(nsID, wlIDs)],
       db1\<lparr>inv_workloads := soft_delete (ie_NOW env) (in_parents [nsID]) (inv_workloads db1)\<rparr>)))"

definition DeleteNamespacesNotIn :: "inv_env \<Rightarrow> uuid \<Rightarrow> string list \<Rightarrow> inventory \<Rightarrow> (inventory_error + nat) \<times> inventory" where
  "DeleteNamespacesNotIn env clusterID keepNames db =
     (let toDelete = ids_where (\<lambda>r. not_kept clusterID keepNames r \<and> live r) (inv_namespaces db);
          (wlIDsByNS, db1) = fold (clear_namespace env) toDelete ([], db);
          affected = length (filter (\<lambda>r. not_kept clusterID keepNames r \<and> live r) (inv_namespaces db1));
          db2 = db1\<lparr>inv_namespaces := soft_delete (ie_NOW env) (not_kept clusterID keepNames) (inv_namespaces db1)\<rparr>;
          db3 = fold (\<lambda>(nsID, wlIDs) d.
                  capture_ids env KindNamespace namespaceRowMap [nsID] (capture_ids env KindWorkload workloadRowMap wlIDs d)) wlIDsByNS db2 in
      (Inr affected, db3))"

section \<open>Nodes\<close>

definition GetNode :: "inventory \<Rightarrow> uuid \<Rightarrow> inventory_error + node_row" where
  "GetNode db i = (case find (has_id i) (inv_nodes db) of None \<Rightarrow> Inl InvNotFound | Some r \<Rightarrow> Inr r)"

definition nodeInsertValues :: "inv_env \<Rightarrow> NodeCreate \<Rightarrow> node_row" where
  "nodeInsertValues env i =
     new_row (ie_id env) (om_ClusterId i) (om_Name i) (node_columns i) (node_curated_columns i) (ie_now env)"

definition CreateNode :: "inv_env \<Rightarrow> NodeCreate \<Rightarrow> inventory \<Rightarrow> (inventory_error + node_row) \<times> inventory" where
  "CreateNode env i db =
     (case insert_row (exists_id (inv_clusters db) (om_ClusterId i)) (nodeInsertValues env i) (inv_nodes db) of
        Inl e \<Rightarrow> (Inl e, db)
      | Inr t \<Rightarrow> let db1 = db\<lparr>inv_nodes := t\<rparr> in (GetNode db1 (ie_id env), db1))"

definition UpdateNode :: "inv_env \<Rightarrow> uuid \<Rightarrow> NodeMutable \<Rightarrow> inventory \<Rightarrow> (inventory_error + node_row) \<times> inventory" where
  "UpdateNode env i p db =
     (case nodeRowMap db i of
        None \<Rightarrow> (Inl InvNotFound, db)
      | Some prev \<Rightarrow>
          (case update_row i (patch_entity (buildNodeUpdateSets p) (node_curated_patch p) (ie_now env)) (inv_nodes db) of
             Inl e \<Rightarrow> (Inl e, db)
           | Inr t \<Rightarrow>
               let db1 = db\<lparr>inv_nodes := t\<rparr>;
                   db2 = capture env KindNode i (Some prev) (nodeRowMap db1 i) ''update'' db1 in
               (GetNode db2 i, db2)))"

definition detectNodeUpsertChangeType :: "inventory \<Rightarrow> uuid \<Rightarrow> string \<Rightarrow> string" where
  "detectNodeUpsertChangeType db clusterID nm = upsert_changeType (find (has_key clusterID nm) (inv_nodes db))"

definition UpsertNode :: "inv_env \<Rightarrow> NodeCreate \<Rightarrow> inventory \<Rightarrow> (inventory_error + node_row \<times> UpsertOutcome) \<times> inventory" where
  "UpsertNode env i db =
     (let changeType = detectNodeUpsertChangeType db (om_ClusterId i) (om_Name i) in
      case upsert_row (exists_id (inv_clusters db) (om_ClusterId i)) (nodeInsertValues env i) (inv_nodes db) of
        Inl e \<Rightarrow> (Inl e, db)
      | Inr (r, inserted, businessChanged, t) \<Rightarrow>
          let db1 = db\<lparr>inv_nodes := t\<rparr> in
          (Inr (r, classifyOutcome inserted businessChanged),
           capture env KindNode (en_id r) None (nodeRowMap db1 (en_id r)) changeType db1))"

definition DeleteNodesNotIn :: "inv_env \<Rightarrow> uuid \<Rightarrow> string list \<Rightarrow> inventory \<Rightarrow> (inventory_error + nat) \<times> inventory" where
  "DeleteNodesNotIn env clusterID keepNames db =
     (let toDelete = ids_where (\<lambda>r. not_kept clusterID keepNames r \<and> live r) (inv_nodes db);
          db1 = db\<lparr>inv_nodes := soft_delete (ie_NOW env) (not_kept clusterID keepNames) (inv_nodes db)\<rparr> in
      (Inr (length toDelete), capture_ids env KindNode nodeRowMap toDelete db1))"

section \<open>Workloads\<close>

definition GetWorkload :: "inventory \<Rightarrow> uuid \<Rightarrow> inventory_error + workload_row" where
  "GetWorkload db i = (case find (has_id i) (inv_workloads db) of None \<Rightarrow> Inl InvNotFound | Some r \<Rightarrow> Inr r)"

definition CreateWorkload :: "inv_env \<Rightarrow> WorkloadCreate \<Rightarrow> inventory \<Rightarrow> (inventory_error + workload_row) \<times> inventory" where
  "CreateWorkload env i db =
     (let new = new_row (ie_id env) (wm_NamespaceId i) (wm_Kind i, wm_Name i) (workload_columns i) None (ie_now env) in
      case insert_row (exists_id (inv_namespaces db) (wm_NamespaceId i)) new (inv_workloads db) of
        Inl e \<Rightarrow> (Inl e, db)
      | Inr t \<Rightarrow> (Inr new, db\<lparr>inv_workloads := t\<rparr>))"

definition UpdateWorkload ::
    "inv_env \<Rightarrow> uuid \<Rightarrow> WorkloadUpdate \<Rightarrow> bool \<Rightarrow> inventory \<Rightarrow> (inventory_error + workload_row) \<times> inventory" where
  "UpdateWorkload env i p clearApplication db =
     (let prev = workloadRowMap db i;
          app = (\<lambda>old. case wm_ApplicationId p of Some a \<Rightarrow> Some a | None \<Rightarrow> if clearApplication then None else old) in
      case update_row i (patch_entity (workload_patch p) app (ie_now env)) (inv_workloads db) of
        Inl e \<Rightarrow> (Inl e, db)
      | Inr t \<Rightarrow>
          if (case wm_ApplicationId p of None \<Rightarrow> False | Some a \<Rightarrow> a \<notin> set (inv_applications db)) then (Inl InvOther, db)
          else
            let db1 = db\<lparr>inv_workloads := t\<rparr>;
                db2 = (if prev = None then db1 else capture env KindWorkload i prev (workloadRowMap db1 i) ''update'' db1) in
            (GetWorkload db2 i, db2))"

definition UpsertWorkload ::
    "inv_env \<Rightarrow> WorkloadCreate \<Rightarrow> inventory \<Rightarrow> (inventory_error + workload_row \<times> UpsertOutcome) \<times> inventory" where
  "UpsertWorkload env i db =
     (let prev = find (has_key (wm_NamespaceId i) (wm_Kind i, wm_Name i)) (inv_workloads db);
          new = new_row (ie_id env) (wm_NamespaceId i) (wm_Kind i, wm_Name i) (workload_columns i) None (ie_now env) in
      case upsert_row (exists_id (inv_namespaces db) (wm_NamespaceId i)) new (inv_workloads db) of
        Inl e \<Rightarrow> (Inl e, db)
      | Inr (r, inserted, businessChanged, t) \<Rightarrow>
          let db1 = db\<lparr>inv_workloads := t\<rparr> in
          (Inr (r, classifyOutcome inserted businessChanged),
           capture env KindWorkload (en_id r) None (workloadRowMap db1 (en_id r)) (upsert_changeType prev) db1))"

text \<open>\<^verbatim>\<open>UNNEST\<close> pairs the two arrays and pads the shorter one with NULL. A row is deleted when \<^verbatim>\<open>NOT IN\<close> is true; a
  padded pair whose other component equals that of the row makes it unknown.\<close>

definition unnest_kept :: "string list \<Rightarrow> string list \<Rightarrow> string \<times> string \<Rightarrow> bool" where
  "unnest_kept ks ms = (\<lambda>(k, n).
     (k, n) \<in> set (zip ks ms) \<or> k \<in> set (drop (length ms) ks) \<or> n \<in> set (drop (length ks) ms))"

definition workload_not_kept :: "uuid \<Rightarrow> string list \<Rightarrow> string list \<Rightarrow> workload_row \<Rightarrow> bool" where
  "workload_not_kept p ks ms r \<longleftrightarrow> en_parent r = p \<and> \<not> unnest_kept ks ms (en_name r)"

definition DeleteWorkloadsNotIn :: "inv_env \<Rightarrow> uuid \<Rightarrow> string list \<Rightarrow> string list \<Rightarrow> inventory \<Rightarrow> (inventory_error + nat) \<times> inventory" where
  "DeleteWorkloadsNotIn env namespaceID keepKinds keepNames db =
     (let toDelete = ids_where (\<lambda>r. workload_not_kept namespaceID keepKinds keepNames r \<and> live r) (inv_workloads db);
          db1 = db\<lparr>inv_workloads := soft_delete (ie_NOW env) (workload_not_kept namespaceID keepKinds keepNames) (inv_workloads db)\<rparr> in
      (Inr (length toDelete), capture_ids env KindWorkload workloadRowMap toDelete db1))"

section \<open>Pods\<close>

definition GetPod :: "inventory \<Rightarrow> uuid \<Rightarrow> inventory_error + pod_row" where
  "GetPod db i = (case find (has_id i) (inv_pods db) of None \<Rightarrow> Inl InvNotFound | Some r \<Rightarrow> Inr r)"

definition pod_fk :: "PodCreate \<Rightarrow> inventory \<Rightarrow> bool" where
  "pod_fk i db \<longleftrightarrow> exists_id (inv_namespaces db) (pom_NamespaceId i) \<and> opt_exists (inv_workloads db) (pom_WorkloadId i)"

definition pod_new :: "inv_env \<Rightarrow> PodCreate \<Rightarrow> pod_row" where
  "pod_new env i = new_row (ie_id env) (pom_NamespaceId i) (pom_Name i) (pod_columns i) () (ie_now env)"

definition CreatePod :: "inv_env \<Rightarrow> PodCreate \<Rightarrow> inventory \<Rightarrow> (inventory_error + pod_row) \<times> inventory" where
  "CreatePod env i db =
     (case insert_row (pod_fk i db) (pod_new env i) (inv_pods db) of
        Inl e \<Rightarrow> (Inl e, db)
      | Inr t \<Rightarrow> (Inr (pod_new env i), db\<lparr>inv_pods := t\<rparr>))"

definition UpdatePod :: "inv_env \<Rightarrow> uuid \<Rightarrow> PodMutable \<Rightarrow> inventory \<Rightarrow> (inventory_error + pod_row) \<times> inventory" where
  "UpdatePod env i p db =
     (case update_row i (patch_entity (pod_patch p) id (ie_now env)) (inv_pods db) of
        Inl e \<Rightarrow> (Inl e, db)
      | Inr t \<Rightarrow>
          if \<not> opt_exists (inv_workloads db) (pom_WorkloadId p) then (Inl InvNotFound, db)
          else let db1 = db\<lparr>inv_pods := t\<rparr> in (GetPod db1 i, db1))"

definition UpsertPod :: "inv_env \<Rightarrow> PodCreate \<Rightarrow> inventory \<Rightarrow> (inventory_error + pod_row \<times> UpsertOutcome) \<times> inventory" where
  "UpsertPod env i db =
     (case upsert_row (pod_fk i db) (pod_new env i) (inv_pods db) of
        Inl e \<Rightarrow> (Inl e, db)
      | Inr (r, inserted, businessChanged, t) \<Rightarrow> (Inr (r, classifyOutcome inserted businessChanged), db\<lparr>inv_pods := t\<rparr>))"

definition DeletePodsNotIn :: "uuid \<Rightarrow> string list \<Rightarrow> inventory \<Rightarrow> (inventory_error + nat) \<times> inventory" where
  "DeletePodsNotIn namespaceID keepNames db =
     (Inr (length (ids_where (not_kept namespaceID keepNames) (inv_pods db))),
      db\<lparr>inv_pods := delete_rows (not_kept namespaceID keepNames) (inv_pods db)\<rparr>)"

section \<open>Services\<close>

definition GetService :: "inventory \<Rightarrow> uuid \<Rightarrow> inventory_error + service_row" where
  "GetService db i = (case find (has_id i) (inv_services db) of None \<Rightarrow> Inl InvNotFound | Some r \<Rightarrow> Inr r)"

definition service_new :: "inv_env \<Rightarrow> ServiceCreate \<Rightarrow> service_row" where
  "service_new env i = new_row (ie_id env) (svm_NamespaceId i) (svm_Name i) (service_columns i) () (ie_now env)"

definition CreateService :: "inv_env \<Rightarrow> ServiceCreate \<Rightarrow> inventory \<Rightarrow> (inventory_error + service_row) \<times> inventory" where
  "CreateService env i db =
     (case insert_row (exists_id (inv_namespaces db) (svm_NamespaceId i)) (service_new env i) (inv_services db) of
        Inl e \<Rightarrow> (Inl e, db)
      | Inr t \<Rightarrow> (Inr (service_new env i), db\<lparr>inv_services := t\<rparr>))"

definition UpdateService :: "inv_env \<Rightarrow> uuid \<Rightarrow> ServiceMutable \<Rightarrow> inventory \<Rightarrow> (inventory_error + service_row) \<times> inventory" where
  "UpdateService env i p db =
     (case update_row i (patch_entity (service_patch p) id (ie_now env)) (inv_services db) of
        Inl e \<Rightarrow> (Inl e, db)
      | Inr t \<Rightarrow> let db1 = db\<lparr>inv_services := t\<rparr> in (GetService db1 i, db1))"

definition UpsertService :: "inv_env \<Rightarrow> ServiceCreate \<Rightarrow> inventory \<Rightarrow> (inventory_error + service_row \<times> UpsertOutcome) \<times> inventory" where
  "UpsertService env i db =
     (case upsert_row (exists_id (inv_namespaces db) (svm_NamespaceId i)) (service_new env i) (inv_services db) of
        Inl e \<Rightarrow> (Inl e, db)
      | Inr (r, inserted, businessChanged, t) \<Rightarrow> (Inr (r, classifyOutcome inserted businessChanged), db\<lparr>inv_services := t\<rparr>))"

definition DeleteServicesNotIn :: "uuid \<Rightarrow> string list \<Rightarrow> inventory \<Rightarrow> (inventory_error + nat) \<times> inventory" where
  "DeleteServicesNotIn namespaceID keepNames db =
     (Inr (length (ids_where (not_kept namespaceID keepNames) (inv_services db))),
      db\<lparr>inv_services := delete_rows (not_kept namespaceID keepNames) (inv_services db)\<rparr>)"

section \<open>Ingresses\<close>

definition GetIngress :: "inventory \<Rightarrow> uuid \<Rightarrow> inventory_error + ingress_row" where
  "GetIngress db i = (case find (has_id i) (inv_ingresses db) of None \<Rightarrow> Inl InvNotFound | Some r \<Rightarrow> Inr r)"

definition ingress_new :: "inv_env \<Rightarrow> IngressCreate \<Rightarrow> ingress_row" where
  "ingress_new env i = new_row (ie_id env) (igm_NamespaceId i) (igm_Name i) (ingress_columns i) () (ie_now env)"

definition CreateIngress :: "inv_env \<Rightarrow> IngressCreate \<Rightarrow> inventory \<Rightarrow> (inventory_error + ingress_row) \<times> inventory" where
  "CreateIngress env i db =
     (case insert_row (exists_id (inv_namespaces db) (igm_NamespaceId i)) (ingress_new env i) (inv_ingresses db) of
        Inl e \<Rightarrow> (Inl e, db)
      | Inr t \<Rightarrow> (Inr (ingress_new env i), db\<lparr>inv_ingresses := t\<rparr>))"

definition UpdateIngress :: "inv_env \<Rightarrow> uuid \<Rightarrow> IngressMutable \<Rightarrow> inventory \<Rightarrow> (inventory_error + ingress_row) \<times> inventory" where
  "UpdateIngress env i p db =
     (case update_row i (patch_entity (ingress_patch p) id (ie_now env)) (inv_ingresses db) of
        Inl e \<Rightarrow> (Inl e, db)
      | Inr t \<Rightarrow> let db1 = db\<lparr>inv_ingresses := t\<rparr> in (GetIngress db1 i, db1))"

definition UpsertIngress :: "inv_env \<Rightarrow> IngressCreate \<Rightarrow> inventory \<Rightarrow> (inventory_error + ingress_row \<times> UpsertOutcome) \<times> inventory" where
  "UpsertIngress env i db =
     (case upsert_row (exists_id (inv_namespaces db) (igm_NamespaceId i)) (ingress_new env i) (inv_ingresses db) of
        Inl e \<Rightarrow> (Inl e, db)
      | Inr (r, inserted, businessChanged, t) \<Rightarrow> (Inr (r, classifyOutcome inserted businessChanged), db\<lparr>inv_ingresses := t\<rparr>))"

definition DeleteIngressesNotIn :: "uuid \<Rightarrow> string list \<Rightarrow> inventory \<Rightarrow> (inventory_error + nat) \<times> inventory" where
  "DeleteIngressesNotIn namespaceID keepNames db =
     (Inr (length (ids_where (not_kept namespaceID keepNames) (inv_ingresses db))),
      db\<lparr>inv_ingresses := delete_rows (not_kept namespaceID keepNames) (inv_ingresses db)\<rparr>)"

section \<open>Persistent volumes\<close>

definition GetPersistentVolume :: "inventory \<Rightarrow> uuid \<Rightarrow> inventory_error + pv_row" where
  "GetPersistentVolume db i = (case find (has_id i) (inv_pvs db) of None \<Rightarrow> Inl InvNotFound | Some r \<Rightarrow> Inr r)"

definition pv_new :: "inv_env \<Rightarrow> PersistentVolumeCreate \<Rightarrow> pv_row" where
  "pv_new env i = new_row (ie_id env) (pvm_ClusterId i) (pvm_Name i) (pv_columns i) () (ie_now env)"

definition CreatePersistentVolume :: "inv_env \<Rightarrow> PersistentVolumeCreate \<Rightarrow> inventory \<Rightarrow> (inventory_error + pv_row) \<times> inventory" where
  "CreatePersistentVolume env i db =
     (case insert_row (exists_id (inv_clusters db) (pvm_ClusterId i)) (pv_new env i) (inv_pvs db) of
        Inl e \<Rightarrow> (Inl e, db)
      | Inr t \<Rightarrow> (Inr (pv_new env i), db\<lparr>inv_pvs := t\<rparr>))"

definition UpdatePersistentVolume ::
    "inv_env \<Rightarrow> uuid \<Rightarrow> PersistentVolumeMutable \<Rightarrow> inventory \<Rightarrow> (inventory_error + pv_row) \<times> inventory" where
  "UpdatePersistentVolume env i p db =
     (case update_row i (patch_entity (pv_patch p) id (ie_now env)) (inv_pvs db) of
        Inl e \<Rightarrow> (Inl e, db)
      | Inr t \<Rightarrow> let db1 = db\<lparr>inv_pvs := t\<rparr> in (GetPersistentVolume db1 i, db1))"

definition UpsertPersistentVolume ::
    "inv_env \<Rightarrow> PersistentVolumeCreate \<Rightarrow> inventory \<Rightarrow> (inventory_error + pv_row \<times> UpsertOutcome) \<times> inventory" where
  "UpsertPersistentVolume env i db =
     (case upsert_row (exists_id (inv_clusters db) (pvm_ClusterId i)) (pv_new env i) (inv_pvs db) of
        Inl e \<Rightarrow> (Inl e, db)
      | Inr (r, inserted, businessChanged, t) \<Rightarrow> (Inr (r, classifyOutcome inserted businessChanged), db\<lparr>inv_pvs := t\<rparr>))"

definition DeletePersistentVolumesNotIn :: "uuid \<Rightarrow> string list \<Rightarrow> inventory \<Rightarrow> (inventory_error + nat) \<times> inventory" where
  "DeletePersistentVolumesNotIn clusterID keepNames db =
     (Inr (length (ids_where (not_kept clusterID keepNames) (inv_pvs db))), delete_pvs (not_kept clusterID keepNames) db)"

section \<open>Persistent volume claims\<close>

definition GetPersistentVolumeClaim :: "inventory \<Rightarrow> uuid \<Rightarrow> inventory_error + claim_row" where
  "GetPersistentVolumeClaim db i = (case find (has_id i) (inv_claims db) of None \<Rightarrow> Inl InvNotFound | Some r \<Rightarrow> Inr r)"

definition claim_fk :: "PersistentVolumeClaimCreate \<Rightarrow> inventory \<Rightarrow> bool" where
  "claim_fk i db \<longleftrightarrow> exists_id (inv_namespaces db) (clm_NamespaceId i) \<and> opt_exists (inv_pvs db) (clm_BoundVolumeId i)"

definition claim_new :: "inv_env \<Rightarrow> PersistentVolumeClaimCreate \<Rightarrow> claim_row" where
  "claim_new env i = new_row (ie_id env) (clm_NamespaceId i) (clm_Name i) (claim_columns i) () (ie_now env)"

definition CreatePersistentVolumeClaim ::
    "inv_env \<Rightarrow> PersistentVolumeClaimCreate \<Rightarrow> inventory \<Rightarrow> (inventory_error + claim_row) \<times> inventory" where
  "CreatePersistentVolumeClaim env i db =
     (case insert_row (claim_fk i db) (claim_new env i) (inv_claims db) of
        Inl e \<Rightarrow> (Inl e, db)
      | Inr t \<Rightarrow> (Inr (claim_new env i), db\<lparr>inv_claims := t\<rparr>))"

definition UpdatePersistentVolumeClaim ::
    "inv_env \<Rightarrow> uuid \<Rightarrow> PersistentVolumeClaimMutable \<Rightarrow> inventory \<Rightarrow> (inventory_error + claim_row) \<times> inventory" where
  "UpdatePersistentVolumeClaim env i p db =
     (case update_row i (patch_entity (claim_patch p) id (ie_now env)) (inv_claims db) of
        Inl e \<Rightarrow> (Inl e, db)
      | Inr t \<Rightarrow>
          if \<not> opt_exists (inv_pvs db) (clm_BoundVolumeId p) then (Inl InvNotFound, db)
          else let db1 = db\<lparr>inv_claims := t\<rparr> in (GetPersistentVolumeClaim db1 i, db1))"

definition UpsertPersistentVolumeClaim ::
    "inv_env \<Rightarrow> PersistentVolumeClaimCreate \<Rightarrow> inventory \<Rightarrow> (inventory_error + claim_row \<times> UpsertOutcome) \<times> inventory" where
  "UpsertPersistentVolumeClaim env i db =
     (case upsert_row (claim_fk i db) (claim_new env i) (inv_claims db) of
        Inl e \<Rightarrow> (Inl e, db)
      | Inr (r, inserted, businessChanged, t) \<Rightarrow> (Inr (r, classifyOutcome inserted businessChanged), db\<lparr>inv_claims := t\<rparr>))"

definition DeletePersistentVolumeClaimsNotIn :: "uuid \<Rightarrow> string list \<Rightarrow> inventory \<Rightarrow> (inventory_error + nat) \<times> inventory" where
  "DeletePersistentVolumeClaimsNotIn namespaceID keepNames db =
     (Inr (length (ids_where (not_kept namespaceID keepNames) (inv_claims db))),
      db\<lparr>inv_claims := delete_rows (not_kept namespaceID keepNames) (inv_claims db)\<rparr>)"

end
