(* ===== verification/Inventory_Invariant.thy ===== *)
theory Inventory_Invariant
  imports Inventory
begin

text \<open>
  What the inventory store keeps true. Part one has the facts on single tables that all proofs use, part two the schema
  invariant: keys are unique, every reference points to a row, JSON columns have the shape their readers decode, and every history
  row can be read back. Every sequence of store operations keeps it.
\<close>

section \<open>One table\<close>

definition row_key :: "('p, 'n, 'o, 'c) entity \<Rightarrow> 'p \<times> 'n" where
  "row_key r = (en_parent r, en_name r)"

definition tbl_ok :: "(('p, 'n, 'o, 'c) entity \<Rightarrow> bool) \<Rightarrow> ('p, 'n, 'o, 'c) entity list \<Rightarrow> bool" where
  "tbl_ok Q t \<longleftrightarrow> distinct (map en_id t) \<and> distinct (map row_key t) \<and> list_all Q t"

lemma has_key_iff: "has_key p n r \<longleftrightarrow> row_key r = (p, n)"
  by (simp add: has_key_def row_key_def)

lemma exists_id_iff: "exists_id t i \<longleftrightarrow> i \<in> set (map en_id t)"
  by (auto simp: exists_id_def has_id_def list_ex_iff)

lemma new_row_sel [simp]:
  "en_id (new_row i p n obs cur now) = i" "en_parent (new_row i p n obs cur now) = p" "en_name (new_row i p n obs cur now) = n"
  "en_obs (new_row i p n obs cur now) = obs" "en_cur (new_row i p n obs cur now) = cur"
  "en_created_at (new_row i p n obs cur now) = now" "en_updated_at (new_row i p n obs cur now) = now"
  "en_terminated_at (new_row i p n obs cur now) = None"
  by (simp_all add: new_row_def)

lemma overwrite_sel [simp]:
  "en_id (overwrite obs now r) = en_id r" "en_parent (overwrite obs now r) = en_parent r" "en_name (overwrite obs now r) = en_name r"
  "row_key (overwrite obs now r) = row_key r" "en_obs (overwrite obs now r) = obs" "en_cur (overwrite obs now r) = en_cur r"
  "en_created_at (overwrite obs now r) = en_created_at r" "en_updated_at (overwrite obs now r) = now"
  "en_terminated_at (overwrite obs now r) = None"
  by (simp_all add: overwrite_def row_key_def)

lemma patch_entity_sel [simp]:
  "en_id (patch_entity fo fc now r) = en_id r" "row_key (patch_entity fo fc now r) = row_key r" "en_parent (patch_entity fo fc now r) = en_parent r"
  "en_name (patch_entity fo fc now r) = en_name r" "en_obs (patch_entity fo fc now r) = fo (en_obs r)" "en_cur (patch_entity fo fc now r) = fc (en_cur r)"
  by (simp_all add: patch_entity_def row_key_def)

lemma tbl_ok_key_unique:
  assumes "tbl_ok Q t" "r \<in> set t" "s \<in> set t" "row_key r = row_key s"
  shows "r = s"
  using assms by (auto simp: tbl_ok_def distinct_map inj_on_def)

lemma tbl_ok_id_unique:
  assumes "tbl_ok Q t" "r \<in> set t" "s \<in> set t" "en_id r = en_id s"
  shows "r = s"
  using assms by (auto simp: tbl_ok_def distinct_map inj_on_def)

lemma find_id: "tbl_ok Q t \<Longrightarrow> r \<in> set t \<Longrightarrow> find (has_id (en_id r)) t = Some r"
  by (cases "find (has_id (en_id r)) t") (auto simp: find_None_iff has_id_def dest!: find_SomeD dest: tbl_ok_id_unique)

lemma find_key: "tbl_ok Q t \<Longrightarrow> r \<in> set t \<Longrightarrow> find (has_key (en_parent r) (en_name r)) t = Some r"
  by (cases "find (has_key (en_parent r) (en_name r)) t")
     (auto simp: find_None_iff has_key_def row_key_def dest!: find_SomeD dest: tbl_ok_key_unique)

lemma tbl_ok_weaken: "tbl_ok Q t \<Longrightarrow> (\<And>r. r \<in> set t \<Longrightarrow> Q r \<Longrightarrow> Q' r) \<Longrightarrow> tbl_ok Q' t"
  by (auto simp: tbl_ok_def list_all_iff)

lemma tbl_ok_map:
  assumes "tbl_ok Q t" and "\<And>r. en_id (f r) = en_id r" "\<And>r. row_key (f r) = row_key r" and "\<And>r. r \<in> set t \<Longrightarrow> Q r \<Longrightarrow> Q' (f r)"
  shows "tbl_ok Q' (map f t)"
  using assms by (auto simp: tbl_ok_def list_all_iff comp_def)

lemma tbl_ok_filter: "tbl_ok Q t \<Longrightarrow> tbl_ok Q (filter P t)"
  by (auto simp: tbl_ok_def list_all_iff intro: distinct_map_filter)

lemma tbl_ok_delete_rows:
  "tbl_ok Q t \<Longrightarrow> (\<And>r. r \<in> set t \<Longrightarrow> Q r \<Longrightarrow> \<not> P r \<Longrightarrow> Q' r) \<Longrightarrow> tbl_ok Q' (delete_rows P t)"
  unfolding delete_rows_def using tbl_ok_weaken [OF tbl_ok_filter] by (metis (no_types, lifting) mem_Collect_eq set_filter)

lemma tbl_ok_append:
  "tbl_ok Q t \<Longrightarrow> Q r \<Longrightarrow> en_id r \<notin> en_id ` set t \<Longrightarrow> row_key r \<notin> row_key ` set t \<Longrightarrow> tbl_ok Q (t @ [r])"
  by (simp add: tbl_ok_def)

lemma tbl_ok_insert_row: "insert_row fk r t = Inr t' \<Longrightarrow> tbl_ok Q t \<Longrightarrow> (fk \<Longrightarrow> Q r) \<Longrightarrow> tbl_ok Q t'"
  by (auto simp: insert_row_def has_id_def has_key_iff list_ex_iff row_key_def split: if_splits intro!: tbl_ok_append)

lemma tbl_ok_upsert_row:
  assumes "upsert_row fk new t = Inr (r, inserted, changed, t')" "tbl_ok Q t" "fk \<Longrightarrow> Q new"
    and "\<And>old. fk \<Longrightarrow> Q old \<Longrightarrow> row_key old = row_key new \<Longrightarrow> Q (overwrite (en_obs new) (en_updated_at new) old)"
  shows "tbl_ok Q t' \<and> r \<in> set t' \<and> row_key r = row_key new"
proof (cases "find (has_key (en_parent new) (en_name new)) t")
  case None
  then have "row_key new \<notin> row_key ` set t" by (auto simp: find_None_iff has_key_iff row_key_def)
  with None assms show ?thesis
    by (auto simp: upsert_row_def list_ex_iff has_id_def split: if_splits intro!: tbl_ok_append)
next
  case (Some old)
  with find_SomeD [OF Some] assms show ?thesis
    by (auto simp: upsert_row_def Let_def has_key_iff row_key_def split: if_splits intro!: tbl_ok_map [OF assms(2)])
qed

lemma tbl_ok_update_row:
  assumes "update_row i f t = Inr t'" "tbl_ok Q t" "\<And>r. en_id (f r) = en_id r" "\<And>r. row_key (f r) = row_key r" "\<And>r. Q r \<Longrightarrow> Q (f r)"
  shows "tbl_ok Q t'"
  using assms by (auto simp: update_row_def split: if_splits intro!: tbl_ok_map [OF assms(2)])

lemma tbl_ok_soft_delete:
  assumes "tbl_ok Q t" "\<And>r. Q r \<Longrightarrow> Q (r\<lparr>en_terminated_at := Some now, en_updated_at := now\<rparr>)"
  shows "tbl_ok Q (soft_delete now P t)"
  unfolding soft_delete_def using assms by (intro tbl_ok_map [OF assms(1)]) (auto simp: row_key_def)

text \<open>The ids a statement leaves.\<close>

lemma exists_id_map [simp]: "(\<And>r. en_id (f r) = en_id r) \<Longrightarrow> exists_id (map f t) i = exists_id t i"
  by (simp add: exists_id_iff image_image)

lemma ids_soft_delete [simp]: "exists_id (soft_delete now P t) i = exists_id t i"
  by (simp add: soft_delete_def)

lemma ids_insert_row: "insert_row fk r t = Inr t' \<Longrightarrow> exists_id t i \<Longrightarrow> exists_id t' i"
  by (auto simp: insert_row_def exists_id_iff split: if_splits)

lemma ids_upsert_row: "upsert_row fk new t = Inr (r, b, c, t') \<Longrightarrow> exists_id t i \<Longrightarrow> exists_id t' i"
  by (cases "find (has_key (en_parent new) (en_name new)) t") (auto simp: upsert_row_def Let_def exists_id_iff [of "t @ _"] exists_id_iff [of t] split: if_splits)

lemma ids_update_row: "update_row i f t = Inr t' \<Longrightarrow> (\<And>r. en_id (f r) = en_id r) \<Longrightarrow> exists_id t' j = exists_id t j"
  by (auto simp: update_row_def split: if_splits)

lemma ids_delete_rows: "exists_id t i \<Longrightarrow> i \<notin> set (ids_where P t) \<Longrightarrow> exists_id (delete_rows P t) i"
  by (auto simp: exists_id_iff delete_rows_def ids_where_def)

section \<open>The schema\<close>

fun is_obj :: "json \<Rightarrow> bool" where
  "is_obj (JObj _) = True"
| "is_obj _ = False"

fun is_arr :: "json \<Rightarrow> bool" where
  "is_arr (JArr _) = True"
| "is_arr _ = False"

definition cluster_ok :: "cluster_row \<Rightarrow> bool" where
  "cluster_ok r \<longleftrightarrow> is_obj (cc_labels (en_obs r)) \<and> is_obj (cu_annotations (en_cur r))"

definition namespace_ok :: "cluster_row list \<Rightarrow> namespace_row \<Rightarrow> bool" where
  "namespace_ok cls r \<longleftrightarrow> exists_id cls (en_parent r) \<and> is_obj (nsc_labels (en_obs r)) \<and> is_obj (cu_annotations (en_cur r))"

definition node_ok :: "cluster_row list \<Rightarrow> node_row \<Rightarrow> bool" where
  "node_ok cls r \<longleftrightarrow> exists_id cls (en_parent r) \<and> is_arr (noc_conditions (en_obs r)) \<and> is_arr (noc_taints (en_obs r)) \<and>
     is_obj (noc_labels (en_obs r)) \<and> is_obj (cu_annotations (en_cur r))"

definition pv_ok :: "cluster_row list \<Rightarrow> pv_row \<Rightarrow> bool" where
  "pv_ok cls r \<longleftrightarrow> exists_id cls (en_parent r) \<and> en_terminated_at r = None \<and> is_obj (pvc_labels (en_obs r))"

definition workload_ok :: "namespace_row list \<Rightarrow> uuid list \<Rightarrow> workload_row \<Rightarrow> bool" where
  "workload_ok nss apps r \<longleftrightarrow> exists_id nss (en_parent r) \<and> set_option (en_cur r) \<subseteq> set apps \<and>
     is_arr (wc_containers (en_obs r)) \<and> is_obj (wc_labels (en_obs r)) \<and> is_obj (wc_spec (en_obs r))"

definition pod_ok :: "namespace_row list \<Rightarrow> workload_row list \<Rightarrow> pod_row \<Rightarrow> bool" where
  "pod_ok nss wls r \<longleftrightarrow> exists_id nss (en_parent r) \<and> opt_exists wls (poc_workload_id (en_obs r)) \<and> en_terminated_at r = None \<and>
     is_arr (poc_containers (en_obs r)) \<and> is_obj (poc_labels (en_obs r))"

definition service_ok :: "namespace_row list \<Rightarrow> service_row \<Rightarrow> bool" where
  "service_ok nss r \<longleftrightarrow> exists_id nss (en_parent r) \<and> en_terminated_at r = None \<and> is_obj (svc_selector (en_obs r)) \<and>
     is_arr (svc_ports (en_obs r)) \<and> is_arr (svc_load_balancer (en_obs r)) \<and> is_obj (svc_labels (en_obs r))"

definition ingress_ok :: "namespace_row list \<Rightarrow> ingress_row \<Rightarrow> bool" where
  "ingress_ok nss r \<longleftrightarrow> exists_id nss (en_parent r) \<and> en_terminated_at r = None \<and> is_arr (igc_rules (en_obs r)) \<and>
     is_arr (igc_tls (en_obs r)) \<and> is_arr (igc_load_balancer (en_obs r)) \<and> is_obj (igc_labels (en_obs r))"

definition claim_ok :: "namespace_row list \<Rightarrow> pv_row list \<Rightarrow> claim_row \<Rightarrow> bool" where
  "claim_ok nss pvs r \<longleftrightarrow> exists_id nss (en_parent r) \<and> opt_exists pvs (clc_bound_volume_id (en_obs r)) \<and> en_terminated_at r = None \<and>
     is_obj (clc_labels (en_obs r))"

definition history_ok :: "history \<Rightarrow> bool" where
  "history_ok h \<longleftrightarrow> list_all (\<lambda>hr. scan_columns (history_columns (hr_table hr)) (hr_cols hr) \<noteq> None) h"

definition inventory_ok :: "inventory \<Rightarrow> bool" where
  "inventory_ok db \<longleftrightarrow>
     tbl_ok cluster_ok (inv_clusters db) \<and> tbl_ok (namespace_ok (inv_clusters db)) (inv_namespaces db) \<and>
     tbl_ok (node_ok (inv_clusters db)) (inv_nodes db) \<and> tbl_ok (pv_ok (inv_clusters db)) (inv_pvs db) \<and>
     tbl_ok (workload_ok (inv_namespaces db) (inv_applications db)) (inv_workloads db) \<and>
     tbl_ok (pod_ok (inv_namespaces db) (inv_workloads db)) (inv_pods db) \<and>
     tbl_ok (service_ok (inv_namespaces db)) (inv_services db) \<and> tbl_ok (ingress_ok (inv_namespaces db)) (inv_ingresses db) \<and>
     tbl_ok (claim_ok (inv_namespaces db) (inv_pvs db)) (inv_claims db) \<and> history_ok (inv_history db)"

lemmas row_ok_defs = cluster_ok_def namespace_ok_def node_ok_def pv_ok_def workload_ok_def pod_ok_def service_ok_def ingress_ok_def claim_ok_def

lemma marshal_shapes [simp]:
  "is_obj (marshalLabels l)" "is_arr (marshalPorts p)" "is_obj (marshalSpec s)"
  "is_obj (set_val l marshalLabels j) \<longleftrightarrow> l \<noteq> None \<or> is_obj j" "is_arr (set_val p marshalPorts j) \<longleftrightarrow> p \<noteq> None \<or> is_arr j"
  "is_obj (set_val s marshalSpec j) \<longleftrightarrow> s \<noteq> None \<or> is_obj j"
  by (auto simp: marshalLabels_def marshalPorts_def marshalSpec_def set_val_def split: option.splits)

lemma is_obj_unmarshal: "is_obj j \<Longrightarrow> unmarshalJSONB j = JsonV j \<and> j \<noteq> JNull" "is_arr j \<Longrightarrow> unmarshalJSONB j = JsonV j \<and> j \<noteq> JNull"
  by (cases j; simp add: unmarshalJSONB_def)+

lemma opt_exists_mono: "opt_exists t i \<Longrightarrow> (\<And>j. exists_id t j \<Longrightarrow> exists_id t' j) \<Longrightarrow> opt_exists t' i"
  by (simp add: opt_exists_def split: option.splits)

text \<open>Replacing one table by a good one that has at least the same ids.\<close>

lemma ok_clusters:
  "inventory_ok db \<Longrightarrow> tbl_ok cluster_ok t \<Longrightarrow> (\<And>i. exists_id (inv_clusters db) i \<Longrightarrow> exists_id t i) \<Longrightarrow> inventory_ok (db\<lparr>inv_clusters := t\<rparr>)"
  by (auto simp: inventory_ok_def row_ok_defs elim!: tbl_ok_weaken)

lemma ok_namespaces:
  "inventory_ok db \<Longrightarrow> tbl_ok (namespace_ok (inv_clusters db)) t \<Longrightarrow> (\<And>i. exists_id (inv_namespaces db) i \<Longrightarrow> exists_id t i) \<Longrightarrow>
   inventory_ok (db\<lparr>inv_namespaces := t\<rparr>)"
  by (auto simp: inventory_ok_def row_ok_defs elim!: tbl_ok_weaken)

lemma ok_workloads:
  "inventory_ok db \<Longrightarrow> tbl_ok (workload_ok (inv_namespaces db) (inv_applications db)) t \<Longrightarrow>
   (\<And>i. exists_id (inv_workloads db) i \<Longrightarrow> exists_id t i) \<Longrightarrow> inventory_ok (db\<lparr>inv_workloads := t\<rparr>)"
  by (auto simp: inventory_ok_def row_ok_defs elim!: tbl_ok_weaken opt_exists_mono)

lemma ok_pvs:
  "inventory_ok db \<Longrightarrow> tbl_ok (pv_ok (inv_clusters db)) t \<Longrightarrow>
   (\<And>i. exists_id (inv_pvs db) i \<Longrightarrow> exists_id t i) \<Longrightarrow> inventory_ok (db\<lparr>inv_pvs := t\<rparr>)"
  by (auto simp: inventory_ok_def row_ok_defs elim!: tbl_ok_weaken opt_exists_mono)

lemma ok_leaf_tables:
  "inventory_ok db \<Longrightarrow> tbl_ok (node_ok (inv_clusters db)) t1 \<Longrightarrow> inventory_ok (db\<lparr>inv_nodes := t1\<rparr>)"
  "inventory_ok db \<Longrightarrow> tbl_ok (pod_ok (inv_namespaces db) (inv_workloads db)) t2 \<Longrightarrow> inventory_ok (db\<lparr>inv_pods := t2\<rparr>)"
  "inventory_ok db \<Longrightarrow> tbl_ok (service_ok (inv_namespaces db)) t3 \<Longrightarrow> inventory_ok (db\<lparr>inv_services := t3\<rparr>)"
  "inventory_ok db \<Longrightarrow> tbl_ok (ingress_ok (inv_namespaces db)) t4 \<Longrightarrow> inventory_ok (db\<lparr>inv_ingresses := t4\<rparr>)"
  "inventory_ok db \<Longrightarrow> tbl_ok (claim_ok (inv_namespaces db) (inv_pvs db)) t5 \<Longrightarrow> inventory_ok (db\<lparr>inv_claims := t5\<rparr>)"
  by (simp_all add: inventory_ok_def)

lemma inventory_okD:
  assumes "inventory_ok db"
  shows "tbl_ok cluster_ok (inv_clusters db)" "tbl_ok (namespace_ok (inv_clusters db)) (inv_namespaces db)"
    "tbl_ok (node_ok (inv_clusters db)) (inv_nodes db)" "tbl_ok (pv_ok (inv_clusters db)) (inv_pvs db)"
    "tbl_ok (workload_ok (inv_namespaces db) (inv_applications db)) (inv_workloads db)"
    "tbl_ok (pod_ok (inv_namespaces db) (inv_workloads db)) (inv_pods db)" "tbl_ok (service_ok (inv_namespaces db)) (inv_services db)"
    "tbl_ok (ingress_ok (inv_namespaces db)) (inv_ingresses db)" "tbl_ok (claim_ok (inv_namespaces db) (inv_pvs db)) (inv_claims db)"
    "history_ok (inv_history db)"
  using assms by (simp_all add: inventory_ok_def)

section \<open>Snapshots are well typed\<close>

lemma ns_cases: "(case ns s of NilV \<Rightarrow> True | StrV _ \<Rightarrow> True | _ \<Rightarrow> False)"
  by (simp add: ns_def split: option.splits)

lemma cluster_snapshot_ok: "cluster_ok r \<Longrightarrow> snapshot_ok KindCluster (clusterRowMapFromRow r)"
  by (simp add: snapshot_ok_def history_columns_def text_columns_def KindCluster_def clusterRowMapFromRow_def Let_def index_def ns_cases
      is_obj_unmarshal cluster_ok_def)

lemma namespace_snapshot_ok: "namespace_ok cls r \<Longrightarrow> snapshot_ok KindNamespace (namespaceRowMapFromRow r)"
  by (simp add: snapshot_ok_def history_columns_def text_columns_def KindCluster_def KindNamespace_def namespaceRowMapFromRow_def Let_def
      index_def ns_cases is_obj_unmarshal namespace_ok_def)

lemma node_snapshot_ok: "node_ok cls r \<Longrightarrow> snapshot_ok KindNode (nodeRowMapFromRow r)"
  by (simp add: snapshot_ok_def history_columns_def text_columns_def KindCluster_def KindNamespace_def KindNode_def nodeRowMapFromRow_def Let_def
      index_def ns_cases is_obj_unmarshal node_ok_def)

lemma workload_snapshot_ok: "workload_ok nss apps r \<Longrightarrow> snapshot_ok KindWorkload (workloadRowMapFromRow r)"
  by (simp add: snapshot_ok_def history_columns_def text_columns_def KindCluster_def KindNamespace_def KindNode_def KindWorkload_def
      workloadRowMapFromRow_def Let_def index_def is_obj_unmarshal workload_ok_def split: option.splits)

lemma scan_inserted:
  assumes "snapshot_ok kind m"
  shows "scan_columns (history_columns kind) (map (\<lambda>(c, ty). (c, put_column ty (index m c))) (history_columns kind)) =
    Some (stored_row (history_columns kind) m)"
  using scan_row_of [of kind "c\<lparr>ch_next := m\<rparr>" for c] assms by (simp add: row_of_def)

lemma Capture_history_ok:
  "history_ok h \<Longrightarrow> snapshot_ok kind m \<Longrightarrow> history_ok (snd (Capture enabled now hid kind i prev m changeType actor h))"
  by (auto simp: history_ok_def Capture_def insertHistoryRow_def Let_def list_all_iff scan_inserted split: option.splits)

lemma capture_tables [simp]:
  "inv_clusters (capture env kind i prev snap ct db) = inv_clusters db" "inv_namespaces (capture env kind i prev snap ct db) = inv_namespaces db"
  "inv_nodes (capture env kind i prev snap ct db) = inv_nodes db" "inv_pvs (capture env kind i prev snap ct db) = inv_pvs db"
  "inv_workloads (capture env kind i prev snap ct db) = inv_workloads db" "inv_pods (capture env kind i prev snap ct db) = inv_pods db"
  "inv_services (capture env kind i prev snap ct db) = inv_services db" "inv_ingresses (capture env kind i prev snap ct db) = inv_ingresses db"
  "inv_claims (capture env kind i prev snap ct db) = inv_claims db" "inv_applications (capture env kind i prev snap ct db) = inv_applications db"
  "inv_time_travel (capture env kind i prev snap ct db) = inv_time_travel db"
  by (simp_all add: capture_def split: option.splits)

lemma capture_ids_tables [simp]:
  "inv_clusters (capture_ids env kind f is db) = inv_clusters db" "inv_namespaces (capture_ids env kind f is db) = inv_namespaces db"
  "inv_nodes (capture_ids env kind f is db) = inv_nodes db" "inv_pvs (capture_ids env kind f is db) = inv_pvs db"
  "inv_workloads (capture_ids env kind f is db) = inv_workloads db" "inv_pods (capture_ids env kind f is db) = inv_pods db"
  "inv_services (capture_ids env kind f is db) = inv_services db" "inv_ingresses (capture_ids env kind f is db) = inv_ingresses db"
  "inv_claims (capture_ids env kind f is db) = inv_claims db" "inv_applications (capture_ids env kind f is db) = inv_applications db"
  "inv_time_travel (capture_ids env kind f is db) = inv_time_travel db"
  unfolding capture_ids_def by (induction "is" arbitrary: db) simp_all

lemma capture_ok:
  "inventory_ok db \<Longrightarrow> (\<And>s. snap = Some s \<Longrightarrow> snapshot_ok kind s) \<Longrightarrow> inventory_ok (capture env kind i prev snap ct db)"
  by (auto simp: inventory_ok_def capture_def Capture_history_ok split: option.splits)

lemma find_ok: "tbl_ok Q t \<Longrightarrow> find P t = Some r \<Longrightarrow> Q r"
  by (auto simp: tbl_ok_def list_all_iff dest: find_SomeD)

lemma rowMaps_ok:
  "inventory_ok db \<Longrightarrow> clusterRowMap db i = Some s \<Longrightarrow> snapshot_ok KindCluster s"
  "inventory_ok db \<Longrightarrow> namespaceRowMap db i = Some s \<Longrightarrow> snapshot_ok KindNamespace s"
  "inventory_ok db \<Longrightarrow> nodeRowMap db i = Some s \<Longrightarrow> snapshot_ok KindNode s"
  "inventory_ok db \<Longrightarrow> workloadRowMap db i = Some s \<Longrightarrow> snapshot_ok KindWorkload s"
  by (auto simp: clusterRowMap_def namespaceRowMap_def nodeRowMap_def workloadRowMap_def
      intro: cluster_snapshot_ok [OF find_ok [OF inventory_okD(1)]] namespace_snapshot_ok [OF find_ok [OF inventory_okD(2)]]
        node_snapshot_ok [OF find_ok [OF inventory_okD(3)]] workload_snapshot_ok [OF find_ok [OF inventory_okD(5)]])

lemma capture_rows_ok:
  assumes "inventory_ok db"
  shows "inventory_ok (capture env KindCluster i prev (clusterRowMap db i) ct db)"
    "inventory_ok (capture env KindNamespace i prev (namespaceRowMap db i) ct db)"
    "inventory_ok (capture env KindNode i prev (nodeRowMap db i) ct db)"
    "inventory_ok (capture env KindWorkload i prev (workloadRowMap db i) ct db)"
  using assms by (auto intro!: capture_ok dest: rowMaps_ok)

lemma capture_ids_ok:
  assumes "inventory_ok db" "\<And>d i s. inventory_ok d \<Longrightarrow> f d i = Some s \<Longrightarrow> snapshot_ok kind s"
  shows "inventory_ok (capture_ids env kind f is db)"
  unfolding capture_ids_def using assms(1)
  by (induction "is" arbitrary: db) (auto intro!: capture_ok dest: assms(2))

lemma capture_ids_rows_ok:
  assumes "inventory_ok db"
  shows "inventory_ok (capture_ids env KindCluster clusterRowMap is db)" "inventory_ok (capture_ids env KindNamespace namespaceRowMap is db)"
    "inventory_ok (capture_ids env KindNode nodeRowMap is db)" "inventory_ok (capture_ids env KindWorkload workloadRowMap is db)"
  using assms by (auto intro: capture_ids_ok dest: rowMaps_ok)

section \<open>Every operation keeps the schema\<close>

lemma drop_ref_exists: "opt_exists t i \<Longrightarrow> opt_exists (delete_rows P t) (drop_ref (ids_where P t) i)"
  by (auto simp: opt_exists_def drop_ref_def ids_delete_rows split: option.splits)

lemma delete_workloads_ok: "inventory_ok db \<Longrightarrow> inventory_ok (delete_workloads P db)"
  by (auto simp: inventory_ok_def delete_workloads_def unlink_pods_def row_ok_defs drop_ref_exists row_key_def
      intro!: tbl_ok_map [where Q = "pod_ok (inv_namespaces db) (inv_workloads db)"] elim!: tbl_ok_delete_rows)

lemma delete_pvs_ok: "inventory_ok db \<Longrightarrow> inventory_ok (delete_pvs P db)"
  by (auto simp: inventory_ok_def delete_pvs_def unlink_claims_def row_ok_defs drop_ref_exists row_key_def
      intro!: tbl_ok_map [where Q = "claim_ok (inv_namespaces db) (inv_pvs db)"] elim!: tbl_ok_delete_rows)

lemma delete_unhistoried_ok: "inventory_ok db \<Longrightarrow> inventory_ok (delete_unhistoried nss db)"
  by (auto simp: inventory_ok_def delete_unhistoried_def elim!: tbl_ok_delete_rows)

text \<open>Deleting namespaces, the children first.\<close>

lemma delete_namespaces_order:
  "delete_namespaces P db =
     (let gone = ids_where P (inv_namespaces db); d = delete_workloads (in_parents gone) (delete_unhistoried gone db) in
      d\<lparr>inv_namespaces := delete_rows P (inv_namespaces d)\<rparr>)"
  by (simp add: delete_namespaces_def delete_workloads_def delete_unhistoried_def Let_def)

lemma parent_kept: "exists_id t (en_parent r) \<Longrightarrow> \<not> in_parents (ids_where P t) r \<Longrightarrow> exists_id (delete_rows P t) (en_parent r)"
  by (simp add: ids_delete_rows in_parents_def)

lemma drop_namespaces_ok:
  assumes "inventory_ok db" and "\<And>r. r \<in> set (inv_workloads db) \<Longrightarrow> \<not> in_parents (ids_where P (inv_namespaces db)) r"
    and "\<And>r. r \<in> set (inv_pods db) \<Longrightarrow> \<not> in_parents (ids_where P (inv_namespaces db)) r"
    and "\<And>r. r \<in> set (inv_services db) \<Longrightarrow> \<not> in_parents (ids_where P (inv_namespaces db)) r"
    and "\<And>r. r \<in> set (inv_ingresses db) \<Longrightarrow> \<not> in_parents (ids_where P (inv_namespaces db)) r"
    and "\<And>r. r \<in> set (inv_claims db) \<Longrightarrow> \<not> in_parents (ids_where P (inv_namespaces db)) r"
  shows "inventory_ok (db\<lparr>inv_namespaces := delete_rows P (inv_namespaces db)\<rparr>)"
  using assms
  by (auto simp: inventory_ok_def row_ok_defs intro!: parent_kept elim!: tbl_ok_delete_rows tbl_ok_weaken)

lemma delete_namespaces_ok: "inventory_ok db \<Longrightarrow> inventory_ok (delete_namespaces P db)"
  unfolding delete_namespaces_order Let_def
  by (rule drop_namespaces_ok [OF delete_workloads_ok [OF delete_unhistoried_ok]], assumption)
     (auto simp: delete_workloads_def delete_unhistoried_def unlink_pods_def delete_rows_def in_parents_def)

lemma drop_clusters_ok:
  assumes "inventory_ok db" and "\<And>r. r \<in> set (inv_namespaces db) \<Longrightarrow> en_parent r \<noteq> i"
    and "\<And>r. r \<in> set (inv_nodes db) \<Longrightarrow> en_parent r \<noteq> i" and "\<And>r. r \<in> set (inv_pvs db) \<Longrightarrow> en_parent r \<noteq> i"
  shows "inventory_ok (db\<lparr>inv_clusters := delete_rows (has_id i) (inv_clusters db)\<rparr>)"
proof -
  have "exists_id (delete_rows (has_id i) (inv_clusters db)) j" if "exists_id (inv_clusters db) j" "j \<noteq> i" for j
    using that by (intro ids_delete_rows) (auto simp: ids_where_def has_id_def)
  with assms show ?thesis
    by (auto simp: inventory_ok_def row_ok_defs elim!: tbl_ok_delete_rows tbl_ok_weaken)
qed

lemma DeleteCluster_order:
  "exists_id (inv_clusters db) i \<Longrightarrow> snd (DeleteCluster i db) =
     (let d = delete_pvs (in_parents [i]) (delete_namespaces (in_parents [i]) (db\<lparr>inv_nodes := delete_rows (in_parents [i]) (inv_nodes db)\<rparr>)) in
      d\<lparr>inv_clusters := delete_rows (has_id i) (inv_clusters d)\<rparr>)"
  by (simp add: DeleteCluster_def delete_namespaces_def delete_workloads_def delete_unhistoried_def delete_pvs_def Let_def)

lemma DeleteCluster_ok: "inventory_ok db \<Longrightarrow> inventory_ok (snd (DeleteCluster i db))"
proof (cases "exists_id (inv_clusters db) i")
  case True
  assume "inventory_ok db"
  then have "inventory_ok (db\<lparr>inv_nodes := delete_rows (in_parents [i]) (inv_nodes db)\<rparr>)"
    by (intro ok_leaf_tables) (auto dest: inventory_okD elim!: tbl_ok_delete_rows)
  then show ?thesis
    unfolding DeleteCluster_order [OF True] Let_def
    by (intro drop_clusters_ok delete_pvs_ok delete_namespaces_ok)
       (auto simp: delete_pvs_def delete_namespaces_def delete_workloads_def delete_unhistoried_def delete_rows_def in_parents_def Let_def)
qed (simp add: DeleteCluster_def)

lemma deletes_ok:
  assumes "inventory_ok db"
  shows "inventory_ok (snd (DeleteNamespace i db))" "inventory_ok (snd (DeleteNode i db))" "inventory_ok (snd (DeleteWorkload i db))"
    "inventory_ok (snd (DeletePod i db))" "inventory_ok (snd (DeleteService i db))" "inventory_ok (snd (DeleteIngress i db))"
    "inventory_ok (snd (DeletePersistentVolume i db))" "inventory_ok (snd (DeletePersistentVolumeClaim i db))"
  using assms inventory_okD [OF assms]
  by (auto simp: DeleteNamespace_def DeleteNode_def DeleteWorkload_def DeletePod_def DeleteService_def DeleteIngress_def
      DeletePersistentVolume_def DeletePersistentVolumeClaim_def delete_namespaces_ok delete_workloads_ok delete_pvs_ok
      intro!: ok_leaf_tables elim!: tbl_ok_delete_rows)

text \<open>Inserts and upserts.\<close>

lemma creates_ok:
  assumes "inventory_ok db"
  shows "inventory_ok (snd (CreateNamespace env i1 db))" "inventory_ok (snd (CreateNode env i2 db))" "inventory_ok (snd (CreateWorkload env i3 db))"
    "inventory_ok (snd (CreatePod env i4 db))" "inventory_ok (snd (CreateService env i5 db))" "inventory_ok (snd (CreateIngress env i6 db))"
    "inventory_ok (snd (CreatePersistentVolume env i7 db))" "inventory_ok (snd (CreatePersistentVolumeClaim env i8 db))"
  using assms inventory_okD [OF assms]
  by (auto simp: CreateNamespace_def CreateNode_def CreateWorkload_def CreatePod_def CreateService_def CreateIngress_def
      CreatePersistentVolume_def CreatePersistentVolumeClaim_def Let_def nodeInsertValues_def pod_new_def pod_fk_def service_new_def ingress_new_def
      pv_new_def claim_new_def claim_fk_def row_ok_defs namespace_columns_def curated_columns_def node_columns_def node_curated_columns_def
      curated.defs workload_columns_def pod_columns_def service_columns_def ingress_columns_def pv_columns_def claim_columns_def
      split: sum.splits intro!: ok_leaf_tables ok_namespaces ok_workloads ok_pvs elim: ids_insert_row elim!: tbl_ok_insert_row)

lemma UpsertNamespace_ok: "inventory_ok db \<Longrightarrow> inventory_ok (snd (UpsertNamespace env i db))"
proof (cases "upsert_row (exists_id (inv_clusters db) (nm_ClusterId i))
    (new_row (ie_id env) (nm_ClusterId i) (nm_Name i) (namespace_columns i) curated_default (ie_now env)) (inv_namespaces db)")
  case (Inr x)
  assume ok: "inventory_ok db"
  obtain r a b t where x: "x = (r, a, b, t)" by (cases x)
  have "inventory_ok (db\<lparr>inv_namespaces := t\<rparr>)"
    using ok tbl_ok_upsert_row [OF Inr [unfolded x] inventory_okD(2) [OF ok]] ids_upsert_row [OF Inr [unfolded x]]
    by (intro ok_namespaces) (auto simp: namespace_ok_def namespace_columns_def curated_default_def)
  then show ?thesis using Inr x by (simp add: UpsertNamespace_def Let_def capture_rows_ok)
qed (simp add: UpsertNamespace_def Let_def)

lemma UpsertNode_ok: "inventory_ok db \<Longrightarrow> inventory_ok (snd (UpsertNode env i db))"
proof (cases "upsert_row (exists_id (inv_clusters db) (om_ClusterId i)) (nodeInsertValues env i) (inv_nodes db)")
  case (Inr x)
  assume ok: "inventory_ok db"
  obtain r a b t where x: "x = (r, a, b, t)" by (cases x)
  have "inventory_ok (db\<lparr>inv_nodes := t\<rparr>)"
    using ok tbl_ok_upsert_row [OF Inr [unfolded x] inventory_okD(3) [OF ok]]
    by (intro ok_leaf_tables)
       (auto simp: node_ok_def nodeInsertValues_def node_columns_def node_curated_columns_def curated_columns_def curated.defs)
  then show ?thesis using Inr x by (simp add: UpsertNode_def Let_def capture_rows_ok)
qed (simp add: UpsertNode_def Let_def)

lemma UpsertWorkload_ok: "inventory_ok db \<Longrightarrow> inventory_ok (snd (UpsertWorkload env i db))"
proof (cases "upsert_row (exists_id (inv_namespaces db) (wm_NamespaceId i))
    (new_row (ie_id env) (wm_NamespaceId i) (wm_Kind i, wm_Name i) (workload_columns i) None (ie_now env)) (inv_workloads db)")
  case (Inr x)
  assume ok: "inventory_ok db"
  obtain r a b t where x: "x = (r, a, b, t)" by (cases x)
  have "inventory_ok (db\<lparr>inv_workloads := t\<rparr>)"
    using ok tbl_ok_upsert_row [OF Inr [unfolded x] inventory_okD(5) [OF ok]] ids_upsert_row [OF Inr [unfolded x]]
    by (intro ok_workloads) (auto simp: workload_ok_def workload_columns_def)
  then show ?thesis using Inr x by (simp add: UpsertWorkload_def Let_def capture_rows_ok)
qed (simp add: UpsertWorkload_def Let_def)

lemma upsert_leaf_ok:
  assumes "inventory_ok db"
  shows "inventory_ok (snd (UpsertPod env i1 db))" "inventory_ok (snd (UpsertService env i2 db))" "inventory_ok (snd (UpsertIngress env i3 db))"
    "inventory_ok (snd (UpsertPersistentVolume env i4 db))" "inventory_ok (snd (UpsertPersistentVolumeClaim env i5 db))"
  using assms inventory_okD [OF assms]
  by (auto simp: UpsertPod_def UpsertService_def UpsertIngress_def UpsertPersistentVolume_def UpsertPersistentVolumeClaim_def
      pod_new_def pod_fk_def service_new_def ingress_new_def pv_new_def claim_new_def claim_fk_def row_ok_defs
      pod_columns_def service_columns_def ingress_columns_def pv_columns_def claim_columns_def
      split: sum.splits intro!: ok_leaf_tables ok_pvs elim: ids_upsert_row elim!: tbl_ok_upsert_row [THEN conjunct1])

lemma updates_ok:
  assumes "inventory_ok db"
  shows "inventory_ok (snd (UpdatePod env i p1 db))" "inventory_ok (snd (UpdateService env i p2 db))"
    "inventory_ok (snd (UpdateIngress env i p3 db))" "inventory_ok (snd (UpdatePersistentVolume env i p4 db))"
    "inventory_ok (snd (UpdatePersistentVolumeClaim env i p5 db))"
  using assms inventory_okD [OF assms]
  by (auto simp: UpdatePod_def UpdateService_def UpdateIngress_def UpdatePersistentVolume_def UpdatePersistentVolumeClaim_def Let_def
      row_ok_defs pod_patch_def service_patch_def ingress_patch_def pv_patch_def claim_patch_def set_opt_def opt_exists_def patch_entity_def row_key_def
      ids_update_row
      split: sum.splits option.splits intro!: ok_leaf_tables ok_pvs elim!: tbl_ok_update_row)

lemma UpdateCluster_ok: "inventory_ok db \<Longrightarrow> inventory_ok (snd (UpdateCluster env i p db))"
  by (auto simp: UpdateCluster_def Let_def ids_update_row cluster_ok_def cluster_patch_def curated_patch_def
      split: option.splits sum.splits intro!: capture_rows_ok ok_clusters elim!: tbl_ok_update_row intro: inventory_okD)

lemma UpdateNamespace_ok: "inventory_ok db \<Longrightarrow> inventory_ok (snd (UpdateNamespace env i p db))"
  by (auto simp: UpdateNamespace_def Let_def ids_update_row namespace_ok_def namespace_patch_def curated_patch_def
      split: option.splits sum.splits intro!: capture_rows_ok ok_namespaces elim!: tbl_ok_update_row intro: inventory_okD)

lemma UpdateNode_ok: "inventory_ok db \<Longrightarrow> inventory_ok (snd (UpdateNode env i p db))"
  by (auto simp: UpdateNode_def Let_def node_ok_def buildNodeUpdateSets_def node_curated_patch_def curated_patch_def
      split: option.splits sum.splits intro!: capture_rows_ok ok_leaf_tables elim!: tbl_ok_update_row intro: inventory_okD)

lemma UpdateWorkload_ok: "inventory_ok db \<Longrightarrow> inventory_ok (snd (UpdateWorkload env i p clearApp db))"
  by (auto simp: UpdateWorkload_def Let_def ids_update_row workload_ok_def workload_patch_def
      split: option.splits sum.splits intro!: capture_rows_ok ok_workloads elim!: tbl_ok_update_row intro: inventory_okD)

text \<open>Clusters and soft deletes.\<close>

lemma touch_cluster_ok:
  assumes "inventory_ok db" "\<And>r. en_id (f r) = en_id r" "\<And>r. row_key (f r) = row_key r" "\<And>r. cluster_ok r \<Longrightarrow> cluster_ok (f r)"
  shows "inventory_ok (touch_cluster i f db)"
  unfolding touch_cluster_def using assms inventory_okD(1) [OF assms(1)]
  by (intro ok_clusters) (auto intro!: tbl_ok_map [where Q = cluster_ok])

lemma EnsureCluster_ok: "inventory_ok db \<Longrightarrow> inventory_ok (snd (EnsureCluster env i db))"
proof (cases "find (has_key () (cm_Name i)) (inv_clusters db)")
  case None
  assume ok: "inventory_ok db"
  let ?new = "new_row (ie_id env) () (cm_Name i) (cluster_columns i (ie_now env)) (curated_columns (cm_curated i)) (ie_now env)"
  have "inventory_ok (db\<lparr>inv_clusters := inv_clusters db @ [?new]\<rparr>)" if "\<not> exists_id (inv_clusters db) (ie_id env)"
    using None that inventory_okD(1) [OF ok]
    by (intro ok_clusters [OF ok] tbl_ok_append)
       (auto simp: find_None_iff has_key_def row_key_def exists_id_iff cluster_ok_def cluster_columns_def curated_columns_def)
  with None ok show ?thesis by (simp add: EnsureCluster_def Let_def capture_rows_ok)
next
  case (Some prev)
  assume "inventory_ok db"
  with Some show ?thesis
    by (auto simp: EnsureCluster_def Let_def row_key_def cluster_ok_def intro!: capture_rows_ok touch_cluster_ok)
qed

lemma soft_delete_ok:
  assumes "inventory_ok db"
  shows "inventory_ok (db\<lparr>inv_workloads := soft_delete now P1 (inv_workloads db), inv_namespaces := soft_delete now P2 (inv_namespaces db),
      inv_nodes := soft_delete now P3 (inv_nodes db), inv_clusters := soft_delete now P4 (inv_clusters db)\<rparr>)"
    "inventory_ok (db\<lparr>inv_workloads := soft_delete now P1 (inv_workloads db), inv_namespaces := soft_delete now P2 (inv_namespaces db)\<rparr>)"
    "inventory_ok (db\<lparr>inv_workloads := soft_delete now P1 (inv_workloads db)\<rparr>)"
    "inventory_ok (db\<lparr>inv_namespaces := soft_delete now P2 (inv_namespaces db)\<rparr>)"
    "inventory_ok (db\<lparr>inv_nodes := soft_delete now P3 (inv_nodes db)\<rparr>)"
  using assms
  by (auto simp: inventory_ok_def row_ok_defs opt_exists_def intro!: tbl_ok_soft_delete split: option.splits elim!: tbl_ok_weaken)

lemma SoftDeleteCluster_ok: "inventory_ok db \<Longrightarrow> inventory_ok (snd (SoftDeleteCluster env i db))"
  by (auto simp: SoftDeleteCluster_def Let_def intro!: capture_ids_rows_ok soft_delete_ok delete_pvs_ok delete_unhistoried_ok)

lemma SoftDeleteNamespace_ok: "inventory_ok db \<Longrightarrow> inventory_ok (snd (SoftDeleteNamespace env i db))"
  by (auto simp: SoftDeleteNamespace_def Let_def intro!: capture_ids_rows_ok soft_delete_ok delete_unhistoried_ok)

lemma clear_namespace_ok: "inventory_ok (snd x) \<Longrightarrow> inventory_ok (snd (clear_namespace env n x))"
  by (auto simp: clear_namespace_def Let_def case_prod_unfold intro!: soft_delete_ok delete_unhistoried_ok)

lemma fold_snd_invariant: "P (snd s) \<Longrightarrow> (\<And>x s. P (snd s) \<Longrightarrow> P (snd (f x s))) \<Longrightarrow> P (snd (fold f xs s))"
  by (induction xs arbitrary: s) auto

lemma fold_keeps: "P s \<Longrightarrow> (\<And>x s. P s \<Longrightarrow> P (f x s)) \<Longrightarrow> P (fold f xs s)"
  by (induction xs arbitrary: s) auto

lemma DeleteNamespacesNotIn_ok:
  assumes "inventory_ok db"
  shows "inventory_ok (snd (DeleteNamespacesNotIn env c keep db))"
proof -
  obtain w d where w: "fold (clear_namespace env) (ids_where (\<lambda>r. not_kept c keep r \<and> live r) (inv_namespaces db)) ([], db) = (w, d)"
    by (rule prod.exhaust)
  have "inventory_ok (snd (fold (clear_namespace env) ids ([], db)))" for ids
    by (rule fold_snd_invariant [where P = inventory_ok]) (simp_all add: assms clear_namespace_ok)
  note this [of "ids_where (\<lambda>r. not_kept c keep r \<and> live r) (inv_namespaces db)"]
  then have "inventory_ok d" unfolding w by (simp only: snd_conv)
  then have "inventory_ok (d\<lparr>inv_namespaces := soft_delete (ie_NOW env) (not_kept c keep) (inv_namespaces d)\<rparr>)"
    by (rule soft_delete_ok)
  then show ?thesis
    unfolding DeleteNamespacesNotIn_def by (auto simp: Let_def w intro!: fold_keeps [where P = inventory_ok] capture_ids_rows_ok)
qed

lemma prunes_ok:
  assumes "inventory_ok db"
  shows "inventory_ok (snd (DeleteNodesNotIn env p keep db))" "inventory_ok (snd (DeleteWorkloadsNotIn env p keepKinds keep db))"
    "inventory_ok (snd (DeletePodsNotIn p keep db))" "inventory_ok (snd (DeleteServicesNotIn p keep db))"
    "inventory_ok (snd (DeleteIngressesNotIn p keep db))" "inventory_ok (snd (DeletePersistentVolumesNotIn p keep db))"
    "inventory_ok (snd (DeletePersistentVolumeClaimsNotIn p keep db))"
  using assms inventory_okD [OF assms]
  by (auto simp: DeleteNodesNotIn_def DeleteWorkloadsNotIn_def DeletePodsNotIn_def DeleteServicesNotIn_def DeleteIngressesNotIn_def
      DeletePersistentVolumesNotIn_def DeletePersistentVolumeClaimsNotIn_def Let_def delete_pvs_ok
      intro!: capture_ids_rows_ok soft_delete_ok ok_leaf_tables elim!: tbl_ok_delete_rows)

section \<open>Reachable inventories\<close>

text \<open>The steps of the store, in any order, with any arguments, in an environment \<open>env\<close> each, together with a change of the time-travel setting and the creation of an
  application. The error answers are steps that change nothing.\<close>

inductive inv_step :: "inv_env \<Rightarrow> inventory \<Rightarrow> inventory \<Rightarrow> bool" where
  s_EnsureCluster: "inv_step env db (snd (EnsureCluster env ic db))"
| s_UpdateCluster: "inv_step env db (snd (UpdateCluster env i uc db))"
| s_DeleteCluster: "inv_step env db (snd (DeleteCluster i db))"
| s_SoftDeleteCluster: "inv_step env db (snd (SoftDeleteCluster env i db))"
| s_CreateNamespace: "inv_step env db (snd (CreateNamespace env ins db))"
| s_UpdateNamespace: "inv_step env db (snd (UpdateNamespace env i uns db))"
| s_DeleteNamespace: "inv_step env db (snd (DeleteNamespace i db))"
| s_SoftDeleteNamespace: "inv_step env db (snd (SoftDeleteNamespace env i db))"
| s_UpsertNamespace: "inv_step env db (snd (UpsertNamespace env ins db))"
| s_DeleteNamespacesNotIn: "inv_step env db (snd (DeleteNamespacesNotIn env p keep db))"
| s_CreateNode: "inv_step env db (snd (CreateNode env ino db))"
| s_UpdateNode: "inv_step env db (snd (UpdateNode env i uno db))"
| s_DeleteNode: "inv_step env db (snd (DeleteNode i db))"
| s_UpsertNode: "inv_step env db (snd (UpsertNode env ino db))"
| s_DeleteNodesNotIn: "inv_step env db (snd (DeleteNodesNotIn env p keep db))"
| s_CreateWorkload: "inv_step env db (snd (CreateWorkload env iw db))"
| s_UpdateWorkload: "inv_step env db (snd (UpdateWorkload env i uw clearApp db))"
| s_DeleteWorkload: "inv_step env db (snd (DeleteWorkload i db))"
| s_UpsertWorkload: "inv_step env db (snd (UpsertWorkload env iw db))"
| s_DeleteWorkloadsNotIn: "inv_step env db (snd (DeleteWorkloadsNotIn env p keepKinds keep db))"
| s_CreatePod: "inv_step env db (snd (CreatePod env ip db))"
| s_UpdatePod: "inv_step env db (snd (UpdatePod env i up db))"
| s_DeletePod: "inv_step env db (snd (DeletePod i db))"
| s_UpsertPod: "inv_step env db (snd (UpsertPod env ip db))"
| s_DeletePodsNotIn: "inv_step env db (snd (DeletePodsNotIn p keep db))"
| s_CreateService: "inv_step env db (snd (CreateService env isv db))"
| s_UpdateService: "inv_step env db (snd (UpdateService env i usv db))"
| s_DeleteService: "inv_step env db (snd (DeleteService i db))"
| s_UpsertService: "inv_step env db (snd (UpsertService env isv db))"
| s_DeleteServicesNotIn: "inv_step env db (snd (DeleteServicesNotIn p keep db))"
| s_CreateIngress: "inv_step env db (snd (CreateIngress env iig db))"
| s_UpdateIngress: "inv_step env db (snd (UpdateIngress env i uig db))"
| s_DeleteIngress: "inv_step env db (snd (DeleteIngress i db))"
| s_UpsertIngress: "inv_step env db (snd (UpsertIngress env iig db))"
| s_DeleteIngressesNotIn: "inv_step env db (snd (DeleteIngressesNotIn p keep db))"
| s_CreatePersistentVolume: "inv_step env db (snd (CreatePersistentVolume env ipv db))"
| s_UpdatePersistentVolume: "inv_step env db (snd (UpdatePersistentVolume env i upv db))"
| s_DeletePersistentVolume: "inv_step env db (snd (DeletePersistentVolume i db))"
| s_UpsertPersistentVolume: "inv_step env db (snd (UpsertPersistentVolume env ipv db))"
| s_DeletePersistentVolumesNotIn: "inv_step env db (snd (DeletePersistentVolumesNotIn p keep db))"
| s_CreatePersistentVolumeClaim: "inv_step env db (snd (CreatePersistentVolumeClaim env icl db))"
| s_UpdatePersistentVolumeClaim: "inv_step env db (snd (UpdatePersistentVolumeClaim env i ucl db))"
| s_DeletePersistentVolumeClaim: "inv_step env db (snd (DeletePersistentVolumeClaim i db))"
| s_UpsertPersistentVolumeClaim: "inv_step env db (snd (UpsertPersistentVolumeClaim env icl db))"
| s_DeletePersistentVolumeClaimsNotIn: "inv_step env db (snd (DeletePersistentVolumeClaimsNotIn p keep db))"
| s_setting: "inv_step env db (db\<lparr>inv_time_travel := e\<rparr>)"
| s_application: "inv_step env db (db\<lparr>inv_applications := a # inv_applications db\<rparr>)"

definition empty_inventory :: inventory where
  "empty_inventory =
     \<lparr>inv_clusters = [], inv_namespaces = [], inv_nodes = [], inv_pvs = [], inv_workloads = [], inv_pods = [], inv_services = [],
      inv_ingresses = [], inv_claims = [], inv_applications = [], inv_history = [], inv_time_travel = Some True\<rparr>"

lemma empty_inventory_ok: "inventory_ok empty_inventory"
  by (simp add: empty_inventory_def inventory_ok_def tbl_ok_def history_ok_def)

lemma setting_ok: "inventory_ok db \<Longrightarrow> inventory_ok (db\<lparr>inv_time_travel := e\<rparr>)"
  by (simp add: inventory_ok_def)

lemma application_ok: "inventory_ok db \<Longrightarrow> inventory_ok (db\<lparr>inv_applications := a # inv_applications db\<rparr>)"
  by (auto simp: inventory_ok_def workload_ok_def elim!: tbl_ok_weaken)

lemmas step_ok_rules =
  EnsureCluster_ok UpdateCluster_ok DeleteCluster_ok SoftDeleteCluster_ok UpdateNamespace_ok SoftDeleteNamespace_ok UpsertNamespace_ok
  DeleteNamespacesNotIn_ok UpdateNode_ok UpsertNode_ok UpdateWorkload_ok UpsertWorkload_ok creates_ok deletes_ok updates_ok upsert_leaf_ok
  prunes_ok setting_ok application_ok

lemma inv_step_ok: "inv_step env db db' \<Longrightarrow> inventory_ok db \<Longrightarrow> inventory_ok db'"
  by (induction rule: inv_step.induct) (assumption | rule step_ok_rules)+

definition inv_reach :: "inventory \<Rightarrow> bool" where
  "inv_reach = (\<lambda>d d'. \<exists>env. inv_step env d d')\<^sup>*\<^sup>* empty_inventory"

lemma inv_reach_ok: "inv_reach db \<Longrightarrow> inventory_ok db"
  unfolding inv_reach_def by (induction rule: rtranclp_induct) (auto simp: empty_inventory_ok intro: inv_step_ok)

lemma inv_reach_step: "inv_reach db \<Longrightarrow> inv_step env db db' \<Longrightarrow> inv_reach db'"
  unfolding inv_reach_def by (rule rtranclp.rtrancl_into_rtrancl) auto

lemma inv_reach_empty: "inv_reach empty_inventory"
  by (simp add: inv_reach_def)


text \<open>A small inventory: a cluster with a namespace, a deployment, a pod of it and a node.\<close>

definition sample_env :: "nat \<Rightarrow> inv_env" where
  "sample_env n = \<lparr>ie_now = 100 * int n, ie_NOW = 100 * int n, ie_id = of_nat n, ie_history_id = (\<lambda>k. of_nat (1000 + k)),
     ie_actor = \<lparr>actor_ID = None, actor_Kind = ''system''\<rparr>\<rparr>"

definition no_curated :: curated_in where
  "no_curated = \<lparr>ci_Owner = None, ci_Criticality = None, ci_Notes = None, ci_RunbookUrl = None, ci_Annotations = None\<rparr>"

definition sample_cluster :: ClusterCreate where
  "sample_cluster = \<lparr>cm_DisplayName = None, cm_Environment = None, cm_Provider = None, cm_Region = None, cm_KubernetesVersion = Some ''1.30'',
     cm_ApiEndpoint = None, cm_Labels = None, cm_curated = no_curated, cm_Name = ''prod''\<rparr>"

definition sample_namespace :: NamespaceCreate where
  "sample_namespace = \<lparr>nm_DisplayName = None, nm_Phase = Some ''Active'', nm_Labels = None, nm_curated = no_curated,
     nm_ClusterId = 1, nm_Name = ''web''\<rparr>"

definition sample_workload :: WorkloadCreate where
  "sample_workload = \<lparr>wm_Replicas = Some 2, wm_ReadyReplicas = Some 2, wm_Containers = None, wm_Labels = None, wm_Spec = None,
     wm_NamespaceId = 2, wm_Kind = ''Deployment'', wm_Name = ''api''\<rparr>"

definition sample_pod :: PodCreate where
  "sample_pod = \<lparr>pom_Phase = Some ''Running'', pom_NodeName = None, pom_PodIp = None, pom_WorkloadId = Some 3, pom_Containers = None,
     pom_Labels = None, pom_NamespaceId = 2, pom_Name = ''api-1''\<rparr>"

definition sample_db :: inventory where
  "sample_db =
     snd (UpsertPod (sample_env 4) sample_pod (snd (UpsertWorkload (sample_env 3) sample_workload
       (snd (UpsertNamespace (sample_env 2) sample_namespace (snd (EnsureCluster (sample_env 1) sample_cluster empty_inventory)))))))"

lemma sample_db_reach: "inv_reach sample_db"
  unfolding sample_db_def by (intro inv_reach_step [OF _ s_UpsertPod] inv_reach_step [OF _ s_UpsertWorkload]
    inv_reach_step [OF _ s_UpsertNamespace] inv_reach_step [OF _ s_EnsureCluster] inv_reach_empty)

lemma sample_db_pod: "map en_name (inv_pods sample_db) = [''api-1'']"
  by code_simp


end
