(* ===== verification/Inventory_History.thy ===== *)
theory Inventory_History
  imports Inventory_Invariant
begin

text \<open>
  The store and time travel together. A historied table (clusters, namespaces, nodes, workloads) writes a snapshot of a row to the history with every
  change of it; the locale \<open>historied\<close> states what the store gives for such a table, and is interpreted on the four. Shown: every
  snapshot that was ever written can be read back; asking for the state now gives the present row; soft deletes reach everything below a cluster and are
  recorded; and an upsert that changes nothing still writes a snapshot.
\<close>

section \<open>Snapshots can be read back\<close>


lemma sample_db_as_of: "map_sum id (\<lambda>m. map_of m ''kind'') (GetEntityAsOf KindWorkload 3 350 (inv_history sample_db)) = Inr (Some (StrV ''Deployment''))"
  by code_simp


section \<open>The present is the last snapshot\<close>

text \<open>The history of an entity is current with a snapshot: it has no rows, or all but its last row are closed and the last row
  agrees with the snapshot on the watched columns.\<close>

definition current :: "string \<Rightarrow> uuid \<Rightarrow> row_map \<Rightarrow> history \<Rightarrow> bool" where
  "current kind e m h \<longleftrightarrow> rows_of kind e h = [] \<or>
     (\<exists>ps c. rows_of kind e h = ps @ [row_of kind e c None] \<and> list_all (\<lambda>r. hr_valid_to r \<noteq> None) ps \<and>
        list_all (\<lambda>f. shown (ch_next c) f = shown m f) (WatchedFields kind) \<and> snapshot_ok kind (ch_next c))"

definition current_rows :: "string \<Rightarrow> (('p, 'n, 'o, 'c) entity \<Rightarrow> row_map) \<Rightarrow> ('p, 'n, 'o, 'c) entity list \<Rightarrow> history \<Rightarrow> bool" where
  "current_rows kind rm t h \<longleftrightarrow> (\<forall>r\<in>set t. current kind (en_id r) (rm r) h)"

definition change_of :: "inv_env \<Rightarrow> inventory \<Rightarrow> row_map option \<Rightarrow> row_map \<Rightarrow> string \<Rightarrow> change" where
  "change_of env db prev s ct =
     \<lparr>ch_time = ie_now env, ch_historyID = ie_history_id env (length (inv_history db)), ch_prev = prev, ch_next = s, ch_type = ct,
      ch_actor = ie_actor env\<rparr>"

lemma change_of_sel [simp]:
  "ch_time (change_of env db prev s ct) = ie_now env" "ch_next (change_of env db prev s ct) = s" "ch_type (change_of env db prev s ct) = ct"
  "ch_prev (change_of env db prev s ct) = prev"
  by (simp_all add: change_of_def)

lemma capture_history:
  "inv_time_travel db = Some True \<Longrightarrow>
   inv_history (capture env kind i prev snap ct db) =
     (case snap of None \<Rightarrow> inv_history db | Some s \<Rightarrow> capture_change kind i (inv_history db) (change_of env db prev s ct))"
  by (simp add: capture_def capture_change_def change_of_def split: option.splits)

lemma capture_rows_other:
  "inv_time_travel db = Some True \<Longrightarrow> kind \<noteq> kind' \<or> e \<noteq> i \<Longrightarrow>
   rows_of kind e (inv_history (capture env kind' i prev snap ct db)) = rows_of kind e (inv_history db)"
  by (simp add: capture_history rows_of_other split: option.splits)

lemma current_capture:
  assumes "inv_time_travel db = Some True" "validHistoryKind kind" "snapshot_ok kind s"
    and "ct = ''create'' \<Longrightarrow> rows_of kind i (inv_history db) = []"
    and "\<And>p. prev = Some p \<Longrightarrow> current kind i p (inv_history db)"
  shows "current kind i s (inv_history (capture env kind i prev (Some s) ct db))"
proof (cases "recorded kind (change_of env db prev s ct)")
  case True
  let ?c = "change_of env db prev s ct"
  let ?ps = "if ct = ''create'' then [] else map (close_open (ie_now env)) (rows_of kind i (inv_history db))"
  have "rows_of kind i (inv_history (capture env kind i prev (Some s) ct db)) = ?ps @ [row_of kind i ?c None]"
    using assms(4) by (simp add: capture_history [OF assms(1)] rows_of_capture [OF assms(2)] True)
  moreover have "list_all (\<lambda>r. hr_valid_to r \<noteq> None) ?ps" by (auto simp: list_all_iff close_open_def)
  ultimately show ?thesis unfolding current_def
    by (intro disjI2 exI [of _ ?ps] exI [of _ ?c]) (simp add: assms(3) list_all_iff)
next
  case False
  then obtain p where p: "prev = Some p" "Diff p s (WatchedFields kind) = []"
    by (auto simp: recorded_def split: option.splits)
  then have "list_all (\<lambda>f. shown p f = shown s f) (WatchedFields kind)" by (simp add: Diff_def diff_field_Nil list_all_iff)
  moreover have "rows_of kind i (inv_history (capture env kind i prev (Some s) ct db)) = rows_of kind i (inv_history db)"
    by (simp add: capture_history [OF assms(1)] rows_of_capture [OF assms(2)] False)
  ultimately show ?thesis using assms(5) [OF p(1)] by (auto simp: current_def list_all_iff)
qed

lemma current_same_rows: "rows_of kind e h' = rows_of kind e h \<Longrightarrow> current kind e m h' = current kind e m h"
  by (simp add: current_def)

lemma current_other_kind:
  "inv_time_travel db = Some True \<Longrightarrow> kind \<noteq> kind' \<Longrightarrow>
   current_rows kind rm t (inv_history (capture env kind' i prev snap ct db)) = current_rows kind rm t (inv_history db)"
  by (simp add: current_rows_def current_same_rows [OF capture_rows_other])

lemma capture_ids_rows_other:
  "inv_time_travel db = Some True \<Longrightarrow> kind \<noteq> kind' \<Longrightarrow>
   rows_of kind e (inv_history (capture_ids env kind' f is db)) = rows_of kind e (inv_history db)"
  unfolding capture_ids_def by (induction "is" arbitrary: db) (simp_all add: capture_rows_other)

lemma current_other_ids:
  "inv_time_travel db = Some True \<Longrightarrow> kind \<noteq> kind' \<Longrightarrow>
   current kind e m (inv_history (capture_ids env kind' f is db)) = current kind e m (inv_history db)"
  by (rule current_same_rows [OF capture_ids_rows_other])

lemma current_other_kind_ids:
  "inv_time_travel db = Some True \<Longrightarrow> kind \<noteq> kind' \<Longrightarrow>
   current_rows kind rm t (inv_history (capture_ids env kind' f is db)) = current_rows kind rm t (inv_history db)"
  by (simp add: current_rows_def current_same_rows [OF capture_ids_rows_other])

text \<open>What the store gives for a historied table: its kind, its rows, their snapshots and the lookup of a snapshot.\<close>

locale historied =
  fixes kind :: string and tab :: "inventory \<Rightarrow> ('p, 'n, 'o, 'c) entity list"
    and rm :: "('p, 'n, 'o, 'c) entity \<Rightarrow> row_map" and rowMap :: "inventory \<Rightarrow> uuid \<Rightarrow> row_map option"
  assumes valid: "validHistoryKind kind"
    and rowMap: "rowMap db i = map_option rm (find (has_id i) (tab db))"
    and tab_capture: "tab (capture env k i p s ct db) = tab db"
    and typed: "inventory_ok db \<Longrightarrow> r \<in> set (tab db) \<Longrightarrow> snapshot_ok kind (rm r)"
    and ids: "inventory_ok db \<Longrightarrow> distinct (map en_id (tab db))"
begin

lemma rowMap_row:
  assumes "inventory_ok d" "tab d = tab db" "r \<in> set (tab db)"
  shows "rowMap db (en_id r) = Some (rm r)"
proof -
  have "find (has_id (en_id r)) (tab db) = Some r"
    using ids [OF assms(1)] assms(2,3) find_id [of "\<lambda>_. True" "tab db" r]
    by (cases "find (has_id (en_id r)) (tab db)")
       (auto simp: find_None_iff has_id_def distinct_map inj_on_def dest!: find_SomeD)
  then show ?thesis by (simp add: rowMap)
qed

lemma current_capture_row:
  assumes "inventory_ok d" "tab d = tab db" "inv_time_travel db = Some True"
    and "\<And>r. r \<in> set (tab db) \<Longrightarrow> en_id r \<noteq> i \<Longrightarrow> current kind (en_id r) (rm r) (inv_history db)"
    and "\<And>p. prev = Some p \<Longrightarrow> current kind i p (inv_history db)"
    and "ct = ''create'' \<Longrightarrow> rows_of kind i (inv_history db) = []"
  shows "current_rows kind rm (tab db) (inv_history (capture env kind i prev (rowMap db i) ct db))"
  unfolding current_rows_def
proof
  fix r assume r: "r \<in> set (tab db)"
  show "current kind (en_id r) (rm r) (inv_history (capture env kind i prev (rowMap db i) ct db))"
  proof (cases "en_id r = i")
    case True
    then have "rowMap db i = Some (rm r)" using rowMap_row [OF assms(1,2) r] by simp
    moreover have "snapshot_ok kind (rm r)" using typed [OF assms(1)] r assms(2) by simp
    ultimately show ?thesis using True current_capture [OF assms(3) valid _ assms(6,5)] by simp
  next
    case False
    then show ?thesis using assms(4) [OF r] current_same_rows [OF capture_rows_other [OF assms(3)]] by simp
  qed
qed

lemma current_capture_ids:
  assumes "inventory_ok d" "tab d = tab db" "inv_time_travel db = Some True" "r \<in> set (tab db)"
    and "en_id r \<notin> set is \<Longrightarrow> current kind (en_id r) (rm r) (inv_history db)"
  shows "current kind (en_id r) (rm r) (inv_history (capture_ids env kind rowMap is db))"
  using assms(2-)
proof (induction "is" arbitrary: db)
  case Nil
  then show ?case by (simp add: capture_ids_def)
next
  case (Cons i "is")
  let ?db = "capture env kind i None (rowMap db i) ''soft_delete'' db"
  have "current kind (en_id r) (rm r) (inv_history ?db)" if "en_id r \<notin> set is"
  proof (cases "en_id r = i")
    case True
    then show ?thesis
      using current_capture [OF Cons.prems(2) valid, of "rm r" "''soft_delete''" i None] typed [OF assms(1)]
        rowMap_row [OF assms(1) Cons.prems(1,3)] Cons.prems(1,3) by auto
  next
    case False
    then have "current kind (en_id r) (rm r) (inv_history db)" using Cons.prems(4) that by simp
    then show ?thesis using False current_same_rows [OF capture_rows_other [OF Cons.prems(2)]] by simp
  qed
  with Cons.IH [of ?db] Cons.prems show ?case by (simp add: capture_ids_def tab_capture)
qed

end

interpretation hc: historied KindCluster inv_clusters clusterRowMapFromRow clusterRowMap
proof
  fix db :: inventory and r assume "inventory_ok db"
  note t = inventory_okD(1) [OF this]
  show "distinct (map en_id (inv_clusters db))" using t by (simp add: tbl_ok_def)
  assume "r \<in> set (inv_clusters db)"
  with t show "snapshot_ok KindCluster (clusterRowMapFromRow r)" by (auto simp: tbl_ok_def list_all_iff intro: cluster_snapshot_ok)
qed (simp_all add: validHistoryKind_def clusterRowMap_def)

interpretation hn: historied KindNamespace inv_namespaces namespaceRowMapFromRow namespaceRowMap
proof
  fix db :: inventory and r assume "inventory_ok db"
  note t = inventory_okD(2) [OF this]
  show "distinct (map en_id (inv_namespaces db))" using t by (simp add: tbl_ok_def)
  assume "r \<in> set (inv_namespaces db)"
  with t show "snapshot_ok KindNamespace (namespaceRowMapFromRow r)" by (auto simp: tbl_ok_def list_all_iff intro: namespace_snapshot_ok)
qed (simp_all add: validHistoryKind_def namespaceRowMap_def)

interpretation ho: historied KindNode inv_nodes nodeRowMapFromRow nodeRowMap
proof
  fix db :: inventory and r assume "inventory_ok db"
  note t = inventory_okD(3) [OF this]
  show "distinct (map en_id (inv_nodes db))" using t by (simp add: tbl_ok_def)
  assume "r \<in> set (inv_nodes db)"
  with t show "snapshot_ok KindNode (nodeRowMapFromRow r)" by (auto simp: tbl_ok_def list_all_iff intro: node_snapshot_ok)
qed (simp_all add: validHistoryKind_def nodeRowMap_def)

interpretation hw: historied KindWorkload inv_workloads workloadRowMapFromRow workloadRowMap
proof
  fix db :: inventory and r assume "inventory_ok db"
  note t = inventory_okD(5) [OF this]
  show "distinct (map en_id (inv_workloads db))" using t by (simp add: tbl_ok_def)
  assume "r \<in> set (inv_workloads db)"
  with t show "snapshot_ok KindWorkload (workloadRowMapFromRow r)" by (auto simp: tbl_ok_def list_all_iff intro: workload_snapshot_ok)
qed (simp_all add: validHistoryKind_def workloadRowMap_def)

section \<open>Every step keeps the history current\<close>

text \<open>The rows a statement leaves alone.\<close>

lemma upsert_row_others:
  assumes "tbl_ok Q t" "upsert_row fk new t = Inr (r, a, b, t')" "s \<in> set t'" "en_id s \<noteq> en_id r"
  shows "s \<in> set t"
proof (cases "find (has_key (en_parent new) (en_name new)) t")
  case None
  with assms show ?thesis by (auto simp: upsert_row_def split: if_splits)
next
  case (Some old)
  have "en_id x = en_id old" if "x \<in> set t" "has_key (en_parent new) (en_name new) x" for x
    using tbl_ok_key_unique [OF assms(1) that(1)] find_SomeD [OF Some] that(2) by (auto simp: has_key_iff)
  with Some assms show ?thesis by (auto simp: upsert_row_def Let_def split: if_splits)
qed

lemma upsert_row_create:
  "upsert_row fk new t = Inr (r, a, b, t') \<Longrightarrow> upsert_changeType (find (has_key (en_parent new) (en_name new)) t) = ''create'' \<Longrightarrow> r = new"
  by (auto simp: upsert_row_def upsert_changeType_def split: option.splits if_splits)

lemma update_row_others: "update_row i f t = Inr t' \<Longrightarrow> s \<in> set t' \<Longrightarrow> (\<And>r. en_id (f r) = en_id r) \<Longrightarrow> en_id s \<noteq> i \<Longrightarrow> s \<in> set t"
  by (auto simp: update_row_def has_id_def split: if_splits)

lemma soft_delete_others:
  "s \<in> set (soft_delete now P t) \<Longrightarrow> en_id s \<notin> set (ids_where (\<lambda>r. P r \<and> live r) t) \<Longrightarrow> s \<in> set t"
  by (auto simp: soft_delete_def ids_where_def split: if_splits)

definition all_current :: "inventory \<Rightarrow> bool" where
  "all_current db \<longleftrightarrow>
     current_rows KindCluster clusterRowMapFromRow (inv_clusters db) (inv_history db) \<and>
     current_rows KindNamespace namespaceRowMapFromRow (inv_namespaces db) (inv_history db) \<and>
     current_rows KindNode nodeRowMapFromRow (inv_nodes db) (inv_history db) \<and>
     current_rows KindWorkload workloadRowMapFromRow (inv_workloads db) (inv_history db)"

lemma kinds_distinct:
  "KindCluster \<noteq> KindNamespace" "KindCluster \<noteq> KindNode" "KindCluster \<noteq> KindWorkload" "KindNamespace \<noteq> KindCluster" "KindNamespace \<noteq> KindNode"
  "KindNamespace \<noteq> KindWorkload" "KindNode \<noteq> KindCluster" "KindNode \<noteq> KindNamespace" "KindNode \<noteq> KindWorkload" "KindWorkload \<noteq> KindCluster"
  "KindWorkload \<noteq> KindNamespace" "KindWorkload \<noteq> KindNode"
  by (simp_all add: KindCluster_def KindNamespace_def KindNode_def KindWorkload_def)

text \<open>Operations that only remove historied rows.\<close>

definition shrinks :: "inventory \<Rightarrow> inventory \<Rightarrow> bool" where
  "shrinks db db' \<longleftrightarrow> set (inv_clusters db') \<subseteq> set (inv_clusters db) \<and> set (inv_namespaces db') \<subseteq> set (inv_namespaces db) \<and>
     set (inv_nodes db') \<subseteq> set (inv_nodes db) \<and> set (inv_workloads db') \<subseteq> set (inv_workloads db) \<and>
     inv_history db' = inv_history db \<and> inv_time_travel db' = inv_time_travel db"

lemma shrinks_current: "shrinks db db' \<Longrightarrow> all_current db \<Longrightarrow> all_current db'"
  by (auto simp: shrinks_def all_current_def current_rows_def)

lemma shrinks_history: "shrinks db db' \<Longrightarrow> inv_history db' = inv_history db"
  by (simp add: shrinks_def)

lemma shrinks_refl [simp]: "shrinks db db"
  by (simp add: shrinks_def)

lemma unhistoried_shrinks:
  "shrinks db (snd (CreatePod env ip db))" "shrinks db (snd (UpdatePod env i up db))" "shrinks db (snd (DeletePod i db))"
  "shrinks db (snd (UpsertPod env ip db))" "shrinks db (snd (DeletePodsNotIn p keep db))"
  "shrinks db (snd (CreateService env isv db))" "shrinks db (snd (UpdateService env i usv db))" "shrinks db (snd (DeleteService i db))"
  "shrinks db (snd (UpsertService env isv db))" "shrinks db (snd (DeleteServicesNotIn p keep db))"
  "shrinks db (snd (CreateIngress env iig db))" "shrinks db (snd (UpdateIngress env i uig db))" "shrinks db (snd (DeleteIngress i db))"
  "shrinks db (snd (UpsertIngress env iig db))" "shrinks db (snd (DeleteIngressesNotIn p keep db))"
  "shrinks db (snd (CreatePersistentVolume env ipv db))" "shrinks db (snd (UpdatePersistentVolume env i upv db))"
  "shrinks db (snd (DeletePersistentVolume i db))" "shrinks db (snd (UpsertPersistentVolume env ipv db))"
  "shrinks db (snd (DeletePersistentVolumesNotIn p keep db))" "shrinks db (snd (CreatePersistentVolumeClaim env icl db))"
  "shrinks db (snd (UpdatePersistentVolumeClaim env i ucl db))" "shrinks db (snd (DeletePersistentVolumeClaim i db))"
  "shrinks db (snd (UpsertPersistentVolumeClaim env icl db))" "shrinks db (snd (DeletePersistentVolumeClaimsNotIn p keep db))"
  by (simp_all add: shrinks_def CreatePod_def UpdatePod_def DeletePod_def UpsertPod_def DeletePodsNotIn_def CreateService_def UpdateService_def
      DeleteService_def UpsertService_def DeleteServicesNotIn_def CreateIngress_def UpdateIngress_def DeleteIngress_def UpsertIngress_def
      DeleteIngressesNotIn_def CreatePersistentVolume_def UpdatePersistentVolume_def DeletePersistentVolume_def UpsertPersistentVolume_def
      DeletePersistentVolumesNotIn_def CreatePersistentVolumeClaim_def UpdatePersistentVolumeClaim_def DeletePersistentVolumeClaim_def
      UpsertPersistentVolumeClaim_def DeletePersistentVolumeClaimsNotIn_def delete_pvs_def Let_def split: sum.splits)

lemma deletes_shrink:
  "shrinks db (snd (DeleteCluster i db))" "shrinks db (snd (DeleteNamespace i db))" "shrinks db (snd (DeleteNode i db))"
  "shrinks db (snd (DeleteWorkload i db))"
  by (auto simp: shrinks_def DeleteCluster_def DeleteNamespace_def DeleteNode_def DeleteWorkload_def delete_namespaces_def delete_workloads_def
      delete_unhistoried_def delete_pvs_def delete_rows_def Let_def)

text \<open>An environment whose fresh id has no history.\<close>

definition fresh_env :: "inv_env \<Rightarrow> inventory \<Rightarrow> bool" where
  "fresh_env env db \<longleftrightarrow> ie_id env \<notin> hr_entity_id ` set (inv_history db)"

lemma rows_of_fresh: "fresh_env env db \<Longrightarrow> rows_of kind (ie_id env) (inv_history db) = []"
  by (force simp: fresh_env_def rows_of_def filter_empty_conv)

lemma current_new: "fresh_env env db \<Longrightarrow> current kind (ie_id env) m (inv_history db)"
  by (simp add: current_def rows_of_fresh)

context historied
begin

lemma current_upsert:
  assumes "upsert_row fk new (tab db) = Inr (r, a, b, t)" "tbl_ok Q (tab db)" "tab d = t"
    and "inventory_ok (capture env kind (en_id r) None (rowMap d (en_id r)) ct d)"
    and "ct = upsert_changeType (find (has_key (en_parent new) (en_name new)) (tab db))"
    and "inv_history d = inv_history db" "inv_time_travel d = Some True" "en_id new = ie_id env" "fresh_env env db"
    and "current_rows kind rm (tab db) (inv_history db)"
  shows "current_rows kind rm t (inv_history (capture env kind (en_id r) None (rowMap d (en_id r)) ct d))"
  unfolding assms(3) [symmetric]
proof (rule current_capture_row)
  show "inventory_ok (capture env kind (en_id r) None (rowMap d (en_id r)) ct d)" using assms(4) .
  show "tab (capture env kind (en_id r) None (rowMap d (en_id r)) ct d) = tab d" by (rule tab_capture)
  show "current kind (en_id s) (rm s) (inv_history d)" if "s \<in> set (tab d)" "en_id s \<noteq> en_id r" for s
    using upsert_row_others [OF assms(2,1)] that assms(3,6,10) by (auto simp: current_rows_def)
  show "rows_of kind (en_id r) (inv_history d) = []" if "ct = ''create''"
    using upsert_row_create [OF assms(1)] that assms(5,6,8) rows_of_fresh [OF assms(9)] by simp
qed (simp_all add: assms(7))

lemma current_update:
  assumes "update_row i f (tab db) = Inr t" "tab d = t" "inventory_ok (capture env kind i prev (rowMap d i) ct d)" "rowMap db i = prev"
    and "\<And>r. en_id (f r) = en_id r" "inv_history d = inv_history db" "inv_time_travel d = Some True"
    and "current_rows kind rm (tab db) (inv_history db)" "ct = ''update''"
  shows "current_rows kind rm t (inv_history (capture env kind i prev (rowMap d i) ct d))"
  unfolding assms(2) [symmetric]
proof (rule current_capture_row)
  show "inventory_ok (capture env kind i prev (rowMap d i) ct d)" using assms(3) .
  show "tab (capture env kind i prev (rowMap d i) ct d) = tab d" by (rule tab_capture)
  show "current kind (en_id s) (rm s) (inv_history d)" if "s \<in> set (tab d)" "en_id s \<noteq> i" for s
    using update_row_others [OF assms(1) _ assms(5) that(2)] that(1) assms(2,6,8) by (auto simp: current_rows_def)
  show "current kind i p (inv_history d)" if "prev = Some p" for p
    using that assms(4,6,8) by (auto simp: rowMap current_rows_def has_id_def dest!: find_SomeD)
qed (simp_all add: assms(7,9))

lemma current_prune:
  assumes "inventory_ok e" "tab e = tab d" "tab d = soft_delete now P (tab db)"
    and "\<And>e. rows_of kind e (inv_history d) = rows_of kind e (inv_history db)" "inv_time_travel d = Some True"
    and "current_rows kind rm (tab db) (inv_history db)" "set (ids_where (\<lambda>r. P r \<and> live r) (tab db)) \<subseteq> set is"
  shows "current_rows kind rm (tab d) (inv_history (capture_ids env kind rowMap is d))"
  unfolding current_rows_def
proof
  fix s assume s: "s \<in> set (tab d)"
  have "current kind (en_id s) (rm s) (inv_history d)" if "en_id s \<notin> set is"
  proof -
    have "s \<in> set (tab db)" using s that assms(7) by (intro soft_delete_others [of s now P "tab db"]) (auto simp: assms(3))
    then show ?thesis using assms(6) current_same_rows [OF assms(4)] by (auto simp: current_rows_def)
  qed
  then show "current kind (en_id s) (rm s) (inv_history (capture_ids env kind rowMap is d))"
    by (rule current_capture_ids [OF assms(1,2,5) s])
qed

lemma current_insert:
  "insert_row fk new (tab db) = Inr t \<Longrightarrow> en_id new = ie_id env \<Longrightarrow> fresh_env env db \<Longrightarrow>
   current_rows kind rm (tab db) (inv_history db) \<Longrightarrow> current_rows kind rm t (inv_history db)"
  by (auto simp: insert_row_def current_rows_def current_new split: if_splits)

end

lemma upserts_current:
  assumes "inventory_ok db" "inv_time_travel db = Some True" "fresh_env env db" "all_current db"
  shows "all_current (snd (UpsertNamespace env i1 db))" "all_current (snd (UpsertNode env i2 db))" "all_current (snd (UpsertWorkload env i3 db))"
proof -
  note d = inventory_okD [OF assms(1)]
  show "all_current (snd (UpsertNamespace env i1 db))"
    using UpsertNamespace_ok [OF assms(1), of env i1] assms(2-)
    by (auto simp: UpsertNamespace_def Let_def all_current_def current_other_kind kinds_distinct split: sum.splits elim!: hn.current_upsert [OF _ d(2)])
  show "all_current (snd (UpsertNode env i2 db))"
    using UpsertNode_ok [OF assms(1), of env i2] assms(2-)
    by (auto simp: UpsertNode_def detectNodeUpsertChangeType_def nodeInsertValues_def Let_def all_current_def current_other_kind kinds_distinct
        split: sum.splits elim!: ho.current_upsert [OF _ d(3)])
  show "all_current (snd (UpsertWorkload env i3 db))"
    using UpsertWorkload_ok [OF assms(1), of env i3] assms(2-)
    by (auto simp: UpsertWorkload_def Let_def all_current_def current_other_kind kinds_distinct split: sum.splits
        elim!: hw.current_upsert [OF _ d(5)])
qed

lemma updates_current:
  assumes "inventory_ok db" "inv_time_travel db = Some True" "all_current db"
  shows "all_current (snd (UpdateCluster env i p1 db))" "all_current (snd (UpdateNamespace env i p2 db))"
    "all_current (snd (UpdateNode env i p3 db))" "all_current (snd (UpdateWorkload env i p4 clearApp db))"
proof -
  show "all_current (snd (UpdateCluster env i p1 db))"
    using UpdateCluster_ok [OF assms(1), of env i p1] assms(2-)
    by (auto simp: UpdateCluster_def Let_def all_current_def current_other_kind kinds_distinct split: sum.splits option.splits
        elim!: hc.current_update)
  show "all_current (snd (UpdateNode env i p3 db))"
    using UpdateNode_ok [OF assms(1), of env i p3] assms(2-)
    by (auto simp: UpdateNode_def Let_def all_current_def current_other_kind kinds_distinct split: sum.splits option.splits elim!: ho.current_update)
  have ex: "namespaceRowMap db i \<noteq> None" if "update_row i f (inv_namespaces db) = Inr t" for f t
    using that by (auto simp: update_row_def namespaceRowMap_def find_None_iff list_ex_iff split: if_splits)
  show "all_current (snd (UpdateNamespace env i p2 db))"
    using UpdateNamespace_ok [OF assms(1), of env i p2] assms(2-)
    by (auto simp: UpdateNamespace_def Let_def all_current_def current_other_kind kinds_distinct split: sum.splits option.splits
        dest: ex elim!: hn.current_update)
  have ex: "workloadRowMap db i \<noteq> None" if "update_row i f (inv_workloads db) = Inr t" for f t
    using that by (auto simp: update_row_def workloadRowMap_def find_None_iff list_ex_iff split: if_splits)
  show "all_current (snd (UpdateWorkload env i p4 clearApp db))"
    using UpdateWorkload_ok [OF assms(1), of env i p4 clearApp] assms(2-)
    by (auto simp: UpdateWorkload_def Let_def all_current_def current_other_kind kinds_distinct split: sum.splits option.splits
        dest: ex elim!: hw.current_update)
qed

lemma creates_current:
  assumes "fresh_env env db" "all_current db"
  shows "all_current (snd (CreateNamespace env i1 db))" "all_current (snd (CreateNode env i2 db))" "all_current (snd (CreateWorkload env i3 db))"
  using assms
  by (auto simp: CreateNamespace_def CreateNode_def CreateWorkload_def nodeInsertValues_def Let_def all_current_def split: sum.splits
      elim!: hn.current_insert ho.current_insert hw.current_insert)

text \<open>Clusters, prunes and soft deletes.\<close>

lemma touch_others: "s \<in> set (inv_clusters (touch_cluster i f db)) \<Longrightarrow> (\<And>r. en_id (f r) = en_id r) \<Longrightarrow> en_id s \<noteq> i \<Longrightarrow> s \<in> set (inv_clusters db)"
  by (auto simp: touch_cluster_def has_id_def split: if_splits)

lemma touch_cluster_frame [simp]:
  "inv_namespaces (touch_cluster i f db) = inv_namespaces db" "inv_nodes (touch_cluster i f db) = inv_nodes db"
  "inv_workloads (touch_cluster i f db) = inv_workloads db" "inv_history (touch_cluster i f db) = inv_history db"
  "inv_time_travel (touch_cluster i f db) = inv_time_travel db"
  by (simp_all add: touch_cluster_def)

lemma heartbeat_current:
  "all_current db \<Longrightarrow> all_current (touch_cluster i (\<lambda>r. r\<lparr>en_obs := (en_obs r)\<lparr>cc_last_seen_at := t\<rparr>\<rparr>) db)"
  by (auto simp: all_current_def current_rows_def touch_cluster_def clusterRowMapFromRow_def Let_def)

lemma restore_current:
  assumes "inventory_ok (capture env KindCluster i None (clusterRowMap (touch_cluster i f db) i) ''restore'' (touch_cluster i f db))"
    and "inv_time_travel db = Some True" "all_current db" "\<And>r. en_id (f r) = en_id r"
  shows "all_current (capture env KindCluster i None (clusterRowMap (touch_cluster i f db) i) ''restore'' (touch_cluster i f db))"
proof -
  let ?d = "touch_cluster i f db"
  have "current_rows KindCluster clusterRowMapFromRow (inv_clusters ?d) (inv_history (capture env KindCluster i None (clusterRowMap ?d i) ''restore'' ?d))"
    using assms touch_others [OF _ assms(4)]
    by (intro hc.current_capture_row [OF assms(1)]) (auto simp: all_current_def current_rows_def)
  then show ?thesis using assms(2,3) by (simp add: all_current_def current_other_kind kinds_distinct)
qed

lemma create_current:
  assumes "inventory_ok (capture env KindCluster (ie_id env) None (clusterRowMap d (ie_id env)) ''create'' d)"
    and "inv_time_travel db = Some True" "all_current db" "fresh_env env db" "d = db\<lparr>inv_clusters := inv_clusters db @ [r]\<rparr>" "en_id r = ie_id env"
  shows "all_current (capture env KindCluster (ie_id env) None (clusterRowMap d (ie_id env)) ''create'' d)"
proof -
  have "current_rows KindCluster clusterRowMapFromRow (inv_clusters d) (inv_history (capture env KindCluster (ie_id env) None (clusterRowMap d (ie_id env)) ''create'' d))"
    using assms(2-) by (intro hc.current_capture_row [OF assms(1)]) (auto simp: all_current_def current_rows_def rows_of_fresh)
  then show ?thesis using assms(2,3,5) by (simp add: all_current_def current_other_kind kinds_distinct)
qed

lemma EnsureCluster_current:
  assumes "inventory_ok db" "inv_time_travel db = Some True" "fresh_env env db" "all_current db"
  shows "all_current (snd (EnsureCluster env i db))"
  using EnsureCluster_ok [OF assms(1), of env i] assms(2-)
  by (auto simp: EnsureCluster_def Let_def split: option.splits if_splits intro!: heartbeat_current restore_current create_current)

lemma prunes_current:
  assumes "inventory_ok db" "inv_time_travel db = Some True" "all_current db"
  shows "all_current (snd (DeleteNodesNotIn env p keep db))" "all_current (snd (DeleteWorkloadsNotIn env p keepKinds keep db))"
proof -
  show "all_current (snd (DeleteNodesNotIn env p keep db))"
    using assms(2-) ho.current_prune [OF prunes_ok(1) [OF assms(1)], of env p keep
        "db\<lparr>inv_nodes := soft_delete (ie_NOW env) (not_kept p keep) (inv_nodes db)\<rparr>" "ie_NOW env" "not_kept p keep" db _ env]
    by (simp add: DeleteNodesNotIn_def Let_def all_current_def current_other_kind_ids kinds_distinct)
  let ?P = "workload_not_kept p keepKinds keep"
  show "all_current (snd (DeleteWorkloadsNotIn env p keepKinds keep db))"
    using assms(2-) hw.current_prune [OF prunes_ok(2) [OF assms(1)], of env p keepKinds keep
        "db\<lparr>inv_workloads := soft_delete (ie_NOW env) ?P (inv_workloads db)\<rparr>" "ie_NOW env" ?P db _ env]
    by (simp add: DeleteWorkloadsNotIn_def Let_def all_current_def current_other_kind_ids kinds_distinct)
qed

lemma soft_delete_unhistoried_frame [simp]:
  "inv_clusters (delete_unhistoried ps db) = inv_clusters db" "inv_namespaces (delete_unhistoried ps db) = inv_namespaces db"
  "inv_nodes (delete_unhistoried ps db) = inv_nodes db" "inv_workloads (delete_unhistoried ps db) = inv_workloads db"
  "inv_history (delete_unhistoried ps db) = inv_history db" "inv_time_travel (delete_unhistoried ps db) = inv_time_travel db"
  "inv_clusters (delete_pvs P db) = inv_clusters db" "inv_namespaces (delete_pvs P db) = inv_namespaces db"
  "inv_nodes (delete_pvs P db) = inv_nodes db" "inv_workloads (delete_pvs P db) = inv_workloads db"
  "inv_history (delete_pvs P db) = inv_history db" "inv_time_travel (delete_pvs P db) = inv_time_travel db"
  by (simp_all add: delete_unhistoried_def delete_pvs_def)

lemma SoftDeleteNamespace_current:
  assumes "inventory_ok db" "inv_time_travel db = Some True" "all_current db"
  shows "all_current (snd (SoftDeleteNamespace env i db))"
proof (cases "exists_id (inv_namespaces db) i")
  case True
  let ?d = "(delete_unhistoried [i] db)\<lparr>inv_workloads := soft_delete (ie_NOW env) (in_parents [i]) (inv_workloads db),
      inv_namespaces := soft_delete (ie_NOW env) (has_id i) (inv_namespaces db)\<rparr>"
  let ?w = "capture_ids env KindWorkload workloadRowMap (ids_where (\<lambda>r. in_parents [i] r \<and> live r) (inv_workloads db)) ?d"
  have op: "snd (SoftDeleteNamespace env i db) = capture_ids env KindNamespace namespaceRowMap [i] ?w"
    using True by (simp add: SoftDeleteNamespace_def Let_def)
  note ok = SoftDeleteNamespace_ok [OF assms(1), of env i, unfolded op]
  have "current_rows KindWorkload workloadRowMapFromRow (inv_workloads ?d) (inv_history ?w)"
    using assms(2,3) by (intro hw.current_prune [OF ok, where db = db]) (auto simp: all_current_def)
  moreover have "current_rows KindNamespace namespaceRowMapFromRow (inv_namespaces ?w) (inv_history (capture_ids env KindNamespace namespaceRowMap [i] ?w))"
    using assms(2,3) by (intro hn.current_prune [OF ok, where db = db and P = "has_id i" and now = "ie_NOW env"])
      (auto simp: all_current_def ids_where_def has_id_def capture_ids_rows_other kinds_distinct)
  ultimately show ?thesis using assms(2,3) by (simp add: op all_current_def current_other_kind_ids kinds_distinct)
qed (simp add: SoftDeleteNamespace_def Let_def assms(3))

lemma SoftDeleteCluster_current:
  assumes "inventory_ok db" "inv_time_travel db = Some True" "all_current db"
  shows "all_current (snd (SoftDeleteCluster env i db))"
proof (cases "exists_id (inv_clusters db) i")
  case True
  let ?nss = "ids_where (in_parents [i]) (inv_namespaces db)"
  let ?d = "(delete_pvs (in_parents [i]) (delete_unhistoried ?nss db))\<lparr>inv_workloads := soft_delete (ie_NOW env) (in_parents ?nss) (inv_workloads db),
      inv_namespaces := soft_delete (ie_NOW env) (in_parents [i]) (inv_namespaces db),
      inv_nodes := soft_delete (ie_NOW env) (in_parents [i]) (inv_nodes db), inv_clusters := soft_delete (ie_NOW env) (has_id i) (inv_clusters db)\<rparr>"
  let ?w = "capture_ids env KindWorkload workloadRowMap (ids_where (\<lambda>r. in_parents ?nss r \<and> live r) (inv_workloads db)) ?d"
  let ?n = "capture_ids env KindNamespace namespaceRowMap (ids_where (\<lambda>r. in_parents [i] r \<and> live r) (inv_namespaces db)) ?w"
  let ?o = "capture_ids env KindNode nodeRowMap (ids_where (\<lambda>r. in_parents [i] r \<and> live r) (inv_nodes db)) ?n"
  have op: "snd (SoftDeleteCluster env i db) = capture_ids env KindCluster clusterRowMap [i] ?o"
    using True by (simp add: SoftDeleteCluster_def Let_def)
  note ok = SoftDeleteCluster_ok [OF assms(1), of env i, unfolded op]
  note frame = all_current_def capture_ids_rows_other kinds_distinct ids_where_def has_id_def
  have "current_rows KindWorkload workloadRowMapFromRow (inv_workloads ?d) (inv_history ?w)"
    using assms(2,3) by (intro hw.current_prune [OF ok, where db = db]) (auto simp: frame)
  moreover have "current_rows KindNamespace namespaceRowMapFromRow (inv_namespaces ?w) (inv_history ?n)"
    using assms(2,3) by (intro hn.current_prune [OF ok, where db = db]) (auto simp: frame)
  moreover have "current_rows KindNode nodeRowMapFromRow (inv_nodes ?n) (inv_history ?o)"
    using assms(2,3) by (intro ho.current_prune [OF ok, where db = db]) (auto simp: frame)
  moreover have "current_rows KindCluster clusterRowMapFromRow (inv_clusters ?o) (inv_history (capture_ids env KindCluster clusterRowMap [i] ?o))"
    using assms(2,3) by (intro hc.current_prune [OF ok, where db = db and P = "has_id i" and now = "ie_NOW env"]) (auto simp: frame)
  ultimately show ?thesis using assms(2,3) by (simp add: op all_current_def current_other_kind_ids kinds_distinct)
qed (simp add: SoftDeleteCluster_def Let_def assms(3))

text \<open>The loop of \<open>DeleteNamespacesNotIn\<close>: it changes only workloads whose ids it remembers, and visits the namespaces in order.\<close>

lemma clear_namespace_step:
  "clear_namespace env i (acc, db) =
     (acc @ [(i, ids_where (\<lambda>r. in_parents [i] r \<and> live r) (inv_workloads db))],
      (delete_unhistoried [i] db)\<lparr>inv_workloads := soft_delete (ie_NOW env) (in_parents [i]) (inv_workloads db)\<rparr>)"
  by (simp add: clear_namespace_def Let_def)

lemma clear_namespaces_loop:
  assumes "fold (clear_namespace env) is (acc, db) = (w, d)"
  shows "inv_clusters d = inv_clusters db \<and> inv_namespaces d = inv_namespaces db \<and> inv_nodes d = inv_nodes db \<and>
    inv_history d = inv_history db \<and> inv_time_travel d = inv_time_travel db \<and> map fst w = map fst acc @ is \<and> set acc \<subseteq> set w \<and>
    (\<forall>s\<in>set (inv_workloads d). s \<in> set (inv_workloads db) \<or> en_id s \<in> set (concat (map snd w)))"
  using assms
proof (induction "is" arbitrary: acc db)
  case (Cons i "is")
  let ?ws = "ids_where (\<lambda>r. in_parents [i] r \<and> live r) (inv_workloads db)"
  let ?d = "(delete_unhistoried [i] db)\<lparr>inv_workloads := soft_delete (ie_NOW env) (in_parents [i]) (inv_workloads db)\<rparr>"
  have "fold (clear_namespace env) is (acc @ [(i, ?ws)], ?d) = (w, d)" using Cons.prems by (simp add: clear_namespace_step)
  note ih = Cons.IH [OF this]
  then have "set ?ws \<subseteq> set (concat (map snd w))" by force
  then have "x \<in> set (inv_workloads db) \<or> en_id x \<in> set (concat (map snd w))" if "x \<in> set (inv_workloads d)" for x
    using ih soft_delete_others [of x "ie_NOW env" "in_parents [i]" "inv_workloads db"] that by auto
  with ih show ?case by simp
qed auto

definition capture_namespace :: "inv_env \<Rightarrow> uuid \<times> uuid list \<Rightarrow> inventory \<Rightarrow> inventory" where
  "capture_namespace env = (\<lambda>(nsID, wlIDs) d.
     capture_ids env KindNamespace namespaceRowMap [nsID] (capture_ids env KindWorkload workloadRowMap wlIDs d))"

lemma capture_namespaces:
  assumes "inventory_ok e" "inv_namespaces e = inv_namespaces d" "inv_workloads e = inv_workloads d" "inv_time_travel d = Some True"
  shows "(\<forall>r\<in>set (inv_workloads d).
       (en_id r \<notin> set (concat (map snd w)) \<longrightarrow> current KindWorkload (en_id r) (workloadRowMapFromRow r) (inv_history d)) \<longrightarrow>
       current KindWorkload (en_id r) (workloadRowMapFromRow r) (inv_history (fold (capture_namespace env) w d))) \<and>
    (\<forall>s\<in>set (inv_namespaces d).
       (en_id s \<notin> set (map fst w) \<longrightarrow> current KindNamespace (en_id s) (namespaceRowMapFromRow s) (inv_history d)) \<longrightarrow>
       current KindNamespace (en_id s) (namespaceRowMapFromRow s) (inv_history (fold (capture_namespace env) w d))) \<and>
    (\<forall>k x. k = KindCluster \<or> k = KindNode \<longrightarrow> rows_of k x (inv_history (fold (capture_namespace env) w d)) = rows_of k x (inv_history d))"
  using assms(2-)
proof (induction w arbitrary: d)
  case (Cons p w)
  obtain n ws where p: "p = (n, ws)" by (cases p)
  let ?w = "capture_ids env KindWorkload workloadRowMap ws d"
  let ?d = "capture_ids env KindNamespace namespaceRowMap [n] ?w"
  have one: "capture_namespace env (n, ws) d = ?d" by (simp add: capture_namespace_def)
  have wl: "current KindWorkload (en_id r) (workloadRowMapFromRow r) (inv_history ?d)"
    if "r \<in> set (inv_workloads d)" "en_id r \<notin> set ws \<Longrightarrow> current KindWorkload (en_id r) (workloadRowMapFromRow r) (inv_history d)" for r
    using that Cons.prems hw.current_capture_ids [OF assms(1) Cons.prems(2,3) that] by (simp add: current_other_ids kinds_distinct)
  have "current KindNamespace (en_id s) (namespaceRowMapFromRow s) (inv_history ?d)"
    if "s \<in> set (inv_namespaces d)" "en_id s \<noteq> n \<Longrightarrow> current KindNamespace (en_id s) (namespaceRowMapFromRow s) (inv_history d)" for s
    using that Cons.prems by (intro hn.current_capture_ids [OF assms(1)]) (auto simp: current_other_ids kinds_distinct)
  moreover have "rows_of k x (inv_history ?d) = rows_of k x (inv_history d)" if "k = KindCluster \<or> k = KindNode" for k x
    using that Cons.prems by (auto simp: capture_ids_rows_other kinds_distinct)
  ultimately show ?case using Cons.IH [of ?d] Cons.prems wl by (auto simp: one p)
qed simp

lemma DeleteNamespacesNotInE:
  obtains w d where "fold (clear_namespace env) (ids_where (\<lambda>r. not_kept c keep r \<and> live r) (inv_namespaces db)) ([], db) = (w, d)"
    and "snd (DeleteNamespacesNotIn env c keep db) =
      fold (capture_namespace env) w (d\<lparr>inv_namespaces := soft_delete (ie_NOW env) (not_kept c keep) (inv_namespaces d)\<rparr>)"
proof -
  obtain w d where w: "fold (clear_namespace env) (ids_where (\<lambda>r. not_kept c keep r \<and> live r) (inv_namespaces db)) ([], db) = (w, d)"
    by (rule prod.exhaust)
  then have "snd (DeleteNamespacesNotIn env c keep db) =
      fold (capture_namespace env) w (d\<lparr>inv_namespaces := soft_delete (ie_NOW env) (not_kept c keep) (inv_namespaces d)\<rparr>)"
    by (simp add: DeleteNamespacesNotIn_def Let_def capture_namespace_def case_prod_unfold)
  with w show thesis by (rule that)
qed

lemma DeleteNamespacesNotIn_current:
  assumes "inventory_ok db" "inv_time_travel db = Some True" "all_current db"
  shows "all_current (snd (DeleteNamespacesNotIn env c keep db))"
proof -
  obtain w d where w: "fold (clear_namespace env) (ids_where (\<lambda>r. not_kept c keep r \<and> live r) (inv_namespaces db)) ([], db) = (w, d)"
    and op: "snd (DeleteNamespacesNotIn env c keep db) =
      fold (capture_namespace env) w (d\<lparr>inv_namespaces := soft_delete (ie_NOW env) (not_kept c keep) (inv_namespaces d)\<rparr>)"
    by (rule DeleteNamespacesNotInE)
  note loop = clear_namespaces_loop [OF w, simplified]
  let ?d = "d\<lparr>inv_namespaces := soft_delete (ie_NOW env) (not_kept c keep) (inv_namespaces d)\<rparr>"
  have frame: "inv_clusters (fold (capture_namespace env) v x) = inv_clusters x \<and> inv_namespaces (fold (capture_namespace env) v x) = inv_namespaces x \<and>
      inv_nodes (fold (capture_namespace env) v x) = inv_nodes x \<and> inv_workloads (fold (capture_namespace env) v x) = inv_workloads x" for v x
    by (induction v arbitrary: x) (auto simp: capture_namespace_def)
  have tt: "inv_time_travel ?d = Some True" using loop assms(2) by simp
  note ok = DeleteNamespacesNotIn_ok [OF assms(1), of env c keep, unfolded op]
  note cap = capture_namespaces [OF ok _ _ tt, of w env]
  have fr: "inv_namespaces (fold (capture_namespace env) w ?d) = inv_namespaces ?d" "inv_workloads (fold (capture_namespace env) w ?d) = inv_workloads ?d"
    using frame by blast+
  have "current KindWorkload (en_id r) (workloadRowMapFromRow r) (inv_history (fold (capture_namespace env) w ?d))"
    if "r \<in> set (inv_workloads d)" for r
  proof -
    have "current KindWorkload (en_id r) (workloadRowMapFromRow r) (inv_history ?d)" if "en_id r \<notin> set (concat (map snd w))"
      using that \<open>r \<in> set (inv_workloads d)\<close> loop assms(3) by (auto simp: all_current_def current_rows_def)
    then show ?thesis using conjunct1 [OF cap [OF fr]] that by simp
  qed
  moreover have "current KindNamespace (en_id s) (namespaceRowMapFromRow s) (inv_history (fold (capture_namespace env) w ?d))"
    if "s \<in> set (inv_namespaces ?d)" for s
    using conjunct1 [OF conjunct2 [OF cap [OF fr]]] that loop assms(3) soft_delete_others [of s "ie_NOW env" "not_kept c keep" "inv_namespaces db"]
    by (auto simp: all_current_def current_rows_def)
  moreover have "rows_of k x (inv_history (fold (capture_namespace env) w ?d)) = rows_of k x (inv_history db)" if "k = KindCluster \<or> k = KindNode" for k x
    using conjunct2 [OF conjunct2 [OF cap [OF fr]]] that loop by auto
  then have "current k x m (inv_history (fold (capture_namespace env) w ?d)) = current k x m (inv_history db)" if "k = KindCluster \<or> k = KindNode" for k x m
    using that by (intro current_same_rows) blast
  ultimately show ?thesis
    using assms(3) frame [of w ?d] loop by (simp add: op all_current_def current_rows_def)
qed

lemmas step_current_rules =
  EnsureCluster_current updates_current upserts_current creates_current prunes_current SoftDeleteNamespace_current SoftDeleteCluster_current
  DeleteNamespacesNotIn_current unhistoried_shrinks [THEN shrinks_current] deletes_shrink [THEN shrinks_current]

lemma inv_step_current:
  assumes "inv_step env db db'" "inventory_ok db" "inv_time_travel db = Some True" "fresh_env env db" "all_current db"
  shows "all_current db'"
  using assms
proof (induction rule: inv_step.induct)
  case (s_setting env db e)
  then show ?case by (simp add: all_current_def)
next
  case (s_application env db a)
  then show ?case by (simp add: all_current_def)
qed (assumption | rule step_current_rules)+

text \<open>Every step changes the history only by captures at its own time.\<close>

lemma capture_ids_history:
  "(\<And>k i p s ct d. H (inv_history d) \<Longrightarrow> H (inv_history (capture env k i p s ct d))) \<Longrightarrow> H (inv_history db) \<Longrightarrow>
   H (inv_history (capture_ids env k f is db))"
  unfolding capture_ids_def by (rule fold_keeps [where P = "\<lambda>d. H (inv_history d)"])

lemma inv_step_history:
  assumes "inv_step env db db'" "H (inv_history db)"
    and cap: "\<And>k i p s ct d. H (inv_history d) \<Longrightarrow> H (inv_history (capture env k i p s ct d))"
  shows "H (inv_history db')"
proof -
  note ids = capture_ids_history [of H env, OF cap]
  have loop: "H (inv_history (fold (capture_namespace env) w d))" if "H (inv_history d)" for w d
    using that by (induction w arbitrary: d) (auto simp: capture_namespace_def intro: ids)
  have dn: "H (inv_history (snd (DeleteNamespacesNotIn env p keep db)))" for p keep
    by (rule DeleteNamespacesNotInE [of env p keep db]) (use assms(2) clear_namespaces_loop [of env _ "[]" db] in \<open>auto intro!: loop\<close>)
  from assms(1) show ?thesis
  proof (cases rule: inv_step.cases)
    case (s_EnsureCluster ic)
    then show ?thesis using assms(2) by (auto simp: EnsureCluster_def Let_def split: option.splits intro!: cap)
  next
    case (s_UpdateCluster i uc)
    then show ?thesis using assms(2) by (auto simp: UpdateCluster_def Let_def split: option.splits sum.splits intro!: cap)
  next
    case (s_UpdateNamespace i uns)
    then show ?thesis using assms(2) by (auto simp: UpdateNamespace_def Let_def split: option.splits sum.splits intro!: cap)
  next
    case (s_UpdateNode i uno)
    then show ?thesis using assms(2) by (auto simp: UpdateNode_def Let_def split: option.splits sum.splits intro!: cap)
  next
    case (s_UpdateWorkload i uw c)
    then show ?thesis using assms(2) by (auto simp: UpdateWorkload_def Let_def split: option.splits sum.splits intro!: cap)
  next
    case (s_UpsertNamespace i)
    then show ?thesis using assms(2) by (auto simp: UpsertNamespace_def Let_def split: sum.splits intro!: cap)
  next
    case (s_UpsertNode i)
    then show ?thesis using assms(2) by (auto simp: UpsertNode_def Let_def split: sum.splits intro!: cap)
  next
    case (s_UpsertWorkload i)
    then show ?thesis using assms(2) by (auto simp: UpsertWorkload_def Let_def split: sum.splits intro!: cap)
  qed (use assms(2) dn in \<open>auto simp: SoftDeleteCluster_def SoftDeleteNamespace_def DeleteNodesNotIn_def DeleteWorkloadsNotIn_def
      CreateNamespace_def CreateNode_def CreateWorkload_def Let_def
      unhistoried_shrinks [THEN shrinks_history] deletes_shrink [THEN shrinks_history] split: sum.splits intro!: ids\<close>)
qed

section \<open>Asking for the state now\<close>

definition history_before :: "time \<Rightarrow> history \<Rightarrow> bool" where
  "history_before T h \<longleftrightarrow>
     list_all (\<lambda>r. hr_valid_from r \<le> T \<and> (case hr_valid_to r of None \<Rightarrow> True | Some u \<Rightarrow> u \<le> T)) h"

lemma history_before_mono: "history_before T h \<Longrightarrow> T \<le> T' \<Longrightarrow> history_before T' h"
  by (fastforce simp: history_before_def list_all_iff split: option.splits)

lemma history_before_capture: "history_before (ie_now env) (inv_history d) \<Longrightarrow> history_before (ie_now env) (inv_history (capture env k i p s ct d))"
  by (auto simp: capture_def Capture_def insertHistoryRow_def history_before_def list_all_iff Let_def split: option.splits)

text \<open>The store with time travel switched on: every step has a clock not before the last one and draws an id that no history row has.\<close>

definition tracked_step :: "time \<times> inventory \<Rightarrow> time \<times> inventory \<Rightarrow> bool" where
  "tracked_step s s' \<longleftrightarrow>
     (\<exists>env. inv_step env (snd s) (snd s') \<and> fst s \<le> ie_now env \<and> fst s' = ie_now env \<and> fresh_env env (snd s) \<and>
            inv_time_travel (snd s') = Some True)"

definition tracked :: "time \<times> inventory \<Rightarrow> bool" where
  "tracked = tracked_step\<^sup>*\<^sup>* (0, empty_inventory)"

lemma tracked_invariant:
  assumes "tracked s"
  shows "inventory_ok (snd s) \<and> inv_time_travel (snd s) = Some True \<and> all_current (snd s) \<and> history_before (fst s) (inv_history (snd s))"
  using assms unfolding tracked_def
proof (induction rule: rtranclp_induct)
  case base
  show ?case by (simp add: empty_inventory_ok) (simp add: empty_inventory_def all_current_def current_rows_def history_before_def)
next
  case (step s s')
  then obtain env where e: "inv_step env (snd s) (snd s')" "fst s \<le> ie_now env" "fst s' = ie_now env" "fresh_env env (snd s)"
    "inv_time_travel (snd s') = Some True" by (auto simp: tracked_step_def)
  have "history_before (ie_now env) (inv_history (snd s'))"
    using e step.IH history_before_mono by (intro inv_step_history [OF e(1), where H = "history_before (ie_now env)"] history_before_capture) blast+
  with e step.IH show ?case using inv_step_current [OF e(1)] inv_step_ok [OF e(1)] by simp
qed

definition present :: "string \<Rightarrow> row_map \<Rightarrow> history \<Rightarrow> uuid \<Rightarrow> time \<Rightarrow> bool" where
  "present kind m h e t \<longleftrightarrow>
     (case GetEntityAsOf kind e t h of
        Inl err \<Rightarrow> err = TTNotFound \<and> rows_of kind e h = []
      | Inr answer \<Rightarrow> \<exists>snap. answer = stored_row (history_columns kind) snap \<and> list_all (\<lambda>f. shown snap f = shown m f) (WatchedFields kind))"

lemma current_present:
  assumes "current kind e m h" "history_before T h" "T \<le> t" "validHistoryKind kind"
  shows "present kind m h e t"
proof (cases "rows_of kind e h = []")
  case True
  then show ?thesis
    using assms(4) by (simp add: present_def GetEntityAsOf_def find_rows_of [of kind e t h] scanHistoryRow_def)
next
  case False
  with assms(1) obtain ps c where c: "rows_of kind e h = ps @ [row_of kind e c None]" "list_all (\<lambda>r. hr_valid_to r \<noteq> None) ps"
    "list_all (\<lambda>f. shown (ch_next c) f = shown m f) (WatchedFields kind)" "snapshot_ok kind (ch_next c)"
    by (auto simp: current_def)
  have before: "history_before T (rows_of kind e h)" using assms(2) by (auto simp: history_before_def rows_of_def list_all_iff)
  have "find (valid_at kind e t) ps = None"
    using c(2) before assms(3) by (fastforce simp: c(1) find_None_iff valid_at_def history_before_def list_all_iff)
  then have "find (valid_at kind e t) (ps @ [row_of kind e c None]) = find (valid_at kind e t) [row_of kind e c None]"
    by (induction ps) (auto split: if_splits)
  moreover have "valid_at kind e t (row_of kind e c None)"
    using before assms(3) by (auto simp: c(1) history_before_def valid_at_def row_of_def)
  ultimately have "find (valid_at kind e t) h = Some (row_of kind e c None)" by (simp add: find_rows_of [of kind e t h] c(1))
  then have "GetEntityAsOf kind e t h = Inr (stored_row (history_columns kind) (ch_next c))"
    using assms(4) scan_row_of [OF c(4), of e None] by (simp add: GetEntityAsOf_def scanHistoryRow_cols)
  then show ?thesis using c(3) by (auto simp: present_def)
qed


definition renamed_app :: WorkloadUpdate where
  "renamed_app = \<lparr>wm_Replicas = None, wm_ReadyReplicas = None, wm_Containers = None, wm_Labels = None, wm_Spec = Some [(''strategy'', JStr ''Recreate'')],
     wm_ApplicationId = None\<rparr>"

definition updated_db :: inventory where
  "updated_db = snd (UpdateWorkload (sample_env 5) 3 renamed_app False sample_db)"

lemma tracked_stepI:
  "tracked (T, d) \<Longrightarrow> inv_step env d d' \<Longrightarrow> T \<le> ie_now env \<Longrightarrow> fresh_env env d \<Longrightarrow> inv_time_travel d' = Some True \<Longrightarrow> tracked (ie_now env, d')"
  unfolding tracked_def by (rule rtranclp.rtrancl_into_rtrancl) (auto simp: tracked_step_def)

lemma updated_db_tracked: "tracked (500, updated_db)"
proof -
  have "tracked (0, empty_inventory)" by (simp add: tracked_def)
  note t1 = tracked_stepI [OF this s_EnsureCluster [of "sample_env 1" _ sample_cluster]]
  note t2 = tracked_stepI [OF t1 s_UpsertNamespace [of "sample_env 2" _ sample_namespace]]
  note t3 = tracked_stepI [OF t2 s_UpsertWorkload [of "sample_env 3" _ sample_workload]]
  note t4 = tracked_stepI [OF t3 s_UpsertPod [of "sample_env 4" _ sample_pod], folded sample_db_def]
  note t5 = tracked_stepI [OF t4 s_UpdateWorkload [of "sample_env 5" _ 3 renamed_app False], folded updated_db_def]
  have "tracked (ie_now (sample_env 5), updated_db)" by (rule t5; code_simp)
  then show ?thesis by (simp add: sample_env_def)
qed

lemma updated_db_history:
  "map (\<lambda>r. (hr_change_type r, hr_valid_to r)) (rows_of KindWorkload 3 (inv_history updated_db)) = [(''create'', Some 500), (''update'', None)]"
  by code_simp


end
