(* ===== verification/Inventory_Delete.thy ===== *)
theory Inventory_Delete
  imports Inventory_History
begin

text \<open>
  What deletes and repeated upserts do: a soft delete of a cluster reaches everything below it and nothing else, keeps the rows that time travel needs and
  records each of them; an upsert that finds nothing changed says so and still writes a history row.
\<close>

section \<open>Soft delete of a cluster\<close>

lemma soft_delete_dead: "r \<in> set (soft_delete now P t) \<Longrightarrow> (\<And>s. s \<in> set t \<Longrightarrow> en_id s = en_id r \<Longrightarrow> P s) \<Longrightarrow> \<not> live r"
  by (auto simp: soft_delete_def live_def split: if_splits)

lemma soft_delete_filter:
  "(\<And>r. P (r\<lparr>en_terminated_at := Some now, en_updated_at := now\<rparr>) = P r) \<Longrightarrow>
   filter (\<lambda>r. \<not> P r) (soft_delete now P t) = filter (\<lambda>r. \<not> P r) t"
  by (induction t) (auto simp: soft_delete_def)

lemma soft_delete_columns:
  "map (\<lambda>r. (en_id r, en_parent r, en_name r, en_obs r, en_cur r)) (soft_delete now P t) =
   map (\<lambda>r. (en_id r, en_parent r, en_name r, en_obs r, en_cur r)) t"
  by (simp add: soft_delete_def)

lemma soft_delete_live: "r \<in> set (soft_delete now P t) \<Longrightarrow> live r \<Longrightarrow> r \<in> set t \<and> \<not> P r"
  by (auto simp: soft_delete_def live_def split: if_splits)

text \<open>A list of captures leaves an open soft-delete row for each row it found.\<close>

definition open_row :: "string \<Rightarrow> string \<Rightarrow> uuid \<Rightarrow> history \<Rightarrow> bool" where
  "open_row kind ct e h \<longleftrightarrow> list_ex (\<lambda>r. hr_table r = kind \<and> hr_entity_id r = e \<and> hr_change_type r = ct \<and> hr_valid_to r = None) h"

lemma open_row_rows: "open_row kind ct e h \<longleftrightarrow> (\<exists>r\<in>set (rows_of kind e h). hr_change_type r = ct \<and> hr_valid_to r = None)"
  by (auto simp: open_row_def rows_of_def list_ex_iff)

context historied
begin

lemma captured_open:
  assumes "inventory_ok d" "tab d = tab db" "inv_time_travel db = Some True" "r \<in> set (tab db)"
    and "en_id r \<in> set is \<or> open_row kind ''soft_delete'' (en_id r) (inv_history db)"
  shows "open_row kind ''soft_delete'' (en_id r) (inv_history (capture_ids env kind rowMap is db))"
  using assms(2-)
proof (induction "is" arbitrary: db)
  case Nil
  then show ?case by (simp add: capture_ids_def)
next
  case (Cons i "is")
  let ?db = "capture env kind i None (rowMap db i) ''soft_delete'' db"
  have "en_id r \<in> set is \<or> open_row kind ''soft_delete'' (en_id r) (inv_history ?db)"
  proof (cases "en_id r = i")
    case True
    then have "rowMap db i = Some (rm r)" using rowMap_row [OF assms(1) Cons.prems(1,3)] by simp
    then have "rows_of kind i (inv_history ?db) = map (close_open (ie_now env)) (rows_of kind i (inv_history db)) @
        [row_of kind i (change_of env db None (rm r) ''soft_delete'') None]"
      by (simp add: capture_history [OF Cons.prems(2)] rows_of_capture [OF valid] recorded_def)
    then show ?thesis using True by (simp add: open_row_rows row_of_def)
  next
    case False
    then show ?thesis using Cons.prems(4) capture_rows_other [OF Cons.prems(2), of kind kind "en_id r" i] by (auto simp: open_row_rows)
  qed
  with Cons.IH [of ?db] Cons.prems show ?case by (simp add: capture_ids_def tab_capture)
qed

end

definition cluster_namespaces :: "uuid \<Rightarrow> inventory \<Rightarrow> uuid list" where
  "cluster_namespaces i db = ids_where (in_parents [i]) (inv_namespaces db)"

lemma SoftDeleteCluster_tables:
  assumes "SoftDeleteCluster env i db = (Inr (), db')"
  shows "inv_clusters db' = soft_delete (ie_NOW env) (has_id i) (inv_clusters db)"
    "inv_namespaces db' = soft_delete (ie_NOW env) (in_parents [i]) (inv_namespaces db)"
    "inv_nodes db' = soft_delete (ie_NOW env) (in_parents [i]) (inv_nodes db)"
    "inv_workloads db' = soft_delete (ie_NOW env) (in_parents (cluster_namespaces i db)) (inv_workloads db)"
    "inv_pods db' = delete_rows (in_parents (cluster_namespaces i db)) (inv_pods db)"
    "inv_services db' = delete_rows (in_parents (cluster_namespaces i db)) (inv_services db)"
    "inv_ingresses db' = delete_rows (in_parents (cluster_namespaces i db)) (inv_ingresses db)"
    "inv_claims db' = unlink_claims (ids_where (in_parents [i]) (inv_pvs db)) (delete_rows (in_parents (cluster_namespaces i db)) (inv_claims db))"
    "inv_pvs db' = delete_rows (in_parents [i]) (inv_pvs db)"
  using assms
  by (auto simp: SoftDeleteCluster_def Let_def delete_pvs_def delete_unhistoried_def cluster_namespaces_def split: if_splits)

text \<open>What a soft delete does to the rows of a table that satisfy a predicate: none of them is live, the others are as before, and all keep their columns.\<close>

definition soft_deleted :: "(('p, 'n, 'o, 'c) entity \<Rightarrow> bool) \<Rightarrow> ('p, 'n, 'o, 'c) entity list \<Rightarrow> ('p, 'n, 'o, 'c) entity list \<Rightarrow> bool" where
  "soft_deleted P t t' \<longleftrightarrow>
     \<not> list_ex (\<lambda>r. P r \<and> live r) t' \<and> filter (\<lambda>r. \<not> P r) t' = filter (\<lambda>r. \<not> P r) t \<and>
     map (\<lambda>r. (en_id r, en_parent r, en_name r, en_obs r, en_cur r)) t' = map (\<lambda>r. (en_id r, en_parent r, en_name r, en_obs r, en_cur r)) t"

lemma soft_delete_soft_deleted:
  assumes "\<And>r. P (r\<lparr>en_terminated_at := Some now, en_updated_at := now\<rparr>) = P r"
  shows "soft_deleted P t (soft_delete now P t)"
  using soft_delete_filter [of P, OF assms] soft_delete_columns [of now P t]
  by (auto simp: soft_deleted_def list_ex_iff dest: soft_delete_live)

lemma soft_delete_has: "r \<in> set t \<Longrightarrow> \<exists>s\<in>set (soft_delete now P t). en_id s = en_id r"
  using ids_soft_delete [of now P t "en_id r"] by (fastforce simp: exists_id_iff)

lemma SoftDeleteCluster_recorded:
  assumes "inventory_ok db" "inv_time_travel db = Some True" "SoftDeleteCluster env i db = (Inr (), db')"
  shows "r1 \<in> set (inv_clusters db') \<Longrightarrow> en_id r1 = i \<Longrightarrow> open_row KindCluster ''soft_delete'' (en_id r1) (inv_history db')"
    and "r2 \<in> set (inv_namespaces db') \<Longrightarrow> en_id r2 \<in> set (ids_where (\<lambda>r. in_parents [i] r \<and> live r) (inv_namespaces db)) \<Longrightarrow>
      open_row KindNamespace ''soft_delete'' (en_id r2) (inv_history db')"
    and "r3 \<in> set (inv_nodes db') \<Longrightarrow> en_id r3 \<in> set (ids_where (\<lambda>r. in_parents [i] r \<and> live r) (inv_nodes db)) \<Longrightarrow>
      open_row KindNode ''soft_delete'' (en_id r3) (inv_history db')"
    and "r4 \<in> set (inv_workloads db') \<Longrightarrow>
      en_id r4 \<in> set (ids_where (\<lambda>r. in_parents (cluster_namespaces i db) r \<and> live r) (inv_workloads db)) \<Longrightarrow>
      open_row KindWorkload ''soft_delete'' (en_id r4) (inv_history db')"
proof -
  have ok: "inventory_ok db'" using SoftDeleteCluster_ok [OF assms(1), of env i] assms(3) by simp
  have other: "open_row k ct e (inv_history (capture_ids env k' f is d)) = open_row k ct e (inv_history d)"
    if "k \<noteq> k'" "inv_time_travel d = Some True" for k k' ct e f "is" d
    by (simp add: open_row_rows capture_ids_rows_other [OF that(2,1)])
  let ?nss = "cluster_namespaces i db"
  let ?d = "(delete_pvs (in_parents [i]) (delete_unhistoried ?nss db))\<lparr>inv_workloads := soft_delete (ie_NOW env) (in_parents ?nss) (inv_workloads db),
      inv_namespaces := soft_delete (ie_NOW env) (in_parents [i]) (inv_namespaces db),
      inv_nodes := soft_delete (ie_NOW env) (in_parents [i]) (inv_nodes db), inv_clusters := soft_delete (ie_NOW env) (has_id i) (inv_clusters db)\<rparr>"
  let ?w = "capture_ids env KindWorkload workloadRowMap (ids_where (\<lambda>r. in_parents ?nss r \<and> live r) (inv_workloads db)) ?d"
  let ?n = "capture_ids env KindNamespace namespaceRowMap (ids_where (\<lambda>r. in_parents [i] r \<and> live r) (inv_namespaces db)) ?w"
  let ?o = "capture_ids env KindNode nodeRowMap (ids_where (\<lambda>r. in_parents [i] r \<and> live r) (inv_nodes db)) ?n"
  have op: "db' = capture_ids env KindCluster clusterRowMap [i] ?o"
    using assms(3) by (auto simp: SoftDeleteCluster_def Let_def cluster_namespaces_def split: if_splits)
  note ok' = ok [unfolded op] and frame = other kinds_distinct assms(2)
  show "open_row KindCluster ''soft_delete'' (en_id r1) (inv_history db')" if "r1 \<in> set (inv_clusters db')" "en_id r1 = i"
    using that unfolding op by (intro hc.captured_open [OF ok']) (simp_all add: frame)
  show "open_row KindNamespace ''soft_delete'' (en_id r2) (inv_history db')"
    if "r2 \<in> set (inv_namespaces db')" "en_id r2 \<in> set (ids_where (\<lambda>r. in_parents [i] r \<and> live r) (inv_namespaces db))"
    using that hn.captured_open [OF ok', of ?w r2] by (simp add: op frame)
  show "open_row KindNode ''soft_delete'' (en_id r3) (inv_history db')"
    if "r3 \<in> set (inv_nodes db')" "en_id r3 \<in> set (ids_where (\<lambda>r. in_parents [i] r \<and> live r) (inv_nodes db))"
    using that ho.captured_open [OF ok', of ?n r3] by (simp add: op frame)
  show "open_row KindWorkload ''soft_delete'' (en_id r4) (inv_history db')"
    if "r4 \<in> set (inv_workloads db')" "en_id r4 \<in> set (ids_where (\<lambda>r. in_parents ?nss r \<and> live r) (inv_workloads db))"
    using that hw.captured_open [OF ok', of ?d r4] by (simp add: op frame)
qed


definition deleted_db :: inventory where
  "deleted_db = snd (SoftDeleteCluster (sample_env 5) 1 sample_db)"

lemma deleted_db_result: "SoftDeleteCluster (sample_env 5) 1 sample_db = (Inr (), deleted_db)"
proof -
  have "fst (SoftDeleteCluster (sample_env 5) 1 sample_db) = Inr ()" by code_simp
  then show ?thesis by (metis deleted_db_def prod.collapse)
qed


section \<open>Upserts that change nothing\<close>

lemma upsert_row_NoChange:
  assumes "upsert_row fk new t = Inr (r, a, b, t')" "classifyOutcome a b = OutcomeNoChange"
  obtains old where "find (has_key (en_parent new) (en_name new)) t = Some old" "r = old\<lparr>en_updated_at := en_updated_at new\<rparr>" "live old" "r \<in> set t'"
proof (cases "find (has_key (en_parent new) (en_name new)) t")
  case None
  then show thesis using assms by (auto simp: upsert_row_def classifyOutcome_def split: if_splits)
next
  case (Some old)
  then have "r = overwrite (en_obs new) (en_updated_at new) old" "en_obs old = en_obs new" "en_terminated_at old = None"
    and t': "t' = map (\<lambda>r. if has_key (en_parent new) (en_name new) r then overwrite (en_obs new) (en_updated_at new) r else r) t"
    using assms by (auto simp: upsert_row_def Let_def classifyOutcome_def split: if_splits)
  moreover from this have "r = old\<lparr>en_updated_at := en_updated_at new\<rparr>" "live old" by (cases old; simp add: overwrite_def live_def)+
  moreover have "r \<in> set t'" using find_SomeD [OF Some] calculation(1) by (force simp: t')
  ultimately show thesis using that Some by blast
qed

lemma capture_grows:
  "inv_time_travel db = Some True \<Longrightarrow> validHistoryKind kind \<Longrightarrow>
   length (inv_history (capture env kind i None (Some s) ct db)) = Suc (length (inv_history db))"
  by (simp add: capture_def Capture_def insertHistoryRow_def Let_def)

lemma shown_map_of: "map_of m f = map_of m' f \<Longrightarrow> shown m f = shown m' f"
  by (simp add: shown_def absent_def index_def)

lemma Diff_unwatched:
  assumes "\<And>f. f \<noteq> ''updated_at'' \<Longrightarrow> map_of m f = map_of m' f"
  shows "Diff m m' (WatchedFields kind) = []"
proof -
  have "''updated_at'' \<notin> set (WatchedFields kind)" by (simp add: WatchedFields_def)
  then have "shown m f = shown m' f" if "f \<in> set (WatchedFields kind)" for f
    using that by (intro shown_map_of assms) auto
  then show ?thesis by (simp add: Diff_def diff_field_Nil)
qed

lemma touch_Diff:
  "Diff (namespaceRowMapFromRow r1) (namespaceRowMapFromRow (r1\<lparr>en_updated_at := t\<rparr>)) (WatchedFields KindNamespace) = []"
  "Diff (nodeRowMapFromRow r2) (nodeRowMapFromRow (r2\<lparr>en_updated_at := t\<rparr>)) (WatchedFields KindNode) = []"
  "Diff (workloadRowMapFromRow r3) (workloadRowMapFromRow (r3\<lparr>en_updated_at := t\<rparr>)) (WatchedFields KindWorkload) = []"
  by (rule Diff_unwatched; simp add: namespaceRowMapFromRow_def nodeRowMapFromRow_def workloadRowMapFromRow_def Let_def)+

context historied
begin

lemma unchanged_upsert:
  assumes "upsert_row fk new (tab db) = Inr (r, a, b, t)" "classifyOutcome a b = OutcomeNoChange" "tab d = t"
    and "inventory_ok (capture env kind (en_id r) None (rowMap d (en_id r)) ct d)" "inv_time_travel d = Some True"
  shows "length (inv_history (capture env kind (en_id r) None (rowMap d (en_id r)) ct d)) = Suc (length (inv_history d)) \<and>
    (\<exists>old\<in>set (tab db). r = old\<lparr>en_updated_at := en_updated_at new\<rparr>)"
proof -
  obtain old where old: "find (has_key (en_parent new) (en_name new)) (tab db) = Some old" "r = old\<lparr>en_updated_at := en_updated_at new\<rparr>" "r \<in> set t"
    using upsert_row_NoChange [OF assms(1,2)] by blast
  have "rowMap d (en_id r) = Some (rm r)" using rowMap_row [OF assms(4) tab_capture] old(3) assms(3) by simp
  then show ?thesis using capture_grows [OF assms(5) valid] old find_SomeD [OF old(1)] by auto
qed

end

text \<open>An upsert without changes still grows the history. When the upsert of a namespace, node or workload reports that nothing changed, the row differs from
  before only in its update time and the diff of the watched columns is empty; with time travel on a history row is written all the same, because the upserts
  hand no previous snapshot to the capture, which then does not compare.\<close>

theorem unchanged_upsert_recorded:
  assumes "inv_reach db" "inv_time_travel db = Some True"
  shows "(UpsertNamespace env i1 db = (Inr (r1, OutcomeNoChange), d1) \<longrightarrow> length (inv_history d1) = Suc (length (inv_history db)) \<and>
      (\<exists>old\<in>set (inv_namespaces db). r1 = old\<lparr>en_updated_at := ie_now env\<rparr> \<and>
        Diff (namespaceRowMapFromRow old) (namespaceRowMapFromRow r1) (WatchedFields KindNamespace) = [])) \<and>
    (UpsertNode env i2 db = (Inr (r2, OutcomeNoChange), d2) \<longrightarrow> length (inv_history d2) = Suc (length (inv_history db)) \<and>
      (\<exists>old\<in>set (inv_nodes db). r2 = old\<lparr>en_updated_at := ie_now env\<rparr> \<and>
        Diff (nodeRowMapFromRow old) (nodeRowMapFromRow r2) (WatchedFields KindNode) = [])) \<and>
    (UpsertWorkload env i3 db = (Inr (r3, OutcomeNoChange), d3) \<longrightarrow> length (inv_history d3) = Suc (length (inv_history db)) \<and>
      (\<exists>old\<in>set (inv_workloads db). r3 = old\<lparr>en_updated_at := ie_now env\<rparr> \<and>
        Diff (workloadRowMapFromRow old) (workloadRowMapFromRow r3) (WatchedFields KindWorkload) = []))"
proof -
  note ok = inv_reach_ok [OF assms(1)]
  have "length (inv_history d1) = Suc (length (inv_history db)) \<and> (\<exists>old\<in>set (inv_namespaces db). r1 = old\<lparr>en_updated_at := ie_now env\<rparr>)"
    if u: "UpsertNamespace env i1 db = (Inr (r1, OutcomeNoChange), d1)"
  proof -
    obtain a b t where up: "upsert_row (exists_id (inv_clusters db) (nm_ClusterId i1))
        (new_row (ie_id env) (nm_ClusterId i1) (nm_Name i1) (namespace_columns i1) curated_default (ie_now env)) (inv_namespaces db) = Inr (r1, a, b, t)"
      "classifyOutcome a b = OutcomeNoChange" using u by (auto simp: UpsertNamespace_def Let_def split: sum.splits)
    show ?thesis
      using hn.unchanged_upsert [OF up, of "db\<lparr>inv_namespaces := t\<rparr>" env] UpsertNamespace_ok [OF ok, of env i1] u up assms(2)
      by (auto simp: UpsertNamespace_def Let_def)
  qed
  moreover have "length (inv_history d2) = Suc (length (inv_history db)) \<and> (\<exists>old\<in>set (inv_nodes db). r2 = old\<lparr>en_updated_at := ie_now env\<rparr>)"
    if u: "UpsertNode env i2 db = (Inr (r2, OutcomeNoChange), d2)"
  proof -
    obtain a b t where up: "upsert_row (exists_id (inv_clusters db) (om_ClusterId i2))
        (nodeInsertValues env i2) (inv_nodes db) = Inr (r2, a, b, t)"
      "classifyOutcome a b = OutcomeNoChange" using u by (auto simp: UpsertNode_def Let_def split: sum.splits)
    show ?thesis
      using ho.unchanged_upsert [OF up, of "db\<lparr>inv_nodes := t\<rparr>" env] UpsertNode_ok [OF ok, of env i2] u up assms(2)
      by (auto simp: UpsertNode_def Let_def nodeInsertValues_def)
  qed
  moreover have "length (inv_history d3) = Suc (length (inv_history db)) \<and> (\<exists>old\<in>set (inv_workloads db). r3 = old\<lparr>en_updated_at := ie_now env\<rparr>)"
    if u: "UpsertWorkload env i3 db = (Inr (r3, OutcomeNoChange), d3)"
  proof -
    obtain a b t where up: "upsert_row (exists_id (inv_namespaces db) (wm_NamespaceId i3))
        (new_row (ie_id env) (wm_NamespaceId i3) (wm_Kind i3, wm_Name i3) (workload_columns i3) None (ie_now env)) (inv_workloads db) = Inr (r3, a, b, t)"
      "classifyOutcome a b = OutcomeNoChange" using u by (auto simp: UpsertWorkload_def Let_def split: sum.splits)
    show ?thesis
      using hw.unchanged_upsert [OF up, of "db\<lparr>inv_workloads := t\<rparr>" env] UpsertWorkload_ok [OF ok, of env i3] u up assms(2)
      by (auto simp: UpsertWorkload_def Let_def)
  qed
  ultimately show ?thesis using touch_Diff by blast
qed

definition again :: "(inventory_error + workload_row \<times> UpsertOutcome) \<times> inventory" where
  "again = UpsertWorkload (sample_env 5) sample_workload sample_db"

lemma again_NoChange: "again = (Inr (fst (projr (fst again)), OutcomeNoChange), snd again)"
proof -
  have "(case fst again of Inl e \<Rightarrow> False | Inr x \<Rightarrow> snd x = OutcomeNoChange)" by code_simp
  then show ?thesis by (cases "fst again") (auto simp: prod_eq_iff)
qed

lemma sample_db_tt: "inv_time_travel sample_db = Some True"
  by code_simp

theorem unchanged_upsert_recorded_witness:
  "inv_reach sample_db \<and> inv_time_travel sample_db = Some True \<and>
   UpsertWorkload (sample_env 5) sample_workload sample_db = (Inr (fst (projr (fst again)), OutcomeNoChange), snd again) \<and>
   length (inv_history (snd again)) = Suc (length (inv_history sample_db))"
  using unchanged_upsert_recorded [OF sample_db_reach sample_db_tt, of "sample_env 5" undefined undefined undefined undefined undefined undefined
      sample_workload "fst (projr (fst again))" "snd again"] sample_db_reach sample_db_tt again_NoChange [unfolded again_def]
  by (simp add: again_def)

end
