(* ===== verification/Collector.thy ===== *)
theory Collector
  imports Inventory_Delete
begin

text \<open>
  The Kubernetes collector (\<^verbatim>\<open>collector/collector.go\<close>): one poll reads listings of a cluster and writes them to the store,
  entity by entity, then deletes what the listing no longer shows. A listing that fails is \<open>None\<close>. Every call of the store can be answered, can fail, or can be
  carried out with its answer lost; which of them happens to the \<open>n\<close>-th call is a parameter, as is the order in which Go visits a map. The metrics of errors are part
  of the state. Network policies and Kyverno policies, which are read last into tables of their own, are not part of the model.
\<close>

section \<open>What the collector reads\<close>

record NodeInfo =
  ni_Name :: string
  ni_Role :: string
  ni_KubeletVersion :: string
  ni_KubeProxyVersion :: string
  ni_ContainerRuntimeVersion :: string
  ni_OsImage :: string
  ni_OperatingSystem :: string
  ni_KernelVersion :: string
  ni_Architecture :: string
  ni_InternalIP :: string
  ni_ExternalIP :: string
  ni_PodCIDR :: string
  ni_ProviderID :: string
  ni_InstanceType :: string
  ni_Zone :: string
  ni_CapacityCPU :: string
  ni_CapacityMemory :: string
  ni_CapacityPods :: string
  ni_CapacityEphemeralStorage :: string
  ni_AllocatableCPU :: string
  ni_AllocatableMemory :: string
  ni_AllocatablePods :: string
  ni_AllocatableEphemeralStorage :: string
  ni_Conditions :: "json list"
  ni_Taints :: "json list"
  ni_Unschedulable :: bool
  ni_Ready :: bool
  ni_Labels :: labels

record NamespaceInfo =
  nsi_Name :: string
  nsi_Phase :: string
  nsi_Labels :: labels

record PodInfo =
  pi_Name :: string
  pi_Namespace :: string
  pi_Phase :: string
  pi_NodeName :: string
  pi_PodIP :: string
  pi_Containers :: "json list"
  pi_Labels :: labels
  pi_OwnerKind :: string
  pi_OwnerName :: string

record ReplicaSetOwner =
  rs_Namespace :: string
  rs_Name :: string
  rs_OwnerKind :: string
  rs_OwnerName :: string

record WorkloadInfo =
  wi_Name :: string
  wi_Namespace :: string
  wi_Kind :: string
  wi_Replicas :: "int option"
  wi_ReadyReplicas :: "int option"
  wi_Containers :: "json list"
  wi_Labels :: labels

record ServiceInfo =
  si_Name :: string
  si_Namespace :: string
  si_Type :: string
  si_ClusterIP :: string
  si_Selector :: labels
  si_Ports :: "json list"
  si_LoadBalancer :: "json list"
  si_Labels :: labels

record IngressInfo =
  ii_Name :: string
  ii_Namespace :: string
  ii_IngressClassName :: string
  ii_Rules :: "json list"
  ii_TLS :: "json list"
  ii_LoadBalancer :: "json list"
  ii_Labels :: labels

record PVInfo =
  pvi_Name :: string
  pvi_Capacity :: string
  pvi_AccessModes :: "string list"
  pvi_ReclaimPolicy :: string
  pvi_Phase :: string
  pvi_StorageClassName :: string
  pvi_CSIDriver :: string
  pvi_VolumeHandle :: string
  pvi_ClaimRefNamespace :: string
  pvi_ClaimRefName :: string
  pvi_Labels :: labels

record PVCInfo =
  pci_Name :: string
  pci_Namespace :: string
  pci_Phase :: string
  pci_StorageClassName :: string
  pci_VolumeName :: string
  pci_AccessModes :: "string list"
  pci_RequestedStorage :: string
  pci_Labels :: labels

record KubeSource =
  ServerVersion :: "string option"
  ListNodes :: "NodeInfo list option"
  ListPersistentVolumes :: "PVInfo list option"
  ListNamespaces :: "NamespaceInfo list option"
  ListWorkloads :: "WorkloadInfo list option"
  ListPods :: "PodInfo list option"
  ListReplicaSetOwners :: "ReplicaSetOwner list option"
  ListServices :: "ServiceInfo list option"
  ListIngresses :: "IngressInfo list option"
  ListPersistentVolumeClaims :: "PVCInfo list option"

record Collector =
  co_clusterName :: string
  co_reconcile :: bool

section \<open>Inputs of the store\<close>

definition ptrIfNonEmpty :: "string \<Rightarrow> string option" where
  "ptrIfNonEmpty s = (if s = [] then None else Some s)"

definition ptrIfNonEmptySlice :: "'a list \<Rightarrow> 'a list option" where
  "ptrIfNonEmptySlice s = (if s = [] then None else Some s)"

definition none_curated :: curated_in where
  "none_curated = \<lparr>ci_Owner = None, ci_Criticality = None, ci_Notes = None, ci_RunbookUrl = None, ci_Annotations = None\<rparr>"

text \<open>The literals of \<^verbatim>\<open>ingestNodes\<close>, \<^verbatim>\<open>ingestNamespaces\<close>, \<^verbatim>\<open>ingestPersistentVolumes\<close> and \<^verbatim>\<open>ingestWorkloads\<close>: an empty string, slice or map leaves the field nil.\<close>

definition node_create :: "uuid \<Rightarrow> NodeInfo \<Rightarrow> NodeCreate" where
  "node_create clusterID n =
     \<lparr>om_text =
        \<lparr>nt_display_name = None, nt_role = ptrIfNonEmpty (ni_Role n), nt_kubelet_version = ptrIfNonEmpty (ni_KubeletVersion n),
         nt_kube_proxy_version = ptrIfNonEmpty (ni_KubeProxyVersion n), nt_container_runtime_version = ptrIfNonEmpty (ni_ContainerRuntimeVersion n),
         nt_os_image = ptrIfNonEmpty (ni_OsImage n), nt_operating_system = ptrIfNonEmpty (ni_OperatingSystem n),
         nt_kernel_version = ptrIfNonEmpty (ni_KernelVersion n), nt_architecture = ptrIfNonEmpty (ni_Architecture n),
         nt_internal_ip = ptrIfNonEmpty (ni_InternalIP n), nt_external_ip = ptrIfNonEmpty (ni_ExternalIP n), nt_pod_cidr = ptrIfNonEmpty (ni_PodCIDR n),
         nt_provider_id = ptrIfNonEmpty (ni_ProviderID n), nt_instance_type = ptrIfNonEmpty (ni_InstanceType n), nt_zone = ptrIfNonEmpty (ni_Zone n),
         nt_capacity_cpu = ptrIfNonEmpty (ni_CapacityCPU n), nt_capacity_memory = ptrIfNonEmpty (ni_CapacityMemory n),
         nt_capacity_pods = ptrIfNonEmpty (ni_CapacityPods n), nt_capacity_ephemeral_storage = ptrIfNonEmpty (ni_CapacityEphemeralStorage n),
         nt_allocatable_cpu = ptrIfNonEmpty (ni_AllocatableCPU n), nt_allocatable_memory = ptrIfNonEmpty (ni_AllocatableMemory n),
         nt_allocatable_pods = ptrIfNonEmpty (ni_AllocatablePods n), nt_allocatable_ephemeral_storage = ptrIfNonEmpty (ni_AllocatableEphemeralStorage n)\<rparr>,
      om_Conditions = ptrIfNonEmptySlice (ni_Conditions n), om_Taints = ptrIfNonEmptySlice (ni_Taints n),
      om_Unschedulable = Some (ni_Unschedulable n), om_Ready = Some (ni_Ready n), om_Labels = ptrIfNonEmptySlice (ni_Labels n),
      om_curated = none_curated, om_HardwareModel = None, om_ClusterId = clusterID, om_Name = ni_Name n\<rparr>"

definition namespace_create :: "uuid \<Rightarrow> NamespaceInfo \<Rightarrow> NamespaceCreate" where
  "namespace_create clusterID nsp =
     \<lparr>nm_DisplayName = None, nm_Phase = ptrIfNonEmpty (nsi_Phase nsp), nm_Labels = ptrIfNonEmptySlice (nsi_Labels nsp), nm_curated = none_curated,
      nm_ClusterId = clusterID, nm_Name = nsi_Name nsp\<rparr>"

definition pv_create :: "uuid \<Rightarrow> PVInfo \<Rightarrow> PersistentVolumeCreate" where
  "pv_create clusterID pv =
     \<lparr>pvm_Capacity = ptrIfNonEmpty (pvi_Capacity pv), pvm_AccessModes = ptrIfNonEmptySlice (pvi_AccessModes pv),
      pvm_ReclaimPolicy = ptrIfNonEmpty (pvi_ReclaimPolicy pv), pvm_Phase = ptrIfNonEmpty (pvi_Phase pv),
      pvm_StorageClassName = ptrIfNonEmpty (pvi_StorageClassName pv), pvm_CsiDriver = ptrIfNonEmpty (pvi_CSIDriver pv),
      pvm_VolumeHandle = ptrIfNonEmpty (pvi_VolumeHandle pv), pvm_ClaimRefNamespace = ptrIfNonEmpty (pvi_ClaimRefNamespace pv),
      pvm_ClaimRefName = ptrIfNonEmpty (pvi_ClaimRefName pv), pvm_Labels = ptrIfNonEmptySlice (pvi_Labels pv),
      pvm_ClusterId = clusterID, pvm_Name = pvi_Name pv\<rparr>"

definition workload_create :: "uuid \<Rightarrow> WorkloadInfo \<Rightarrow> WorkloadCreate" where
  "workload_create nsID w =
     \<lparr>wm_Replicas = wi_Replicas w, wm_ReadyReplicas = wi_ReadyReplicas w, wm_Containers = ptrIfNonEmptySlice (wi_Containers w),
      wm_Labels = ptrIfNonEmptySlice (wi_Labels w), wm_Spec = None, wm_NamespaceId = nsID, wm_Kind = wi_Kind w, wm_Name = wi_Name w\<rparr>"

text \<open>A key of \<^verbatim>\<open>rsOwners\<close> is the namespace id, a slash and the name; the text of an id has a fixed length, so a pair stands for it.\<close>

type_synonym wlKey = "string \<times> string"
type_synonym workload_ids = "(uuid, (wlKey, uuid) gomap) gomap"
type_synonym rs_owners = "(uuid \<times> string, ReplicaSetOwner) gomap"

definition lookup_workload :: "uuid \<Rightarrow> string \<Rightarrow> string \<Rightarrow> workload_ids \<Rightarrow> uuid option" where
  "lookup_workload nsID ownerKind ownerName workloadIDs =
     (case map_of workloadIDs nsID of None \<Rightarrow> None | Some m \<Rightarrow> map_of m (ownerKind, ownerName))"

definition resolveWorkloadID :: "uuid \<Rightarrow> string \<Rightarrow> string \<Rightarrow> workload_ids \<Rightarrow> rs_owners \<Rightarrow> uuid option" where
  "resolveWorkloadID nsID ownerKind ownerName workloadIDs rsOwners =
     (if ownerKind = [] \<or> ownerName = [] then None
      else if ownerKind = ''ReplicaSet'' then
        (case map_of rsOwners (nsID, ownerName) of
           None \<Rightarrow> None
         | Some rs \<Rightarrow>
             if rs_OwnerKind rs = [] \<or> rs_OwnerName rs = [] then None
             else lookup_workload nsID (rs_OwnerKind rs) (rs_OwnerName rs) workloadIDs)
      else lookup_workload nsID ownerKind ownerName workloadIDs)"

text \<open>Reading a nil Go map finds nothing, so \<^verbatim>\<open>workloadIDs\<close> of a failed listing is the empty map.\<close>

definition buildPodCreate :: "PodInfo \<Rightarrow> uuid \<Rightarrow> workload_ids \<Rightarrow> rs_owners \<Rightarrow> PodCreate" where
  "buildPodCreate p nsID workloadIDs rsOwners =
     \<lparr>pom_Phase = ptrIfNonEmpty (pi_Phase p), pom_NodeName = ptrIfNonEmpty (pi_NodeName p), pom_PodIp = ptrIfNonEmpty (pi_PodIP p),
      pom_WorkloadId = resolveWorkloadID nsID (pi_OwnerKind p) (pi_OwnerName p) workloadIDs rsOwners,
      pom_Containers = ptrIfNonEmptySlice (pi_Containers p), pom_Labels = ptrIfNonEmptySlice (pi_Labels p),
      pom_NamespaceId = nsID, pom_Name = pi_Name p\<rparr>"

definition buildServiceCreate :: "ServiceInfo \<Rightarrow> uuid \<Rightarrow> ServiceCreate" where
  "buildServiceCreate s nsID =
     \<lparr>svm_Type = ptrIfNonEmpty (si_Type s), svm_ClusterIp = ptrIfNonEmpty (si_ClusterIP s), svm_Selector = ptrIfNonEmptySlice (si_Selector s),
      svm_Ports = ptrIfNonEmptySlice (si_Ports s), svm_LoadBalancer = ptrIfNonEmptySlice (si_LoadBalancer s),
      svm_Labels = ptrIfNonEmptySlice (si_Labels s), svm_NamespaceId = nsID, svm_Name = si_Name s\<rparr>"

definition buildIngressCreate :: "IngressInfo \<Rightarrow> uuid \<Rightarrow> IngressCreate" where
  "buildIngressCreate ing nsID =
     \<lparr>igm_IngressClassName = ptrIfNonEmpty (ii_IngressClassName ing), igm_Rules = ptrIfNonEmptySlice (ii_Rules ing),
      igm_Tls = ptrIfNonEmptySlice (ii_TLS ing), igm_LoadBalancer = ptrIfNonEmptySlice (ii_LoadBalancer ing),
      igm_Labels = ptrIfNonEmptySlice (ii_Labels ing), igm_NamespaceId = nsID, igm_Name = ii_Name ing\<rparr>"

definition buildPVCCreate :: "PVCInfo \<Rightarrow> uuid \<Rightarrow> (string, uuid) gomap option \<Rightarrow> PersistentVolumeClaimCreate" where
  "buildPVCCreate pvc nsID pvIDsByName =
     \<lparr>clm_Phase = ptrIfNonEmpty (pci_Phase pvc), clm_StorageClassName = ptrIfNonEmpty (pci_StorageClassName pvc),
      clm_VolumeName = ptrIfNonEmpty (pci_VolumeName pvc),
      clm_BoundVolumeId =
        (if pci_VolumeName pvc \<noteq> [] then (case pvIDsByName of None \<Rightarrow> None | Some m \<Rightarrow> map_of m (pci_VolumeName pvc)) else None),
      clm_AccessModes = ptrIfNonEmptySlice (pci_AccessModes pvc), clm_RequestedStorage = ptrIfNonEmpty (pci_RequestedStorage pvc),
      clm_Labels = ptrIfNonEmptySlice (pci_Labels pvc), clm_NamespaceId = nsID, clm_Name = pci_Name pvc\<rparr>"

section \<open>Calls of the store\<close>

text \<open>\<open>Answered\<close>: the transaction ran and its result came back. \<open>Refused\<close>: the call failed and nothing was written (a lost connection, a timeout, a
  refusal on the way). \<open>Unanswered\<close>: the transaction was committed but the caller saw an error.\<close>

datatype fate = Answered inv_env | Refused | Unanswered inv_env

record ambient =
  am_fate :: "nat \<Rightarrow> fate"
  am_range :: "nat \<Rightarrow> (string, uuid) gomap \<Rightarrow> (string, uuid) gomap"

record world =
  cw_calls :: nat
  cw_db :: inventory
  cw_errors :: "(string \<times> string) list"

type_synonym 'a store_op = "inv_env \<Rightarrow> inventory \<Rightarrow> (inventory_error + 'a) \<times> inventory"

definition call :: "ambient \<Rightarrow> 'a store_op \<Rightarrow> world \<Rightarrow> (inventory_error + 'a) \<times> world" where
  "call a op w =
     (let w1 = w\<lparr>cw_calls := Suc (cw_calls w)\<rparr> in
      case am_fate a (cw_calls w) of
        Refused \<Rightarrow> (Inl InvOther, w1)
      | Unanswered env \<Rightarrow> (Inl InvOther, w1\<lparr>cw_db := snd (op env (cw_db w))\<rparr>)
      | Answered env \<Rightarrow> (fst (op env (cw_db w)), w1\<lparr>cw_db := snd (op env (cw_db w))\<rparr>))"

definition ObserveError :: "string \<Rightarrow> string \<Rightarrow> world \<Rightarrow> world" where
  "ObserveError resource phase w = w\<lparr>cw_errors := cw_errors w @ [(resource, phase)]\<rparr>"

text \<open>The loop of every ingest function: each entity is upserted; a failure is counted and the entity skipped. The result lists the
  entities written, in order, with the rows the store answered.\<close>

fun upsert_each ::
    "ambient \<Rightarrow> string \<Rightarrow> ('x \<Rightarrow> (('p, 'n, 'o, 'c) entity \<times> UpsertOutcome) store_op) \<Rightarrow> 'x list \<Rightarrow> world \<Rightarrow>
       ('x \<times> ('p, 'n, 'o, 'c) entity) list \<times> world" where
  "upsert_each a resource op [] w = ([], w)"
| "upsert_each a resource op (x # xs) w =
     (case call a (op x) w of
        (Inl _, w1) \<Rightarrow> upsert_each a resource op xs (ObserveError resource ''upsert'' w1)
      | (Inr (got, _), w1) \<Rightarrow> (case upsert_each a resource op xs w1 of (ok, w2) \<Rightarrow> ((x, got) # ok, w2)))"

definition reconcile_call :: "ambient \<Rightarrow> string \<Rightarrow> nat store_op \<Rightarrow> world \<Rightarrow> world" where
  "reconcile_call a resource op w =
     (case call a op w of (Inl _, w1) \<Rightarrow> ObserveError resource ''reconcile'' w1 | (Inr _, w1) \<Rightarrow> w1)"

text \<open>\<^verbatim>\<open>idsByName[x.Name] = *stored.Id\<close>, \<^verbatim>\<open>keepByNS[nsID] = append(keepByNS[nsID], ...)\<close> and \<^verbatim>\<open>idsByNS[nsID][key] = *stored.Id\<close>.\<close>

definition ids_by :: "('x \<Rightarrow> 'k) \<Rightarrow> ('x \<times> ('p, 'n, 'o, 'c) entity) list \<Rightarrow> ('k, uuid) gomap" where
  "ids_by nm ok = fold (\<lambda>(x, got). AList.update (nm x) (en_id got)) ok []"

definition index_list :: "(uuid, 'a list) gomap \<Rightarrow> uuid \<Rightarrow> 'a list" where
  "index_list m i = (case map_of m i of None \<Rightarrow> [] | Some xs \<Rightarrow> xs)"

definition keep_by_ns :: "('x \<Rightarrow> 'k) \<Rightarrow> ((uuid \<times> 'x) \<times> ('p, 'n, 'o, 'c) entity) list \<Rightarrow> (uuid, 'k list) gomap" where
  "keep_by_ns nm ok = fold (\<lambda>((nsID, x), got) m. AList.update nsID (index_list m nsID @ [nm x]) m) ok []"

definition ids_by_ns :: "('x \<Rightarrow> 'k) \<Rightarrow> ((uuid \<times> 'x) \<times> ('p, 'n, 'o, 'c) entity) list \<Rightarrow> (uuid, ('k, uuid) gomap) gomap" where
  "ids_by_ns nm ok = fold (\<lambda>((nsID, x), got) m. AList.update nsID (AList.update (nm x) (en_id got) (index_list m nsID)) m) ok []"

text \<open>Entities whose namespace is not among the known ones are skipped.\<close>

definition known :: "('x \<Rightarrow> string) \<Rightarrow> (string, uuid) gomap \<Rightarrow> 'x list \<Rightarrow> (uuid \<times> 'x) list" where
  "known nsOf namespaceIDsByName xs =
     List.map_filter (\<lambda>x. map_option (\<lambda>nsID. (nsID, x)) (map_of namespaceIDsByName (nsOf x))) xs"

definition reconcilePerNamespace ::
    "ambient \<Rightarrow> string \<Rightarrow> (string, uuid) gomap \<Rightarrow> (uuid, 'k list) gomap \<Rightarrow> (uuid \<Rightarrow> 'k list \<Rightarrow> nat store_op) \<Rightarrow> world \<Rightarrow> world" where
  "reconcilePerNamespace a resource namespaceIDsByName keepByNS deleteFn w =
     fold (\<lambda>(_, nsID). reconcile_call a resource (deleteFn nsID (index_list keepByNS nsID)))
       (am_range a (cw_calls w) namespaceIDsByName) w"

definition reconcileWorkloads ::
    "ambient \<Rightarrow> (string, uuid) gomap \<Rightarrow> (uuid, wlKey list) gomap \<Rightarrow> world \<Rightarrow> world" where
  "reconcileWorkloads a namespaceIDsByName keepByNS w =
     reconcilePerNamespace a ''workloads'' namespaceIDsByName keepByNS
       (\<lambda>nsID keep env. DeleteWorkloadsNotIn env nsID (map fst keep) (map snd keep)) w"

section \<open>The ingest functions\<close>

definition ingestNodes :: "ambient \<Rightarrow> Collector \<Rightarrow> KubeSource \<Rightarrow> uuid \<Rightarrow> world \<Rightarrow> world" where
  "ingestNodes a c src clusterID w =
     (case ListNodes src of
        None \<Rightarrow> ObserveError ''nodes'' ''list'' w
      | Some nodes \<Rightarrow>
          (case upsert_each a ''nodes'' (\<lambda>n env. UpsertNode env (node_create clusterID n)) nodes w of
             (ok, w1) \<Rightarrow>
               if co_reconcile c
               then reconcile_call a ''nodes'' (\<lambda>env. DeleteNodesNotIn env clusterID (map (\<lambda>(n, _). ni_Name n) ok)) w1
               else w1))"

definition ingestPersistentVolumes ::
    "ambient \<Rightarrow> Collector \<Rightarrow> KubeSource \<Rightarrow> uuid \<Rightarrow> world \<Rightarrow> (string, uuid) gomap option \<times> world" where
  "ingestPersistentVolumes a c src clusterID w =
     (case ListPersistentVolumes src of
        None \<Rightarrow> (None, ObserveError ''persistentvolumes'' ''list'' w)
      | Some pvs \<Rightarrow>
          (case upsert_each a ''persistentvolumes'' (\<lambda>pv env. UpsertPersistentVolume env (pv_create clusterID pv)) pvs w of
             (ok, w1) \<Rightarrow>
               (Some (ids_by pvi_Name ok),
                if co_reconcile c
                then reconcile_call a ''persistentvolumes'' (\<lambda>env. DeletePersistentVolumesNotIn clusterID (map (\<lambda>(pv, _). pvi_Name pv) ok)) w1
                else w1)))"

definition ingestNamespaces ::
    "ambient \<Rightarrow> Collector \<Rightarrow> KubeSource \<Rightarrow> uuid \<Rightarrow> world \<Rightarrow> (string, uuid) gomap option \<times> world" where
  "ingestNamespaces a c src clusterID w =
     (case ListNamespaces src of
        None \<Rightarrow> (None, ObserveError ''namespaces'' ''list'' w)
      | Some namespaces \<Rightarrow>
          (case upsert_each a ''namespaces'' (\<lambda>n env. UpsertNamespace env (namespace_create clusterID n)) namespaces w of
             (ok, w1) \<Rightarrow>
               (Some (ids_by nsi_Name ok),
                if co_reconcile c
                then reconcile_call a ''namespaces'' (\<lambda>env. DeleteNamespacesNotIn env clusterID (map (\<lambda>(n, _). nsi_Name n) ok)) w1
                else w1)))"

definition ingestWorkloads ::
    "ambient \<Rightarrow> Collector \<Rightarrow> KubeSource \<Rightarrow> (string, uuid) gomap \<Rightarrow> world \<Rightarrow> workload_ids option \<times> world" where
  "ingestWorkloads a c src namespaceIDsByName w =
     (case ListWorkloads src of
        None \<Rightarrow> (None, ObserveError ''workloads'' ''list'' w)
      | Some workloads \<Rightarrow>
          (case upsert_each a ''workloads'' (\<lambda>(nsID, x) env. UpsertWorkload env (workload_create nsID x))
                  (known wi_Namespace namespaceIDsByName workloads) w of
             (ok, w1) \<Rightarrow>
               (Some (ids_by_ns (\<lambda>x. (wi_Kind x, wi_Name x)) ok),
                if co_reconcile c
                then reconcileWorkloads a namespaceIDsByName (keep_by_ns (\<lambda>x. (wi_Kind x, wi_Name x)) ok) w1
                else w1)))"

definition rs_owners_of :: "(string, uuid) gomap \<Rightarrow> ReplicaSetOwner list \<Rightarrow> rs_owners" where
  "rs_owners_of namespaceIDsByName rss =
     fold (\<lambda>(nsID, rs). AList.update (nsID, rs_Name rs) rs) (known rs_Namespace namespaceIDsByName rss) []"

definition list_rs_owners ::
    "KubeSource \<Rightarrow> (string, uuid) gomap \<Rightarrow> workload_ids option \<Rightarrow> world \<Rightarrow> rs_owners \<times> world" where
  "list_rs_owners src namespaceIDsByName workloadIDs w =
     (if workloadIDs = None then ([], w)
      else case ListReplicaSetOwners src of
             None \<Rightarrow> ([], ObserveError ''replicasets'' ''list'' w)
           | Some rss \<Rightarrow> (rs_owners_of namespaceIDsByName rss, w))"

definition ingestPods ::
    "ambient \<Rightarrow> Collector \<Rightarrow> KubeSource \<Rightarrow> (string, uuid) gomap \<Rightarrow> workload_ids option \<Rightarrow> world \<Rightarrow> world" where
  "ingestPods a c src namespaceIDsByName workloadIDs w =
     (case ListPods src of
        None \<Rightarrow> ObserveError ''pods'' ''list'' w
      | Some pods \<Rightarrow>
          (case list_rs_owners src namespaceIDsByName workloadIDs w of
             (rsOwners, w1) \<Rightarrow>
               (case upsert_each a ''pods''
                       (\<lambda>(nsID, p) env. UpsertPod env (buildPodCreate p nsID (case workloadIDs of None \<Rightarrow> [] | Some m \<Rightarrow> m) rsOwners))
                       (known pi_Namespace namespaceIDsByName pods) w1 of
                  (ok, w2) \<Rightarrow>
                    if co_reconcile c
                    then reconcilePerNamespace a ''pods'' namespaceIDsByName (keep_by_ns pi_Name ok) (\<lambda>nsID keep env. DeletePodsNotIn nsID keep) w2
                    else w2)))"

definition ingestServices :: "ambient \<Rightarrow> Collector \<Rightarrow> KubeSource \<Rightarrow> (string, uuid) gomap \<Rightarrow> world \<Rightarrow> world" where
  "ingestServices a c src namespaceIDsByName w =
     (case ListServices src of
        None \<Rightarrow> ObserveError ''services'' ''list'' w
      | Some services \<Rightarrow>
          (case upsert_each a ''services'' (\<lambda>(nsID, s) env. UpsertService env (buildServiceCreate s nsID))
                  (known si_Namespace namespaceIDsByName services) w of
             (ok, w1) \<Rightarrow>
               if co_reconcile c
               then reconcilePerNamespace a ''services'' namespaceIDsByName (keep_by_ns si_Name ok) (\<lambda>nsID keep env. DeleteServicesNotIn nsID keep) w1
               else w1))"

definition ingestIngresses :: "ambient \<Rightarrow> Collector \<Rightarrow> KubeSource \<Rightarrow> (string, uuid) gomap \<Rightarrow> world \<Rightarrow> world" where
  "ingestIngresses a c src namespaceIDsByName w =
     (case ListIngresses src of
        None \<Rightarrow> ObserveError ''ingresses'' ''list'' w
      | Some ingresses \<Rightarrow>
          (case upsert_each a ''ingresses'' (\<lambda>(nsID, i) env. UpsertIngress env (buildIngressCreate i nsID))
                  (known ii_Namespace namespaceIDsByName ingresses) w of
             (ok, w1) \<Rightarrow>
               if co_reconcile c
               then reconcilePerNamespace a ''ingresses'' namespaceIDsByName (keep_by_ns ii_Name ok) (\<lambda>nsID keep env. DeleteIngressesNotIn nsID keep) w1
               else w1))"

definition ingestPersistentVolumeClaims ::
    "ambient \<Rightarrow> Collector \<Rightarrow> KubeSource \<Rightarrow> (string, uuid) gomap \<Rightarrow> (string, uuid) gomap option \<Rightarrow> world \<Rightarrow> world" where
  "ingestPersistentVolumeClaims a c src namespaceIDsByName pvIDsByName w =
     (case ListPersistentVolumeClaims src of
        None \<Rightarrow> ObserveError ''persistentvolumeclaims'' ''list'' w
      | Some pvcs \<Rightarrow>
          (case upsert_each a ''persistentvolumeclaims'' (\<lambda>(nsID, p) env. UpsertPersistentVolumeClaim env (buildPVCCreate p nsID pvIDsByName))
                  (known pci_Namespace namespaceIDsByName pvcs) w of
             (ok, w1) \<Rightarrow>
               if co_reconcile c
               then reconcilePerNamespace a ''persistentvolumeclaims'' namespaceIDsByName (keep_by_ns pci_Name ok)
                      (\<lambda>nsID keep env. DeletePersistentVolumeClaimsNotIn nsID keep) w1
               else w1))"

section \<open>A poll\<close>

definition cluster_create :: "string \<Rightarrow> ClusterCreate" where
  "cluster_create n =
     \<lparr>cm_DisplayName = None, cm_Environment = None, cm_Provider = None, cm_Region = None, cm_KubernetesVersion = None, cm_ApiEndpoint = None,
      cm_Labels = None, cm_curated = none_curated, cm_Name = n\<rparr>"

definition version_update :: "string \<Rightarrow> ClusterMutable" where
  "version_update version =
     \<lparr>cm_DisplayName = None, cm_Environment = None, cm_Provider = None, cm_Region = None, cm_KubernetesVersion = Some version, cm_ApiEndpoint = None,
      cm_Labels = None, cm_curated = none_curated\<rparr>"

definition refresh_version :: "ambient \<Rightarrow> string \<Rightarrow> cluster_row \<Rightarrow> world \<Rightarrow> bool \<times> world" where
  "refresh_version a version cluster w =
     (if cc_kubernetes_version (en_obs cluster) \<noteq> Some version then
        (case call a (\<lambda>env. UpdateCluster env (en_id cluster) (version_update version)) w of
           (Inl _, w1) \<Rightarrow> (False, ObserveError ''cluster'' ''upsert'' w1)
         | (Inr _, w1) \<Rightarrow> (True, w1))
      else (True, w))"

definition ingest_namespaced ::
    "ambient \<Rightarrow> Collector \<Rightarrow> KubeSource \<Rightarrow> (string, uuid) gomap \<Rightarrow> (string, uuid) gomap option \<Rightarrow> world \<Rightarrow> world" where
  "ingest_namespaced a c src namespaceIDsByName pvIDsByName w =
     (case ingestWorkloads a c src namespaceIDsByName w of
        (workloadIDs, w1) \<Rightarrow>
          ingestPersistentVolumeClaims a c src namespaceIDsByName pvIDsByName
            (ingestIngresses a c src namespaceIDsByName
              (ingestServices a c src namespaceIDsByName
                (ingestPods a c src namespaceIDsByName workloadIDs w1))))"

definition ingest_cluster :: "ambient \<Rightarrow> Collector \<Rightarrow> KubeSource \<Rightarrow> uuid \<Rightarrow> world \<Rightarrow> world" where
  "ingest_cluster a c src clusterID w =
     (case ingestPersistentVolumes a c src clusterID (ingestNodes a c src clusterID w) of
        (pvIDsByName, w1) \<Rightarrow>
          (case ingestNamespaces a c src clusterID w1 of
             (None, w2) \<Rightarrow> w2
           | (Some namespaceIDsByName, w2) \<Rightarrow> ingest_namespaced a c src namespaceIDsByName pvIDsByName w2))"

definition poll :: "ambient \<Rightarrow> Collector \<Rightarrow> KubeSource \<Rightarrow> world \<Rightarrow> world" where
  "poll a c src w =
     (case ServerVersion src of
        None \<Rightarrow> ObserveError ''version'' ''list'' w
      | Some version \<Rightarrow>
          (case call a (\<lambda>env. EnsureCluster env (cluster_create (co_clusterName c))) w of
             (Inl _, w1) \<Rightarrow> ObserveError ''cluster'' ''ensure'' w1
           | (Inr (cluster, _), w1) \<Rightarrow>
               (case refresh_version a version cluster w1 of
                  (False, w2) \<Rightarrow> w2
                | (True, w2) \<Rightarrow> ingest_cluster a c src (en_id cluster) w2)))"

end
