(* ===== verification/Collector_Mirror.thy ===== *)
theory Collector_Mirror
  imports Collector
begin

text \<open>
  What a poll of the Kubernetes collector achieves. A table is read through \<open>row_at\<close>, the row of a key, and \<open>observed\<close>, the
  columns of a live row. Every store interface the collector uses obeys the laws of the locale \<open>mirrored\<close>, from which the exactness of
  one ingest function follows; a poll that observes no error composes them.
\<close>

section \<open>Tables as maps\<close>

definition row_at :: "('p, 'n, 'o, 'c) entity list \<Rightarrow> 'p \<Rightarrow> 'n \<Rightarrow> ('p, 'n, 'o, 'c) entity option" where
  "row_at t p n = find (has_key p n) t"

definition observed :: "('p, 'n, 'o, 'c) entity list \<Rightarrow> 'p \<Rightarrow> 'n \<Rightarrow> 'o option" where
  "observed t p n = (case row_at t p n of None \<Rightarrow> None | Some r \<Rightarrow> if live r then Some (en_obs r) else None)"

definition mirrors :: "('p, 'n, 'o, 'c) entity list \<Rightarrow> 'p \<Rightarrow> ('n \<times> 'o) list \<Rightarrow> bool" where
  "mirrors t p obs \<longleftrightarrow> (\<forall>n. observed t p n = map_of (rev obs) n)"

text \<open>A row found before is still there afterwards with its id and its curated columns.\<close>

definition same_entity :: "('p, 'n, 'o, 'c) entity option \<Rightarrow> ('p, 'n, 'o, 'c) entity option \<Rightarrow> bool" where
  "same_entity old new \<longleftrightarrow>
     (case old of None \<Rightarrow> True | Some r \<Rightarrow> (case new of None \<Rightarrow> False | Some r' \<Rightarrow> en_id r' = en_id r \<and> en_cur r' = en_cur r))"

lemma same_entity_refl [simp]: "same_entity r r"
  by (simp add: same_entity_def split: option.splits)

lemma same_entity_trans: "same_entity r s \<Longrightarrow> same_entity s t \<Longrightarrow> same_entity r t"
  by (auto simp: same_entity_def split: option.splits)

lemma row_at_key: "row_at t p n = Some r \<Longrightarrow> en_parent r = p \<and> en_name r = n \<and> r \<in> set t"
  by (auto simp: row_at_def has_key_def dest: find_SomeD)

lemma row_at_member: "tbl_ok Q t \<Longrightarrow> r \<in> set t \<Longrightarrow> row_at t (en_parent r) (en_name r) = Some r"
  by (simp add: row_at_def find_key)

lemma find_map:
  "(\<And>r. P (f r) = P r) \<Longrightarrow> find P (map f t) = map_option f (find P t)"
  by (induction t) auto

lemma find_append: "find P (t @ u) = (case find P t of None \<Rightarrow> find P u | Some r \<Rightarrow> Some r)"
  by (induction t) auto

lemma find_filter_sub: "(\<And>r. P r \<Longrightarrow> Q r) \<Longrightarrow> find P (filter Q t) = find P t"
  by (induction t) auto

lemma row_at_upsert:
  assumes "upsert_row fk new t = Inr (r, b, c, t')"
  shows "row_at t' (en_parent new) (en_name new) = Some r" "en_obs r = en_obs new" "en_terminated_at new = None \<Longrightarrow> live r"
    "same_entity (row_at t (en_parent new) (en_name new)) (Some r)"
    "(p, n) \<noteq> (en_parent new, en_name new) \<Longrightarrow> row_at t' p n = row_at t p n"
proof -
  let ?K = "has_key (en_parent new) (en_name new)"
  let ?f = "\<lambda>r. if ?K r then overwrite (en_obs new) (en_updated_at new) r else r"
  have keys: "has_key p n (?f s) = has_key p n s" for p n s by (simp add: has_key_iff)
  have "row_at t' (en_parent new) (en_name new) = Some r \<and> en_obs r = en_obs new \<and> (en_terminated_at new = None \<longrightarrow> live r) \<and>
    same_entity (row_at t (en_parent new) (en_name new)) (Some r) \<and>
    ((p, n) \<noteq> (en_parent new, en_name new) \<longrightarrow> row_at t' p n = row_at t p n)"
  proof (cases "find ?K t")
    case None
    with assms show ?thesis
      by (auto simp: upsert_row_def row_at_def find_append has_key_def live_def same_entity_def split: if_splits option.splits)
  next
    case (Some old)
    then have r: "r = overwrite (en_obs new) (en_updated_at new) old" and t': "t' = map ?f t"
      using assms by (auto simp: upsert_row_def Let_def split: if_splits)
    have "?K old" using Some find_SomeD by fast
    then have "find ?K t' = Some r" using Some by (simp add: t' r find_map [of ?K, OF keys])
    moreover have "find (has_key p n) t' = find (has_key p n) t" if "(p, n) \<noteq> (en_parent new, en_name new)"
      unfolding t' find_map [of "has_key p n", OF keys] using that
      by (cases "find (has_key p n) t") (auto simp: has_key_def dest: find_SomeD)
    ultimately show ?thesis using Some by (simp add: row_at_def r live_def same_entity_def)
  qed
  then show "row_at t' (en_parent new) (en_name new) = Some r" "en_obs r = en_obs new" "en_terminated_at new = None \<Longrightarrow> live r"
    "same_entity (row_at t (en_parent new) (en_name new)) (Some r)"
    "(p, n) \<noteq> (en_parent new, en_name new) \<Longrightarrow> row_at t' p n = row_at t p n" by auto
qed

lemma row_at_soft_delete: "row_at (soft_delete now P t) p n =
    map_option (\<lambda>r. if P r \<and> live r then r\<lparr>en_terminated_at := Some now, en_updated_at := now\<rparr> else r) (row_at t p n)"
  unfolding row_at_def soft_delete_def by (rule find_map) (simp add: has_key_def)

lemma soft_prune:
  assumes "\<And>r. P r \<longleftrightarrow> en_parent r = p \<and> en_name r \<notin> set keep"
  shows "p' \<noteq> p \<or> n \<in> set keep \<Longrightarrow> row_at (soft_delete now P t) p' n = row_at t p' n"
    "n \<notin> set keep \<Longrightarrow> observed (soft_delete now P t) p n = None"
  unfolding row_at_soft_delete observed_def
  by (cases "row_at t p' n"; use row_at_key [of t p' n] assms in auto)
     (cases "row_at t p n"; use row_at_key [of t p n] assms in \<open>auto simp: live_def\<close>)

lemma hard_prune:
  assumes "\<And>r. P r \<longleftrightarrow> en_parent r = p \<and> en_name r \<notin> set keep"
  shows "p' \<noteq> p \<or> n \<in> set keep \<Longrightarrow> row_at (delete_rows P t) p' n = row_at t p' n"
    "n \<notin> set keep \<Longrightarrow> observed (delete_rows P t) p n = None"
proof -
  show "p' \<noteq> p \<or> n \<in> set keep \<Longrightarrow> row_at (delete_rows P t) p' n = row_at t p' n"
    unfolding row_at_def delete_rows_def by (rule find_filter_sub) (auto simp: has_key_def assms)
  show "n \<notin> set keep \<Longrightarrow> observed (delete_rows P t) p n = None"
    by (cases "row_at (delete_rows P t) p n") (auto simp: observed_def delete_rows_def assms dest: row_at_key)
qed

section \<open>Calls, errors and what they keep\<close>

text \<open>A property of the database that an operation keeps is kept by every call of it, answered or not.\<close>

lemma call_keeps: "(\<And>env db. P db \<Longrightarrow> P (snd (op env db))) \<Longrightarrow> P (cw_db w) \<Longrightarrow> P (cw_db (snd (call a op w)))"
  by (simp add: call_def Let_def split: fate.splits)

lemma call_answered: "call a op w = (Inr y, w1) \<Longrightarrow> \<exists>env. op env (cw_db w) = (Inr y, cw_db w1)"
  by (auto simp: call_def Let_def prod_eq_iff split: fate.splits)

lemma call_errors: "call a op w = (r, w1) \<Longrightarrow> cw_errors w1 = cw_errors w"
  by (auto simp: call_def Let_def split: fate.splits)

lemma ObserveError_sel [simp]:
  "cw_db (ObserveError x y w) = cw_db w" "cw_errors (ObserveError x y w) = cw_errors w @ [(x, y)]"
  by (simp_all add: ObserveError_def)

lemma upsert_each_keeps:
  assumes "\<And>x env db. P db \<Longrightarrow> P (snd (op x env db))" "P (cw_db w)"
  shows "P (cw_db (snd (upsert_each a resource op xs w)))"
  using assms(2)
proof (induction xs arbitrary: w)
  case (Cons x xs)
  obtain r w1 where c: "call a (op x) w = (r, w1)" by fastforce
  have "P (cw_db w1)" using call_keeps [of P "op x" w a, OF assms(1) Cons.prems] c by simp
  then show ?case using Cons.IH [of w1] Cons.IH [of "ObserveError resource ''upsert'' w1"] c by (cases r) (simp_all add: case_prod_unfold)
qed simp

lemma reconcile_call_keeps:
  "(\<And>env db. P db \<Longrightarrow> P (snd (op env db))) \<Longrightarrow> P (cw_db w) \<Longrightarrow> P (cw_db (reconcile_call a resource op w))"
  using call_keeps [of P op w a] by (cases "call a op w"; cases "fst (call a op w)") (simp_all add: reconcile_call_def)

lemma fold_reconcile_keeps:
  "(\<And>x env db. P db \<Longrightarrow> P (snd (op x env db))) \<Longrightarrow> P (cw_db w) \<Longrightarrow> P (cw_db (fold (\<lambda>x. reconcile_call a resource (op x)) xs w))"
  by (rule fold_keeps [where P = "\<lambda>w. P (cw_db w)"]) (auto intro: reconcile_call_keeps)

lemma reconcilePerNamespace_fold:
  "reconcilePerNamespace a resource m keep del w =
     fold (\<lambda>i. reconcile_call a resource (del i (index_list keep i))) (map snd (am_range a (cw_calls w) m)) w"
  by (simp add: reconcilePerNamespace_def fold_map comp_def case_prod_unfold)

lemma reconcilePerNamespace_keeps:
  "(\<And>i ks env db. P db \<Longrightarrow> P (snd (del i ks env db))) \<Longrightarrow> P (cw_db w) \<Longrightarrow> P (cw_db (reconcilePerNamespace a resource m keep del w))"
  unfolding reconcilePerNamespace_fold by (rule fold_reconcile_keeps)

text \<open>Errors only accumulate. A part of a poll is quiet when it observes none.\<close>

definition louder :: "world \<Rightarrow> world \<Rightarrow> bool" where
  "louder w w' \<longleftrightarrow> (\<exists>es. cw_errors w' = cw_errors w @ es)"

definition quiet :: "world \<Rightarrow> world \<Rightarrow> bool" where
  "quiet w w' \<longleftrightarrow> cw_errors w' = cw_errors w"

lemma louder_refl [simp]: "louder w w" by (simp add: louder_def)

lemma louder_trans [trans]: "louder w v \<Longrightarrow> louder v u \<Longrightarrow> louder w u" by (auto simp: louder_def)

lemma louder_ObserveError [simp]: "louder w (ObserveError x y w)" by (simp add: louder_def)

lemma not_quiet_ObserveError [simp]: "\<not> quiet w (ObserveError x y w)" by (simp add: quiet_def)

lemma quiet_split: "louder w v \<Longrightarrow> louder v u \<Longrightarrow> quiet w u \<Longrightarrow> quiet w v \<and> quiet v u"
  unfolding louder_def quiet_def by (metis append_assoc append_self_conv append_is_Nil_conv)

lemma louder_upsert_each: "louder w (snd (upsert_each a resource op xs w))"
proof (induction xs arbitrary: w)
  case (Cons x xs)
  obtain r w1 where c: "call a (op x) w = (r, w1)" by fastforce
  with Cons [of w1] Cons [of "ObserveError resource ''upsert'' w1"] call_errors [OF c] show ?case
    by (cases r) (auto simp: louder_def case_prod_unfold)
qed simp

lemma louder_reconcile_call: "louder w (reconcile_call a resource op w)"
proof -
  obtain y w1 where c: "call a op w = (y, w1)" by fastforce
  show ?thesis using call_errors [OF c] by (cases y) (simp_all add: reconcile_call_def c louder_def)
qed

lemma louder_fold: "(\<And>x w. louder w (f x w)) \<Longrightarrow> louder w (fold f xs w)"
  by (induction xs arbitrary: w) (auto intro: louder_trans)

lemma louder_reconcilePerNamespace: "louder w (reconcilePerNamespace a resource m keep del w)"
  unfolding reconcilePerNamespace_fold by (intro louder_fold louder_reconcile_call)

lemma quiet_upsert_each_Cons:
  assumes "upsert_each a resource op (x # xs) w = (ok, w')" "quiet w w'"
  obtains env r out w1 ok' where "op x env (cw_db w) = (Inr (r, out), cw_db w1)" "upsert_each a resource op xs w1 = (ok', w')"
    "ok = (x, r) # ok'" "quiet w1 w'" "quiet w w1"
proof -
  obtain y w1 where c: "call a (op x) w = (y, w1)" by fastforce
  then have e: "cw_errors w1 = cw_errors w" by (rule call_errors)
  show thesis
  proof (cases y)
    case (Inl err)
    then have "louder (ObserveError resource ''upsert'' w1) w'"
      using assms(1) c louder_upsert_each [of "ObserveError resource ''upsert'' w1" a resource op xs] by simp
    then show thesis using assms(2) e by (auto simp: louder_def quiet_def)
  next
    case (Inr p)
    obtain r out where "p = (r, out)" by fastforce
    with Inr c assms that call_answered [of a "op x" w p w1] e show thesis by (auto simp: quiet_def split: prod.splits)
  qed
qed

lemma quiet_reconcile_call:
  assumes "quiet w (reconcile_call a resource op w)"
  obtains env where "cw_db (reconcile_call a resource op w) = snd (op env (cw_db w))"
proof -
  obtain y w1 where c: "call a op w = (y, w1)" by fastforce
  note e = call_errors [OF c]
  show thesis
  proof (cases y)
    case (Inr n)
    then obtain env where "op env (cw_db w) = (Inr n, cw_db w1)" using c call_answered [of a op w n w1] by auto
    with Inr c that [of env] show thesis by (simp add: reconcile_call_def)
  qed (use assms c e in \<open>simp add: reconcile_call_def quiet_def\<close>)
qed

section \<open>The interface of the store\<close>

text \<open>What one ingest function relies on: an upsert that answers has written the row of its key and no other, and a reconcile delete ends every row of its
  parent that is not kept and no other.\<close>

locale mirrored =
  fixes tbl :: "inventory \<Rightarrow> ('p, 'n, 'o, 'c) entity list"
    and upsert :: "'x \<Rightarrow> (('p, 'n, 'o, 'c) entity \<times> UpsertOutcome) store_op"
    and parent :: "'x \<Rightarrow> 'p"
    and nam :: "'x \<Rightarrow> 'n"
    and cols :: "'x \<Rightarrow> 'o"
    and prune :: "'p \<Rightarrow> 'n list \<Rightarrow> nat store_op"
  assumes upsert_row_at: "upsert x env db = (Inr (r, out), db') \<Longrightarrow>
      row_at (tbl db') (parent x) (nam x) = Some r \<and> live r \<and> en_obs r = cols x \<and> same_entity (row_at (tbl db) (parent x) (nam x)) (Some r)"
    and upsert_others: "upsert x env db = (Inr (r, out), db') \<Longrightarrow> (p, n) \<noteq> (parent x, nam x) \<Longrightarrow> row_at (tbl db') p n = row_at (tbl db) p n"
    and prune_keeps: "q \<noteq> p \<or> n \<in> set keep \<Longrightarrow> row_at (tbl (snd (prune p keep env db))) q n = row_at (tbl db) q n"
    and prune_drops: "n \<notin> set keep \<Longrightarrow> observed (tbl (snd (prune p keep env db))) p n = None"
begin

lemma upsert_same: "upsert x env db = (Inr (r, out), db') \<Longrightarrow> same_entity (row_at (tbl db) p n) (row_at (tbl db') p n)"
  using upsert_row_at [of x env db r out db'] upsert_others [of x env db r out db' p n] by (cases "(p, n) = (parent x, nam x)") auto

lemma each_same:
  "upsert_each a resource upsert xs w = (ok, w') \<Longrightarrow> quiet w w' \<Longrightarrow> same_entity (row_at (tbl (cw_db w)) p n) (row_at (tbl (cw_db w')) p n)"
proof (induction xs arbitrary: ok w)
  case (Cons x xs)
  from Cons.prems obtain env r out w1 ok' where 1: "upsert x env (cw_db w) = (Inr (r, out), cw_db w1)"
    "upsert_each a resource upsert xs w1 = (ok', w')" "quiet w1 w'" by (rule quiet_upsert_each_Cons)
  show ?case by (rule same_entity_trans [OF upsert_same [OF 1(1)] Cons.IH [OF 1(2,3)]])
qed simp

lemma each_others:
  "upsert_each a resource upsert xs w = (ok, w') \<Longrightarrow> quiet w w' \<Longrightarrow> (p, n) \<notin> (\<lambda>x. (parent x, nam x)) ` set xs \<Longrightarrow>
     row_at (tbl (cw_db w')) p n = row_at (tbl (cw_db w)) p n"
proof (induction xs arbitrary: ok w)
  case (Cons x xs)
  from Cons.prems(3) have "(p, n) \<noteq> (parent x, nam x)" "(p, n) \<notin> (\<lambda>x. (parent x, nam x)) ` set xs" by auto
  moreover from Cons.prems(1,2) obtain env r out w1 ok' where 1: "upsert x env (cw_db w) = (Inr (r, out), cw_db w1)"
    "upsert_each a resource upsert xs w1 = (ok', w')" "quiet w1 w'" by (rule quiet_upsert_each_Cons)
  ultimately show ?case using upsert_others [OF 1(1), of p n] Cons.IH [OF 1(2,3)] by simp
qed simp

lemma each_ok:
  "upsert_each a resource upsert xs w = (ok, w') \<Longrightarrow> quiet w w' \<Longrightarrow>
     map fst ok = xs \<and>
     (\<forall>(x, r)\<in>set ok. \<exists>r'. row_at (tbl (cw_db w')) (parent x) (nam x) = Some r' \<and> en_id r' = en_id r) \<and>
     (\<forall>p n. observed (tbl (cw_db w')) p n =
        (case map_of (rev (map (\<lambda>x. ((parent x, nam x), cols x)) xs)) (p, n) of None \<Rightarrow> observed (tbl (cw_db w)) p n | Some obs \<Rightarrow> Some obs))"
proof (induction xs arbitrary: ok w)
  case (Cons x xs)
  from Cons.prems obtain env r out w1 ok' where 1: "upsert x env (cw_db w) = (Inr (r, out), cw_db w1)"
    "upsert_each a resource upsert xs w1 = (ok', w')" "ok = (x, r) # ok'" "quiet w1 w'" by (rule quiet_upsert_each_Cons)
  note IH = Cons.IH [OF 1(2,4)]
  have r: "row_at (tbl (cw_db w1)) (parent x) (nam x) = Some r" "live r" "en_obs r = cols x" using upsert_row_at [OF 1(1)] by auto
  have "\<exists>r'. row_at (tbl (cw_db w')) (parent x) (nam x) = Some r' \<and> en_id r' = en_id r"
    using each_same [OF 1(2,4), of "parent x" "nam x"] r(1) by (auto simp: same_entity_def split: option.splits)
  moreover have "observed (tbl (cw_db w1)) p n = (if (p, n) = (parent x, nam x) then Some (cols x) else observed (tbl (cw_db w)) p n)" for p n
    using r upsert_others [OF 1(1), of p n] by (auto simp: observed_def)
  ultimately show ?case using IH by (auto simp: 1(3) map_add_def split: option.splits)
qed simp

text \<open>The reconcile loop over the parents \<open>ps\<close>.\<close>

lemma prune_loop:
  "quiet w (fold (\<lambda>p. reconcile_call a resource (prune p (keep p))) ps w) \<Longrightarrow>
   (p \<notin> set ps \<or> n \<in> set (keep p) \<longrightarrow>
      row_at (tbl (cw_db (fold (\<lambda>p. reconcile_call a resource (prune p (keep p))) ps w))) p n = row_at (tbl (cw_db w)) p n) \<and>
   (p \<in> set ps \<and> n \<notin> set (keep p) \<longrightarrow>
      observed (tbl (cw_db (fold (\<lambda>p. reconcile_call a resource (prune p (keep p))) ps w))) p n = None)"
proof (induction ps arbitrary: w)
  case (Cons q ps)
  let ?w1 = "reconcile_call a resource (prune q (keep q)) w"
  let ?w2 = "fold (\<lambda>p. reconcile_call a resource (prune p (keep p))) ps ?w1"
  have q: "quiet w ?w1" "quiet ?w1 ?w2"
    using quiet_split [of w ?w1 ?w2] louder_reconcile_call louder_fold [of "\<lambda>p. reconcile_call a resource (prune p (keep p))" ?w1 ps] Cons.prems by auto
  from q(1) obtain env where e: "cw_db ?w1 = snd (prune q (keep q) env (cw_db w))" by (rule quiet_reconcile_call)
  have k: "p \<noteq> q \<or> n \<in> set (keep p) \<longrightarrow> row_at (tbl (cw_db ?w1)) p n = row_at (tbl (cw_db w)) p n" using prune_keeps e by auto
  have d: "n \<notin> set (keep q) \<longrightarrow> observed (tbl (cw_db ?w1)) q n = None" using prune_drops e by simp
  show ?case using Cons.IH [OF q(2)] k d by (auto simp: observed_def)
qed simp

lemma ingest_exact:
  assumes up: "upsert_each a resource upsert xs w = (ok, w1)"
    and w2: "w2 = fold (\<lambda>p. reconcile_call a resource (prune p (keep p))) ps w1"
    and q: "quiet w w2"
    and keep: "\<And>p. set (keep p) = nam ` {x \<in> set xs. parent x = p}"
    and ps: "parent ` set xs \<subseteq> set ps"
  shows "p \<in> set ps \<Longrightarrow> mirrors (tbl (cw_db w2)) p (map (\<lambda>x. (nam x, cols x)) (filter (\<lambda>x. parent x = p) xs))"
    and "p \<notin> set ps \<Longrightarrow> row_at (tbl (cw_db w2)) p n = row_at (tbl (cw_db w)) p n"
    and "n \<in> set (keep p) \<Longrightarrow> same_entity (row_at (tbl (cw_db w)) p n) (row_at (tbl (cw_db w2)) p n)"
    and "map fst ok = xs"
    and "(x, r) \<in> set ok \<Longrightarrow> \<exists>r'. row_at (tbl (cw_db w2)) (parent x) (nam x) = Some r' \<and> en_id r' = en_id r"
    and "quiet w w1"
proof -
  have "louder w w1" using louder_upsert_each [of w a resource upsert xs] up by simp
  moreover have "louder w1 w2" unfolding w2 by (intro louder_fold louder_reconcile_call)
  ultimately have qs: "quiet w w1" "quiet w1 w2" using quiet_split q by blast+
  note E = each_ok [OF up qs(1)] and L = prune_loop [OF qs(2) [unfolded w2], folded w2]
  let ?rows = "\<lambda>p. map (\<lambda>x. (nam x, cols x)) (filter (\<lambda>x. parent x = p) xs)"
  have lookup: "map_of (rev (map (\<lambda>x. ((parent x, nam x), cols x)) ys)) (p, n) =
      map_of (rev (map (\<lambda>x. (nam x, cols x)) (filter (\<lambda>x. parent x = p) ys))) n" for ys p n
    by (induction ys) (auto simp: map_add_def split: option.splits)
  have dom: "n \<in> set (keep p) \<longleftrightarrow> map_of (rev (?rows p)) n \<noteq> None" for p n
    unfolding keep map_of_eq_None_iff by force
  show "p \<in> set ps \<Longrightarrow> mirrors (tbl (cw_db w2)) p (?rows p)"
    unfolding mirrors_def
  proof
    fix n assume p: "p \<in> set ps"
    show "observed (tbl (cw_db w2)) p n = map_of (rev (?rows p)) n"
    proof (cases "n \<in> set (keep p)")
      case True
      then have "observed (tbl (cw_db w2)) p n = observed (tbl (cw_db w1)) p n" using L by (simp add: observed_def)
      then show ?thesis using E True dom [of n p] by (auto simp: lookup)
    qed (use L p dom [of n p] in auto)
  qed
  show "p \<notin> set ps \<Longrightarrow> row_at (tbl (cw_db w2)) p n = row_at (tbl (cw_db w)) p n"
    using L each_others [OF up qs(1), of p n] ps by auto
  show "n \<in> set (keep p) \<Longrightarrow> same_entity (row_at (tbl (cw_db w)) p n) (row_at (tbl (cw_db w2)) p n)"
    using L each_same [OF up qs(1), of p n] by auto
  show "map fst ok = xs" using E by simp
  show "quiet w w1" by (rule qs(1))
  assume x: "(x, r) \<in> set ok"
  then have "x \<in> set xs" using E by force
  then have "nam x \<in> set (keep (parent x))" by (auto simp: keep)
  then show "\<exists>r'. row_at (tbl (cw_db w2)) (parent x) (nam x) = Some r' \<and> en_id r' = en_id r" using L E x by fastforce
qed

end

section \<open>The tables of the inventory\<close>

text \<open>An upsert that answers has run its statement on its own table.\<close>

definition wrote :: "('p, 'n, 'o, 'c) entity list \<Rightarrow> ('p, 'n, 'o, 'c) entity list \<Rightarrow> ('p, 'n, 'o, 'c) entity \<Rightarrow> 'p \<Rightarrow> 'n \<Rightarrow> 'o \<Rightarrow> bool" where
  "wrote t t' r p n obs \<longleftrightarrow> (\<exists>fk i cur now b c. upsert_row fk (new_row i p n obs cur now) t = Inr (r, b, c, t'))"

lemma wroteI: "upsert_row fk (new_row i p n obs cur now) t = Inr (r, b, c, t') \<Longrightarrow> wrote t t' r p n obs"
  unfolding wrote_def by blast

lemma wrote_law:
  assumes "wrote t t' r p n obs"
  shows "row_at t' p n = Some r \<and> live r \<and> en_obs r = obs \<and> same_entity (row_at t p n) (Some r)"
    "(q, m) \<noteq> (p, n) \<Longrightarrow> row_at t' q m = row_at t q m"
proof -
  from assms obtain fk i cur now b c where "upsert_row fk (new_row i p n obs cur now) t = Inr (r, b, c, t')" by (auto simp: wrote_def)
  note row_at_upsert [OF this]
  then show "row_at t' p n = Some r \<and> live r \<and> en_obs r = obs \<and> same_entity (row_at t p n) (Some r)"
    "(q, m) \<noteq> (p, n) \<Longrightarrow> row_at t' q m = row_at t q m" by auto
qed

lemma upsert_wrote:
  "UpsertNode env no db = (Inr (rno, out), db') \<Longrightarrow> wrote (inv_nodes db) (inv_nodes db') rno (om_ClusterId no) (om_Name no) (node_columns no)"
  "UpsertNamespace env n db = (Inr (rn, out), db') \<Longrightarrow> wrote (inv_namespaces db) (inv_namespaces db') rn (nm_ClusterId n) (nm_Name n) (namespace_columns n)"
  "UpsertPersistentVolume env v db = (Inr (rv, out), db') \<Longrightarrow> wrote (inv_pvs db) (inv_pvs db') rv (pvm_ClusterId v) (pvm_Name v) (pv_columns v)"
  "UpsertWorkload env wl db = (Inr (rw, out), db') \<Longrightarrow> wrote (inv_workloads db) (inv_workloads db') rw (wm_NamespaceId wl) (wm_Kind wl, wm_Name wl) (workload_columns wl)"
  "UpsertPod env po db = (Inr (rp, out), db') \<Longrightarrow> wrote (inv_pods db) (inv_pods db') rp (pom_NamespaceId po) (pom_Name po) (pod_columns po)"
  "UpsertService env s db = (Inr (rs, out), db') \<Longrightarrow> wrote (inv_services db) (inv_services db') rs (svm_NamespaceId s) (svm_Name s) (service_columns s)"
  "UpsertIngress env ig db = (Inr (ri, out), db') \<Longrightarrow> wrote (inv_ingresses db) (inv_ingresses db') ri (igm_NamespaceId ig) (igm_Name ig) (ingress_columns ig)"
  "UpsertPersistentVolumeClaim env pc db = (Inr (rc, out), db') \<Longrightarrow> wrote (inv_claims db) (inv_claims db') rc (clm_NamespaceId pc) (clm_Name pc) (claim_columns pc)"
  by (auto simp: UpsertNode_def UpsertNamespace_def UpsertWorkload_def UpsertPod_def UpsertService_def UpsertIngress_def
    UpsertPersistentVolume_def UpsertPersistentVolumeClaim_def nodeInsertValues_def pod_new_def service_new_def ingress_new_def pv_new_def claim_new_def
    Let_def split: sum.splits intro: wroteI)

lemma create_keys [simp]:
  "om_ClusterId (node_create p n) = p" "om_Name (node_create p n) = ni_Name n"
  "nm_ClusterId (namespace_create p m) = p" "nm_Name (namespace_create p m) = nsi_Name m"
  "pvm_ClusterId (pv_create p v) = p" "pvm_Name (pv_create p v) = pvi_Name v"
  "wm_NamespaceId (workload_create p x) = p" "wm_Kind (workload_create p x) = wi_Kind x" "wm_Name (workload_create p x) = wi_Name x"
  "pom_NamespaceId (buildPodCreate po p ws rso) = p" "pom_Name (buildPodCreate po p ws rso) = pi_Name po"
  "svm_NamespaceId (buildServiceCreate s p) = p" "svm_Name (buildServiceCreate s p) = si_Name s"
  "igm_NamespaceId (buildIngressCreate i p) = p" "igm_Name (buildIngressCreate i p) = ii_Name i"
  "clm_NamespaceId (buildPVCCreate c p pvs) = p" "clm_Name (buildPVCCreate c p pvs) = pci_Name c"
  by (simp_all add: node_create_def namespace_create_def pv_create_def workload_create_def buildPodCreate_def buildServiceCreate_def
    buildIngressCreate_def buildPVCCreate_def)

text \<open>What a reconcile delete leaves of its table.\<close>

definition pruned :: "('p, 'n, 'o, 'c) entity list \<Rightarrow> ('p, 'n, 'o, 'c) entity list \<Rightarrow> 'p \<Rightarrow> 'n list \<Rightarrow> bool" where
  "pruned t t' p keep \<longleftrightarrow>
     (\<forall>q n. q \<noteq> p \<or> n \<in> set keep \<longrightarrow> row_at t' q n = row_at t q n) \<and> (\<forall>n. n \<notin> set keep \<longrightarrow> observed t' p n = None)"

lemma pruned_soft: "(\<And>r. P r \<longleftrightarrow> en_parent r = p \<and> en_name r \<notin> set keep) \<Longrightarrow> pruned t (soft_delete now P t) p keep"
  unfolding pruned_def by (simp add: soft_prune [where p = p and keep = keep])

lemma pruned_hard: "(\<And>r. P r \<longleftrightarrow> en_parent r = p \<and> en_name r \<notin> set keep) \<Longrightarrow> pruned t (delete_rows P t) p keep"
  unfolding pruned_def by (simp add: hard_prune [where p = p and keep = keep])

lemma unnest_pairs: "unnest_kept (map fst keep) (map snd keep) k \<longleftrightarrow> k \<in> set keep"
  by (cases k) (simp add: unnest_kept_def zip_map_fst_snd)

lemma DeleteNamespacesNotIn_tables:
  "inv_namespaces (snd (DeleteNamespacesNotIn env p keep db)) = soft_delete (ie_NOW env) (not_kept p keep) (inv_namespaces db)"
proof -
  have cleared: "inv_namespaces (snd (fold (clear_namespace env) xs (bs, d))) = inv_namespaces d" for xs bs d
    by (induction xs arbitrary: bs d) (simp_all add: clear_namespace_def Let_def delete_unhistoried_def)
  have recorded: "inv_namespaces (fold (\<lambda>(i, ws) d. capture_ids env KindNamespace namespaceRowMap [i]
      (capture_ids env KindWorkload workloadRowMap ws d)) xs d) = inv_namespaces d" for xs d
    by (induction xs arbitrary: d) auto
  show ?thesis
    by (simp add: DeleteNamespacesNotIn_def Let_def case_prod_unfold cleared recorded [unfolded case_prod_unfold])
qed

lemma prune_laws:
  "pruned (inv_nodes db) (inv_nodes (snd (DeleteNodesNotIn env p keep db))) p keep"
  "pruned (inv_namespaces db) (inv_namespaces (snd (DeleteNamespacesNotIn env p keep db))) p keep"
  "pruned (inv_pvs db) (inv_pvs (snd (DeletePersistentVolumesNotIn p keep db))) p keep"
  "pruned (inv_workloads db) (inv_workloads (snd (DeleteWorkloadsNotIn env p (map fst wkeep) (map snd wkeep) db))) p wkeep"
  "pruned (inv_pods db) (inv_pods (snd (DeletePodsNotIn p keep db))) p keep"
  "pruned (inv_services db) (inv_services (snd (DeleteServicesNotIn p keep db))) p keep"
  "pruned (inv_ingresses db) (inv_ingresses (snd (DeleteIngressesNotIn p keep db))) p keep"
  "pruned (inv_claims db) (inv_claims (snd (DeletePersistentVolumeClaimsNotIn p keep db))) p keep"
  by (simp_all add: DeleteNodesNotIn_def DeleteNamespacesNotIn_tables DeletePersistentVolumesNotIn_def delete_pvs_def DeleteWorkloadsNotIn_def
    DeletePodsNotIn_def DeleteServicesNotIn_def DeleteIngressesNotIn_def DeletePersistentVolumeClaimsNotIn_def Let_def pruned_soft pruned_hard
    not_kept_def workload_not_kept_def unnest_pairs)

lemma mirroredI:
  assumes "\<And>x env db r out db'. upsert x env db = (Inr (r, out), db') \<Longrightarrow> wrote (tbl db) (tbl db') r (parent x) (nam x) (cols x)"
    and "\<And>p keep env db. pruned (tbl db) (tbl (snd (prune p keep env db))) p keep"
  shows "mirrored tbl upsert parent nam cols prune"
  using wrote_law [OF assms(1)] assms(2) by unfold_locales (auto simp: pruned_def)

interpretation mn: mirrored inv_nodes "\<lambda>n env. UpsertNode env (node_create cl n)" "\<lambda>_. cl" ni_Name
  "\<lambda>n. node_columns (node_create cl n)" "\<lambda>p keep env. DeleteNodesNotIn env p keep" for cl
  by (rule mirroredI) (auto simp: prune_laws dest: upsert_wrote)

interpretation mv: mirrored inv_pvs "\<lambda>v env. UpsertPersistentVolume env (pv_create cl v)" "\<lambda>_. cl" pvi_Name
  "\<lambda>v. pv_columns (pv_create cl v)" "\<lambda>p keep env. DeletePersistentVolumesNotIn p keep" for cl
  by (rule mirroredI) (auto simp: prune_laws dest: upsert_wrote)

interpretation ms: mirrored inv_namespaces "\<lambda>n env. UpsertNamespace env (namespace_create cl n)" "\<lambda>_. cl" nsi_Name
  "\<lambda>n. namespace_columns (namespace_create cl n)" "\<lambda>p keep env. DeleteNamespacesNotIn env p keep" for cl
  by (rule mirroredI) (auto simp: prune_laws dest: upsert_wrote)

interpretation mw: mirrored inv_workloads "\<lambda>(i, x) env. UpsertWorkload env (workload_create i x)" fst "\<lambda>(i, x). (wi_Kind x, wi_Name x)"
  "\<lambda>(i, x). workload_columns (workload_create i x)" "\<lambda>p keep env. DeleteWorkloadsNotIn env p (map fst keep) (map snd keep)"
  by (rule mirroredI) (auto simp: prune_laws dest: upsert_wrote)

interpretation mp: mirrored inv_pods "\<lambda>(i, x) env. UpsertPod env (buildPodCreate x i ws rso)" fst "\<lambda>(i, x). pi_Name x"
  "\<lambda>(i, x). pod_columns (buildPodCreate x i ws rso)" "\<lambda>p keep env. DeletePodsNotIn p keep" for ws rso
  by (rule mirroredI) (auto simp: prune_laws dest: upsert_wrote)

interpretation mx: mirrored inv_services "\<lambda>(i, x) env. UpsertService env (buildServiceCreate x i)" fst "\<lambda>(i, x). si_Name x"
  "\<lambda>(i, x). service_columns (buildServiceCreate x i)" "\<lambda>p keep env. DeleteServicesNotIn p keep"
  by (rule mirroredI) (auto simp: prune_laws dest: upsert_wrote)

interpretation mi: mirrored inv_ingresses "\<lambda>(i, x) env. UpsertIngress env (buildIngressCreate x i)" fst "\<lambda>(i, x). ii_Name x"
  "\<lambda>(i, x). ingress_columns (buildIngressCreate x i)" "\<lambda>p keep env. DeleteIngressesNotIn p keep"
  by (rule mirroredI) (auto simp: prune_laws dest: upsert_wrote)

interpretation mc: mirrored inv_claims "\<lambda>(i, x) env. UpsertPersistentVolumeClaim env (buildPVCCreate x i pvs)" fst "\<lambda>(i, x). pci_Name x"
  "\<lambda>(i, x). claim_columns (buildPVCCreate x i pvs)" "\<lambda>p keep env. DeletePersistentVolumeClaimsNotIn p keep" for pvs
  by (rule mirroredI) (auto simp: prune_laws dest: upsert_wrote)

end
