(* ===== verification/Collector_Poll.thy ===== *)
theory Collector_Poll
  imports Collector_Mirror
begin

text \<open>
  One poll of the collector as a whole: the maps it builds between its stages, what every stage keeps of the tables, and
  which errors it observes. A poll keeps every invariant of the store, whatever fails.
\<close>

section \<open>The maps a poll builds\<close>

lemma map_of_fold_update:
  "map_of (fold (\<lambda>y. AList.update (f y) (g y)) ys m) k =
     (case map_of (rev (map (\<lambda>y. (f y, g y)) ys)) k of None \<Rightarrow> map_of m k | Some v \<Rightarrow> Some v)"
  by (induction ys arbitrary: m) (auto simp: update_conv' map_add_def split: option.splits)

lemma map_of_ids_by: "map_of (ids_by nm ok) k = map_of (rev (map (\<lambda>(x, r). (nm x, en_id r)) ok)) k"
  using map_of_fold_update [of "\<lambda>(x, r). nm x" "\<lambda>(x, r). en_id r" ok "[]" k]
  by (simp add: ids_by_def case_prod_unfold option.case_eq_if)

lemma index_list_update [simp]: "index_list (AList.update i xs m) j = (if i = j then xs else index_list m j)"
  by (simp add: index_list_def update_conv')

lemma keep_by_ns_at: "index_list (keep_by_ns nm ok) i = map (\<lambda>((_, x), _). nm x) (filter (\<lambda>((i', _), _). i' = i) ok)"
proof -
  have "index_list (fold (\<lambda>((i, x), r) m. AList.update i (index_list m i @ [nm x]) m) ok m) i =
      index_list m i @ map (\<lambda>((_, x), _). nm x) (filter (\<lambda>((i', _), _). i' = i) ok)" for m
    by (induction ok arbitrary: m) auto
  from this [of "[]"] show ?thesis by (simp add: keep_by_ns_def index_list_def)
qed

lemma set_keep_by_ns: "map fst ok = xs \<Longrightarrow> set (index_list (keep_by_ns nm ok) i) = (\<lambda>(_, x). nm x) ` {y \<in> set xs. fst y = i}"
  unfolding keep_by_ns_at by force

lemma lookup_workload_ids:
  "lookup_workload i k n (ids_by_ns nm ok) = map_of (rev (map (\<lambda>((_, x), r). (nm x, en_id r)) (filter (\<lambda>((i', _), _). i' = i) ok))) (k, n)"
proof -
  have l: "lookup_workload i k n m = map_of (index_list m i) (k, n)" for m
    by (simp add: lookup_workload_def index_list_def split: option.splits)
  have "map_of (index_list (fold (\<lambda>((i, x), r) m. AList.update i (AList.update (nm x) (en_id r) (index_list m i)) m) ok m) i) (k, n) =
      (case map_of (rev (map (\<lambda>((_, x), r). (nm x, en_id r)) (filter (\<lambda>((i', _), _). i' = i) ok))) (k, n) of
         None \<Rightarrow> map_of (index_list m i) (k, n) | Some v \<Rightarrow> Some v)" for m
    by (induction ok arbitrary: m) (auto simp: update_conv' map_add_def split: option.splits)
  from this [of "[]"] show ?thesis by (simp add: l ids_by_ns_def index_list_def option.case_eq_if)
qed

lemma set_known: "(i, x) \<in> set (known nsOf m xs) \<longleftrightarrow> x \<in> set xs \<and> map_of m (nsOf x) = Some i"
  by (induction xs) (auto simp: known_def List.map_filter_def split: option.splits)

lemma known_Cons: "known nsOf m (x # xs) = (case map_of m (nsOf x) of None \<Rightarrow> known nsOf m xs | Some i \<Rightarrow> (i, x) # known nsOf m xs)"
  by (auto simp: known_def List.map_filter_def split: option.splits)

lemma known_at:
  assumes "map_of m n = Some i" "\<And>n'. map_of m n' = Some i \<Longrightarrow> n' = n"
  shows "filter (\<lambda>y. fst y = i) (known nsOf m xs) = map (Pair i) (filter (\<lambda>x. nsOf x = n) xs)"
proof (induction xs)
  case (Cons x xs)
  have "map_of m (nsOf x) = Some i \<longleftrightarrow> nsOf x = n" using assms by blast
  with Cons show ?case by (cases "map_of m (nsOf x)") (auto simp: known_Cons)
qed (simp add: known_def List.map_filter_def)

section \<open>What each ingest function keeps\<close>

lemma stage_keeps:
  assumes "\<And>x env db. P db \<Longrightarrow> P (snd (op x env db))" "\<And>env db. P db \<Longrightarrow> P (snd (del env db))" "P (cw_db w)"
  shows "P (cw_db (if b then reconcile_call a resource del (snd (upsert_each a resource op xs w)) else snd (upsert_each a resource op xs w)))"
  using reconcile_call_keeps [of P del] upsert_each_keeps [of P op w a resource xs] assms by simp

lemma namespaced_stage_keeps:
  assumes "\<And>x env db. P db \<Longrightarrow> P (snd (op x env db))" "\<And>i ks env db. P db \<Longrightarrow> P (snd (del i ks env db))" "P (cw_db w)"
  shows "P (cw_db (if b then reconcilePerNamespace a resource m keep del (snd (upsert_each a resource op xs w)) else snd (upsert_each a resource op xs w)))"
  using reconcilePerNamespace_keeps [of P del] upsert_each_keeps [of P op w a resource xs] assms by simp

lemma ingestNodes_keeps:
  assumes "\<And>env i db. P db \<Longrightarrow> P (snd (UpsertNode env i db))" "\<And>env i ks db. P db \<Longrightarrow> P (snd (DeleteNodesNotIn env i ks db))" "P (cw_db w)"
  shows "P (cw_db (ingestNodes a c src cl w))"
  by (cases "ListNodes src") (simp_all add: ingestNodes_def case_prod_unfold assms stage_keeps [where P = P])

lemma ingestPersistentVolumes_keeps:
  assumes "\<And>env i db. P db \<Longrightarrow> P (snd (UpsertPersistentVolume env i db))" "\<And>i ks db. P db \<Longrightarrow> P (snd (DeletePersistentVolumesNotIn i ks db))" "P (cw_db w)"
  shows "P (cw_db (snd (ingestPersistentVolumes a c src cl w)))"
  by (cases "ListPersistentVolumes src") (simp_all add: ingestPersistentVolumes_def case_prod_unfold assms stage_keeps [where P = P])

lemma ingestNamespaces_keeps:
  assumes "\<And>env i db. P db \<Longrightarrow> P (snd (UpsertNamespace env i db))" "\<And>env i ks db. P db \<Longrightarrow> P (snd (DeleteNamespacesNotIn env i ks db))" "P (cw_db w)"
  shows "P (cw_db (snd (ingestNamespaces a c src cl w)))"
  by (cases "ListNamespaces src") (simp_all add: ingestNamespaces_def case_prod_unfold assms stage_keeps [where P = P])

lemma ingestWorkloads_keeps:
  assumes "\<And>env i db. P db \<Longrightarrow> P (snd (UpsertWorkload env i db))" "\<And>env i kinds ks db. P db \<Longrightarrow> P (snd (DeleteWorkloadsNotIn env i kinds ks db))" "P (cw_db w)"
  shows "P (cw_db (snd (ingestWorkloads a c src m w)))"
  by (cases "ListWorkloads src") (simp_all add: ingestWorkloads_def reconcileWorkloads_def case_prod_unfold assms reconcilePerNamespace_keeps [where P = P] upsert_each_keeps [where P = P])

lemma list_rs_owners_db [simp]: "cw_db (snd (list_rs_owners src m ws w)) = cw_db w"
  by (simp add: list_rs_owners_def split: option.splits)

lemma ingestPods_keeps:
  assumes "\<And>env i db. P db \<Longrightarrow> P (snd (UpsertPod env i db))" "\<And>i ks db. P db \<Longrightarrow> P (snd (DeletePodsNotIn i ks db))" "P (cw_db w)"
  shows "P (cw_db (ingestPods a c src m ws w))"
  by (cases "ListPods src") (simp_all add: ingestPods_def case_prod_unfold assms namespaced_stage_keeps [where P = P])

lemma ingestServices_keeps:
  assumes "\<And>env i db. P db \<Longrightarrow> P (snd (UpsertService env i db))" "\<And>i ks db. P db \<Longrightarrow> P (snd (DeleteServicesNotIn i ks db))" "P (cw_db w)"
  shows "P (cw_db (ingestServices a c src m w))"
  by (cases "ListServices src") (simp_all add: ingestServices_def case_prod_unfold assms namespaced_stage_keeps [where P = P])

lemma ingestIngresses_keeps:
  assumes "\<And>env i db. P db \<Longrightarrow> P (snd (UpsertIngress env i db))" "\<And>i ks db. P db \<Longrightarrow> P (snd (DeleteIngressesNotIn i ks db))" "P (cw_db w)"
  shows "P (cw_db (ingestIngresses a c src m w))"
  by (cases "ListIngresses src") (simp_all add: ingestIngresses_def case_prod_unfold assms namespaced_stage_keeps [where P = P])

lemma ingestPersistentVolumeClaims_keeps:
  assumes "\<And>env i db. P db \<Longrightarrow> P (snd (UpsertPersistentVolumeClaim env i db))" "\<And>i ks db. P db \<Longrightarrow> P (snd (DeletePersistentVolumeClaimsNotIn i ks db))" "P (cw_db w)"
  shows "P (cw_db (ingestPersistentVolumeClaims a c src m pvs w))"
  by (cases "ListPersistentVolumeClaims src") (simp_all add: ingestPersistentVolumeClaims_def case_prod_unfold assms namespaced_stage_keeps [where P = P])

lemmas ingest_keeps = ingestNodes_keeps ingestPersistentVolumes_keeps ingestNamespaces_keeps ingestWorkloads_keeps ingestPods_keeps ingestServices_keeps
  ingestIngresses_keeps ingestPersistentVolumeClaims_keeps

lemma poll_keeps_parts:
  assumes en: "\<And>env i db. P db \<Longrightarrow> P (snd (EnsureCluster env i db))" and up: "\<And>env i u db. P db \<Longrightarrow> P (snd (UpdateCluster env i u db))"
    and cl: "\<And>i v. P (cw_db v) \<Longrightarrow> P (cw_db (ingest_cluster a c src i v))" and P: "P (cw_db w)"
  shows "P (cw_db (poll a c src w))"
proof -
  have upd: "P (cw_db v) \<Longrightarrow> P (cw_db (snd (refresh_version a version cluster v)))" for version cluster v
    using call_keeps [of P "\<lambda>env. UpdateCluster env (en_id cluster) (version_update version)" v a] up
    by (cases "call a (\<lambda>env. UpdateCluster env (en_id cluster) (version_update version)) v";
        cases "fst (call a (\<lambda>env. UpdateCluster env (en_id cluster) (version_update version)) v)") (simp_all add: refresh_version_def)
  let ?e = "call a (\<lambda>env. EnsureCluster env (cluster_create (co_clusterName c))) w"
  have ens: "P (cw_db (snd ?e))" by (rule call_keeps [where P = P]) (simp_all add: en P)
  show ?thesis
  proof (cases "ServerVersion src")
    case (Some version)
    show ?thesis
    proof (cases "fst ?e")
      case (Inl err)
      with Some ens show ?thesis by (simp add: poll_def case_prod_unfold)
    next
      case (Inr y)
      obtain cluster b where y: "y = (cluster, b)" by fastforce
      from Inr y Some upd [OF ens, of version cluster] show ?thesis
        by (cases "refresh_version a version cluster (snd ?e)") (auto simp: poll_def case_prod_unfold cl split: bool.splits)
    qed
  qed (simp add: poll_def P)
qed

lemma poll_keeps:
  assumes step: "\<And>env db db'. inv_step env db db' \<Longrightarrow> P db \<Longrightarrow> P db'" and P: "P (cw_db w)"
  shows "P (cw_db (poll a c src w))"
proof -
  note S = step [OF s_EnsureCluster] step [OF s_UpdateCluster] step [OF s_UpsertNamespace] step [OF s_DeleteNamespacesNotIn] step [OF s_UpsertNode]
    step [OF s_DeleteNodesNotIn] step [OF s_UpsertWorkload] step [OF s_DeleteWorkloadsNotIn] step [OF s_UpsertPod] step [OF s_DeletePodsNotIn]
    step [OF s_UpsertService] step [OF s_DeleteServicesNotIn] step [OF s_UpsertIngress] step [OF s_DeleteIngressesNotIn]
    step [OF s_UpsertPersistentVolume] step [OF s_DeletePersistentVolumesNotIn] step [OF s_UpsertPersistentVolumeClaim]
    step [OF s_DeletePersistentVolumeClaimsNotIn]
  have ns: "P (cw_db v) \<Longrightarrow> P (cw_db (ingest_namespaced a c src m pvs v))" for m pvs v
    by (simp add: ingest_namespaced_def case_prod_unfold S ingest_keeps [where P = P])
  have cl: "P (cw_db v) \<Longrightarrow> P (cw_db (ingest_cluster a c src i v))" for i v
    using ingestNamespaces_keeps [of P "snd (ingestPersistentVolumes a c src i (ingestNodes a c src i v))" a c src i]
    by (auto simp: ingest_cluster_def case_prod_unfold S ingest_keeps [where P = P] ns split: option.splits)
  show ?thesis by (rule poll_keeps_parts [where P = P]) (simp_all add: S cl P)
qed

text \<open>Whatever fails during it, a poll from a reachable database ends in a reachable database.\<close>

lemma poll_reach: "inv_reach (cw_db w) \<Longrightarrow> inv_reach (cw_db (poll a c src w))"
  by (rule poll_keeps [of inv_reach]) (auto intro: inv_reach_step)

section \<open>Errors and frames of the stages\<close>

lemma louder_stage: "louder w (if b then reconcile_call a res del (snd (upsert_each a res op xs w)) else snd (upsert_each a res op xs w))"
  using louder_trans [OF louder_upsert_each louder_reconcile_call] louder_upsert_each by auto

lemma louder_namespaced_stage:
  "louder w (if b then reconcilePerNamespace a res m keep del (snd (upsert_each a res op xs w)) else snd (upsert_each a res op xs w))"
  using louder_trans [OF louder_upsert_each louder_reconcilePerNamespace] louder_upsert_each by auto

lemma louder_list_rs_owners: "louder w (snd (list_rs_owners src m ws w))"
  by (simp add: list_rs_owners_def split: option.splits)

lemma louder_ingest:
  "louder w (ingestNodes a c src cl w)" "louder w (snd (ingestPersistentVolumes a c src cl w))" "louder w (snd (ingestNamespaces a c src cl w))"
  "louder w (snd (ingestWorkloads a c src m w))" "louder w (ingestPods a c src m ws w)" "louder w (ingestServices a c src m w)"
  "louder w (ingestIngresses a c src m w)" "louder w (ingestPersistentVolumeClaims a c src m pvs w)"
proof -
  show "louder w (ingestNodes a c src cl w)" by (cases "ListNodes src") (simp_all only: ingestNodes_def case_prod_unfold option.case louder_stage louder_ObserveError)
  show "louder w (snd (ingestPersistentVolumes a c src cl w))"
    by (cases "ListPersistentVolumes src") (simp_all only: ingestPersistentVolumes_def case_prod_unfold option.case snd_conv louder_stage louder_ObserveError)
  show "louder w (snd (ingestNamespaces a c src cl w))"
    by (cases "ListNamespaces src") (simp_all only: ingestNamespaces_def case_prod_unfold option.case snd_conv louder_stage louder_ObserveError)
  show "louder w (snd (ingestWorkloads a c src m w))"
    by (cases "ListWorkloads src")
       (simp_all only: ingestWorkloads_def reconcileWorkloads_def case_prod_unfold option.case snd_conv louder_namespaced_stage louder_ObserveError)
  show "louder w (ingestPods a c src m ws w)"
    by (cases "ListPods src")
       (simp_all only: ingestPods_def case_prod_unfold option.case louder_trans [OF louder_list_rs_owners louder_namespaced_stage] louder_ObserveError)
  show "louder w (ingestServices a c src m w)"
    by (cases "ListServices src") (simp_all only: ingestServices_def case_prod_unfold option.case louder_namespaced_stage louder_ObserveError)
  show "louder w (ingestIngresses a c src m w)"
    by (cases "ListIngresses src") (simp_all only: ingestIngresses_def case_prod_unfold option.case louder_namespaced_stage louder_ObserveError)
  show "louder w (ingestPersistentVolumeClaims a c src m pvs w)"
    by (cases "ListPersistentVolumeClaims src") (simp_all only: ingestPersistentVolumeClaims_def case_prod_unfold option.case louder_namespaced_stage louder_ObserveError)
qed

text \<open>Each stage leaves the clusters and the tables of the stages before it.\<close>

lemmas write_ops = UpsertNode_def UpsertNamespace_def UpsertWorkload_def UpsertPod_def UpsertService_def UpsertIngress_def UpsertPersistentVolume_def
  UpsertPersistentVolumeClaim_def DeleteNodesNotIn_def DeletePersistentVolumesNotIn_def delete_pvs_def DeleteWorkloadsNotIn_def DeletePodsNotIn_def
  DeleteServicesNotIn_def DeleteIngressesNotIn_def DeletePersistentVolumeClaimsNotIn_def Let_def

lemma DeleteNamespacesNotIn_frame:
  "inv_clusters (snd (DeleteNamespacesNotIn env p keep db)) = inv_clusters db" "inv_nodes (snd (DeleteNamespacesNotIn env p keep db)) = inv_nodes db"
  "inv_pvs (snd (DeleteNamespacesNotIn env p keep db)) = inv_pvs db"
proof -
  let ?T = "\<lambda>d. (inv_clusters d, inv_nodes d, inv_pvs d)"
  have cleared: "?T (snd (fold (clear_namespace env) xs (bs, d))) = ?T d" for xs bs d
    by (induction xs arbitrary: bs d) (simp_all add: clear_namespace_def Let_def delete_unhistoried_def)
  have recorded: "?T (fold (\<lambda>x d. capture_ids env KindNamespace namespaceRowMap [fst x] (capture_ids env KindWorkload workloadRowMap (snd x) d)) xs d) = ?T d" for xs d
    by (induction xs arbitrary: d) auto
  have "?T (snd (DeleteNamespacesNotIn env p keep db)) = ?T db"
    using cleared recorded by (simp add: DeleteNamespacesNotIn_def Let_def case_prod_unfold)
  then show "inv_clusters (snd (DeleteNamespacesNotIn env p keep db)) = inv_clusters db" "inv_nodes (snd (DeleteNamespacesNotIn env p keep db)) = inv_nodes db"
    "inv_pvs (snd (DeleteNamespacesNotIn env p keep db)) = inv_pvs db" by auto
qed

lemma claims_frame:
  "(inv_clusters (cw_db (ingestPersistentVolumeClaims a c src m pvs w)), inv_nodes (cw_db (ingestPersistentVolumeClaims a c src m pvs w)),
    inv_pvs (cw_db (ingestPersistentVolumeClaims a c src m pvs w)), inv_namespaces (cw_db (ingestPersistentVolumeClaims a c src m pvs w)),
    inv_workloads (cw_db (ingestPersistentVolumeClaims a c src m pvs w)), inv_pods (cw_db (ingestPersistentVolumeClaims a c src m pvs w)),
    inv_services (cw_db (ingestPersistentVolumeClaims a c src m pvs w)), inv_ingresses (cw_db (ingestPersistentVolumeClaims a c src m pvs w))) =
   (inv_clusters (cw_db w), inv_nodes (cw_db w), inv_pvs (cw_db w), inv_namespaces (cw_db w), inv_workloads (cw_db w), inv_pods (cw_db w),
    inv_services (cw_db w), inv_ingresses (cw_db w))"
  by (rule ingestPersistentVolumeClaims_keeps [where P = "\<lambda>d. (inv_clusters d, inv_nodes d, inv_pvs d, inv_namespaces d, inv_workloads d, inv_pods d,
        inv_services d, inv_ingresses d) = (inv_clusters (cw_db w), inv_nodes (cw_db w), inv_pvs (cw_db w), inv_namespaces (cw_db w), inv_workloads (cw_db w),
        inv_pods (cw_db w), inv_services (cw_db w), inv_ingresses (cw_db w))"]) (simp_all add: write_ops split: sum.splits)

lemma ingresses_frame:
  "(inv_clusters (cw_db (ingestIngresses a c src m w)), inv_nodes (cw_db (ingestIngresses a c src m w)), inv_pvs (cw_db (ingestIngresses a c src m w)),
    inv_namespaces (cw_db (ingestIngresses a c src m w)), inv_workloads (cw_db (ingestIngresses a c src m w)), inv_pods (cw_db (ingestIngresses a c src m w)),
    inv_services (cw_db (ingestIngresses a c src m w))) =
   (inv_clusters (cw_db w), inv_nodes (cw_db w), inv_pvs (cw_db w), inv_namespaces (cw_db w), inv_workloads (cw_db w), inv_pods (cw_db w), inv_services (cw_db w))"
  by (rule ingestIngresses_keeps [where P = "\<lambda>d. (inv_clusters d, inv_nodes d, inv_pvs d, inv_namespaces d, inv_workloads d, inv_pods d,
        inv_services d) = (inv_clusters (cw_db w), inv_nodes (cw_db w), inv_pvs (cw_db w), inv_namespaces (cw_db w), inv_workloads (cw_db w),
        inv_pods (cw_db w), inv_services (cw_db w))"]) (simp_all add: write_ops split: sum.splits)

lemma services_frame:
  "(inv_clusters (cw_db (ingestServices a c src m w)), inv_nodes (cw_db (ingestServices a c src m w)), inv_pvs (cw_db (ingestServices a c src m w)),
    inv_namespaces (cw_db (ingestServices a c src m w)), inv_workloads (cw_db (ingestServices a c src m w)), inv_pods (cw_db (ingestServices a c src m w))) =
   (inv_clusters (cw_db w), inv_nodes (cw_db w), inv_pvs (cw_db w), inv_namespaces (cw_db w), inv_workloads (cw_db w), inv_pods (cw_db w))"
  by (rule ingestServices_keeps [where P = "\<lambda>d. (inv_clusters d, inv_nodes d, inv_pvs d, inv_namespaces d, inv_workloads d, inv_pods d) =
        (inv_clusters (cw_db w), inv_nodes (cw_db w), inv_pvs (cw_db w), inv_namespaces (cw_db w), inv_workloads (cw_db w), inv_pods (cw_db w))"])
     (simp_all add: write_ops split: sum.splits)

lemma pods_frame:
  "(inv_clusters (cw_db (ingestPods a c src m ws w)), inv_nodes (cw_db (ingestPods a c src m ws w)), inv_pvs (cw_db (ingestPods a c src m ws w)),
    inv_namespaces (cw_db (ingestPods a c src m ws w)), inv_workloads (cw_db (ingestPods a c src m ws w))) =
   (inv_clusters (cw_db w), inv_nodes (cw_db w), inv_pvs (cw_db w), inv_namespaces (cw_db w), inv_workloads (cw_db w))"
  by (rule ingestPods_keeps [where P = "\<lambda>d. (inv_clusters d, inv_nodes d, inv_pvs d, inv_namespaces d, inv_workloads d) =
        (inv_clusters (cw_db w), inv_nodes (cw_db w), inv_pvs (cw_db w), inv_namespaces (cw_db w), inv_workloads (cw_db w))"])
     (simp_all add: write_ops split: sum.splits)

lemma workloads_frame:
  "(inv_clusters (cw_db (snd (ingestWorkloads a c src m w))), inv_nodes (cw_db (snd (ingestWorkloads a c src m w))),
    inv_pvs (cw_db (snd (ingestWorkloads a c src m w))), inv_namespaces (cw_db (snd (ingestWorkloads a c src m w)))) =
   (inv_clusters (cw_db w), inv_nodes (cw_db w), inv_pvs (cw_db w), inv_namespaces (cw_db w))"
  by (rule ingestWorkloads_keeps [where P = "\<lambda>d. (inv_clusters d, inv_nodes d, inv_pvs d, inv_namespaces d) =
        (inv_clusters (cw_db w), inv_nodes (cw_db w), inv_pvs (cw_db w), inv_namespaces (cw_db w))"])
     (simp_all add: write_ops split: sum.splits)

lemma namespaces_frame:
  "(inv_clusters (cw_db (snd (ingestNamespaces a c src cl w))), inv_nodes (cw_db (snd (ingestNamespaces a c src cl w))),
    inv_pvs (cw_db (snd (ingestNamespaces a c src cl w)))) = (inv_clusters (cw_db w), inv_nodes (cw_db w), inv_pvs (cw_db w))"
  by (rule ingestNamespaces_keeps [where P = "\<lambda>d. (inv_clusters d, inv_nodes d, inv_pvs d) =
        (inv_clusters (cw_db w), inv_nodes (cw_db w), inv_pvs (cw_db w))"])
     (simp_all add: DeleteNamespacesNotIn_frame write_ops split: sum.splits)

lemma pvs_frame:
  "(inv_clusters (cw_db (snd (ingestPersistentVolumes a c src cl w))), inv_nodes (cw_db (snd (ingestPersistentVolumes a c src cl w)))) =
   (inv_clusters (cw_db w), inv_nodes (cw_db w))"
  by (rule ingestPersistentVolumes_keeps [where P = "\<lambda>d. (inv_clusters d, inv_nodes d) = (inv_clusters (cw_db w), inv_nodes (cw_db w))"])
     (simp_all add: write_ops split: sum.splits)

lemma nodes_frame: "inv_clusters (cw_db (ingestNodes a c src cl w)) = inv_clusters (cw_db w)"
  by (rule ingestNodes_keeps [where P = "\<lambda>d. inv_clusters d = inv_clusters (cw_db w)"]) (simp_all add: write_ops split: sum.splits)

end
