(* ===== verification/Collector_Exact.thy ===== *)
theory Collector_Exact
  imports Collector_Poll
begin

text \<open>
  A poll without errors is exact: it leaves the live rows of its cluster a mirror of the listings. The two scopes of an entity,
  cluster and namespace, extend the interface \<open>mirrored\<close>; the theorem composes the eight stages of the poll.
\<close>

section \<open>Cluster scope and namespace scope\<close>

locale cluster_scoped = mirrored tbl upsert "\<lambda>_. cl" nam cols prune
  for tbl :: "inventory \<Rightarrow> (uuid, 'n, 'o, 'c) entity list"
    and upsert :: "'x \<Rightarrow> ((uuid, 'n, 'o, 'c) entity \<times> UpsertOutcome) store_op"
    and cl :: uuid
    and nam :: "'x \<Rightarrow> 'n"
    and cols :: "'x \<Rightarrow> 'o"
    and prune :: "uuid \<Rightarrow> 'n list \<Rightarrow> nat store_op"
begin

lemma stage_exact:
  assumes up: "upsert_each a resource upsert xs w = (ok, w1)"
    and w2: "w2 = reconcile_call a resource (prune cl (map (\<lambda>(x, _). nam x) ok)) w1"
    and q: "quiet w w2"
  shows "mirrors (tbl (cw_db w2)) cl (map (\<lambda>x. (nam x, cols x)) xs)"
    "p \<noteq> cl \<Longrightarrow> row_at (tbl (cw_db w2)) p n = row_at (tbl (cw_db w)) p n"
    "x \<in> set xs \<Longrightarrow> same_entity (row_at (tbl (cw_db w)) cl (nam x)) (row_at (tbl (cw_db w2)) cl (nam x))"
    "map fst ok = xs"
    "(x, r) \<in> set ok \<Longrightarrow> \<exists>r'. row_at (tbl (cw_db w2)) cl (nam x) = Some r' \<and> en_id r' = en_id r"
proof -
  have "louder w w1" "louder w1 w2" using louder_upsert_each [of w a resource upsert xs] up louder_reconcile_call by (simp_all add: w2)
  then have "quiet w w1" using quiet_split q by blast
  then have ok: "map fst ok = xs" using each_ok [OF up] by blast
  let ?keep = "\<lambda>p. if p = cl then map (\<lambda>(x, _). nam x) ok else []"
  have w2': "w2 = fold (\<lambda>p. reconcile_call a resource (prune p (?keep p))) [cl] w1" by (simp add: w2)
  have keep: "set (?keep p) = nam ` {x \<in> set xs. cl = p}" for p unfolding ok [symmetric] by force
  have sub: "(\<lambda>_. cl) ` set xs \<subseteq> set [cl]" by auto
  note E = ingest_exact [OF up w2' q keep sub]
  show "mirrors (tbl (cw_db w2)) cl (map (\<lambda>x. (nam x, cols x)) xs)" using E(1) [of cl] by simp
  show "p \<noteq> cl \<Longrightarrow> row_at (tbl (cw_db w2)) p n = row_at (tbl (cw_db w)) p n" using E(2) [of p n] by auto
  show "x \<in> set xs \<Longrightarrow> same_entity (row_at (tbl (cw_db w)) cl (nam x)) (row_at (tbl (cw_db w2)) cl (nam x))"
    using E(3) [of "nam x" cl] keep [of cl] by auto
  show "map fst ok = xs" by (rule ok)
  show "(x, r) \<in> set ok \<Longrightarrow> \<exists>r'. row_at (tbl (cw_db w2)) cl (nam x) = Some r' \<and> en_id r' = en_id r" using E(5) [of x r] by auto
qed

end

locale namespace_scoped = mirrored tbl upsert fst "\<lambda>(_, y). nm y" cols prune
  for tbl :: "inventory \<Rightarrow> (uuid, 'n, 'o, 'c) entity list"
    and upsert :: "uuid \<times> 'y \<Rightarrow> ((uuid, 'n, 'o, 'c) entity \<times> UpsertOutcome) store_op"
    and nm :: "'y \<Rightarrow> 'n"
    and cols :: "uuid \<times> 'y \<Rightarrow> 'o"
    and prune :: "uuid \<Rightarrow> 'n list \<Rightarrow> nat store_op"
begin

lemma stage_exact:
  assumes up: "upsert_each a resource upsert (known nsOf m ys) w = (ok, w1)"
    and w2: "w2 = reconcilePerNamespace a resource m (keep_by_ns nm ok) prune w1"
    and q: "quiet w w2"
    and range: "\<And>k m. set (am_range a k m) = set m"
  shows "map_of m n = Some i \<Longrightarrow> (\<And>n'. map_of m n' = Some i \<Longrightarrow> n' = n) \<Longrightarrow>
      mirrors (tbl (cw_db w2)) i (map (\<lambda>y. (nm y, cols (i, y))) (filter (\<lambda>y. nsOf y = n) ys))"
    "i \<notin> snd ` set m \<Longrightarrow> row_at (tbl (cw_db w2)) i k = row_at (tbl (cw_db w)) i k"
    "map fst ok = known nsOf m ys"
    "((i, y), r) \<in> set ok \<Longrightarrow> \<exists>r'. row_at (tbl (cw_db w2)) i (nm y) = Some r' \<and> en_id r' = en_id r"
proof -
  have "louder w w1" "louder w1 w2"
    using louder_upsert_each [of w a resource upsert "known nsOf m ys"] up louder_reconcilePerNamespace by (simp_all add: w2)
  then have "quiet w w1" using quiet_split q by blast
  then have ok: "map fst ok = known nsOf m ys" using each_ok [OF up] by blast
  let ?ps = "map snd (am_range a (cw_calls w1) m)"
  have ps: "set ?ps = snd ` set m" by (simp add: range)
  have w2': "w2 = fold (\<lambda>i. reconcile_call a resource (prune i (index_list (keep_by_ns nm ok) i))) ?ps w1"
    unfolding w2 by (rule reconcilePerNamespace_fold)
  have sub: "fst ` set (known nsOf m ys) \<subseteq> set ?ps"
    unfolding ps using map_of_SomeD [of m] by (force simp: set_known)
  note E = ingest_exact [OF up w2' q set_keep_by_ns [OF ok] sub]
  show "map_of m n = Some i \<Longrightarrow> (\<And>n'. map_of m n' = Some i \<Longrightarrow> n' = n) \<Longrightarrow>
      mirrors (tbl (cw_db w2)) i (map (\<lambda>y. (nm y, cols (i, y))) (filter (\<lambda>y. nsOf y = n) ys))"
  proof -
    assume m: "map_of m n = Some i" and inj: "\<And>n'. map_of m n' = Some i \<Longrightarrow> n' = n"
    have "i \<in> set ?ps" unfolding ps using map_of_SomeD [OF m] by force
    moreover have "filter (\<lambda>y. fst y = i) (known nsOf m ys) = map (Pair i) (filter (\<lambda>y. nsOf y = n) ys)" by (rule known_at [OF m inj])
    ultimately show "mirrors (tbl (cw_db w2)) i (map (\<lambda>y. (nm y, cols (i, y))) (filter (\<lambda>y. nsOf y = n) ys))" using E(1) [of i] by (simp add: comp_def)
  qed
  show "i \<notin> snd ` set m \<Longrightarrow> row_at (tbl (cw_db w2)) i k = row_at (tbl (cw_db w)) i k" using E(2) [of i k] ps by simp
  show "map fst ok = known nsOf m ys" by (rule ok)
  show "((i, y), r) \<in> set ok \<Longrightarrow> \<exists>r'. row_at (tbl (cw_db w2)) i (nm y) = Some r' \<and> en_id r' = en_id r" using E(5) [of "(i, y)" r] by simp
qed

end

interpretation cn: cluster_scoped inv_nodes "\<lambda>n env. UpsertNode env (node_create cl n)" cl ni_Name
  "\<lambda>n. node_columns (node_create cl n)" "\<lambda>p keep env. DeleteNodesNotIn env p keep" for cl ..

interpretation cv: cluster_scoped inv_pvs "\<lambda>v env. UpsertPersistentVolume env (pv_create cl v)" cl pvi_Name
  "\<lambda>v. pv_columns (pv_create cl v)" "\<lambda>p keep env. DeletePersistentVolumesNotIn p keep" for cl ..

interpretation cs: cluster_scoped inv_namespaces "\<lambda>n env. UpsertNamespace env (namespace_create cl n)" cl nsi_Name
  "\<lambda>n. namespace_columns (namespace_create cl n)" "\<lambda>p keep env. DeleteNamespacesNotIn env p keep" for cl ..

interpretation nw: namespace_scoped inv_workloads "\<lambda>(i, x) env. UpsertWorkload env (workload_create i x)" "\<lambda>x. (wi_Kind x, wi_Name x)"
  "\<lambda>(i, x). workload_columns (workload_create i x)" "\<lambda>p keep env. DeleteWorkloadsNotIn env p (map fst keep) (map snd keep)" ..

interpretation np: namespace_scoped inv_pods "\<lambda>(i, x) env. UpsertPod env (buildPodCreate x i ws rso)" pi_Name
  "\<lambda>(i, x). pod_columns (buildPodCreate x i ws rso)" "\<lambda>p keep env. DeletePodsNotIn p keep" for ws rso ..

interpretation nx: namespace_scoped inv_services "\<lambda>(i, x) env. UpsertService env (buildServiceCreate x i)" si_Name
  "\<lambda>(i, x). service_columns (buildServiceCreate x i)" "\<lambda>p keep env. DeleteServicesNotIn p keep" ..

interpretation nii: namespace_scoped inv_ingresses "\<lambda>(i, x) env. UpsertIngress env (buildIngressCreate x i)" ii_Name
  "\<lambda>(i, x). ingress_columns (buildIngressCreate x i)" "\<lambda>p keep env. DeleteIngressesNotIn p keep" ..

interpretation nc: namespace_scoped inv_claims "\<lambda>(i, x) env. UpsertPersistentVolumeClaim env (buildPVCCreate x i pvs)" pci_Name
  "\<lambda>(i, x). claim_columns (buildPVCCreate x i pvs)" "\<lambda>p keep env. DeletePersistentVolumeClaimsNotIn p keep" for pvs ..

section \<open>Ids of live rows\<close>

definition live_ids :: "('p, 'n, 'o, 'c) entity list \<Rightarrow> 'p \<Rightarrow> ('n, uuid) gomap" where
  "live_ids t p = map (\<lambda>r. (en_name r, en_id r)) (filter (\<lambda>r. en_parent r = p \<and> live r) t)"

lemma live_ids_lookup:
  assumes "tbl_ok Q t"
  shows "map_of (live_ids t p) n = (case row_at t p n of None \<Rightarrow> None | Some r \<Rightarrow> if live r then Some (en_id r) else None)"
proof -
  have d: "distinct (map fst (live_ids t p))"
    using assms by (auto simp: live_ids_def tbl_ok_def distinct_map inj_on_def row_key_def)
  show ?thesis
  proof (cases "\<exists>r. row_at t p n = Some r \<and> live r")
    case True
    then obtain r where r: "row_at t p n = Some r" "live r" by blast
    then have "(n, en_id r) \<in> set (live_ids t p)" using row_at_key [OF r(1)] by (auto simp: live_ids_def)
    then show ?thesis using d r by (simp add: map_of_is_SomeI)
  next
    case False
    have "(n, i) \<notin> set (live_ids t p)" for i
    proof
      assume "(n, i) \<in> set (live_ids t p)"
      then obtain r where "r \<in> set t" "en_parent r = p" "en_name r = n" "live r" by (auto simp: live_ids_def)
      with row_at_member [OF assms, of r] False show False by auto
    qed
    then have "map_of (live_ids t p) n = None" by (auto simp: map_of_eq_None_iff)
    with False show ?thesis by (auto split: option.splits)
  qed
qed

lemma live_ids_inj:
  assumes "tbl_ok Q t" "map_of (live_ids t p) n = Some i" "map_of (live_ids t p) n' = Some i"
  shows "n' = n"
  using assms(2,3) row_at_key [of t p n] row_at_key [of t p n'] tbl_ok_id_unique [OF assms(1)]
  by (auto simp: live_ids_lookup [OF assms(1)] split: option.splits if_splits)

text \<open>The map a stage builds from the rows the store answered is the map of the live rows it leaves.\<close>

lemma built_ids:
  assumes "tbl_ok Q t" "mirrors t p (map (\<lambda>x. (nm x, f x)) xs)" "map fst ok = xs"
    and ids: "\<And>x r. (x, r) \<in> set ok \<Longrightarrow> \<exists>r'. row_at t p (nm x) = Some r' \<and> en_id r' = en_id r"
  shows "map_of (rev (map (\<lambda>(x, r). (nm x, en_id r)) ok)) n = map_of (live_ids t p) n"
proof (cases "map_of (rev (map (\<lambda>(x, r). (nm x, en_id r)) ok)) n")
  case None
  then have "n \<notin> nm ` set xs" using assms(3) by (force simp: map_of_eq_None_iff)
  then have "observed t p n = None" using assms(2) by (auto simp: mirrors_def map_of_eq_None_iff)
  then show ?thesis using None by (auto simp: live_ids_lookup [OF assms(1)] observed_def split: option.splits if_splits)
next
  case (Some i)
  from map_of_SomeD [OF Some] obtain x r where x: "(x, r) \<in> set ok" "nm x = n" "en_id r = i" by auto
  obtain r' where r': "row_at t p n = Some r'" "en_id r' = i" using ids [OF x(1)] x by auto
  have "x \<in> set xs" using x(1) assms(3) by force
  then have "n \<in> fst ` set (rev (map (\<lambda>x. (nm x, f x)) xs))" using x(2) by force
  then have "observed t p n \<noteq> None" using assms(2) by (simp add: mirrors_def map_of_eq_None_iff del: set_rev set_map)
  with r' Some show ?thesis by (auto simp: live_ids_lookup [OF assms(1)] observed_def split: if_splits)
qed

lemma pair_lookup: "map_of (rev (map (\<lambda>(j, x). ((j, nm x), g x)) ks)) (i, n) = map_of (rev (map (\<lambda>(j, x). ((j, nm x), g x)) (filter (\<lambda>y. fst y = i) ks))) (i, n)"
  by (induction ks) (auto simp: map_add_def split: option.splits)

definition rs_listed :: "uuid \<Rightarrow> string \<Rightarrow> ReplicaSetOwner list \<Rightarrow> rs_owners" where
  "rs_listed i n rss = rev (map (\<lambda>rs. ((i, rs_Name rs), rs)) (filter (\<lambda>rs. rs_Namespace rs = n) rss))"

lemma rs_owners_lookup:
  assumes "map_of m n = Some i" "\<And>n'. map_of m n' = Some i \<Longrightarrow> n' = n"
  shows "map_of (rs_owners_of m rss) (i, k) = map_of (rs_listed i n rss) (i, k)"
proof -
  have "map_of (rs_owners_of m rss) (i, k) = map_of (rev (map (\<lambda>(j, rs). ((j, rs_Name rs), rs)) (known rs_Namespace m rss))) (i, k)"
    using map_of_fold_update [of "\<lambda>y. (fst y, rs_Name (snd y))" snd "known rs_Namespace m rss" "[]" "(i, k)"]
    by (simp add: rs_owners_of_def case_prod_unfold option.case_eq_if)
  also have "\<dots> = map_of (rev (map (\<lambda>(j, rs). ((j, rs_Name rs), rs)) (map (Pair i) (filter (\<lambda>rs. rs_Namespace rs = n) rss)))) (i, k)"
    using pair_lookup [of rs_Name "\<lambda>rs. rs" "known rs_Namespace m rss" i k] by (simp only: known_at [OF assms])
  finally show ?thesis by (simp add: rs_listed_def comp_def)
qed

lemma resolve_cong:
  assumes "\<And>k n. lookup_workload i k n ws = lookup_workload i k n ws'" "\<And>n. map_of rso (i, n) = map_of rso' (i, n)"
  shows "buildPodCreate p i ws rso = buildPodCreate p i ws' rso'"
  using assms by (simp add: buildPodCreate_def resolveWorkloadID_def split: option.splits)

section \<open>The cluster\<close>

lemma ensure_answered:
  assumes "EnsureCluster env (cluster_create n) db = (Inr (cl, b), db')"
  shows "row_at (inv_clusters db') () n = Some cl \<and> live cl"
proof -
  have name: "cm_Name (cluster_create n) = n" by (simp add: cluster_create_def)
  show ?thesis
  proof (cases "find (has_key () n) (inv_clusters db)")
    case None
    with assms show ?thesis
      by (auto simp: EnsureCluster_def name Let_def row_at_def find_append has_key_def live_def split: if_splits)
  next
    case (Some prev)
    have touch: "find (has_key () n) (inv_clusters (touch_cluster (en_id prev) f db)) = Some (f prev)"
      if "\<And>r. has_key () n (f r) = has_key () n r" for f
      using Some find_map [of "has_key () n" "\<lambda>r. if has_id (en_id prev) r then f r else r" "inv_clusters db"] that
      by (simp add: touch_cluster_def has_id_def)
    show ?thesis using assms Some
      by (auto simp: EnsureCluster_def name Let_def row_at_def GetClusterByName_def touch has_key_def live_def split: if_splits)
  qed
qed

lemma UpdateCluster_clusters:
  "UpdateCluster env i u db = (Inr y, db') \<Longrightarrow> inv_clusters db' =
     map (\<lambda>r. if has_id i r then patch_entity (cluster_patch u) (curated_patch (cm_curated u)) (ie_now env) r else r) (inv_clusters db)"
  by (auto simp: UpdateCluster_def update_row_def Let_def split: option.splits sum.splits if_splits)

lemma refreshed:
  assumes "refresh_version a version cl w = (True, w')" "row_at (inv_clusters (cw_db w)) () n = Some cl" "live cl"
  shows "\<exists>cl'. row_at (inv_clusters (cw_db w')) () n = Some cl' \<and> en_id cl' = en_id cl \<and> live cl' \<and> cc_kubernetes_version (en_obs cl') = Some version"
proof (cases "cc_kubernetes_version (en_obs cl) = Some version")
  case False
  then obtain y where "call a (\<lambda>env. UpdateCluster env (en_id cl) (version_update version)) w = (Inr y, w')"
    using assms(1) by (auto simp: refresh_version_def split: sum.splits prod.splits)
  then obtain env where u: "UpdateCluster env (en_id cl) (version_update version) (cw_db w) = (Inr y, cw_db w')" by (auto dest!: call_answered)
  let ?f = "patch_entity (cluster_patch (version_update version)) (curated_patch (cm_curated (version_update version))) (ie_now env)"
  have "inv_clusters (cw_db w') = map (\<lambda>r. if has_id (en_id cl) r then ?f r else r) (inv_clusters (cw_db w))"
    by (rule UpdateCluster_clusters [OF u])
  moreover have "find (has_key () n) (map (\<lambda>r. if has_id (en_id cl) r then ?f r else r) (inv_clusters (cw_db w))) = Some (?f cl)"
    using assms(2) find_map [of "has_key () n" "\<lambda>r. if has_id (en_id cl) r then ?f r else r" "inv_clusters (cw_db w)"]
    by (simp add: row_at_def has_key_iff has_id_def)
  ultimately have "row_at (inv_clusters (cw_db w')) () n = Some (?f cl)" by (simp add: row_at_def)
  moreover have "live (?f cl)" using assms(3) by (simp add: live_def patch_entity_def)
  moreover have "cc_kubernetes_version (en_obs (?f cl)) = Some version" by (simp add: cluster_patch_def version_update_def set_opt_def)
  ultimately show ?thesis by auto
qed (use assms in \<open>auto simp: refresh_version_def\<close>)

lemma louder_refresh: "louder w (snd (refresh_version a version cl w))"
proof -
  obtain y w1 where c: "call a (\<lambda>env. UpdateCluster env (en_id cl) (version_update version)) w = (y, w1)" by fastforce
  show ?thesis using call_errors [OF c] by (cases y) (simp_all add: refresh_version_def c louder_def)
qed

section \<open>The stages of a poll\<close>

definition mirrors_listing :: "('p, 'n, 'o, 'c) entity list \<Rightarrow> 'p \<Rightarrow> ('x \<Rightarrow> 'n \<times> 'o) \<Rightarrow> 'x list option \<Rightarrow> bool" where
  "mirrors_listing t p f listing \<longleftrightarrow> (case listing of None \<Rightarrow> False | Some xs \<Rightarrow> mirrors t p (map f xs))"

text \<open>The listing of one namespace.\<close>

definition within :: "('x \<Rightarrow> string) \<Rightarrow> string \<Rightarrow> 'x list option \<Rightarrow> 'x list option" where
  "within nsOf n = map_option (filter (\<lambda>x. nsOf x = n))"

lemma nodes_exact:
  assumes "co_reconcile c" "quiet w (ingestNodes a c src cl w)"
  shows "mirrors_listing (inv_nodes (cw_db (ingestNodes a c src cl w))) cl (\<lambda>n. (ni_Name n, node_columns (node_create cl n))) (ListNodes src)"
proof (cases "ListNodes src")
  case (Some nodes)
  obtain ok w1 where up: "upsert_each a ''nodes'' (\<lambda>n env. UpsertNode env (node_create cl n)) nodes w = (ok, w1)" by fastforce
  have "ingestNodes a c src cl w = reconcile_call a ''nodes'' (\<lambda>env. DeleteNodesNotIn env cl (map (\<lambda>(n, _). ni_Name n) ok)) w1"
    by (simp add: ingestNodes_def Some up assms)
  from cn.stage_exact(1) [OF up this assms(2)] show ?thesis by (simp add: mirrors_listing_def Some)
qed (use assms(2) in \<open>simp add: ingestNodes_def\<close>)

lemma pvs_exact:
  assumes "co_reconcile c" "quiet w (snd (ingestPersistentVolumes a c src cl w))" "tbl_ok Q (inv_pvs (cw_db (snd (ingestPersistentVolumes a c src cl w))))"
  shows "mirrors_listing (inv_pvs (cw_db (snd (ingestPersistentVolumes a c src cl w)))) cl (\<lambda>v. (pvi_Name v, pv_columns (pv_create cl v))) (ListPersistentVolumes src) \<and>
    (\<exists>m. fst (ingestPersistentVolumes a c src cl w) = Some m \<and>
      (\<forall>n. map_of m n = map_of (live_ids (inv_pvs (cw_db (snd (ingestPersistentVolumes a c src cl w)))) cl) n))"
proof (cases "ListPersistentVolumes src")
  case (Some pvs)
  obtain ok w1 where up: "upsert_each a ''persistentvolumes'' (\<lambda>v env. UpsertPersistentVolume env (pv_create cl v)) pvs w = (ok, w1)" by fastforce
  have w2: "snd (ingestPersistentVolumes a c src cl w) =
      reconcile_call a ''persistentvolumes'' (\<lambda>env. DeletePersistentVolumesNotIn cl (map (\<lambda>(v, _). pvi_Name v) ok)) w1"
    by (simp add: ingestPersistentVolumes_def Some up assms)
  have m: "fst (ingestPersistentVolumes a c src cl w) = Some (ids_by pvi_Name ok)" by (simp add: ingestPersistentVolumes_def Some up)
  note E = cv.stage_exact [OF up w2 assms(2)]
  have "map_of (ids_by pvi_Name ok) n = map_of (live_ids (inv_pvs (cw_db (snd (ingestPersistentVolumes a c src cl w)))) cl) n" for n
    unfolding map_of_ids_by by (rule built_ids [OF assms(3) E(1,4,5)])
  with E(1) m show ?thesis by (simp add: mirrors_listing_def Some)
qed (use assms(2) in \<open>simp add: ingestPersistentVolumes_def\<close>)

lemma namespaces_exact:
  assumes "co_reconcile c" "quiet w (snd (ingestNamespaces a c src cl w))" "tbl_ok Q (inv_namespaces (cw_db (snd (ingestNamespaces a c src cl w))))"
  shows "mirrors_listing (inv_namespaces (cw_db (snd (ingestNamespaces a c src cl w)))) cl (\<lambda>v. (nsi_Name v, namespace_columns (namespace_create cl v))) (ListNamespaces src) \<and>
    (\<exists>m. fst (ingestNamespaces a c src cl w) = Some m \<and>
      (\<forall>n. map_of m n = map_of (live_ids (inv_namespaces (cw_db (snd (ingestNamespaces a c src cl w)))) cl) n))"
proof (cases "ListNamespaces src")
  case (Some nss)
  obtain ok w1 where up: "upsert_each a ''namespaces'' (\<lambda>v env. UpsertNamespace env (namespace_create cl v)) nss w = (ok, w1)" by fastforce
  have w2: "snd (ingestNamespaces a c src cl w) =
      reconcile_call a ''namespaces'' (\<lambda>env. DeleteNamespacesNotIn env cl (map (\<lambda>(v, _). nsi_Name v) ok)) w1"
    by (simp add: ingestNamespaces_def Some up assms)
  have m: "fst (ingestNamespaces a c src cl w) = Some (ids_by nsi_Name ok)" by (simp add: ingestNamespaces_def Some up)
  note E = cs.stage_exact [OF up w2 assms(2)]
  have "map_of (ids_by nsi_Name ok) n = map_of (live_ids (inv_namespaces (cw_db (snd (ingestNamespaces a c src cl w)))) cl) n" for n
    unfolding map_of_ids_by by (rule built_ids [OF assms(3) E(1,4,5)])
  with E(1) m show ?thesis by (simp add: mirrors_listing_def Some)
qed (use assms(2) in \<open>simp add: ingestNamespaces_def\<close>)

lemma services_exact:
  assumes "co_reconcile c" "quiet w (ingestServices a c src m w)" "\<And>k m. set (am_range a k m) = set m"
    and "map_of m n = Some i" "\<And>n'. map_of m n' = Some i \<Longrightarrow> n' = n"
  shows "mirrors_listing (inv_services (cw_db (ingestServices a c src m w))) i (\<lambda>s. (si_Name s, service_columns (buildServiceCreate s i)))
    (within si_Namespace n (ListServices src))"
proof (cases "ListServices src")
  case (Some xs)
  obtain ok w1 where up: "upsert_each a ''services'' (\<lambda>(i, s) env. UpsertService env (buildServiceCreate s i)) (known si_Namespace m xs) w = (ok, w1)" by fastforce
  have w2: "ingestServices a c src m w = reconcilePerNamespace a ''services'' m (keep_by_ns si_Name ok) (\<lambda>p keep env. DeleteServicesNotIn p keep) w1"
    by (simp add: ingestServices_def Some up assms(1))
  from nx.stage_exact(1) [OF up w2 assms(2-5)] show ?thesis by (simp add: mirrors_listing_def within_def Some)
qed (use assms(2) in \<open>simp add: ingestServices_def\<close>)

lemma ingresses_exact:
  assumes "co_reconcile c" "quiet w (ingestIngresses a c src m w)" "\<And>k m. set (am_range a k m) = set m"
    and "map_of m n = Some i" "\<And>n'. map_of m n' = Some i \<Longrightarrow> n' = n"
  shows "mirrors_listing (inv_ingresses (cw_db (ingestIngresses a c src m w))) i (\<lambda>s. (ii_Name s, ingress_columns (buildIngressCreate s i)))
    (within ii_Namespace n (ListIngresses src))"
proof (cases "ListIngresses src")
  case (Some xs)
  obtain ok w1 where up: "upsert_each a ''ingresses'' (\<lambda>(i, s) env. UpsertIngress env (buildIngressCreate s i)) (known ii_Namespace m xs) w = (ok, w1)" by fastforce
  have w2: "ingestIngresses a c src m w = reconcilePerNamespace a ''ingresses'' m (keep_by_ns ii_Name ok) (\<lambda>p keep env. DeleteIngressesNotIn p keep) w1"
    by (simp add: ingestIngresses_def Some up assms(1))
  from nii.stage_exact(1) [OF up w2 assms(2-5)] show ?thesis by (simp add: mirrors_listing_def within_def Some)
qed (use assms(2) in \<open>simp add: ingestIngresses_def\<close>)

lemma claims_exact:
  assumes "co_reconcile c" "quiet w (ingestPersistentVolumeClaims a c src m pvs w)" "\<And>k m. set (am_range a k m) = set m"
    and "map_of m n = Some i" "\<And>n'. map_of m n' = Some i \<Longrightarrow> n' = n"
  shows "mirrors_listing (inv_claims (cw_db (ingestPersistentVolumeClaims a c src m pvs w))) i (\<lambda>s. (pci_Name s, claim_columns (buildPVCCreate s i pvs)))
    (within pci_Namespace n (ListPersistentVolumeClaims src))"
proof (cases "ListPersistentVolumeClaims src")
  case (Some xs)
  obtain ok w1 where up: "upsert_each a ''persistentvolumeclaims'' (\<lambda>(i, s) env. UpsertPersistentVolumeClaim env (buildPVCCreate s i pvs))
      (known pci_Namespace m xs) w = (ok, w1)" by fastforce
  have w2: "ingestPersistentVolumeClaims a c src m pvs w =
      reconcilePerNamespace a ''persistentvolumeclaims'' m (keep_by_ns pci_Name ok) (\<lambda>p keep env. DeletePersistentVolumeClaimsNotIn p keep) w1"
    by (simp add: ingestPersistentVolumeClaims_def Some up assms(1))
  from nc.stage_exact(1) [OF up w2 assms(2-5)] show ?thesis by (simp add: mirrors_listing_def within_def Some)
qed (use assms(2) in \<open>simp add: ingestPersistentVolumeClaims_def\<close>)

lemma workloads_exact:
  assumes "co_reconcile c" "quiet w (snd (ingestWorkloads a c src m w))" "\<And>k m. set (am_range a k m) = set m"
    and "map_of m n = Some i" "\<And>n'. map_of m n' = Some i \<Longrightarrow> n' = n" "tbl_ok Q (inv_workloads (cw_db (snd (ingestWorkloads a c src m w))))"
  shows "mirrors_listing (inv_workloads (cw_db (snd (ingestWorkloads a c src m w)))) i
      (\<lambda>x. ((wi_Kind x, wi_Name x), workload_columns (workload_create i x))) (within wi_Namespace n (ListWorkloads src)) \<and>
    (\<exists>ws. fst (ingestWorkloads a c src m w) = Some ws \<and>
      (\<forall>k nm. lookup_workload i k nm ws = map_of (live_ids (inv_workloads (cw_db (snd (ingestWorkloads a c src m w)))) i) (k, nm)))"
proof (cases "ListWorkloads src")
  case (Some xs)
  obtain ok w1 where up: "upsert_each a ''workloads'' (\<lambda>(i, x) env. UpsertWorkload env (workload_create i x)) (known wi_Namespace m xs) w = (ok, w1)" by fastforce
  have w2: "snd (ingestWorkloads a c src m w) = reconcilePerNamespace a ''workloads'' m (keep_by_ns (\<lambda>x. (wi_Kind x, wi_Name x)) ok)
      (\<lambda>p keep env. DeleteWorkloadsNotIn env p (map fst keep) (map snd keep)) w1"
    by (simp add: ingestWorkloads_def reconcileWorkloads_def Some up assms(1))
  have ws: "fst (ingestWorkloads a c src m w) = Some (ids_by_ns (\<lambda>x. (wi_Kind x, wi_Name x)) ok)" by (simp add: ingestWorkloads_def Some up)
  note E = nw.stage_exact [OF up w2 assms(2,3)]
  have mir: "mirrors (inv_workloads (cw_db (snd (ingestWorkloads a c src m w)))) i
      (map (\<lambda>x. ((wi_Kind x, wi_Name x), workload_columns (workload_create i x))) (filter (\<lambda>x. wi_Namespace x = n) xs))"
    using E(1) [OF assms(4,5)] by simp
  let ?oki = "map (\<lambda>((_, x), r). (x, r)) (filter (\<lambda>((i', _), _). i' = i) ok)"
  have "map fst ?oki = map snd (filter (\<lambda>y. fst y = i) (map fst ok))" by (auto simp: filter_map comp_def case_prod_unfold)
  then have oki: "map fst ?oki = filter (\<lambda>x. wi_Namespace x = n) xs"
    by (simp only: E(3) known_at [OF assms(4,5)] map_map comp_def snd_conv) simp
  have "lookup_workload i k nm (ids_by_ns (\<lambda>x. (wi_Kind x, wi_Name x)) ok) =
      map_of (rev (map (\<lambda>(x, r). ((wi_Kind x, wi_Name x), en_id r)) ?oki)) (k, nm)" for k nm
    unfolding lookup_workload_ids by (simp add: comp_def case_prod_unfold)
  also have "map_of (rev (map (\<lambda>(x, r). ((wi_Kind x, wi_Name x), en_id r)) ?oki)) (k, nm) =
      map_of (live_ids (inv_workloads (cw_db (snd (ingestWorkloads a c src m w)))) i) (k, nm)" for k nm
    by (rule built_ids [OF assms(6) mir oki]) (use E(4) in auto)
  finally show ?thesis using mir ws by (simp add: mirrors_listing_def within_def Some)
qed (use assms(2) in \<open>simp add: ingestWorkloads_def\<close>)

lemma pods_exact:
  assumes "co_reconcile c" "quiet w (ingestPods a c src m (Some ws) w)" "\<And>k m. set (am_range a k m) = set m"
    and "map_of m n = Some i" "\<And>n'. map_of m n' = Some i \<Longrightarrow> n' = n"
  shows "\<exists>rss. ListReplicaSetOwners src = Some rss \<and>
    mirrors_listing (inv_pods (cw_db (ingestPods a c src m (Some ws) w))) i
      (\<lambda>p. (pi_Name p, pod_columns (buildPodCreate p i ws (rs_listed i n rss)))) (within pi_Namespace n (ListPods src))"
proof (cases "ListPods src")
  case (Some xs)
  obtain rso v where rs: "list_rs_owners src m (Some ws) w = (rso, v)" by fastforce
  obtain ok w1 where up: "upsert_each a ''pods'' (\<lambda>(i, p) env. UpsertPod env (buildPodCreate p i ws rso)) (known pi_Namespace m xs) v = (ok, w1)" by fastforce
  have w2: "ingestPods a c src m (Some ws) w = reconcilePerNamespace a ''pods'' m (keep_by_ns pi_Name ok) (\<lambda>p keep env. DeletePodsNotIn p keep) w1"
    by (simp add: ingestPods_def Some rs up assms(1))
  have "louder w v" using louder_list_rs_owners [of w src m "Some ws"] rs by simp
  moreover have "louder v (ingestPods a c src m (Some ws) w)"
    unfolding w2 by (rule louder_trans [OF louder_upsert_each [of v a "''pods''" "\<lambda>(i, p) env. UpsertPod env (buildPodCreate p i ws rso)"
      "known pi_Namespace m xs", unfolded up snd_conv] louder_reconcilePerNamespace])
  ultimately have q: "quiet w v" "quiet v (ingestPods a c src m (Some ws) w)" using quiet_split assms(2) by blast+
  then obtain rss where rss: "ListReplicaSetOwners src = Some rss" "rso = rs_owners_of m rss"
    using rs by (auto simp: list_rs_owners_def split: option.splits)
  have "buildPodCreate p i ws rso = buildPodCreate p i ws (rs_listed i n rss)" for p
    by (rule resolve_cong) (simp_all add: rss rs_owners_lookup [OF assms(4,5)])
  with np.stage_exact(1) [OF up w2 q(2) assms(3-5)] rss show ?thesis by (simp add: mirrors_listing_def within_def Some)
qed (use assms(2) in \<open>simp add: ingestPods_def\<close>)

end
