(* ===== verification/Collector_Theorems.thy ===== *)
theory Collector_Theorems
  imports Collector_Exact
begin

text \<open>
  The theorems on a poll of the Kubernetes collector: a poll that observes no error leaves the cluster a mirror of the listings; a listing that
  fails removes nothing; an entity whose upsert fails is deleted by the reconcile step that follows.
\<close>

section \<open>A poll without errors\<close>

text \<open>The tables under one namespace, and those directly under the cluster, show what was listed. The workload of a pod and the volume of a claim are
  those of the store itself: the live workload of the pod's namespace with the kind and name of its top-level owner, and the volume of the cluster with the name the claim gives.\<close>

definition namespace_mirror :: "KubeSource \<Rightarrow> string \<Rightarrow> uuid \<Rightarrow> uuid \<Rightarrow> inventory \<Rightarrow> bool" where
  "namespace_mirror src n i cl db \<longleftrightarrow>
     mirrors_listing (inv_workloads db) i (\<lambda>x. ((wi_Kind x, wi_Name x), workload_columns (workload_create i x))) (within wi_Namespace n (ListWorkloads src)) \<and>
     (\<exists>rss. ListReplicaSetOwners src = Some rss \<and>
        mirrors_listing (inv_pods db) i (\<lambda>p. (pi_Name p, pod_columns (buildPodCreate p i [(i, live_ids (inv_workloads db) i)] (rs_listed i n rss))))
          (within pi_Namespace n (ListPods src))) \<and>
     mirrors_listing (inv_services db) i (\<lambda>s. (si_Name s, service_columns (buildServiceCreate s i))) (within si_Namespace n (ListServices src)) \<and>
     mirrors_listing (inv_ingresses db) i (\<lambda>s. (ii_Name s, ingress_columns (buildIngressCreate s i))) (within ii_Namespace n (ListIngresses src)) \<and>
     mirrors_listing (inv_claims db) i (\<lambda>s. (pci_Name s, claim_columns (buildPVCCreate s i (Some (live_ids (inv_pvs db) cl)))))
       (within pci_Namespace n (ListPersistentVolumeClaims src))"

definition cluster_mirror :: "KubeSource \<Rightarrow> uuid \<Rightarrow> inventory \<Rightarrow> bool" where
  "cluster_mirror src cl db \<longleftrightarrow>
     mirrors_listing (inv_nodes db) cl (\<lambda>n. (ni_Name n, node_columns (node_create cl n))) (ListNodes src) \<and>
     mirrors_listing (inv_pvs db) cl (\<lambda>v. (pvi_Name v, pv_columns (pv_create cl v))) (ListPersistentVolumes src) \<and>
     mirrors_listing (inv_namespaces db) cl (\<lambda>v. (nsi_Name v, namespace_columns (namespace_create cl v))) (ListNamespaces src)"

lemma claim_cong: "(\<And>n. map_of pm n = map_of pm' n) \<Longrightarrow> buildPVCCreate s i (Some pm) = buildPVCCreate s i (Some pm')"
  by (simp add: buildPVCCreate_def)

lemma lookup_one [simp]: "lookup_workload i k n [(i, m)] = map_of m (k, n)"
  by (simp add: lookup_workload_def)

lemma louder_namespaced: "louder w (ingest_namespaced a c src m pvs w)"
  unfolding ingest_namespaced_def case_prod_unfold by (intro louder_trans [OF _ louder_ingest(8)] louder_trans [OF _ louder_ingest(7)]
    louder_trans [OF _ louder_ingest(6)] louder_trans [OF _ louder_ingest(5)] louder_ingest(4))

lemma namespaced_exact:
  assumes rec: "co_reconcile c" and q: "quiet w (ingest_namespaced a c src m (Some pm) w)" and range: "\<And>k m. set (am_range a k m) = set m"
    and n: "map_of m n = Some i" and inj: "\<And>n'. map_of m n' = Some i \<Longrightarrow> n' = n"
    and ok: "tbl_ok Q (inv_workloads (cw_db (ingest_namespaced a c src m (Some pm) w)))"
    and pm: "\<And>v. map_of pm v = map_of (live_ids (inv_pvs (cw_db w)) cl) v"
  shows "namespace_mirror src n i cl (cw_db (ingest_namespaced a c src m (Some pm) w))"
proof -
  define w1 where "w1 = snd (ingestWorkloads a c src m w)"
  define wso where "wso = fst (ingestWorkloads a c src m w)"
  define w2 where "w2 = ingestPods a c src m wso w1"
  define w3 where "w3 = ingestServices a c src m w2"
  define w4 where "w4 = ingestIngresses a c src m w3"
  define w5 where "w5 = ingestPersistentVolumeClaims a c src m (Some pm) w4"
  note ws = w1_def w2_def w3_def w4_def w5_def
  have all: "ingest_namespaced a c src m (Some pm) w = w5" by (simp add: ingest_namespaced_def case_prod_unfold ws wso_def)
  have L: "louder w w1" "louder w1 w2" "louder w2 w3" "louder w3 w4" "louder w4 w5" unfolding ws by (rule louder_ingest)+
  then have M: "louder w1 w5" "louder w2 w5" "louder w3 w5" by (blast intro: louder_trans)+
  have Q: "quiet w w1" "quiet w1 w2" "quiet w2 w3" "quiet w3 w4" "quiet w4 w5"
    using quiet_split [OF L(1) M(1)] quiet_split [OF L(2) M(2)] quiet_split [OF L(3) M(3)] quiet_split [OF L(4,5)] q all by auto
  have W: "inv_workloads (cw_db w5) = inv_workloads (cw_db w1)" and P: "inv_pods (cw_db w5) = inv_pods (cw_db w2)"
    and S: "inv_services (cw_db w5) = inv_services (cw_db w3)" and I: "inv_ingresses (cw_db w5) = inv_ingresses (cw_db w4)"
    and V: "inv_pvs (cw_db w5) = inv_pvs (cw_db w)"
    using claims_frame [of a c src m "Some pm" w4] ingresses_frame [of a c src m w3] services_frame [of a c src m w2]
      pods_frame [of a c src m wso w1] workloads_frame [of a c src m w] by (simp_all add: ws)
  note E = workloads_exact [OF rec Q(1) [unfolded w1_def] range n inj ok [unfolded all W w1_def], folded w1_def wso_def]
  then obtain wm where wm: "wso = Some wm" "\<And>k nm. lookup_workload i k nm wm = map_of (live_ids (inv_workloads (cw_db w5)) i) (k, nm)"
    by (auto simp: W)
  obtain rss where rss: "ListReplicaSetOwners src = Some rss" "mirrors_listing (inv_pods (cw_db w5)) i
      (\<lambda>p. (pi_Name p, pod_columns (buildPodCreate p i wm (rs_listed i n rss)))) (within pi_Namespace n (ListPods src))"
    using pods_exact [OF rec Q(2) [unfolded w2_def wm(1)] range n inj] by (auto simp: P w2_def wm(1))
  have "buildPodCreate p i wm (rs_listed i n rss) = buildPodCreate p i [(i, live_ids (inv_workloads (cw_db w5)) i)] (rs_listed i n rss)" for p
    by (rule resolve_cong) (simp_all add: wm(2))
  moreover have "buildPVCCreate s i (Some pm) = buildPVCCreate s i (Some (live_ids (inv_pvs (cw_db w5)) cl))" for s by (rule claim_cong) (simp add: pm V)
  moreover note services_exact [OF rec Q(3) [unfolded w3_def] range n inj] ingresses_exact [OF rec Q(4) [unfolded w4_def] range n inj]
    claims_exact [OF rec Q(5) [unfolded w5_def] range n inj]
  ultimately show ?thesis using E rss by (simp add: namespace_mirror_def all W S I flip: w3_def w4_def w5_def)
qed

lemma namespaced_frame:
  "inv_clusters (cw_db (ingest_namespaced a c src m pvs w)) = inv_clusters (cw_db w)" "inv_nodes (cw_db (ingest_namespaced a c src m pvs w)) = inv_nodes (cw_db w)"
  "inv_pvs (cw_db (ingest_namespaced a c src m pvs w)) = inv_pvs (cw_db w)" "inv_namespaces (cw_db (ingest_namespaced a c src m pvs w)) = inv_namespaces (cw_db w)"
  using claims_frame [of a c src m pvs] ingresses_frame [of a c src m] services_frame [of a c src m] pods_frame [of a c src m] workloads_frame [of a c src m w]
  by (simp_all add: ingest_namespaced_def case_prod_unfold)

lemma louder_cluster: "louder w (ingest_cluster a c src cl w)"
proof -
  let ?w3 = "ingestNamespaces a c src cl (snd (ingestPersistentVolumes a c src cl (ingestNodes a c src cl w)))"
  have "louder w (snd ?w3)" by (intro louder_trans [OF _ louder_ingest(3)] louder_trans [OF _ louder_ingest(2)] louder_ingest(1))
  then show ?thesis using louder_trans [OF _ louder_namespaced] by (cases "fst ?w3") (auto simp: ingest_cluster_def case_prod_unfold)
qed

lemma cluster_exact:
  assumes rec: "co_reconcile c" and q: "quiet w (ingest_cluster a c src cl w)" and range: "\<And>k m. set (am_range a k m) = set m"
    and ok: "inventory_ok (cw_db (ingest_cluster a c src cl w))"
  shows "cluster_mirror src cl (cw_db (ingest_cluster a c src cl w)) \<and>
    (\<forall>n i. map_of (live_ids (inv_namespaces (cw_db (ingest_cluster a c src cl w))) cl) n = Some i \<longrightarrow>
       namespace_mirror src n i cl (cw_db (ingest_cluster a c src cl w))) \<and>
    inv_clusters (cw_db (ingest_cluster a c src cl w)) = inv_clusters (cw_db w)"
proof -
  define w1 where "w1 = ingestNodes a c src cl w"
  define pvo where "pvo = fst (ingestPersistentVolumes a c src cl w1)"
  define w2 where "w2 = snd (ingestPersistentVolumes a c src cl w1)"
  define nso where "nso = fst (ingestNamespaces a c src cl w2)"
  define w3 where "w3 = snd (ingestNamespaces a c src cl w2)"
  define w4 where "w4 = (case nso of None \<Rightarrow> w3 | Some m \<Rightarrow> ingest_namespaced a c src m pvo w3)"
  have all: "ingest_cluster a c src cl w = w4"
    by (simp add: ingest_cluster_def case_prod_unfold w4_def w3_def nso_def w2_def pvo_def w1_def split: option.splits)
  have L: "louder w w1" "louder w1 w2" "louder w2 w3" unfolding w1_def w2_def w3_def by (rule louder_ingest)+
  have L4: "louder w3 w4" by (simp add: w4_def louder_namespaced split: option.splits)
  have M: "louder w1 w4" "louder w2 w4" using L L4 by (blast intro: louder_trans)+
  have Q: "quiet w w1" "quiet w1 w2" "quiet w2 w3" "quiet w3 w4"
    using quiet_split [OF L(1) M(1)] quiet_split [OF L(2) M(2)] quiet_split [OF L(3) L4] q all by auto
  have F4: "inv_clusters (cw_db w4) = inv_clusters (cw_db w3)" "inv_nodes (cw_db w4) = inv_nodes (cw_db w3)" "inv_pvs (cw_db w4) = inv_pvs (cw_db w3)"
    "inv_namespaces (cw_db w4) = inv_namespaces (cw_db w3)" by (simp_all add: w4_def namespaced_frame split: option.splits)
  have F3: "inv_clusters (cw_db w3) = inv_clusters (cw_db w2)" "inv_nodes (cw_db w3) = inv_nodes (cw_db w2)" "inv_pvs (cw_db w3) = inv_pvs (cw_db w2)"
    using namespaces_frame [of a c src cl w2] by (simp_all add: w3_def)
  have F2: "inv_clusters (cw_db w2) = inv_clusters (cw_db w1)" "inv_nodes (cw_db w2) = inv_nodes (cw_db w1)"
    using pvs_frame [of a c src cl w1] by (simp_all add: w2_def)
  have F1: "inv_clusters (cw_db w1) = inv_clusters (cw_db w)" by (simp add: w1_def nodes_frame)
  note D = inventory_okD [OF ok [unfolded all]]
  note N = nodes_exact [OF rec Q(1) [unfolded w1_def], folded w1_def]
  note V = pvs_exact [OF rec Q(2) [unfolded w2_def], folded w2_def pvo_def, OF D(4) [unfolded F4 F3]]
  note S = namespaces_exact [OF rec Q(3) [unfolded w3_def], folded w3_def nso_def, OF D(2) [unfolded F4]]
  obtain pm where pm: "pvo = Some pm" "\<And>n. map_of pm n = map_of (live_ids (inv_pvs (cw_db w3)) cl) n" using V F3(3) by auto
  obtain m where m: "nso = Some m" "\<And>n. map_of m n = map_of (live_ids (inv_namespaces (cw_db w4)) cl) n" using S F4(4) by auto
  have w4: "w4 = ingest_namespaced a c src m (Some pm) w3" by (simp add: w4_def m pm)
  have "namespace_mirror src n i cl (cw_db w4)" if "map_of (live_ids (inv_namespaces (cw_db w4)) cl) n = Some i" for n i
  proof -
    from that have n: "map_of m n = Some i" by (simp add: m(2))
    have "n' = n" if "map_of m n' = Some i" for n' using live_ids_inj [OF D(2)] that n by (auto simp: m(2))
    then show ?thesis unfolding w4 using Q(4) D(5) by (intro namespaced_exact rec range n pm(2)) (auto simp: w4)
  qed
  with N V S show ?thesis by (simp add: all cluster_mirror_def F4 F3 F2 F1)
qed


section \<open>A concrete poll\<close>

text \<open>The database knows a node that is gone; the listing has a deployment with one pod, owned through a replica set.\<close>

definition sample_fates :: "nat \<Rightarrow> fate" where
  "sample_fates k = Answered (sample_env (k + 10))"

definition sample_ambient :: ambient where
  "sample_ambient = \<lparr>am_fate = sample_fates, am_range = (\<lambda>_ m. m)\<rparr>"

definition sample_node :: NodeInfo where
  "sample_node = \<lparr>ni_Name = ''n1'', ni_Role = ''worker'', ni_KubeletVersion = [], ni_KubeProxyVersion = [], ni_ContainerRuntimeVersion = [], ni_OsImage = [],
     ni_OperatingSystem = [], ni_KernelVersion = [], ni_Architecture = [], ni_InternalIP = [], ni_ExternalIP = [], ni_PodCIDR = [], ni_ProviderID = [], ni_InstanceType = [],
     ni_Zone = [], ni_CapacityCPU = [], ni_CapacityMemory = [], ni_CapacityPods = [], ni_CapacityEphemeralStorage = [], ni_AllocatableCPU = [],
     ni_AllocatableMemory = [], ni_AllocatablePods = [], ni_AllocatableEphemeralStorage = [], ni_Conditions = [], ni_Taints = [], ni_Unschedulable = False,
     ni_Ready = True, ni_Labels = []\<rparr>"

definition sample_source :: KubeSource where
  "sample_source =
     \<lparr>ServerVersion = Some ''1.31'', ListNodes = Some [],
      ListPersistentVolumes = Some [],
      ListNamespaces = Some [\<lparr>nsi_Name = ''web'', nsi_Phase = ''Active'', nsi_Labels = []\<rparr>],
      ListWorkloads = Some [\<lparr>wi_Name = ''api'', wi_Namespace = ''web'', wi_Kind = ''Deployment'', wi_Replicas = Some 2, wi_ReadyReplicas = Some 1,
        wi_Containers = [], wi_Labels = []\<rparr>],
      ListPods = Some [\<lparr>pi_Name = ''api-2'', pi_Namespace = ''web'', pi_Phase = ''Running'', pi_NodeName = ''n1'', pi_PodIP = [], pi_Containers = [],
        pi_Labels = [], pi_OwnerKind = ''ReplicaSet'', pi_OwnerName = ''api-7f''\<rparr>],
      ListReplicaSetOwners = Some [\<lparr>rs_Namespace = ''web'', rs_Name = ''api-7f'', rs_OwnerKind = ''Deployment'', rs_OwnerName = ''api''\<rparr>],
      ListServices = Some [], ListIngresses = Some [],
      ListPersistentVolumeClaims = Some []\<rparr>"

definition sample_collector :: Collector where
  "sample_collector = \<lparr>co_clusterName = ''prod'', co_reconcile = True\<rparr>"

definition stale_db :: inventory where
  "stale_db = snd (UpsertNode (sample_env 2) (node_create 1 sample_node)
     (snd (EnsureCluster (sample_env 1) (cluster_create ''prod'') (empty_inventory\<lparr>inv_time_travel := Some False\<rparr>))))"

lemma stale_db_reach: "inv_reach stale_db"
  unfolding stale_db_def by (intro inv_reach_step [OF _ s_UpsertNode] inv_reach_step [OF _ s_EnsureCluster] inv_reach_step [OF _ s_setting] inv_reach_empty)

definition sample_world :: world where
  "sample_world = \<lparr>cw_calls = 0, cw_db = stale_db, cw_errors = []\<rparr>"

definition sample_result :: world where
  "sample_result = poll sample_ambient sample_collector sample_source sample_world"

definition summary :: "world \<Rightarrow> (string \<times> string) list \<times> (string \<times> bool) list \<times> (uuid \<times> string \<times> uuid option) list \<times> uuid list" where
  "summary w = (cw_errors w, map (\<lambda>r. (en_name r, live r)) (inv_nodes (cw_db w)),
     map (\<lambda>r. (en_parent r, en_name r, poc_workload_id (en_obs r))) (inv_pods (cw_db w)), map en_id (inv_workloads (cw_db w)))"

lemma sample_result_summary: "summary sample_result = ([], [(''n1'', False)], [(14, ''api-2'', Some 16)], [16])"
  by code_simp


section \<open>Polls with errors\<close>

lemma cluster_ops_frame:
  "(inv_namespaces (snd (EnsureCluster env i db)), inv_nodes (snd (EnsureCluster env i db)), inv_pvs (snd (EnsureCluster env i db)),
    inv_workloads (snd (EnsureCluster env i db)), inv_pods (snd (EnsureCluster env i db)), inv_services (snd (EnsureCluster env i db)), inv_ingresses (snd (EnsureCluster env i db))) =
   (inv_namespaces db, inv_nodes db, inv_pvs db, inv_workloads db, inv_pods db, inv_services db, inv_ingresses db)"
  "(inv_namespaces (snd (UpdateCluster env j u db)), inv_nodes (snd (UpdateCluster env j u db)), inv_pvs (snd (UpdateCluster env j u db)),
    inv_workloads (snd (UpdateCluster env j u db)), inv_pods (snd (UpdateCluster env j u db)), inv_services (snd (UpdateCluster env j u db)), inv_ingresses (snd (UpdateCluster env j u db))) =
   (inv_namespaces db, inv_nodes db, inv_pvs db, inv_workloads db, inv_pods db, inv_services db, inv_ingresses db)"
  by (simp_all add: EnsureCluster_def UpdateCluster_def touch_cluster_def Let_def split: option.splits sum.splits)

lemma nodes_unlisted: "ListNodes src = None \<Longrightarrow> inv_nodes (cw_db (ingest_cluster a c src i v)) = inv_nodes (cw_db v)"
  using pvs_frame [of a c src i "ingestNodes a c src i v"] namespaces_frame [of a c src i "snd (ingestPersistentVolumes a c src i (ingestNodes a c src i v))"]
  by (auto simp: ingest_cluster_def case_prod_unfold namespaced_frame ingestNodes_def split: option.splits)

lemma pvs_unlisted:
  assumes "ListPersistentVolumes src = None"
  shows "inv_pvs (cw_db (ingest_cluster a c src i v)) = inv_pvs (cw_db v)"
proof -
  have "inv_pvs (cw_db (ingestNodes a c src i v)) = inv_pvs (cw_db v)"
    by (rule ingestNodes_keeps [where P = "\<lambda>d. inv_pvs d = inv_pvs (cw_db v)"]) (simp_all add: write_ops split: sum.splits)
  moreover have "cw_db (snd (ingestPersistentVolumes a c src i w)) = cw_db w" for w by (simp add: ingestPersistentVolumes_def assms)
  ultimately show ?thesis
    using namespaces_frame [of a c src i "snd (ingestPersistentVolumes a c src i (ingestNodes a c src i v))"]
    by (auto simp: ingest_cluster_def case_prod_unfold namespaced_frame split: option.splits)
qed

lemma namespaces_unlisted:
  assumes "ListNamespaces src = None"
  shows "(inv_namespaces (cw_db (ingest_cluster a c src i v)), inv_workloads (cw_db (ingest_cluster a c src i v)), inv_pods (cw_db (ingest_cluster a c src i v)),
      inv_services (cw_db (ingest_cluster a c src i v)), inv_ingresses (cw_db (ingest_cluster a c src i v))) =
    (inv_namespaces (cw_db v), inv_workloads (cw_db v), inv_pods (cw_db v), inv_services (cw_db v), inv_ingresses (cw_db v))"
proof -
  let ?T = "\<lambda>d. (inv_namespaces d, inv_workloads d, inv_pods d, inv_services d, inv_ingresses d)"
  have "?T (cw_db (ingestNodes a c src i v)) = ?T (cw_db v)"
    by (rule ingestNodes_keeps [where P = "\<lambda>d. ?T d = ?T (cw_db v)"]) (simp_all add: write_ops split: sum.splits)
  then have "?T (cw_db (snd (ingestPersistentVolumes a c src i (ingestNodes a c src i v)))) = ?T (cw_db v)"
    by (intro ingestPersistentVolumes_keeps [where P = "\<lambda>d. ?T d = ?T (cw_db v)"]) (simp_all add: write_ops split: sum.splits)
  then show ?thesis by (simp add: ingest_cluster_def case_prod_unfold ingestNamespaces_def assms)
qed

text \<open>A listing that fails removes nothing. Whatever else happens in the poll, a failed node listing leaves the table of nodes as it was, a failed volume listing the volumes, and a
  failed namespace listing the namespaces and everything in them; if the API server does not report its version the store is not touched at all.\<close>

theorem failed_listing_keeps:
  "(ServerVersion src = None \<longrightarrow> cw_db (poll a c src w) = cw_db w) \<and>
   (ListNodes src = None \<longrightarrow> inv_nodes (cw_db (poll a c src w)) = inv_nodes (cw_db w)) \<and>
   (ListPersistentVolumes src = None \<longrightarrow> inv_pvs (cw_db (poll a c src w)) = inv_pvs (cw_db w)) \<and>
   (ListNamespaces src = None \<longrightarrow>
      inv_namespaces (cw_db (poll a c src w)) = inv_namespaces (cw_db w) \<and> inv_workloads (cw_db (poll a c src w)) = inv_workloads (cw_db w) \<and>
      inv_pods (cw_db (poll a c src w)) = inv_pods (cw_db w) \<and> inv_services (cw_db (poll a c src w)) = inv_services (cw_db w) \<and>
      inv_ingresses (cw_db (poll a c src w)) = inv_ingresses (cw_db w))"
proof (intro conjI impI)
  note F = cluster_ops_frame [simplified prod.inject]
  show "ServerVersion src = None \<Longrightarrow> cw_db (poll a c src w) = cw_db w" by (simp add: poll_def)
  show "ListNodes src = None \<Longrightarrow> inv_nodes (cw_db (poll a c src w)) = inv_nodes (cw_db w)"
    by (rule poll_keeps_parts [where P = "\<lambda>d. inv_nodes d = inv_nodes (cw_db w)"]) (simp_all add: F nodes_unlisted)
  show "ListPersistentVolumes src = None \<Longrightarrow> inv_pvs (cw_db (poll a c src w)) = inv_pvs (cw_db w)"
    by (rule poll_keeps_parts [where P = "\<lambda>d. inv_pvs d = inv_pvs (cw_db w)"]) (simp_all add: F pvs_unlisted)
  assume ns: "ListNamespaces src = None"
  let ?T = "\<lambda>d. (inv_namespaces d, inv_workloads d, inv_pods d, inv_services d, inv_ingresses d)"
  have "?T (cw_db (poll a c src w)) = ?T (cw_db w)"
    by (rule poll_keeps_parts [where P = "\<lambda>d. ?T d = ?T (cw_db w)"]) (use namespaces_unlisted [OF ns] in \<open>simp_all add: F\<close>)
  then show "inv_namespaces (cw_db (poll a c src w)) = inv_namespaces (cw_db w)" "inv_workloads (cw_db (poll a c src w)) = inv_workloads (cw_db w)"
    "inv_pods (cw_db (poll a c src w)) = inv_pods (cw_db w)" "inv_services (cw_db (poll a c src w)) = inv_services (cw_db w)"
    "inv_ingresses (cw_db (poll a c src w)) = inv_ingresses (cw_db w)" by auto
qed

text \<open>One upsert is one call; the entity of a refused call is not among those written.\<close>

lemma call_calls: "cw_calls (snd (call a op w)) = Suc (cw_calls w)"
  by (simp add: call_def Let_def split: fate.splits)

lemma upsert_each_calls: "cw_calls (snd (upsert_each a resource op xs w)) = cw_calls w + length xs"
proof (induction xs arbitrary: w)
  case (Cons x xs)
  obtain r w1 where c: "call a (op x) w = (r, w1)" by fastforce
  then have "cw_calls w1 = Suc (cw_calls w)" using call_calls [of a "op x" w] by simp
  then show ?case using Cons.IH [of w1] Cons.IH [of "ObserveError resource ''upsert'' w1"] c
    by (cases r) (simp_all add: case_prod_unfold ObserveError_def)
qed simp

lemma upsert_each_append:
  "upsert_each a resource op (xs @ ys) w =
     (let (ok1, w1) = upsert_each a resource op xs w; (ok2, w2) = upsert_each a resource op ys w1 in (ok1 @ ok2, w2))"
proof (induction xs arbitrary: w)
  case (Cons x xs)
  obtain r w1 where c: "call a (op x) w = (r, w1)" by fastforce
  show ?case using Cons.IH c by (cases r) (auto simp: Let_def case_prod_unfold)
qed simp

lemma upsert_each_written: "fst ` set (fst (upsert_each a resource op xs w)) \<subseteq> set xs"
proof (induction xs arbitrary: w)
  case (Cons x xs)
  obtain r w1 where c: "call a (op x) w = (r, w1)" by fastforce
  show ?case using Cons.IH [of w1] Cons.IH [of "ObserveError resource ''upsert'' w1"] c by (cases r) (auto simp: case_prod_unfold)
qed simp

text \<open>C36: an entity whose upsert fails is deleted. If the store refuses the upsert of one listed node and then answers the reconcile call of the same tick, that
  node is no longer live afterwards, although the cluster still lists it: only the names of successful upserts are kept.\<close>

theorem failed_upsert_reaped:
  assumes "co_reconcile c" "ListNodes src = Some (xs @ nd # ys)" "ni_Name nd \<notin> ni_Name ` set (xs @ ys)"
    and "am_fate a (cw_calls w + length xs) = Refused" "am_fate a (cw_calls w + length (xs @ nd # ys)) = Answered env"
  shows "observed (inv_nodes (cw_db (ingestNodes a c src cl w))) cl (ni_Name nd) = None"
proof -
  let ?up = "upsert_each a ''nodes'' (\<lambda>n env. UpsertNode env (node_create cl n))"
  obtain ok1 w1 where 1: "?up xs w = (ok1, w1)" by fastforce
  have c1: "cw_calls w1 = cw_calls w + length xs" using upsert_each_calls [of a "''nodes''" _ xs w] 1 by (metis snd_conv)
  let ?w2 = "ObserveError ''nodes'' ''upsert'' (w1\<lparr>cw_calls := Suc (cw_calls w1)\<rparr>)"
  obtain ok3 w3 where 3: "?up ys ?w2 = (ok3, w3)" by fastforce
  have all: "?up (xs @ nd # ys) w = (ok1 @ ok3, w3)" using assms(4) by (simp add: upsert_each_append 1 call_def c1 3 [unfolded c1])
  have c3: "cw_calls w3 = cw_calls w + length (xs @ nd # ys)" using upsert_each_calls [of a "''nodes''" _ "xs @ nd # ys" w] all by (metis snd_conv)
  have "fst ` set ok1 \<subseteq> set xs" "fst ` set ok3 \<subseteq> set ys"
    using upsert_each_written [of a "''nodes''" _ xs w] upsert_each_written [of a "''nodes''" _ ys ?w2] 1 3 by (metis fst_conv)+
  then have "ni_Name nd \<notin> ni_Name ` fst ` set (ok1 @ ok3)" using assms(3) by auto
  then have "ni_Name nd \<notin> set (map (\<lambda>(n, _). ni_Name n) (ok1 @ ok3))" by (simp add: image_image image_Un case_prod_unfold)
  moreover have "cw_db (ingestNodes a c src cl w) = snd (DeleteNodesNotIn env cl (map (\<lambda>(n, _). ni_Name n) (ok1 @ ok3)) (cw_db w3))"
    using assms(1,2,5) c3 by (simp add: ingestNodes_def all reconcile_call_def call_def Let_def DeleteNodesNotIn_def)
  ultimately show ?thesis using mn.prune_drops by simp
qed

definition failing_ambient :: ambient where
  "failing_ambient = \<lparr>am_fate = (\<lambda>k. if k = 0 then Refused else Answered (sample_env (k + 10))), am_range = (\<lambda>_ m. m)\<rparr>"

lemma stale_db_nodes: "map (\<lambda>r. (en_name r, live r)) (inv_nodes stale_db) = [(''n1'', True)]"
  by code_simp

theorem failed_upsert_reaped_witness:
  "map (\<lambda>r. (en_name r, live r)) (inv_nodes stale_db) = [(''n1'', True)] \<and>
   observed (inv_nodes (cw_db (ingestNodes failing_ambient sample_collector (sample_source\<lparr>ListNodes := Some [sample_node]\<rparr>) 1 sample_world))) 1 ''n1'' = None"
  using failed_upsert_reaped [of sample_collector "sample_source\<lparr>ListNodes := Some [sample_node]\<rparr>" "[]" sample_node "[]" failing_ambient sample_world "sample_env 11" 1]
    stale_db_nodes
  by (simp add: sample_collector_def failing_ambient_def sample_world_def sample_node_def)

theorem failed_listing_keeps_witness:
  "inv_nodes (cw_db (poll failing_ambient sample_collector (sample_source\<lparr>ListNodes := None\<rparr>) sample_world)) = inv_nodes stale_db \<and>
   map (\<lambda>r. (en_name r, live r)) (inv_nodes stale_db) = [(''n1'', True)]"
  using failed_listing_keeps [of "sample_source\<lparr>ListNodes := None\<rparr>" failing_ambient sample_collector sample_world] stale_db_nodes
  by (simp add: sample_world_def)

end
