(* ===== verification/Flow_Matrix.thy ===== *)
theory Flow_Matrix
  imports Prelude
begin

text \<open>
  The flow matrix comparator, \<^verbatim>\<open>internal/flowmatrix\<close>: the discovered perimeter and internal rules of a cluster against
  the flows its operators declared. The comparator is pure. An address is a word of its family's width and a
  \<^verbatim>\<open>netip.Prefix\<close> an address with a length; \<open>parsePrefix\<close> is \<^verbatim>\<open>netip.ParsePrefix\<close>, the reading of the text. Results: a
  CIDR is attributed to the endpoint group with the smallest range around it, and each rule and each declared flow
  is reported once, with the state that its set of admitted traffic has against the others.
\<close>

unbundle bit_operations_syntax

section \<open>Data\<close>

datatype FlowState = StateConforme | StateNonDeclare | StateManquant | StateLargeOuvert

record PortRange =
  prt_Protocol :: string
  prt_From :: "int option"
  prt_To :: "int option"

record Endpoint =
  ep_Kind :: string
  ep_Name :: string
  ep_CIDR :: string

record NamedCIDRGroup =
  cg_Name :: string
  cg_CIDRs :: "string list"

record FlowSource =
  so_Kind :: string
  so_ID :: string
  so_Summary :: string

record Flow =
  fl_Layer :: string
  fl_Direction :: string
  fl_Src :: Endpoint
  fl_Dst :: Endpoint
  fl_Ports :: "PortRange list"
  fl_State :: FlowState
  fl_ReferenceID :: "string option"
  fl_Sources :: "FlowSource list"

record FlowWarning =
  fw_Kind :: string
  fw_ReferenceID :: string
  fw_Ref :: string

record Synthesis =
  sy_ClusterID :: string
  sy_Perimeter :: "Flow list"
  sy_Internal :: "Flow list"
  sy_Warnings :: "FlowWarning list"

record SGRule =
  sr_RuleID :: string
  sr_Direction :: string
  sr_Port :: PortRange
  sr_PeerCIDR :: string
  sr_WideOpen :: bool
  sr_Summary :: string

record NetPolRule =
  nr_RuleID :: string
  nr_Direction :: string
  nr_Port :: PortRange
  nr_SrcWorkload :: string
  nr_DstWorkload :: string
  nr_PeerCIDR :: string
  nr_WideOpenSide :: string
  nr_Summary :: string

record Reference =
  rf_ID :: string
  rf_Layer :: string
  rf_Direction :: string
  rf_SrcKind :: string
  rf_SrcRef :: string
  rf_DstKind :: string
  rf_DstRef :: string
  rf_Port :: PortRange

record Inputs =
  fi_ClusterID :: string
  fi_PerimeterRules :: "SGRule list"
  fi_InternalRules :: "NetPolRule list"
  fi_References :: "Reference list"
  fi_Groups :: "NamedCIDRGroup list"

section \<open>Classification\<close>

definition refCovers :: "PortRange \<Rightarrow> PortRange \<Rightarrow> bool" where
  "refCovers ref actual =
     (if prt_Protocol ref \<noteq> ''any'' \<and> prt_Protocol ref \<noteq> prt_Protocol actual then False
      else case (prt_From ref, prt_To ref) of
             (Some rf, Some rt) \<Rightarrow>
               (case (prt_From actual, prt_To actual) of
                  (Some af, Some at) \<Rightarrow> rf \<le> af \<and> at \<le> rt
                | _ \<Rightarrow> False)
           | _ \<Rightarrow> True)"

definition ClassifyActual :: "PortRange \<Rightarrow> PortRange list \<Rightarrow> bool \<Rightarrow> FlowState" where
  "ClassifyActual actual references wideOpen =
     (if wideOpen then StateLargeOuvert
      else if list_ex (\<lambda>r. refCovers r actual) references then StateConforme
      else StateNonDeclare)"

definition ClassifyReference :: "PortRange \<Rightarrow> PortRange list \<Rightarrow> FlowState" where
  "ClassifyReference ref actuals =
     (if list_ex (refCovers ref) actuals then StateConforme else StateManquant)"

section \<open>Endpoint groups\<close>

datatype ip_addr = V4 "32 word" | V6 "128 word"

record ip_prefix =
  px_Addr :: ip_addr
  px_Bits :: nat

fun Is4 :: "ip_addr \<Rightarrow> bool" where
  "Is4 (V4 a) = True"
| "Is4 (V6 a) = False"

fun BitLen :: "ip_addr \<Rightarrow> nat" where
  "BitLen (V4 a) = 32"
| "BitLen (V6 a) = 128"

definition mask4 :: "nat \<Rightarrow> 32 word" where "mask4 n = push_bit (32 - n) (- 1)"
definition mask6 :: "nat \<Rightarrow> 128 word" where "mask6 n = push_bit (128 - n) (- 1)"

text \<open>\<^verbatim>\<open>Prefix.Masked\<close> and \<^verbatim>\<open>Prefix.Contains\<close>.\<close>

definition Masked :: "ip_prefix \<Rightarrow> ip_prefix" where
  "Masked p =
     (case px_Addr p of
        V4 a \<Rightarrow> p\<lparr>px_Addr := V4 (a AND mask4 (px_Bits p))\<rparr>
      | V6 a \<Rightarrow> p\<lparr>px_Addr := V6 (a AND mask6 (px_Bits p))\<rparr>)"

definition Contains :: "ip_prefix \<Rightarrow> ip_addr \<Rightarrow> bool" where
  "Contains p ip =
     (case (px_Addr p, ip) of
        (V4 a, V4 b) \<Rightarrow> drop_bit (32 - px_Bits p) (b XOR a) = 0
      | (V6 a, V6 b) \<Rightarrow> (b XOR a) AND mask6 (px_Bits p) = 0
      | _ \<Rightarrow> False)"

definition Uncategorized :: string where
  "Uncategorized =
     ''Externe (non cat'' @ [CHR 0xC3, CHR 0xA9] @ ''goris'' @ [CHR 0xC3, CHR 0xA9] @ '')''"

type_synonym matcherEntry = "ip_prefix \<times> string"

definition NewEndpointGroupMatcher :: "(string \<Rightarrow> ip_prefix option) \<Rightarrow> NamedCIDRGroup list \<Rightarrow> matcherEntry list" where
  "NewEndpointGroupMatcher parsePrefix groups =
     concat (map (\<lambda>g. concat (map (\<lambda>c. case parsePrefix c of
                                           None \<Rightarrow> []
                                         | Some pfx \<Rightarrow> [(Masked pfx, cg_Name g)]) (cg_CIDRs g))) groups)"

text \<open>The loop of \<^verbatim>\<open>Match\<close>, with \<^verbatim>\<open>best\<close> and \<^verbatim>\<open>bestBits\<close>.\<close>

fun match_loop :: "ip_prefix \<Rightarrow> matcherEntry list \<Rightarrow> string \<Rightarrow> int \<Rightarrow> string" where
  "match_loop target [] best bestBits = best"
| "match_loop target ((pfx, grp) # es) best bestBits =
     (if Is4 (px_Addr pfx) \<noteq> Is4 (px_Addr target) then match_loop target es best bestBits
      else if px_Bits pfx \<le> px_Bits target \<and> Contains pfx (px_Addr target) then
        if int (px_Bits pfx) > bestBits then match_loop target es grp (int (px_Bits pfx))
        else match_loop target es best bestBits
      else match_loop target es best bestBits)"

definition Match :: "(string \<Rightarrow> ip_prefix option) \<Rightarrow> matcherEntry list \<Rightarrow> string \<Rightarrow> string" where
  "Match parsePrefix m cidr =
     (case parsePrefix cidr of
        None \<Rightarrow> Uncategorized
      | Some target \<Rightarrow> match_loop (Masked target) m Uncategorized (- 1))"

section \<open>Synthesis\<close>

text \<open>A Go map from keys to slices of port ranges: reading an absent key gives the empty slice.\<close>

definition ports_at :: "(string, PortRange list) gomap \<Rightarrow> string \<Rightarrow> PortRange list" where
  "ports_at m key = (case map_of m key of None \<Rightarrow> [] | Some ps \<Rightarrow> ps)"

definition add_port :: "string \<Rightarrow> PortRange \<Rightarrow> (string, PortRange list) gomap \<Rightarrow> (string, PortRange list) gomap" where
  "add_port key p m = AList.update key (ports_at m key @ [p]) m"

definition perim_key :: "string \<Rightarrow> string \<Rightarrow> string" where
  "perim_key dir zone = dir @ ''|'' @ zone"

definition int_key :: "string \<Rightarrow> string \<Rightarrow> string \<Rightarrow> string" where
  "int_key dir src dst = dir @ ''|'' @ src @ ''|'' @ dst"

text \<open>The zone of a perimeter reference: its endpoint group side.\<close>

definition ref_zone :: "Reference \<Rightarrow> string" where
  "ref_zone r = (if rf_DstKind r = ''endpoint_group'' then rf_DstRef r else rf_SrcRef r)"

definition perimRefPorts :: "Reference list \<Rightarrow> (string, PortRange list) gomap" where
  "perimRefPorts refs =
     fold (\<lambda>r m. if rf_Layer r \<noteq> ''perimeter'' then m
                  else add_port (perim_key (rf_Direction r) (ref_zone r)) (rf_Port r) m) refs []"

definition intRefPorts :: "Reference list \<Rightarrow> (string, PortRange list) gomap" where
  "intRefPorts refs =
     fold (\<lambda>r m. if rf_Layer r \<noteq> ''internal'' then m
                  else add_port (int_key (rf_Direction r) (rf_SrcRef r) (rf_DstRef r)) (rf_Port r) m) refs []"

definition perimActuals :: "Inputs \<Rightarrow> (string \<Rightarrow> string) \<Rightarrow> (string, PortRange list) gomap" where
  "perimActuals inp zoneOf =
     fold (\<lambda>sg. add_port (perim_key (sr_Direction sg) (zoneOf (sr_PeerCIDR sg))) (sr_Port sg)) (fi_PerimeterRules inp) []"

definition intActuals :: "Inputs \<Rightarrow> (string, PortRange list) gomap" where
  "intActuals inp =
     fold (\<lambda>np. add_port (int_key (nr_Direction np) (nr_SrcWorkload np) (nr_DstWorkload np)) (nr_Port np))
       (fi_InternalRules inp) []"

definition perimeter_flow :: "SGRule \<Rightarrow> string \<Rightarrow> FlowState \<Rightarrow> Flow" where
  "perimeter_flow sg zone state =
     \<lparr>fl_Layer = ''perimeter'', fl_Direction = sr_Direction sg,
      fl_Src = \<lparr>ep_Kind = ''endpoint_group'', ep_Name = zone, ep_CIDR = sr_PeerCIDR sg\<rparr>,
      fl_Dst = \<lparr>ep_Kind = ''namespace'', ep_Name = ''cluster'', ep_CIDR = ''''\<rparr>,
      fl_Ports = [sr_Port sg], fl_State = state, fl_ReferenceID = None,
      fl_Sources = [\<lparr>so_Kind = ''sg_rule'', so_ID = sr_RuleID sg, so_Summary = sr_Summary sg\<rparr>]\<rparr>"

definition internal_flow :: "NetPolRule \<Rightarrow> FlowState \<Rightarrow> Flow" where
  "internal_flow np state =
     \<lparr>fl_Layer = ''internal'', fl_Direction = nr_Direction np,
      fl_Src = \<lparr>ep_Kind = ''workload'', ep_Name = nr_SrcWorkload np, ep_CIDR = ''''\<rparr>,
      fl_Dst = \<lparr>ep_Kind = ''workload'', ep_Name = nr_DstWorkload np, ep_CIDR = ''''\<rparr>,
      fl_Ports = [nr_Port np], fl_State = state, fl_ReferenceID = None,
      fl_Sources = [\<lparr>so_Kind = ''netpol_rule'', so_ID = nr_RuleID np, so_Summary = nr_Summary np\<rparr>]\<rparr>"

definition manquant_flow :: "string \<Rightarrow> Reference \<Rightarrow> Flow" where
  "manquant_flow layer r =
     \<lparr>fl_Layer = layer, fl_Direction = rf_Direction r,
      fl_Src = \<lparr>ep_Kind = rf_SrcKind r, ep_Name = rf_SrcRef r, ep_CIDR = ''''\<rparr>,
      fl_Dst = \<lparr>ep_Kind = rf_DstKind r, ep_Name = rf_DstRef r, ep_CIDR = ''''\<rparr>,
      fl_Ports = [rf_Port r], fl_State = StateManquant, fl_ReferenceID = Some (rf_ID r),
      fl_Sources = [\<lparr>so_Kind = ''reference'', so_ID = rf_ID r, so_Summary = ''declared but not implemented''\<rparr>]\<rparr>"

fun appendUnimplemented ::
    "Flow list \<Rightarrow> Reference list \<Rightarrow> string \<Rightarrow> (string, PortRange list) gomap \<Rightarrow> Flow list" where
  "appendUnimplemented flows [] layer actuals = flows"
| "appendUnimplemented flows (r # refs) layer actuals =
     (if rf_Layer r \<noteq> layer then appendUnimplemented flows refs layer actuals
      else let key = (if layer = ''perimeter'' then perim_key (rf_Direction r) (ref_zone r)
                      else int_key (rf_Direction r) (rf_SrcRef r) (rf_DstRef r))
           in if ClassifyReference (rf_Port r) (ports_at actuals key) = StateManquant
              then appendUnimplemented (flows @ [manquant_flow layer r]) refs layer actuals
              else appendUnimplemented flows refs layer actuals)"

definition Synthesize :: "(string \<Rightarrow> ip_prefix option) \<Rightarrow> Inputs \<Rightarrow> Synthesis" where
  "Synthesize parsePrefix inp =
     (let m = NewEndpointGroupMatcher parsePrefix (fi_Groups inp);
          prefs = perimRefPorts (fi_References inp);
          perimeter = map (\<lambda>sg. let zone = Match parsePrefix m (sr_PeerCIDR sg);
                                     refs = ports_at prefs (perim_key (sr_Direction sg) zone)
                                 in perimeter_flow sg zone (ClassifyActual (sr_Port sg) refs (sr_WideOpen sg)))
                        (fi_PerimeterRules inp);
          irefs = intRefPorts (fi_References inp);
          internal = map (\<lambda>np. let refs = ports_at irefs (int_key (nr_Direction np) (nr_SrcWorkload np) (nr_DstWorkload np))
                                in internal_flow np (ClassifyActual (nr_Port np) refs (nr_WideOpenSide np \<noteq> '''')))
                       (fi_InternalRules inp)
      in \<lparr>sy_ClusterID = fi_ClusterID inp,
          sy_Perimeter = appendUnimplemented perimeter (fi_References inp) ''perimeter''
                           (perimActuals inp (Match parsePrefix m)),
          sy_Internal = appendUnimplemented internal (fi_References inp) ''internal'' (intActuals inp),
          sy_Warnings = []\<rparr>)"

section \<open>Admitted traffic\<close>

text \<open>
  What a port range admits, as pairs of a protocol and a port number. \<open>any\<close> is every protocol; a range without both
  bounds is every port, as \<^verbatim>\<open>PortRange\<close> documents it.
\<close>

definition traffic :: "PortRange \<Rightarrow> (string \<times> int) set" where
  "traffic p = {(proto, n). (prt_Protocol p = ''any'' \<or> proto = prt_Protocol p) \<and>
                            (case (prt_From p, prt_To p) of (Some f, Some t) \<Rightarrow> f \<le> n \<and> n \<le> t | _ \<Rightarrow> True)}"

definition ports_ok :: "PortRange \<Rightarrow> bool" where
  "ports_ok p = (case (prt_From p, prt_To p) of
                   (None, None) \<Rightarrow> True | (Some f, Some t) \<Rightarrow> f \<le> t | _ \<Rightarrow> False)"

lemma refCovers_sound: "refCovers ref a \<Longrightarrow> traffic a \<subseteq> traffic ref"
  by (auto simp: refCovers_def traffic_def split: if_splits option.splits)

lemma other_protocol: "\<exists>p. p \<noteq> (s :: string)"
  by (metis list.distinct(1))

lemma refCovers_complete:
  assumes "ports_ok ref" "ports_ok a" "traffic a \<subseteq> traffic ref"
  shows "refCovers ref a"
proof -
  obtain n where n: "case (prt_From a, prt_To a) of (Some f, Some t) \<Rightarrow> f \<le> n \<and> n \<le> t | _ \<Rightarrow> True"
    using assms(2) by (auto simp: ports_ok_def split: option.splits)
  obtain q where q: "prt_Protocol a = ''any'' \<or> q = prt_Protocol a" "prt_Protocol a = ''any'' \<longrightarrow> q \<noteq> prt_Protocol ref"
    using other_protocol by metis
  have mem: "(p, k) \<in> traffic ref" if "(p, k) \<in> traffic a" for p k
    using assms(3) that by blast
  have proto: "prt_Protocol ref = ''any'' \<or> prt_Protocol ref = prt_Protocol a"
    using mem [of q n] n q by (auto simp: traffic_def)
  show ?thesis
  proof (cases "(prt_From ref, prt_To ref)")
    case (Pair rf rt)
    show ?thesis
    proof (cases "rf = None \<or> rt = None")
      case True
      with Pair proto show ?thesis by (auto simp: refCovers_def split: option.splits)
    next
      case False
      then obtain f t where ft: "prt_From ref = Some f" "prt_To ref = Some t" using Pair by auto
      show ?thesis
      proof (cases "prt_From a")
        case None
        with assms(2) have "prt_To a = None" by (simp add: ports_ok_def split: option.splits)
        with None have "(prt_Protocol a, t + 1) \<in> traffic a" by (simp add: traffic_def)
        from mem [OF this] ft show ?thesis by (simp add: traffic_def)
      next
        case (Some af)
        then obtain at where at: "prt_To a = Some at" "af \<le> at"
          using assms(2) by (auto simp: ports_ok_def split: option.splits)
        then have "(prt_Protocol a, af) \<in> traffic a" "(prt_Protocol a, at) \<in> traffic a"
          using Some by (simp_all add: traffic_def)
        from this [THEN mem] ft Some at proto show ?thesis by (auto simp: refCovers_def traffic_def)
      qed
    qed
  qed
qed

lemma refCovers_iff: "ports_ok ref \<Longrightarrow> ports_ok a \<Longrightarrow> refCovers ref a \<longleftrightarrow> traffic a \<subseteq> traffic ref"
  using refCovers_sound refCovers_complete by blast

section \<open>Ranges of addresses\<close>

fun addr_bit :: "ip_addr \<Rightarrow> nat \<Rightarrow> bool" where
  "addr_bit (V4 a) i = bit a i"
| "addr_bit (V6 a) i = bit a i"

fun flip_addr :: "ip_addr \<Rightarrow> nat \<Rightarrow> ip_addr" where
  "flip_addr (V4 a) i = V4 (flip_bit i a)"
| "flip_addr (V6 a) i = V6 (flip_bit i a)"

definition addresses :: "ip_prefix \<Rightarrow> ip_addr set" where
  "addresses p = {ip. Contains p ip}"

definition prefix_ok :: "ip_prefix \<Rightarrow> bool" where
  "prefix_ok p \<longleftrightarrow> px_Bits p \<le> BitLen (px_Addr p)"

lemma drop_bit_zero_iff:
  fixes w :: "'a::len word"
  shows "drop_bit k w = 0 \<longleftrightarrow> (\<forall>i<LENGTH('a). k \<le> i \<longrightarrow> \<not> bit w i)"
proof
  assume "drop_bit k w = 0"
  then have "\<not> bit (drop_bit k w) (i - k)" for i by simp
  then show "\<forall>i<LENGTH('a). k \<le> i \<longrightarrow> \<not> bit w i" by (simp add: bit_drop_bit_eq) (metis le_add_diff_inverse)
next
  assume "\<forall>i<LENGTH('a). k \<le> i \<longrightarrow> \<not> bit w i"
  then show "drop_bit k w = 0"
    by (intro bit_word_eqI) (auto simp: bit_drop_bit_eq dest: bit_imp_le_length)
qed

lemma and_mask_zero_iff:
  fixes w :: "'a::len word"
  shows "w AND push_bit k (- 1) = 0 \<longleftrightarrow> (\<forall>i<LENGTH('a). k \<le> i \<longrightarrow> \<not> bit w i)"
proof
  assume z: "w AND push_bit k (- 1) = 0"
  show "\<forall>i<LENGTH('a). k \<le> i \<longrightarrow> \<not> bit w i"
  proof (intro allI impI notI)
    fix i assume "i < LENGTH('a)" "k \<le> i" "bit w i"
    then have "bit (w AND push_bit k (- 1)) i" by (simp add: bit_and_iff bit_not_iff bit_mask_iff)
    with z show False by simp
  qed
next
  assume "\<forall>i<LENGTH('a). k \<le> i \<longrightarrow> \<not> bit w i"
  then show "w AND push_bit k (- 1) = 0"
    by (intro bit_word_eqI) (auto simp: bit_and_iff bit_not_iff bit_mask_iff)
qed

lemma xor_agree:
  fixes a b :: "'a::len word"
  shows "drop_bit k (b XOR a) = 0 \<longleftrightarrow> (\<forall>i<LENGTH('a). k \<le> i \<longrightarrow> bit b i = bit a i)"
    and "(b XOR a) AND push_bit k (- 1) = 0 \<longleftrightarrow> (\<forall>i<LENGTH('a). k \<le> i \<longrightarrow> bit b i = bit a i)"
  by (subst drop_bit_zero_iff and_mask_zero_iff; auto simp: bit_xor_iff)+

lemma Contains_iff:
  "Contains p ip \<longleftrightarrow> Is4 (px_Addr p) = Is4 ip \<and>
     (\<forall>i<BitLen ip. BitLen ip - px_Bits p \<le> i \<longrightarrow> addr_bit ip i = addr_bit (px_Addr p) i)"
  by (cases "px_Addr p"; cases ip)
     (simp_all only: Contains_def mask6_def xor_agree prod.case ip_addr.case Is4.simps BitLen.simps addr_bit.simps,
      simp_all)

lemma Is4_BitLen: "Is4 a = Is4 b \<Longrightarrow> BitLen a = BitLen b"
  by (cases a; cases b) simp_all

lemma Contains_self: "Contains p (px_Addr p)"
  by (simp add: Contains_iff)

lemma flip_addr_simps:
  "Is4 (flip_addr a k) = Is4 a" "BitLen (flip_addr a k) = BitLen a"
  "i < BitLen a \<Longrightarrow> addr_bit (flip_addr a k) i = (if i = k then \<not> addr_bit a i else addr_bit a i)"
  by (cases a; simp add: bit_flip_bit_iff)+

lemma subset_prefix_iff:
  assumes "prefix_ok e" "prefix_ok t"
  shows "addresses t \<subseteq> addresses e \<longleftrightarrow>
    Is4 (px_Addr e) = Is4 (px_Addr t) \<and> px_Bits e \<le> px_Bits t \<and> Contains e (px_Addr t)"
proof
  assume sub: "addresses t \<subseteq> addresses e"
  then have c: "Contains e (px_Addr t)" using Contains_self [of t] by (auto simp: addresses_def)
  then have fam: "Is4 (px_Addr e) = Is4 (px_Addr t)" by (simp add: Contains_iff)
  moreover have "px_Bits e \<le> px_Bits t"
  proof (rule ccontr)
    let ?L = "BitLen (px_Addr t)" and ?k = "BitLen (px_Addr t) - px_Bits e"
    assume "\<not> px_Bits e \<le> px_Bits t"
    moreover have "px_Bits e \<le> ?L" using assms(1) Is4_BitLen [OF fam] by (simp add: prefix_ok_def)
    ultimately have k: "?k < ?L" "?k < ?L - px_Bits t" by auto
    have "Contains t (flip_addr (px_Addr t) ?k)"
      using k by (auto simp: Contains_iff flip_addr_simps)
    with sub have "Contains e (flip_addr (px_Addr t) ?k)" by (auto simp: addresses_def)
    then have "addr_bit (flip_addr (px_Addr t) ?k) ?k = addr_bit (px_Addr e) ?k"
      using k(1) by (simp add: Contains_iff flip_addr_simps(1,2))
    moreover have "addr_bit (px_Addr t) ?k = addr_bit (px_Addr e) ?k"
      using c k(1) by (simp add: Contains_iff)
    ultimately show False using k(1) by (simp add: flip_addr_simps(3))
  qed
  ultimately show "Is4 (px_Addr e) = Is4 (px_Addr t) \<and> px_Bits e \<le> px_Bits t \<and> Contains e (px_Addr t)"
    using c by simp
next
  assume r: "Is4 (px_Addr e) = Is4 (px_Addr t) \<and> px_Bits e \<le> px_Bits t \<and> Contains e (px_Addr t)"
  show "addresses t \<subseteq> addresses e"
  proof
    fix x assume "x \<in> addresses t"
    then have x: "Contains t x" by (simp add: addresses_def)
    then have fam: "Is4 (px_Addr t) = Is4 x" and agree: "\<And>i. i < BitLen x \<Longrightarrow> BitLen x - px_Bits t \<le> i \<Longrightarrow> addr_bit x i = addr_bit (px_Addr t) i"
      unfolding Contains_iff by blast+
    have "addr_bit x i = addr_bit (px_Addr e) i" if "i < BitLen x" "BitLen x - px_Bits e \<le> i" for i
    proof -
      have "BitLen x - px_Bits t \<le> i" using that r by linarith
      moreover have "addr_bit (px_Addr t) i = addr_bit (px_Addr e) i"
        using r that Is4_BitLen [OF fam] unfolding Contains_iff by simp
      ultimately show ?thesis using agree that by simp
    qed
    moreover have "Is4 (px_Addr e) = Is4 x" using r fam by simp
    ultimately show "x \<in> addresses e" unfolding addresses_def Contains_iff by simp
  qed
qed

lemma Masked_sel [simp]:
  "px_Bits (Masked p) = px_Bits p" "Is4 (px_Addr (Masked p)) = Is4 (px_Addr p)"
  "BitLen (px_Addr (Masked p)) = BitLen (px_Addr p)"
  by (simp_all add: Masked_def split: ip_addr.splits)

lemma addr_bit_Masked:
  "i < BitLen (px_Addr p) \<Longrightarrow> BitLen (px_Addr p) - px_Bits p \<le> i \<Longrightarrow>
     addr_bit (px_Addr (Masked p)) i = addr_bit (px_Addr p) i"
  by (cases "px_Addr p") (simp_all add: Masked_def mask4_def mask6_def bit_and_iff bit_not_iff bit_mask_iff)

lemma addresses_Masked [simp]: "addresses (Masked p) = addresses p"
proof -
  have "Contains (Masked p) ip = Contains p ip" for ip
  proof (cases "Is4 (px_Addr p) = Is4 ip")
    case True
    then show ?thesis using addr_bit_Masked [of _ p] Is4_BitLen [OF True] by (simp add: Contains_iff)
  qed (simp add: Contains_iff)
  then show ?thesis by (simp add: addresses_def)
qed

lemma prefix_ok_Masked [simp]: "prefix_ok (Masked p) = prefix_ok p"
  by (simp add: prefix_ok_def)

section \<open>Lemmas on the matcher and the maps\<close>

definition group_entries :: "(string \<Rightarrow> ip_prefix option) \<Rightarrow> NamedCIDRGroup list \<Rightarrow> (ip_prefix \<times> string) set" where
  "group_entries parsePrefix groups =
     {(p, cg_Name g) | p g c. g \<in> set groups \<and> c \<in> set (cg_CIDRs g) \<and> parsePrefix c = Some p}"

lemma set_matcher:
  "set (NewEndpointGroupMatcher parsePrefix groups) = (\<lambda>(p, n). (Masked p, n)) ` group_entries parsePrefix groups"
proof -
  have "set (NewEndpointGroupMatcher parsePrefix groups) =
      {(Masked p, cg_Name g) | p g c. g \<in> set groups \<and> c \<in> set (cg_CIDRs g) \<and> parsePrefix c = Some p}"
    unfolding NewEndpointGroupMatcher_def
    by (auto simp del: set_concat simp: set_concat split: option.splits) (metis list.set_intros(1) option.simps(5))+
  also have "\<dots> = (\<lambda>(p, n). (Masked p, n)) ` group_entries parsePrefix groups"
    by (force simp: group_entries_def)
  finally show ?thesis .
qed

text \<open>The entries of \<open>es\<close> that contain the target, and the best of them so far.\<close>

definition entry_holds :: "ip_prefix \<Rightarrow> matcherEntry \<Rightarrow> bool" where
  "entry_holds t e \<longleftrightarrow> Is4 (px_Addr (fst e)) = Is4 (px_Addr t) \<and> px_Bits (fst e) \<le> px_Bits t \<and>
                       Contains (fst e) (px_Addr t)"

lemma match_loop_best:
  "(\<forall>e\<in>set es. entry_holds t e \<longrightarrow> int (px_Bits (fst e)) \<le> b) \<and> match_loop t es best b = best \<or>
   (\<exists>e\<in>set es. entry_holds t e \<and> b < int (px_Bits (fst e)) \<and> match_loop t es best b = snd e \<and>
      (\<forall>e'\<in>set es. entry_holds t e' \<longrightarrow> px_Bits (fst e') \<le> px_Bits (fst e)))"
proof (induction es arbitrary: best b)
  case (Cons e es)
  obtain p g where e: "e = (p, g)" by fastforce
  show ?case
  proof (cases "entry_holds t e \<and> b < int (px_Bits p)")
    case True
    with e have "match_loop t (e # es) best b = match_loop t es g (int (px_Bits p))"
      by (simp add: entry_holds_def)
    with Cons [where best = g and b = "int (px_Bits p)"] True e show ?thesis by (auto; force)
  next
    case False
    with e have "match_loop t (e # es) best b = match_loop t es best b" by (auto simp: entry_holds_def)
    with Cons [where best = best and b = b] False e show ?thesis by (auto; force)
  qed
qed simp

lemma sep_inj:
  "c \<notin> set d \<Longrightarrow> c \<notin> set d' \<Longrightarrow> d @ c # z = d' @ c # z' \<longleftrightarrow> d = d' \<and> z = z'"
proof (induction d arbitrary: d')
  case Nil
  then show ?case by (cases d') auto
next
  case (Cons x d)
  then show ?case by (cases d') auto
qed

lemma ports_at_add: "ports_at (add_port k p m) k' = (if k = k' then ports_at m k' @ [p] else ports_at m k')"
  by (auto simp: ports_at_def add_port_def)

lemma ports_at_fold:
  "ports_at (fold (\<lambda>x m. if \<not> P x then m else add_port (key x) (port x) m) xs m) k =
     ports_at m k @ map port (filter (\<lambda>x. P x \<and> key x = k) xs)"
  by (induction xs arbitrary: m) (auto simp: ports_at_add)

lemma ports_at_fold_all:
  "ports_at (fold (\<lambda>x. add_port (key x) (port x)) xs m) k = ports_at m k @ map port (filter (\<lambda>x. key x = k) xs)"
  by (induction xs arbitrary: m) (auto simp: ports_at_add)

lemma ports_at_Nil [simp]: "ports_at [] k = []"
  by (simp add: ports_at_def)

lemma ports_at_groups:
  "ports_at (perimRefPorts refs) k =
     map rf_Port (filter (\<lambda>r. rf_Layer r = ''perimeter'' \<and> perim_key (rf_Direction r) (ref_zone r) = k) refs)"
  "ports_at (intRefPorts refs) k =
     map rf_Port (filter (\<lambda>r. rf_Layer r = ''internal'' \<and> int_key (rf_Direction r) (rf_SrcRef r) (rf_DstRef r) = k) refs)"
  "ports_at (perimActuals inp z) k =
     map sr_Port (filter (\<lambda>sg. perim_key (sr_Direction sg) (z (sr_PeerCIDR sg)) = k) (fi_PerimeterRules inp))"
  "ports_at (intActuals inp) k =
     map nr_Port (filter (\<lambda>np. int_key (nr_Direction np) (nr_SrcWorkload np) (nr_DstWorkload np) = k) (fi_InternalRules inp))"
  unfolding perimRefPorts_def intRefPorts_def perimActuals_def intActuals_def
  by (simp_all add: ports_at_fold [where P = "\<lambda>r. rf_Layer r = ''perimeter''"]
        ports_at_fold [where P = "\<lambda>r. rf_Layer r = ''internal''"] ports_at_fold_all)

lemma appendUnimplemented_filter:
  "appendUnimplemented flows refs layer actuals =
     flows @ map (manquant_flow layer)
       (filter (\<lambda>r. rf_Layer r = layer \<and> \<not> list_ex (refCovers (rf_Port r))
          (ports_at actuals (if layer = ''perimeter'' then perim_key (rf_Direction r) (ref_zone r)
                             else int_key (rf_Direction r) (rf_SrcRef r) (rf_DstRef r)))) refs)"
  by (induction flows refs layer actuals rule: appendUnimplemented.induct) (simp_all add: Let_def ClassifyReference_def)

section \<open>The declarative reading of the matrix\<close>

definition inputs_ok :: "Inputs \<Rightarrow> bool" where
  "inputs_ok inp \<longleftrightarrow>
     list_all (\<lambda>r. CHR ''|'' \<notin> set (rf_Direction r) \<and> CHR ''|'' \<notin> set (rf_SrcRef r) \<and> ports_ok (rf_Port r)) (fi_References inp) \<and>
     list_all (\<lambda>sg. CHR ''|'' \<notin> set (sr_Direction sg) \<and> ports_ok (sr_Port sg)) (fi_PerimeterRules inp) \<and>
     list_all (\<lambda>np. CHR ''|'' \<notin> set (nr_Direction np) \<and> CHR ''|'' \<notin> set (nr_SrcWorkload np) \<and> ports_ok (nr_Port np))
       (fi_InternalRules inp)"

text \<open>A reference and a rule speak of the same endpoints, in the same direction.\<close>

definition perim_pair :: "(string \<Rightarrow> string) \<Rightarrow> Reference \<Rightarrow> SGRule \<Rightarrow> bool" where
  "perim_pair zoneOf r sg \<longleftrightarrow>
     rf_Layer r = ''perimeter'' \<and> rf_Direction r = sr_Direction sg \<and> ref_zone r = zoneOf (sr_PeerCIDR sg)"

definition int_pair :: "Reference \<Rightarrow> NetPolRule \<Rightarrow> bool" where
  "int_pair r np \<longleftrightarrow>
     rf_Layer r = ''internal'' \<and> rf_Direction r = nr_Direction np \<and> rf_SrcRef r = nr_SrcWorkload np \<and>
     rf_DstRef r = nr_DstWorkload np"

definition rule_state :: "bool \<Rightarrow> bool \<Rightarrow> FlowState" where
  "rule_state wide declared = (if wide then StateLargeOuvert else if declared then StateConforme else StateNonDeclare)"

definition ideal_perimeter :: "(string \<Rightarrow> string) \<Rightarrow> Inputs \<Rightarrow> Flow list" where
  "ideal_perimeter zoneOf inp =
     map (\<lambda>sg. perimeter_flow sg (zoneOf (sr_PeerCIDR sg))
             (rule_state (sr_WideOpen sg)
                (\<exists>r\<in>set (fi_References inp). perim_pair zoneOf r sg \<and> traffic (sr_Port sg) \<subseteq> traffic (rf_Port r))))
         (fi_PerimeterRules inp) @
     map (manquant_flow ''perimeter'')
       (filter (\<lambda>r. rf_Layer r = ''perimeter'' \<and>
                     \<not> (\<exists>sg\<in>set (fi_PerimeterRules inp). perim_pair zoneOf r sg \<and> traffic (sr_Port sg) \<subseteq> traffic (rf_Port r)))
          (fi_References inp))"

definition ideal_internal :: "Inputs \<Rightarrow> Flow list" where
  "ideal_internal inp =
     map (\<lambda>np. internal_flow np
             (rule_state (nr_WideOpenSide np \<noteq> '''')
                (\<exists>r\<in>set (fi_References inp). int_pair r np \<and> traffic (nr_Port np) \<subseteq> traffic (rf_Port r))))
         (fi_InternalRules inp) @
     map (manquant_flow ''internal'')
       (filter (\<lambda>r. rf_Layer r = ''internal'' \<and>
                     \<not> (\<exists>np\<in>set (fi_InternalRules inp). int_pair r np \<and> traffic (nr_Port np) \<subseteq> traffic (rf_Port r)))
          (fi_References inp))"

lemma inputs_okD:
  assumes "inputs_ok inp"
  shows "r \<in> set (fi_References inp) \<Longrightarrow> CHR ''|'' \<notin> set (rf_Direction r) \<and> CHR ''|'' \<notin> set (rf_SrcRef r) \<and> ports_ok (rf_Port r)"
    and "sg \<in> set (fi_PerimeterRules inp) \<Longrightarrow> CHR ''|'' \<notin> set (sr_Direction sg) \<and> ports_ok (sr_Port sg)"
    and "np \<in> set (fi_InternalRules inp) \<Longrightarrow>
      CHR ''|'' \<notin> set (nr_Direction np) \<and> CHR ''|'' \<notin> set (nr_SrcWorkload np) \<and> ports_ok (nr_Port np)"
  using assms by (auto simp: inputs_ok_def list_all_iff)

lemma perim_key_pair:
  assumes "inputs_ok inp" "r \<in> set (fi_References inp)" "sg \<in> set (fi_PerimeterRules inp)" "rf_Layer r = ''perimeter''"
  shows "perim_key (rf_Direction r) (ref_zone r) = perim_key (sr_Direction sg) (z (sr_PeerCIDR sg)) \<longleftrightarrow> perim_pair z r sg"
    and "refCovers (rf_Port r) (sr_Port sg) \<longleftrightarrow> traffic (sr_Port sg) \<subseteq> traffic (rf_Port r)"
  using inputs_okD(1) [OF assms(1,2)] inputs_okD(2) [OF assms(1,3)] assms(4)
  by (simp_all add: perim_key_def perim_pair_def sep_inj refCovers_iff)

lemma int_key_pair:
  assumes "inputs_ok inp" "r \<in> set (fi_References inp)" "np \<in> set (fi_InternalRules inp)" "rf_Layer r = ''internal''"
  shows "int_key (rf_Direction r) (rf_SrcRef r) (rf_DstRef r) = int_key (nr_Direction np) (nr_SrcWorkload np) (nr_DstWorkload np)
           \<longleftrightarrow> int_pair r np"
    and "refCovers (rf_Port r) (nr_Port np) \<longleftrightarrow> traffic (nr_Port np) \<subseteq> traffic (rf_Port r)"
  using inputs_okD(1) [OF assms(1,2)] inputs_okD(3) [OF assms(1,3)] assms(4)
  by (simp_all add: int_key_def int_pair_def sep_inj refCovers_iff)

lemma covering_reference:
  assumes "\<And>r. r \<in> set refs \<Longrightarrow> P r \<Longrightarrow> (key r = k \<longleftrightarrow> pair r) \<and> (refCovers (port r) a \<longleftrightarrow> traffic a \<subseteq> traffic (port r))"
    and "\<And>r. pair r \<Longrightarrow> P r"
  shows "ClassifyActual a (map port (filter (\<lambda>r. P r \<and> key r = k) refs)) wide =
    rule_state wide (\<exists>r\<in>set refs. pair r \<and> traffic a \<subseteq> traffic (port r))"
proof -
  have "list_ex (\<lambda>r. refCovers r a) (map port (filter (\<lambda>r. P r \<and> key r = k) refs)) \<longleftrightarrow>
      (\<exists>r\<in>set refs. pair r \<and> traffic a \<subseteq> traffic (port r))"
    unfolding list_ex_iff using assms by auto
  then show ?thesis by (simp add: ClassifyActual_def rule_state_def)
qed

lemma implementing_rule:
  assumes "\<And>x. x \<in> set xs \<Longrightarrow> (key x = k \<longleftrightarrow> pair x) \<and> (refCovers p (port x) \<longleftrightarrow> traffic (port x) \<subseteq> traffic p)"
  shows "list_ex (refCovers p) (map port (filter (\<lambda>x. key x = k) xs)) \<longleftrightarrow>
    (\<exists>x\<in>set xs. pair x \<and> traffic (port x) \<subseteq> traffic p)"
  unfolding list_ex_iff using assms by auto

lemma Synthesize_perimeter:
  assumes "inputs_ok inp"
  shows "sy_Perimeter (Synthesize parsePrefix inp) =
    ideal_perimeter (Match parsePrefix (NewEndpointGroupMatcher parsePrefix (fi_Groups inp))) inp"
proof -
  let ?z = "Match parsePrefix (NewEndpointGroupMatcher parsePrefix (fi_Groups inp))"
  have rules: "ClassifyActual (sr_Port sg)
      (ports_at (perimRefPorts (fi_References inp)) (perim_key (sr_Direction sg) (?z (sr_PeerCIDR sg)))) (sr_WideOpen sg) =
      rule_state (sr_WideOpen sg)
        (\<exists>r\<in>set (fi_References inp). perim_pair ?z r sg \<and> traffic (sr_Port sg) \<subseteq> traffic (rf_Port r))"
    if "sg \<in> set (fi_PerimeterRules inp)" for sg
    unfolding ports_at_groups
    by (rule covering_reference) (use perim_key_pair [OF assms _ that] in \<open>auto simp: perim_pair_def\<close>)
  have refs: "list_ex (refCovers (rf_Port r)) (ports_at (perimActuals inp ?z) (perim_key (rf_Direction r) (ref_zone r))) \<longleftrightarrow>
      (\<exists>sg\<in>set (fi_PerimeterRules inp). perim_pair ?z r sg \<and> traffic (sr_Port sg) \<subseteq> traffic (rf_Port r))"
    if "r \<in> set (fi_References inp)" "rf_Layer r = ''perimeter''" for r
    unfolding ports_at_groups
    by (rule implementing_rule) (use perim_key_pair [OF assms that(1) _ that(2)] in \<open>metis (no_types)\<close>)
  show ?thesis
    by (simp add: Synthesize_def Let_def appendUnimplemented_filter ideal_perimeter_def rules refs cong: filter_cong conj_cong map_cong)
qed

lemma Synthesize_internal:
  assumes "inputs_ok inp"
  shows "sy_Internal (Synthesize parsePrefix inp) = ideal_internal inp"
proof -
  have rules: "ClassifyActual (nr_Port np)
      (ports_at (intRefPorts (fi_References inp)) (int_key (nr_Direction np) (nr_SrcWorkload np) (nr_DstWorkload np))) w =
      rule_state w (\<exists>r\<in>set (fi_References inp). int_pair r np \<and> traffic (nr_Port np) \<subseteq> traffic (rf_Port r))"
    if "np \<in> set (fi_InternalRules inp)" for np w
    unfolding ports_at_groups
    by (rule covering_reference) (use int_key_pair [OF assms _ that] in \<open>auto simp: int_pair_def\<close>)
  have refs: "list_ex (refCovers (rf_Port r)) (ports_at (intActuals inp) (int_key (rf_Direction r) (rf_SrcRef r) (rf_DstRef r))) \<longleftrightarrow>
      (\<exists>np\<in>set (fi_InternalRules inp). int_pair r np \<and> traffic (nr_Port np) \<subseteq> traffic (rf_Port r))"
    if "r \<in> set (fi_References inp)" "rf_Layer r = ''internal''" for r
    unfolding ports_at_groups
    by (rule implementing_rule) (use int_key_pair [OF assms that(1) _ that(2)] in \<open>metis (no_types)\<close>)
  show ?thesis
    by (simp add: Synthesize_def Let_def appendUnimplemented_filter ideal_internal_def rules refs cong: filter_cong conj_cong map_cong)
qed

lemma nested_prefixes:
  assumes "prefix_ok p" "prefix_ok q" "prefix_ok t" "addresses t \<subseteq> addresses p" "addresses t \<subseteq> addresses q"
    and bits: "px_Bits q \<le> px_Bits p"
  shows "addresses p \<subseteq> addresses q"
proof -
  have p: "Is4 (px_Addr p) = Is4 (px_Addr t)" "Contains p (px_Addr t)"
    and q: "Is4 (px_Addr q) = Is4 (px_Addr t)" "Contains q (px_Addr t)"
    using assms subset_prefix_iff by blast+
  have "addr_bit (px_Addr p) i = addr_bit (px_Addr q) i"
    if "i < BitLen (px_Addr p)" "BitLen (px_Addr p) - px_Bits q \<le> i" for i
  proof -
    have "i < BitLen (px_Addr t)" "BitLen (px_Addr t) - px_Bits q \<le> i" "BitLen (px_Addr t) - px_Bits p \<le> i"
      using that Is4_BitLen [OF p(1)] bits by simp_all
    with p(2) q(2) show ?thesis unfolding Contains_iff by auto
  qed
  then have "Contains q (px_Addr p)" unfolding Contains_iff using p(1) q(1) by simp
  then show ?thesis using subset_prefix_iff [OF assms(2,1)] p(1) q(1) bits by simp
qed

lemma entry_holds_iff:
  "prefix_ok t \<Longrightarrow> prefix_ok p \<Longrightarrow> entry_holds (Masked t) (Masked p, n) \<longleftrightarrow> addresses t \<subseteq> addresses p"
  using subset_prefix_iff [of "Masked p" "Masked t"] by (simp add: entry_holds_def)

section \<open>Properties\<close>

text \<open>C21: Endpoint groups, functional. The zone of a CIDR is the name of a group with a range that contains the whole CIDR
  and is contained in every other such range of a group; it is the uncategorised zone exactly when no range of a group contains
  the CIDR.\<close>

theorem match_most_specific:
  assumes "\<And>c p. parsePrefix c = Some p \<Longrightarrow> prefix_ok p" and "parsePrefix cidr = Some t"
  shows "let zone = Match parsePrefix (NewEndpointGroupMatcher parsePrefix groups) cidr;
             around = {(q, n). (q, n) \<in> group_entries parsePrefix groups \<and> addresses t \<subseteq> addresses q}
         in (around = {} \<and> zone = Uncategorized) \<or>
            (\<exists>p. (p, zone) \<in> around \<and> (\<forall>(q, n)\<in>around. addresses p \<subseteq> addresses q))"
proof -
  let ?es = "NewEndpointGroupMatcher parsePrefix groups"
  let ?G = "group_entries parsePrefix groups"
  have ok: "prefix_ok p" if "(p, n) \<in> ?G" for p n using that assms(1) by (auto simp: group_entries_def)
  have okt: "prefix_ok t" using assms by blast
  have holds: "entry_holds (Masked t) (Masked p, n) \<longleftrightarrow> addresses t \<subseteq> addresses p" if "(p, n) \<in> ?G" for p n
    using entry_holds_iff okt ok that by blast
  have zone: "Match parsePrefix ?es cidr = match_loop (Masked t) ?es Uncategorized (- 1)"
    by (simp add: Match_def assms(2))
  from match_loop_best [of ?es "Masked t" "- 1" Uncategorized] show ?thesis
  proof
    assume none: "(\<forall>e\<in>set ?es. entry_holds (Masked t) e \<longrightarrow> int (px_Bits (fst e)) \<le> - 1) \<and>
      match_loop (Masked t) ?es Uncategorized (- 1) = Uncategorized"
    then have "\<not> addresses t \<subseteq> addresses q" if "(q, n) \<in> ?G" for q n
      using that holds [OF that] unfolding set_matcher by force
    with none zone show ?thesis by (auto simp: Let_def)
  next
    assume "\<exists>e\<in>set ?es. entry_holds (Masked t) e \<and> - 1 < int (px_Bits (fst e)) \<and>
      match_loop (Masked t) ?es Uncategorized (- 1) = snd e \<and>
      (\<forall>e'\<in>set ?es. entry_holds (Masked t) e' \<longrightarrow> px_Bits (fst e') \<le> px_Bits (fst e))"
    then obtain e where e: "e \<in> set ?es" "entry_holds (Masked t) e" "match_loop (Masked t) ?es Uncategorized (- 1) = snd e"
      and all: "\<forall>e'\<in>set ?es. entry_holds (Masked t) e' \<longrightarrow> px_Bits (fst e') \<le> px_Bits (fst e)" by blast
    obtain p n where pn: "(p, n) \<in> ?G" "e = (Masked p, n)" using e(1) unfolding set_matcher by auto
    have p: "(p, n) \<in> ?G" "addresses t \<subseteq> addresses p" "match_loop (Masked t) ?es Uncategorized (- 1) = n"
      using e pn holds by auto
    have best: "px_Bits q \<le> px_Bits p" if "(q, m) \<in> ?G" "entry_holds (Masked t) (Masked q, m)" for q m
    proof -
      have "(Masked q, m) \<in> set ?es" using that(1) unfolding set_matcher by force
      with all that(2) pn show ?thesis by fastforce
    qed
    have least: "addresses p \<subseteq> addresses q" if "(q, m) \<in> ?G" "addresses t \<subseteq> addresses q" for q m
      using nested_prefixes [OF ok [OF p(1)] ok [OF that(1)] okt p(2) that(2)] best [OF that(1)] holds [OF that(1)] that(2)
      by simp
    show ?thesis unfolding Let_def zone p(3) by (rule disjI2, rule exI [of _ p]) (use p(1,2) least in blast)
  qed
qed

definition sample_prefixes :: "string \<Rightarrow> ip_prefix option" where
  "sample_prefixes s =
     (if s = ''10.0.0.0/8'' then Some \<lparr>px_Addr = V4 0x0A000000, px_Bits = 8\<rparr>
      else if s = ''10.1.0.0/16'' then Some \<lparr>px_Addr = V4 0x0A010000, px_Bits = 16\<rparr>
      else if s = ''10.1.2.3/24'' then Some \<lparr>px_Addr = V4 0x0A010203, px_Bits = 24\<rparr>
      else if s = ''192.0.2.0/24'' then Some \<lparr>px_Addr = V4 0xC0000200, px_Bits = 24\<rparr>
      else None)"

definition sample_groups :: "NamedCIDRGroup list" where
  "sample_groups = [\<lparr>cg_Name = ''corp'', cg_CIDRs = [''10.0.0.0/8'', ''bad'']\<rparr>, \<lparr>cg_Name = ''paris'', cg_CIDRs = [''10.1.0.0/16'']\<rparr>]"

lemma sample_prefixes_ok: "sample_prefixes c = Some p \<Longrightarrow> prefix_ok p"
  by (auto simp: sample_prefixes_def prefix_ok_def split: if_splits)

theorem match_most_specific_witness:
  "(let zone = Match sample_prefixes (NewEndpointGroupMatcher sample_prefixes sample_groups) ''10.1.2.3/24'';
        around = {(q, n). (q, n) \<in> group_entries sample_prefixes sample_groups \<and>
                          addresses \<lparr>px_Addr = V4 0x0A010203, px_Bits = 24\<rparr> \<subseteq> addresses q}
    in (around = {} \<and> zone = Uncategorized) \<or>
       (\<exists>p. (p, zone) \<in> around \<and> (\<forall>(q, n)\<in>around. addresses p \<subseteq> addresses q))) \<and>
   Match sample_prefixes (NewEndpointGroupMatcher sample_prefixes sample_groups) ''10.1.2.3/24'' = ''paris''"
proof
  have t: "sample_prefixes ''10.1.2.3/24'' = Some \<lparr>px_Addr = V4 0x0A010203, px_Bits = 24\<rparr>" by (simp add: sample_prefixes_def)
  show "let zone = Match sample_prefixes (NewEndpointGroupMatcher sample_prefixes sample_groups) ''10.1.2.3/24'';
        around = {(q, n). (q, n) \<in> group_entries sample_prefixes sample_groups \<and>
                          addresses \<lparr>px_Addr = V4 0x0A010203, px_Bits = 24\<rparr> \<subseteq> addresses q}
    in (around = {} \<and> zone = Uncategorized) \<or>
       (\<exists>p. (p, zone) \<in> around \<and> (\<forall>(q, n)\<in>around. addresses p \<subseteq> addresses q))"
    by (rule match_most_specific [of sample_prefixes, OF sample_prefixes_ok t])
qed code_simp

text \<open>C14: Flow matrix, equivalence. For rules and references whose port ranges have no or both bounds, the synthesis reports every
  discovered rule once, in order: wide open when it is marked so, conform exactly when a reference for the same endpoints
  and direction admits all of its traffic, undeclared otherwise; and then every reference of the layer for which no rule
  of its endpoints stays within the declared traffic, as missing.\<close>

theorem synthesize_exact:
  assumes "inputs_ok inp"
  shows "Synthesize parsePrefix inp =
    \<lparr>sy_ClusterID = fi_ClusterID inp,
     sy_Perimeter = ideal_perimeter (Match parsePrefix (NewEndpointGroupMatcher parsePrefix (fi_Groups inp))) inp,
     sy_Internal = ideal_internal inp, sy_Warnings = []\<rparr>"
  by (rule Synthesis.equality)
     (simp_all add: Synthesize_perimeter [OF assms] Synthesize_internal [OF assms], simp_all add: Synthesize_def Let_def)

definition sample_port :: "string \<Rightarrow> int \<Rightarrow> int \<Rightarrow> PortRange" where
  "sample_port proto a b = \<lparr>prt_Protocol = proto, prt_From = Some a, prt_To = Some b\<rparr>"

definition sample_sg :: "string \<Rightarrow> PortRange \<Rightarrow> string \<Rightarrow> bool \<Rightarrow> SGRule" where
  "sample_sg rid p cidr wide = \<lparr>sr_RuleID = rid, sr_Direction = ''ingress'', sr_Port = p, sr_PeerCIDR = cidr, sr_WideOpen = wide, sr_Summary = rid\<rparr>"

definition sample_ref :: "string \<Rightarrow> string \<Rightarrow> PortRange \<Rightarrow> Reference" where
  "sample_ref rid zone p =
     \<lparr>rf_ID = rid, rf_Layer = ''perimeter'', rf_Direction = ''ingress'', rf_SrcKind = ''endpoint_group'', rf_SrcRef = zone,
      rf_DstKind = ''namespace'', rf_DstRef = ''front'', rf_Port = p\<rparr>"

definition sample_inputs :: Inputs where
  "sample_inputs =
     \<lparr>fi_ClusterID = ''c'',
      fi_PerimeterRules =
        [sample_sg ''r1'' (sample_port ''tcp'' 443 443) ''10.1.2.3/24'' False, sample_sg ''r2'' (sample_port ''tcp'' 22 22) ''10.1.2.3/24'' False,
         sample_sg ''r3'' (sample_port ''tcp'' 1 65535) ''192.0.2.0/24'' False, sample_sg ''r4'' (sample_port ''tcp'' 80 80) ''x'' True],
      fi_InternalRules =
        [\<lparr>nr_RuleID = ''n1'', nr_Direction = ''ingress'', nr_Port = \<lparr>prt_Protocol = ''any'', prt_From = None, prt_To = None\<rparr>,
          nr_SrcWorkload = ''all'', nr_DstWorkload = ''db'', nr_PeerCIDR = '''', nr_WideOpenSide = '''', nr_Summary = ''n1''\<rparr>],
      fi_References =
        [sample_ref ''f1'' ''paris'' (sample_port ''any'' 400 500), sample_ref ''f2'' Uncategorized (sample_port ''tcp'' 443 443)],
      fi_Groups = sample_groups\<rparr>"

lemma sample_inputs_ok: "inputs_ok sample_inputs"
  by code_simp

theorem synthesize_exact_witness:
  "inputs_ok sample_inputs \<and>
   sy_Perimeter (Synthesize sample_prefixes sample_inputs) =
     ideal_perimeter (Match sample_prefixes (NewEndpointGroupMatcher sample_prefixes (fi_Groups sample_inputs))) sample_inputs \<and>
   map fl_State (sy_Perimeter (Synthesize sample_prefixes sample_inputs)) =
     [StateConforme, StateNonDeclare, StateNonDeclare, StateLargeOuvert, StateManquant]"
proof (intro conjI)
  show "map fl_State (sy_Perimeter (Synthesize sample_prefixes sample_inputs)) =
     [StateConforme, StateNonDeclare, StateNonDeclare, StateLargeOuvert, StateManquant]" by code_simp
qed (simp_all add: synthesize_exact [OF sample_inputs_ok] sample_inputs_ok)

text \<open>Flow matrix, error behaviour. A declared flow is reported as missing also when every rule for its endpoints admits all of the
  declared traffic and more: a rule counts as an implementation only when it stays within the declaration.\<close>

theorem broader_rule_reported_missing:
  assumes "inputs_ok inp" and "r \<in> set (fi_References inp)" "rf_Layer r = ''perimeter''"
    and broader: "\<And>sg. sg \<in> set (fi_PerimeterRules inp) \<Longrightarrow>
          perim_pair (Match parsePrefix (NewEndpointGroupMatcher parsePrefix (fi_Groups inp))) r sg \<Longrightarrow>
          traffic (rf_Port r) \<subset> traffic (sr_Port sg)"
  shows "manquant_flow ''perimeter'' r \<in> set (sy_Perimeter (Synthesize parsePrefix inp))"
proof -
  let ?z = "Match parsePrefix (NewEndpointGroupMatcher parsePrefix (fi_Groups inp))"
  have "\<not> (\<exists>sg\<in>set (fi_PerimeterRules inp). perim_pair ?z r sg \<and> traffic (sr_Port sg) \<subseteq> traffic (rf_Port r))"
    using broader by blast
  then show ?thesis
    unfolding Synthesize_perimeter [OF assms(1)] ideal_perimeter_def set_append set_map set_filter
    using assms(2,3) by blast
qed

definition broad_inputs :: Inputs where
  "broad_inputs = sample_inputs\<lparr>fi_PerimeterRules := [sample_sg ''r3'' (sample_port ''tcp'' 1 65535) ''192.0.2.0/24'' False]\<rparr>"

theorem broader_rule_reported_missing_witness:
  "traffic (sample_port ''tcp'' 443 443) \<subset> traffic (sample_port ''tcp'' 1 65535) \<and>
   map fl_State (sy_Perimeter (Synthesize sample_prefixes broad_inputs)) = [StateNonDeclare, StateManquant, StateManquant] \<and>
   manquant_flow ''perimeter'' (sample_ref ''f2'' Uncategorized (sample_port ''tcp'' 443 443))
     \<in> set (sy_Perimeter (Synthesize sample_prefixes broad_inputs))"
proof (intro conjI)
  let ?r = "sample_ref ''f2'' Uncategorized (sample_port ''tcp'' 443 443)"
  have "traffic (sample_port ''tcp'' 443 443) \<subseteq> traffic (sample_port ''tcp'' 1 65535)"
    by (rule refCovers_sound) code_simp
  moreover have "(''tcp'', 80) \<in> traffic (sample_port ''tcp'' 1 65535)" "(''tcp'', 80) \<notin> traffic (sample_port ''tcp'' 443 443)"
    by (simp_all add: traffic_def sample_port_def)
  ultimately show sub: "traffic (sample_port ''tcp'' 443 443) \<subset> traffic (sample_port ''tcp'' 1 65535)" by blast
  have ok: "inputs_ok broad_inputs" by code_simp
  show "manquant_flow ''perimeter'' ?r \<in> set (sy_Perimeter (Synthesize sample_prefixes broad_inputs))"
  proof (rule broader_rule_reported_missing [OF ok])
    fix sg assume "sg \<in> set (fi_PerimeterRules broad_inputs)"
    then have "sg = sample_sg ''r3'' (sample_port ''tcp'' 1 65535) ''192.0.2.0/24'' False" by (simp add: broad_inputs_def)
    with sub show "traffic (rf_Port ?r) \<subset> traffic (sr_Port sg)" by (simp add: sample_sg_def sample_ref_def)
  qed (simp_all add: broad_inputs_def sample_inputs_def sample_ref_def)
qed code_simp

end
