(* ===== verification/Flow_Store.thy ===== *)
theory Flow_Store
  imports Flow_Matrix Inventory Pagination "HOL-Library.Multiset"
begin

text \<open>
  The tables behind the flow matrix and the store methods on them: \<^verbatim>\<open>pg_security_groups.go\<close>, \<^verbatim>\<open>pg_vm_sg_attachments.go\<close>,
  \<^verbatim>\<open>pg_network_policies.go\<close>, \<^verbatim>\<open>pg_endpoint_groups.go\<close>, \<^verbatim>\<open>pg_flow_references.go\<close> and \<^verbatim>\<open>pg_settings.go\<close>. A statement runs against a record of the
  tables with the constraints of the migrations (keys, foreign keys with their cascades, CHECK lists, four-byte integers); a
  transaction that fails is rolled back. PostgreSQL's reading of a \<^verbatim>\<open>CIDR\<close> value and its text orders are arguments (\<open>pe_cidr\<close>,
  \<open>pe_text_le\<close>, \<open>pe_cidr_le\<close>).
\<close>

section \<open>Rows\<close>

record SecurityGroupRow =
  sg_ID :: uuid
  sg_CloudAccountID :: uuid
  sg_ProviderSGID :: string
  sg_Name :: string
  sg_VPCID :: string
  sg_Tags :: json

record SecurityGroupRuleRow =
  ru_ID :: uuid
  ru_SecurityGroupID :: uuid
  ru_Direction :: string
  ru_Protocol :: string
  ru_FromPort :: "int option"
  ru_ToPort :: "int option"
  ru_PeerKind :: string
  ru_PeerCIDR :: string
  ru_PeerSGProviderID :: string
  ru_PeerPrefixID :: string
  ru_Description :: string

record VMSecurityGroupAttachment =
  va_CloudAccountID :: uuid
  va_ProviderVMID :: string
  va_ProviderSGID :: string

record NetworkPolicyRow =
  np_ID :: uuid
  np_ClusterID :: uuid
  np_NamespaceID :: uuid
  np_Name :: string
  np_PodSelector :: json
  np_PolicyTypes :: "string list"
  np_SpecRaw :: json

text \<open>A \<^verbatim>\<open>json.RawMessage\<close> that may be empty is an option.\<close>

record NetworkPolicyRuleRow =
  pr_ID :: uuid
  pr_NetworkPolicyID :: uuid
  pr_Direction :: string
  pr_PeerKind :: string
  pr_PeerPodSelector :: "json option"
  pr_PeerNamespaceSelector :: "json option"
  pr_PeerIPBlockCIDR :: string
  pr_PeerIPBlockExcept :: "json option"
  pr_Ports :: "json option"

record EndpointGroup =
  eg_ID :: uuid
  eg_Name :: string
  eg_Notes :: string
  eg_CIDRs :: "string list"
  eg_CreatedBy :: "uuid option"
  eg_CreatedAt :: time
  eg_UpdatedAt :: time

record EndpointGroupInput =
  gi_Name :: string
  gi_Notes :: string
  gi_CIDRs :: "string list"

record FlowReferenceInput =
  fr_Layer :: string
  fr_Direction :: string
  fr_SrcKind :: string
  fr_SrcRef :: string
  fr_DstKind :: string
  fr_DstRef :: string
  fr_Protocol :: string
  fr_FromPort :: "int option"
  fr_ToPort :: "int option"
  fr_Justification :: string

text \<open>A stored reference: the declared columns and the bookkeeping ones.\<close>

record FlowReference =
  fx_ID :: uuid
  fx_ClusterID :: uuid
  fx_Input :: FlowReferenceInput
  fx_CreatedBy :: "uuid option"
  fx_CreatedAt :: time
  fx_UpdatedAt :: time

record Settings =
  se_EOLEnabled :: bool
  se_MCPEnabled :: bool
  se_TimeTravelEnabled :: bool
  se_TimeTravelRetentionDays :: int
  se_TimeTravelReaperEnabled :: bool
  se_ImageVersionsEnabled :: bool
  se_FlowMatrixEnabled :: bool
  se_ClusterStaleAfterDays :: int
  se_KubeNodeVMGraceHours :: int
  se_PoliciesEnabled :: bool
  se_UpdatedAt :: time

record SettingsPatch =
  sp_EOLEnabled :: "bool option"
  sp_MCPEnabled :: "bool option"
  sp_TimeTravelEnabled :: "bool option"
  sp_TimeTravelRetentionDays :: "int option"
  sp_TimeTravelReaperEnabled :: "bool option"
  sp_ImageVersionsEnabled :: "bool option"
  sp_FlowMatrixEnabled :: "bool option"
  sp_ClusterStaleAfterDays :: "int option"
  sp_KubeNodeVMGraceHours :: "int option"
  sp_PoliciesEnabled :: "bool option"

text \<open>One row of \<^verbatim>\<open>audit_events\<close>, with the columns \<^verbatim>\<open>emitFlowDrift\<close> fills.\<close>

record DriftEvent =
  de_ID :: uuid
  de_OccurredAt :: time
  de_ClusterID :: uuid
  de_FlowKey :: string
  de_Flow :: Flow

text \<open>The tables. \<^verbatim>\<open>reconcile_seen_at\<close> is kept where a query sorts by it (policies). \<open>fd_clusters\<close>, \<open>fd_accounts\<close> and \<open>fd_namespaces\<close> are
  the ids that foreign keys refer to.\<close>

record flow_db =
  fd_sgs :: "SecurityGroupRow list"
  fd_sg_rules :: "SecurityGroupRuleRow list"
  fd_attachments :: "VMSecurityGroupAttachment list"
  fd_policies :: "(NetworkPolicyRow \<times> time) list"
  fd_policy_rules :: "NetworkPolicyRuleRow list"
  fd_groups :: "EndpointGroup list"
  fd_refs :: "FlowReference list"
  fd_drift :: "(uuid \<times> string, time) gomap"
  fd_audit :: "DriftEvent list"
  fd_settings :: Settings
  fd_nodes :: "node_row list"
  fd_clusters :: "uuid list"
  fd_accounts :: "uuid list"
  fd_namespaces :: "uuid list"

text \<open>What a call finds: the database clock, fresh ids for the rows it inserts, and PostgreSQL's \<^verbatim>\<open>cidr\<close> input and orders.\<close>

record pg_env =
  pe_NOW :: time
  pe_id :: "nat \<Rightarrow> uuid"
  pe_cidr :: "string \<Rightarrow> string option"
  pe_cidr_le :: "string \<Rightarrow> string \<Rightarrow> bool"
  pe_text_le :: "string \<Rightarrow> string \<Rightarrow> bool"

type_synonym 'a flow_op = "flow_db \<Rightarrow> (inventory_error + 'a) \<times> flow_db"

section \<open>Shared statements\<close>

definition int4_ok :: "int option \<Rightarrow> bool" where
  "int4_ok v = (case v of None \<Rightarrow> True | Some n \<Rightarrow> - 2147483648 \<le> n \<and> n \<le> 2147483647)"

text \<open>ORDER BY one column.\<close>

fun insert_by :: "('b \<Rightarrow> 'b \<Rightarrow> bool) \<Rightarrow> ('a \<Rightarrow> 'b) \<Rightarrow> 'a \<Rightarrow> 'a list \<Rightarrow> 'a list" where
  "insert_by le key x [] = [x]"
| "insert_by le key x (y # ys) = (if le (key x) (key y) then x # y # ys else y # insert_by le key x ys)"

definition order_by :: "('b \<Rightarrow> 'b \<Rightarrow> bool) \<Rightarrow> ('a \<Rightarrow> 'b) \<Rightarrow> 'a list \<Rightarrow> 'a list" where
  "order_by le key xs = foldr (insert_by le key) xs []"

text \<open>\<^verbatim>\<open>NULLIF($n,'')::cidr\<close>: the empty text is NULL, anything else must be a CIDR value; reading back gives its text, or the
  empty text for NULL.\<close>

definition cidr_column :: "pg_env \<Rightarrow> string \<Rightarrow> string option" where
  "cidr_column e s = (if s = '''' then Some '''' else pe_cidr e s)"

text \<open>\<^verbatim>\<open>host()\<close>: the address without the prefix length.\<close>

definition pg_host :: "string \<Rightarrow> string" where
  "pg_host s = takeWhile (\<lambda>c. c \<noteq> CHR ''/'') s"

section \<open>Security groups\<close>

definition UpsertSecurityGroup :: "pg_env \<Rightarrow> SecurityGroupRow \<Rightarrow> uuid flow_op" where
  "UpsertSecurityGroup e sg db =
     (if sg_CloudAccountID sg \<notin> set (fd_accounts db) then (Inl InvOther, db)
      else case find (\<lambda>r. sg_CloudAccountID r = sg_CloudAccountID sg \<and> sg_ProviderSGID r = sg_ProviderSGID sg) (fd_sgs db) of
             Some old \<Rightarrow>
               (Inr (sg_ID old),
                db\<lparr>fd_sgs := map (\<lambda>r. if sg_ID r = sg_ID old
                                      then r\<lparr>sg_Name := sg_Name sg, sg_VPCID := sg_VPCID sg, sg_Tags := sg_Tags sg\<rparr> else r) (fd_sgs db)\<rparr>)
           | None \<Rightarrow> (Inr (pe_id e 0), db\<lparr>fd_sgs := fd_sgs db @ [sg\<lparr>sg_ID := pe_id e 0\<rparr>]\<rparr>))"

definition GetSecurityGroup :: "uuid \<Rightarrow> SecurityGroupRow flow_op" where
  "GetSecurityGroup i db =
     (case find (\<lambda>r. sg_ID r = i) (fd_sgs db) of None \<Rightarrow> (Inl InvNotFound, db) | Some sg \<Rightarrow> (Inr sg, db))"

definition GetSecurityGroupByProviderID :: "uuid \<Rightarrow> string \<Rightarrow> SecurityGroupRow flow_op" where
  "GetSecurityGroupByProviderID acct psg db =
     (case find (\<lambda>r. sg_CloudAccountID r = acct \<and> sg_ProviderSGID r = psg) (fd_sgs db) of
        None \<Rightarrow> (Inl InvNotFound, db) | Some sg \<Rightarrow> (Inr sg, db))"

definition sg_rule_row :: "pg_env \<Rightarrow> uuid \<Rightarrow> nat \<Rightarrow> SecurityGroupRuleRow \<Rightarrow> SecurityGroupRuleRow option" where
  "sg_rule_row e sgID k r =
     (if ru_Direction r \<in> {''ingress'', ''egress''} \<and>
         ru_PeerKind r \<in> {''cidr'', ''sg_ref'', ''prefix_list_ref'', ''self''} \<and> int4_ok (ru_FromPort r) \<and> int4_ok (ru_ToPort r)
      then map_option (\<lambda>c. r\<lparr>ru_ID := pe_id e k, ru_SecurityGroupID := sgID, ru_PeerCIDR := c\<rparr>) (cidr_column e (ru_PeerCIDR r))
      else None)"

text \<open>The loop of inserts of a transaction: the first row that a constraint refuses fails all of them.\<close>

fun insert_rows :: "(nat \<Rightarrow> 'a \<Rightarrow> 'b option) \<Rightarrow> nat \<Rightarrow> 'a list \<Rightarrow> 'b list option" where
  "insert_rows f k [] = Some []"
| "insert_rows f k (x # xs) =
     (case f k x of
        None \<Rightarrow> None
      | Some y \<Rightarrow> map_option ((#) y) (insert_rows f (Suc k) xs))"

definition ReplaceSecurityGroupRules :: "pg_env \<Rightarrow> uuid \<Rightarrow> SecurityGroupRuleRow list \<Rightarrow> unit flow_op" where
  "ReplaceSecurityGroupRules e sgID rules db =
     (if rules \<noteq> [] \<and> \<not> list_ex (\<lambda>r. sg_ID r = sgID) (fd_sgs db) then (Inl InvOther, db)
      else case insert_rows (sg_rule_row e sgID) 1 rules of
             None \<Rightarrow> (Inl InvOther, db)
           | Some new \<Rightarrow> (Inr (), db\<lparr>fd_sg_rules := filter (\<lambda>r. ru_SecurityGroupID r \<noteq> sgID) (fd_sg_rules db) @ new\<rparr>))"

definition ListSecurityGroupRules :: "uuid \<Rightarrow> SecurityGroupRuleRow list flow_op" where
  "ListSecurityGroupRules sgID db =
     (Inr (sort_key ru_ID (filter (\<lambda>r. ru_SecurityGroupID r = sgID) (fd_sg_rules db))), db)"

definition SweepSecurityGroupsByAccount :: "uuid \<Rightarrow> string list \<Rightarrow> unit flow_op" where
  "SweepSecurityGroupsByAccount acct seen db =
     (let gone = (\<lambda>r. sg_CloudAccountID r = acct \<and> sg_ProviderSGID r \<notin> set seen);
          ids = map sg_ID (filter gone (fd_sgs db))
      in (Inr (), db\<lparr>fd_sgs := filter (\<lambda>r. \<not> gone r) (fd_sgs db),
                      fd_sg_rules := filter (\<lambda>r. ru_SecurityGroupID r \<notin> set ids) (fd_sg_rules db)\<rparr>))"

section \<open>Attachments\<close>

definition UpsertVMSecurityGroupAttachment :: "VMSecurityGroupAttachment \<Rightarrow> unit flow_op" where
  "UpsertVMSecurityGroupAttachment a db =
     (if va_CloudAccountID a \<notin> set (fd_accounts db) then (Inl InvOther, db)
      else if a \<in> set (fd_attachments db) then (Inr (), db)
      else (Inr (), db\<lparr>fd_attachments := fd_attachments db @ [a]\<rparr>))"

definition SweepVMSecurityGroupAttachments :: "uuid \<Rightarrow> VMSecurityGroupAttachment list \<Rightarrow> unit flow_op" where
  "SweepVMSecurityGroupAttachments acct seen db =
     (if seen = [] then (Inr (), db\<lparr>fd_attachments := filter (\<lambda>a. va_CloudAccountID a \<noteq> acct) (fd_attachments db)\<rparr>)
      else let pairs = map (\<lambda>s. (va_ProviderVMID s, va_ProviderSGID s)) seen in
        (Inr (), db\<lparr>fd_attachments := filter (\<lambda>a. \<not> (va_CloudAccountID a = acct \<and>
                        (va_ProviderVMID a, va_ProviderSGID a) \<notin> set pairs)) (fd_attachments db)\<rparr>))"

text \<open>\<^verbatim>\<open>n.provider_id LIKE '%' || escaped || '%'\<close>; a NULL provider id does not match.\<close>

definition node_vm_match :: "node_row \<Rightarrow> string \<Rightarrow> bool" where
  "node_vm_match n vm =
     (case nt_provider_id (noc_text (en_obs n)) of
        None \<Rightarrow> False
      | Some p \<Rightarrow> like (''%'' @ escapeLike vm @ ''%'') p)"

definition PerimeterSecurityGroupsForCluster :: "pg_env \<Rightarrow> uuid \<Rightarrow> SecurityGroupRow list flow_op" where
  "PerimeterSecurityGroupsForCluster e cid db =
     (Inr (order_by (pe_text_le e) sg_Name (remdups
        (filter (\<lambda>sg. list_ex (\<lambda>a. va_CloudAccountID a = sg_CloudAccountID sg \<and> va_ProviderSGID a = sg_ProviderSGID sg \<and>
                          list_ex (\<lambda>n. en_parent n = cid \<and> node_vm_match n (va_ProviderVMID a)) (fd_nodes db)) (fd_attachments db))
           (fd_sgs db)))), db)"

section \<open>Network policies\<close>

definition GetNetworkPolicy :: "uuid \<Rightarrow> NetworkPolicyRow flow_op" where
  "GetNetworkPolicy i db =
     (case find (\<lambda>r. np_ID (fst r) = i) (fd_policies db) of None \<Rightarrow> (Inl InvNotFound, db) | Some r \<Rightarrow> (Inr (fst r), db))"

definition policy_key :: "NetworkPolicyRow \<Rightarrow> uuid \<times> uuid \<times> string" where
  "policy_key p = (np_ClusterID p, np_NamespaceID p, np_Name p)"

definition NetworkPolicyExists :: "uuid \<Rightarrow> uuid \<Rightarrow> string \<Rightarrow> bool flow_op" where
  "NetworkPolicyExists cid nsid name db = (Inr (list_ex (\<lambda>r. policy_key (fst r) = (cid, nsid, name)) (fd_policies db)), db)"

definition upsertNetworkPolicyTx :: "pg_env \<Rightarrow> NetworkPolicyRow \<Rightarrow> uuid flow_op" where
  "upsertNetworkPolicyTx e p db =
     (if np_ClusterID p \<notin> set (fd_clusters db) \<or> np_NamespaceID p \<notin> set (fd_namespaces db) then (Inl InvOther, db)
      else case find (\<lambda>r. policy_key (fst r) = policy_key p) (fd_policies db) of
             Some old \<Rightarrow>
               (Inr (np_ID (fst old)),
                db\<lparr>fd_policies := map (\<lambda>r. if np_ID (fst r) = np_ID (fst old)
                                            then (p\<lparr>np_ID := np_ID (fst old)\<rparr>, pe_NOW e) else r) (fd_policies db)\<rparr>)
           | None \<Rightarrow> (Inr (pe_id e 0), db\<lparr>fd_policies := fd_policies db @ [(p\<lparr>np_ID := pe_id e 0\<rparr>, pe_NOW e)]\<rparr>))"

text \<open>\<open>ports\<close> is NOT NULL: a nil \<^verbatim>\<open>Ports\<close> is refused.\<close>

definition policy_rule_row :: "pg_env \<Rightarrow> uuid \<Rightarrow> nat \<Rightarrow> NetworkPolicyRuleRow \<Rightarrow> NetworkPolicyRuleRow option" where
  "policy_rule_row e pid k r =
     (if pr_Direction r \<in> {''ingress'', ''egress''} \<and> pr_PeerKind r \<in> {''selector'', ''ip_block''} \<and> pr_Ports r \<noteq> None
      then map_option (\<lambda>c. r\<lparr>pr_ID := pe_id e k, pr_NetworkPolicyID := pid, pr_PeerIPBlockCIDR := c\<rparr>)
             (cidr_column e (pr_PeerIPBlockCIDR r))
      else None)"

definition replaceNetworkPolicyRulesTx :: "pg_env \<Rightarrow> uuid \<Rightarrow> NetworkPolicyRuleRow list \<Rightarrow> unit flow_op" where
  "replaceNetworkPolicyRulesTx e pid rules db =
     (case insert_rows (policy_rule_row e pid) 1 rules of
        None \<Rightarrow> (Inl InvOther, db)
      | Some new \<Rightarrow> (Inr (), db\<lparr>fd_policy_rules := filter (\<lambda>r. pr_NetworkPolicyID r \<noteq> pid) (fd_policy_rules db) @ new\<rparr>))"

definition UpsertNetworkPolicy :: "pg_env \<Rightarrow> NetworkPolicyRow \<Rightarrow> NetworkPolicyRuleRow list \<Rightarrow> uuid flow_op" where
  "UpsertNetworkPolicy e p rules db =
     (case upsertNetworkPolicyTx e p db of
        (Inl err, _) \<Rightarrow> (Inl err, db)
      | (Inr pid, db1) \<Rightarrow>
          (case replaceNetworkPolicyRulesTx e pid rules db1 of
             (Inl err, _) \<Rightarrow> (Inl err, db)
           | (Inr _, db2) \<Rightarrow> (Inr pid, db2)))"

text \<open>The rules of a policy as the query returns them: \<^verbatim>\<open>host(peer_ip_block_cidr)\<close>.\<close>

definition ListNetworkPolicyRules :: "uuid \<Rightarrow> NetworkPolicyRuleRow list flow_op" where
  "ListNetworkPolicyRules pid db =
     (Inr (map (\<lambda>r. r\<lparr>pr_PeerIPBlockCIDR := pg_host (pr_PeerIPBlockCIDR r)\<rparr>)
             (sort_key pr_ID (filter (\<lambda>r. pr_NetworkPolicyID r = pid) (fd_policy_rules db)))), db)"

definition delete_policies :: "(NetworkPolicyRow \<Rightarrow> bool) \<Rightarrow> flow_db \<Rightarrow> flow_db" where
  "delete_policies gone db =
     (let ids = map (np_ID \<circ> fst) (filter (gone \<circ> fst) (fd_policies db))
      in db\<lparr>fd_policies := filter (\<lambda>r. \<not> gone (fst r)) (fd_policies db),
             fd_policy_rules := filter (\<lambda>r. pr_NetworkPolicyID r \<notin> set ids) (fd_policy_rules db)\<rparr>)"

definition SweepNetworkPoliciesByNamespace :: "uuid \<Rightarrow> string list \<Rightarrow> unit flow_op" where
  "SweepNetworkPoliciesByNamespace nsid seen db =
     (Inr (), delete_policies (\<lambda>p. np_NamespaceID p = nsid \<and> np_Name p \<notin> set seen) db)"

definition SweepNetworkPoliciesByNamespaceWithCount :: "uuid \<Rightarrow> string list \<Rightarrow> nat flow_op" where
  "SweepNetworkPoliciesByNamespaceWithCount nsid keep db =
     (let gone = (if keep = [] then (\<lambda>p. np_NamespaceID p = nsid)
                  else (\<lambda>p. np_NamespaceID p = nsid \<and> np_Name p \<notin> set keep))
      in (Inr (length (filter (gone \<circ> fst) (fd_policies db))), delete_policies gone db))"

text \<open>JSONB containment \<^verbatim>\<open>a @> b\<close>: every member of \<open>b\<close> occurs in \<open>a\<close>, values compared by containment; a scalar contains an equal
  scalar. \<open>member\<close> is \<^verbatim>\<open>->\<close> on an object.\<close>

definition json_member :: "json \<Rightarrow> string \<Rightarrow> json option" where
  "json_member j k = (case j of JObj kvs \<Rightarrow> map_of kvs k | _ \<Rightarrow> None)"

function (sequential) jsonb_contains :: "json \<Rightarrow> json \<Rightarrow> bool" where
  "jsonb_contains (JObj a) (JObj b) =
     list_all (\<lambda>(k, v). case map_of a k of None \<Rightarrow> False | Some w \<Rightarrow> jsonb_contains w v) b"
| "jsonb_contains (JArr a) (JArr b) = list_all (\<lambda>v. list_ex (\<lambda>w. jsonb_contains w v) a) b"
| "jsonb_contains a b = (a = b)"
  by pat_completeness auto
termination
proof (relation "measure (\<lambda>(a, b). size b)", goal_cases)
  case (2 a b z k v w)
  then have "(k, v) \<in> set b" by simp
  then have "size_prod (\<lambda>_. 0) size (k, v) \<le> size_list (size_prod (\<lambda>_. 0) size) b"
    by (rule size_list_estimation') simp
  then show ?case by simp
next
  case (3 a b v w)
  then have "size v \<le> size_list size b" by (auto intro: size_list_estimation')
  then show ?case by simp
qed simp

text \<open>The query of \<^verbatim>\<open>ListNetworkPoliciesForWorkload\<close>, ordered by name.\<close>

definition policy_listed :: "json \<Rightarrow> NetworkPolicyRow \<Rightarrow> bool" where
  "policy_listed labels p =
     (np_PodSelector p = JObj [] \<or>
      (case json_member (np_PodSelector p) ''matchLabels'' of
         None \<Rightarrow> True
       | Some m \<Rightarrow> jsonb_contains m labels))"

definition ListNetworkPoliciesForWorkload :: "pg_env \<Rightarrow> uuid \<Rightarrow> json \<Rightarrow> NetworkPolicyRow list flow_op" where
  "ListNetworkPoliciesForWorkload e nsid labels db =
     (Inr (order_by (pe_text_le e) np_Name
        (filter (\<lambda>p. np_NamespaceID p = nsid \<and> policy_listed labels p) (map fst (fd_policies db)))), db)"

text \<open>The first page of \<^verbatim>\<open>ListNetworkPoliciesByCluster\<close> in its default order, newest first; \<open>limit\<close> is clamped to 500.\<close>

definition ListNetworkPoliciesByCluster_first :: "uuid \<Rightarrow> int \<Rightarrow> NetworkPolicyRow list flow_op" where
  "ListNetworkPoliciesByCluster_first cid limit db =
     (Inr (take (nat (clampLimit limit 500))
        (map fst (rev (sort_key (\<lambda>r. (snd r, np_ID (fst r))) (filter (\<lambda>r. np_ClusterID (fst r) = cid) (fd_policies db)))))), db)"

section \<open>Endpoint groups\<close>

definition ListEndpointGroups :: "pg_env \<Rightarrow> EndpointGroup list flow_op" where
  "ListEndpointGroups e db =
     (Inr (map (\<lambda>g. g\<lparr>eg_CIDRs := order_by (pe_cidr_le e) (\<lambda>c. c) (eg_CIDRs g)\<rparr>) (order_by (pe_text_le e) eg_Name (fd_groups db))), db)"

definition GetEndpointGroup :: "pg_env \<Rightarrow> uuid \<Rightarrow> EndpointGroup flow_op" where
  "GetEndpointGroup e i db =
     (case find (\<lambda>g. eg_ID g = i) (fd_groups db) of
        None \<Rightarrow> (Inl InvNotFound, db)
      | Some g \<Rightarrow> (Inr (g\<lparr>eg_CIDRs := order_by (pe_cidr_le e) (\<lambda>c. c) (eg_CIDRs g)\<rparr>), db))"

text \<open>The inserts into \<^verbatim>\<open>endpoint_group_cidrs\<close>: each must be a CIDR, and no value may come twice.\<close>

definition group_cidrs :: "pg_env \<Rightarrow> string list \<Rightarrow> string list option" where
  "group_cidrs e cs =
     (case insert_rows (\<lambda>_ c. pe_cidr e c) 0 cs of
        None \<Rightarrow> None
      | Some vs \<Rightarrow> if distinct vs then Some vs else None)"

definition CreateEndpointGroup :: "pg_env \<Rightarrow> EndpointGroupInput \<Rightarrow> uuid option \<Rightarrow> EndpointGroup flow_op" where
  "CreateEndpointGroup e inp creator db =
     (if list_ex (\<lambda>g. eg_Name g = gi_Name inp) (fd_groups db) then (Inl InvConflict, db)
      else case group_cidrs e (gi_CIDRs inp) of
             None \<Rightarrow> (Inl InvOther, db)
           | Some cs \<Rightarrow>
               GetEndpointGroup e (pe_id e 0)
                 (db\<lparr>fd_groups := fd_groups db @
                     [\<lparr>eg_ID = pe_id e 0, eg_Name = gi_Name inp, eg_Notes = gi_Notes inp, eg_CIDRs = cs, eg_CreatedBy = creator,
                       eg_CreatedAt = pe_NOW e, eg_UpdatedAt = pe_NOW e\<rparr>]\<rparr>))"

definition UpdateEndpointGroup :: "pg_env \<Rightarrow> uuid \<Rightarrow> EndpointGroupInput \<Rightarrow> EndpointGroup flow_op" where
  "UpdateEndpointGroup e i inp db =
     (if \<not> list_ex (\<lambda>g. eg_ID g = i) (fd_groups db) then (Inl InvNotFound, db)
      else if list_ex (\<lambda>g. eg_ID g \<noteq> i \<and> eg_Name g = gi_Name inp) (fd_groups db) then (Inl InvConflict, db)
      else case group_cidrs e (gi_CIDRs inp) of
             None \<Rightarrow> (Inl InvOther, db)
           | Some cs \<Rightarrow>
               GetEndpointGroup e i
                 (db\<lparr>fd_groups := map (\<lambda>g. if eg_ID g = i
                       then g\<lparr>eg_Name := gi_Name inp, eg_Notes := gi_Notes inp, eg_CIDRs := cs, eg_UpdatedAt := pe_NOW e\<rparr> else g)
                     (fd_groups db)\<rparr>))"

definition DeleteEndpointGroup :: "uuid \<Rightarrow> unit flow_op" where
  "DeleteEndpointGroup i db =
     (if list_ex (\<lambda>g. eg_ID g = i) (fd_groups db)
      then (Inr (), db\<lparr>fd_groups := filter (\<lambda>g. eg_ID g \<noteq> i) (fd_groups db)\<rparr>)
      else (Inl InvNotFound, db))"

section \<open>Flow references\<close>

definition ref_row_ok :: "FlowReferenceInput \<Rightarrow> bool" where
  "ref_row_ok inp \<longleftrightarrow>
     fr_Layer inp \<in> {''perimeter'', ''internal''} \<and> fr_Direction inp \<in> {''ingress'', ''egress''} \<and>
     fr_SrcKind inp \<in> {''workload'', ''service'', ''namespace'', ''endpoint_group''} \<and>
     fr_DstKind inp \<in> {''workload'', ''service'', ''namespace'', ''endpoint_group''} \<and>
     fr_Protocol inp \<in> {''tcp'', ''udp'', ''icmp'', ''any''} \<and> int4_ok (fr_FromPort inp) \<and> int4_ok (fr_ToPort inp)"

text \<open>\<^verbatim>\<open>ORDER BY layer, direction, src_ref, dst_ref\<close>: four stable sorts, the least significant first.\<close>

definition order_refs :: "pg_env \<Rightarrow> FlowReference list \<Rightarrow> FlowReference list" where
  "order_refs e rs =
     order_by (pe_text_le e) (fr_Layer \<circ> fx_Input) (order_by (pe_text_le e) (fr_Direction \<circ> fx_Input)
       (order_by (pe_text_le e) (fr_SrcRef \<circ> fx_Input) (order_by (pe_text_le e) (fr_DstRef \<circ> fx_Input) rs)))"

definition ListFlowReferences :: "pg_env \<Rightarrow> uuid \<Rightarrow> FlowReference list flow_op" where
  "ListFlowReferences e cid db = (Inr (order_refs e (filter (\<lambda>r. fx_ClusterID r = cid) (fd_refs db))), db)"

definition new_reference :: "pg_env \<Rightarrow> uuid \<Rightarrow> uuid option \<Rightarrow> nat \<Rightarrow> FlowReferenceInput \<Rightarrow> FlowReference option" where
  "new_reference e cid creator k inp =
     (if ref_row_ok inp
      then Some \<lparr>fx_ID = pe_id e k, fx_ClusterID = cid, fx_Input = inp, fx_CreatedBy = creator, fx_CreatedAt = pe_NOW e, fx_UpdatedAt = pe_NOW e\<rparr>
      else None)"

definition CreateFlowReference :: "pg_env \<Rightarrow> uuid \<Rightarrow> FlowReferenceInput \<Rightarrow> uuid option \<Rightarrow> FlowReference flow_op" where
  "CreateFlowReference e cid inp creator db =
     (if cid \<notin> set (fd_clusters db) then (Inl InvOther, db)
      else case new_reference e cid creator 0 inp of
             None \<Rightarrow> (Inl InvOther, db)
           | Some r \<Rightarrow> (Inr r, db\<lparr>fd_refs := fd_refs db @ [r]\<rparr>))"

definition UpdateFlowReference :: "pg_env \<Rightarrow> uuid \<Rightarrow> FlowReferenceInput \<Rightarrow> FlowReference flow_op" where
  "UpdateFlowReference e i inp db =
     (case find (\<lambda>r. fx_ID r = i) (fd_refs db) of
        None \<Rightarrow> (Inl InvNotFound, db)
      | Some r \<Rightarrow>
          if \<not> ref_row_ok inp then (Inl InvOther, db)
          else let r' = r\<lparr>fx_Input := inp, fx_UpdatedAt := pe_NOW e\<rparr>
               in (Inr r', db\<lparr>fd_refs := map (\<lambda>x. if fx_ID x = i then r' else x) (fd_refs db)\<rparr>))"

definition DeleteFlowReference :: "uuid \<Rightarrow> unit flow_op" where
  "DeleteFlowReference i db =
     (if list_ex (\<lambda>r. fx_ID r = i) (fd_refs db)
      then (Inr (), db\<lparr>fd_refs := filter (\<lambda>r. fx_ID r \<noteq> i) (fd_refs db)\<rparr>)
      else (Inl InvNotFound, db))"

definition ReplaceFlowReferences ::
    "pg_env \<Rightarrow> uuid \<Rightarrow> FlowReferenceInput list \<Rightarrow> uuid option \<Rightarrow> FlowReference list flow_op" where
  "ReplaceFlowReferences e cid ins creator db =
     (if ins \<noteq> [] \<and> cid \<notin> set (fd_clusters db) then (Inl InvOther, db)
      else case insert_rows (new_reference e cid creator) 0 ins of
             None \<Rightarrow> (Inl InvOther, db)
           | Some rs \<Rightarrow> ListFlowReferences e cid (db\<lparr>fd_refs := filter (\<lambda>r. fx_ClusterID r \<noteq> cid) (fd_refs db) @ rs\<rparr>))"

text \<open>The marker of \<^verbatim>\<open>flow_drift_seen\<close>: the answer says whether to emit.\<close>

definition RecordFlowDriftSeen :: "pg_env \<Rightarrow> uuid \<Rightarrow> string \<Rightarrow> duration \<Rightarrow> bool flow_op" where
  "RecordFlowDriftSeen e cid key within db =
     (if cid \<notin> set (fd_clusters db) then (Inl InvOther, db)
      else case map_of (fd_drift db) (cid, key) of
             None \<Rightarrow> (Inr True, db\<lparr>fd_drift := AList.update (cid, key) (pe_NOW e) (fd_drift db)\<rparr>)
           | Some seen_at \<Rightarrow>
               if seen_at < pe_NOW e - within
               then (Inr True, db\<lparr>fd_drift := AList.update (cid, key) (pe_NOW e) (fd_drift db)\<rparr>)
               else (Inr False, db))"

definition ListClustersWithFlowReferences :: "uuid list flow_op" where
  "ListClustersWithFlowReferences db = (Inr (sort (remdups (map fx_ClusterID (fd_refs db)))), db)"

section \<open>Settings\<close>

definition GetSettings :: "Settings flow_op" where
  "GetSettings db = (Inr (fd_settings db), db)"

definition patched :: "'a option \<Rightarrow> 'a \<Rightarrow> 'a" where
  "patched p v = (case p of None \<Rightarrow> v | Some w \<Rightarrow> w)"

definition UpdateSettings :: "time \<Rightarrow> SettingsPatch \<Rightarrow> Settings flow_op" where
  "UpdateSettings now p db =
     (if sp_EOLEnabled p = None \<and> sp_MCPEnabled p = None \<and> sp_TimeTravelEnabled p = None \<and> sp_TimeTravelRetentionDays p = None \<and>
         sp_TimeTravelReaperEnabled p = None \<and> sp_ImageVersionsEnabled p = None \<and> sp_FlowMatrixEnabled p = None \<and>
         sp_ClusterStaleAfterDays p = None \<and> sp_KubeNodeVMGraceHours p = None \<and> sp_PoliciesEnabled p = None
      then GetSettings db
      else if \<not> (int4_ok (sp_TimeTravelRetentionDays p) \<and> int4_ok (sp_ClusterStaleAfterDays p) \<and> int4_ok (sp_KubeNodeVMGraceHours p))
      then (Inl InvOther, db)
      else let s = fd_settings db in
        GetSettings (db\<lparr>fd_settings :=
          \<lparr>se_EOLEnabled = patched (sp_EOLEnabled p) (se_EOLEnabled s), se_MCPEnabled = patched (sp_MCPEnabled p) (se_MCPEnabled s),
           se_TimeTravelEnabled = patched (sp_TimeTravelEnabled p) (se_TimeTravelEnabled s),
           se_TimeTravelRetentionDays = patched (sp_TimeTravelRetentionDays p) (se_TimeTravelRetentionDays s),
           se_TimeTravelReaperEnabled = patched (sp_TimeTravelReaperEnabled p) (se_TimeTravelReaperEnabled s),
           se_ImageVersionsEnabled = patched (sp_ImageVersionsEnabled p) (se_ImageVersionsEnabled s),
           se_FlowMatrixEnabled = patched (sp_FlowMatrixEnabled p) (se_FlowMatrixEnabled s),
           se_ClusterStaleAfterDays = patched (sp_ClusterStaleAfterDays p) (se_ClusterStaleAfterDays s),
           se_KubeNodeVMGraceHours = patched (sp_KubeNodeVMGraceHours p) (se_KubeNodeVMGraceHours s),
           se_PoliciesEnabled = patched (sp_PoliciesEnabled p) (se_PoliciesEnabled s), se_UpdatedAt = now\<rparr>\<rparr>))"

section \<open>Lemmas\<close>

lemma set_insert_by [simp]: "set (insert_by le key x xs) = insert x (set xs)"
  by (induction xs) auto

lemma set_order_by [simp]: "set (order_by le key xs) = set xs"
  by (induction xs) (simp_all add: order_by_def)

lemma mset_insert_by: "mset (insert_by le key x xs) = add_mset x (mset xs)"
  by (induction xs) auto

lemma mset_order_by [simp]: "mset (order_by le key xs) = mset xs"
  by (induction xs) (simp_all add: order_by_def mset_insert_by)

lemma mset_order_refs [simp]: "mset (order_refs e rs) = mset rs"
  by (simp add: order_refs_def)

lemma set_order_refs [simp]: "set (order_refs e rs) = set rs"
  by (simp add: order_refs_def)

lemma insert_rows_map:
  "insert_rows f k xs = Some ys \<Longrightarrow> length ys = length xs \<and> (\<forall>i<length xs. f (k + i) (xs ! i) = Some (ys ! i))"
proof (induction xs arbitrary: k ys)
  case (Cons x xs)
  then obtain y zs where "f k x = Some y" "insert_rows f (Suc k) xs = Some zs" "ys = y # zs"
    by (auto split: option.splits)
  with Cons.IH [of "Suc k" zs] show ?case by (auto simp: nth_Cons' less_Suc_eq_0_disj)
qed simp

lemma insert_rows_set:
  assumes "insert_rows f k xs = Some ys" "y \<in> set ys"
  obtains i x where "x \<in> set xs" "f i x = Some y"
  using insert_rows_map [OF assms(1)] assms(2) by (metis in_set_conv_nth nth_mem)

definition label_object :: "(string \<times> string) list \<Rightarrow> json" where
  "label_object kvs = JObj (map (\<lambda>(k, v). (k, JStr v)) kvs)"

lemma label_object_contains:
  assumes "distinct (map fst a)"
  shows "jsonb_contains (label_object a) (label_object b) \<longleftrightarrow> set b \<subseteq> set a"
proof -
  have "map_of (map (\<lambda>(k, v). (k, JStr v)) a) k = map_option JStr (map_of a k)" for k
    by (induction a) auto
  then have "(case map_of (map (\<lambda>(k, v). (k, JStr v)) a) k of None \<Rightarrow> False | Some w \<Rightarrow> jsonb_contains w (JStr v)) \<longleftrightarrow> (k, v) \<in> set a" for k v
    using map_of_eq_Some_iff [OF assms, of k v] by (cases "map_of a k") auto
  then show ?thesis by (auto simp: label_object_def list_all_iff)
qed

section \<open>Properties\<close>

text \<open>Workload policies, error behaviour. A policy whose label selector requires a proper part of the labels of a workload, and so selects it,
  is not among the policies that the store lists for the workload: the containment is tested the wrong way round.\<close>

theorem selecting_policy_not_listed:
  assumes "np_PodSelector p = JObj [(''matchLabels'', label_object m)]" "distinct (map fst m)"
    and "set m \<subset> set labels" and "ListNetworkPoliciesForWorkload e nsid (label_object labels) db = (Inr ps, db')"
  shows "p \<notin> set ps"
proof -
  have "\<not> policy_listed (label_object labels) p"
    using assms(1-3) label_object_contains [OF assms(2), of labels] by (auto simp: policy_listed_def json_member_def)
  with assms(4) show ?thesis by (auto simp: ListNetworkPoliciesForWorkload_def)
qed

definition sample_flow_db :: flow_db where
  "sample_flow_db =
     \<lparr>fd_sgs = [], fd_sg_rules = [], fd_attachments = [], fd_policies = [], fd_policy_rules = [], fd_groups = [], fd_refs = [],
      fd_drift = [], fd_audit = [],
      fd_settings = \<lparr>se_EOLEnabled = False, se_MCPEnabled = False, se_TimeTravelEnabled = False, se_TimeTravelRetentionDays = 0,
         se_TimeTravelReaperEnabled = False, se_ImageVersionsEnabled = False, se_FlowMatrixEnabled = True,
         se_ClusterStaleAfterDays = 0, se_KubeNodeVMGraceHours = 0, se_PoliciesEnabled = False, se_UpdatedAt = 0\<rparr>,
      fd_nodes = [], fd_clusters = [1], fd_accounts = [2], fd_namespaces = [3]\<rparr>"

text \<open>A \<open>cidr\<close> input that accepts every text, with byte-wise orders by length.\<close>

definition sample_pg :: pg_env where
  "sample_pg = \<lparr>pe_NOW = 100 * hour, pe_id = (\<lambda>n. of_nat (10 + n)), pe_cidr = Some, pe_cidr_le = (\<lambda>a b. length a \<le> length b),
                pe_text_le = (\<lambda>a b. length a \<le> length b)\<rparr>"

definition sample_policy :: "(string \<times> string) list \<Rightarrow> NetworkPolicyRow" where
  "sample_policy m = \<lparr>np_ID = 0, np_ClusterID = 1, np_NamespaceID = 3, np_Name = ''web'',
     np_PodSelector = JObj [(''matchLabels'', label_object m)], np_PolicyTypes = [''Ingress''], np_SpecRaw = JObj []\<rparr>"

definition sample_ip_rule :: NetworkPolicyRuleRow where
  "sample_ip_rule = \<lparr>pr_ID = 0, pr_NetworkPolicyID = 0, pr_Direction = ''ingress'', pr_PeerKind = ''ip_block'', pr_PeerPodSelector = None,
     pr_PeerNamespaceSelector = None, pr_PeerIPBlockCIDR = ''10.0.0.0/8'', pr_PeerIPBlockExcept = None, pr_Ports = Some (JArr [])\<rparr>"

definition policy_db :: flow_db where
  "policy_db = snd (UpsertNetworkPolicy sample_pg (sample_policy [(''app'', ''web'')]) [sample_ip_rule] sample_flow_db)"

theorem selecting_policy_not_listed_witness:
  "let p = (sample_policy [(''app'', ''web'')])\<lparr>np_ID := 10\<rparr>; labels = [(''app'', ''web''), (''tier'', ''front'')]
   in map fst (fd_policies policy_db) = [p] \<and> set [(''app'', ''web'')] \<subset> set labels \<and>
      p \<notin> set (projr (fst (ListNetworkPoliciesForWorkload sample_pg 3 (label_object labels) policy_db)))"
proof -
  let ?p = "(sample_policy [(''app'', ''web'')])\<lparr>np_ID := 10\<rparr>" and ?l = "[(''app'', ''web''), (''tier'', ''front'')]"
  obtain ps db' where r: "ListNetworkPoliciesForWorkload sample_pg 3 (label_object ?l) policy_db = (Inr ps, db')"
    by (simp add: ListNetworkPoliciesForWorkload_def)
  have sub: "set [(''app'', ''web'')] \<subset> set ?l" by auto
  have sel: "np_PodSelector ?p = JObj [(''matchLabels'', label_object [(''app'', ''web'')])]" by (simp add: sample_policy_def)
  have "?p \<notin> set ps" by (rule selecting_policy_not_listed [OF sel _ sub r]) simp
  moreover have "map fst (fd_policies policy_db) = [?p]" by code_simp
  ultimately show ?thesis using r sub by (simp add: Let_def)
qed

text \<open>Network policies, round trip. The rules that an upsert stores come back as they were written, under new ids and in the order of the
  ids, except for the peer address block: the query returns its address without the prefix length.\<close>

theorem policy_rules_lose_mask:
  assumes "UpsertNetworkPolicy e p rules db = (Inr pid, db')"
    and "\<And>s v. pe_cidr e s = Some v \<Longrightarrow> v = s" and "sorted_wrt (<) (map (\<lambda>i. pe_id e i) [1..<Suc (length rules)])"
  shows "\<exists>back. ListNetworkPolicyRules pid db' = (Inr back, db') \<and>
    map (\<lambda>r. r\<lparr>pr_ID := 0, pr_NetworkPolicyID := 0\<rparr>) back =
    map (\<lambda>r. r\<lparr>pr_ID := 0, pr_NetworkPolicyID := 0, pr_PeerIPBlockCIDR := pg_host (pr_PeerIPBlockCIDR r)\<rparr>) rules"
proof -
  obtain db1 where "replaceNetworkPolicyRulesTx e pid rules db1 = (Inr (), db')"
    using assms(1) by (auto simp: UpsertNetworkPolicy_def split: prod.splits sum.splits)
  then obtain new where new: "insert_rows (policy_rule_row e pid) 1 rules = Some new"
    and db': "fd_policy_rules db' = filter (\<lambda>r. pr_NetworkPolicyID r \<noteq> pid) (fd_policy_rules db1) @ new"
    by (auto simp: replaceNetworkPolicyRulesTx_def split: option.splits)
  have len: "length new = length rules"
    and row: "\<And>i. i < length rules \<Longrightarrow> new ! i = (rules ! i)\<lparr>pr_ID := pe_id e (Suc i), pr_NetworkPolicyID := pid\<rparr>"
  proof -
    show "length new = length rules" using insert_rows_map [OF new] by simp
    fix i assume "i < length rules"
    then have "policy_rule_row e pid (Suc i) (rules ! i) = Some (new ! i)" using insert_rows_map [OF new] by simp
    moreover have "cidr_column e s = Some v \<Longrightarrow> v = s" for s v
      using assms(2) by (auto simp: cidr_column_def split: if_splits)
    ultimately show "new ! i = (rules ! i)\<lparr>pr_ID := pe_id e (Suc i), pr_NetworkPolicyID := pid\<rparr>"
      by (fastforce simp: policy_rule_row_def split: if_splits)
  qed
  have "map pr_ID new = map (\<lambda>i. pe_id e i) [1..<Suc (length rules)]"
    by (rule nth_equalityI) (simp_all add: len row del: upt_Suc)
  with assms(3) have "sorted (map pr_ID new)" by (simp add: strict_sorted_imp_sorted)
  moreover have "filter (\<lambda>r. pr_NetworkPolicyID r = pid) (fd_policy_rules db') = new"
    unfolding db' by (auto simp: in_set_conv_nth len row intro!: filter_True)
  ultimately have "ListNetworkPolicyRules pid db' =
      (Inr (map (\<lambda>r. r\<lparr>pr_PeerIPBlockCIDR := pg_host (pr_PeerIPBlockCIDR r)\<rparr>) new), db')"
    by (simp add: ListNetworkPolicyRules_def sorted_sort_id sort_key_id_if_sorted)
  then show ?thesis by (auto intro!: nth_equalityI simp: len row)
qed

theorem policy_rules_lose_mask_witness:
  "(\<exists>back. ListNetworkPolicyRules 10 policy_db = (Inr back, policy_db) \<and>
     map (\<lambda>r. r\<lparr>pr_ID := 0, pr_NetworkPolicyID := 0\<rparr>) back = [sample_ip_rule\<lparr>pr_PeerIPBlockCIDR := ''10.0.0.0''\<rparr>])"
proof -
  have "UpsertNetworkPolicy sample_pg (sample_policy [(''app'', ''web'')]) [sample_ip_rule] sample_flow_db = (Inr 10, policy_db)"
    unfolding policy_db_def by code_simp
  from policy_rules_lose_mask [OF this] show ?thesis
    by (simp add: sample_pg_def) (simp add: sample_ip_rule_def pg_host_def)
qed

end
