(* ===== verification/Flow_Handlers.thy ===== *)
theory Flow_Handlers
  imports Flow_Store
begin

text \<open>
  The flow matrix at the HTTP surface: loading its inputs (\<^verbatim>\<open>internal/api/flow_matrix_handlers.go\<close>), the throttled drift events
  (\<^verbatim>\<open>flow_drift.go\<close>), the gauges of \<^verbatim>\<open>metricsrefresh.refreshFlows\<close> and the extracts (\<^verbatim>\<open>flow_matrix_extract.go\<close>). Any call of the store may
  fail: \<open>fe_up\<close> says which succeed, and a call that does not leaves the tables alone. \<^verbatim>\<open>uuid.Parse\<close>, \<^verbatim>\<open>UUID.String\<close> and the text of a JSONB
  value are arguments.
\<close>

section \<open>Calls of the store\<close>

datatype flow_call =
    CallSettings | CallGroups | CallPerimeter | CallSGRules uuid | CallPolicies | CallPolicyRules uuid | CallReferences
  | CallDrift string | CallAudit string | CallClusters | CallGroup | CallReference | CallSweepSGs | CallUpsertSG string
  | CallReplaceRules uuid | CallAttach string string | CallSweepAttachments | CallWorkload | CallWorkloadPolicies | CallGroupByProvider string

record flow_env =
  fe_pg :: pg_env
  fe_up :: "flow_call \<Rightarrow> bool"
  fe_String :: "uuid \<Rightarrow> string"
  fe_Parse :: "string \<Rightarrow> uuid option"
  fe_prefix :: "string \<Rightarrow> ip_prefix option"
  fe_json :: "json \<Rightarrow> string"
  fe_now :: time
  fe_event_id :: "nat \<Rightarrow> uuid"

definition ask :: "flow_env \<Rightarrow> flow_call \<Rightarrow> 'a flow_op \<Rightarrow> 'a flow_op" where
  "ask env c call db = (if fe_up env c then call db else (Inl InvOther, db))"

text \<open>A call that only reads: its answer.\<close>

abbreviation asked :: "flow_env \<Rightarrow> flow_call \<Rightarrow> 'a flow_op \<Rightarrow> flow_db \<Rightarrow> inventory_error + 'a" where
  "asked env c call db \<equiv> fst (ask env c call db)"

section \<open>Loading the inputs\<close>

text \<open>\<^verbatim>\<open>json.Unmarshal\<close> of a \<open>ports\<close> column into a slice of \<open>{protocol, port}\<close>: member names match without regard to case, \<open>null\<close> leaves the zero
  value, and a value of another type, such as the name of a port, is an error.\<close>

fun set_port_member :: "string \<times> json \<Rightarrow> (string \<times> int option) option \<Rightarrow> (string \<times> int option) option" where
  "set_port_member (k, v) None = None"
| "set_port_member (k, v) (Some (proto, port)) =
     (if ToLower k = ''protocol'' then
        (case v of JStr s \<Rightarrow> Some (s, port) | JNull \<Rightarrow> Some (proto, port) | _ \<Rightarrow> None)
      else if ToLower k = ''port'' then
        (case v of
           JNum n \<Rightarrow> if - (2 ^ 63) \<le> n \<and> n < 2 ^ 63 then Some (proto, Some n) else None
         | JNull \<Rightarrow> Some (proto, None)
         | _ \<Rightarrow> None)
      else Some (proto, port))"

definition unmarshal_port :: "json \<Rightarrow> (string \<times> int option) option" where
  "unmarshal_port j =
     (case j of
        JNull \<Rightarrow> Some ('''', None)
      | JObj kvs \<Rightarrow> fold set_port_member kvs (Some ('''', None))
      | _ \<Rightarrow> None)"

definition unmarshal_ports :: "json \<Rightarrow> (string \<times> int option) list option" where
  "unmarshal_ports j =
     (case j of
        JNull \<Rightarrow> Some []
      | JArr xs \<Rightarrow> insert_rows (\<lambda>_. unmarshal_port) 0 xs
      | _ \<Rightarrow> None)"

definition selectorSummary :: "flow_env \<Rightarrow> json option \<Rightarrow> string" where
  "selectorSummary env raw = (case raw of None \<Rightarrow> ''all'' | Some j \<Rightarrow> fe_json env j)"

definition rule_port :: "NetworkPolicyRuleRow \<Rightarrow> PortRange" where
  "rule_port ru =
     (case Option.bind (pr_Ports ru) unmarshal_ports of
        Some ((proto, port) # _) \<Rightarrow>
          \<lparr>prt_Protocol = (if proto = '''' then ''any'' else proto), prt_From = port, prt_To = port\<rparr>
      | _ \<Rightarrow> \<lparr>prt_Protocol = ''any'', prt_From = None, prt_To = None\<rparr>)"

definition flattenNetPolRule :: "flow_env \<Rightarrow> NetworkPolicyRow \<Rightarrow> NetworkPolicyRuleRow \<Rightarrow> NetPolRule" where
  "flattenNetPolRule env pol ru =
     (let peer = selectorSummary env (pr_PeerPodSelector ru); ingress = (pr_Direction ru = ''ingress'')
      in \<lparr>nr_RuleID = fe_String env (pr_ID ru), nr_Direction = pr_Direction ru, nr_Port = rule_port ru,
          nr_SrcWorkload = (if ingress then peer else np_Name pol), nr_DstWorkload = (if ingress then np_Name pol else peer),
          nr_PeerCIDR = pr_PeerIPBlockCIDR ru, nr_WideOpenSide = '''', nr_Summary = np_Name pol @ '' '' @ pr_Direction ru\<rparr>)"

fun internal_rules :: "flow_env \<Rightarrow> flow_db \<Rightarrow> NetworkPolicyRow list \<Rightarrow> inventory_error + NetPolRule list" where
  "internal_rules env db [] = Inr []"
| "internal_rules env db (p # ps) =
     and_then (asked env (CallPolicyRules (np_ID p)) (ListNetworkPolicyRules (np_ID p)) db) (\<lambda>rules.
     and_then (internal_rules env db ps) (\<lambda>rest. Inr (map (flattenNetPolRule env p) rules @ rest)))"

definition loadInternalRules :: "flow_env \<Rightarrow> uuid \<Rightarrow> flow_db \<Rightarrow> inventory_error + NetPolRule list" where
  "loadInternalRules env cid db =
     and_then (asked env CallPolicies (ListNetworkPoliciesByCluster_first cid 500) db) (internal_rules env db)"

definition perimeter_rule :: "flow_env \<Rightarrow> SecurityGroupRow \<Rightarrow> SecurityGroupRuleRow \<Rightarrow> SGRule" where
  "perimeter_rule env sg ru =
     \<lparr>sr_RuleID = fe_String env (ru_ID ru), sr_Direction = ru_Direction ru,
      sr_Port = \<lparr>prt_Protocol = ru_Protocol ru, prt_From = ru_FromPort ru, prt_To = ru_ToPort ru\<rparr>, sr_PeerCIDR = ru_PeerCIDR ru,
      sr_WideOpen = (ru_PeerCIDR ru = ''0.0.0.0/0'' \<or> ru_PeerCIDR ru = ''::/0''),
      sr_Summary = sg_Name sg @ '' '' @ ru_Direction ru @ '' '' @ ru_Protocol ru @ '' from '' @ ru_PeerCIDR ru\<rparr>"

fun perimeter_rules :: "flow_env \<Rightarrow> flow_db \<Rightarrow> SecurityGroupRow list \<Rightarrow> inventory_error + SGRule list" where
  "perimeter_rules env db [] = Inr []"
| "perimeter_rules env db (sg # sgs) =
     and_then (asked env (CallSGRules (sg_ID sg)) (ListSecurityGroupRules (sg_ID sg)) db) (\<lambda>rules.
     and_then (perimeter_rules env db sgs) (\<lambda>rest.
       Inr (map (perimeter_rule env sg) (filter (\<lambda>ru. ru_PeerKind ru = ''cidr'') rules) @ rest)))"

definition loadPerimeterRules :: "flow_env \<Rightarrow> uuid \<Rightarrow> flow_db \<Rightarrow> inventory_error + SGRule list" where
  "loadPerimeterRules env cid db =
     and_then (asked env CallPerimeter (PerimeterSecurityGroupsForCluster (fe_pg env) cid) db) (perimeter_rules env db)"

definition load_reference :: "flow_env \<Rightarrow> FlowReference \<Rightarrow> Reference" where
  "load_reference env r =
     (let i = fx_Input r
      in \<lparr>rf_ID = fe_String env (fx_ID r), rf_Layer = fr_Layer i, rf_Direction = fr_Direction i, rf_SrcKind = fr_SrcKind i,
          rf_SrcRef = fr_SrcRef i, rf_DstKind = fr_DstKind i, rf_DstRef = fr_DstRef i,
          rf_Port = \<lparr>prt_Protocol = fr_Protocol i, prt_From = fr_FromPort i, prt_To = fr_ToPort i\<rparr>\<rparr>)"

definition loadFlowInputs :: "flow_env \<Rightarrow> uuid \<Rightarrow> flow_db \<Rightarrow> inventory_error + (Inputs \<times> FlowWarning list)" where
  "loadFlowInputs env cid db =
     and_then (asked env CallGroups (ListEndpointGroups (fe_pg env)) db) (\<lambda>groups.
     and_then (loadPerimeterRules env cid db) (\<lambda>perim.
     and_then (loadInternalRules env cid db) (\<lambda>internal.
     and_then (asked env CallReferences (ListFlowReferences (fe_pg env) cid) db) (\<lambda>refs.
       Inr (\<lparr>fi_ClusterID = fe_String env cid, fi_PerimeterRules = perim, fi_InternalRules = internal,
             fi_References = map (load_reference env) refs,
             fi_Groups = map (\<lambda>g. \<lparr>cg_Name = eg_Name g, cg_CIDRs = eg_CIDRs g\<rparr>) groups\<rparr>, [])))))"

section \<open>Drift events\<close>

definition Itoa_int :: "int \<Rightarrow> string" where
  "Itoa_int n = (if n < 0 then ''-'' @ Itoa (nat (- n)) else Itoa (nat n))"

definition flowDriftKey :: "Flow \<Rightarrow> string" where
  "flowDriftKey f =
     (let (proto, ports) =
        (case fl_Ports f of
           [] \<Rightarrow> (''any'', ''any'')
         | p # _ \<Rightarrow>
             (prt_Protocol p,
              (case (prt_From p, prt_To p) of (Some a, Some b) \<Rightarrow> Itoa_int a @ ''-'' @ Itoa_int b | _ \<Rightarrow> ''any'')))
      in fl_Direction f @ ''|'' @ ep_Name (fl_Src f) @ ''|'' @ ep_Name (fl_Dst f) @ ''|'' @ proto @ ''|'' @ ports)"

definition InsertDriftEvent :: "DriftEvent \<Rightarrow> unit flow_op" where
  "InsertDriftEvent ev db = (Inr (), db\<lparr>fd_audit := fd_audit db @ [ev]\<rparr>)"

fun emit_each :: "flow_env \<Rightarrow> uuid \<Rightarrow> Flow list \<Rightarrow> flow_db \<Rightarrow> flow_db" where
  "emit_each env cid [] db = db"
| "emit_each env cid (f # fs) db =
     (if fl_State f \<noteq> StateNonDeclare then emit_each env cid fs db
      else let key = flowDriftKey f in
        (case ask env (CallDrift key) (RecordFlowDriftSeen (fe_pg env) cid key (24 * hour)) db of
           (Inl err, db1) \<Rightarrow> emit_each env cid fs db1
         | (Inr emit, db1) \<Rightarrow>
             if \<not> emit then emit_each env cid fs db1
             else let ev = \<lparr>de_ID = fe_event_id env (length (fd_audit db1)), de_OccurredAt = fe_now env, de_ClusterID = cid,
                            de_FlowKey = key, de_Flow = f\<rparr>
                  in emit_each env cid fs (snd (ask env (CallAudit key) (InsertDriftEvent ev) db1))))"

definition emitFlowDrift :: "flow_env \<Rightarrow> uuid \<Rightarrow> Synthesis \<Rightarrow> flow_db \<Rightarrow> flow_db" where
  "emitFlowDrift env cid syn db = emit_each env cid (sy_Perimeter syn @ sy_Internal syn) db"

section \<open>The handler\<close>

datatype 'a flow_reply = FlowOK 'a | FlowProblem int string

definition HandleClusterFlowMatrix :: "flow_env \<Rightarrow> string \<Rightarrow> flow_db \<Rightarrow> Synthesis flow_reply \<times> flow_db" where
  "HandleClusterFlowMatrix env pathID db =
     (case asked env CallSettings GetSettings db of
        Inl err \<Rightarrow> (FlowProblem 500 ''settings unavailable'', db)
      | Inr settings \<Rightarrow>
          if \<not> se_FlowMatrixEnabled settings then (FlowProblem 409 ''flow matrix disabled'', db)
          else case fe_Parse env pathID of
                 None \<Rightarrow> (FlowProblem 400 ''invalid cluster id'', db)
               | Some cid \<Rightarrow>
                   (case loadFlowInputs env cid db of
                      Inl err \<Rightarrow> (FlowProblem 500 ''load flow inputs'', db)
                    | Inr (inputs, warnings) \<Rightarrow>
                        let syn = Synthesize (fe_prefix env) inputs;
                            out = syn\<lparr>sy_Warnings := sy_Warnings syn @ warnings\<rparr>
                        in (FlowOK out, emitFlowDrift env cid out db)))"

section \<open>Gauges\<close>

record flow_gauges =
  fg_states :: "(string \<times> string \<times> FlowState, int) gomap"
  fg_references :: "(string, int) gomap"
  fg_dangling :: "(string, int) gomap"

definition count_states :: "Flow list \<Rightarrow> (FlowState, int) gomap" where
  "count_states fs = fold (\<lambda>f m. AList.update (fl_State f) (1 + (case map_of m (fl_State f) of None \<Rightarrow> 0 | Some n \<Rightarrow> n)) m) fs []"

definition SetFlowStates :: "string \<Rightarrow> string \<Rightarrow> (FlowState, int) gomap \<Rightarrow> flow_gauges \<Rightarrow> flow_gauges" where
  "SetFlowStates cluster layer counts g =
     g\<lparr>fg_states := fold (\<lambda>(st, n). AList.update (cluster, layer, st) n) counts (fg_states g)\<rparr>"

definition refresh_cluster :: "flow_env \<Rightarrow> flow_db \<Rightarrow> uuid \<Rightarrow> flow_gauges \<Rightarrow> flow_gauges" where
  "refresh_cluster env db cid g =
     (case loadFlowInputs env cid db of
        Inl err \<Rightarrow> g
      | Inr (inputs, warnings) \<Rightarrow>
          let syn = Synthesize (fe_prefix env) inputs; c = fe_String env cid;
              g1 = SetFlowStates c ''perimeter'' (count_states (sy_Perimeter syn)) g;
              g2 = SetFlowStates c ''internal'' (count_states (sy_Internal syn)) g1
          in g2\<lparr>fg_references := AList.update c (int (length (fi_References inputs))) (fg_references g2),
                fg_dangling := AList.update c (int (length warnings)) (fg_dangling g2)\<rparr>)"

definition no_gauges :: flow_gauges where
  "no_gauges = \<lparr>fg_states = [], fg_references = [], fg_dangling = []\<rparr>"

definition refreshFlows :: "flow_env \<Rightarrow> flow_db \<Rightarrow> flow_gauges \<Rightarrow> flow_gauges" where
  "refreshFlows env db g =
     (case asked env CallSettings GetSettings db of
        Inl err \<Rightarrow> g
      | Inr st \<Rightarrow>
          if \<not> se_FlowMatrixEnabled st then no_gauges
          else case asked env CallClusters ListClustersWithFlowReferences db of
                 Inl err \<Rightarrow> g
               | Inr clusters \<Rightarrow> fold (refresh_cluster env db) clusters no_gauges)"

section \<open>Extracts\<close>

definition flowMatrixCSVHeader :: "string list" where
  "flowMatrixCSVHeader =
     [''cluster'', ''layer'', ''direction'', ''src_kind'', ''src_ref'', ''dst_kind'', ''dst_ref'', ''protocol'', ''ports'', ''state'',
      ''reference_id'', ''sources'']"

definition flowExtractRows :: "Synthesis \<Rightarrow> Flow list" where
  "flowExtractRows syn = sy_Perimeter syn @ sy_Internal syn"

definition renderPort :: "PortRange \<Rightarrow> string" where
  "renderPort p =
     (let proto = (if prt_Protocol p = '''' then ''any'' else prt_Protocol p) in
      case prt_From p of
        None \<Rightarrow> proto @ ''/'' @ ''any''
      | Some a \<Rightarrow>
          (case prt_To p of
             Some b \<Rightarrow> if b \<noteq> a then proto @ ''/'' @ Itoa_int a @ ''-'' @ Itoa_int b else proto @ ''/'' @ Itoa_int a
           | None \<Rightarrow> proto @ ''/'' @ Itoa_int a))"

definition renderPorts :: "PortRange list \<Rightarrow> string" where
  "renderPorts ports = Join (map renderPort ports) '';''"

definition renderSources :: "FlowSource list \<Rightarrow> string" where
  "renderSources sources = Join (map so_Summary sources) ''; ''"

definition flowProtocol :: "PortRange list \<Rightarrow> string" where
  "flowProtocol ports =
     (case ports of [] \<Rightarrow> ''any'' | p # _ \<Rightarrow> if prt_Protocol p = '''' then ''any'' else prt_Protocol p)"

definition state_text :: "FlowState \<Rightarrow> string" where
  "state_text s =
     (case s of StateConforme \<Rightarrow> ''conforme'' | StateNonDeclare \<Rightarrow> ''non_declare'' | StateManquant \<Rightarrow> ''manquant''
              | StateLargeOuvert \<Rightarrow> ''large_ouvert'')"

definition flowRowToCSV :: "string \<Rightarrow> Flow \<Rightarrow> string list" where
  "flowRowToCSV cluster f =
     [cluster, fl_Layer f, fl_Direction f, ep_Kind (fl_Src f), ep_Name (fl_Src f), ep_Kind (fl_Dst f), ep_Name (fl_Dst f),
      flowProtocol (fl_Ports f), renderPorts (fl_Ports f), state_text (fl_State f),
      (case fl_ReferenceID f of None \<Rightarrow> '''' | Some r \<Rightarrow> r), renderSources (fl_Sources f)]"

text \<open>The deduplicated sources of the ZIP manifest, in the order they are first seen; the map \<^verbatim>\<open>seen\<close> holds the keys so far.\<close>

fun dedupe_sources :: "string list \<Rightarrow> FlowSource list \<Rightarrow> (string \<times> string) list" where
  "dedupe_sources seen [] = []"
| "dedupe_sources seen (s # ss) =
     (let key = so_Kind s @ ''|'' @ so_ID s in
      if key \<in> set seen then dedupe_sources seen ss
      else (so_Kind s, so_ID s) # dedupe_sources (key # seen) ss)"

definition dedupeFlowSources :: "Flow list \<Rightarrow> (string \<times> string) list" where
  "dedupeFlowSources rows = dedupe_sources [] (concat (map fl_Sources rows))"

text \<open>The content of an extract before it is encoded as CSV, JSON or ZIP, with the header and the audit details that go with it.\<close>

datatype extract_file =
    CSVFile "string list" "string list list"
  | JSONFile string nat bool "Flow list"
  | ZIPFile "string list" "string list list" "(string \<times> string) list"

record extract_out =
  ex_file :: extract_file
  ex_truncated_header :: bool
  ex_audit :: "string \<times> nat \<times> bool \<times> string"

definition loadFlowExtract :: "flow_env \<Rightarrow> string \<Rightarrow> flow_db \<Rightarrow> (uuid \<times> Synthesis) flow_reply" where
  "loadFlowExtract env pathID db =
     (case asked env CallSettings GetSettings db of
        Inl err \<Rightarrow> FlowProblem 500 ''settings unavailable''
      | Inr settings \<Rightarrow>
          if \<not> se_FlowMatrixEnabled settings then FlowProblem 409 ''flow matrix disabled''
          else case fe_Parse env pathID of
                 None \<Rightarrow> FlowProblem 400 ''invalid cluster id''
               | Some cid \<Rightarrow>
                   (case loadFlowInputs env cid db of
                      Inl err \<Rightarrow> FlowProblem 500 ''load flow inputs''
                    | Inr (inputs, warnings) \<Rightarrow>
                        let syn = Synthesize (fe_prefix env) inputs
                        in FlowOK (cid, syn\<lparr>sy_Warnings := sy_Warnings syn @ warnings\<rparr>)))"

definition renderFlowExtract :: "string \<Rightarrow> string \<Rightarrow> Flow list \<Rightarrow> bool \<Rightarrow> extract_file" where
  "renderFlowExtract format cluster rows truncated =
     (if format = ''json'' then JSONFile cluster (length rows) truncated rows
      else CSVFile flowMatrixCSVHeader (map (flowRowToCSV cluster) rows))"

definition HandleFlowMatrixExtract :: "flow_env \<Rightarrow> nat \<Rightarrow> string \<Rightarrow> string \<Rightarrow> flow_db \<Rightarrow> extract_out flow_reply" where
  "HandleFlowMatrixExtract env maxRows formatParam pathID db =
     (let format = (if formatParam = '''' then ''csv'' else formatParam) in
      if format \<noteq> ''csv'' \<and> format \<noteq> ''json'' then FlowProblem 400 ''Bad Request''
      else case loadFlowExtract env pathID db of
             FlowProblem st t \<Rightarrow> FlowProblem st t
           | FlowOK (cid, syn) \<Rightarrow>
               let rows = flowExtractRows syn; truncated = length rows > maxRows;
                   rows' = (if truncated then take maxRows rows else rows)
               in FlowOK \<lparr>ex_file = renderFlowExtract format (fe_String env cid) rows' truncated, ex_truncated_header = truncated,
                          ex_audit = (format, length rows', truncated, if truncated then ''truncated'' else ''ok'')\<rparr>)"

definition HandleFlowMatrixExtractZip :: "flow_env \<Rightarrow> nat \<Rightarrow> string \<Rightarrow> flow_db \<Rightarrow> extract_out flow_reply" where
  "HandleFlowMatrixExtractZip env maxRows pathID db =
     (case loadFlowExtract env pathID db of
        FlowProblem st t \<Rightarrow> FlowProblem st t
      | FlowOK (cid, syn) \<Rightarrow>
          let rows = flowExtractRows syn; truncated = length rows > maxRows;
              rows' = (if truncated then take maxRows rows else rows)
          in FlowOK \<lparr>ex_file = ZIPFile flowMatrixCSVHeader (map (flowRowToCSV (fe_String env cid)) rows') (dedupeFlowSources rows'),
                     ex_truncated_header = truncated,
                     ex_audit = (''zip'', length rows', truncated, if truncated then ''truncated'' else ''ok'')\<rparr>)"

section \<open>Lemmas on drift events\<close>

definition throttled :: "flow_db \<Rightarrow> bool" where
  "throttled db \<longleftrightarrow>
     sorted_wrt (\<lambda>a b. de_ClusterID a = de_ClusterID b \<and> de_FlowKey a = de_FlowKey b \<longrightarrow>
                       de_OccurredAt a + 24 * hour < de_OccurredAt b) (fd_audit db) \<and>
     (\<forall>ev\<in>set (fd_audit db). \<exists>m. map_of (fd_drift db) (de_ClusterID ev, de_FlowKey ev) = Some m \<and> de_OccurredAt ev \<le> m)"

definition heard :: "flow_db \<Rightarrow> bool" where
  "heard db \<longleftrightarrow>
     (\<forall>cid key m. map_of (fd_drift db) (cid, key) = Some m \<longrightarrow>
        (\<exists>ev\<in>set (fd_audit db). de_ClusterID ev = cid \<and> de_FlowKey ev = key \<and> de_OccurredAt ev = m))"

definition clocks_agree :: "flow_env \<Rightarrow> bool" where
  "clocks_agree env \<longleftrightarrow> fe_now env = pe_NOW (fe_pg env)"

definition audit_up :: "flow_env \<Rightarrow> bool" where
  "audit_up env \<longleftrightarrow> (\<forall>key. fe_up env (CallAudit key))"

text \<open>What one flow does to the tables: nothing, or a new marker with or without its event.\<close>

definition marked :: "flow_env \<Rightarrow> uuid \<Rightarrow> string \<Rightarrow> flow_db \<Rightarrow> flow_db" where
  "marked env cid key db = db\<lparr>fd_drift := AList.update (cid, key) (pe_NOW (fe_pg env)) (fd_drift db)\<rparr>"

definition drift_event :: "flow_env \<Rightarrow> uuid \<Rightarrow> Flow \<Rightarrow> flow_db \<Rightarrow> DriftEvent" where
  "drift_event env cid f db =
     \<lparr>de_ID = fe_event_id env (length (fd_audit db)), de_OccurredAt = fe_now env, de_ClusterID = cid, de_FlowKey = flowDriftKey f, de_Flow = f\<rparr>"

definition due :: "flow_env \<Rightarrow> uuid \<Rightarrow> Flow \<Rightarrow> flow_db \<Rightarrow> bool" where
  "due env cid f db \<longleftrightarrow>
     fl_State f = StateNonDeclare \<and> fe_up env (CallDrift (flowDriftKey f)) \<and> cid \<in> set (fd_clusters db) \<and>
     (case map_of (fd_drift db) (cid, flowDriftKey f) of None \<Rightarrow> True | Some m \<Rightarrow> m < pe_NOW (fe_pg env) - 24 * hour)"

definition emit_one :: "flow_env \<Rightarrow> uuid \<Rightarrow> Flow \<Rightarrow> flow_db \<Rightarrow> flow_db" where
  "emit_one env cid f db =
     (if \<not> due env cid f db then db
      else let db1 = marked env cid (flowDriftKey f) db in
        if fe_up env (CallAudit (flowDriftKey f)) then db1\<lparr>fd_audit := fd_audit db1 @ [drift_event env cid f db1]\<rparr> else db1)"

lemma emit_each_fold: "emit_each env cid fs db = fold (emit_one env cid) fs db"
proof (induction fs arbitrary: db)
  case (Cons f fs)
  show ?case
    by (simp add: Cons emit_one_def due_def marked_def drift_event_def ask_def RecordFlowDriftSeen_def InsertDriftEvent_def Let_def
        split: option.splits)
qed simp

lemma emit_one_throttled:
  assumes "throttled db" "clocks_agree env"
  shows "throttled (emit_one env cid f db)"
proof (cases "due env cid f db")
  case True
  let ?k = "flowDriftKey f" and ?now = "pe_NOW (fe_pg env)"
  have old: "de_OccurredAt ev + 24 * hour < ?now" if "ev \<in> set (fd_audit db)" "de_ClusterID ev = cid" "de_FlowKey ev = ?k" for ev
    using that assms(1) True by (fastforce simp: throttled_def due_def split: option.splits)
  then have "\<exists>m. map_of (fd_drift (marked env cid ?k db)) (de_ClusterID ev, de_FlowKey ev) = Some m \<and> de_OccurredAt ev \<le> m"
    if "ev \<in> set (fd_audit db)" for ev
    using that assms(1) by (fastforce simp: throttled_def marked_def hour_def minute_def second_def)
  with old assms True show ?thesis
    by (auto simp: emit_one_def throttled_def marked_def drift_event_def clocks_agree_def Let_def sorted_wrt_append)
qed (simp add: emit_one_def assms(1))

lemma emit_one_heard:
  assumes "heard db" "clocks_agree env" "audit_up env"
  shows "heard (emit_one env cid f db)"
  using assms by (fastforce simp: heard_def emit_one_def marked_def drift_event_def clocks_agree_def audit_up_def Let_def)

lemma emit_one_frame:
  "fd_clusters (emit_one env cid f db) = fd_clusters db" "fd_refs (emit_one env cid f db) = fd_refs db"
  by (simp_all add: emit_one_def marked_def Let_def)

lemma emit_one_marker:
  "map_of (fd_drift (emit_one env cid f db)) k =
     (if due env cid f db \<and> k = (cid, flowDriftKey f) then Some (pe_NOW (fe_pg env)) else map_of (fd_drift db) k)"
  by (simp add: emit_one_def marked_def Let_def)

text \<open>A marker that is recent at the time of the call stays as it is, and no event of its key is added.\<close>

definition events_of :: "uuid \<Rightarrow> string \<Rightarrow> flow_db \<Rightarrow> DriftEvent list" where
  "events_of cid key db = filter (\<lambda>ev. de_ClusterID ev = cid \<and> de_FlowKey ev = key) (fd_audit db)"

lemma emit_fold_quiet:
  assumes "map_of (fd_drift db) (cid, key) = Some m" "pe_NOW (fe_pg env) - 24 * hour \<le> m"
  shows "map_of (fd_drift (fold (emit_one env cid') fs db)) (cid, key) = Some m \<and>
    events_of cid key (fold (emit_one env cid') fs db) = events_of cid key db"
  using assms(1)
proof (induction fs arbitrary: db)
  case (Cons f fs)
  have nd: "\<not> (due env cid' f db \<and> (cid, key) = (cid', flowDriftKey f))"
    using Cons.prems assms(2) by (auto simp: due_def)
  then have "map_of (fd_drift (emit_one env cid' f db)) (cid, key) = Some m"
    "events_of cid key (emit_one env cid' f db) = events_of cid key db"
    using Cons.prems by (auto simp: emit_one_marker events_of_def emit_one_def marked_def drift_event_def Let_def)
  with Cons.IH show ?case by simp
qed simp

lemma emit_fold_marks:
  assumes "f \<in> set fs" "fl_State f = StateNonDeclare" "fe_up env (CallDrift (flowDriftKey f))" "cid \<in> set (fd_clusters db)"
  shows "\<exists>m. map_of (fd_drift (fold (emit_one env cid) fs db)) (cid, flowDriftKey f) = Some m \<and> pe_NOW (fe_pg env) - 24 * hour \<le> m"
  using assms(1,4)
proof (induction fs arbitrary: db)
  case (Cons g fs)
  show ?case
  proof (cases "f \<in> set fs")
    case True
    with Cons show ?thesis by (simp add: emit_one_frame)
  next
    case False
    then have g: "g = f" using Cons.prems by simp
    have "\<exists>m. map_of (fd_drift (emit_one env cid f db)) (cid, flowDriftKey f) = Some m \<and> pe_NOW (fe_pg env) - 24 * hour \<le> m"
      using assms(2,3) Cons.prems(2) unfolding emit_one_marker
      by (auto simp: due_def hour_def minute_def second_def split: option.splits)
    with emit_fold_quiet g show ?thesis by fastforce
  qed
qed simp

lemma fold_emit_invariant:
  "(\<And>f db. P db \<Longrightarrow> P (emit_one env cid f db)) \<Longrightarrow> P db \<Longrightarrow> P (fold (emit_one env cid) fs db)"
  by (induction fs arbitrary: db) auto

lemma HandleClusterFlowMatrix_OK:
  assumes "HandleClusterFlowMatrix env path db = (FlowOK out, db')"
  obtains cid inputs where "fe_Parse env path = Some cid" "loadFlowInputs env cid db = Inr (inputs, [])"
    "out = Synthesize (fe_prefix env) inputs" "db' = emitFlowDrift env cid out db" "se_FlowMatrixEnabled (fd_settings db)"
proof -
  have w: "ws = []" if "loadFlowInputs env cid db = Inr (i, ws)" for cid i ws
    using that by (auto simp: loadFlowInputs_def and_then_def split: sum.splits)
  show ?thesis using assms that
    by (auto simp: HandleClusterFlowMatrix_def Let_def ask_def GetSettings_def Synthesize_def split: sum.splits if_splits option.splits prod.splits dest: w)
qed

text \<open>The tables over time: requests for the matrix, and everything else, which leaves the markers and the drift events alone. With
  \<open>reliable\<close>, every insert of an event succeeds.\<close>

inductive drift_reach :: "bool \<Rightarrow> flow_db \<Rightarrow> bool" for reliable :: bool where
  initial: "fd_drift db = [] \<Longrightarrow> fd_audit db = [] \<Longrightarrow> drift_reach reliable db"
| request: "drift_reach reliable db \<Longrightarrow> clocks_agree env \<Longrightarrow> (reliable \<longrightarrow> audit_up env) \<Longrightarrow>
    drift_reach reliable (snd (HandleClusterFlowMatrix env path db))"
| other: "drift_reach reliable db \<Longrightarrow> fd_drift db' = fd_drift db \<Longrightarrow> fd_audit db' = fd_audit db \<Longrightarrow> drift_reach reliable db'"

lemma HandleClusterFlowMatrix_cases:
  "snd (HandleClusterFlowMatrix env path db) = db \<or>
   (\<exists>cid fs. snd (HandleClusterFlowMatrix env path db) = fold (emit_one env cid) fs db)"
  unfolding HandleClusterFlowMatrix_def Let_def emitFlowDrift_def emit_each_fold
  by (auto simp del: fold_append split: sum.splits if_splits option.splits prod.splits)

lemma drift_reach_throttled: "drift_reach reliable db \<Longrightarrow> throttled db"
proof (induction rule: drift_reach.induct)
  case (request db env path)
  then show ?case
    using HandleClusterFlowMatrix_cases [of env path db] fold_emit_invariant [of throttled env, OF emit_one_throttled] by auto
qed (simp_all add: throttled_def)

lemma drift_reach_heard: "drift_reach True db \<Longrightarrow> heard db"
proof (induction rule: drift_reach.induct)
  case (request db env path)
  then show ?case
    using HandleClusterFlowMatrix_cases [of env path db] fold_emit_invariant [of heard env, OF emit_one_heard] by auto
qed (simp_all add: heard_def)

section \<open>Lemmas on the loader\<close>

lemma and_then_Inr: "and_then x f = Inr y \<longleftrightarrow> (\<exists>z. x = Inr z \<and> f z = Inr y)"
  by (cases x) (simp_all add: and_then_def)

lemma answer_Inr: "asked env c call db = Inr v \<longleftrightarrow> fe_up env c \<and> fst (call db) = Inr v"
  by (simp add: ask_def)

lemma perimeter_rules_Inr:
  "perimeter_rules env db sgs = Inr rs \<Longrightarrow>
     rs = concat (map (\<lambda>sg. map (perimeter_rule env sg) (filter (\<lambda>ru. ru_PeerKind ru = ''cidr'')
            (sort_key ru_ID (filter (\<lambda>r. ru_SecurityGroupID r = sg_ID sg) (fd_sg_rules db))))) sgs)"
  by (induction sgs arbitrary: rs) (auto simp: and_then_Inr answer_Inr ListSecurityGroupRules_def)

lemma internal_rules_set:
  "internal_rules env db ps = Inr rs \<Longrightarrow> np \<in> set rs \<Longrightarrow> \<exists>p ru. np = flattenNetPolRule env p ru"
  by (induction ps arbitrary: rs) (auto simp: and_then_Inr, blast)

lemma loaded_inputs:
  assumes "loadFlowInputs env cid db = Inr (inputs, ws)"
  shows "set (fi_References inputs) = load_reference env ` {r \<in> set (fd_refs db). fx_ClusterID r = cid}"
    and "np \<in> set (fi_InternalRules inputs) \<Longrightarrow> \<exists>p ru. np = flattenNetPolRule env p ru"
    and "\<exists>sgs. PerimeterSecurityGroupsForCluster (fe_pg env) cid db = (Inr sgs, db) \<and> perimeter_rules env db sgs = Inr (fi_PerimeterRules inputs)"
proof -
  obtain perim internal refs where p: "loadPerimeterRules env cid db = Inr perim" "loadInternalRules env cid db = Inr internal"
    "asked env CallReferences (ListFlowReferences (fe_pg env) cid) db = Inr refs"
    and i: "fi_PerimeterRules inputs = perim" "fi_InternalRules inputs = internal" "fi_References inputs = map (load_reference env) refs"
    using assms by (auto simp: loadFlowInputs_def and_then_Inr)
  show "set (fi_References inputs) = load_reference env ` {r \<in> set (fd_refs db). fx_ClusterID r = cid}"
    using p(3) i by (auto simp: answer_Inr ListFlowReferences_def)
  show "np \<in> set (fi_InternalRules inputs) \<Longrightarrow> \<exists>p ru. np = flattenNetPolRule env p ru"
    using p(2) i internal_rules_set by (auto simp: loadInternalRules_def and_then_Inr)
  show "\<exists>sgs. PerimeterSecurityGroupsForCluster (fe_pg env) cid db = (Inr sgs, db) \<and> perimeter_rules env db sgs = Inr (fi_PerimeterRules inputs)"
    using p(1) i by (auto simp: loadPerimeterRules_def and_then_Inr answer_Inr PerimeterSecurityGroupsForCluster_def)
qed

lemma internal_flows_cases:
  assumes "f \<in> set (sy_Internal (Synthesize parse inp))"
  shows "(\<exists>np\<in>set (fi_InternalRules inp). f = internal_flow np (ClassifyActual (nr_Port np)
            (ports_at (intRefPorts (fi_References inp)) (int_key (nr_Direction np) (nr_SrcWorkload np) (nr_DstWorkload np)))
            (nr_WideOpenSide np \<noteq> ''''))) \<or> (\<exists>r. f = manquant_flow ''internal'' r)"
  using assms by (auto simp: Synthesize_def Let_def appendUnimplemented_filter)

lemma perimeter_sources:
  "{so_ID s |f s. f \<in> set (sy_Perimeter (Synthesize parse inp)) \<and> s \<in> set (fl_Sources f) \<and> so_Kind s = ''sg_rule''} =
     sr_RuleID ` set (fi_PerimeterRules inp)"
  by (force simp: Synthesize_def Let_def appendUnimplemented_filter perimeter_flow_def manquant_flow_def)

text \<open>The attachment of a group to a node of the cluster: a virtual machine id that occurs in the provider id of the node.\<close>

definition protects :: "flow_db \<Rightarrow> uuid \<Rightarrow> SecurityGroupRow \<Rightarrow> bool" where
  "protects db cid sg \<longleftrightarrow>
     (\<exists>a\<in>set (fd_attachments db). \<exists>n\<in>set (fd_nodes db). \<exists>x y.
        va_CloudAccountID a = sg_CloudAccountID sg \<and> va_ProviderSGID a = sg_ProviderSGID sg \<and> en_parent n = cid \<and>
        nt_provider_id (noc_text (en_obs n)) = Some (x @ va_ProviderVMID a @ y))"

lemma like_prefix: "like (escapeLike t @ ''%'') s \<longleftrightarrow> prefix t s"
  unfolding escapeLike_atoms
proof (induction t arbitrary: s)
  case Nil
  have "\<exists>k\<in>{0..length s}. drop k s = []" by (rule bexI [of _ "length s"]) simp_all
  then show ?case by (simp add: like_percent)
next
  case (Cons c t)
  then show ?case by (cases s) auto
qed

lemma like_around: "like (''%'' @ escapeLike t @ ''%'') s \<longleftrightarrow> (\<exists>x y. s = x @ t @ y)"
proof -
  have "like (''%'' @ escapeLike t @ ''%'') s \<longleftrightarrow> (\<exists>k\<in>{0..length s}. prefix t (drop k s))"
    by (simp add: like_percent like_prefix)
  also have "\<dots> \<longleftrightarrow> (\<exists>x y. s = x @ t @ y)"
  proof
    assume "\<exists>k\<in>{0..length s}. prefix t (drop k s)"
    then show "\<exists>x y. s = x @ t @ y" unfolding prefix_def by (metis append_take_drop_id)
  next
    assume "\<exists>x y. s = x @ t @ y"
    then obtain x y where "s = x @ t @ y" by blast
    then show "\<exists>k\<in>{0..length s}. prefix t (drop k s)" by (intro bexI [of _ "length x"]) simp_all
  qed
  finally show ?thesis .
qed

lemma perimeter_groups:
  assumes "PerimeterSecurityGroupsForCluster e cid db = (Inr sgs, db')"
  shows "set sgs = {sg \<in> set (fd_sgs db). protects db cid sg}"
proof -
  have match: "node_vm_match n vm \<longleftrightarrow> (\<exists>x y. nt_provider_id (noc_text (en_obs n)) = Some (x @ vm @ y))" for n vm
    unfolding node_vm_match_def like_around by (auto split: option.splits)
  have "set sgs = {sg \<in> set (fd_sgs db). list_ex (\<lambda>a. va_CloudAccountID a = sg_CloudAccountID sg \<and> va_ProviderSGID a = sg_ProviderSGID sg \<and>
      list_ex (\<lambda>n. en_parent n = cid \<and> node_vm_match n (va_ProviderVMID a)) (fd_nodes db)) (fd_attachments db)}"
    using assms by (auto simp: PerimeterSecurityGroupsForCluster_def)
  then show ?thesis unfolding list_ex_iff match protects_def by blast
qed

section \<open>Properties\<close>



text \<open>Drift events, error behaviour. When the audit table refuses the event of an undeclared flow that is due, the marker is stamped all
  the same: no request of the next twenty-four hours for that cluster adds an event of the flow.\<close>

theorem failed_drift_event_lost:
  assumes "f \<in> set (sy_Perimeter syn @ sy_Internal syn)" "due env cid f db" "\<not> fe_up env (CallAudit (flowDriftKey f))"
    and "pe_NOW (fe_pg env') \<le> pe_NOW (fe_pg env) + 24 * hour"
  shows "events_of cid (flowDriftKey f) (emitFlowDrift env' cid syn' (emitFlowDrift env cid syn db)) = events_of cid (flowDriftKey f) db"
proof -
  let ?k = "flowDriftKey f" and ?now = "pe_NOW (fe_pg env)"
  have step: "events_of cid ?k (fold (emit_one env cid) fs d) = events_of cid ?k d" for fs d
  proof (induction fs arbitrary: d)
    case (Cons g fs)
    have "events_of cid ?k (emit_one env cid g d) = events_of cid ?k d"
      using assms(3) by (auto simp: events_of_def emit_one_def marked_def drift_event_def Let_def)
    with Cons show ?case by simp
  qed simp
  have due': "due env cid f d \<or> map_of (fd_drift d) (cid, ?k) = Some ?now" if "fd_clusters d = fd_clusters db"
    "map_of (fd_drift d) (cid, ?k) \<in> {map_of (fd_drift db) (cid, ?k), Some ?now}" for d
    using that assms(2) by (auto simp: due_def)
  have keep: "fd_clusters (fold (emit_one env cid) fs d) = fd_clusters d \<and>
      map_of (fd_drift (fold (emit_one env cid) fs d)) (cid, ?k) \<in> {map_of (fd_drift d) (cid, ?k), Some ?now}" for fs d
  proof (induction fs arbitrary: d)
    case (Cons g fs)
    from Cons [of "emit_one env cid g d"] show ?case by (simp add: emit_one_frame emit_one_marker split: if_splits)
  qed simp
  obtain xs ys where split: "sy_Perimeter syn @ sy_Internal syn = xs @ f # ys" using assms(1) by (meson split_list)
  let ?d = "fold (emit_one env cid) xs db"
  have "due env cid f ?d \<or> map_of (fd_drift ?d) (cid, ?k) = Some ?now" using due' keep by blast
  then have "map_of (fd_drift (emit_one env cid f ?d)) (cid, ?k) = Some ?now" by (auto simp: emit_one_marker)
  moreover have e: "emitFlowDrift env cid syn db = fold (emit_one env cid) ys (emit_one env cid f ?d)"
    unfolding emitFlowDrift_def emit_each_fold split by simp
  ultimately have m: "map_of (fd_drift (emitFlowDrift env cid syn db)) (cid, ?k) = Some ?now" using keep [of ys "emit_one env cid f ?d"] by auto
  then have "events_of cid ?k (emitFlowDrift env' cid syn' (emitFlowDrift env cid syn db)) = events_of cid ?k (emitFlowDrift env cid syn db)"
    unfolding emitFlowDrift_def [of env'] emit_each_fold using emit_fold_quiet [OF m, of env'] assms(4) by (simp del: fold_append)
  also have "\<dots> = events_of cid ?k db" unfolding emitFlowDrift_def emit_each_fold by (rule step)
  finally show ?thesis .
qed

text \<open>C23: Flow matrix, functional. The perimeter flows of an answer report exactly the address rules of the security groups that are
  attached to a virtual machine whose id occurs in the provider id of a node of the cluster.\<close>

theorem perimeter_flows_complete:
  assumes "HandleClusterFlowMatrix env path db = (FlowOK out, db')" "fe_Parse env path = Some cid"
  shows "{so_ID s |f s. f \<in> set (sy_Perimeter out) \<and> s \<in> set (fl_Sources f) \<and> so_Kind s = ''sg_rule''} =
    {fe_String env (ru_ID ru) |ru sg. ru \<in> set (fd_sg_rules db) \<and> ru_PeerKind ru = ''cidr'' \<and>
       sg \<in> set (fd_sgs db) \<and> ru_SecurityGroupID ru = sg_ID sg \<and> protects db cid sg}"
proof -
  obtain inputs where i: "loadFlowInputs env cid db = Inr (inputs, [])" and out: "out = Synthesize (fe_prefix env) inputs"
    using assms by (auto elim: HandleClusterFlowMatrix_OK)
  obtain sgs where sgs: "PerimeterSecurityGroupsForCluster (fe_pg env) cid db = (Inr sgs, db)"
    "perimeter_rules env db sgs = Inr (fi_PerimeterRules inputs)"
    using loaded_inputs(3) [OF i] by blast
  have "sr_RuleID ` set (fi_PerimeterRules inputs) =
      {fe_String env (ru_ID ru) |ru sg. ru \<in> set (fd_sg_rules db) \<and> ru_PeerKind ru = ''cidr'' \<and> sg \<in> set sgs \<and> ru_SecurityGroupID ru = sg_ID sg}"
    unfolding perimeter_rules_Inr [OF sgs(2)] by (auto simp: perimeter_rule_def image_iff; force)
  then show ?thesis unfolding out perimeter_sources perimeter_groups [OF sgs(1)] by auto
qed

text \<open>Flow matrix, error behaviour. No internal flow of an answer is wide open: the loader never sets the side of a policy that Kubernetes leaves
  open, so the state that the matrix documents for a default-allow posture does not occur inside a cluster.\<close>

theorem internal_never_wide_open:
  assumes "HandleClusterFlowMatrix env path db = (FlowOK out, db')" and "f \<in> set (sy_Internal out)"
  shows "fl_State f \<noteq> StateLargeOuvert"
proof -
  obtain cid inputs where i: "loadFlowInputs env cid db = Inr (inputs, [])" and out: "out = Synthesize (fe_prefix env) inputs"
    using assms by (auto elim: HandleClusterFlowMatrix_OK)
  have "nr_WideOpenSide np = ''''" if "np \<in> set (fi_InternalRules inputs)" for np
    using loaded_inputs(2) [OF i that] by (auto simp: flattenNetPolRule_def Let_def)
  then show ?thesis using internal_flows_cases [of f "fe_prefix env" inputs] assms(2) unfolding out
    by (auto simp: internal_flow_def manquant_flow_def ClassifyActual_def split: if_splits)
qed

text \<open>Flow matrix, error behaviour. Kubernetes writes protocols in capitals and references in small letters: an internal flow of a rule with a protocol
  \<open>TCP\<close>, \<open>UDP\<close> or \<open>SCTP\<close> is conform only when a reference of the cluster admits every protocol.\<close>

theorem kubernetes_protocol_needs_any:
  assumes "HandleClusterFlowMatrix env path db = (FlowOK out, db')" "fe_Parse env path = Some cid"
    and refs: "list_all (\<lambda>r. ref_row_ok (fx_Input r)) (fd_refs db)"
    and "f \<in> set (sy_Internal out)" "fl_Ports f = [p]" "prt_Protocol p \<in> {''TCP'', ''UDP'', ''SCTP''}" "fl_State f = StateConforme"
  shows "\<exists>r\<in>set (fd_refs db). fx_ClusterID r = cid \<and> fr_Protocol (fx_Input r) = ''any''"
proof -
  obtain inputs where i: "loadFlowInputs env cid db = Inr (inputs, [])" and out: "out = Synthesize (fe_prefix env) inputs"
    using assms by (auto elim: HandleClusterFlowMatrix_OK)
  obtain np where np: "f = internal_flow np (ClassifyActual (nr_Port np)
      (ports_at (intRefPorts (fi_References inputs)) (int_key (nr_Direction np) (nr_SrcWorkload np) (nr_DstWorkload np))) (nr_WideOpenSide np \<noteq> ''''))"
    using internal_flows_cases [of f "fe_prefix env" inputs] assms(4,7) unfolding out by (auto simp: manquant_flow_def)
  then have "nr_Port np = p" "list_ex (\<lambda>r. refCovers r p)
      (ports_at (intRefPorts (fi_References inputs)) (int_key (nr_Direction np) (nr_SrcWorkload np) (nr_DstWorkload np)))"
    using assms(5,7) by (auto simp: internal_flow_def ClassifyActual_def split: if_splits)
  then obtain r where r: "r \<in> set (fi_References inputs)" "refCovers (rf_Port r) p"
    unfolding ports_at_groups by (auto simp: list_ex_iff)
  then obtain x where x: "x \<in> set (fd_refs db)" "fx_ClusterID x = cid" "r = load_reference env x"
    using loaded_inputs(1) [OF i] by auto
  have "fr_Protocol (fx_Input x) \<in> {''tcp'', ''udp'', ''icmp'', ''any''}"
    using refs x(1) by (auto simp: list_all_iff ref_row_ok_def)
  with r(2) assms(6) have "fr_Protocol (fx_Input x) = ''any''"
    unfolding x(3) load_reference_def Let_def refCovers_def by (auto split: if_splits)
  with x show ?thesis by blast
qed

section \<open>A concrete cluster\<close>

definition sample_node_text :: "string \<Rightarrow> node_text" where
  "sample_node_text pid =
     \<lparr>nt_display_name = None, nt_role = None, nt_kubelet_version = None, nt_kube_proxy_version = None, nt_container_runtime_version = None,
      nt_os_image = None, nt_operating_system = None, nt_kernel_version = None, nt_architecture = None, nt_internal_ip = None,
      nt_external_ip = None, nt_pod_cidr = None, nt_provider_id = Some pid, nt_instance_type = None, nt_zone = None, nt_capacity_cpu = None,
      nt_capacity_memory = None, nt_capacity_pods = None, nt_capacity_ephemeral_storage = None, nt_allocatable_cpu = None,
      nt_allocatable_memory = None, nt_allocatable_pods = None, nt_allocatable_ephemeral_storage = None\<rparr>"

definition sample_cluster_node :: node_row where
  "sample_cluster_node =
     \<lparr>en_id = 5, en_parent = 1, en_name = ''n1'',
      en_obs = \<lparr>noc_text = sample_node_text ''aws:///az/i-1'', noc_conditions = JNull, noc_taints = JNull, noc_unschedulable = False, noc_ready = True, noc_labels = JNull\<rparr>,
      en_cur = \<lparr>cu_owner = None, cu_criticality = None, cu_notes = None, cu_runbook_url = None, cu_annotations = JNull, cu_hardware_model = None\<rparr>,
      en_created_at = 0, en_updated_at = 0, en_terminated_at = None\<rparr>"

definition sample_reference :: "string \<Rightarrow> FlowReference" where
  "sample_reference proto =
     \<lparr>fx_ID = 40, fx_ClusterID = 1,
      fx_Input = \<lparr>fr_Layer = ''internal'', fr_Direction = ''ingress'', fr_SrcKind = ''workload'', fr_SrcRef = ''all'', fr_DstKind = ''workload'',
                  fr_DstRef = ''web'', fr_Protocol = proto, fr_FromPort = Some 443, fr_ToPort = Some 443, fr_Justification = ''https''\<rparr>,
      fx_CreatedBy = None, fx_CreatedAt = 0, fx_UpdatedAt = 0\<rparr>"

definition tls_rule :: NetworkPolicyRuleRow where
  "tls_rule = sample_ip_rule\<lparr>pr_ID := 31, pr_NetworkPolicyID := 30, pr_PeerKind := ''selector'', pr_PeerIPBlockCIDR := '''',
     pr_Ports := Some (JArr [JObj [(''port'', JNum 443), (''protocol'', JStr ''TCP'')]])\<rparr>"

definition cluster_db :: flow_db where
  "cluster_db = sample_flow_db\<lparr>
     fd_sgs := [\<lparr>sg_ID = 20, sg_CloudAccountID = 2, sg_ProviderSGID = ''sg-1'', sg_Name = ''front'', sg_VPCID = '''', sg_Tags = JObj []\<rparr>],
     fd_sg_rules := [\<lparr>ru_ID = 21, ru_SecurityGroupID = 20, ru_Direction = ''ingress'', ru_Protocol = ''tcp'', ru_FromPort = Some 22, ru_ToPort = Some 22,
                     ru_PeerKind = ''cidr'', ru_PeerCIDR = ''192.0.2.0/24'', ru_PeerSGProviderID = '''', ru_PeerPrefixID = '''', ru_Description = ''''\<rparr>],
     fd_attachments := [\<lparr>va_CloudAccountID = 2, va_ProviderVMID = ''i-1'', va_ProviderSGID = ''sg-1''\<rparr>],
     fd_policies := [((sample_policy [])\<lparr>np_ID := 30\<rparr>, 0)], fd_policy_rules := [tls_rule],
     fd_refs := [sample_reference ''any''], fd_nodes := [sample_cluster_node]\<rparr>"

definition cluster_env :: flow_env where
  "cluster_env = \<lparr>fe_pg = sample_pg, fe_up = (\<lambda>_. True), fe_String = (\<lambda>u. Itoa (unat u)), fe_Parse = (\<lambda>s. if s = ''1'' then Some 1 else None),
     fe_prefix = sample_prefixes, fe_json = (\<lambda>_. ''{}''), fe_now = 100 * hour, fe_event_id = (\<lambda>n. of_nat n)\<rparr>"

definition deaf_env :: flow_env where
  "deaf_env = cluster_env\<lparr>fe_up := (\<lambda>c. case c of CallAudit _ \<Rightarrow> False | _ \<Rightarrow> True)\<rparr>"

definition cluster_answer :: Synthesis where
  "cluster_answer = (case fst (HandleClusterFlowMatrix cluster_env ''1'' cluster_db) of FlowOK out \<Rightarrow> out)"

lemma cluster_handled:
  "HandleClusterFlowMatrix cluster_env ''1'' cluster_db = (FlowOK cluster_answer, snd (HandleClusterFlowMatrix cluster_env ''1'' cluster_db))"
proof -
  have "case fst (HandleClusterFlowMatrix cluster_env ''1'' cluster_db) of FlowOK out \<Rightarrow> True | _ \<Rightarrow> False" by code_simp
  then show ?thesis unfolding cluster_answer_def by (simp add: prod_eq_iff split: flow_reply.splits)
qed

lemma cluster_answer_states:
  "map fl_State (sy_Perimeter cluster_answer) = [StateNonDeclare]" "map fl_State (sy_Internal cluster_answer) = [StateConforme]"
  "map flowDriftKey (sy_Perimeter cluster_answer) = [''ingress|'' @ Uncategorized @ ''|cluster|tcp|22-22'']"
  "map fl_Ports (sy_Internal cluster_answer) = [[sample_port ''TCP'' 443 443]]"
  by code_simp+

definition later_env :: flow_env where
  "later_env = cluster_env\<lparr>fe_pg := sample_pg\<lparr>pe_NOW := 125 * hour\<rparr>, fe_now := 125 * hour\<rparr>"

definition served_twice :: flow_db where
  "served_twice = snd (HandleClusterFlowMatrix later_env ''1'' (snd (HandleClusterFlowMatrix cluster_env ''1'' cluster_db)))"

lemma cluster_reach: "drift_reach reliable cluster_db"
  by (rule drift_reach.initial) (simp_all add: cluster_db_def sample_flow_db_def)

lemma sample_clocks: "clocks_agree cluster_env" "clocks_agree later_env" "audit_up cluster_env" "audit_up later_env"
  by (simp_all add: clocks_agree_def audit_up_def cluster_env_def later_env_def sample_pg_def)


lemma sample_drifting:
  obtains f where "sy_Perimeter cluster_answer = [f]" "fl_State f = StateNonDeclare"
    "flowDriftKey f = ''ingress|'' @ Uncategorized @ ''|cluster|tcp|22-22''"
  using cluster_answer_states(1,3) by (auto simp: map_eq_Cons_conv)


theorem failed_drift_event_lost_witness:
  "map fl_State (sy_Perimeter cluster_answer) = [StateNonDeclare] \<and>
   events_of 1 (''ingress|'' @ Uncategorized @ ''|cluster|tcp|22-22'')
     (emitFlowDrift cluster_env 1 cluster_answer (emitFlowDrift deaf_env 1 cluster_answer cluster_db)) = []"
proof
  obtain f where f: "sy_Perimeter cluster_answer = [f]" "fl_State f = StateNonDeclare"
    "flowDriftKey f = ''ingress|'' @ Uncategorized @ ''|cluster|tcp|22-22''" by (rule sample_drifting)
  have "due deaf_env 1 f cluster_db" using f(2) by (simp add: due_def deaf_env_def cluster_env_def cluster_db_def sample_flow_db_def)
  moreover have "\<not> fe_up deaf_env (CallAudit (flowDriftKey f))" by (simp add: deaf_env_def)
  moreover have "pe_NOW (fe_pg cluster_env) \<le> pe_NOW (fe_pg deaf_env) + 24 * hour" by (simp add: deaf_env_def cluster_env_def hour_def minute_def second_def)
  ultimately have "events_of 1 (flowDriftKey f) (emitFlowDrift cluster_env 1 cluster_answer (emitFlowDrift deaf_env 1 cluster_answer cluster_db)) =
      events_of 1 (flowDriftKey f) cluster_db"
    by (intro failed_drift_event_lost) (simp_all add: f(1))
  then show "events_of 1 (''ingress|'' @ Uncategorized @ ''|cluster|tcp|22-22'')
     (emitFlowDrift cluster_env 1 cluster_answer (emitFlowDrift deaf_env 1 cluster_answer cluster_db)) = []"
    unfolding f(3) by (simp add: events_of_def cluster_db_def sample_flow_db_def)
qed (rule cluster_answer_states(1))

lemma parsed_one: "fe_Parse cluster_env ''1'' = Some 1"
  by (simp add: cluster_env_def)

theorem perimeter_flows_complete_witness:
  "map fl_State (sy_Perimeter cluster_answer) = [StateNonDeclare] \<and>
   {so_ID s |f s. f \<in> set (sy_Perimeter cluster_answer) \<and> s \<in> set (fl_Sources f) \<and> so_Kind s = ''sg_rule''} =
    {fe_String cluster_env (ru_ID ru) |ru sg. ru \<in> set (fd_sg_rules cluster_db) \<and> ru_PeerKind ru = ''cidr'' \<and>
       sg \<in> set (fd_sgs cluster_db) \<and> ru_SecurityGroupID ru = sg_ID sg \<and> protects cluster_db 1 sg}"
  using perimeter_flows_complete [OF cluster_handled parsed_one] cluster_answer_states(1) by simp

lemma internal_sample:
  obtains f where "sy_Internal cluster_answer = [f]" "fl_State f = StateConforme" "fl_Ports f = [sample_port ''TCP'' 443 443]"
  using cluster_answer_states(2,4) by (auto simp: map_eq_Cons_conv)

theorem internal_never_wide_open_witness:
  "sy_Internal cluster_answer \<noteq> [] \<and> fl_State (hd (sy_Internal cluster_answer)) \<noteq> StateLargeOuvert"
proof -
  obtain f where f: "sy_Internal cluster_answer = [f]" by (rule internal_sample)
  with internal_never_wide_open [OF cluster_handled, of f] show ?thesis by simp
qed

theorem kubernetes_protocol_needs_any_witness:
  "map fl_State (sy_Internal cluster_answer) = [StateConforme] \<and>
   (\<exists>r\<in>set (fd_refs cluster_db). fx_ClusterID r = 1 \<and> fr_Protocol (fx_Input r) = ''any'')"
proof
  obtain f where f: "sy_Internal cluster_answer = [f]" "fl_State f = StateConforme" "fl_Ports f = [sample_port ''TCP'' 443 443]"
    by (rule internal_sample)
  have refs: "list_all (\<lambda>r. ref_row_ok (fx_Input r)) (fd_refs cluster_db)" by code_simp
  show "\<exists>r\<in>set (fd_refs cluster_db). fx_ClusterID r = 1 \<and> fr_Protocol (fx_Input r) = ''any''"
    by (rule kubernetes_protocol_needs_any [OF cluster_handled parsed_one refs _ f(3) _ f(2)]) (simp_all add: f(1) sample_port_def)
qed (rule cluster_answer_states(2))

end
