(* ===== verification/Flow_Admin.thy ===== *)
theory Flow_Admin
  imports Flow_Handlers Auth_Middleware
begin

text \<open>
  The requests that write the tables of the flow matrix, and the per-asset views on them: flow references
  (\<^verbatim>\<open>flow_reference_types.go\<close>, \<^verbatim>\<open>flow_reference_handlers.go\<close>), endpoint groups (\<^verbatim>\<open>endpoint_group_handlers.go\<close>), the security group sweep
  of the cloud collector (\<^verbatim>\<open>security_group_sweep_handler.go\<close>, the shared part of \<^verbatim>\<open>virtual_machine_handlers.go\<close>) and the network rules of a
  workload or a virtual machine (\<^verbatim>\<open>asset_network_rules_handlers.go\<close>). Decoding of request bodies is \<^verbatim>\<open>encoding/json\<close> and \<^verbatim>\<open>yaml.v3\<close>: a handler
  takes the decoded body, \<open>None\<close> when it does not decode.
\<close>

section \<open>Flow references\<close>

definition kindEndpointGroup :: string where "kindEndpointGroup = ''endpoint_group''"

definition Validate :: "FlowReferenceInput \<Rightarrow> inventory_error + unit" where
  "Validate inp =
     (let egSides = (if fr_SrcKind inp = kindEndpointGroup then 1 else 0) + (if fr_DstKind inp = kindEndpointGroup then 1 else 0 :: nat) in
      if fr_Justification inp = '''' then Inl InvConflict
      else if fr_Layer inp = ''perimeter'' then (if egSides \<noteq> 1 then Inl InvConflict else Inr ())
      else if fr_Layer inp = ''internal'' then (if egSides \<noteq> 0 then Inl InvConflict else Inr ())
      else Inl InvConflict)"

definition callerUserID :: "Caller option \<Rightarrow> uuid option" where
  "callerUserID c = (case c of None \<Rightarrow> None | Some k \<Rightarrow> if ca_UserID k = uuid_Nil then None else Some (ca_UserID k))"

definition writeFlowRefStoreError :: "inventory_error \<Rightarrow> 'a flow_reply" where
  "writeFlowRefStoreError err =
     (case err of
        InvNotFound \<Rightarrow> FlowProblem 404 ''flow reference not found''
      | InvConflict \<Rightarrow> FlowProblem 409 ''invalid flow reference''
      | InvOther \<Rightarrow> FlowProblem 500 ''flow reference store error'')"

definition HandleListFlowReferences :: "flow_env \<Rightarrow> string \<Rightarrow> flow_db \<Rightarrow> FlowReference list flow_reply" where
  "HandleListFlowReferences env pathID db =
     (case fe_Parse env pathID of
        None \<Rightarrow> FlowProblem 400 ''invalid cluster id''
      | Some cid \<Rightarrow>
          (case asked env CallReferences (ListFlowReferences (fe_pg env) cid) db of
             Inl err \<Rightarrow> FlowProblem 500 ''list flow references''
           | Inr refs \<Rightarrow> FlowOK refs))"

definition HandleCreateFlowReference ::
    "flow_env \<Rightarrow> Caller option \<Rightarrow> string \<Rightarrow> FlowReferenceInput option \<Rightarrow> flow_db \<Rightarrow> FlowReference flow_reply \<times> flow_db" where
  "HandleCreateFlowReference env caller pathID body db =
     (case fe_Parse env pathID of
        None \<Rightarrow> (FlowProblem 400 ''invalid cluster id'', db)
      | Some cid \<Rightarrow>
          (case body of
             None \<Rightarrow> (FlowProblem 400 ''invalid body'', db)
           | Some inp \<Rightarrow>
               (case Validate inp of
                  Inl err \<Rightarrow> (FlowProblem 409 ''invalid flow reference'', db)
                | Inr _ \<Rightarrow>
                    (case ask env CallReference (CreateFlowReference (fe_pg env) cid inp (callerUserID caller)) db of
                       (Inl err, db1) \<Rightarrow> (FlowProblem 500 ''create flow reference'', db1)
                     | (Inr r, db1) \<Rightarrow> (FlowOK r, db1)))))"

definition HandleUpdateFlowReference ::
    "flow_env \<Rightarrow> string \<Rightarrow> FlowReferenceInput option \<Rightarrow> flow_db \<Rightarrow> FlowReference flow_reply \<times> flow_db" where
  "HandleUpdateFlowReference env pathID body db =
     (case fe_Parse env pathID of
        None \<Rightarrow> (FlowProblem 400 ''invalid id'', db)
      | Some i \<Rightarrow>
          (case body of
             None \<Rightarrow> (FlowProblem 400 ''invalid body'', db)
           | Some inp \<Rightarrow>
               (case Validate inp of
                  Inl err \<Rightarrow> (FlowProblem 409 ''invalid flow reference'', db)
                | Inr _ \<Rightarrow>
                    (case ask env CallReference (UpdateFlowReference (fe_pg env) i inp) db of
                       (Inl err, db1) \<Rightarrow> (writeFlowRefStoreError err, db1)
                     | (Inr r, db1) \<Rightarrow> (FlowOK r, db1)))))"

definition HandleDeleteFlowReference :: "flow_env \<Rightarrow> string \<Rightarrow> flow_db \<Rightarrow> unit flow_reply \<times> flow_db" where
  "HandleDeleteFlowReference env pathID db =
     (case fe_Parse env pathID of
        None \<Rightarrow> (FlowProblem 400 ''invalid id'', db)
      | Some i \<Rightarrow>
          (case ask env CallReference (DeleteFlowReference i) db of
             (Inl err, db1) \<Rightarrow> (writeFlowRefStoreError err, db1)
           | (Inr _, db1) \<Rightarrow> (FlowOK (), db1)))"

text \<open>\<open>marshal\<close> and \<open>unmarshal\<close> are \<^verbatim>\<open>yaml.Marshal\<close> and \<^verbatim>\<open>yaml.Unmarshal\<close> of the document with the list \<open>references\<close>. The body is read through a
  limit of 1 MiB; a body that cannot be read is \<open>None\<close>.\<close>

definition importBodyLimit :: nat where "importBodyLimit = 1048576"

definition HandleExportFlowReferences ::
    "flow_env \<Rightarrow> (FlowReferenceInput list \<Rightarrow> string option) \<Rightarrow> string \<Rightarrow> flow_db \<Rightarrow> string flow_reply" where
  "HandleExportFlowReferences env marshal pathID db =
     (case fe_Parse env pathID of
        None \<Rightarrow> FlowProblem 400 ''invalid cluster id''
      | Some cid \<Rightarrow>
          (case asked env CallReferences (ListFlowReferences (fe_pg env) cid) db of
             Inl err \<Rightarrow> FlowProblem 500 ''list flow references''
           | Inr refs \<Rightarrow>
               (case marshal (map fx_Input refs) of
                  None \<Rightarrow> FlowProblem 500 ''marshal yaml''
                | Some out \<Rightarrow> FlowOK out)))"

definition HandleImportFlowReferences ::
    "flow_env \<Rightarrow> (string \<Rightarrow> FlowReferenceInput list option) \<Rightarrow> Caller option \<Rightarrow> string \<Rightarrow> string option \<Rightarrow> flow_db
       \<Rightarrow> FlowReference list flow_reply \<times> flow_db" where
  "HandleImportFlowReferences env unmarshal caller pathID body db =
     (case fe_Parse env pathID of
        None \<Rightarrow> (FlowProblem 400 ''invalid cluster id'', db)
      | Some cid \<Rightarrow>
          (case body of
             None \<Rightarrow> (FlowProblem 400 ''read body'', db)
           | Some bytes \<Rightarrow>
               (case unmarshal (take importBodyLimit bytes) of
                  None \<Rightarrow> (FlowProblem 400 ''invalid yaml'', db)
                | Some refs \<Rightarrow>
                    if list_ex (\<lambda>inp. Validate inp \<noteq> Inr ()) refs then (FlowProblem 409 ''invalid flow reference'', db)
                    else (case ask env CallReference (ReplaceFlowReferences (fe_pg env) cid refs (callerUserID caller)) db of
                            (Inl err, db1) \<Rightarrow> (FlowProblem 500 ''import flow references'', db1)
                          | (Inr rs, db1) \<Rightarrow> (FlowOK rs, db1)))))"

section \<open>Endpoint groups\<close>

definition HandleListEndpointGroups :: "flow_env \<Rightarrow> flow_db \<Rightarrow> EndpointGroup list flow_reply" where
  "HandleListEndpointGroups env db =
     (case asked env CallGroups (ListEndpointGroups (fe_pg env)) db of
        Inl err \<Rightarrow> FlowProblem 500 ''list endpoint groups''
      | Inr egs \<Rightarrow> FlowOK egs)"

definition HandleGetEndpointGroup :: "flow_env \<Rightarrow> string \<Rightarrow> flow_db \<Rightarrow> EndpointGroup flow_reply" where
  "HandleGetEndpointGroup env pathID db =
     (case fe_Parse env pathID of
        None \<Rightarrow> FlowProblem 400 ''invalid id''
      | Some i \<Rightarrow>
          (case asked env CallGroup (GetEndpointGroup (fe_pg env) i) db of
             Inl InvNotFound \<Rightarrow> FlowProblem 404 ''endpoint group not found''
           | Inl err \<Rightarrow> FlowProblem 500 ''get endpoint group''
           | Inr eg \<Rightarrow> FlowOK eg))"

definition HandleCreateEndpointGroup ::
    "flow_env \<Rightarrow> Caller option \<Rightarrow> EndpointGroupInput option \<Rightarrow> flow_db \<Rightarrow> EndpointGroup flow_reply \<times> flow_db" where
  "HandleCreateEndpointGroup env caller body db =
     (case body of
        None \<Rightarrow> (FlowProblem 400 ''invalid body'', db)
      | Some inp \<Rightarrow>
          (case ask env CallGroup (CreateEndpointGroup (fe_pg env) inp (callerUserID caller)) db of
             (Inl InvConflict, db1) \<Rightarrow> (FlowProblem 409 ''endpoint group name already exists'', db1)
           | (Inl err, db1) \<Rightarrow> (FlowProblem 500 ''create endpoint group'', db1)
           | (Inr eg, db1) \<Rightarrow> (FlowOK eg, db1)))"

definition HandleUpdateEndpointGroup ::
    "flow_env \<Rightarrow> string \<Rightarrow> EndpointGroupInput option \<Rightarrow> flow_db \<Rightarrow> EndpointGroup flow_reply \<times> flow_db" where
  "HandleUpdateEndpointGroup env pathID body db =
     (case fe_Parse env pathID of
        None \<Rightarrow> (FlowProblem 400 ''invalid id'', db)
      | Some i \<Rightarrow>
          (case body of
             None \<Rightarrow> (FlowProblem 400 ''invalid body'', db)
           | Some inp \<Rightarrow>
               (case ask env CallGroup (UpdateEndpointGroup (fe_pg env) i inp) db of
                  (Inl InvNotFound, db1) \<Rightarrow> (FlowProblem 404 ''endpoint group not found'', db1)
                | (Inl InvConflict, db1) \<Rightarrow> (FlowProblem 409 ''endpoint group name already exists'', db1)
                | (Inl InvOther, db1) \<Rightarrow> (FlowProblem 500 ''update endpoint group'', db1)
                | (Inr eg, db1) \<Rightarrow> (FlowOK eg, db1))))"

definition HandleDeleteEndpointGroup :: "flow_env \<Rightarrow> string \<Rightarrow> flow_db \<Rightarrow> unit flow_reply \<times> flow_db" where
  "HandleDeleteEndpointGroup env pathID db =
     (case fe_Parse env pathID of
        None \<Rightarrow> (FlowProblem 400 ''invalid id'', db)
      | Some i \<Rightarrow>
          (case ask env CallGroup (DeleteEndpointGroup i) db of
             (Inl InvNotFound, db1) \<Rightarrow> (FlowProblem 404 ''endpoint group not found'', db1)
           | (Inl err, db1) \<Rightarrow> (FlowProblem 500 ''delete endpoint group'', db1)
           | (Inr _, db1) \<Rightarrow> (FlowOK (), db1)))"

section \<open>Canonical security groups\<close>

record sgWirePeer =
  wp_Kind :: string
  wp_CIDR :: string
  wp_ProviderSGID :: string
  wp_ProviderPrefixID :: string

record sgWireRule =
  wr_Protocol :: string
  wr_FromPort :: "int option"
  wr_ToPort :: "int option"
  wr_Peer :: sgWirePeer
  wr_Description :: string

record sgWireGroup =
  wg_ProviderSGID :: string
  wg_Name :: string
  wg_VPCID :: string
  wg_Ingress :: "sgWireRule list"
  wg_Egress :: "sgWireRule list"
  wg_Tags :: "(string, string) gomap"

definition tagsToJSON :: "(string, string) gomap \<Rightarrow> json" where
  "tagsToJSON m = JObj (map (\<lambda>(k, v). (k, JStr v)) m)"

definition toStoreSGRule :: "string \<Rightarrow> sgWireRule \<Rightarrow> SecurityGroupRuleRow" where
  "toStoreSGRule dir r =
     \<lparr>ru_ID = uuid_Nil, ru_SecurityGroupID = uuid_Nil, ru_Direction = dir, ru_Protocol = wr_Protocol r, ru_FromPort = wr_FromPort r,
      ru_ToPort = wr_ToPort r, ru_PeerKind = wp_Kind (wr_Peer r), ru_PeerCIDR = wp_CIDR (wr_Peer r),
      ru_PeerSGProviderID = wp_ProviderSGID (wr_Peer r), ru_PeerPrefixID = wp_ProviderPrefixID (wr_Peer r), ru_Description = wr_Description r\<rparr>"

definition flattenSGToRules :: "sgWireGroup \<Rightarrow> SecurityGroupRuleRow list" where
  "flattenSGToRules g = map (toStoreSGRule ''ingress'') (wg_Ingress g) @ map (toStoreSGRule ''egress'') (wg_Egress g)"

definition upsertCanonicalSG :: "flow_env \<Rightarrow> uuid \<Rightarrow> sgWireGroup \<Rightarrow> unit flow_op" where
  "upsertCanonicalSG env acct g db =
     (case ask env (CallUpsertSG (wg_ProviderSGID g))
             (UpsertSecurityGroup (fe_pg env) \<lparr>sg_ID = uuid_Nil, sg_CloudAccountID = acct, sg_ProviderSGID = wg_ProviderSGID g,
                sg_Name = wg_Name g, sg_VPCID = wg_VPCID g, sg_Tags = tagsToJSON (wg_Tags g)\<rparr>) db of
        (Inl err, db1) \<Rightarrow> (Inl err, db1)
      | (Inr sgID, db1) \<Rightarrow> ask env (CallReplaceRules sgID) (ReplaceSecurityGroupRules (fe_pg env) sgID (flattenSGToRules g)) db1)"

text \<open>A \<^verbatim>\<open>json.RawMessage\<close> with the type it is decoded into: absent, not decodable, or a value. Each group that is inserted finds fresh ids: \<open>step k\<close>
  is the environment of the \<open>k\<close>-th group of the loop.\<close>

datatype 'a raw = RawAbsent | RawBad | RawValue 'a

fun upsert_groups :: "(nat \<Rightarrow> flow_env) \<Rightarrow> uuid \<Rightarrow> nat \<Rightarrow> sgWireGroup list \<Rightarrow> flow_db \<Rightarrow> flow_db" where
  "upsert_groups step acct k [] db = db"
| "upsert_groups step acct k (g # gs) db = upsert_groups step acct (Suc k) gs (snd (upsertCanonicalSG (step k) acct g db))"

definition persistCanonicalSGs :: "(nat \<Rightarrow> flow_env) \<Rightarrow> uuid \<Rightarrow> sgWireGroup list raw \<Rightarrow> flow_db \<Rightarrow> flow_db" where
  "persistCanonicalSGs step acct raw db =
     (case raw of RawAbsent \<Rightarrow> db | RawBad \<Rightarrow> db | RawValue groups \<Rightarrow> upsert_groups step acct 0 groups db)"

definition IsCanonicalSGPayload :: "json option \<Rightarrow> bool" where
  "IsCanonicalSGPayload raw =
     (case raw of
        Some (JObj kvs) \<Rightarrow>
          (case fold (\<lambda>(k, v) acc. if ToLower k \<noteq> ''schema_version'' then acc
                        else case v of JNum n \<Rightarrow> map_option (\<lambda>_. n) acc | JNull \<Rightarrow> acc | _ \<Rightarrow> None) kvs (Some 0) of
             None \<Rightarrow> False
           | Some n \<Rightarrow> n \<ge> 1)
      | _ \<Rightarrow> False)"

definition persistSGsFromVMIngest ::
    "(nat \<Rightarrow> flow_env) \<Rightarrow> (json \<Rightarrow> sgWireGroup list option) \<Rightarrow> uuid \<Rightarrow> json option \<Rightarrow> flow_db \<Rightarrow> flow_db" where
  "persistSGsFromVMIngest step decode acct raw db =
     (if \<not> IsCanonicalSGPayload raw then db
      else case Option.bind raw decode of
             None \<Rightarrow> db
           | Some groups \<Rightarrow> upsert_groups step acct 0 groups db)"

fun upsert_attachments :: "flow_env \<Rightarrow> VMSecurityGroupAttachment list \<Rightarrow> flow_db \<Rightarrow> VMSecurityGroupAttachment list \<times> flow_db" where
  "upsert_attachments env [] db = ([], db)"
| "upsert_attachments env (a # as) db =
     (case ask env (CallAttach (va_ProviderVMID a) (va_ProviderSGID a)) (UpsertVMSecurityGroupAttachment a) db of
        (Inl err, db1) \<Rightarrow> upsert_attachments env as db1
      | (Inr _, db1) \<Rightarrow> (let (seen, db2) = upsert_attachments env as db1 in (a # seen, db2)))"

definition wire_attachments :: "uuid \<Rightarrow> (string \<times> string list) list \<Rightarrow> VMSecurityGroupAttachment list" where
  "wire_attachments acct entries =
     concat (map (\<lambda>(vm, sgs). map (\<lambda>sg. \<lparr>va_CloudAccountID = acct, va_ProviderVMID = vm, va_ProviderSGID = sg\<rparr>) sgs) entries)"

definition persistVMSGAttachments :: "flow_env \<Rightarrow> uuid \<Rightarrow> (string \<times> string list) list raw \<Rightarrow> flow_db \<Rightarrow> flow_db" where
  "persistVMSGAttachments env acct raw db =
     (let entries = (case raw of RawAbsent \<Rightarrow> [] | RawBad \<Rightarrow> [] | RawValue es \<Rightarrow> es);
          (seen, db1) = upsert_attachments env (wire_attachments acct entries) db
      in snd (ask env CallSweepAttachments (SweepVMSecurityGroupAttachments acct seen) db1))"

record sweepSGsRequest =
  sw_SeenProviderSGIDs :: "string list"
  sw_Groups :: "sgWireGroup list raw"
  sw_Attachments :: "(string \<times> string list) list raw"

definition persistAccountSGEnrichment :: "(nat \<Rightarrow> flow_env) \<Rightarrow> uuid \<Rightarrow> sweepSGsRequest \<Rightarrow> flow_db \<Rightarrow> flow_db" where
  "persistAccountSGEnrichment step acct body db =
     persistVMSGAttachments (step 0) acct (sw_Attachments body) (persistCanonicalSGs step acct (sw_Groups body) db)"

definition HandleSweepSecurityGroups ::
    "(nat \<Rightarrow> flow_env) \<Rightarrow> Caller option \<Rightarrow> string \<Rightarrow> sweepSGsRequest option \<Rightarrow> flow_db \<Rightarrow> unit flow_reply \<times> flow_db" where
  "HandleSweepSecurityGroups step caller pathID body db =
     (let env = step 0 in
      case caller of
        None \<Rightarrow> (FlowProblem 403 ''Forbidden'', db)
      | Some c \<Rightarrow>
          if \<not> Caller_HasScope c ''vm-collector'' then (FlowProblem 403 ''Forbidden'', db)
          else if pathID = '''' then (FlowProblem 400 ''Bad Request'', db)
          else case fe_Parse env pathID of
            None \<Rightarrow> (FlowProblem 400 ''Bad Request'', db)
          | Some acct \<Rightarrow>
              (case EnforceCloudAccountBinding c acct of
                 Some err \<Rightarrow> (FlowProblem 403 ''Forbidden'', db)
               | None \<Rightarrow>
                   (case body of
                      None \<Rightarrow> (FlowProblem 400 ''Bad Request'', db)
                    | Some req \<Rightarrow>
                        (case ask env CallSweepSGs (SweepSecurityGroupsByAccount acct (sw_SeenProviderSGIDs req)) db of
                           (Inl err, db1) \<Rightarrow> (FlowProblem 500 ''Internal Server Error'', db1)
                         | (Inr _, db1) \<Rightarrow>
                             (case asked env CallSettings GetSettings db1 of
                                Inr settings \<Rightarrow>
                                  (FlowOK (), if se_FlowMatrixEnabled settings then persistAccountSGEnrichment step acct req db1 else db1)
                              | Inl err \<Rightarrow> (FlowOK (), db1))))))"

section \<open>Network rules of an asset\<close>

definition workloadLabelsAsJSON :: "workload_row \<Rightarrow> json" where
  "workloadLabelsAsJSON wl = (case wc_labels (en_obs wl) of JObj kvs \<Rightarrow> JObj kvs | _ \<Rightarrow> JObj [])"

record matchingPolicy =
  mp_ID :: uuid
  mp_Name :: string
  mp_PolicyTypes :: "string list"
  mp_Rules :: "NetworkPolicyRuleRow list"

record workload_rules =
  wl_ID :: uuid
  wl_policies :: "matchingPolicy list"
  wl_k8s_default_allow :: bool

definition matching_policy :: "flow_env \<Rightarrow> flow_db \<Rightarrow> NetworkPolicyRow \<Rightarrow> matchingPolicy" where
  "matching_policy env db p =
     \<lparr>mp_ID = np_ID p, mp_Name = np_Name p, mp_PolicyTypes = np_PolicyTypes p,
      mp_Rules = (case asked env (CallPolicyRules (np_ID p)) (ListNetworkPolicyRules (np_ID p)) db of Inl err \<Rightarrow> [] | Inr rs \<Rightarrow> rs)\<rparr>"

definition HandleWorkloadNetworkRules ::
    "flow_env \<Rightarrow> Caller option \<Rightarrow> string \<Rightarrow> inventory \<Rightarrow> flow_db \<Rightarrow> workload_rules flow_reply" where
  "HandleWorkloadNetworkRules env caller pathID idb db =
     (if \<not> requireScope caller ''read'' then FlowProblem 403 ''Forbidden''
      else if pathID = '''' then FlowProblem 400 ''Bad Request''
      else case fe_Parse env pathID of
        None \<Rightarrow> FlowProblem 400 ''Bad Request''
      | Some i \<Rightarrow>
          (case (if fe_up env CallWorkload then GetWorkload idb i else Inl InvOther) of
             Inl InvNotFound \<Rightarrow> FlowProblem 404 ''Not Found''
           | Inl err \<Rightarrow> FlowProblem 500 ''Internal Server Error''
           | Inr wl \<Rightarrow>
               (case asked env CallWorkloadPolicies
                       (ListNetworkPoliciesForWorkload (fe_pg env) (en_parent wl) (workloadLabelsAsJSON wl)) db of
                  Inl err \<Rightarrow> FlowProblem 500 ''Internal Server Error''
                | Inr policies \<Rightarrow>
                    FlowOK \<lparr>wl_ID = en_id wl, wl_policies = map (matching_policy env db) policies, wl_k8s_default_allow = (policies = [])\<rparr>)))"

text \<open>The columns of a virtual machine that the handler reads, and the provider ids its payload decodes to.\<close>

record vm_groups =
  vg_ID :: uuid
  vg_CloudAccountID :: uuid
  vg_SecurityGroups :: "json option"

datatype vm_rules = VMStale uuid | VMRules uuid "(SecurityGroupRow \<times> SecurityGroupRuleRow list) list" bool

definition vm_group_rules :: "flow_env \<Rightarrow> flow_db \<Rightarrow> uuid \<Rightarrow> string \<Rightarrow> (SecurityGroupRow \<times> SecurityGroupRuleRow list) list" where
  "vm_group_rules env db acct psg =
     (case asked env (CallGroupByProvider psg) (GetSecurityGroupByProviderID acct psg) db of
        Inl err \<Rightarrow> []
      | Inr sg \<Rightarrow> [(sg, case asked env (CallSGRules (sg_ID sg)) (ListSecurityGroupRules (sg_ID sg)) db of Inl err \<Rightarrow> [] | Inr rs \<Rightarrow> rs)])"

definition HandleVMNetworkRules ::
    "flow_env \<Rightarrow> (json \<Rightarrow> string list option) \<Rightarrow> (uuid \<Rightarrow> inventory_error + vm_groups) \<Rightarrow> Caller option \<Rightarrow> string \<Rightarrow> flow_db \<Rightarrow> vm_rules flow_reply" where
  "HandleVMNetworkRules env decode getVM caller pathID db =
     (if \<not> requireScope caller ''read'' then FlowProblem 403 ''Forbidden''
      else if pathID = '''' then FlowProblem 400 ''Bad Request''
      else case fe_Parse env pathID of
        None \<Rightarrow> FlowProblem 400 ''Bad Request''
      | Some i \<Rightarrow>
          (case getVM i of
             Inl InvNotFound \<Rightarrow> FlowProblem 404 ''Not Found''
           | Inl err \<Rightarrow> FlowProblem 500 ''Internal Server Error''
           | Inr vm \<Rightarrow>
               if \<not> IsCanonicalSGPayload (vg_SecurityGroups vm) then FlowOK (VMStale (vg_ID vm))
               else case Option.bind (vg_SecurityGroups vm) decode of
                      None \<Rightarrow> FlowProblem 500 ''Internal Server Error''
                    | Some psgs \<Rightarrow>
                        let out = concat (map (vm_group_rules env db (vg_CloudAccountID vm)) psgs)
                        in FlowOK (VMRules (vg_ID vm) out (out = []))))"

section \<open>Lemmas\<close>

definition reference_ok :: "flow_db \<Rightarrow> FlowReference \<Rightarrow> bool" where
  "reference_ok db r \<longleftrightarrow> Validate (fx_Input r) = Inr () \<and> ref_row_ok (fx_Input r) \<and> fx_ClusterID r \<in> set (fd_clusters db)"

definition references_ok :: "flow_db \<Rightarrow> bool" where
  "references_ok db \<longleftrightarrow> list_all (reference_ok db) (fd_refs db)"

lemma new_reference_Some:
  "new_reference e cid c k inp = Some r \<longleftrightarrow> ref_row_ok inp \<and>
     r = \<lparr>fx_ID = pe_id e k, fx_ClusterID = cid, fx_Input = inp, fx_CreatedBy = c, fx_CreatedAt = pe_NOW e, fx_UpdatedAt = pe_NOW e\<rparr>"
  by (auto simp: new_reference_def)

lemma Validate_unit: "Validate inp = Inr u \<longleftrightarrow> Validate inp = Inr ()"
  by (cases u) simp

lemma create_reference_ok: "references_ok db \<Longrightarrow> references_ok (snd (HandleCreateFlowReference env c path body db))"
  by (auto simp: HandleCreateFlowReference_def references_ok_def reference_ok_def ask_def CreateFlowReference_def new_reference_Some list_all_iff
      split: option.splits sum.splits prod.splits if_splits)

lemma update_reference_ok: "references_ok db \<Longrightarrow> references_ok (snd (HandleUpdateFlowReference env path body db))"
  by (auto simp: HandleUpdateFlowReference_def references_ok_def reference_ok_def ask_def UpdateFlowReference_def list_all_iff Let_def
      split: option.splits sum.splits prod.splits if_splits dest!: find_SomeD)

lemma delete_reference_ok: "references_ok db \<Longrightarrow> references_ok (snd (HandleDeleteFlowReference env path db))"
  by (auto simp: HandleDeleteFlowReference_def references_ok_def reference_ok_def ask_def DeleteFlowReference_def list_all_iff
      split: option.splits sum.splits prod.splits if_splits)

lemma Import_cases:
  "snd (HandleImportFlowReferences env unmarshal c path body db) = db \<or>
   (\<exists>cid refs rs. fe_Parse env path = Some cid \<and> Option.bind body (unmarshal \<circ> take importBodyLimit) = Some refs \<and> list_all (\<lambda>i. Validate i = Inr ()) refs \<and>
      (refs \<noteq> [] \<longrightarrow> cid \<in> set (fd_clusters db)) \<and> insert_rows (new_reference (fe_pg env) cid (callerUserID c)) 0 refs = Some rs \<and>
      snd (HandleImportFlowReferences env unmarshal c path body db) = db\<lparr>fd_refs := filter (\<lambda>r. fx_ClusterID r \<noteq> cid) (fd_refs db) @ rs\<rparr>)"
  by (auto simp: HandleImportFlowReferences_def ask_def ReplaceFlowReferences_def ListFlowReferences_def list_ex_iff list_all_iff
      split: option.splits sum.splits prod.splits if_splits)

lemma import_reference_ok:
  assumes "references_ok db"
  shows "references_ok (snd (HandleImportFlowReferences env unmarshal c path body db))"
  using Import_cases [of env unmarshal c path body db]
proof (elim disjE exE conjE)
  fix cid refs rs
  assume v: "list_all (\<lambda>i. Validate i = Inr ()) refs" "refs \<noteq> [] \<longrightarrow> cid \<in> set (fd_clusters db)"
    and rs: "insert_rows (new_reference (fe_pg env) cid (callerUserID c)) 0 refs = Some rs"
    and db': "snd (HandleImportFlowReferences env unmarshal c path body db) = db\<lparr>fd_refs := filter (\<lambda>r. fx_ClusterID r \<noteq> cid) (fd_refs db) @ rs\<rparr>"
  have "reference_ok db r" if r: "r \<in> set rs" for r
  proof -
    obtain i x where "x \<in> set refs" "new_reference (fe_pg env) cid (callerUserID c) i x = Some r" by (rule insert_rows_set [OF rs r])
    with v show ?thesis unfolding new_reference_Some reference_ok_def list_all_iff by fastforce
  qed
  with assms show ?thesis unfolding db' by (auto simp: references_ok_def reference_ok_def list_all_iff)
qed (simp add: assms)

lemma insert_rows_new_references:
  "list_all ref_row_ok ins \<Longrightarrow>
     \<exists>rs. insert_rows (new_reference e cid c) k ins = Some rs \<and> map fx_Input rs = ins \<and> list_all (\<lambda>r. fx_ClusterID r = cid) rs"
proof (induction ins arbitrary: k)
  case (Cons a ins)
  then obtain rs where "insert_rows (new_reference e cid c) (Suc k) ins = Some rs" "map fx_Input rs = ins" "list_all (\<lambda>r. fx_ClusterID r = cid) rs"
    by fastforce
  moreover have "new_reference e cid c k a = Some \<lparr>fx_ID = pe_id e k, fx_ClusterID = cid, fx_Input = a, fx_CreatedBy = c,
      fx_CreatedAt = pe_NOW e, fx_UpdatedAt = pe_NOW e\<rparr>" using Cons.prems by (simp add: new_reference_Some)
  ultimately show ?case by simp
qed simp

section \<open>Properties of flow references\<close>

text \<open>The requests that change references, one after the other.\<close>

datatype ref_request =
    CreateRef flow_env "Caller option" string "FlowReferenceInput option"
  | UpdateRef flow_env string "FlowReferenceInput option"
  | DeleteRef flow_env string
  | ImportRefs flow_env "string \<Rightarrow> FlowReferenceInput list option" "Caller option" string "string option"

fun serve_ref :: "ref_request \<Rightarrow> flow_db \<Rightarrow> flow_db" where
  "serve_ref (CreateRef env c path body) db = snd (HandleCreateFlowReference env c path body db)"
| "serve_ref (UpdateRef env path body) db = snd (HandleUpdateFlowReference env path body db)"
| "serve_ref (DeleteRef env path) db = snd (HandleDeleteFlowReference env path db)"
| "serve_ref (ImportRefs env unmarshal c path body) db = snd (HandleImportFlowReferences env unmarshal c path body db)"

lemma serve_ref_ok: "references_ok db \<Longrightarrow> references_ok (serve_ref q db)"
  by (cases q) (simp_all add: create_reference_ok update_reference_ok delete_reference_ok import_reference_ok)

text \<open>C22: Flow references, invariant. Whatever requests create, change, delete and import references, every stored reference has a justification, belongs to a cluster,
  and names an endpoint group on exactly one side when it is a perimeter flow and on none when it is internal, so that its zone in the
  matrix is its endpoint group.\<close>

theorem stored_references_valid:
  assumes "references_ok db" and "r \<in> set (fd_refs (fold serve_ref qs db))"
  shows "fr_Justification (fx_Input r) \<noteq> '''' \<and> fx_ClusterID r \<in> set (fd_clusters (fold serve_ref qs db)) \<and>
    (fr_Layer (fx_Input r) = ''perimeter'' \<and> (fr_SrcKind (fx_Input r) = ''endpoint_group'') \<noteq> (fr_DstKind (fx_Input r) = ''endpoint_group'') \<and>
       ref_zone (load_reference env r) =
         (if fr_SrcKind (fx_Input r) = ''endpoint_group'' then fr_SrcRef (fx_Input r) else fr_DstRef (fx_Input r)) \<or>
     fr_Layer (fx_Input r) = ''internal'' \<and> fr_SrcKind (fx_Input r) \<noteq> ''endpoint_group'' \<and> fr_DstKind (fx_Input r) \<noteq> ''endpoint_group'')"
proof -
  have "references_ok (fold serve_ref qs db)"
    using assms(1) by (induction qs arbitrary: db) (simp_all add: serve_ref_ok)
  with assms(2) have "reference_ok (fold serve_ref qs db) r" by (auto simp: references_ok_def list_all_iff)
  then show ?thesis
    by (auto simp: reference_ok_def Validate_def kindEndpointGroup_def Let_def ref_zone_def load_reference_def split: if_splits)
qed

text \<open>C24: Flow references, round trip. Importing the document that an export wrote gives the cluster the same references again, each as often as before, and
  leaves the references of other clusters alone, when the document fits the size limit.\<close>

theorem export_import_roundtrip:
  assumes "references_ok db" "HandleExportFlowReferences env marshal path db = FlowOK doc" "length doc \<le> importBodyLimit"
    and yaml: "\<And>refs text. marshal refs = Some text \<Longrightarrow> unmarshal text = Some refs"
    and "fe_Parse env path = Some cid" "fe_up env CallReference" "cid \<in> set (fd_clusters db)"
  shows "\<exists>rs db'. HandleImportFlowReferences env unmarshal caller path (Some doc) db = (FlowOK rs, db') \<and>
    mset (map fx_Input rs) = mset (map fx_Input (filter (\<lambda>r. fx_ClusterID r = cid) (fd_refs db))) \<and>
    filter (\<lambda>r. fx_ClusterID r \<noteq> cid) (fd_refs db') = filter (\<lambda>r. fx_ClusterID r \<noteq> cid) (fd_refs db) \<and>
    mset rs = mset (filter (\<lambda>r. fx_ClusterID r = cid) (fd_refs db'))"
proof -
  let ?old = "filter (\<lambda>r. fx_ClusterID r = cid) (fd_refs db)"
  obtain refs where list: "ListFlowReferences (fe_pg env) cid db = (Inr refs, db)" and doc: "marshal (map fx_Input refs) = Some doc"
    using assms(2,5) by (auto simp: HandleExportFlowReferences_def ask_def ListFlowReferences_def split: option.splits sum.splits if_splits)
  have refs: "mset refs = mset ?old" using list by (auto simp: ListFlowReferences_def)
  then have sub: "set refs \<subseteq> set (fd_refs db)" by (metis filter_is_subset mset_eq_setD)
  then have ok: "list_all ref_row_ok (map fx_Input refs)" "\<not> list_ex (\<lambda>i. Validate i \<noteq> Inr ()) (map fx_Input refs)"
    using assms(1) by (auto simp: references_ok_def reference_ok_def list_all_iff list_ex_iff)
  obtain rs where rs: "insert_rows (new_reference (fe_pg env) cid (callerUserID caller)) 0 (map fx_Input refs) = Some rs"
    "map fx_Input rs = map fx_Input refs" "list_all (\<lambda>r. fx_ClusterID r = cid) rs"
    using insert_rows_new_references [OF ok(1)] by blast
  let ?db' = "db\<lparr>fd_refs := filter (\<lambda>r. fx_ClusterID r \<noteq> cid) (fd_refs db) @ rs\<rparr>"
  have mine: "filter (\<lambda>r. fx_ClusterID r = cid) (fd_refs ?db') = rs" using rs(3) by (auto simp: list_all_iff intro!: filter_True)
  have other: "filter (\<lambda>r. fx_ClusterID r \<noteq> cid) (fd_refs ?db') = filter (\<lambda>r. fx_ClusterID r \<noteq> cid) (fd_refs db)"
    using rs(3) by (auto simp: list_all_iff)
  have "HandleImportFlowReferences env unmarshal caller path (Some doc) db = (FlowOK (order_refs (fe_pg env) rs), ?db')"
    using assms(3,5-7) yaml [OF doc] ok(2) rs(1) mine
    by (simp add: HandleImportFlowReferences_def ask_def ReplaceFlowReferences_def ListFlowReferences_def)
  moreover have "mset (map fx_Input (order_refs (fe_pg env) rs)) = mset (map fx_Input ?old)"
    using rs(2) refs by (metis mset_map mset_order_refs)
  ultimately show ?thesis using mine other by (intro exI [of _ "order_refs (fe_pg env) rs"] exI [of _ ?db'] conjI) simp_all
qed

section \<open>Lemmas on the sweep\<close>

text \<open>A group of another account with its rules, out of reach of what is carried for \<open>acct\<close>.\<close>

definition apart :: "uuid \<Rightarrow> SecurityGroupRow \<Rightarrow> SecurityGroupRuleRow list \<Rightarrow> flow_db \<Rightarrow> bool" where
  "apart acct sg rules db \<longleftrightarrow>
     sg \<in> set (fd_sgs db) \<and> sg_CloudAccountID sg \<noteq> acct \<and>
     (\<forall>r\<in>set (fd_sgs db). sg_CloudAccountID r = acct \<longrightarrow> sg_ID r \<noteq> sg_ID sg) \<and>
     filter (\<lambda>r. ru_SecurityGroupID r = sg_ID sg) (fd_sg_rules db) = rules"

lemma UpsertSecurityGroup_apart:
  assumes "apart acct sg rules db" "pe_id e 0 \<noteq> sg_ID sg" "sg_CloudAccountID row = acct" "UpsertSecurityGroup e row db = (Inr i, db')"
  shows "apart acct sg rules db' \<and> i \<noteq> sg_ID sg"
  using assms
  by (auto simp: UpsertSecurityGroup_def apart_def image_iff split: if_splits option.splits dest!: find_SomeD)

lemma ReplaceSecurityGroupRules_apart:
  assumes "apart acct sg rules db" "i \<noteq> sg_ID sg" "ReplaceSecurityGroupRules e i new db = (x, db')"
  shows "apart acct sg rules db'"
proof -
  have row: "ru_SecurityGroupID y = i" if "sg_rule_row e i k r = Some y" for k r y
    using that by (auto simp: sg_rule_row_def split: if_splits)
  have "ru_SecurityGroupID y = i" if "insert_rows (sg_rule_row e i) 1 new = Some rows" "y \<in> set rows" for rows y
    using insert_rows_set [OF that] row by metis
  with assms(2) have none: "filter (\<lambda>r. ru_SecurityGroupID r = sg_ID sg) rows = []" if "insert_rows (sg_rule_row e i) 1 new = Some rows" for rows
    using that by (auto simp: filter_empty_conv)
  have other: "filter (\<lambda>r. ru_SecurityGroupID r \<noteq> i \<and> ru_SecurityGroupID r = sg_ID sg) xs = filter (\<lambda>r. ru_SecurityGroupID r = sg_ID sg) xs" for xs
    by (rule filter_cong) (use assms(2) in auto)
  show ?thesis using assms none
    by (auto simp: ReplaceSecurityGroupRules_def apart_def other split: if_splits option.splits)
qed

lemma upsertCanonicalSG_apart:
  assumes "apart acct sg rules db" "pe_id (fe_pg env) 0 \<noteq> sg_ID sg"
  shows "apart acct sg rules (snd (upsertCanonicalSG env acct g db))"
proof -
  let ?row = "\<lparr>sg_ID = uuid_Nil, sg_CloudAccountID = acct, sg_ProviderSGID = wg_ProviderSGID g, sg_Name = wg_Name g, sg_VPCID = wg_VPCID g,
    sg_Tags = tagsToJSON (wg_Tags g)\<rparr>"
  have same: "db' = db" if "UpsertSecurityGroup (fe_pg env) ?row db = (Inl err, db')" for err db'
    using that by (auto simp: UpsertSecurityGroup_def split: if_splits option.splits)
  show ?thesis
  proof (cases "ask env (CallUpsertSG (wg_ProviderSGID g)) (UpsertSecurityGroup (fe_pg env) ?row) db")
    case (Pair res db1)
    show ?thesis
    proof (cases res)
      case (Inl err)
      with Pair same have "db1 = db" by (auto simp: ask_def split: if_splits)
      with Pair Inl assms(1) show ?thesis by (simp add: upsertCanonicalSG_def)
    next
      case (Inr i)
      with Pair have "UpsertSecurityGroup (fe_pg env) ?row db = (Inr i, db1)" by (auto simp: ask_def split: if_splits)
      from UpsertSecurityGroup_apart [OF assms _ this] have *: "apart acct sg rules db1" "i \<noteq> sg_ID sg" by simp_all
      have "apart acct sg rules (snd (ask env c (ReplaceSecurityGroupRules e i rs) db1))" for c e rs
        using ReplaceSecurityGroupRules_apart [OF *] * by (cases "ReplaceSecurityGroupRules e i rs db1") (simp add: ask_def)
      with Pair Inr show ?thesis by (simp add: upsertCanonicalSG_def)
    qed
  qed
qed

lemma upsert_groups_apart:
  "apart acct sg rules db \<Longrightarrow> (\<And>k. pe_id (fe_pg (step k)) 0 \<noteq> sg_ID sg) \<Longrightarrow> apart acct sg rules (upsert_groups step acct k gs db)"
  by (induction gs arbitrary: k db) (simp_all add: upsertCanonicalSG_apart)

text \<open>What the group upserts and the attachment upserts leave alone.\<close>

lemma upsertCanonicalSG_frame:
  "fd_attachments (snd (upsertCanonicalSG env acct g db)) = fd_attachments db"
  "fd_accounts (snd (upsertCanonicalSG env acct g db)) = fd_accounts db"
  by (auto simp: upsertCanonicalSG_def ask_def UpsertSecurityGroup_def ReplaceSecurityGroupRules_def split: prod.splits sum.splits option.splits if_splits)

lemma upsert_groups_frame:
  "fd_attachments (upsert_groups step acct k gs db) = fd_attachments db" "fd_accounts (upsert_groups step acct k gs db) = fd_accounts db"
  by (induction gs arbitrary: k db) (simp_all add: upsertCanonicalSG_frame)

lemma persistCanonicalSGs_frame:
  "fd_attachments (persistCanonicalSGs step acct raw db) = fd_attachments db" "fd_accounts (persistCanonicalSGs step acct raw db) = fd_accounts db"
  by (simp_all add: persistCanonicalSGs_def upsert_groups_frame split: raw.splits)

lemma upsert_attachments_frame:
  assumes "list_all (\<lambda>a. va_CloudAccountID a = acct) as" "upsert_attachments env as db = (seen, db')"
  shows "fd_sgs db' = fd_sgs db \<and> fd_sg_rules db' = fd_sg_rules db \<and> set seen \<subseteq> set as \<and>
    filter (\<lambda>a. va_CloudAccountID a \<noteq> acct) (fd_attachments db') = filter (\<lambda>a. va_CloudAccountID a \<noteq> acct) (fd_attachments db)"
  using assms
proof (induction as arbitrary: db seen db')
  case (Cons a as)
  then show ?case
    by (fastforce simp: ask_def UpsertVMSecurityGroupAttachment_def split: prod.splits sum.splits if_splits)
qed simp

lemma upsert_attachments_all:
  assumes "\<And>vm sg. fe_up env (CallAttach vm sg)" "acct \<in> set (fd_accounts db)" "list_all (\<lambda>a. va_CloudAccountID a = acct) as"
  shows "\<exists>db'. upsert_attachments env as db = (as, db') \<and> set (fd_attachments db') = set (fd_attachments db) \<union> set as \<and> fd_accounts db' = fd_accounts db"
  using assms(2,3)
proof (induction as arbitrary: db)
  case (Cons a as)
  obtain db1 where one: "UpsertVMSecurityGroupAttachment a db = (Inr (), db1)" "fd_accounts db1 = fd_accounts db"
    "set (fd_attachments db1) = insert a (set (fd_attachments db))"
    using Cons.prems by (cases "a \<in> set (fd_attachments db)") (auto simp: UpsertVMSecurityGroupAttachment_def)
  obtain db' where "upsert_attachments env as db1 = (as, db')" "set (fd_attachments db') = set (fd_attachments db1) \<union> set as" "fd_accounts db' = fd_accounts db1"
    using Cons.IH [of db1] Cons.prems one(2) by auto
  with one show ?case by (simp add: ask_def assms(1))
qed simp

lemma wire_attachments_account: "list_all (\<lambda>a. va_CloudAccountID a = acct) (wire_attachments acct es)"
  by (auto simp: wire_attachments_def list_all_iff)

lemma filter_filter_neg: "(\<And>x. P x \<Longrightarrow> Q x) \<Longrightarrow> filter P (filter Q xs) = filter P xs"
  by (induction xs) auto

lemma SweepAttachments_frame:
  "fd_sgs (snd (SweepVMSecurityGroupAttachments acct seen db)) = fd_sgs db"
  "fd_sg_rules (snd (SweepVMSecurityGroupAttachments acct seen db)) = fd_sg_rules db"
  "filter (\<lambda>a. va_CloudAccountID a \<noteq> acct) (fd_attachments (snd (SweepVMSecurityGroupAttachments acct seen db))) =
     filter (\<lambda>a. va_CloudAccountID a \<noteq> acct) (fd_attachments db)"
  by (auto simp: SweepVMSecurityGroupAttachments_def Let_def intro!: filter_cong)

lemma persistVMSGAttachments_frame:
  "fd_sgs (persistVMSGAttachments env acct raw db) = fd_sgs db \<and> fd_sg_rules (persistVMSGAttachments env acct raw db) = fd_sg_rules db \<and>
   filter (\<lambda>a. va_CloudAccountID a \<noteq> acct) (fd_attachments (persistVMSGAttachments env acct raw db)) =
     filter (\<lambda>a. va_CloudAccountID a \<noteq> acct) (fd_attachments db)"
proof -
  let ?as = "wire_attachments acct (case raw of RawAbsent \<Rightarrow> [] | RawBad \<Rightarrow> [] | RawValue es \<Rightarrow> es)"
  obtain seen db1 where u: "upsert_attachments env ?as db = (seen, db1)" by fastforce
  show ?thesis
    using upsert_attachments_frame [OF wire_attachments_account u]
    unfolding persistVMSGAttachments_def Let_def u prod.case ask_def by (simp add: SweepAttachments_frame)
qed

lemma HandleSweep_cases:
  assumes "HandleSweepSecurityGroups step caller path body db = (reply, db')"
  obtains (refused) status title where "reply = FlowProblem status title" "db' = db"
  | (carried) c acct req db1 where "reply = FlowOK ()" "caller = Some c" "Caller_HasScope c ''vm-collector''" "fe_Parse (step 0) path = Some acct"
      "EnforceCloudAccountBinding c acct = None" "body = Some req" "fe_up (step 0) CallSweepSGs"
      "db1 = snd (SweepSecurityGroupsByAccount acct (sw_SeenProviderSGIDs req) db)"
      "db' = (if fe_up (step 0) CallSettings \<and> se_FlowMatrixEnabled (fd_settings db) then persistAccountSGEnrichment step acct req db1 else db1)"
proof (cases "\<exists>c acct req. caller = Some c \<and> Caller_HasScope c ''vm-collector'' \<and> path \<noteq> '''' \<and> fe_Parse (step 0) path = Some acct \<and>
    EnforceCloudAccountBinding c acct = None \<and> body = Some req \<and> fe_up (step 0) CallSweepSGs")
  case True
  then obtain c acct req where q: "caller = Some c" "Caller_HasScope c ''vm-collector''" "path \<noteq> ''''" "fe_Parse (step 0) path = Some acct"
    "EnforceCloudAccountBinding c acct = None" "body = Some req" "fe_up (step 0) CallSweepSGs" by blast
  obtain db1 where sweep: "SweepSecurityGroupsByAccount acct (sw_SeenProviderSGIDs req) db = (Inr (), db1)" "fd_settings db1 = fd_settings db"
    by (simp add: SweepSecurityGroupsByAccount_def Let_def)
  have "reply = FlowOK ()"
    "db' = (if fe_up (step 0) CallSettings \<and> se_FlowMatrixEnabled (fd_settings db) then persistAccountSGEnrichment step acct req db1 else db1)"
    using assms q sweep by (cases "fe_up (step 0) CallSettings"; auto simp: HandleSweepSecurityGroups_def ask_def GetSettings_def)+
  with q sweep show thesis by (intro carried) simp_all
next
  case False
  then have "\<exists>status title. reply = FlowProblem status title \<and> db' = db"
    using assms by (auto simp: HandleSweepSecurityGroups_def Let_def ask_def split: option.splits if_splits)
  then show thesis using refused by blast
qed

section \<open>Properties of the sweep\<close>

text \<open>C17: Security group sweep, safety. A sweep is carried out only for a caller with the collector scope and bound to the account of the path; a refused one changes
  nothing; and whatever a sweep carries, the groups of other accounts stay with their rules, and so do the attachments of other accounts.\<close>

theorem sweep_confined:
  assumes "HandleSweepSecurityGroups step caller path body db = (reply, db')" "fe_Parse (step 0) path = Some acct"
    and "sg \<in> set (fd_sgs db)" "sg_CloudAccountID sg \<noteq> acct" "distinct (map sg_ID (fd_sgs db))" "\<And>k. pe_id (fe_pg (step k)) 0 \<noteq> sg_ID sg"
  shows "(case reply of
            FlowOK _ \<Rightarrow> \<exists>c. caller = Some c \<and> ''vm-collector'' \<in> set (ca_Scopes c) \<and> ca_BoundCloudAccountID c = Some acct
          | FlowProblem _ _ \<Rightarrow> db' = db) \<and>
    sg \<in> set (fd_sgs db') \<and>
    filter (\<lambda>r. ru_SecurityGroupID r = sg_ID sg) (fd_sg_rules db') = filter (\<lambda>r. ru_SecurityGroupID r = sg_ID sg) (fd_sg_rules db) \<and>
    filter (\<lambda>a. va_CloudAccountID a \<noteq> acct) (fd_attachments db') = filter (\<lambda>a. va_CloudAccountID a \<noteq> acct) (fd_attachments db)"
  using assms(1)
proof (cases rule: HandleSweep_cases)
  case (carried c acct' req db1)
  let ?rules = "filter (\<lambda>r. ru_SecurityGroupID r = sg_ID sg) (fd_sg_rules db)"
  have acct: "acct' = acct" using carried assms(2) by simp
  have "''vm-collector'' \<in> set (ca_Scopes c)" using carried(3) by (simp add: Caller_HasScope_def has_scope_iff)
  then have bound: "ca_BoundCloudAccountID c = Some acct"
    using carried(5) acct by (auto simp: EnforceCloudAccountBinding_def Let_def list_ex_iff split: option.splits if_splits)
  have uniq: "sg_ID r \<noteq> sg_ID sg" if "r \<in> set (fd_sgs db)" "sg_CloudAccountID r = acct" for r
    using that assms(3-5) by (auto simp: distinct_map inj_on_def)
  then have cascade: "filter (\<lambda>x. ru_SecurityGroupID x \<notin> sg_ID ` {x \<in> set (fd_sgs db). sg_CloudAccountID x = acct \<and> P x} \<and>
      ru_SecurityGroupID x = sg_ID sg) (fd_sg_rules db) = ?rules" for P
    by (intro filter_cong) auto
  have db1: "apart acct sg ?rules db1" "fd_attachments db1 = fd_attachments db"
    using assms(3,4) uniq unfolding carried(8) acct
    by (auto simp: apart_def SweepSecurityGroupsByAccount_def Let_def cascade)
  have "apart acct sg ?rules (persistCanonicalSGs step acct raw db1)" for raw
    using upsert_groups_apart [OF db1(1), of step] assms(6) db1(1) by (simp add: persistCanonicalSGs_def split: raw.splits)
  then have "apart acct sg ?rules (persistAccountSGEnrichment step acct req db1) \<and>
      filter (\<lambda>a. va_CloudAccountID a \<noteq> acct) (fd_attachments (persistAccountSGEnrichment step acct req db1)) =
        filter (\<lambda>a. va_CloudAccountID a \<noteq> acct) (fd_attachments db)"
    unfolding persistAccountSGEnrichment_def by (simp add: apart_def persistVMSGAttachments_frame persistCanonicalSGs_frame db1(2))
  then have "apart acct sg ?rules db' \<and> filter (\<lambda>a. va_CloudAccountID a \<noteq> acct) (fd_attachments db') =
        filter (\<lambda>a. va_CloudAccountID a \<noteq> acct) (fd_attachments db)"
    unfolding carried(9) acct using db1 by simp
  with carried bound \<open>''vm-collector'' \<in> set (ca_Scopes c)\<close> show ?thesis by (auto simp: apart_def)
qed (use assms(3) in simp_all)

text \<open>Security group sweep, functional. With the feature on and the store answering, a sweep leaves for the account exactly the attachments its body lists;
  a body without attachments, or with attachments that do not decode, counts as listing none and removes them all.\<close>

theorem sweep_attachments_exact:
  assumes "HandleSweepSecurityGroups step caller path (Some req) db = (FlowOK (), db')" "fe_Parse (step 0) path = Some acct"
    and "se_FlowMatrixEnabled (fd_settings db)" "fe_up (step 0) CallSettings" "fe_up (step 0) CallSweepAttachments"
    and "\<And>vm sg. fe_up (step 0) (CallAttach vm sg)" "acct \<in> set (fd_accounts db)"
  shows "{a \<in> set (fd_attachments db'). va_CloudAccountID a = acct} =
    set (wire_attachments acct (case sw_Attachments req of RawValue es \<Rightarrow> es | _ \<Rightarrow> []))"
proof -
  let ?es = "case sw_Attachments req of RawValue es \<Rightarrow> es | _ \<Rightarrow> []"
  let ?db1 = "snd (SweepSecurityGroupsByAccount acct (sw_SeenProviderSGIDs req) db)"
  let ?db2 = "persistCanonicalSGs step acct (sw_Groups req) ?db1"
  have db': "db' = persistVMSGAttachments (step 0) acct (sw_Attachments req) ?db2"
    using assms(1-4) by (auto elim!: HandleSweep_cases simp: persistAccountSGEnrichment_def)
  have "acct \<in> set (fd_accounts ?db2)"
    using assms(7) by (simp add: persistCanonicalSGs_frame SweepSecurityGroupsByAccount_def Let_def)
  then obtain db3 where u: "upsert_attachments (step 0) (wire_attachments acct ?es) ?db2 = (wire_attachments acct ?es, db3)"
    and att: "set (fd_attachments db3) = set (fd_attachments ?db2) \<union> set (wire_attachments acct ?es)"
    using upsert_attachments_all [of "step 0" acct ?db2, OF assms(6) _ wire_attachments_account] by blast
  have db'': "db' = snd (SweepVMSecurityGroupAttachments acct (wire_attachments acct ?es) db3)"
    unfolding db' persistVMSGAttachments_def Let_def u prod.case ask_def by (simp add: assms(5))
  have eq: "a = s" if "va_CloudAccountID a = acct" "s \<in> set (wire_attachments acct ?es)" "va_ProviderVMID s = va_ProviderVMID a"
    "va_ProviderSGID s = va_ProviderSGID a" for a s
    using that wire_attachments_account [of acct ?es] by (simp add: list_all_iff)
  have mem: "va_CloudAccountID s = acct" if "s \<in> set (wire_attachments acct ?es)" for s
    using that wire_attachments_account [of acct ?es] by (simp add: list_all_iff)
  show ?thesis
  proof (cases "wire_attachments acct ?es = []")
    case True
    then show ?thesis unfolding db'' by (auto simp: SweepVMSecurityGroupAttachments_def)
  next
    case False
    then have "a \<in> set (fd_attachments db') \<longleftrightarrow> a \<in> set (fd_attachments db3) \<and>
        (va_CloudAccountID a = acct \<longrightarrow> (\<exists>s\<in>set (wire_attachments acct ?es). va_ProviderVMID s = va_ProviderVMID a \<and> va_ProviderSGID s = va_ProviderSGID a))" for a
      unfolding db'' by (auto simp: SweepVMSecurityGroupAttachments_def Let_def image_iff) metis
    then show ?thesis using att eq mem by blast
  qed
qed

section \<open>Network rules of a workload\<close>

text \<open>C37: Workload network rules, error behaviour. A workload whose policies all select it by some but not all of its labels is reported with no policy and as open by
  default.\<close>

theorem selected_workload_reported_open:
  assumes "requireScope caller ''read''" "path \<noteq> ''''" "fe_Parse env path = Some i" "fe_up env CallWorkload" "fe_up env CallWorkloadPolicies"
    and "GetWorkload idb i = Inr wl" "wc_labels (en_obs wl) = label_object labels"
    and select: "\<And>p. p \<in> fst ` set (fd_policies db) \<Longrightarrow> np_NamespaceID p = en_parent wl \<Longrightarrow>
       \<exists>m. np_PodSelector p = JObj [(''matchLabels'', label_object m)] \<and> distinct (map fst m) \<and> set m \<subset> set labels"
  shows "HandleWorkloadNetworkRules env caller path idb db = FlowOK \<lparr>wl_ID = en_id wl, wl_policies = [], wl_k8s_default_allow = True\<rparr>"
proof -
  have labels: "workloadLabelsAsJSON wl = label_object labels" using assms(7) by (simp add: workloadLabelsAsJSON_def label_object_def)
  have "\<not> policy_listed (label_object labels) p" if "p \<in> fst ` set (fd_policies db)" "np_NamespaceID p = en_parent wl" for p
    using select [OF that] label_object_contains [of _ labels] by (auto simp: policy_listed_def json_member_def)
  then have "filter (\<lambda>p. np_NamespaceID p = en_parent wl \<and> policy_listed (label_object labels) p) (map fst (fd_policies db)) = []"
    by (auto simp: filter_empty_conv)
  then have "ListNetworkPoliciesForWorkload (fe_pg env) (en_parent wl) (label_object labels) db = (Inr [], db)"
    by (simp add: ListNetworkPoliciesForWorkload_def order_by_def)
  with assms(1-6) labels show ?thesis by (simp add: HandleWorkloadNetworkRules_def ask_def)
qed

section \<open>Concrete requests\<close>

definition sample_caller :: Caller where
  "sample_caller = \<lparr>ca_Kind = CallerKindToken, ca_UserID = 9, ca_TokenID = 8, ca_SessionID = '''', ca_Username = '''', ca_TokenName = ''vm'', ca_Role = '''',
     ca_Scopes = [''vm-collector'', ''read''], ca_MustChangePassword = False, ca_BoundCloudAccountID = Some 2\<rparr>"

definition admin_env :: flow_env where
  "admin_env = cluster_env\<lparr>fe_Parse := (\<lambda>s. if s = ''1'' then Some 1 else if s = ''2'' then Some 2 else None)\<rparr>"

definition sample_input :: FlowReferenceInput where
  "sample_input = \<lparr>fr_Layer = ''perimeter'', fr_Direction = ''ingress'', fr_SrcKind = ''endpoint_group'', fr_SrcRef = ''corp'', fr_DstKind = ''namespace'',
     fr_DstRef = ''front'', fr_Protocol = ''tcp'', fr_FromPort = Some 443, fr_ToPort = Some 443, fr_Justification = ''https''\<rparr>"

definition sample_requests :: "ref_request list" where
  "sample_requests = [CreateRef admin_env (Some sample_caller) ''1'' (Some sample_input),
     CreateRef admin_env None ''1'' (Some (sample_input\<lparr>fr_SrcKind := ''namespace''\<rparr>))]"

definition created_refs :: flow_db where
  "created_refs = fold serve_ref sample_requests sample_flow_db"

lemma sample_refs_ok: "references_ok sample_flow_db"
  by (simp add: references_ok_def sample_flow_db_def)

theorem stored_references_valid_witness:
  "map fx_Input (fd_refs created_refs) = [sample_input] \<and>
   fr_Justification (fx_Input (hd (fd_refs created_refs))) \<noteq> ''''"
proof
  show one: "map fx_Input (fd_refs created_refs) = [sample_input]" by code_simp
  then obtain r where "fd_refs created_refs = [r]" by auto
  then show "fr_Justification (fx_Input (hd (fd_refs created_refs))) \<noteq> ''''"
    using stored_references_valid [OF sample_refs_ok, of r sample_requests] unfolding created_refs_def by simp
qed

text \<open>A document format that keeps its list: one byte for each reference, which is always the sample.\<close>

definition sample_marshal :: "FlowReferenceInput list \<Rightarrow> string option" where
  "sample_marshal refs = (if list_all (\<lambda>r. r = sample_input) refs then Some (map (\<lambda>_. CHR ''r'') refs) else None)"

definition sample_unmarshal :: "string \<Rightarrow> FlowReferenceInput list option" where
  "sample_unmarshal s = Some (map (\<lambda>_. sample_input) s)"

lemma sample_yaml: "sample_marshal refs = Some text \<Longrightarrow> sample_unmarshal text = Some refs"
  by (auto simp: sample_marshal_def sample_unmarshal_def list_all_iff comp_def intro!: map_idI split: if_splits)

theorem export_import_roundtrip_witness:
  "\<exists>rs db'. HandleImportFlowReferences admin_env sample_unmarshal None ''1'' (Some ''r'') created_refs = (FlowOK rs, db') \<and>
    mset (map fx_Input rs) = mset (map fx_Input (filter (\<lambda>r. fx_ClusterID r = 1) (fd_refs created_refs))) \<and>
    filter (\<lambda>r. fx_ClusterID r \<noteq> 1) (fd_refs db') = filter (\<lambda>r. fx_ClusterID r \<noteq> 1) (fd_refs created_refs) \<and>
    mset rs = mset (filter (\<lambda>r. fx_ClusterID r = 1) (fd_refs db'))"
proof (rule export_import_roundtrip [of created_refs admin_env sample_marshal "''1''" "''r''" sample_unmarshal 1 None])
  show "references_ok created_refs" by code_simp
  show "HandleExportFlowReferences admin_env sample_marshal ''1'' created_refs = FlowOK ''r''" by code_simp
  show "1 \<in> set (fd_clusters created_refs)" by code_simp
qed (simp_all add: sample_yaml admin_env_def cluster_env_def importBodyLimit_def)

definition sweep_step :: "nat \<Rightarrow> flow_env" where
  "sweep_step k = admin_env\<lparr>fe_pg := sample_pg\<lparr>pe_id := (\<lambda>n. of_nat (100 + n))\<rparr>\<rparr>"

definition sample_wire :: sgWireGroup where
  "sample_wire = \<lparr>wg_ProviderSGID = ''sg-9'', wg_Name = ''new'', wg_VPCID = '''',
     wg_Ingress = [\<lparr>wr_Protocol = ''tcp'', wr_FromPort = Some 80, wr_ToPort = Some 80,
       wr_Peer = \<lparr>wp_Kind = ''cidr'', wp_CIDR = ''10.0.0.0/8'', wp_ProviderSGID = '''', wp_ProviderPrefixID = ''''\<rparr>, wr_Description = ''''\<rparr>],
     wg_Egress = [], wg_Tags = []\<rparr>"

definition two_accounts :: flow_db where
  "two_accounts = cluster_db\<lparr>fd_accounts := [2, 6],
     fd_sgs := fd_sgs cluster_db @ [\<lparr>sg_ID = 50, sg_CloudAccountID = 6, sg_ProviderSGID = ''sg-1'', sg_Name = ''other'', sg_VPCID = '''', sg_Tags = JObj []\<rparr>],
     fd_attachments := fd_attachments cluster_db @ [\<lparr>va_CloudAccountID = 6, va_ProviderVMID = ''i-6'', va_ProviderSGID = ''sg-1''\<rparr>]\<rparr>"

definition sample_sweep :: "(string \<times> string list) list raw \<Rightarrow> sweepSGsRequest" where
  "sample_sweep att = \<lparr>sw_SeenProviderSGIDs = [''sg-9''], sw_Groups = RawValue [sample_wire], sw_Attachments = att\<rparr>"

definition swept :: "(string \<times> string list) list raw \<Rightarrow> flow_db" where
  "swept att = snd (HandleSweepSecurityGroups sweep_step (Some sample_caller) ''2'' (Some (sample_sweep att)) two_accounts)"

lemma swept_handled:
  "HandleSweepSecurityGroups sweep_step (Some sample_caller) ''2'' (Some (sample_sweep att)) two_accounts = (FlowOK (), swept att)"
proof -
  have "Caller_HasScope sample_caller ''vm-collector''" "EnforceCloudAccountBinding sample_caller 2 = None" by code_simp+
  then show ?thesis
    by (simp add: swept_def HandleSweepSecurityGroups_def sweep_step_def admin_env_def cluster_env_def ask_def SweepSecurityGroupsByAccount_def
        GetSettings_def Let_def)
qed

theorem sweep_confined_witness:
  "\<lparr>sg_ID = 50, sg_CloudAccountID = 6, sg_ProviderSGID = ''sg-1'', sg_Name = ''other'', sg_VPCID = '''', sg_Tags = JObj []\<rparr> \<in> set (fd_sgs (swept RawAbsent)) \<and>
   filter (\<lambda>a. va_CloudAccountID a \<noteq> 2) (fd_attachments (swept RawAbsent)) = filter (\<lambda>a. va_CloudAccountID a \<noteq> 2) (fd_attachments two_accounts) \<and>
   map sg_ProviderSGID (fd_sgs (swept RawAbsent)) = [''sg-1'', ''sg-9'']"
proof -
  let ?o = "\<lparr>sg_ID = 50, sg_CloudAccountID = 6, sg_ProviderSGID = ''sg-1'', sg_Name = ''other'', sg_VPCID = '''', sg_Tags = JObj []\<rparr> :: SecurityGroupRow"
  have fresh: "pe_id (fe_pg (sweep_step k)) 0 \<noteq> sg_ID ?o" for k by (simp add: sweep_step_def)
  have p: "fe_Parse (sweep_step 0) ''2'' = Some 2" by (simp add: sweep_step_def admin_env_def)
  have m: "?o \<in> set (fd_sgs two_accounts)" by (simp add: two_accounts_def)
  have d: "distinct (map sg_ID (fd_sgs two_accounts))" by code_simp
  have "map sg_ProviderSGID (fd_sgs (swept RawAbsent)) = [''sg-1'', ''sg-9'']" by code_simp
  with sweep_confined [OF swept_handled p m _ d fresh] show ?thesis by simp
qed

theorem sweep_attachments_exact_witness:
  "{a \<in> set (fd_attachments (swept (RawValue [(''i-1'', [''sg-9''])]))). va_CloudAccountID a = 2} =
     {\<lparr>va_CloudAccountID = 2, va_ProviderVMID = ''i-1'', va_ProviderSGID = ''sg-9''\<rparr>} \<and>
   {a \<in> set (fd_attachments (swept RawBad)). va_CloudAccountID a = 2} = {} \<and> length (fd_attachments two_accounts) = 2"
proof (intro conjI)
  have all: "fe_Parse (sweep_step 0) ''2'' = Some 2" "se_FlowMatrixEnabled (fd_settings two_accounts)" "fe_up (sweep_step 0) c" "(2::uuid) \<in> set (fd_accounts two_accounts)" for c
    by (simp_all add: sweep_step_def admin_env_def cluster_env_def two_accounts_def cluster_db_def sample_flow_db_def)
  note exact = sweep_attachments_exact [OF swept_handled all(1,2) all(3) all(3) all(3) all(4)]
  show "{a \<in> set (fd_attachments (swept (RawValue [(''i-1'', [''sg-9''])]))). va_CloudAccountID a = 2} =
     {\<lparr>va_CloudAccountID = 2, va_ProviderVMID = ''i-1'', va_ProviderSGID = ''sg-9''\<rparr>}"
    using exact by (simp add: sample_sweep_def wire_attachments_def)
  show "{a \<in> set (fd_attachments (swept RawBad)). va_CloudAccountID a = 2} = {}"
    using exact by (simp add: sample_sweep_def wire_attachments_def)
  show "length (fd_attachments two_accounts) = 2" by code_simp
qed

definition labelled_workload :: workload_row where
  "labelled_workload = \<lparr>en_id = 1, en_parent = 3, en_name = (''Deployment'', ''web''),
     en_obs = \<lparr>wc_replicas = None, wc_ready_replicas = None, wc_containers = JArr [], wc_labels = label_object [(''app'', ''web''), (''tier'', ''front'')], wc_spec = JNull\<rparr>,
     en_cur = None, en_created_at = 0, en_updated_at = 0, en_terminated_at = None\<rparr>"

definition workload_idb :: inventory where
  "workload_idb = \<lparr>inv_clusters = [], inv_namespaces = [], inv_nodes = [], inv_pvs = [], inv_workloads = [labelled_workload], inv_pods = [], inv_services = [],
     inv_ingresses = [], inv_claims = [], inv_applications = [], inv_history = [], inv_time_travel = None\<rparr>"

theorem selected_workload_reported_open_witness:
  "length (fd_policies policy_db) = 1 \<and>
   HandleWorkloadNetworkRules admin_env (Some sample_caller) ''1'' workload_idb policy_db = FlowOK \<lparr>wl_ID = 1, wl_policies = [], wl_k8s_default_allow = True\<rparr>"
proof
  have p: "map fst (fd_policies policy_db) = [(sample_policy [(''app'', ''web'')])\<lparr>np_ID := 10\<rparr>]" by code_simp
  then show "length (fd_policies policy_db) = 1" by (metis length_map list.size(3,4) One_nat_def add.commute plus_1_eq_Suc)
  have ps: "fst ` set (fd_policies policy_db) = {(sample_policy [(''app'', ''web'')])\<lparr>np_ID := 10\<rparr>}" using arg_cong [OF p, of set] by simp
  have "HandleWorkloadNetworkRules admin_env (Some sample_caller) ''1'' workload_idb policy_db =
      FlowOK \<lparr>wl_ID = en_id labelled_workload, wl_policies = [], wl_k8s_default_allow = True\<rparr>"
  proof (rule selected_workload_reported_open)
    show "requireScope (Some sample_caller) ''read''" by code_simp
    show "GetWorkload workload_idb 1 = Inr labelled_workload" by code_simp
    show "wc_labels (en_obs labelled_workload) = label_object [(''app'', ''web''), (''tier'', ''front'')]" by (simp add: labelled_workload_def)
    fix p assume "p \<in> fst ` set (fd_policies policy_db)"
    then have "np_PodSelector p = JObj [(''matchLabels'', label_object [(''app'', ''web'')])]" unfolding ps by (simp add: sample_policy_def)
    then show "\<exists>m. np_PodSelector p = JObj [(''matchLabels'', label_object m)] \<and> distinct (map fst m) \<and> set m \<subset> set [(''app'', ''web''), (''tier'', ''front'')]"
      by (intro exI [of _ "[(''app'', ''web'')]"]) auto
  qed (simp_all add: admin_env_def cluster_env_def)
  then show "HandleWorkloadNetworkRules admin_env (Some sample_caller) ''1'' workload_idb policy_db = FlowOK \<lparr>wl_ID = 1, wl_policies = [], wl_k8s_default_allow = True\<rparr>"
    by (simp add: labelled_workload_def)
qed

end
