(* ===== verification/Netpol_Collector.thy ===== *)
theory Netpol_Collector
  imports Flow_Admin
begin

text \<open>
  How network policies reach the store: the conversion from the Kubernetes API (\<^verbatim>\<open>convertNetworkPolicy\<close> of \<^verbatim>\<open>internal/collector/kube.go\<close>), one collection
  (\<^verbatim>\<open>internal/collector/netpol_collector.go\<close>), and the way of a push collector over HTTP: the client (\<^verbatim>\<open>internal/collector/apiclient/client.go\<close>) and
  the handlers (\<^verbatim>\<open>internal/api/network_policy_push_handlers.go\<close>). Raw JSON is a JSON value; an empty \<^verbatim>\<open>RawMessage\<close> is \<open>None\<close>, and the text
  \<open>null\<close>, which \<^verbatim>\<open>json.Marshal\<close> writes for a nil pointer, is \<open>Some JNull\<close>.
\<close>

section \<open>From the Kubernetes API\<close>

record K8sPeer =
  kp_IPBlock :: "(string \<times> json) option"
  kp_PodSelector :: "json option"
  kp_NamespaceSelector :: "json option"

record K8sRule =
  kr_Peers :: "K8sPeer list"
  kr_Ports :: json

record K8sPolicy =
  ky_Name :: string
  ky_Namespace :: string
  ky_PodSelector :: json
  ky_Spec :: json
  ky_PolicyTypes :: "string list"
  ky_Ingress :: "K8sRule list"
  ky_Egress :: "K8sRule list"

record NetworkPolicyPeerInfo =
  pi_Kind :: string
  pi_PodSelector :: "json option"
  pi_NamespaceSelector :: "json option"
  pi_IPBlockCIDR :: string
  pi_IPBlockExcept :: "json option"

record NetworkPolicyRuleInfo =
  ri_Peers :: "NetworkPolicyPeerInfo list"
  ri_Ports :: "json option"

record NetworkPolicyInfo =
  oi_Name :: string
  oi_Namespace :: string
  oi_PodSelector :: json
  oi_PolicyTypes :: "string list"
  oi_SpecRaw :: json
  oi_Ingress :: "NetworkPolicyRuleInfo list"
  oi_Egress :: "NetworkPolicyRuleInfo list"

definition marshal_pointer :: "json option \<Rightarrow> json" where
  "marshal_pointer p = (case p of None \<Rightarrow> JNull | Some j \<Rightarrow> j)"

definition convert_peer :: "K8sPeer \<Rightarrow> NetworkPolicyPeerInfo" where
  "convert_peer p =
     (case kp_IPBlock p of
        Some (cidr, ex) \<Rightarrow>
          \<lparr>pi_Kind = ''ip_block'', pi_PodSelector = None, pi_NamespaceSelector = None, pi_IPBlockCIDR = cidr, pi_IPBlockExcept = Some ex\<rparr>
      | None \<Rightarrow>
          \<lparr>pi_Kind = ''selector'', pi_PodSelector = Some (marshal_pointer (kp_PodSelector p)),
           pi_NamespaceSelector = Some (marshal_pointer (kp_NamespaceSelector p)), pi_IPBlockCIDR = '''', pi_IPBlockExcept = None\<rparr>)"

definition convertNetPolRule :: "K8sRule \<Rightarrow> NetworkPolicyRuleInfo" where
  "convertNetPolRule r = \<lparr>ri_Peers = map convert_peer (kr_Peers r), ri_Ports = Some (kr_Ports r)\<rparr>"

definition convertNetworkPolicy :: "K8sPolicy \<Rightarrow> NetworkPolicyInfo" where
  "convertNetworkPolicy np =
     \<lparr>oi_Name = ky_Name np, oi_Namespace = ky_Namespace np, oi_PodSelector = ky_PodSelector np, oi_PolicyTypes = ky_PolicyTypes np,
      oi_SpecRaw = ky_Spec np, oi_Ingress = map convertNetPolRule (ky_Ingress np), oi_Egress = map convertNetPolRule (ky_Egress np)\<rparr>"

section \<open>One collection\<close>

definition blank_rule :: "string \<Rightarrow> string \<Rightarrow> json option \<Rightarrow> NetworkPolicyRuleRow" where
  "blank_rule direction kind ports =
     \<lparr>pr_ID = uuid_Nil, pr_NetworkPolicyID = uuid_Nil, pr_Direction = direction, pr_PeerKind = kind, pr_PeerPodSelector = None,
      pr_PeerNamespaceSelector = None, pr_PeerIPBlockCIDR = '''', pr_PeerIPBlockExcept = None, pr_Ports = ports\<rparr>"

definition peer_rule :: "string \<Rightarrow> json option \<Rightarrow> NetworkPolicyPeerInfo \<Rightarrow> NetworkPolicyRuleRow" where
  "peer_rule direction ports p =
     (let row = blank_rule direction (pi_Kind p) ports in
      if pi_Kind p = ''selector''
      then row\<lparr>pr_PeerPodSelector := pi_PodSelector p, pr_PeerNamespaceSelector := pi_NamespaceSelector p\<rparr>
      else if pi_Kind p = ''ip_block''
      then row\<lparr>pr_PeerIPBlockCIDR := pi_IPBlockCIDR p, pr_PeerIPBlockExcept := pi_IPBlockExcept p\<rparr>
      else row)"

definition flatten_direction :: "string \<Rightarrow> NetworkPolicyRuleInfo list \<Rightarrow> NetworkPolicyRuleRow list" where
  "flatten_direction direction rules =
     concat (map (\<lambda>r. if ri_Peers r = [] then [blank_rule direction ''selector'' (ri_Ports r)]
                      else map (peer_rule direction (ri_Ports r)) (ri_Peers r)) rules)"

definition flattenNetPolRules :: "NetworkPolicyInfo \<Rightarrow> NetworkPolicyRuleRow list" where
  "flattenNetPolRules info = flatten_direction ''ingress'' (oi_Ingress info) @ flatten_direction ''egress'' (oi_Egress info)"

text \<open>What a collection meets: the environments of its upserts, which of them and of the sweeps are answered, and the order in which Go ranges over the
  map of namespaces.\<close>

record netpol_env =
  ne_pg :: "nat \<Rightarrow> pg_env"
  ne_upsert_up :: "nat \<Rightarrow> bool"
  ne_sweep_up :: "uuid \<Rightarrow> bool"
  ne_range :: "(string, uuid) gomap \<Rightarrow> (string \<times> uuid) list"

datatype netpol_error = ListFailed | UpsertFailed string string | SweepFailed nat

definition netpol_row :: "uuid \<Rightarrow> uuid \<Rightarrow> NetworkPolicyInfo \<Rightarrow> NetworkPolicyRow" where
  "netpol_row cid nsid info =
     \<lparr>np_ID = uuid_Nil, np_ClusterID = cid, np_NamespaceID = nsid, np_Name = oi_Name info, np_PodSelector = oi_PodSelector info,
      np_PolicyTypes = oi_PolicyTypes info, np_SpecRaw = oi_SpecRaw info\<rparr>"

definition append_seen :: "uuid \<Rightarrow> string \<Rightarrow> (uuid, string list) gomap \<Rightarrow> (uuid, string list) gomap" where
  "append_seen nsid name m = AList.update nsid ((case map_of m nsid of None \<Rightarrow> [] | Some xs \<Rightarrow> xs) @ [name]) m"

fun collect_each ::
    "netpol_env \<Rightarrow> uuid \<Rightarrow> (string, uuid) gomap \<Rightarrow> nat \<Rightarrow> NetworkPolicyInfo list \<Rightarrow> (uuid, string list) gomap \<Rightarrow> flow_db
       \<Rightarrow> (netpol_error + (uuid, string list) gomap) \<times> flow_db" where
  "collect_each env cid nsIDs k [] seen db = (Inr seen, db)"
| "collect_each env cid nsIDs k (info # infos) seen db =
     (case map_of nsIDs (oi_Namespace info) of
        None \<Rightarrow> collect_each env cid nsIDs (Suc k) infos seen db
      | Some nsid \<Rightarrow>
          if \<not> ne_upsert_up env k then (Inl (UpsertFailed (oi_Namespace info) (oi_Name info)), db)
          else case UpsertNetworkPolicy (ne_pg env k) (netpol_row cid nsid info) (flattenNetPolRules info) db of
                 (Inl err, db1) \<Rightarrow> (Inl (UpsertFailed (oi_Namespace info) (oi_Name info)), db1)
               | (Inr _, db1) \<Rightarrow> collect_each env cid nsIDs (Suc k) infos (append_seen nsid (oi_Name info) seen) db1)"

fun sweep_each :: "netpol_env \<Rightarrow> (uuid, string list) gomap \<Rightarrow> (string \<times> uuid) list \<Rightarrow> flow_db \<Rightarrow> nat \<times> flow_db" where
  "sweep_each env seen [] db = (0, db)"
| "sweep_each env seen ((name, nsid) # rest) db =
     (if \<not> ne_sweep_up env nsid then (let (n, db1) = sweep_each env seen rest db in (Suc n, db1))
      else sweep_each env seen rest
             (snd (SweepNetworkPoliciesByNamespace nsid (case map_of seen nsid of None \<Rightarrow> [] | Some xs \<Rightarrow> xs) db)))"

definition CollectNetworkPolicies ::
    "netpol_env \<Rightarrow> NetworkPolicyInfo list option \<Rightarrow> uuid \<Rightarrow> (string, uuid) gomap \<Rightarrow> flow_db \<Rightarrow> netpol_error option \<times> flow_db" where
  "CollectNetworkPolicies env listing cid nsIDs db =
     (case listing of
        None \<Rightarrow> (Some ListFailed, db)
      | Some infos \<Rightarrow>
          let seeded = fold (\<lambda>(_, nsid). AList.update nsid []) (ne_range env nsIDs) [] in
          (case collect_each env cid nsIDs 0 infos seeded db of
             (Inl err, db1) \<Rightarrow> (Some err, db1)
           | (Inr seen, db1) \<Rightarrow>
               let (failures, db2) = sweep_each env seen (ne_range env nsIDs) db1
               in (if failures > 0 then Some (SweepFailed failures) else None, db2)))"

section \<open>The push collector\<close>

record NetworkPolicyRuleInput =
  ni_Direction :: string
  ni_PeerKind :: string
  ni_Ports :: "json list"
  ni_PeerPodSelector :: "json option"
  ni_PeerNamespaceSelector :: "json option"
  ni_PeerIpBlockCidr :: "string option"
  ni_PeerIpBlockExcept :: "string list option option"

definition rawToMap :: "json option \<Rightarrow> json" where
  "rawToMap raw = (case raw of Some (JObj kvs) \<Rightarrow> JObj kvs | _ \<Rightarrow> JObj [])"

definition rawToMapSlice :: "json option \<Rightarrow> json list" where
  "rawToMapSlice raw =
     (case raw of Some (JArr xs) \<Rightarrow> map (\<lambda>x. case x of JObj kvs \<Rightarrow> JObj kvs | _ \<Rightarrow> JNull) xs | _ \<Rightarrow> [])"

text \<open>The nil slice is \<open>None\<close>; an element that is not a string leaves the zero value.\<close>

definition rawToStringSlice :: "json option \<Rightarrow> string list option" where
  "rawToStringSlice raw =
     (case raw of Some (JArr xs) \<Rightarrow> Some (map (\<lambda>x. case x of JStr s \<Rightarrow> s | _ \<Rightarrow> '''') xs) | _ \<Rightarrow> None)"

definition toAPINetworkPolicyRule :: "NetworkPolicyRuleRow \<Rightarrow> NetworkPolicyRuleInput" where
  "toAPINetworkPolicyRule r =
     \<lparr>ni_Direction = pr_Direction r, ni_PeerKind = pr_PeerKind r, ni_Ports = rawToMapSlice (pr_Ports r),
      ni_PeerPodSelector = map_option (\<lambda>_. rawToMap (pr_PeerPodSelector r)) (pr_PeerPodSelector r),
      ni_PeerNamespaceSelector = map_option (\<lambda>_. rawToMap (pr_PeerNamespaceSelector r)) (pr_PeerNamespaceSelector r),
      ni_PeerIpBlockCidr = (if pr_PeerIPBlockCIDR r = '''' then None else Some (pr_PeerIPBlockCIDR r)),
      ni_PeerIpBlockExcept = map_option (\<lambda>_. rawToStringSlice (pr_PeerIPBlockExcept r)) (pr_PeerIPBlockExcept r)\<rparr>"

text \<open>Over the wire a pointer to a nil slice is \<open>null\<close> and comes back as a nil pointer.\<close>

definition over_wire :: "NetworkPolicyRuleInput \<Rightarrow> NetworkPolicyRuleInput" where
  "over_wire i = i\<lparr>ni_PeerIpBlockExcept := (case ni_PeerIpBlockExcept i of Some None \<Rightarrow> None | x \<Rightarrow> x)\<rparr>"

text \<open>The rows that \<^verbatim>\<open>CreateNetworkPolicy\<close> builds from the request.\<close>

definition request_rule :: "NetworkPolicyRuleInput \<Rightarrow> NetworkPolicyRuleRow" where
  "request_rule i =
     \<lparr>pr_ID = uuid_Nil, pr_NetworkPolicyID = uuid_Nil, pr_Direction = ni_Direction i, pr_PeerKind = ni_PeerKind i,
      pr_PeerPodSelector = ni_PeerPodSelector i, pr_PeerNamespaceSelector = ni_PeerNamespaceSelector i,
      pr_PeerIPBlockCIDR = (case ni_PeerIpBlockCidr i of None \<Rightarrow> '''' | Some c \<Rightarrow> c),
      pr_PeerIPBlockExcept = (case ni_PeerIpBlockExcept i of Some (Some xs) \<Rightarrow> Some (JArr (map JStr xs)) | Some None \<Rightarrow> Some JNull | None \<Rightarrow> None),
      pr_Ports = Some (JArr (ni_Ports i))\<rparr>"

definition CreateNetworkPolicy ::
    "pg_env \<Rightarrow> Caller option \<Rightarrow> (NetworkPolicyRow \<times> NetworkPolicyRuleInput list) option \<Rightarrow> flow_db \<Rightarrow> (inventory_error + (nat \<times> NetworkPolicyRow option)) \<times> flow_db" where
  "CreateNetworkPolicy e caller body db =
     (if \<not> requireScope caller ''write'' then (Inr (403, None), db)
      else case body of
        None \<Rightarrow> (Inl InvOther, db)
      | Some (np, rules) \<Rightarrow>
          (case NetworkPolicyExists (np_ClusterID np) (np_NamespaceID np) (np_Name np) db of
             (Inl err, _) \<Rightarrow> (Inl err, db)
           | (Inr existed, _) \<Rightarrow>
               (case UpsertNetworkPolicy e np (map request_rule rules) db of
                  (Inl err, db1) \<Rightarrow> (Inl err, db1)
                | (Inr pid, db1) \<Rightarrow>
                    (case fst (GetNetworkPolicy pid db1) of
                       Inl err \<Rightarrow> (Inl err, db1)
                     | Inr row \<Rightarrow> (Inr (if existed then 200 else 201, Some row), db1)))))"

text \<open>The answer of \<^verbatim>\<open>ReconcileNetworkPolicies\<close>: the number of deleted rows, and whether the request is left out of the audit log.\<close>

definition ReconcileNetworkPolicies ::
    "Caller option \<Rightarrow> (uuid \<times> string list) option \<Rightarrow> flow_db \<Rightarrow> (inventory_error + (nat \<times> nat \<times> bool)) \<times> flow_db" where
  "ReconcileNetworkPolicies caller body db =
     (if \<not> requireScope caller ''delete'' then (Inr (403, 0, False), db)
      else case body of
        None \<Rightarrow> (Inl InvOther, db)
      | Some (nsid, keep) \<Rightarrow>
          (case SweepNetworkPoliciesByNamespaceWithCount nsid keep db of
             (Inl err, db1) \<Rightarrow> (Inl err, db1)
           | (Inr deleted, db1) \<Rightarrow> (Inr (200, deleted, deleted = 0), db1)))"

text \<open>The upsert of a push collector: the client's request, the wire and the handler's rows. \<open>np_PodSelector\<close> and \<open>np_SpecRaw\<close> pass through \<^verbatim>\<open>rawToMap\<close>.\<close>

definition push_row :: "NetworkPolicyRow \<Rightarrow> NetworkPolicyRow" where
  "push_row np = np\<lparr>np_PodSelector := rawToMap (Some (np_PodSelector np)), np_SpecRaw := rawToMap (Some (np_SpecRaw np))\<rparr>"

definition push_rules :: "NetworkPolicyRuleRow list \<Rightarrow> NetworkPolicyRuleRow list" where
  "push_rules rules = map (request_rule \<circ> over_wire \<circ> toAPINetworkPolicyRule) rules"

section \<open>Lemmas\<close>

definition rows_in :: "flow_db \<Rightarrow> uuid \<Rightarrow> (NetworkPolicyRow \<times> time) set" where
  "rows_in db nsid = {r \<in> set (fd_policies db). np_NamespaceID (fst r) = nsid}"

definition policy_names :: "flow_db \<Rightarrow> uuid \<Rightarrow> string set" where
  "policy_names db nsid = (np_Name \<circ> fst) ` rows_in db nsid"

abbreviation policy_ids :: "flow_db \<Rightarrow> uuid list" where
  "policy_ids db \<equiv> map (np_ID \<circ> fst) (fd_policies db)"

text \<open>The ids of the table are distinct, and the ids that the upserts \<open>k\<close> to \<open>n - 1\<close> would insert are new and distinct.\<close>

definition ids_fresh :: "netpol_env \<Rightarrow> nat \<Rightarrow> nat \<Rightarrow> flow_db \<Rightarrow> bool" where
  "ids_fresh env k n db \<longleftrightarrow>
     distinct (policy_ids db) \<and> (\<forall>j\<in>{k..<n}. pe_id (ne_pg env j) 0 \<notin> set (policy_ids db)) \<and> inj_on (\<lambda>j. pe_id (ne_pg env j) 0) {k..<n}"

lemma UpsertNetworkPolicy_policies:
  assumes "UpsertNetworkPolicy e p rules db = (Inr pid, db')"
  obtains (inserted) "fd_policies db' = fd_policies db @ [(p\<lparr>np_ID := pe_id e 0\<rparr>, pe_NOW e)]"
  | (updated) old where "old \<in> set (fd_policies db)" "policy_key (fst old) = policy_key p"
      "fd_policies db' = map (\<lambda>r. if np_ID (fst r) = np_ID (fst old) then (p\<lparr>np_ID := np_ID (fst old)\<rparr>, pe_NOW e) else r) (fd_policies db)"
proof -
  obtain db1 where up: "upsertNetworkPolicyTx e p db = (Inr pid, db1)" and same: "fd_policies db' = fd_policies db1"
    using assms by (auto simp: UpsertNetworkPolicy_def replaceNetworkPolicyRulesTx_def split: prod.splits sum.splits option.splits)
  show thesis
  proof (cases "find (\<lambda>r. policy_key (fst r) = policy_key p) (fd_policies db)")
    case None
    with up same show thesis by (intro inserted) (auto simp: upsertNetworkPolicyTx_def split: if_splits)
  next
    case (Some old)
    with up same find_SomeD [OF Some] show thesis by (intro updated [of old]) (auto simp: upsertNetworkPolicyTx_def split: if_splits)
  qed
qed

lemma UpsertNetworkPolicy_rows:
  assumes "UpsertNetworkPolicy e p rules db = (Inr pid, db')" "distinct (policy_ids db)"
  shows "policy_names db' n = policy_names db n \<union> (if n = np_NamespaceID p then {np_Name p} else {}) \<and>
      (n \<noteq> np_NamespaceID p \<longrightarrow> rows_in db' n = rows_in db n) \<and> set (policy_ids db') \<subseteq> insert (pe_id e 0) (set (policy_ids db)) \<and>
      (pe_id e 0 \<notin> set (policy_ids db) \<longrightarrow> distinct (policy_ids db'))"
  using assms(1)
proof (cases rule: UpsertNetworkPolicy_policies)
  case inserted
  then have "rows_in db' n = rows_in db n \<union> (if n = np_NamespaceID p then {(p\<lparr>np_ID := pe_id e 0\<rparr>, pe_NOW e)} else {})"
    by (auto simp: rows_in_def)
  with inserted assms(2) show "policy_names db' n = policy_names db n \<union> (if n = np_NamespaceID p then {np_Name p} else {}) \<and>
      (n \<noteq> np_NamespaceID p \<longrightarrow> rows_in db' n = rows_in db n) \<and> set (policy_ids db') \<subseteq> insert (pe_id e 0) (set (policy_ids db)) \<and>
      (pe_id e 0 \<notin> set (policy_ids db) \<longrightarrow> distinct (policy_ids db'))"
    by (auto simp: policy_names_def)
next
  case (updated old)
  let ?f = "\<lambda>r. if np_ID (fst r) = np_ID (fst old) then (p\<lparr>np_ID := np_ID (fst old)\<rparr>, pe_NOW e) else r"
  have only: "r = old" if "r \<in> set (fd_policies db)" "np_ID (fst r) = np_ID (fst old)" for r
    using that updated(1) assms(2) by (auto simp: distinct_map inj_on_def)
  then have sets: "set (fd_policies db') = insert (p\<lparr>np_ID := np_ID (fst old)\<rparr>, pe_NOW e) (set (fd_policies db) - {old})"
    using updated(1,3) by (auto simp: image_iff)
  have ids: "policy_ids db' = policy_ids db" using updated(3) by (simp add: comp_def)
  have key: "np_NamespaceID (fst old) = np_NamespaceID p" "np_Name (fst old) = np_Name p" using updated(2) by (simp_all add: policy_key_def)
  show "policy_names db' n = policy_names db n \<union> (if n = np_NamespaceID p then {np_Name p} else {}) \<and>
      (n \<noteq> np_NamespaceID p \<longrightarrow> rows_in db' n = rows_in db n) \<and> set (policy_ids db') \<subseteq> insert (pe_id e 0) (set (policy_ids db)) \<and>
      (pe_id e 0 \<notin> set (policy_ids db) \<longrightarrow> distinct (policy_ids db'))"
  proof (cases "n = np_NamespaceID p")
    case True
    then have "rows_in db' n = insert (p\<lparr>np_ID := np_ID (fst old)\<rparr>, pe_NOW e) (rows_in db n - {old})" "old \<in> rows_in db n"
      using sets key updated(1) by (auto simp: rows_in_def)
    then have "policy_names db' n = insert (np_Name p) ((np_Name \<circ> fst) ` (rows_in db n - {old}))" by (simp add: policy_names_def)
    moreover have "policy_names db n = insert (np_Name p) ((np_Name \<circ> fst) ` (rows_in db n - {old}))"
      using \<open>old \<in> rows_in db n\<close> key(2) by (metis (no_types, lifting) comp_apply image_insert insert_Diff policy_names_def)
    ultimately have "policy_names db' n = policy_names db n" "np_Name p \<in> policy_names db n" by simp_all
    with True ids assms(2) \<open>np_Name p \<in> policy_names db n\<close> show ?thesis by auto
  next
    case False
    then have "rows_in db' n = rows_in db n" using sets key by (auto simp: rows_in_def)
    with False ids assms(2) show ?thesis by (auto simp: policy_names_def)
  qed
qed

lemma UpsertNetworkPolicy_names:
  assumes "UpsertNetworkPolicy e p rules db = (Inr pid, db')" "distinct (policy_ids db)"
  shows "policy_names db' n = policy_names db n \<union> (if n = np_NamespaceID p then {np_Name p} else {})"
    and "n \<noteq> np_NamespaceID p \<Longrightarrow> rows_in db' n = rows_in db n"
    and "set (policy_ids db') \<subseteq> insert (pe_id e 0) (set (policy_ids db))"
    and "pe_id e 0 \<notin> set (policy_ids db) \<Longrightarrow> distinct (policy_ids db')"
  using UpsertNetworkPolicy_rows [OF assms] by blast+

lemma ids_fresh_step:
  assumes "ids_fresh env k n db" "k < n" "set (policy_ids db1) \<subseteq> insert (pe_id (ne_pg env k) 0) (set (policy_ids db))" "distinct (policy_ids db1)"
  shows "ids_fresh env (Suc k) n db1"
proof -
  have "pe_id (ne_pg env j) 0 \<notin> set (policy_ids db1)" if "j \<in> {Suc k..<n}" for j
  proof -
    have "pe_id (ne_pg env j) 0 \<noteq> pe_id (ne_pg env k) 0" using assms(1,2) that inj_onD by (fastforce simp: ids_fresh_def)
    moreover have "pe_id (ne_pg env j) 0 \<notin> set (policy_ids db)" using assms(1) that unfolding ids_fresh_def by simp
    ultimately show ?thesis using assms(3) by blast
  qed
  moreover have "inj_on (\<lambda>j. pe_id (ne_pg env j) 0) {Suc k..<n}"
    using assms(1) unfolding ids_fresh_def by (auto intro: inj_on_subset)
  ultimately show ?thesis using assms(4) unfolding ids_fresh_def by blast
qed

definition listed_names :: "(string, uuid) gomap \<Rightarrow> NetworkPolicyInfo list \<Rightarrow> uuid \<Rightarrow> string set" where
  "listed_names nsIDs infos n = {oi_Name i |i. i \<in> set infos \<and> map_of nsIDs (oi_Namespace i) = Some n}"

lemma listed_names_simps [simp]:
  "listed_names nsIDs [] n = {}"
  "listed_names nsIDs (i # is) n = (if map_of nsIDs (oi_Namespace i) = Some n then {oi_Name i} else {}) \<union> listed_names nsIDs is n"
  by (auto simp: listed_names_def)

definition seen_at :: "(uuid, string list) gomap \<Rightarrow> uuid \<Rightarrow> string list" where
  "seen_at m n = (case map_of m n of None \<Rightarrow> [] | Some xs \<Rightarrow> xs)"

lemma seen_at_append: "set (seen_at (append_seen nsid name m) n) = set (seen_at m n) \<union> (if n = nsid then {name} else {})"
  by (auto simp: seen_at_def append_seen_def)

lemma collect_each_names:
  assumes "collect_each env cid nsIDs k infos seen db = (res, db')" "ids_fresh env k (k + length infos) db"
  shows "policy_names db n \<subseteq> policy_names db' n \<and> (n \<notin> ran (map_of nsIDs) \<longrightarrow> rows_in db' n = rows_in db n) \<and>
    (\<forall>seen'. res = Inr seen' \<longrightarrow> policy_names db' n = policy_names db n \<union> listed_names nsIDs infos n \<and>
       set (seen_at seen' n) = set (seen_at seen n) \<union> listed_names nsIDs infos n)"
  using assms
proof (induction infos arbitrary: k seen db)
  case (Cons info infos)
  show ?case
  proof (cases "map_of nsIDs (oi_Namespace info)")
    case None
    with Cons.prems(1) have "collect_each env cid nsIDs (Suc k) infos seen db = (res, db')" by simp
    moreover have "ids_fresh env (Suc k) (Suc k + length infos) db"
      using Cons.prems(2) by (auto simp: ids_fresh_def inj_on_def)
    ultimately have ih: "policy_names db n \<subseteq> policy_names db' n \<and> (n \<notin> ran (map_of nsIDs) \<longrightarrow> rows_in db' n = rows_in db n) \<and>
      (\<forall>seen'. res = Inr seen' \<longrightarrow> policy_names db' n = policy_names db n \<union> listed_names nsIDs infos n \<and>
       set (seen_at seen' n) = set (seen_at seen n) \<union> listed_names nsIDs infos n)" by (rule Cons.IH)
    then show ?thesis unfolding listed_names_simps None by simp
  next
    case (Some nsid)
    show ?thesis
    proof (cases "ne_upsert_up env k \<and> (\<exists>pid db1. UpsertNetworkPolicy (ne_pg env k) (netpol_row cid nsid info) (flattenNetPolRules info) db = (Inr pid, db1))")
      case True
      then obtain pid db1 where up: "UpsertNetworkPolicy (ne_pg env k) (netpol_row cid nsid info) (flattenNetPolRules info) db = (Inr pid, db1)" by blast
      have d: "distinct (policy_ids db)" "pe_id (ne_pg env k) 0 \<notin> set (policy_ids db)" using Cons.prems(2) by (auto simp: ids_fresh_def)
      note one = UpsertNetworkPolicy_names [OF up d(1)]
      have "ids_fresh env (Suc k) (Suc k + length infos) db1"
        using ids_fresh_step [OF Cons.prems(2) _ one(3) one(4) [OF d(2)]] by simp
      moreover have "collect_each env cid nsIDs (Suc k) infos (append_seen nsid (oi_Name info) seen) db1 = (res, db')"
        using Cons.prems(1) Some True up by simp
      ultimately have ih: "policy_names db1 n \<subseteq> policy_names db' n \<and> (n \<notin> ran (map_of nsIDs) \<longrightarrow> rows_in db' n = rows_in db1 n) \<and>
        (\<forall>seen'. res = Inr seen' \<longrightarrow> policy_names db' n = policy_names db1 n \<union> listed_names nsIDs infos n \<and>
         set (seen_at seen' n) = set (seen_at (append_seen nsid (oi_Name info) seen) n) \<union> listed_names nsIDs infos n)"
        by (intro Cons.IH)
      moreover have "n \<noteq> nsid" if "n \<notin> ran (map_of nsIDs)" using that Some by (auto simp: ran_def)
      ultimately show ?thesis using one(1,2) [of n] Some by (auto simp: seen_at_append netpol_row_def)
    next
      case False
      have same: "db1 = db" if "UpsertNetworkPolicy e p rs db = (Inl err, db1)" for e p rs err db1
        using that by (auto simp: UpsertNetworkPolicy_def split: prod.splits sum.splits)
      from False Cons.prems(1) Some have "db' = db \<and> (\<exists>e. res = Inl e)"
        by (auto split: prod.splits sum.splits if_splits dest: same)
      then show ?thesis by auto
    qed
  qed
qed auto

lemma sweep_names:
  "policy_names (snd (SweepNetworkPoliciesByNamespace nsid seen db)) n = (if n = nsid then policy_names db n \<inter> set seen else policy_names db n)"
  "n \<noteq> nsid \<Longrightarrow> rows_in (snd (SweepNetworkPoliciesByNamespace nsid seen db)) n = rows_in db n"
proof -
  have rows: "rows_in (snd (SweepNetworkPoliciesByNamespace nsid seen db)) n =
      (if n = nsid then {r \<in> rows_in db n. np_Name (fst r) \<in> set seen} else rows_in db n)"
    by (auto simp: SweepNetworkPoliciesByNamespace_def delete_policies_def Let_def rows_in_def)
  then show "policy_names (snd (SweepNetworkPoliciesByNamespace nsid seen db)) n = (if n = nsid then policy_names db n \<inter> set seen else policy_names db n)"
    by (auto simp: policy_names_def)
  show "n \<noteq> nsid \<Longrightarrow> rows_in (snd (SweepNetworkPoliciesByNamespace nsid seen db)) n = rows_in db n" using rows by simp
qed

lemma sweep_each_names:
  assumes "sweep_each env seen rest db = (0, db')"
  shows "policy_names db' n = (if n \<in> snd ` set rest then policy_names db n \<inter> set (seen_at seen n) else policy_names db n)"
    and "n \<notin> snd ` set rest \<Longrightarrow> rows_in db' n = rows_in db n"
  using assms
proof (induction rest arbitrary: db)
  case (Cons x rest)
  obtain name nsid where x: "x = (name, nsid)" by fastforce
  { case 1
    with x Cons(1) show ?case by (auto simp: sweep_names seen_at_def split: if_splits prod.splits)
  next
    case 2
    with x Cons(2) show ?case by (auto simp: sweep_names split: if_splits prod.splits) }
qed simp_all

lemma seeded_empty: "seen_at (fold (\<lambda>(_, nsid). AList.update nsid []) xs m) n = [] \<or> seen_at (fold (\<lambda>(_, nsid). AList.update nsid []) xs m) n = seen_at m n"
proof (induction xs arbitrary: m)
  case (Cons x xs)
  from Cons [of "AList.update (snd x) [] m"] show ?case by (auto simp: seen_at_def case_prod_beta split: if_splits)
qed simp

section \<open>Properties\<close>


text \<open>Network policy collection, error behaviour. When the listing fails, or the write of a policy, no policy that was stored before is missing afterwards.\<close>

theorem failed_collection_deletes_nothing:
  assumes "CollectNetworkPolicies env listing cid nsIDs db = (Some err, db')" "err = ListFailed \<or> (\<exists>a b. err = UpsertFailed a b)"
    and "ids_fresh env 0 (case listing of None \<Rightarrow> 0 | Some infos \<Rightarrow> length infos) db"
  shows "policy_names db nsid \<subseteq> policy_names db' nsid"
proof (cases listing)
  case None
  with assms(1) show ?thesis by (simp add: CollectNetworkPolicies_def)
next
  case (Some infos)
  let ?seeded = "fold (\<lambda>(_, nsid). AList.update nsid []) (ne_range env nsIDs) []"
  have "collect_each env cid nsIDs 0 infos ?seeded db = (Inl err, db')"
    using assms(1,2) Some by (auto simp: CollectNetworkPolicies_def Let_def split: prod.splits sum.splits if_splits)
  from collect_each_names [OF this, unfolded add_0] assms(3) Some show ?thesis by simp
qed

definition plain_rule :: "NetworkPolicyRuleRow \<Rightarrow> bool" where
  "plain_rule r \<longleftrightarrow>
     pr_ID r = uuid_Nil \<and> pr_NetworkPolicyID r = uuid_Nil \<and>
     (case pr_PeerPodSelector r of None \<Rightarrow> True | Some (JObj _) \<Rightarrow> True | _ \<Rightarrow> False) \<and>
     (case pr_PeerNamespaceSelector r of None \<Rightarrow> True | Some (JObj _) \<Rightarrow> True | _ \<Rightarrow> False) \<and>
     (case pr_Ports r of Some (JArr ps) \<Rightarrow> list_all (\<lambda>p. case p of JObj _ \<Rightarrow> True | _ \<Rightarrow> False) ps | _ \<Rightarrow> False) \<and>
     (case pr_PeerIPBlockExcept r of None \<Rightarrow> True | Some (JArr xs) \<Rightarrow> list_all (\<lambda>x. case x of JStr _ \<Rightarrow> True | _ \<Rightarrow> False) xs | _ \<Rightarrow> False)"

lemma plain_rule_pushed:
  assumes "plain_rule r"
  shows "request_rule (over_wire (toAPINetworkPolicyRule r)) = r"
proof -
  have objs: "map (\<lambda>x. case x of JObj kvs \<Rightarrow> JObj kvs | _ \<Rightarrow> JNull) ps = ps" if "list_all (\<lambda>p. case p of JObj _ \<Rightarrow> True | _ \<Rightarrow> False) ps" for ps
    using that by (induction ps) (auto split: json.splits)
  have strs: "map (JStr \<circ> (\<lambda>x. case x of JStr s \<Rightarrow> s | _ \<Rightarrow> '''')) xs = xs" if "list_all (\<lambda>x. case x of JStr _ \<Rightarrow> True | _ \<Rightarrow> False) xs" for xs
    using that by (induction xs) (auto split: json.splits)
  show ?thesis
    using assms
    by (intro NetworkPolicyRuleRow.equality)
       (auto simp: plain_rule_def request_rule_def over_wire_def toAPINetworkPolicyRule_def rawToMap_def rawToMapSlice_def rawToStringSlice_def objs strs
         split: option.splits json.splits)
qed

text \<open>Push collection, equivalence. Rules with selectors that are objects, with ports that are a list of objects and with exceptions that are a list of texts reach the
  store over HTTP as a collector in the server would have written them.\<close>

theorem pushed_rules_same:
  assumes "list_all plain_rule rules"
  shows "push_rules rules = rules"
  using assms by (induction rules) (simp_all add: push_rules_def plain_rule_pushed)

text \<open>C38: Push collection, error behaviour. A peer without a namespace selector, which for Kubernetes is the namespace of the policy, arrives over HTTP with the empty
  selector, which is every namespace: the two peers, distinct when the server collects them itself, become the same rule.\<close>

theorem pushed_peer_widened:
  assumes "kp_IPBlock p = None" "kp_NamespaceSelector p = None"
  shows "pr_PeerNamespaceSelector (peer_rule dir ports (convert_peer p)) = Some JNull \<and>
    map pr_PeerNamespaceSelector (push_rules [peer_rule dir ports (convert_peer p)]) = [Some (JObj [])] \<and>
    peer_rule dir ports (convert_peer p) \<noteq> peer_rule dir ports (convert_peer (p\<lparr>kp_NamespaceSelector := Some (JObj [])\<rparr>)) \<and>
    push_rules [peer_rule dir ports (convert_peer p)] = push_rules [peer_rule dir ports (convert_peer (p\<lparr>kp_NamespaceSelector := Some (JObj [])\<rparr>))]"
  using assms
  by (simp add: peer_rule_def convert_peer_def blank_rule_def marshal_pointer_def push_rules_def toAPINetworkPolicyRule_def rawToMap_def over_wire_def
      request_rule_def Let_def)

section \<open>A concrete collection\<close>

definition web_policy :: K8sPolicy where
  "web_policy = \<lparr>ky_Name = ''web'', ky_Namespace = ''shop'', ky_PodSelector = JObj [], ky_Spec = JObj [], ky_PolicyTypes = [''Ingress''],
     ky_Ingress = [\<lparr>kr_Peers = [\<lparr>kp_IPBlock = None, kp_PodSelector = Some (JObj []), kp_NamespaceSelector = None\<rparr>], kr_Ports = JArr []\<rparr>], ky_Egress = []\<rparr>"

definition collect_env :: netpol_env where
  "collect_env = \<lparr>ne_pg = (\<lambda>k. sample_pg\<lparr>pe_id := (\<lambda>n. of_nat (60 + 10 * k + n))\<rparr>), ne_upsert_up = (\<lambda>_. True), ne_sweep_up = (\<lambda>_. True), ne_range = (\<lambda>m. m)\<rparr>"

definition old_policies :: flow_db where
  "old_policies = sample_flow_db\<lparr>fd_policies := [((sample_policy [])\<lparr>np_ID := 30, np_Name := ''gone''\<rparr>, 0)]\<rparr>"

definition collected_db :: flow_db where
  "collected_db = snd (CollectNetworkPolicies collect_env (Some [convertNetworkPolicy web_policy]) 1 [(''shop'', 3)] old_policies)"

lemma collected: "CollectNetworkPolicies collect_env (Some [convertNetworkPolicy web_policy]) 1 [(''shop'', 3)] old_policies = (None, collected_db)"
  unfolding collected_db_def by code_simp


theorem failed_collection_deletes_nothing_witness:
  "fst (CollectNetworkPolicies collect_env None 1 [(''shop'', 3)] old_policies) = Some ListFailed \<and>
   policy_names old_policies 3 \<subseteq> policy_names (snd (CollectNetworkPolicies collect_env None 1 [(''shop'', 3)] old_policies)) 3"
proof
  show one: "fst (CollectNetworkPolicies collect_env None 1 [(''shop'', 3)] old_policies) = Some ListFailed" by code_simp
  have "ids_fresh collect_env 0 0 old_policies" by (simp add: ids_fresh_def old_policies_def)
  then show "policy_names old_policies 3 \<subseteq> policy_names (snd (CollectNetworkPolicies collect_env None 1 [(''shop'', 3)] old_policies)) 3"
    using failed_collection_deletes_nothing [of collect_env None 1 "[(''shop'', 3)]" old_policies ListFailed] one by (simp add: prod_eq_iff)
qed

theorem pushed_rules_same_witness:
  "plain_rule (peer_rule ''ingress'' (Some (JArr [])) (convert_peer \<lparr>kp_IPBlock = Some (''10.0.0.0/8'', JArr [JStr ''10.1.0.0/16'']), kp_PodSelector = None, kp_NamespaceSelector = None\<rparr>)) \<and>
   push_rules [peer_rule ''ingress'' (Some (JArr [])) (convert_peer \<lparr>kp_IPBlock = Some (''10.0.0.0/8'', JArr [JStr ''10.1.0.0/16'']), kp_PodSelector = None, kp_NamespaceSelector = None\<rparr>)] =
     [peer_rule ''ingress'' (Some (JArr [])) (convert_peer \<lparr>kp_IPBlock = Some (''10.0.0.0/8'', JArr [JStr ''10.1.0.0/16'']), kp_PodSelector = None, kp_NamespaceSelector = None\<rparr>)]"
  (is "plain_rule ?r \<and> _")
proof
  show p: "plain_rule ?r" by code_simp
  show "push_rules [?r] = [?r]" by (rule pushed_rules_same) (simp add: p)
qed

theorem pushed_peer_widened_witness:
  "map pr_PeerNamespaceSelector (flattenNetPolRules (convertNetworkPolicy web_policy)) = [Some JNull] \<and>
   map pr_PeerNamespaceSelector (push_rules (flattenNetPolRules (convertNetworkPolicy web_policy))) = [Some (JObj [])]"
proof -
  let ?p = "\<lparr>kp_IPBlock = None, kp_PodSelector = Some (JObj []), kp_NamespaceSelector = None\<rparr> :: K8sPeer"
  let ?r = "peer_rule ''ingress'' (Some (JArr [])) (convert_peer ?p)"
  have flat: "flattenNetPolRules (convertNetworkPolicy web_policy) = [?r]"
    by (simp add: flattenNetPolRules_def flatten_direction_def convertNetworkPolicy_def convertNetPolRule_def web_policy_def)
  have "kp_IPBlock ?p = None" "kp_NamespaceSelector ?p = None" by simp_all
  from pushed_peer_widened [OF this, of "''ingress''" "Some (JArr [])"]
  have "pr_PeerNamespaceSelector ?r = Some JNull" "map pr_PeerNamespaceSelector (push_rules [?r]) = [Some (JObj [])]" by blast+
  then show ?thesis unfolding flat list.map by (intro conjI) (simp_all only:)
qed

end
