(* ===== verification/Cloud_Accounts.thy ===== *)
theory Cloud_Accounts
  imports Auth_Handlers
begin

text \<open>
  Cloud accounts and their credentials: \<^verbatim>\<open>internal/secrets/encrypter.go\<close>, \<^verbatim>\<open>internal/store/pg_cloud_accounts.go\<close> and
  \<^verbatim>\<open>internal/api/cloud_account_handlers.go\<close>. AES-GCM and SHA-256 are parameters; base64 with padding is written out. The table is the list of its rows
  next to the authentication tables, since a token can be bound to an account and goes with it; the cascades to other tables are not part of
  this state. A store method either runs as one step or, when \<open>cv_up\<close> says so, fails before it does anything. Fresh ids, nonces and
  the clock are arguments.

  Results: credentials are given only to a collector whose token is bound to the account, and they are those of the last request that set
  them; a ciphertext moved to another row does not decrypt; a disabled account stays closed until an administrator opens it. And
  three defects: new credentials open a disabled account which keeps its disabling date, a registration that is
  refused has already been written, and an account can be hidden from its collector by a newer one of the same name.
\<close>

section \<open>The encrypter\<close>

record aead =
  ad_NonceSize :: nat
  ad_Seal :: "string \<Rightarrow> string \<Rightarrow> string \<Rightarrow> string"
  ad_Open :: "string \<Rightarrow> string \<Rightarrow> string \<Rightarrow> string option"

record Encrypter =
  ec_aead :: aead
  ec_keyHash :: string

record Ciphertext =
  ct_Bytes :: string
  ct_Nonce :: string
  ct_KID :: string

datatype secrets_error = ErrMasterKeyMissing | ErrMasterKeySize | ErrKeyBase64 | ErrNonce | ErrUnknownKID | ErrOpen

definition CurrentKID :: string where "CurrentKID = ''v1''"
definition MasterKeySize :: nat where "MasterKeySize = 32"

definition NewEncrypter :: "(string \<Rightarrow> aead) \<Rightarrow> (string \<Rightarrow> string) \<Rightarrow> string \<Rightarrow> secrets_error + Encrypter" where
  "NewEncrypter gcm sha256 masterKey =
     (if length masterKey \<noteq> MasterKeySize then Inl ErrMasterKeySize
      else Inr \<lparr>ec_aead = gcm masterKey, ec_keyHash = sha256 masterKey\<rparr>)"

text \<open>\<^verbatim>\<open>base64.StdEncoding.DecodeString\<close>: line breaks are dropped, the length must be a multiple of four, and one or two padding characters may end the text.\<close>

definition std_decode :: "string \<Rightarrow> string option" where
  "std_decode s =
     (let t = filter (\<lambda>c. c \<noteq> CHR 0x0A \<and> c \<noteq> CHR 0x0D) s; n = length t in
      if n mod 4 \<noteq> 0 then None
      else if drop (n - 2) t = ''=='' then b64_decode std_alphabet (take (n - 2) t)
      else if drop (n - 1) t = ''='' then b64_decode std_alphabet (take (n - 1) t)
      else b64_decode std_alphabet t)"

definition NewEncrypterFromEnv :: "(string \<Rightarrow> aead) \<Rightarrow> (string \<Rightarrow> string) \<Rightarrow> string \<Rightarrow> secrets_error + Encrypter" where
  "NewEncrypterFromEnv gcm sha256 raw =
     (if raw = '''' then Inl ErrMasterKeyMissing
      else case std_decode raw of
             None \<Rightarrow> Inl ErrKeyBase64
           | Some key \<Rightarrow> NewEncrypter gcm sha256 key)"

definition Fingerprint :: "Encrypter \<Rightarrow> string" where
  "Fingerprint e = hex_encode (take 4 (ec_keyHash e))"

definition Encrypt :: "Encrypter \<Rightarrow> string option \<Rightarrow> string \<Rightarrow> string \<Rightarrow> secrets_error + Ciphertext" where
  "Encrypt e random plaintext aad =
     (case random of
        None \<Rightarrow> Inl ErrNonce
      | Some nonce \<Rightarrow> Inr \<lparr>ct_Bytes = ad_Seal (ec_aead e) nonce plaintext aad, ct_Nonce = nonce, ct_KID = CurrentKID\<rparr>)"

definition Decrypt :: "Encrypter \<Rightarrow> Ciphertext \<Rightarrow> string \<Rightarrow> secrets_error + string" where
  "Decrypt e ct aad =
     (if ct_KID ct \<noteq> CurrentKID then Inl ErrUnknownKID
      else case ad_Open (ec_aead e) (ct_Nonce ct) (ct_Bytes ct) aad of
             None \<Rightarrow> Inl ErrOpen
           | Some plaintext \<Rightarrow> Inr plaintext)"

text \<open>The bytes of an id, \<^verbatim>\<open>id[:]\<close>, the most significant first.\<close>

definition uuid_bytes :: "uuid \<Rightarrow> string" where
  "uuid_bytes u = map (\<lambda>i. char_of (unat (take_bit 8 (drop_bit (8 * (15 - i)) u)))) [0..<16]"

section \<open>The table\<close>

record CloudAccount =
  cl_ID :: uuid
  cl_Provider :: string
  cl_Name :: string
  cl_Region :: string
  cl_Status :: string
  cl_AccessKey :: "string option"
  cl_LastSeenAt :: "time option"
  cl_LastError :: "string option"
  cl_LastErrorAt :: "time option"
  cl_Owner :: "string option"
  cl_Criticality :: "string option"
  cl_Notes :: "string option"
  cl_RunbookURL :: "string option"
  cl_Annotations :: "(string, string) gomap"
  cl_CreatedAt :: time
  cl_UpdatedAt :: time
  cl_DisabledAt :: "time option"

record account_row = CloudAccount +
  cr_secret_key_encrypted :: "string option"
  cr_secret_key_nonce :: "string option"
  cr_secret_key_kid :: "string option"

record cloud_db =
  cd_accounts :: "account_row list"
  cd_auth :: auth_db

record CloudAccountUpsert =
  cu_Provider :: string
  cu_Name :: string
  cu_Region :: string

record CloudAccountPatch =
  cp_Name :: "string option"
  cp_Region :: "string option"
  cp_Owner :: "string option"
  cp_Criticality :: "string option"
  cp_Notes :: "string option"
  cp_RunbookURL :: "string option"
  cp_Annotations :: "(string, string) gomap option"
  cp_Status :: "string option"
  cp_LastSeenAt :: "time option"
  cp_LastError :: "string option"
  cp_LastErrorAt :: "time option"

type_synonym 'a account_op = "cloud_db \<Rightarrow> (store_error + 'a) \<times> cloud_db"

text \<open>What \<^verbatim>\<open>scanCloudAccount\<close> reads: every column but the three of the secret.\<close>

definition scanCloudAccount :: "account_row \<Rightarrow> CloudAccount" where
  "scanCloudAccount r = CloudAccount.truncate r"

abbreviation account_at :: "uuid \<Rightarrow> cloud_db \<Rightarrow> account_row option" where
  "account_at i db \<equiv> find (\<lambda>r. cl_ID r = i) (cd_accounts db)"

definition update_account :: "uuid \<Rightarrow> (account_row \<Rightarrow> account_row) \<Rightarrow> cloud_db \<Rightarrow> cloud_db" where
  "update_account i f db = db\<lparr>cd_accounts := update_where (\<lambda>r. cl_ID r = i) f (cd_accounts db)\<rparr>"

definition GetCloudAccount :: "uuid \<Rightarrow> CloudAccount account_op" where
  "GetCloudAccount i db =
     (case account_at i db of None \<Rightarrow> (Inl ErrNotFound, db) | Some r \<Rightarrow> (Inr (scanCloudAccount r), db))"

definition new_account :: "uuid \<Rightarrow> time \<Rightarrow> CloudAccountUpsert \<Rightarrow> account_row" where
  "new_account i now inp =
     \<lparr>cl_ID = i, cl_Provider = cu_Provider inp, cl_Name = cu_Name inp, cl_Region = cu_Region inp, cl_Status = ''pending_credentials'',
      cl_AccessKey = None, cl_LastSeenAt = None, cl_LastError = None, cl_LastErrorAt = None, cl_Owner = None, cl_Criticality = None,
      cl_Notes = None, cl_RunbookURL = None, cl_Annotations = [], cl_CreatedAt = now, cl_UpdatedAt = now, cl_DisabledAt = None,
      cr_secret_key_encrypted = None, cr_secret_key_nonce = None, cr_secret_key_kid = None\<rparr>"

definition UpsertCloudAccount :: "uuid \<Rightarrow> time \<Rightarrow> CloudAccountUpsert \<Rightarrow> CloudAccount account_op" where
  "UpsertCloudAccount i now inp db =
     (if cu_Provider inp = '''' \<or> cu_Name inp = '''' then (Inl ErrCheckViolation, db)
      else case find (\<lambda>r. cl_Provider r = cu_Provider inp \<and> cl_Name r = cu_Name inp) (cd_accounts db) of
             Some r \<Rightarrow>
               (Inr (scanCloudAccount (r\<lparr>cl_Region := cu_Region inp, cl_UpdatedAt := now\<rparr>)),
                update_account (cl_ID r) (\<lambda>r. r\<lparr>cl_Region := cu_Region inp, cl_UpdatedAt := now\<rparr>) db)
           | None \<Rightarrow>
               if list_ex (\<lambda>r. cl_ID r = i) (cd_accounts db) then (Inl ErrCheckViolation, db)
               else (Inr (scanCloudAccount (new_account i now inp)),
                     db\<lparr>cd_accounts := cd_accounts db @ [new_account i now inp],
                        cd_auth := (cd_auth db)\<lparr>cloud_account_ids := cloud_account_ids (cd_auth db) @ [i]\<rparr>\<rparr>))"

definition GetCloudAccountByName :: "string \<Rightarrow> string \<Rightarrow> CloudAccount account_op" where
  "GetCloudAccountByName provider name db =
     (case find (\<lambda>r. cl_Provider r = provider \<and> cl_Name r = name) (cd_accounts db) of
        None \<Rightarrow> (Inl ErrNotFound, db)
      | Some r \<Rightarrow> (Inr (scanCloudAccount r), db))"

text \<open>\<^verbatim>\<open>ORDER BY created_at DESC, id DESC LIMIT 1\<close>.\<close>

definition GetCloudAccountByNameAny :: "string \<Rightarrow> CloudAccount account_op" where
  "GetCloudAccountByNameAny name db =
     (case rev (sort_key cl_CreatedAt (sort_key cl_ID (filter (\<lambda>r. cl_Name r = name) (cd_accounts db)))) of
        [] \<Rightarrow> (Inl ErrNotFound, db)
      | r # _ \<Rightarrow> (Inr (scanCloudAccount r), db))"

definition set_if :: "'a option \<Rightarrow> ('a \<Rightarrow> 'r \<Rightarrow> 'r) \<Rightarrow> 'r \<Rightarrow> 'r" where
  "set_if v f r = (case v of None \<Rightarrow> r | Some x \<Rightarrow> f x r)"

definition patch_account :: "CloudAccountPatch \<Rightarrow> account_row \<Rightarrow> account_row" where
  "patch_account p =
     set_if (cp_LastErrorAt p) (\<lambda>x. cl_LastErrorAt_update (\<lambda>_. Some x)) \<circ> set_if (cp_LastError p) (\<lambda>x. cl_LastError_update (\<lambda>_. Some x)) \<circ>
     set_if (cp_LastSeenAt p) (\<lambda>x. cl_LastSeenAt_update (\<lambda>_. Some x)) \<circ> set_if (cp_Status p) (\<lambda>x. cl_Status_update (\<lambda>_. x)) \<circ>
     set_if (cp_Annotations p) (\<lambda>x. cl_Annotations_update (\<lambda>_. x)) \<circ> set_if (cp_RunbookURL p) (\<lambda>x. cl_RunbookURL_update (\<lambda>_. Some x)) \<circ>
     set_if (cp_Notes p) (\<lambda>x. cl_Notes_update (\<lambda>_. Some x)) \<circ> set_if (cp_Criticality p) (\<lambda>x. cl_Criticality_update (\<lambda>_. Some x)) \<circ>
     set_if (cp_Owner p) (\<lambda>x. cl_Owner_update (\<lambda>_. Some x)) \<circ> set_if (cp_Region p) (\<lambda>x. cl_Region_update (\<lambda>_. x)) \<circ>
     set_if (cp_Name p) (\<lambda>x. cl_Name_update (\<lambda>_. x))"

definition empty_patch :: CloudAccountPatch where
  "empty_patch = \<lparr>cp_Name = None, cp_Region = None, cp_Owner = None, cp_Criticality = None, cp_Notes = None, cp_RunbookURL = None,
     cp_Annotations = None, cp_Status = None, cp_LastSeenAt = None, cp_LastError = None, cp_LastErrorAt = None\<rparr>"

definition UpdateCloudAccount :: "time \<Rightarrow> uuid \<Rightarrow> CloudAccountPatch \<Rightarrow> CloudAccount account_op" where
  "UpdateCloudAccount now i p db =
     (if cp_Status p \<notin> {None, Some ''active'', Some ''error''} then (Inl ErrConflict, db)
      else if p = empty_patch then GetCloudAccount i db
      else case account_at i db of
             None \<Rightarrow> (Inl ErrNotFound, db)
           | Some r \<Rightarrow>
               if cp_Name p = Some '''' then (Inl ErrCheckViolation, db)
               else if list_ex (\<lambda>s. cl_ID s \<noteq> i \<and> cl_Provider s = cl_Provider r \<and> cp_Name p = Some (cl_Name s)) (cd_accounts db)
               then (Inl ErrConflict, db)
               else GetCloudAccount i (update_account i (\<lambda>r. (patch_account p r)\<lparr>cl_UpdatedAt := now\<rparr>) db))"

definition SetCloudAccountCredentials :: "time \<Rightarrow> uuid \<Rightarrow> string \<Rightarrow> Ciphertext \<Rightarrow> CloudAccount account_op" where
  "SetCloudAccountCredentials now i accessKey encSK db =
     (case account_at i db of
        None \<Rightarrow> (Inl ErrNotFound, db)
      | Some _ \<Rightarrow>
          GetCloudAccount i (update_account i (\<lambda>r. r\<lparr>cl_AccessKey := Some accessKey, cr_secret_key_encrypted := Some (ct_Bytes encSK),
            cr_secret_key_nonce := Some (ct_Nonce encSK), cr_secret_key_kid := Some (ct_KID encSK), cl_Status := ''active'', cl_UpdatedAt := now\<rparr>) db))"

definition GetCloudAccountCredentials :: "uuid \<Rightarrow> (string \<times> Ciphertext) account_op" where
  "GetCloudAccountCredentials i db =
     (case account_at i db of
        None \<Rightarrow> (Inl ErrNotFound, db)
      | Some r \<Rightarrow>
          if cl_Status r = ''disabled'' then (Inl ErrConflict, db)
          else if cl_Status r = ''pending_credentials'' then (Inl ErrNotFound, db)
          else (case (cl_AccessKey r, cr_secret_key_encrypted r, cr_secret_key_nonce r, cr_secret_key_kid r) of
                  (Some ak, Some b, Some n, Some kid) \<Rightarrow> (Inr (ak, \<lparr>ct_Bytes = b, ct_Nonce = n, ct_KID = kid\<rparr>), db)
                | _ \<Rightarrow> (Inl ErrNotFound, db)))"

definition heartbeat :: "time \<Rightarrow> string \<Rightarrow> time option \<Rightarrow> string option \<Rightarrow> account_row \<Rightarrow> account_row" where
  "heartbeat now status lastSeenAt lastError r =
     set_if lastError (\<lambda>x r. r\<lparr>cl_LastError := Some x, cl_LastErrorAt := Some now\<rparr>)
       (set_if lastSeenAt (\<lambda>x r. r\<lparr>cl_LastSeenAt := Some x\<rparr>)
         (r\<lparr>cl_Status := (if status = '''' then cl_Status r else status), cl_UpdatedAt := now\<rparr>))"

definition UpdateCloudAccountStatus :: "time \<Rightarrow> uuid \<Rightarrow> string \<Rightarrow> time option \<Rightarrow> string option \<Rightarrow> unit account_op" where
  "UpdateCloudAccountStatus now i status lastSeenAt lastError db =
     (if status \<notin> {'''', ''active'', ''error''} then (Inl ErrConflict, db)
      else case account_at i db of
             None \<Rightarrow> (Inl ErrNotFound, db)
           | Some r \<Rightarrow>
               if cl_Status r \<in> {''disabled'', ''pending_credentials''} then (Inl ErrConflict, db)
               else (Inr (), update_account i (heartbeat now status lastSeenAt lastError) db))"

definition DisableCloudAccount :: "time \<Rightarrow> uuid \<Rightarrow> unit account_op" where
  "DisableCloudAccount now i db =
     (if account_at i db = None then (Inl ErrNotFound, db)
      else (Inr (), update_account i (\<lambda>r. r\<lparr>cl_Status := ''disabled'', cl_DisabledAt := Some now, cl_UpdatedAt := now\<rparr>) db))"

definition EnableCloudAccount :: "time \<Rightarrow> uuid \<Rightarrow> unit account_op" where
  "EnableCloudAccount now i db =
     (if account_at i db = None then (Inl ErrNotFound, db)
      else (Inr (), update_account i (\<lambda>r. r\<lparr>cl_Status := (if cl_AccessKey r = None then ''pending_credentials'' else ''active''),
              cl_DisabledAt := None, cl_UpdatedAt := now\<rparr>) db))"

text \<open>The tokens bound to the account go with it.\<close>

definition DeleteCloudAccount :: "uuid \<Rightarrow> unit account_op" where
  "DeleteCloudAccount i db =
     (if account_at i db = None then (Inl ErrNotFound, db)
      else (Inr (), db\<lparr>cd_accounts := filter (\<lambda>r. cl_ID r \<noteq> i) (cd_accounts db),
              cd_auth := (cd_auth db)\<lparr>api_tokens := filter (\<lambda>t. tk_bound_cloud_account_id t \<noteq> Some i) (api_tokens (cd_auth db)),
                cloud_account_ids := filter (\<lambda>j. j \<noteq> i) (cloud_account_ids (cd_auth db))\<rparr>\<rparr>))"

definition CountCloudAccountsWithSecrets :: "cloud_db \<Rightarrow> nat" where
  "CountCloudAccountsWithSecrets db = length (filter (\<lambda>r. cr_secret_key_encrypted r \<noteq> None) (cd_accounts db))"

section \<open>The start-up check\<close>

text \<open>\<open>count\<close> is the answer of \<^verbatim>\<open>CountCloudAccountsWithSecrets\<close>, if there is one. No encrypter is the answer \<open>Inr None\<close>.\<close>

datatype init_error = InitSecrets secrets_error | InitCount | ErrEncryptedCredentials nat

definition initSecretsEncrypter :: "(string \<Rightarrow> aead) \<Rightarrow> (string \<Rightarrow> string) \<Rightarrow> string \<Rightarrow> nat option \<Rightarrow> init_error + Encrypter option" where
  "initSecretsEncrypter gcm sha256 raw rows =
     (case NewEncrypterFromEnv gcm sha256 raw of
        Inr e \<Rightarrow> Inr (Some e)
      | Inl ErrMasterKeyMissing \<Rightarrow>
          (case rows of None \<Rightarrow> Inl InitCount | Some n \<Rightarrow> if n > 0 then Inl (ErrEncryptedCredentials n) else Inr None)
      | Inl err \<Rightarrow> Inl (InitSecrets err))"

section \<open>Requests of administrators\<close>

datatype account_call =
    CallUpsertAccount | CallUpdateAccount | CallSetCredentials | CallGetAccount | CallAccountByName | CallGetCredentials | CallStatus
  | CallDisable | CallEnable | CallDeleteAccount | CallCreateToken

record cloud_env =
  cv_up :: "account_call \<Rightarrow> bool"
  cv_now :: "account_call \<Rightarrow> time"
  cv_id :: uuid
  cv_nonce :: "string option"
  cv_enc :: "Encrypter option"
  cv_Parse :: "string \<Rightarrow> uuid option"
  cv_ParseTime :: "string \<Rightarrow> time option"

definition on_accounts :: "cloud_env \<Rightarrow> account_call \<Rightarrow> 'a account_op \<Rightarrow> 'a account_op" where
  "on_accounts env c call db = (if cv_up env c then call db else (Inl ErrAuthStore, db))"

datatype 'a account_reply = Answer nat 'a | Refused nat string

definition requireAdmin :: "Caller option \<Rightarrow> bool" where
  "requireAdmin caller = (case caller of None \<Rightarrow> False | Some c \<Rightarrow> ca_Role c = ''admin'')"

definition pathUUID :: "cloud_env \<Rightarrow> string \<Rightarrow> uuid option" where
  "pathUUID env raw = (if raw = '''' then None else cv_Parse env raw)"

definition parseOptTime :: "cloud_env \<Rightarrow> string option \<Rightarrow> time option" where
  "parseOptTime env jt = (case jt of None \<Rightarrow> None | Some v \<Rightarrow> if v = '''' then None else cv_ParseTime env v)"

record adminCreateCloudAccountReq =
  aq_Provider :: string
  aq_Name :: string
  aq_Region :: string
  aq_AccessKey :: string
  aq_SecretKey :: string
  aq_Owner :: "string option"
  aq_Criticality :: "string option"
  aq_Notes :: "string option"
  aq_RunbookURL :: "string option"

definition create_patch :: "adminCreateCloudAccountReq \<Rightarrow> CloudAccountPatch" where
  "create_patch req = empty_patch\<lparr>cp_Owner := aq_Owner req, cp_Criticality := aq_Criticality req, cp_Notes := aq_Notes req,
     cp_RunbookURL := aq_RunbookURL req\<rparr>"

text \<open>Sealing the secret key for an account and storing it, as two handlers do; \<open>none\<close> and \<open>fail\<close> are the answers without a master key and on an error of
  the store.\<close>

definition store_credentials ::
    "cloud_env \<Rightarrow> nat \<Rightarrow> (store_error \<Rightarrow> CloudAccount account_reply) \<Rightarrow> uuid \<Rightarrow> string \<Rightarrow> string \<Rightarrow> cloud_db \<Rightarrow> CloudAccount account_reply \<times> cloud_db" where
  "store_credentials env okStatus fail i accessKey secretKey db =
     (case cv_enc env of
        None \<Rightarrow> (Refused 503 ''Encryption Disabled'', db)
      | Some e \<Rightarrow>
          (case Encrypt e (cv_nonce env) secretKey (uuid_bytes i) of
             Inl err \<Rightarrow> (Refused 500 ''Internal Server Error'', db)
           | Inr ct \<Rightarrow>
               (case on_accounts env CallSetCredentials (SetCloudAccountCredentials (cv_now env CallSetCredentials) i accessKey ct) db of
                  (Inl err, db1) \<Rightarrow> (fail err, db1)
                | (Inr acct, db1) \<Rightarrow> (Answer okStatus acct, db1))))"

definition HandleCreateCloudAccount ::
    "cloud_env \<Rightarrow> Caller option \<Rightarrow> adminCreateCloudAccountReq option \<Rightarrow> cloud_db \<Rightarrow> CloudAccount account_reply \<times> cloud_db" where
  "HandleCreateCloudAccount env caller body db =
     (if \<not> requireAdmin caller then (Refused 403 ''admin role required'', db)
      else case body of
        None \<Rightarrow> (Refused 400 ''Bad Request'', db)
      | Some req \<Rightarrow>
          if aq_Provider req = '''' \<or> aq_Name req = '''' \<or> aq_Region req = '''' then (Refused 400 ''Bad Request'', db)
          else case on_accounts env CallUpsertAccount (UpsertCloudAccount (cv_id env) (cv_now env CallUpsertAccount)
                      \<lparr>cu_Provider = aq_Provider req, cu_Name = aq_Name req, cu_Region = aq_Region req\<rparr>) db of
            (Inl err, db1) \<Rightarrow> (Refused 500 ''Internal Server Error'', db1)
          | (Inr acct0, db1) \<Rightarrow>
              (case (if create_patch req = empty_patch then (Inr acct0, db1)
                     else on_accounts env CallUpdateAccount
                            (UpdateCloudAccount (cv_now env CallUpdateAccount) (cl_ID acct0) (create_patch req)) db1) of
                 (Inl err, db2) \<Rightarrow> (Refused 500 ''Internal Server Error'', db2)
               | (Inr acct, db2) \<Rightarrow>
                   if aq_AccessKey req \<noteq> '''' \<and> aq_SecretKey req \<noteq> ''''
                   then store_credentials env 201 (\<lambda>_. Refused 500 ''Internal Server Error'') (cl_ID acct) (aq_AccessKey req) (aq_SecretKey req) db2
                   else (Answer 201 acct, db2)))"

text \<open>The answer to an error of the store where a missing row is a 404.\<close>

definition not_found_or_500 :: "store_error \<Rightarrow> 'a account_reply" where
  "not_found_or_500 err = (if err = ErrNotFound then Refused 404 ''Not Found'' else Refused 500 ''Internal Server Error'')"

definition HandleGetCloudAccount :: "cloud_env \<Rightarrow> Caller option \<Rightarrow> string \<Rightarrow> cloud_db \<Rightarrow> CloudAccount account_reply" where
  "HandleGetCloudAccount env caller pathID db =
     (if \<not> requireAdmin caller then Refused 403 ''admin role required''
      else case pathUUID env pathID of
        None \<Rightarrow> Refused 400 ''Bad Request''
      | Some i \<Rightarrow>
          (case fst (on_accounts env CallGetAccount (GetCloudAccount i) db) of
             Inl err \<Rightarrow> not_found_or_500 err
           | Inr acct \<Rightarrow> Answer 200 acct))"

record adminPatchCloudAccountReq =
  pq_Name :: "string option"
  pq_Region :: "string option"
  pq_Owner :: "string option"
  pq_Criticality :: "string option"
  pq_Notes :: "string option"
  pq_RunbookURL :: "string option"
  pq_Annotations :: "(string, string) gomap option"

definition HandlePatchCloudAccount ::
    "cloud_env \<Rightarrow> Caller option \<Rightarrow> string \<Rightarrow> adminPatchCloudAccountReq option \<Rightarrow> cloud_db \<Rightarrow> CloudAccount account_reply \<times> cloud_db" where
  "HandlePatchCloudAccount env caller pathID body db =
     (if \<not> requireAdmin caller then (Refused 403 ''admin role required'', db)
      else case pathUUID env pathID of
        None \<Rightarrow> (Refused 400 ''Bad Request'', db)
      | Some i \<Rightarrow>
          (case body of
             None \<Rightarrow> (Refused 400 ''Bad Request'', db)
           | Some req \<Rightarrow>
               (case on_accounts env CallUpdateAccount (UpdateCloudAccount (cv_now env CallUpdateAccount) i
                       (empty_patch\<lparr>cp_Name := pq_Name req, cp_Region := pq_Region req, cp_Owner := pq_Owner req, cp_Criticality := pq_Criticality req,
                          cp_Notes := pq_Notes req, cp_RunbookURL := pq_RunbookURL req, cp_Annotations := pq_Annotations req\<rparr>)) db of
                  (Inl ErrConflict, db1) \<Rightarrow> (Refused 409 ''Conflict'', db1)
                | (Inl err, db1) \<Rightarrow> (not_found_or_500 err, db1)
                | (Inr acct, db1) \<Rightarrow> (Answer 200 acct, db1))))"

definition HandlePatchCloudAccountCredentials ::
    "cloud_env \<Rightarrow> Caller option \<Rightarrow> string \<Rightarrow> (string \<times> string) option \<Rightarrow> cloud_db \<Rightarrow> CloudAccount account_reply \<times> cloud_db" where
  "HandlePatchCloudAccountCredentials env caller pathID body db =
     (if \<not> requireAdmin caller then (Refused 403 ''admin role required'', db)
      else case pathUUID env pathID of
        None \<Rightarrow> (Refused 400 ''Bad Request'', db)
      | Some i \<Rightarrow>
          (case body of
             None \<Rightarrow> (Refused 400 ''Bad Request'', db)
           | Some (accessKey, secretKey) \<Rightarrow>
               if accessKey = '''' \<or> secretKey = '''' then (Refused 400 ''Bad Request'', db)
               else store_credentials env 200 not_found_or_500 i accessKey secretKey db))"

text \<open>The three requests that only name an account.\<close>

definition admin_action ::
    "cloud_env \<Rightarrow> Caller option \<Rightarrow> string \<Rightarrow> account_call \<Rightarrow> (uuid \<Rightarrow> unit account_op) \<Rightarrow> cloud_db \<Rightarrow> unit account_reply \<times> cloud_db" where
  "admin_action env caller pathID c act db =
     (if \<not> requireAdmin caller then (Refused 403 ''admin role required'', db)
      else case pathUUID env pathID of
        None \<Rightarrow> (Refused 400 ''Bad Request'', db)
      | Some i \<Rightarrow>
          (case on_accounts env c (act i) db of
             (Inl err, db1) \<Rightarrow> (not_found_or_500 err, db1)
           | (Inr _, db1) \<Rightarrow> (Answer 204 (), db1)))"

definition HandleDisableCloudAccount :: "cloud_env \<Rightarrow> Caller option \<Rightarrow> string \<Rightarrow> cloud_db \<Rightarrow> unit account_reply \<times> cloud_db" where
  "HandleDisableCloudAccount env caller pathID = admin_action env caller pathID CallDisable (DisableCloudAccount (cv_now env CallDisable))"

definition HandleEnableCloudAccount :: "cloud_env \<Rightarrow> Caller option \<Rightarrow> string \<Rightarrow> cloud_db \<Rightarrow> unit account_reply \<times> cloud_db" where
  "HandleEnableCloudAccount env caller pathID = admin_action env caller pathID CallEnable (EnableCloudAccount (cv_now env CallEnable))"

definition HandleDeleteCloudAccount :: "cloud_env \<Rightarrow> Caller option \<Rightarrow> string \<Rightarrow> cloud_db \<Rightarrow> unit account_reply \<times> cloud_db" where
  "HandleDeleteCloudAccount env caller pathID = admin_action env caller pathID CallDeleteAccount DeleteCloudAccount"

section \<open>Requests of collectors\<close>

definition HandleCollectorRegisterCloudAccount ::
    "cloud_env \<Rightarrow> Caller option \<Rightarrow> CloudAccountUpsert option \<Rightarrow> cloud_db \<Rightarrow> CloudAccount account_reply \<times> cloud_db" where
  "HandleCollectorRegisterCloudAccount env caller body db =
     (case caller of
        None \<Rightarrow> (Refused 403 ''Forbidden'', db)
      | Some c \<Rightarrow>
          if \<not> requireScope caller ''vm-collector'' then (Refused 403 ''Forbidden'', db)
          else case body of
            None \<Rightarrow> (Refused 400 ''Bad Request'', db)
          | Some req \<Rightarrow>
              if cu_Provider req = '''' \<or> cu_Name req = '''' \<or> cu_Region req = '''' then (Refused 400 ''Bad Request'', db)
              else case on_accounts env CallUpsertAccount (UpsertCloudAccount (cv_id env) (cv_now env CallUpsertAccount) req) db of
                (Inl err, db1) \<Rightarrow> (Refused 500 ''Internal Server Error'', db1)
              | (Inr acct, db1) \<Rightarrow>
                  (case EnforceCloudAccountBinding c (cl_ID acct) of
                     Some err \<Rightarrow> (Refused 403 ''Forbidden'', db1)
                   | None \<Rightarrow> (Answer 200 acct, db1)))"

record collectorStatusReq =
  sq_Status :: "string option"
  sq_LastSeenAt :: "string option"
  sq_LastError :: "string option"

definition HandleCollectorPatchCloudAccountStatus ::
    "cloud_env \<Rightarrow> Caller option \<Rightarrow> string \<Rightarrow> collectorStatusReq option \<Rightarrow> cloud_db \<Rightarrow> unit account_reply \<times> cloud_db" where
  "HandleCollectorPatchCloudAccountStatus env caller pathID body db =
     (case caller of
        None \<Rightarrow> (Refused 403 ''Forbidden'', db)
      | Some c \<Rightarrow>
          if \<not> requireScope caller ''vm-collector'' then (Refused 403 ''Forbidden'', db)
          else case pathUUID env pathID of
            None \<Rightarrow> (Refused 400 ''Bad Request'', db)
          | Some i \<Rightarrow>
              (case EnforceCloudAccountBinding c i of
                 Some err \<Rightarrow> (Refused 403 ''Forbidden'', db)
               | None \<Rightarrow>
                   (case body of
                      None \<Rightarrow> (Refused 400 ''Bad Request'', db)
                    | Some req \<Rightarrow>
                        (case on_accounts env CallStatus (UpdateCloudAccountStatus (cv_now env CallStatus) i
                                (case sq_Status req of None \<Rightarrow> '''' | Some s \<Rightarrow> s) (parseOptTime env (sq_LastSeenAt req)) (sq_LastError req)) db of
                           (Inl ErrConflict, db1) \<Rightarrow> (Refused 409 ''Conflict'', db1)
                         | (Inl err, db1) \<Rightarrow> (not_found_or_500 err, db1)
                         | (Inr _, db1) \<Rightarrow> (Answer 204 (), db1)))))"

record credentialsResp =
  rs_AccessKey :: string
  rs_SecretKey :: string
  rs_Region :: string
  rs_Provider :: string

definition respondCredentials :: "cloud_env \<Rightarrow> CloudAccount \<Rightarrow> cloud_db \<Rightarrow> credentialsResp account_reply" where
  "respondCredentials env acct db =
     (case cv_enc env of
        None \<Rightarrow> Refused 503 ''Encryption Disabled''
      | Some e \<Rightarrow>
          (case fst (on_accounts env CallGetCredentials (GetCloudAccountCredentials (cl_ID acct)) db) of
             Inl ErrNotFound \<Rightarrow> Refused 404 ''Cloud Account Not Registered''
           | Inl ErrConflict \<Rightarrow> Refused 403 ''Account Disabled''
           | Inl _ \<Rightarrow> Refused 500 ''Internal Server Error''
           | Inr (ak, ct) \<Rightarrow>
               (case Decrypt e ct (uuid_bytes (cl_ID acct)) of
                  Inl _ \<Rightarrow> Refused 500 ''Decryption Failed''
                | Inr plaintext \<Rightarrow>
                    Answer 200 \<lparr>rs_AccessKey = ak, rs_SecretKey = plaintext, rs_Region = cl_Region acct, rs_Provider = cl_Provider acct\<rparr>)))"

definition handleAccountLookupErr :: "store_error \<Rightarrow> 'a account_reply" where
  "handleAccountLookupErr err =
     (if err = ErrNotFound then Refused 404 ''Cloud Account Not Registered'' else Refused 500 ''Internal Server Error'')"

definition lookupAccountByName :: "cloud_env \<Rightarrow> string \<Rightarrow> cloud_db \<Rightarrow> store_error + CloudAccount" where
  "lookupAccountByName env name db = fst (on_accounts env CallAccountByName (GetCloudAccountByNameAny name) db)"

definition HandleCollectorGetCredentialsByName ::
    "cloud_env \<Rightarrow> Caller option \<Rightarrow> string \<Rightarrow> cloud_db \<Rightarrow> credentialsResp account_reply" where
  "HandleCollectorGetCredentialsByName env caller name db =
     (case caller of
        None \<Rightarrow> Refused 403 ''Forbidden''
      | Some c \<Rightarrow>
          if \<not> requireScope caller ''vm-collector'' then Refused 403 ''Forbidden''
          else if name = '''' then Refused 400 ''Bad Request''
          else case lookupAccountByName env name db of
            Inl err \<Rightarrow> handleAccountLookupErr err
          | Inr acct \<Rightarrow>
              (case EnforceCloudAccountBinding c (cl_ID acct) of
                 Some err \<Rightarrow> Refused 404 ''Cloud Account Not Registered''
               | None \<Rightarrow> respondCredentials env acct db))"

definition HandleCollectorGetCredentialsByID ::
    "cloud_env \<Rightarrow> Caller option \<Rightarrow> string \<Rightarrow> cloud_db \<Rightarrow> credentialsResp account_reply" where
  "HandleCollectorGetCredentialsByID env caller pathID db =
     (case caller of
        None \<Rightarrow> Refused 403 ''Forbidden''
      | Some c \<Rightarrow>
          if \<not> requireScope caller ''vm-collector'' then Refused 403 ''Forbidden''
          else case pathUUID env pathID of
            None \<Rightarrow> Refused 400 ''Bad Request''
          | Some i \<Rightarrow>
              (case EnforceCloudAccountBinding c i of
                 Some err \<Rightarrow> Refused 403 ''Forbidden''
               | None \<Rightarrow>
                   (case fst (on_accounts env CallGetAccount (GetCloudAccount i) db) of
                      Inl err \<Rightarrow> handleAccountLookupErr err
                    | Inr acct \<Rightarrow> respondCredentials env acct db)))"

section \<open>Tokens for collectors\<close>

text \<open>The plaintext is returned with the stored row.\<close>

definition HandleCreateCloudAccountToken ::
    "cloud_env \<Rightarrow> idkey \<Rightarrow> token_args \<Rightarrow> Caller option \<Rightarrow> string \<Rightarrow> (string \<times> string option) option \<Rightarrow> cloud_db \<Rightarrow>
     (string \<times> token_row) account_reply \<times> cloud_db" where
  "HandleCreateCloudAccountToken env idkey a caller pathID body db =
     (case caller of
        None \<Rightarrow> (Refused 403 ''admin role required'', db)
      | Some c \<Rightarrow>
          if \<not> requireAdmin caller then (Refused 403 ''admin role required'', db)
          else case pathUUID env pathID of
            None \<Rightarrow> (Refused 400 ''Bad Request'', db)
          | Some i \<Rightarrow>
              (case fst (on_accounts env CallGetAccount (GetCloudAccount i) db) of
                 Inl err \<Rightarrow> (handleAccountLookupErr err, db)
               | Inr _ \<Rightarrow>
                   (case body of
                      None \<Rightarrow> (Refused 400 ''Bad Request'', db)
                    | Some (name, expires) \<Rightarrow>
                        if TrimSpace name = '''' then (Refused 400 ''Missing field'', db)
                        else case MintToken idkey (ta_prefixBytes a) (ta_suffixBytes a) (ta_salt a) of
                          Inl _ \<Rightarrow> (Refused 500 ''Internal Server Error'', db)
                        | Inr minted \<Rightarrow>
                            if \<not> cv_up env CallCreateToken then (Refused 500 ''Internal Server Error'', db)
                            else case CreateAPIToken (cv_now env CallCreateToken)
                                   \<lparr>ai_ID = ta_id a, ai_Name = name, ai_Prefix = Prefix minted, ai_Hash = Hash minted, ai_Scopes = [''vm-collector''],
                                    ai_CreatedByUserID = ca_UserID c, ai_ExpiresAt = parseOptTime env expires,
                                    ai_BoundCloudAccountID = Some i\<rparr> (cd_auth db) of
                              (Inl _, adb) \<Rightarrow> (Refused 500 ''Internal Server Error'', db\<lparr>cd_auth := adb\<rparr>)
                            | (Inr row, adb) \<Rightarrow> (Answer 201 (Plaintext minted, row), db\<lparr>cd_auth := adb\<rparr>))))"

section \<open>Lemmas on the table\<close>

text \<open>A change of a row that keeps its id and its credentials.\<close>

definition keeps_credentials :: "(account_row \<Rightarrow> account_row) \<Rightarrow> bool" where
  "keeps_credentials f \<longleftrightarrow>
     (\<forall>r. cl_ID (f r) = cl_ID r \<and> cl_AccessKey (f r) = cl_AccessKey r \<and> cr_secret_key_encrypted (f r) = cr_secret_key_encrypted r \<and>
          cr_secret_key_nonce (f r) = cr_secret_key_nonce r \<and> cr_secret_key_kid (f r) = cr_secret_key_kid r)"

lemma patch_account_keeps: "keeps_credentials (\<lambda>r. (patch_account p r)\<lparr>cl_UpdatedAt := now\<rparr>)"
  by (simp add: keeps_credentials_def patch_account_def set_if_def split: option.splits)

lemma patch_account_status: "cl_Status (patch_account p r) = (case cp_Status p of None \<Rightarrow> cl_Status r | Some s \<Rightarrow> s)"
  by (simp add: patch_account_def set_if_def split: option.splits)

lemma account_find_update:
  assumes "\<And>r. cl_ID (f r) = cl_ID r"
  shows "find (\<lambda>r. cl_ID r = i) (update_where (\<lambda>r. cl_ID r = j) f rows) =
    map_option (\<lambda>r. if j = i then f r else r) (find (\<lambda>r. cl_ID r = i) rows)"
  by (induction rows) (auto simp: update_where_def assms)

lemma account_at_update [simp]:
  "(\<And>r. cl_ID (f r) = cl_ID r) \<Longrightarrow> account_at i (update_account j f db) = map_option (\<lambda>r. if j = i then f r else r) (account_at i db)"
  by (simp add: update_account_def account_find_update)

lemma cl_ID_scan [simp]: "cl_ID (scanCloudAccount r) = cl_ID r"
  and cl_Status_scan [simp]: "cl_Status (scanCloudAccount r) = cl_Status r"
  and cl_DisabledAt_scan [simp]: "cl_DisabledAt (scanCloudAccount r) = cl_DisabledAt r"
  and cl_Region_scan [simp]: "cl_Region (scanCloudAccount r) = cl_Region r"
  and cl_Provider_scan [simp]: "cl_Provider (scanCloudAccount r) = cl_Provider r"
  by (simp_all add: scanCloudAccount_def CloudAccount.defs)

lemma account_at_Some: "account_at i db = Some r \<Longrightarrow> r \<in> set (cd_accounts db) \<and> cl_ID r = i"
  by (auto simp: find_Some_iff)

lemma account_at_member: "distinct (map cl_ID (cd_accounts db)) \<Longrightarrow> r \<in> set (cd_accounts db) \<Longrightarrow> account_at (cl_ID r) db = Some r"
proof -
  have "distinct (map cl_ID rs) \<Longrightarrow> r \<in> set rs \<Longrightarrow> find (\<lambda>s. cl_ID s = cl_ID r) rs = Some r" for rs :: "account_row list"
    by (induction rs) (auto simp: image_iff)
  then show "distinct (map cl_ID (cd_accounts db)) \<Longrightarrow> r \<in> set (cd_accounts db) \<Longrightarrow> account_at (cl_ID r) db = Some r" .
qed

lemma SetCloudAccountCredentials_cases:
  "SetCloudAccountCredentials now i ak ct db =
     (case account_at i db of
        None \<Rightarrow> (Inl ErrNotFound, db)
      | Some r \<Rightarrow> let f = (\<lambda>r. r\<lparr>cl_AccessKey := Some ak, cr_secret_key_encrypted := Some (ct_Bytes ct),
            cr_secret_key_nonce := Some (ct_Nonce ct), cr_secret_key_kid := Some (ct_KID ct), cl_Status := ''active'', cl_UpdatedAt := now\<rparr>)
          in (Inr (scanCloudAccount (f r)), update_account i f db))"
  by (simp add: SetCloudAccountCredentials_def GetCloudAccount_def Let_def split: option.splits)

section \<open>Requests in sequence\<close>

datatype cloud_request =
    CreateAccount cloud_env "Caller option" "adminCreateCloudAccountReq option"
  | PatchAccount cloud_env "Caller option" string "adminPatchCloudAccountReq option"
  | SetCredentials cloud_env "Caller option" string "(string \<times> string) option"
  | DisableAccount cloud_env "Caller option" string
  | EnableAccount cloud_env "Caller option" string
  | DeleteAccount cloud_env "Caller option" string
  | RegisterAccount cloud_env "Caller option" "CloudAccountUpsert option"
  | PatchStatus cloud_env "Caller option" string "collectorStatusReq option"
  | CreateToken cloud_env idkey token_args "Caller option" string "(string \<times> string option) option"

fun serve_cloud :: "cloud_request \<Rightarrow> cloud_db \<Rightarrow> cloud_db" where
  "serve_cloud (CreateAccount env c body) db = snd (HandleCreateCloudAccount env c body db)"
| "serve_cloud (PatchAccount env c path body) db = snd (HandlePatchCloudAccount env c path body db)"
| "serve_cloud (SetCredentials env c path body) db = snd (HandlePatchCloudAccountCredentials env c path body db)"
| "serve_cloud (DisableAccount env c path) db = snd (HandleDisableCloudAccount env c path db)"
| "serve_cloud (EnableAccount env c path) db = snd (HandleEnableCloudAccount env c path db)"
| "serve_cloud (DeleteAccount env c path) db = snd (HandleDeleteCloudAccount env c path db)"
| "serve_cloud (RegisterAccount env c body) db = snd (HandleCollectorRegisterCloudAccount env c body db)"
| "serve_cloud (PatchStatus env c path body) db = snd (HandleCollectorPatchCloudAccountStatus env c path body db)"
| "serve_cloud (CreateToken env idkey a c path body) db = snd (HandleCreateCloudAccountToken env idkey a c path body db)"

text \<open>The account and the keys that a request sets, when it is answered with success.\<close>

fun credentials_set :: "cloud_request \<Rightarrow> cloud_db \<Rightarrow> (uuid \<times> string \<times> string) option" where
  "credentials_set (SetCredentials env c path body) db =
     (case fst (HandlePatchCloudAccountCredentials env c path body db) of
        Answer _ acct \<Rightarrow> map_option (Pair (cl_ID acct)) body
      | Refused _ _ \<Rightarrow> None)"
| "credentials_set (CreateAccount env c body) db =
     (case (fst (HandleCreateCloudAccount env c body db), body) of
        (Answer _ acct, Some req) \<Rightarrow>
          if aq_AccessKey req \<noteq> '''' \<and> aq_SecretKey req \<noteq> '''' then Some (cl_ID acct, aq_AccessKey req, aq_SecretKey req) else None
      | _ \<Rightarrow> None)"
| "credentials_set _ db = None"

definition serve_log :: "cloud_request \<Rightarrow> cloud_db \<times> (uuid \<times> string \<times> string) list \<Rightarrow> cloud_db \<times> (uuid \<times> string \<times> string) list" where
  "serve_log q s = (serve_cloud q (fst s), case credentials_set q (fst s) of None \<Rightarrow> snd s | Some x \<Rightarrow> x # snd s)"

fun request_env :: "cloud_request \<Rightarrow> cloud_env" where
  "request_env (CreateAccount env _ _) = env"
| "request_env (PatchAccount env _ _ _) = env"
| "request_env (SetCredentials env _ _ _) = env"
| "request_env (DisableAccount env _ _) = env"
| "request_env (EnableAccount env _ _) = env"
| "request_env (DeleteAccount env _ _) = env"
| "request_env (RegisterAccount env _ _) = env"
| "request_env (PatchStatus env _ _ _) = env"
| "request_env (CreateToken env _ _ _ _ _) = env"

text \<open>One server, started with or without the master key of \<open>e\<close>, whose random source gives nonces of the right size.\<close>

definition uses :: "Encrypter \<Rightarrow> cloud_request \<Rightarrow> bool" where
  "uses e q \<longleftrightarrow> cv_enc (request_env q) \<in> {None, Some e} \<and>
     (case cv_nonce (request_env q) of None \<Rightarrow> True | Some n \<Rightarrow> length n = ad_NonceSize (ec_aead e))"

section \<open>The invariant of the credentials\<close>

definition opens :: "Encrypter \<Rightarrow> bool" where
  "opens e \<longleftrightarrow>
     (\<forall>n p d. length n = ad_NonceSize (ec_aead e) \<longrightarrow> ad_Open (ec_aead e) n (ad_Seal (ec_aead e) n p d) d = Some p)"

definition sealed_row :: "Encrypter \<Rightarrow> (uuid \<times> string \<times> string) list \<Rightarrow> account_row \<Rightarrow> bool" where
  "sealed_row e log r \<longleftrightarrow>
     cl_AccessKey r = None \<or>
     (\<exists>ak sk n. length n = ad_NonceSize (ec_aead e) \<and> map_of log (cl_ID r) = Some (ak, sk) \<and> cl_AccessKey r = Some ak \<and>
        cr_secret_key_encrypted r = Some (ad_Seal (ec_aead e) n sk (uuid_bytes (cl_ID r))) \<and> cr_secret_key_nonce r = Some n \<and>
        cr_secret_key_kid r = Some CurrentKID)"

definition sealed :: "Encrypter \<Rightarrow> (uuid \<times> string \<times> string) list \<Rightarrow> cloud_db \<Rightarrow> bool" where
  "sealed e log db \<longleftrightarrow> distinct (map cl_ID (cd_accounts db)) \<and> (\<forall>r\<in>set (cd_accounts db). sealed_row e log r)"

lemma ids_update_where:
  "(\<And>r. cl_ID (f r) = cl_ID r) \<Longrightarrow> map cl_ID (update_where P f rows) = map cl_ID rows"
  by (simp add: update_where_def)

lemma sealed_row_keeps: "keeps_credentials f \<Longrightarrow> sealed_row e log (f r) = sealed_row e log r"
  by (simp add: keeps_credentials_def sealed_row_def)

lemma sealed_row_other: "cl_ID r \<noteq> i \<Longrightarrow> sealed_row e ((i, x) # log) r = sealed_row e log r"
  by (simp add: sealed_row_def)

lemma keeps_credentials_ID: "keeps_credentials f \<Longrightarrow> cl_ID (f r) = cl_ID r"
  by (simp add: keeps_credentials_def)

lemma sealed_update: "sealed e log db \<Longrightarrow> keeps_credentials f \<Longrightarrow> sealed e log (update_account i f db)"
  by (auto simp: sealed_def update_account_def ids_update_where keeps_credentials_ID) (auto simp: update_where_def sealed_row_keeps)

lemma sealed_accounts: "sealed e log db \<Longrightarrow> cd_accounts db' = cd_accounts db \<Longrightarrow> sealed e log db'"
  by (simp add: sealed_def)

lemma sealed_Upsert:
  assumes "sealed e log db" "UpsertCloudAccount i now inp db = (x, db')"
  shows "sealed e log db'"
proof -
  have "keeps_credentials (\<lambda>r. r\<lparr>cl_Region := cu_Region inp, cl_UpdatedAt := now\<rparr>)" by (simp add: keeps_credentials_def)
  from sealed_update [OF assms(1) this] assms show ?thesis
    by (auto simp: UpsertCloudAccount_def split: if_splits option.splits)
      (auto simp: sealed_def sealed_row_def new_account_def list_ex_iff)
qed

lemma sealed_Update:
  assumes "sealed e log db" "UpdateCloudAccount now i p db = (x, db')"
  shows "sealed e log db'"
  using assms sealed_update [OF assms(1) patch_account_keeps]
  by (auto simp: UpdateCloudAccount_def GetCloudAccount_def split: if_splits option.splits)

lemma sealed_Set:
  assumes "sealed e log db" "account_at i db = Some r" "length n = ad_NonceSize (ec_aead e)"
  shows "sealed e ((i, ak, sk) # log) (update_account i (\<lambda>r. r\<lparr>cl_AccessKey := Some ak,
      cr_secret_key_encrypted := Some (ad_Seal (ec_aead e) n sk (uuid_bytes i)), cr_secret_key_nonce := Some n,
      cr_secret_key_kid := Some CurrentKID, cl_Status := ''active'', cl_UpdatedAt := now\<rparr>) db)"
  using assms
  by (auto simp: sealed_def update_account_def ids_update_where) (auto simp: update_where_def sealed_row_other, auto simp: sealed_row_def)

lemma sealed_store_credentials:
  assumes "sealed e log db" "cv_enc env \<in> {None, Some e}" "case cv_nonce env of None \<Rightarrow> True | Some n \<Rightarrow> length n = ad_NonceSize (ec_aead e)"
    and "store_credentials env st fail i ak sk db = (reply, db')" "\<And>err. \<exists>st t. fail err = Refused st t"
  shows "sealed e (case reply of Answer _ acct \<Rightarrow> (cl_ID acct, ak, sk) # log | Refused _ _ \<Rightarrow> log) db'"
proof (cases "\<exists>n r. cv_enc env = Some e \<and> cv_nonce env = Some n \<and> cv_up env CallSetCredentials \<and> account_at i db = Some r")
  case True
  then obtain n r where o: "cv_enc env = Some e" "cv_nonce env = Some n" "cv_up env CallSetCredentials" "account_at i db = Some r" by blast
  then have "cl_ID r = i" using account_at_Some by blast
  with o assms(3,4) sealed_Set [OF assms(1) o(4)] show ?thesis
    by (auto simp: store_credentials_def Encrypt_def on_accounts_def SetCloudAccountCredentials_cases Let_def)
next
  case False
  with assms(2,4) obtain st t where "reply = Refused st t \<and> db' = db"
    using assms(5)
    by (auto simp: store_credentials_def Encrypt_def on_accounts_def SetCloudAccountCredentials_cases split: option.splits if_splits)
  with assms(1) show ?thesis by simp
qed

lemma sealed_Create:
  assumes "sealed e log db" "cv_enc env \<in> {None, Some e}" "case cv_nonce env of None \<Rightarrow> True | Some n \<Rightarrow> length n = ad_NonceSize (ec_aead e)"
  shows "sealed e (case credentials_set (CreateAccount env c body) db of None \<Rightarrow> log | Some x \<Rightarrow> x # log) (snd (HandleCreateCloudAccount env c body db))"
proof (cases "requireAdmin c \<and> (\<exists>req. body = Some req \<and> \<not> (aq_Provider req = '''' \<or> aq_Name req = '''' \<or> aq_Region req = ''''))")
  case False
  with assms(1) show ?thesis by (auto simp: HandleCreateCloudAccount_def split: option.splits)
next
  case True
  then obtain req where req: "requireAdmin c" "body = Some req" "\<not> (aq_Provider req = '''' \<or> aq_Name req = '''' \<or> aq_Region req = '''')" by blast
  let ?upsert = "on_accounts env CallUpsertAccount (UpsertCloudAccount (cv_id env) (cv_now env CallUpsertAccount)
      \<lparr>cu_Provider = aq_Provider req, cu_Name = aq_Name req, cu_Region = aq_Region req\<rparr>) db"
  obtain x db1 where up: "?upsert = (x, db1)" by fastforce
  then have s1: "sealed e log db1" using assms(1) sealed_Upsert by (fastforce simp: on_accounts_def split: if_splits)
  show ?thesis
  proof (cases x)
    case (Inl err)
    with req up s1 show ?thesis by (simp add: HandleCreateCloudAccount_def)
  next
    case (Inr acct0)
    let ?patch = "if create_patch req = empty_patch then (Inr acct0, db1)
       else on_accounts env CallUpdateAccount (UpdateCloudAccount (cv_now env CallUpdateAccount) (cl_ID acct0) (create_patch req)) db1"
    obtain y db2 where p: "?patch = (y, db2)" by fastforce
    then have s2: "sealed e log db2" using s1 sealed_Update by (fastforce simp: on_accounts_def split: if_splits)
    show ?thesis
    proof (cases y)
      case (Inl err)
      with req up Inr p s2 show ?thesis by (simp add: HandleCreateCloudAccount_def)
    next
      case y: (Inr acct)
      note run = HandleCreateCloudAccount_def [of env c body db] req up Inr p y
      show ?thesis
      proof (cases "aq_AccessKey req \<noteq> '''' \<and> aq_SecretKey req \<noteq> ''''")
        case False
        with run s2 show ?thesis by auto
      next
        case keys: True
        obtain reply db3 where st: "store_credentials env 201 (\<lambda>_. Refused 500 ''Internal Server Error'') (cl_ID acct) (aq_AccessKey req) (aq_SecretKey req) db2 =
            (reply, db3)" by fastforce
        from sealed_store_credentials [OF s2 assms(2,3) st] keys st run show ?thesis by (cases reply) simp_all
      qed
    qed
  qed
qed

lemma sealed_action:
  assumes "sealed e log db" "\<And>i x db'. act i db = (x, db') \<Longrightarrow> sealed e log db'"
  shows "sealed e log (snd (admin_action env c path call act db))"
  using assms by (auto simp: admin_action_def on_accounts_def split: option.splits prod.splits sum.splits if_splits)

lemma sealed_SetCredentials:
  assumes "sealed e log db" "cv_enc env \<in> {None, Some e}" "case cv_nonce env of None \<Rightarrow> True | Some n \<Rightarrow> length n = ad_NonceSize (ec_aead e)"
  shows "sealed e (case credentials_set (SetCredentials env c path body) db of None \<Rightarrow> log | Some x \<Rightarrow> x # log)
      (snd (HandlePatchCloudAccountCredentials env c path body db))"
proof (cases "\<exists>i ak sk. requireAdmin c \<and> pathUUID env path = Some i \<and> body = Some (ak, sk) \<and> ak \<noteq> '''' \<and> sk \<noteq> ''''")
  case True
  then obtain i ak sk where o: "requireAdmin c" "pathUUID env path = Some i" "body = Some (ak, sk)" "ak \<noteq> ''''" "sk \<noteq> ''''" by blast
  obtain reply db' where st: "store_credentials env 200 not_found_or_500 i ak sk db = (reply, db')" by fastforce
  have "\<exists>st t. (not_found_or_500 err :: CloudAccount account_reply) = Refused st t" for err by (simp add: not_found_or_500_def)
  from sealed_store_credentials [OF assms st this] o st show ?thesis
    by (cases reply) (simp_all add: HandlePatchCloudAccountCredentials_def)
next
  case False
  with assms(1) show ?thesis by (auto simp: HandlePatchCloudAccountCredentials_def split: option.splits)
qed

lemma serve_log_pair: "serve_log q (db, log) = (serve_cloud q db, case credentials_set q db of None \<Rightarrow> log | Some x \<Rightarrow> x # log)"
  by (simp add: serve_log_def split: option.split)

lemma sealed_serve:
  assumes "sealed e log db" "uses e q"
  shows "sealed e (snd (serve_log q (db, log))) (fst (serve_log q (db, log)))"
proof (cases q)
  case (CreateAccount env c body)
  with sealed_Create [of e log db env c body] assms show ?thesis by (simp add: serve_log_pair uses_def)
next
  case (SetCredentials env c path body)
  with sealed_SetCredentials [of e log db env c path body] assms show ?thesis by (simp add: serve_log_pair uses_def)
next
  case (PatchAccount env c path body)
  with assms(1) show ?thesis
    by (auto simp: serve_log_pair HandlePatchCloudAccount_def on_accounts_def intro: sealed_Update split: option.splits prod.splits sum.splits store_error.splits if_splits)
next
  case (DisableAccount env c path)
  have "keeps_credentials (\<lambda>r. r\<lparr>cl_Status := ''disabled'', cl_DisabledAt := Some now, cl_UpdatedAt := now\<rparr>)" for now by (simp add: keeps_credentials_def)
  with DisableAccount assms(1) show ?thesis
    by (auto simp: serve_log_pair HandleDisableCloudAccount_def DisableCloudAccount_def sealed_update intro!: sealed_action split: if_splits)
next
  case (EnableAccount env c path)
  have "keeps_credentials (\<lambda>r. r\<lparr>cl_Status := (if cl_AccessKey r = None then ''pending_credentials'' else ''active''), cl_DisabledAt := None, cl_UpdatedAt := now\<rparr>)"
    for now by (simp add: keeps_credentials_def)
  with EnableAccount assms(1) show ?thesis
    by (auto simp: serve_log_pair HandleEnableCloudAccount_def EnableCloudAccount_def sealed_update intro!: sealed_action split: if_splits)
next
  case (DeleteAccount env c path)
  have "sealed e log (snd (HandleDeleteCloudAccount env c path db))"
    unfolding HandleDeleteCloudAccount_def using assms(1)
    by (intro sealed_action) (auto simp: DeleteCloudAccount_def sealed_def distinct_map_filter split: if_splits)
  with DeleteAccount show ?thesis by (simp add: serve_log_pair)
next
  case (RegisterAccount env c body)
  with assms(1) show ?thesis
    by (auto simp: serve_log_pair HandleCollectorRegisterCloudAccount_def on_accounts_def intro: sealed_Upsert split: option.splits prod.splits sum.splits if_splits)
next
  case (PatchStatus env c path body)
  have "keeps_credentials (heartbeat now s ls le)" for le ls s now
    by (simp add: keeps_credentials_def heartbeat_def set_if_def split: option.splits)
  then have "UpdateCloudAccountStatus now i s ls le db = (x, db') \<Longrightarrow> sealed e log db'" for now i s ls le x db'
    using assms(1) by (auto simp: UpdateCloudAccountStatus_def sealed_update split: if_splits option.splits)
  with PatchStatus assms(1) show ?thesis
    by (auto simp: serve_log_pair HandleCollectorPatchCloudAccountStatus_def on_accounts_def split: option.splits prod.splits sum.splits store_error.splits if_splits)
next
  case (CreateToken env idkey a c path body)
  have "cd_accounts (snd (HandleCreateCloudAccountToken env idkey a c path body db)) = cd_accounts db"
    by (auto simp: HandleCreateCloudAccountToken_def split: option.splits prod.splits sum.splits if_splits)
  with CreateToken assms(1) show ?thesis by (auto simp: serve_log_pair intro: sealed_accounts)
qed

lemma sealed_run:
  assumes "sealed e log db" "list_all (uses e) qs"
  shows "sealed e (snd (fold serve_log qs (db, log))) (fst (fold serve_log qs (db, log)))"
  using assms
proof (induction qs arbitrary: db log)
  case (Cons q qs)
  with sealed_serve [of e log db q] show ?case by (cases "serve_log q (db, log)") simp
qed simp

section \<open>What a credentials answer needs\<close>

lemma binding_iff: "Caller_HasScope c ''vm-collector'' \<Longrightarrow> EnforceCloudAccountBinding c i = None \<longleftrightarrow> ca_BoundCloudAccountID c = Some i"
  by (auto simp: EnforceCloudAccountBinding_def Caller_HasScope_def has_scope_iff list_ex_iff Let_def split: option.splits)

lemma respond_answer:
  assumes "respondCredentials env acct db = Answer st resp"
  obtains e r ct where "st = 200" "cv_enc env = Some e" "account_at (cl_ID acct) db = Some r" "cl_Status r \<notin> {''disabled'', ''pending_credentials''}"
    "cl_AccessKey r = Some (rs_AccessKey resp)" "cr_secret_key_encrypted r = Some (ct_Bytes ct)" "cr_secret_key_nonce r = Some (ct_Nonce ct)"
    "cr_secret_key_kid r = Some (ct_KID ct)" "Decrypt e ct (uuid_bytes (cl_ID acct)) = Inr (rs_SecretKey resp)"
    "rs_Region resp = cl_Region acct" "rs_Provider resp = cl_Provider acct"
proof -
  obtain e where e: "cv_enc env = Some e" using assms by (auto simp: respondCredentials_def split: option.splits)
  obtain ak ct where g: "fst (GetCloudAccountCredentials (cl_ID acct) db) = Inr (ak, ct)" "cv_up env CallGetCredentials"
    and d: "Decrypt e ct (uuid_bytes (cl_ID acct)) = Inr (rs_SecretKey resp)" "st = 200" "rs_AccessKey resp = ak"
      "rs_Region resp = cl_Region acct" "rs_Provider resp = cl_Provider acct"
    using assms e by (auto simp: respondCredentials_def on_accounts_def split: option.splits sum.splits store_error.splits if_splits)
  from g(1) obtain r where r: "account_at (cl_ID acct) db = Some r" "cl_Status r \<notin> {''disabled'', ''pending_credentials''}"
      "cl_AccessKey r = Some ak" "cr_secret_key_encrypted r = Some (ct_Bytes ct)" "cr_secret_key_nonce r = Some (ct_Nonce ct)"
      "cr_secret_key_kid r = Some (ct_KID ct)"
    by (auto simp: GetCloudAccountCredentials_def split: option.splits if_splits)
  with e d show ?thesis by (intro that [of e r ct]) simp_all
qed

text \<open>A credentials answer of either request, with the caller and the account it is for.\<close>

definition credentials_answer :: "cloud_env \<Rightarrow> Caller \<Rightarrow> cloud_db \<Rightarrow> credentialsResp \<Rightarrow> bool" where
  "credentials_answer env c db resp \<longleftrightarrow>
     (\<exists>path. HandleCollectorGetCredentialsByID env (Some c) path db = Answer 200 resp) \<or>
     (\<exists>name. HandleCollectorGetCredentialsByName env (Some c) name db = Answer 200 resp)"

lemma by_name_row:
  assumes "GetCloudAccountByNameAny name db = (Inr acct, db')"
  obtains r where "r \<in> set (cd_accounts db)" "acct = scanCloudAccount r" "cl_Name r = name"
proof -
  let ?rows = "sort_key cl_CreatedAt (sort_key cl_ID (filter (\<lambda>r. cl_Name r = name) (cd_accounts db)))"
  obtain r rest where "rev ?rows = r # rest" "acct = scanCloudAccount r"
    using assms by (auto simp: GetCloudAccountByNameAny_def split: list.splits)
  moreover have "r \<in> set ?rows" using \<open>rev ?rows = r # rest\<close> by (metis list.set_intros(1) set_rev)
  then have "r \<in> set (cd_accounts db)" "cl_Name r = name" by simp_all
  ultimately show ?thesis using that by blast
qed

lemma credentials_answer_account:
  assumes "credentials_answer env c db resp" "distinct (map cl_ID (cd_accounts db))"
  obtains i r where "Caller_HasScope c ''vm-collector''" "ca_BoundCloudAccountID c = Some i" "account_at i db = Some r"
    "respondCredentials env (scanCloudAccount r) db = Answer 200 resp"
  using assms(1) unfolding credentials_answer_def
proof (elim disjE exE)
  fix path assume a: "HandleCollectorGetCredentialsByID env (Some c) path db = Answer 200 resp"
  then obtain i where i: "pathUUID env path = Some i" "Caller_HasScope c ''vm-collector''" "EnforceCloudAccountBinding c i = None"
    by (auto simp: HandleCollectorGetCredentialsByID_def requireScope_def split: option.splits if_splits)
  with a show ?thesis using binding_iff [OF i(2)] that
    by (auto simp: HandleCollectorGetCredentialsByID_def requireScope_def on_accounts_def GetCloudAccount_def handleAccountLookupErr_def
        split: option.splits if_splits)
next
  fix name assume a: "HandleCollectorGetCredentialsByName env (Some c) name db = Answer 200 resp"
  then obtain acct where l: "lookupAccountByName env name db = Inr acct" "Caller_HasScope c ''vm-collector''"
      "EnforceCloudAccountBinding c (cl_ID acct) = None" "respondCredentials env acct db = Answer 200 resp"
    by (auto simp: HandleCollectorGetCredentialsByName_def requireScope_def handleAccountLookupErr_def split: option.splits sum.splits if_splits)
  then have "fst (GetCloudAccountByNameAny name db) = Inr acct" by (auto simp: lookupAccountByName_def on_accounts_def split: if_splits)
  then obtain db' where "GetCloudAccountByNameAny name db = (Inr acct, db')" by (metis prod.collapse)
  then obtain r where "r \<in> set (cd_accounts db)" "acct = scanCloudAccount r" by (rule by_name_row)
  with l show ?thesis using that account_at_member [OF assms(2)] binding_iff [OF l(2)] by simp
qed

section \<open>Properties\<close>

text \<open>C16: Cloud credentials, safety. Whatever requests a server has served since its table was empty, a credentials answer goes to a token with the collector scope that is
  bound to the account, the account is neither disabled nor waiting for its credentials, and the answer carries its
  region and the access key and secret key of the last request that set credentials for this account.\<close>

theorem credentials_latest:
  assumes "opens e" "list_all (uses e) qs" "cd_accounts db0 = []" "fold serve_log qs (db0, []) = (db, log)"
    and "cv_enc env = Some e" "credentials_answer env c db resp"
  shows "\<exists>i r. Caller_HasScope c ''vm-collector'' \<and> ca_BoundCloudAccountID c = Some i \<and> account_at i db = Some r \<and>
    cl_Status r \<notin> {''disabled'', ''pending_credentials''} \<and> rs_Region resp = cl_Region r \<and> rs_Provider resp = cl_Provider r \<and>
    map_of log i = Some (rs_AccessKey resp, rs_SecretKey resp)"
proof -
  have "sealed e [] db0" using assms(3) by (simp add: sealed_def)
  then have s: "sealed e log db" using sealed_run [OF _ assms(2)] assms(4) by fastforce
  then obtain i r where c: "Caller_HasScope c ''vm-collector''" "ca_BoundCloudAccountID c = Some i" "account_at i db = Some r"
    and a: "respondCredentials env (scanCloudAccount r) db = Answer 200 resp"
    using credentials_answer_account [OF assms(6)] unfolding sealed_def by blast
  have r: "r \<in> set (cd_accounts db)" "cl_ID r = i" using account_at_Some [OF c(3)] by simp_all
  from a obtain ct where k: "cl_Status r \<notin> {''disabled'', ''pending_credentials''}" "cl_AccessKey r = Some (rs_AccessKey resp)"
      "cr_secret_key_encrypted r = Some (ct_Bytes ct)" "cr_secret_key_nonce r = Some (ct_Nonce ct)"
      "Decrypt e ct (uuid_bytes i) = Inr (rs_SecretKey resp)" "rs_Region resp = cl_Region r" "rs_Provider resp = cl_Provider r"
    using assms(5) c(3) r(2) by (elim respond_answer) auto
  from s r(1) k(2) obtain sk n where "length n = ad_NonceSize (ec_aead e)" "map_of log i = Some (rs_AccessKey resp, sk)"
      "ct_Bytes ct = ad_Seal (ec_aead e) n sk (uuid_bytes i)" "ct_Nonce ct = n"
    using k(3,4) r(2) by (auto simp: sealed_def sealed_row_def)
  moreover from this assms(1) k(5) have "sk = rs_SecretKey resp"
    by (auto simp: Decrypt_def opens_def split: if_splits option.splits)
  ultimately show ?thesis using c k by auto
qed

text \<open>What storing credentials does when every part answers.\<close>

lemma store_credentials_done:
  assumes "cv_enc env = Some e" "cv_nonce env = Some n" "cv_up env CallSetCredentials" "account_at i db = Some r"
  shows "\<exists>r'. store_credentials env st fail i ak sk db = (Answer st (scanCloudAccount r'), update_account i (\<lambda>r. r\<lparr>cl_AccessKey := Some ak,
        cr_secret_key_encrypted := Some (ad_Seal (ec_aead e) n sk (uuid_bytes i)), cr_secret_key_nonce := Some n, cr_secret_key_kid := Some CurrentKID,
        cl_Status := ''active'', cl_UpdatedAt := cv_now env CallSetCredentials\<rparr>) db) \<and>
      cl_Status r' = ''active'' \<and> cl_DisabledAt r' = cl_DisabledAt r"
  using assms by (auto simp: store_credentials_def Encrypt_def on_accounts_def SetCloudAccountCredentials_cases Let_def)

text \<open>C40: Cloud credentials, error behaviour. An administrator who replaces the credentials of a disabled account opens it: the answer still carries the date of the
  disabling but the status is active, and the collector bound to the account is given the new keys.\<close>

theorem rotated_disabled_account_open:
  assumes "opens e" "requireAdmin admin" "pathUUID env path = Some i" "ak \<noteq> ''''" "sk \<noteq> ''''"
    and "cv_enc env = Some e" "cv_nonce env = Some n" "length n = ad_NonceSize (ec_aead e)" "cv_up env = (\<lambda>_. True)"
    and "account_at i db = Some r" "cl_Status r = ''disabled''" "cl_DisabledAt r = Some t"
    and "Caller_HasScope c ''vm-collector''" "ca_BoundCloudAccountID c = Some i"
  shows "HandleCollectorGetCredentialsByID env (Some c) path db = Refused 403 ''Account Disabled'' \<and>
    (\<exists>acct db'. HandlePatchCloudAccountCredentials env admin path (Some (ak, sk)) db = (Answer 200 acct, db') \<and>
      cl_Status acct = ''active'' \<and> cl_DisabledAt acct = Some t \<and>
      HandleCollectorGetCredentialsByID env (Some c) path db' =
        Answer 200 \<lparr>rs_AccessKey = ak, rs_SecretKey = sk, rs_Region = cl_Region r, rs_Provider = cl_Provider r\<rparr>)"
proof
  have id: "cl_ID r = i" using account_at_Some [OF assms(10)] by simp
  have b: "EnforceCloudAccountBinding c i = None" using binding_iff [OF assms(13)] assms(14) by simp
  note s = HandleCollectorGetCredentialsByID_def requireScope_def on_accounts_def GetCloudAccount_def respondCredentials_def GetCloudAccountCredentials_def
  show "HandleCollectorGetCredentialsByID env (Some c) path db = Refused 403 ''Account Disabled''"
    using assms b id by (simp add: s)
  obtain r' where st: "store_credentials env 200 not_found_or_500 i ak sk db = (Answer 200 (scanCloudAccount r'), update_account i (\<lambda>r. r\<lparr>cl_AccessKey := Some ak,
        cr_secret_key_encrypted := Some (ad_Seal (ec_aead e) n sk (uuid_bytes i)), cr_secret_key_nonce := Some n, cr_secret_key_kid := Some CurrentKID,
        cl_Status := ''active'', cl_UpdatedAt := cv_now env CallSetCredentials\<rparr>) db)"
      "cl_Status r' = ''active''" "cl_DisabledAt r' = Some t"
    using store_credentials_done [OF assms(6,7) _ assms(10), of 200 not_found_or_500 ak sk] assms(9,12) by auto
  then show "\<exists>acct db'. HandlePatchCloudAccountCredentials env admin path (Some (ak, sk)) db = (Answer 200 acct, db') \<and>
      cl_Status acct = ''active'' \<and> cl_DisabledAt acct = Some t \<and>
      HandleCollectorGetCredentialsByID env (Some c) path db' =
        Answer 200 \<lparr>rs_AccessKey = ak, rs_SecretKey = sk, rs_Region = cl_Region r, rs_Provider = cl_Provider r\<rparr>"
    using assms b id by (simp add: HandlePatchCloudAccountCredentials_def s Decrypt_def opens_def)
qed

text \<open>C39: Cloud account registration, error behaviour. A collector whose token is bound to one account and that registers the provider and name of another is answered 403, but the other
  account has the region of the refused request.\<close>

theorem refused_registration_written:
  assumes "Caller_HasScope c ''vm-collector''" "ca_BoundCloudAccountID c = Some j" "cv_up env CallUpsertAccount"
    and "distinct (map cl_ID (cd_accounts db))" "account_at i db = Some r" "i \<noteq> j"
    and "find (\<lambda>r. cl_Provider r = cu_Provider req \<and> cl_Name r = cu_Name req) (cd_accounts db) = Some r"
    and "cu_Provider req \<noteq> ''''" "cu_Name req \<noteq> ''''" "cu_Region req \<noteq> ''''"
  shows "\<exists>db' r'. HandleCollectorRegisterCloudAccount env (Some c) (Some req) db = (Refused 403 ''Forbidden'', db') \<and>
    account_at i db' = Some r' \<and> cl_Region r' = cu_Region req \<and> cl_Provider r' = cl_Provider r \<and> cl_Name r' = cl_Name r"
proof -
  have id: "cl_ID r = i" using account_at_Some [OF assms(5)] by simp
  have "EnforceCloudAccountBinding c i \<noteq> None" using binding_iff [OF assms(1)] assms(2,6) by simp
  then obtain err where "EnforceCloudAccountBinding c i = Some err" by auto
  with assms id show ?thesis
    by (simp add: HandleCollectorRegisterCloudAccount_def requireScope_def on_accounts_def UpsertCloudAccount_def)
qed

lemma take_bit_bytes_inj:
  fixes u v :: uuid
  assumes "\<And>i. i < 16 \<Longrightarrow> take_bit 8 (drop_bit (8 * (15 - i)) u) = take_bit 8 (drop_bit (8 * (15 - i)) v)"
  shows "u = v"
proof (rule bit_word_eqI)
  fix n assume n: "n < LENGTH(128)"
  let ?i = "15 - n div 8"
  have i: "?i < 16" "8 * (15 - ?i) + n mod 8 = n" "n mod 8 < 8" using n by simp_all
  have "bit (take_bit 8 (drop_bit (8 * (15 - ?i)) w)) (n mod 8) = bit w n" for w :: uuid
    using i(2,3) by (simp add: bit_take_bit_iff bit_drop_bit_eq)
  with assms [OF i(1)] show "bit u n = bit v n" by metis
qed

lemma uuid_bytes_inj: "uuid_bytes u = uuid_bytes v \<longleftrightarrow> u = v"
proof
  assume e: "uuid_bytes u = uuid_bytes v"
  show "u = v"
  proof (rule take_bit_bytes_inj)
    fix i :: nat assume i: "i < 16"
    have small: "unat (take_bit 8 w) < 256" for w :: uuid
      using take_bit_nat_less_exp [of 8 "unat w"] by (simp add: unsigned_take_bit_eq)
    have "uuid_bytes u ! i = uuid_bytes v ! i" using e by simp
    then have "unat (take_bit 8 (drop_bit (8 * (15 - i)) u)) = unat (take_bit 8 (drop_bit (8 * (15 - i)) v))"
      using i small by (metis (no_types, lifting) uuid_bytes_def add_0 diff_zero length_upt nth_map nth_upt of_char_of mod_less)
    then show "take_bit 8 (drop_bit (8 * (15 - i)) u) = take_bit 8 (drop_bit (8 * (15 - i)) v)" by (rule word_unat_eq_iff [THEN iffD2])
  qed
qed simp

definition binds_data :: "Encrypter \<Rightarrow> bool" where
  "binds_data e \<longleftrightarrow> (\<forall>n p d d'. d \<noteq> d' \<longrightarrow> length d = length d' \<longrightarrow> ad_Open (ec_aead e) n (ad_Seal (ec_aead e) n p d) d' = None)"

text \<open>Cloud credentials, safety. A row that carries the secret columns sealed for another account, as after a restore that mixes rows, gives no secret key: its
  collector is answered 500.\<close>

theorem moved_ciphertext_refused:
  assumes "binds_data e" "cv_enc env = Some e" "cv_up env = (\<lambda>_. True)" "pathUUID env path = Some i" "i \<noteq> j"
    and "account_at i db = Some r" "cl_Status r \<notin> {''disabled'', ''pending_credentials''}" "cl_AccessKey r = Some ak"
    and "cr_secret_key_encrypted r = Some (ad_Seal (ec_aead e) n sk (uuid_bytes j))" "cr_secret_key_nonce r = Some n" "cr_secret_key_kid r = Some CurrentKID"
    and "Caller_HasScope c ''vm-collector''" "ca_BoundCloudAccountID c = Some i"
  shows "HandleCollectorGetCredentialsByID env (Some c) path db = Refused 500 ''Decryption Failed''"
proof -
  have "uuid_bytes j \<noteq> uuid_bytes i" "length (uuid_bytes j) = length (uuid_bytes i)"
    using assms(5) by (auto simp: uuid_bytes_inj) (simp add: uuid_bytes_def)
  then have "ad_Open (ec_aead e) n (ad_Seal (ec_aead e) n sk (uuid_bytes j)) (uuid_bytes i) = None"
    using assms(1) unfolding binds_data_def by blast
  moreover have "EnforceCloudAccountBinding c i = None" using binding_iff [OF assms(12)] assms(13) by simp
  ultimately show ?thesis
    using assms account_at_Some [OF assms(6)]
    by (simp add: HandleCollectorGetCredentialsByID_def requireScope_def on_accounts_def GetCloudAccount_def respondCredentials_def
        GetCloudAccountCredentials_def Decrypt_def)
qed

section \<open>A disabled account\<close>

text \<open>The requests that may open the account \<open>i\<close> again: its removal, new credentials, its enabling, and a creation with credentials.\<close>

fun may_open :: "uuid \<Rightarrow> cloud_request \<Rightarrow> bool" where
  "may_open i (CreateAccount env c body) = (case body of None \<Rightarrow> False | Some req \<Rightarrow> aq_AccessKey req \<noteq> '''' \<and> aq_SecretKey req \<noteq> '''')"
| "may_open i (SetCredentials env c path body) = (requireAdmin c \<and> pathUUID env path = Some i)"
| "may_open i (EnableAccount env c path) = (requireAdmin c \<and> pathUUID env path = Some i)"
| "may_open i (DeleteAccount env c path) = (requireAdmin c \<and> pathUUID env path = Some i)"
| "may_open i q = False"

definition closed :: "uuid \<Rightarrow> cloud_db \<Rightarrow> bool" where
  "closed i db \<longleftrightarrow> distinct (map cl_ID (cd_accounts db)) \<and> (\<exists>r. account_at i db = Some r \<and> cl_Status r = ''disabled'')"

text \<open>A change of the row of \<open>j\<close> that keeps ids and, when \<open>j\<close> is the account, leaves a disabled row disabled.\<close>

lemma closed_update:
  assumes "closed i db" "\<And>r. cl_ID (f r) = cl_ID r" "\<And>r. j = i \<Longrightarrow> cl_Status r = ''disabled'' \<Longrightarrow> cl_Status (f r) = ''disabled''"
  shows "closed i (update_account j f db)"
proof -
  obtain r where "account_at i db = Some r" "cl_Status r = ''disabled''" using assms(1) by (auto simp: closed_def)
  then have "account_at i (update_account j f db) = Some (if j = i then f r else r)" "cl_Status (if j = i then f r else r) = ''disabled''"
    using assms(2,3) by simp_all
  moreover have "distinct (map cl_ID (cd_accounts (update_account j f db)))" using assms(1,2) by (simp add: closed_def update_account_def ids_update_where)
  ultimately show ?thesis unfolding closed_def by blast
qed

lemma closed_accounts: "closed i db \<Longrightarrow> cd_accounts db' = cd_accounts db \<Longrightarrow> closed i db'"
  by (simp add: closed_def)

lemma closed_Upsert:
  assumes "closed i db" "UpsertCloudAccount j now inp db = (x, db')"
  shows "closed i db'"
proof -
  have find: "find P (rs @ [r']) = Some s" if "find P rs = Some s" for P and rs :: "account_row list" and r' s
    using that by (induction rs) (auto split: if_splits)
  have "closed i (update_account j' (\<lambda>r. r\<lparr>cl_Region := cu_Region inp, cl_UpdatedAt := now\<rparr>) db)" for j' by (rule closed_update [OF assms(1)]) simp_all
  with assms show ?thesis
    by (auto simp: UpsertCloudAccount_def split: if_splits option.splits)
      (auto simp: closed_def find list_ex_iff new_account_def)
qed

lemma closed_Update:
  assumes "closed i db" "UpdateCloudAccount now j p db = (x, db')" "cp_Status p = None"
  shows "closed i db'"
proof -
  have "closed i (update_account j (\<lambda>r. (patch_account p r)\<lparr>cl_UpdatedAt := now\<rparr>) db)"
    using keeps_credentials_ID [OF patch_account_keeps] assms(3) by (intro closed_update [OF assms(1)]) (simp_all add: patch_account_status)
  with assms show ?thesis by (auto simp: UpdateCloudAccount_def GetCloudAccount_def split: if_splits option.splits)
qed

lemma closed_status:
  assumes "closed i db" "UpdateCloudAccountStatus now j s ls le db = (x, db')"
  shows "closed i db'"
proof (cases "j = i")
  case True
  with assms show ?thesis by (auto simp: UpdateCloudAccountStatus_def closed_def split: if_splits)
next
  case False
  have "closed i (update_account j (heartbeat now s ls le) db)"
    using False by (intro closed_update [OF assms(1)]) (simp_all add: heartbeat_def set_if_def split: option.splits)
  with assms show ?thesis by (auto simp: UpdateCloudAccountStatus_def split: if_splits option.splits)
qed

lemma closed_store_credentials:
  assumes "closed i db" "j \<noteq> i"
  shows "closed i (snd (store_credentials env st fail j ak sk db))"
  using assms(1) closed_update [OF assms(1)] assms(2)
  by (auto simp: store_credentials_def Encrypt_def on_accounts_def SetCloudAccountCredentials_cases Let_def split: option.splits)

lemma closed_action:
  assumes "closed i db" "\<And>j x db'. requireAdmin c \<Longrightarrow> pathUUID env path = Some j \<Longrightarrow> act j db = (x, db') \<Longrightarrow> closed i db'"
  shows "closed i (snd (admin_action env c path call act db))"
  using assms by (auto simp: admin_action_def on_accounts_def split: option.splits prod.splits sum.splits if_splits)

lemma closed_Create:
  assumes "closed i db" "\<not> may_open i (CreateAccount env c body)"
  shows "closed i (snd (HandleCreateCloudAccount env c body db))"
proof -
  have p: "cp_Status (create_patch req) = None" for req by (simp add: create_patch_def empty_patch_def)
  show ?thesis
    using assms
    by (auto simp: HandleCreateCloudAccount_def on_accounts_def intro: closed_Upsert closed_Update [OF _ _ p]
        split: option.splits prod.splits sum.splits if_splits)
qed

lemma closed_serve:
  assumes "closed i db" "\<not> may_open i q"
  shows "closed i (serve_cloud q db)"
proof (cases q)
  case (CreateAccount env c body)
  with closed_Create assms show ?thesis by simp
next
  case (SetCredentials env c path body)
  with assms closed_store_credentials [OF assms(1)] show ?thesis
    by (auto simp: HandlePatchCloudAccountCredentials_def split: option.splits)
next
  case (PatchAccount env c path body)
  then show ?thesis
    using assms(1)
    by (auto simp: HandlePatchCloudAccount_def on_accounts_def empty_patch_def intro: closed_Update
        split: option.splits prod.splits sum.splits store_error.splits if_splits)
next
  case (DisableAccount env c path)
  have "closed i (update_account j (\<lambda>r. r\<lparr>cl_Status := ''disabled'', cl_DisabledAt := Some now, cl_UpdatedAt := now\<rparr>) db)" for j now
    by (rule closed_update [OF assms(1)]) simp_all
  with DisableAccount assms(1) show ?thesis
    by (auto simp: HandleDisableCloudAccount_def DisableCloudAccount_def intro!: closed_action split: if_splits)
next
  case (EnableAccount env c path)
  have "closed i (update_account j (\<lambda>r. r\<lparr>cl_Status := (if cl_AccessKey r = None then ''pending_credentials'' else ''active''), cl_DisabledAt := None, cl_UpdatedAt := now\<rparr>) db)"
    if "j \<noteq> i" for j now using that by (intro closed_update [OF assms(1)]) simp_all
  with EnableAccount assms show ?thesis
    by (auto simp: HandleEnableCloudAccount_def EnableCloudAccount_def intro!: closed_action split: if_splits)
next
  case (DeleteAccount env c path)
  have "find (\<lambda>r. cl_ID r = i) (filter (\<lambda>r. cl_ID r \<noteq> j) rs) = find (\<lambda>r. cl_ID r = i) rs" if "j \<noteq> i" for j and rs :: "account_row list"
    using that by (induction rs) auto
  then have "closed i db'" if "DeleteCloudAccount j db = (x, db')" "j \<noteq> i" for j x db'
    using that assms(1) by (auto simp: DeleteCloudAccount_def closed_def distinct_map_filter split: if_splits)
  with DeleteAccount assms show ?thesis by (auto simp: HandleDeleteCloudAccount_def intro!: closed_action)
next
  case (RegisterAccount env c body)
  with assms(1) show ?thesis
    by (auto simp: HandleCollectorRegisterCloudAccount_def on_accounts_def intro: closed_Upsert split: option.splits prod.splits sum.splits if_splits)
next
  case (PatchStatus env c path body)
  with assms(1) show ?thesis
    by (auto simp: HandleCollectorPatchCloudAccountStatus_def on_accounts_def intro: closed_status
        split: option.splits prod.splits sum.splits store_error.splits if_splits)
next
  case (CreateToken env idkey a c path body)
  have "cd_accounts (snd (HandleCreateCloudAccountToken env idkey a c path body db)) = cd_accounts db"
    by (auto simp: HandleCreateCloudAccountToken_def split: option.splits prod.splits sum.splits if_splits)
  with CreateToken assms(1) show ?thesis by (auto intro: closed_accounts)
qed


section \<open>Tokens bound to an account\<close>

text \<open>Collector tokens, round trip. The token that an administrator received for an account, sent as a bearer token before its expiry, is accepted with the collector scope alone and bound to
  that account, so that it is no administrator and every credentials request for the id of another account is refused.\<close>

theorem minted_collector_token_bound:
  assumes "\<And>pw s t m p n. length (ae_idkey aenv pw s t m p n) = n" "ta_prefixBytes a = Some pb" "length pb = tokenPrefixLen div 2"
    and "HandleCreateCloudAccountToken env (ae_idkey aenv) a admin path (Some (name, expires)) db = (Answer st (plain, row), db')"
    and "pathUUID env path = Some i" "case parseOptTime env expires of None \<Rightarrow> True | Some t \<Rightarrow> ae_now aenv < t"
  shows "\<exists>c adb. VerifyBearerToken aenv (pg_store (ae_now aenv)) plain (cd_auth db') = (Inr c, adb) \<and>
    ca_Scopes c = [''vm-collector''] \<and> ca_BoundCloudAccountID c = Some i \<and> \<not> requireAdmin (Some c) \<and> account_at i db' \<noteq> None \<and>
    (\<forall>env' path' j db''. pathUUID env' path' = Some j \<and> j \<noteq> i \<longrightarrow>
       HandleCollectorGetCredentialsByID env' (Some c) path' db'' = Refused 403 ''Forbidden'')"
proof -
  obtain k where admin: "admin = Some k" using assms(4) by (cases admin) (auto simp: HandleCreateCloudAccountToken_def)
  obtain minted where k: "account_at i db \<noteq> None" and m: "MintToken (ae_idkey aenv) (Some pb) (ta_suffixBytes a) (ta_salt a) = Inr minted"
    and plain: "plain = Plaintext minted"
    and t: "CreateAPIToken (cv_now env CallCreateToken)
       \<lparr>ai_ID = ta_id a, ai_Name = name, ai_Prefix = Prefix minted, ai_Hash = Hash minted, ai_Scopes = [''vm-collector''],
        ai_CreatedByUserID = ca_UserID k, ai_ExpiresAt = parseOptTime env expires, ai_BoundCloudAccountID = Some i\<rparr> (cd_auth db) = (Inr row, cd_auth db')"
    and acc: "cd_accounts db' = cd_accounts db"
    using assms(2,4,5) admin
    by (auto simp: HandleCreateCloudAccountToken_def on_accounts_def GetCloudAccount_def handleAccountLookupErr_def
        split: option.splits prod.splits sum.splits if_splits)
  note v = minted_row_verifies [where env = aenv and env' = aenv, OF assms(1,3) m t]
  let ?c = "\<lparr>ca_Kind = CallerKindToken, ca_UserID = ca_UserID k, ca_TokenID = ta_id a, ca_SessionID = '''', ca_Username = '''', ca_TokenName = name,
    ca_Role = '''', ca_Scopes = [''vm-collector''], ca_MustChangePassword = False, ca_BoundCloudAccountID = Some i\<rparr>"
  have "VerifyBearerToken aenv (pg_store (ae_now aenv)) plain (cd_auth db') = (Inr ?c, TouchToken (ta_id a) (ae_now aenv) (cd_auth db'))"
    using v assms(6) by (simp add: plain)
  moreover have "HandleCollectorGetCredentialsByID env' (Some ?c) path' db'' = Refused 403 ''Forbidden''"
    if "pathUUID env' path' = Some j" "j \<noteq> i" for env' path' j db''
    using that by (simp add: HandleCollectorGetCredentialsByID_def requireScope_def Caller_HasScope_def EnforceCloudAccountBinding_def)
  ultimately show ?thesis using k acc by (intro exI [of _ ?c]) (simp add: requireAdmin_def)
qed

section \<open>Names\<close>

text \<open>Cloud credentials, error behaviour. Names are unique only within a provider: a newer account of the same name with another provider hides an account from its collector, whose request by
  name is answered as if the account did not exist.\<close>

theorem same_name_hides_account:
  assumes "account_at i db = Some r" "account_at j db = Some s" "i \<noteq> j" "cl_Name s = cl_Name r" "cl_Name r \<noteq> ''''" "distinct (map cl_ID (cd_accounts db))"
    and newest: "\<forall>x\<in>set (cd_accounts db). cl_Name x = cl_Name r \<and> x \<noteq> s \<longrightarrow> cl_CreatedAt x < cl_CreatedAt s"
    and "Caller_HasScope c ''vm-collector''" "ca_BoundCloudAccountID c = Some i" "cv_up env CallAccountByName"
  shows "HandleCollectorGetCredentialsByName env (Some c) (cl_Name r) db = Refused 404 ''Cloud Account Not Registered''"
proof -
  let ?cands = "filter (\<lambda>x. cl_Name x = cl_Name r) (cd_accounts db)"
  let ?rows = "sort_key cl_CreatedAt (sort_key cl_ID ?cands)"
  have s: "s \<in> set ?rows" "cl_ID s = j" using account_at_Some [OF assms(2)] assms(4) by simp_all
  then have "rev ?rows \<noteq> []" by (metis empty_iff list.set(1) rev_is_Nil_conv)
  then obtain x rest where x: "rev ?rows = x # rest" by (cases "rev ?rows") auto
  have rows: "?rows = rev rest @ [x]" using x by (metis rev.simps(2) rev_rev_ident)
  have "sorted (map cl_CreatedAt ?rows)" by simp
  then have top: "cl_CreatedAt y \<le> cl_CreatedAt x" if "y \<in> set ?rows" for y
    using that unfolding rows by (auto simp: sorted_append)
  have "x \<in> set ?rows" unfolding rows by simp
  then have "x \<in> set (cd_accounts db)" "cl_Name x = cl_Name r" by simp_all
  with newest top [OF s(1)] have "x = s" by fastforce
  then have l: "lookupAccountByName env (cl_Name r) db = Inr (scanCloudAccount s)"
    using x assms(10) by (simp add: lookupAccountByName_def on_accounts_def GetCloudAccountByNameAny_def)
  have "EnforceCloudAccountBinding c j \<noteq> None" using binding_iff [OF assms(8)] assms(3,9) by simp
  with l s(2) assms(5,8) show ?thesis by (auto simp: HandleCollectorGetCredentialsByName_def requireScope_def)
qed

section \<open>A concrete server\<close>

text \<open>An encrypter that keeps the associated data in front of the plaintext.\<close>

definition demo_aead :: aead where
  "demo_aead = \<lparr>ad_NonceSize = 12, ad_Seal = (\<lambda>n p d. d @ p),
     ad_Open = (\<lambda>n c d. if take (length d) c = d then Some (drop (length d) c) else None)\<rparr>"

definition demo_enc :: Encrypter where
  "demo_enc = \<lparr>ec_aead = demo_aead, ec_keyHash = ''hash''\<rparr>"

lemma demo_opens: "opens demo_enc"
  by (simp add: opens_def demo_enc_def demo_aead_def)

lemma demo_binds: "binds_data demo_enc"
  by (simp add: binds_data_def demo_enc_def demo_aead_def)

definition demo_cloud :: cloud_env where
  "demo_cloud = \<lparr>cv_up = (\<lambda>_. True), cv_now = (\<lambda>_. 100), cv_id = 7, cv_nonce = Some ''nonce-nonce-'', cv_enc = Some demo_enc,
     cv_Parse = (\<lambda>s. if s = ''7'' then Some 7 else if s = ''8'' then Some 8 else None), cv_ParseTime = (\<lambda>_. None)\<rparr>"

definition cloud_caller :: "string \<Rightarrow> string list \<Rightarrow> uuid option \<Rightarrow> Caller" where
  "cloud_caller role scopes bound = \<lparr>ca_Kind = CallerKindToken, ca_UserID = 1, ca_TokenID = 2, ca_SessionID = '''', ca_Username = '''', ca_TokenName = '''',
     ca_Role = role, ca_Scopes = scopes, ca_MustChangePassword = False, ca_BoundCloudAccountID = bound\<rparr>"

abbreviation cloud_admin :: Caller where "cloud_admin \<equiv> cloud_caller ''admin'' [''admin''] None"
abbreviation cloud_collector :: "uuid \<Rightarrow> Caller" where "cloud_collector i \<equiv> cloud_caller '''' [''vm-collector''] (Some i)"

definition empty_cloud :: cloud_db where
  "empty_cloud = \<lparr>cd_accounts = [], cd_auth = login_db\<rparr>"

definition demo_create :: adminCreateCloudAccountReq where
  "demo_create = \<lparr>aq_Provider = ''outscale'', aq_Name = ''prod'', aq_Region = ''eu'', aq_AccessKey = ''AK1'', aq_SecretKey = ''SK1'', aq_Owner = Some ''ops'',
     aq_Criticality = None, aq_Notes = None, aq_RunbookURL = None\<rparr>"

definition demo_requests :: "cloud_request list" where
  "demo_requests = [CreateAccount demo_cloud (Some cloud_admin) (Some demo_create), SetCredentials demo_cloud (Some cloud_admin) ''7'' (Some (''AK2'', ''SK2'')),
     SetCredentials demo_cloud (Some (cloud_collector 7)) ''7'' (Some (''AK3'', ''SK3''))]"

text \<open>The table after requests that have set these keys.\<close>

definition demo_row :: "string \<Rightarrow> string \<Rightarrow> account_row" where
  "demo_row ak sk = (new_account 7 100 \<lparr>cu_Provider = ''outscale'', cu_Name = ''prod'', cu_Region = ''eu''\<rparr>)\<lparr>cl_Owner := Some ''ops'', cl_Status := ''active'',
     cl_AccessKey := Some ak, cr_secret_key_encrypted := Some (uuid_bytes 7 @ sk), cr_secret_key_nonce := Some ''nonce-nonce-'', cr_secret_key_kid := Some CurrentKID\<rparr>"

definition demo_db :: "account_row list \<Rightarrow> cloud_db" where
  "demo_db rows = \<lparr>cd_accounts = rows, cd_auth = login_db\<lparr>cloud_account_ids := cloud_account_ids login_db @ [7]\<rparr>\<rparr>"

lemmas demo_defs = demo_cloud_def demo_enc_def demo_aead_def cloud_caller_def demo_create_def empty_cloud_def demo_row_def demo_db_def new_account_def
lemmas admin_defs = requireAdmin_def pathUUID_def on_accounts_def store_credentials_def Encrypt_def SetCloudAccountCredentials_cases
lemmas table_defs = UpsertCloudAccount_def UpdateCloudAccount_def GetCloudAccount_def update_account_def update_where_def patch_account_def set_if_def create_patch_def
  empty_patch_def

lemma demo_first: "serve_log (CreateAccount demo_cloud (Some cloud_admin) (Some demo_create)) (empty_cloud, []) = (demo_db [demo_row ''AK1'' ''SK1''], [(7, ''AK1'', ''SK1'')])"
  by (simp add: serve_log_pair HandleCreateCloudAccount_def admin_defs table_defs demo_defs)

lemma demo_second:
  "serve_log (SetCredentials demo_cloud (Some cloud_admin) ''7'' (Some (ak, sk))) (demo_db [demo_row ak0 sk0], log) =
     (if ak = [] \<or> sk = [] then (demo_db [demo_row ak0 sk0], log) else (demo_db [demo_row ak sk], (7, ak, sk) # log))"
  by (simp add: serve_log_pair HandlePatchCloudAccountCredentials_def admin_defs table_defs demo_defs)

lemma demo_third:
  "serve_log (SetCredentials demo_cloud (Some (cloud_collector 7)) ''7'' body) s = s"
  by (cases s) (simp add: serve_log_pair HandlePatchCloudAccountCredentials_def requireAdmin_def cloud_caller_def)

lemma demo_run: "fold serve_log demo_requests (empty_cloud, []) = (demo_db [demo_row ''AK2'' ''SK2''], [(7, ''AK2'', ''SK2''), (7, ''AK1'', ''SK1'')])"
  by (simp add: demo_requests_def demo_first demo_second demo_third)

lemma demo_uses: "list_all (uses demo_enc) demo_requests"
  by (simp add: demo_requests_def uses_def demo_cloud_def demo_enc_def demo_aead_def)

lemma demo_collector: "Caller_HasScope (cloud_collector i) ''vm-collector''" "ca_BoundCloudAccountID (cloud_collector i) = Some i"
  by (simp_all add: cloud_caller_def Caller_HasScope_def)

definition demo_resp :: credentialsResp where
  "demo_resp = \<lparr>rs_AccessKey = ''AK2'', rs_SecretKey = ''SK2'', rs_Region = ''eu'', rs_Provider = ''outscale''\<rparr>"

lemma demo_credentials: "HandleCollectorGetCredentialsByID demo_cloud (Some (cloud_collector 7)) ''7'' (demo_db [demo_row ''AK2'' ''SK2'']) = Answer 200 demo_resp"
  by (simp add: HandleCollectorGetCredentialsByID_def requireScope_def pathUUID_def on_accounts_def GetCloudAccount_def respondCredentials_def
      GetCloudAccountCredentials_def Decrypt_def demo_defs demo_resp_def Caller_HasScope_def EnforceCloudAccountBinding_def scanCloudAccount_def CloudAccount.defs)

theorem credentials_latest_witness:
  "credentials_answer demo_cloud (cloud_collector 7) (fst (fold serve_log demo_requests (empty_cloud, []))) demo_resp \<and>
   map_of (snd (fold serve_log demo_requests (empty_cloud, []))) 7 = Some (rs_AccessKey demo_resp, rs_SecretKey demo_resp)"
proof
  show a: "credentials_answer demo_cloud (cloud_collector 7) (fst (fold serve_log demo_requests (empty_cloud, []))) demo_resp"
    unfolding demo_run fst_conv credentials_answer_def using demo_credentials by blast
  have "cd_accounts empty_cloud = []" "cv_enc demo_cloud = Some demo_enc" by (simp_all add: empty_cloud_def demo_cloud_def)
  from credentials_latest [OF demo_opens demo_uses this(1) demo_run this(2) a [unfolded demo_run fst_conv]]
  show "map_of (snd (fold serve_log demo_requests (empty_cloud, []))) 7 = Some (rs_AccessKey demo_resp, rs_SecretKey demo_resp)"
    unfolding demo_run snd_conv using demo_collector(2) [of 7] by auto
qed

definition disabled_row :: account_row where
  "disabled_row = (demo_row ''AK2'' ''SK2'')\<lparr>cl_Status := ''disabled'', cl_DisabledAt := Some 50\<rparr>"

lemma demo_row_columns:
  "cl_ID (demo_row ak sk) = 7" "cl_Provider (demo_row ak sk) = ''outscale''" "cl_Name (demo_row ak sk) = ''prod''" "cl_Region (demo_row ak sk) = ''eu''"
  "cl_Status (demo_row ak sk) = ''active''" "cl_CreatedAt (demo_row ak sk) = 100" "cl_AccessKey (demo_row ak sk) = Some ak"
  "cr_secret_key_encrypted (demo_row ak sk) = Some (uuid_bytes 7 @ sk)" "cr_secret_key_nonce (demo_row ak sk) = Some ''nonce-nonce-''"
  "cr_secret_key_kid (demo_row ak sk) = Some CurrentKID"
  by (simp_all add: demo_row_def new_account_def)

lemma disabled_row_columns: "cl_ID disabled_row = 7" "cl_Status disabled_row = ''disabled''" "cl_DisabledAt disabled_row = Some 50"
  "cl_Region disabled_row = ''eu''" "cl_Provider disabled_row = ''outscale''"
  by (simp_all add: disabled_row_def demo_row_columns)

theorem rotated_disabled_account_open_witness:
  "HandleCollectorGetCredentialsByID demo_cloud (Some (cloud_collector 7)) ''7'' (demo_db [disabled_row]) = Refused 403 ''Account Disabled'' \<and>
   (\<exists>acct db'. HandlePatchCloudAccountCredentials demo_cloud (Some cloud_admin) ''7'' (Some (''AK4'', ''SK4'')) (demo_db [disabled_row]) = (Answer 200 acct, db') \<and>
      cl_Status acct = ''active'' \<and> cl_DisabledAt acct = Some 50 \<and>
      HandleCollectorGetCredentialsByID demo_cloud (Some (cloud_collector 7)) ''7'' db' =
        Answer 200 \<lparr>rs_AccessKey = ''AK4'', rs_SecretKey = ''SK4'', rs_Region = cl_Region disabled_row, rs_Provider = cl_Provider disabled_row\<rparr>)"
proof (rule rotated_disabled_account_open [OF demo_opens, where n = "''nonce-nonce-''"])
  show "account_at 7 (demo_db [disabled_row]) = Some disabled_row" by (simp add: demo_db_def disabled_row_columns)
qed (simp_all add: requireAdmin_def cloud_caller_def pathUUID_def demo_cloud_def demo_enc_def demo_aead_def disabled_row_columns Caller_HasScope_def)

theorem refused_registration_written_witness:
  "\<exists>db' r'. HandleCollectorRegisterCloudAccount demo_cloud (Some (cloud_collector 8))
      (Some \<lparr>cu_Provider = ''outscale'', cu_Name = ''prod'', cu_Region = ''us''\<rparr>) (demo_db [demo_row ''AK1'' ''SK1'']) = (Refused 403 ''Forbidden'', db') \<and>
    account_at 7 db' = Some r' \<and> cl_Region r' = cu_Region \<lparr>cu_Provider = ''outscale'', cu_Name = ''prod'', cu_Region = ''us''\<rparr> \<and>
    cl_Provider r' = cl_Provider (demo_row ''AK1'' ''SK1'') \<and> cl_Name r' = cl_Name (demo_row ''AK1'' ''SK1'')"
  by (rule refused_registration_written [OF demo_collector]) (simp_all add: demo_cloud_def demo_db_def demo_row_columns)

text \<open>The secret of the account 8 under the id of the account 7.\<close>

definition moved_row :: account_row where
  "moved_row = (demo_row ''AK1'' ''SK1'')\<lparr>cr_secret_key_encrypted := Some (ad_Seal (ec_aead demo_enc) ''nonce-nonce-'' ''SK8'' (uuid_bytes 8))\<rparr>"

theorem moved_ciphertext_refused_witness:
  "HandleCollectorGetCredentialsByID demo_cloud (Some (cloud_collector 7)) ''7'' (demo_db [moved_row]) = Refused 500 ''Decryption Failed''"
proof (rule moved_ciphertext_refused [OF demo_binds])
  show "account_at 7 (demo_db [moved_row]) = Some moved_row" by (simp add: demo_db_def moved_row_def demo_row_columns)
  show "cr_secret_key_encrypted moved_row = Some (ad_Seal (ec_aead demo_enc) ''nonce-nonce-'' ''SK8'' (uuid_bytes 8))" by (simp add: moved_row_def)
qed (simp_all add: demo_collector demo_cloud_def pathUUID_def moved_row_def demo_row_columns)


text \<open>Account 8 has the name of account 7 and was created later.\<close>

definition later_row :: account_row where
  "later_row = new_account 8 200 \<lparr>cu_Provider = ''aws'', cu_Name = ''prod'', cu_Region = ''us''\<rparr>"

lemma later_row_columns: "cl_ID later_row = 8" "cl_Name later_row = ''prod''" "cl_CreatedAt later_row = 200"
  by (simp_all add: later_row_def new_account_def)

theorem same_name_hides_account_witness:
  "HandleCollectorGetCredentialsByName demo_cloud (Some (cloud_collector 7)) (cl_Name (demo_row ''AK1'' ''SK1'')) (demo_db [demo_row ''AK1'' ''SK1'', later_row]) =
     Refused 404 ''Cloud Account Not Registered''"
proof (rule same_name_hides_account [where i = 7 and j = 8 and s = later_row])
  show "account_at 7 (demo_db [demo_row ''AK1'' ''SK1'', later_row]) = Some (demo_row ''AK1'' ''SK1'')"
    "account_at 8 (demo_db [demo_row ''AK1'' ''SK1'', later_row]) = Some later_row" by (simp_all add: demo_db_def demo_row_columns later_row_columns)
qed (auto simp: demo_collector demo_cloud_def demo_db_def demo_row_columns later_row_columns)

text \<open>A token for the account 7, minted by the user 1.\<close>

definition token_db :: cloud_db where
  "token_db = demo_db [demo_row ''AK1'' ''SK1'']"

lemma demo_minted:
  "\<exists>plain row db'. HandleCreateCloudAccountToken demo_cloud (ae_idkey session_env) sample_token_args (Some cloud_admin) ''7'' (Some (''collector'', None)) token_db =
     (Answer 201 (plain, row), db')"
proof -
  have "user_exists 1 (cd_auth token_db)" by (simp add: user_exists_def token_db_def demo_db_def login_db_def admin_row_def new_user_def)
  moreover have "hex_encode ''abcd'' = ''61626364''" "TrimSpace ''collector'' = ''collector''" by code_simp+
  moreover have "account_at 7 token_db = Some (demo_row ''AK1'' ''SK1'')" by (simp add: token_db_def demo_db_def demo_row_columns)
  moreover have "7 \<in> set (cloud_account_ids (cd_auth token_db))" "api_tokens (cd_auth token_db) = api_tokens sample_db"
    by (simp_all add: token_db_def demo_db_def login_db_def)
  ultimately show ?thesis
    by (simp add: HandleCreateCloudAccountToken_def requireAdmin_def cloud_caller_def pathUUID_def demo_cloud_def on_accounts_def GetCloudAccount_def
        MintToken_def sample_token_args_def RandomSecret_def HashPassword_def CreateAPIToken_def getAPIToken_def parseOptTime_def sample_db_def Let_def)
qed

theorem minted_collector_token_bound_witness:
  "\<exists>plain row db' c adb.
     HandleCreateCloudAccountToken demo_cloud (ae_idkey session_env) sample_token_args (Some cloud_admin) ''7'' (Some (''collector'', None)) token_db =
       (Answer 201 (plain, row), db') \<and>
     VerifyBearerToken session_env (pg_store 50) plain (cd_auth db') = (Inr c, adb) \<and> ca_BoundCloudAccountID c = Some 7 \<and>
     HandleCollectorGetCredentialsByID demo_cloud (Some c) ''8'' db' = Refused 403 ''Forbidden''"
proof -
  obtain plain row db' where m: "HandleCreateCloudAccountToken demo_cloud (ae_idkey session_env) sample_token_args (Some cloud_admin) ''7''
      (Some (''collector'', None)) token_db = (Answer 201 (plain, row), db')" using demo_minted by blast
  have h: "length (ae_idkey session_env pw s t m p n) = n" for pw s t m p n by (simp add: session_env_def sample_idkey_length)
  have p: "ta_prefixBytes sample_token_args = Some ''abcd''" "length ''abcd'' = tokenPrefixLen div 2" "pathUUID demo_cloud ''7'' = Some 7"
    "case parseOptTime demo_cloud None of None \<Rightarrow> True | Some t \<Rightarrow> ae_now session_env < t"
    by (simp_all add: sample_token_args_def tokenPrefixLen_def pathUUID_def demo_cloud_def parseOptTime_def)
  have "pathUUID demo_cloud ''8'' = Some 8 \<and> (8 :: uuid) \<noteq> 7" by (simp add: pathUUID_def demo_cloud_def)
  moreover have "ae_now session_env = 50" by (simp add: session_env_def)
  ultimately show ?thesis using minted_collector_token_bound [OF h p(1,2) m p(3,4)] m by metis
qed

end
