(* ===== verification/Spec2Isabelle.thy ===== *)
theory Spec2Isabelle
  imports Gateway Auth_Handlers Auth_Lists Mcp_Server Impact Collector_Theorems Netpol_Collector Cloud_Accounts
begin

text \<open>
  \<^bold>\<open>longue-vue\<close>: a verification library.

  longue-vue is an inventory (CMDB) server for Kubernetes clusters and cloud accounts. Its parts: the \<^emph>\<open>server\<close> with a
  PostgreSQL store (\<^verbatim>\<open>src/internal/api\<close>, \<^verbatim>\<open>src/internal/store\<close>, \<^verbatim>\<open>src/internal/auth\<close>); the \<^emph>\<open>ingest gateway\<close>
  (\<^verbatim>\<open>src/internal/ingestgw\<close>), a reverse proxy in front of the server's ingest listener that collectors push through and
  that verifies their tokens with \<^verbatim>\<open>POST /v1/auth/verify\<close>; the \<^emph>\<open>MCP server\<close> (\<^verbatim>\<open>src/internal/mcp\<close>), read-only tools over
  the same store; \<^emph>\<open>impact analysis\<close> (\<^verbatim>\<open>src/internal/impact\<close>); collectors and enrichers.

  \<^bold>\<open>Conventions.\<close> Times are nanoseconds (\<open>int\<close>, 0 the zero time), strings are byte lists, a Go map is an association list with
  distinct keys (\<open>gomap\<close>), Go's \<^verbatim>\<open>container/list\<close> together with a map is a list of keys and a map with an invariant that
  links the two, errors are values of a sum type. A PostgreSQL transaction is one step on a record of tables. What is not under
  \<^verbatim>\<open>src/\<close> is a parameter: SHA-256 and Argon2, the token bucket of \<^verbatim>\<open>golang.org/x/time/rate\<close>, JSON and time formats, the
  collation of the database, the identity provider, the answers of the network.

  \<^bold>\<open>Theories.\<close>
  \<^item> \<^verbatim>\<open>Prelude\<close>: times, Go maps, byte strings and lemmas all theories share.
  \<^item> \<^verbatim>\<open>Cache_Spec\<close>: what a bounded LRU cache promises (locale \<open>bounded_cache\<close>), its abstract list, and the map-plus-list facts both
    caches use.
  \<^item> \<^verbatim>\<open>Gateway_Cache\<close> (\<^verbatim>\<open>ingestgw/cache.go\<close>): the token cache refines the abstract one, stays bounded, and a valid answer is fresh.
  \<^item> \<^verbatim>\<open>Gateway_Singleflight\<close> (\<^verbatim>\<open>SingleflightGet\<close>): an interleaving model of any number of goroutines; one loader per token, no
    waiter forgotten, no deadlock; and the sequential function the handler uses.
  \<^item> \<^verbatim>\<open>Gateway_Allowlist\<close> (\<^verbatim>\<open>ingestgw/allowlist.go\<close>, \<^verbatim>\<open>api/ingest_mux.go\<close>): the route table, its matcher, and what the
    listener behind it serves.
  \<^item> \<^verbatim>\<open>Gateway\<close> (\<^verbatim>\<open>ingestgw/server.go\<close>, \<^verbatim>\<open>proxy.go\<close>, \<^verbatim>\<open>verify_client.go\<close>): the request path; only verified requests are forwarded,
    forged headers are not, every refusal has its status.
  \<^item> \<^verbatim>\<open>Auth_Tokens\<close> (\<^verbatim>\<open>auth/tokens.go\<close>, \<^verbatim>\<open>passwords.go\<close>, \<^verbatim>\<open>session.go\<close>): base64, token format, password hashes; round trips.
  \<^item> \<^verbatim>\<open>Auth_Store\<close> (\<^verbatim>\<open>store/pg_auth.go\<close>): the authentication tables with their constraints and every operation on them; schema
    invariant, the last administrator, revocation, single use of OIDC states.
  \<^item> \<^verbatim>\<open>Http_Util\<close> (\<^verbatim>\<open>httputil/httputil.go\<close>): trusted proxies and client addresses.
  \<^item> \<^verbatim>\<open>Auth_Middleware\<close> (\<^verbatim>\<open>auth/middleware.go\<close>): the interface \<^verbatim>\<open>auth.Store\<close> as a locale, interpreted on the store; cookies, bearer
    tokens, scopes.
  \<^item> \<^verbatim>\<open>Auth_Handlers\<close> (\<^verbatim>\<open>api/auth_handlers.go\<close>): login and lockout, tokens, users, sessions, the OIDC flow.
  \<^item> \<^verbatim>\<open>Pagination\<close> (\<^verbatim>\<open>store/pg.go\<close>, \<^verbatim>\<open>collectAll\<close>): cursors, keyset predicates, name patterns; the locale \<open>list_method\<close> proves once that
    following the cursors lists every row exactly once in order. \<^verbatim>\<open>Auth_Lists\<close> interprets it on the user, session and token lists.
  \<^item> \<^verbatim>\<open>Mcp_Auth\<close> (\<^verbatim>\<open>mcp/auth_cache.go\<close>, \<^verbatim>\<open>buildMCPAuthFn\<close>), \<^verbatim>\<open>Rate_Limit\<close> (\<^verbatim>\<open>api/ratelimit.go\<close>, \<^verbatim>\<open>mcp/ratelimit.go\<close>),
    \<^verbatim>\<open>Mcp_Server\<close> (\<^verbatim>\<open>mcp/server.go\<close>, \<^verbatim>\<open>audit.go\<close>): who may call a tool, how often, and what is recorded.
  \<^item> \<^verbatim>\<open>Impact\<close> (\<^verbatim>\<open>internal/impact\<close>): the traverser and its handler; the graph is bounded, well formed and sound.
  \<^item> \<^verbatim>\<open>Time_Travel\<close> (\<^verbatim>\<open>internal/timetravel\<close>, \<^verbatim>\<open>store/pg_history.go\<close>, \<^verbatim>\<open>api/history_handlers.go\<close>): diffs are patches, and the
    as-of query answers the last snapshot recorded by then.
  \<^item> \<^verbatim>\<open>Inventory_Data\<close>, \<^verbatim>\<open>Inventory\<close> (\<^verbatim>\<open>store/pg_clusters.go\<close>, \<^verbatim>\<open>pg_namespaces.go\<close>, \<^verbatim>\<open>pg_nodes.go\<close>, \<^verbatim>\<open>pg_workloads.go\<close>, \<^verbatim>\<open>pg_pods.go\<close>,
    \<^verbatim>\<open>pg_services.go\<close>, \<^verbatim>\<open>pg_ingresses.go\<close>, \<^verbatim>\<open>pg_persistent_volumes.go\<close>, \<^verbatim>\<open>pg_persistent_volume_claims.go\<close>, \<^verbatim>\<open>pg_timetravel.go\<close>): the nine tables of
    the Kubernetes inventory with the constraints of the schema, and every operation that writes them. \<^verbatim>\<open>Inventory_Invariant\<close>: the schema holds after every sequence of
    operations. \<^verbatim>\<open>Inventory_History\<close>: the locale \<open>historied\<close>, interpreted on the four tables with a history, gives that the as-of query at the present shows the present.
    \<^verbatim>\<open>Inventory_Delete\<close>: what a soft delete of a cluster removes and records, and the history row of an upsert that changes nothing.
  \<^item> \<^verbatim>\<open>Collector\<close> (\<^verbatim>\<open>collector/collector.go\<close>): one poll over the model of the store, where every call may fail or be answered too late.
    \<^verbatim>\<open>Collector_Mirror\<close> states what the collector relies on as the locale \<open>mirrored\<close>, interpreted for the eight tables; \<^verbatim>\<open>Collector_Poll\<close> and \<^verbatim>\<open>Collector_Exact\<close> have the
    stages; \<^verbatim>\<open>Collector_Theorems\<close>: a poll without errors leaves a mirror of the cluster, a failed listing removes nothing, a failed upsert does.
  \<^item> \<^verbatim>\<open>Flow_Matrix\<close> (\<^verbatim>\<open>internal/flowmatrix\<close>): endpoint groups, and the comparison of discovered rules with declared references, equal to a
    reference definition on sets of traffic. \<^verbatim>\<open>Flow_Store\<close> (\<^verbatim>\<open>store/pg_security_groups.go\<close>, \<^verbatim>\<open>pg_vm_sg_attachments.go\<close>, \<^verbatim>\<open>pg_network_policies.go\<close>,
    \<^verbatim>\<open>pg_endpoint_groups.go\<close>, \<^verbatim>\<open>pg_flow_references.go\<close>, \<^verbatim>\<open>pg_settings.go\<close>): its tables. \<^verbatim>\<open>Flow_Handlers\<close> (\<^verbatim>\<open>api/flow_matrix_handlers.go\<close>,
    \<^verbatim>\<open>flow_drift.go\<close>, \<^verbatim>\<open>flow_matrix_extract.go\<close>, \<^verbatim>\<open>metricsrefresh\<close>): the request with its store errors; drift events are throttled over every
    sequence of requests (\<open>drift_reach\<close>) and, while the audit table answers, not missed. \<^verbatim>\<open>Flow_Admin\<close> (\<^verbatim>\<open>flow_reference_handlers.go\<close>,
    \<^verbatim>\<open>endpoint_group_handlers.go\<close>, \<^verbatim>\<open>security_group_sweep_handler.go\<close>, \<^verbatim>\<open>asset_network_rules_handlers.go\<close>): stored references are valid, an export can be
    imported, a sweep stays within its account.
  \<^item> \<^verbatim>\<open>Netpol_Collector\<close> (\<^verbatim>\<open>collector/netpol_collector.go\<close>, the network policies of \<^verbatim>\<open>kube.go\<close> and \<^verbatim>\<open>apiclient/client.go\<close>,
    \<^verbatim>\<open>network_policy_push_handlers.go\<close>): collection in the server and over HTTP; what a collection leaves, what a failed one keeps, and where the two
    ways differ.
  \<^item> \<^verbatim>\<open>Cloud_Accounts\<close> (\<^verbatim>\<open>secrets/encrypter.go\<close>, \<^verbatim>\<open>store/pg_cloud_accounts.go\<close>, \<^verbatim>\<open>api/cloud_account_handlers.go\<close>): accounts, their sealed credentials and
    the tokens bound to them; over every sequence of requests a collector is given the last keys of its own account only, and a disabled account stays closed.

  This theory holds what spans them: the gateway's answers agree with the server's about a token.

  \<^bold>\<open>Bounds and fuel.\<close> No fuel is used for a loop of the code: the loops are structural, or have a measure, or are
  partial functions whose termination is a property (\<^verbatim>\<open>collectAll\<close>). The hop count of the impact walk is the code's own limit.

  \<^bold>\<open>Not modelled.\<close> Generated code, the web interface, the process wiring, network and TLS I/O, Prometheus registration, and the
  libraries behind the parameters. The MCP tool bodies and the CRUD handlers of \<^verbatim>\<open>server.go\<close>, which pass a request to one store operation; the tables
  of virtual machines and applications, whose operations repeat the patterns of \<^verbatim>\<open>Inventory\<close>; the paginated lists other than those of
  \<^verbatim>\<open>Auth_Lists\<close>; the virtual machine collector, end-of-life and image version enrichment, which follow the data of outside services; the
  encoders of the extracts.
\<close>

section \<open>The gateway and the server agree about a token\<close>

text \<open>The answer of the verify endpoint on the wire. The server's fields that are absent are decoded by the gateway as Go's zero values; the
  server never sets the expiry. \<open>uuidString\<close> and \<open>marshal\<close> are the encodings.\<close>

definition verify_wire_body :: "(uuid \<Rightarrow> string) \<Rightarrow> VerifyTokenResponse \<Rightarrow> verifyResponseBody" where
  "verify_wire_body uuidString resp =
     \<lparr>vr_Valid = True, vr_CallerID = uuidString (vt_CallerId resp), vr_Kind = ''token'',
      vr_TokenName = (case vt_TokenName resp of None \<Rightarrow> '''' | Some n \<Rightarrow> n), vr_Scopes = vt_Scopes resp,
      vr_BoundCloudAccountID = (case vt_BoundCloudAccountId resp of None \<Rightarrow> '''' | Some i \<Rightarrow> uuidString i), vr_Exp = 0\<rparr>"

definition verify_wire :: "(verifyResponseBody \<Rightarrow> string) \<Rightarrow> (uuid \<Rightarrow> string) \<Rightarrow> int + VerifyTokenResponse \<Rightarrow> verify_answer" where
  "verify_wire marshal uuidString answer =
     (case answer of
        Inl status \<Rightarrow> VerifyResp status ''''
      | Inr resp \<Rightarrow> VerifyResp 200 (marshal (verify_wire_body uuidString resp)))"

lemma scopes_grant_has_scope: "scopes_grant ss want = has_scope ss want"
  by (induction ss) auto

text \<open>What the middleware does with a bearer token and no cookie.\<close>

lemma Middleware_bearer:
  assumes "token \<noteq> ''''" "ar_Cookie r = None" "ar_Authorization r = ''Bearer '' @ token"
  shows "fst (Middleware env store (Some required) cookie r db) =
    (case fst (VerifyBearerToken env store token db) of
       Inl e \<Rightarrow> Problem 401 ''Unauthorized''
     | Inr caller \<Rightarrow> if list_all (Caller_HasScope caller) required then Next (Some caller) else Problem 403 ''Forbidden'')"
proof -
  have "\<not> ca_MustChangePassword caller" if "fst (VerifyBearerToken env store token db) = Inr caller" for caller
    using that by (auto simp: VerifyBearerToken_def split: sum.splits prod.splits option.splits)
  then show ?thesis
    using assms
    by (auto simp: Middleware_def requiredScopes_def resolve_def tryCookie_def tryBearer_def Let_def TrimPrefix_def list_ex_iff list_all_iff
        split: sum.splits prod.splits)
qed



end
